(* ===== verification/SMO_Prelude.thy ===== *)
theory SMO_Prelude
  imports Main "HOL-Library.AList" "HOL-Library.Char_ord" "HOL-Library.List_Lexorder"
    "HOL-Library.Product_Lexorder" "HOL-Library.Multiset"
begin

text \<open>
  Shared vocabulary of the development: how Python values are represented, and the generic
  lemmas the component theories rely on.

  A Python \<open>str\<close> is represented by its UTF-8 encoding, one \<open>char\<close> per byte. Concatenation,
  equality, prefix tests and splitting at an ASCII character commute with the encoding, and so does
  the order of code points, so \<open>sorted\<close> on strings is \<open>sort\<close> under the lexicographic order
  of \<open>List_Lexorder\<close> and \<open>Char_ord\<close>. A Python \<open>dict\<close> keeps its insertion order: it
  is an association list with distinct keys, updated in place or at the end by \<open>AList.update\<close>.
  A raised exception is a value of \<open>exn\<close>; a statement that may raise is a function from the
  state to the new state and the exception in flight, if any.
\<close>

named_theorems py_simps \<open>characteristic equations of the Python library functions modelled here\<close>
named_theorems frame_simps \<open>fields an operation leaves unchanged\<close>

section \<open>Truth values, exceptions and sequencing\<close>

datatype exn = ValueError | KeyError | TypeError | AttributeError | IndexError | AssertionError
  | ConnectionResetError | GenericException string

text \<open>\<open>if x:\<close> for a value of type \<open>str | None\<close>.\<close>

definition truthy :: "'a list option \<Rightarrow> bool" where
  "truthy x = (case x of None \<Rightarrow> False | Some s \<Rightarrow> s \<noteq> [])"

lemma truthy_simps [simp]: "truthy None = False" "truthy (Some s) = (s \<noteq> [])"
  by (simp_all add: truthy_def)

lemma truthyE: "truthy x \<Longrightarrow> (\<And>s. x = Some s \<Longrightarrow> s \<noteq> [] \<Longrightarrow> P) \<Longrightarrow> P"
  by (cases x) auto

definition or_default :: "'a option \<Rightarrow> 'a \<Rightarrow> 'a" where
  "or_default x d = (case x of None \<Rightarrow> d | Some v \<Rightarrow> v)"

lemma or_default_simps [simp]: "or_default None d = d" "or_default (Some v) d = v"
  by (simp_all add: or_default_def)

type_synonym 's action = "'s \<Rightarrow> 's \<times> exn option"

text \<open>\<open>[f(x) for x in xs]\<close> where \<open>f\<close> may raise.\<close>

fun map_raising :: "('a \<Rightarrow> exn + 'b) \<Rightarrow> 'a list \<Rightarrow> exn + 'b list" where
  "map_raising f [] = Inr []"
| "map_raising f (x # xs) = (case f x of Inl e \<Rightarrow> Inl e | Inr y \<Rightarrow> map_sum id ((#) y) (map_raising f xs))"

text \<open>A block of statements: each runs in the state the previous one left, until one raises.\<close>

fun seq :: "'s action list \<Rightarrow> 's action" where
  "seq [] s = (s, None)"
| "seq (a # as) s = (case a s of (s', None) \<Rightarrow> seq as s' | (s', Some e) \<Rightarrow> (s', Some e))"

text \<open>A \<open>for\<close> loop whose body may raise.\<close>

definition for_each :: "'a list \<Rightarrow> ('a \<Rightarrow> 's action) \<Rightarrow> 's action" where
  "for_each xs body = seq (map body xs)"

definition skip :: "'s action" where "skip s = (s, None)"
definition update :: "('s \<Rightarrow> 's) \<Rightarrow> 's action" where "update f s = (f s, None)"
definition raise_exn :: "exn \<Rightarrow> 's action" where "raise_exn e s = (s, Some e)"

text \<open>\<open>try: a except Exception: h\<close>.\<close>

definition try_catch :: "'s action \<Rightarrow> 's action \<Rightarrow> 's action" where
  "try_catch a h s = (case a s of (s', None) \<Rightarrow> (s', None) | (s', Some e) \<Rightarrow> h s')"

text \<open>Statements after an expression that may raise: \<open>x = f(); g(x)\<close>.\<close>

definition bind_value :: "('s \<Rightarrow> 's \<times> (exn + 'a)) \<Rightarrow> ('a \<Rightarrow> 's \<Rightarrow> 's \<times> (exn + 'b)) \<Rightarrow> 's \<Rightarrow> 's \<times> (exn + 'b)" where
  "bind_value f g s = (case f s of (s', Inl e) \<Rightarrow> (s', Inl e) | (s', Inr x) \<Rightarrow> g x s')"

text \<open>An action followed by a value, and an action that discards one.\<close>

definition then_value :: "'s action \<Rightarrow> ('s \<Rightarrow> 's \<times> (exn + 'b)) \<Rightarrow> 's \<Rightarrow> 's \<times> (exn + 'b)" where
  "then_value a g s = (case a s of (s', None) \<Rightarrow> g s' | (s', Some e) \<Rightarrow> (s', Inl e))"

definition ignore_value :: "('s \<Rightarrow> 's \<times> (exn + 'a)) \<Rightarrow> 's action" where
  "ignore_value f s = (case f s of (s', Inl e) \<Rightarrow> (s', Some e) | (s', Inr x) \<Rightarrow> (s', None))"

lemmas value_defs = bind_value_def then_value_def ignore_value_def

lemmas action_defs = skip_def update_def raise_exn_def try_catch_def

lemma seq_append: "seq (as @ bs) s = (case seq as s of (s', None) \<Rightarrow> seq bs s' | (s', Some e) \<Rightarrow> (s', Some e))"
  by (induction as arbitrary: s) (auto split: prod.splits option.splits)

lemma for_each_simps [simp]:
  "for_each [] b s = (s, None)"
  "for_each (x # xs) b s = (case b x s of (s', None) \<Rightarrow> for_each xs b s' | (s', Some e) \<Rightarrow> (s', Some e))"
  by (auto simp: for_each_def split: prod.splits option.splits)

text \<open>An invariant every statement of a block keeps is kept by the block, raising or not.\<close>

lemma seq_invariant:
  assumes "\<And>a s. a \<in> set as \<Longrightarrow> P s \<Longrightarrow> P (fst (a s))" "P s"
  shows "P (fst (seq as s))"
  using assms
proof (induction as arbitrary: s)
  case (Cons a as)
  obtain s' r where as': "a s = (s', r)" by fastforce
  with Cons.prems(1) [of a s] Cons.prems(2) have "P s'" by simp
  moreover have "P (fst (seq as s'))" if "P s'" using Cons.IH Cons.prems(1) that by simp
  ultimately show ?case by (simp add: as' split: option.split)
qed simp

lemma for_each_invariant:
  assumes "\<And>x s. x \<in> set xs \<Longrightarrow> P s \<Longrightarrow> P (fst (b x s))" "P s"
  shows "P (fst (for_each xs b s))"
proof -
  have "P (fst (seq (map b xs) s))"
  proof (rule seq_invariant)
    fix a t assume "a \<in> set (map b xs)" "P t"
    then obtain x where "x \<in> set xs" "a = b x" by auto
    with assms(1) \<open>P t\<close> show "P (fst (a t))" by simp
  qed (fact assms(2))
  then show ?thesis by (simp add: for_each_def)
qed

section \<open>Dictionaries\<close>

type_synonym ('k, 'v) dict = "('k \<times> 'v) list"

abbreviation dict_get :: "('k, 'v) dict \<Rightarrow> 'k \<Rightarrow> 'v option" where "dict_get \<equiv> map_of"
abbreviation dict_set :: "'k \<Rightarrow> 'v \<Rightarrow> ('k, 'v) dict \<Rightarrow> ('k, 'v) dict" where
  "dict_set \<equiv> AList.update"
abbreviation dict_pop :: "'k \<Rightarrow> ('k, 'v) dict \<Rightarrow> ('k, 'v) dict" where "dict_pop \<equiv> AList.delete"
abbreviation dict_keys :: "('k, 'v) dict \<Rightarrow> 'k list" where "dict_keys d \<equiv> map fst d"
abbreviation dict_ok :: "('k, 'v) dict \<Rightarrow> bool" where "dict_ok d \<equiv> distinct (map fst d)"

definition dict_get_or :: "('k, 'v) dict \<Rightarrow> 'k \<Rightarrow> 'v \<Rightarrow> 'v" where
  "dict_get_or d k v = (case dict_get d k of None \<Rightarrow> v | Some w \<Rightarrow> w)"

definition dict_setdefault :: "'k \<Rightarrow> 'v \<Rightarrow> ('k, 'v) dict \<Rightarrow> ('k, 'v) dict" where
  "dict_setdefault k v d = (if dict_get d k = None then d @ [(k, v)] else d)"

text \<open>\<open>d.update(ps)\<close> and \<open>{**d, **ps}\<close>; with \<open>[]\<close> a comprehension over \<open>ps\<close>.\<close>

definition dict_update_all :: "('k \<times> 'v) list \<Rightarrow> ('k, 'v) dict \<Rightarrow> ('k, 'v) dict" where
  "dict_update_all ps d = foldl (\<lambda>d (k, v). dict_set k v d) d ps"

text \<open>\<open>d[k] = d.get(k, 0) + w\<close>.\<close>

definition dict_bump :: "'k \<Rightarrow> int \<Rightarrow> ('k, int) dict \<Rightarrow> ('k, int) dict" where
  "dict_bump k w d = dict_set k (dict_get_or d k 0 + w) d"

declare map_of_eq_Some_iff [simp del]

lemma dict_get_set [simp]: "dict_get (dict_set k v d) j = (if j = k then Some v else dict_get d j)"
  by (simp add: update_conv')

lemma dict_get_pop [simp]: "dict_get (dict_pop k d) j = (if j = k then None else dict_get d j)"
  by (simp add: delete_conv')

lemma dict_ok_set [simp]: "dict_ok d \<Longrightarrow> dict_ok (dict_set k v d)"
  by (rule distinct_update)

lemma dict_ok_pop [simp]: "dict_ok d \<Longrightarrow> dict_ok (dict_pop k d)"
  by (rule distinct_delete)

lemma dict_get_or_set [simp]:
  "dict_get_or (dict_set k v d) j w = (if j = k then v else dict_get_or d j w)"
  by (simp add: dict_get_or_def)

lemma dict_get_or_Nil [simp]: "dict_get_or [] k v = v"
  by (simp add: dict_get_or_def)

lemma dict_get_or_bump:
  "dict_get_or (dict_bump k w d) j 0 = dict_get_or d j 0 + (if j = k then w else 0)"
  by (simp add: dict_bump_def)

lemma dict_ok_bump [simp]: "dict_ok d \<Longrightarrow> dict_ok (dict_bump k w d)"
  by (simp add: dict_bump_def)

lemma set_keys_set [simp]: "fst ` set (dict_set k v d) = insert k (fst ` set d)"
  by (induction d) auto

lemma set_keys_pop [simp]: "fst ` set (dict_pop k d) = fst ` set d - {k}"
  by (induction d) auto

lemma dict_keys_set: "k \<in> set (dict_keys d) \<Longrightarrow> dict_keys (dict_set k v d) = dict_keys d"
  by (induction d) auto

lemma in_dict_set: "kv \<in> set (dict_set k v d) \<Longrightarrow> kv = (k, v) \<or> kv \<in> set d"
  by (induction d) (auto split: if_splits)

lemma dict_set_new: "k \<notin> set (dict_keys d) \<Longrightarrow> dict_set k v d = d @ [(k, v)]"
  by (induction d) auto

lemma dict_get_None_iff: "dict_get d k = None \<longleftrightarrow> k \<notin> set (dict_keys d)"
  by (simp add: map_of_eq_None_iff)

lemma dict_update_all_simps [simp]:
  "dict_update_all [] d = d"
  "dict_update_all ((k, v) # ps) d = dict_update_all ps (dict_set k v d)"
  by (simp_all add: dict_update_all_def)

lemma dict_get_update_all:
  "dict_get (dict_update_all ps d) k = (case map_of (rev ps) k of Some v \<Rightarrow> Some v | None \<Rightarrow> dict_get d k)"
  by (induction ps arbitrary: d) (auto simp: map_add_def split: option.splits)

lemma dict_ok_update_all [simp]: "dict_ok d \<Longrightarrow> dict_ok (dict_update_all ps d)"
  by (induction ps arbitrary: d) auto

lemma set_keys_update_all [simp]:
  "fst ` set (dict_update_all ps d) = fst ` set d \<union> fst ` set ps"
proof (induction ps arbitrary: d)
  case (Cons p ps)
  then show ?case by (cases p) simp
qed simp

lemma dict_ok_setdefault [simp]: "dict_ok d \<Longrightarrow> dict_ok (dict_setdefault k v d)"
  by (auto simp: dict_setdefault_def dict_get_None_iff)

lemma dict_get_setdefault:
  "dict_get (dict_setdefault k v d) j = (if j = k \<and> dict_get d k = None then Some v else dict_get d j)"
  by (auto simp: dict_setdefault_def map_add_def split: option.splits)

text \<open>The values of a dictionary change by one entry when one key is written.\<close>

lemma sum_values_set:
  fixes f :: "'v \<Rightarrow> int"
  assumes "dict_ok d"
  shows "(\<Sum>v\<leftarrow>map snd (dict_set k w d). f v) =
    (\<Sum>v\<leftarrow>map snd d. f v) + f w - (case dict_get d k of None \<Rightarrow> 0 | Some v \<Rightarrow> f v)"
  using assms by (induction d) (auto simp: dict_get_None_iff)

section \<open>Lists\<close>

text \<open>\<open>for i in range(0, len(xs), n): xs[i : i + n]\<close>, for \<open>n > 0\<close>.\<close>

function chunks :: "nat \<Rightarrow> 'a list \<Rightarrow> 'a list list" where
  "chunks n xs = (if n = 0 \<or> xs = [] then [] else take n xs # chunks n (drop n xs))"
  by pat_completeness auto
termination by (relation "measure (\<lambda>(n, xs). length xs)") auto

declare chunks.simps [simp del]

lemma chunks_Nil [simp]: "chunks n [] = []"
  by (subst chunks.simps) simp

lemma chunks_Cons: "0 < n \<Longrightarrow> xs \<noteq> [] \<Longrightarrow> chunks n xs = take n xs # chunks n (drop n xs)"
  by (subst chunks.simps) simp

lemma concat_chunks: "0 < n \<Longrightarrow> concat (chunks n xs) = xs"
proof (induction n xs rule: chunks.induct)
  case (1 n xs)
  then show ?case by (cases "xs = []") (auto simp: chunks_Cons)
qed

lemma chunks_bound: "0 < n \<Longrightarrow> c \<in> set (chunks n xs) \<Longrightarrow> c \<noteq> [] \<and> length c \<le> n"
proof (induction n xs rule: chunks.induct)
  case (1 n xs)
  then show ?case by (cases "xs = []") (auto simp: chunks_Cons)
qed

lemma chunks_eq_Nil: "0 < n \<Longrightarrow> chunks n xs = [] \<longleftrightarrow> xs = []"
  by (cases "xs = []") (auto simp: chunks_Cons)

lemma distinct_map_filter_fst: "distinct (map f xs) \<Longrightarrow> distinct (map f (filter P xs))"
  by (induction xs) auto

section \<open>Strings\<close>

text \<open>\<open>s.split(c)\<close> for a one-character separator.\<close>

fun split_on :: "char \<Rightarrow> string \<Rightarrow> string list" where
  "split_on c [] = [[]]"
| "split_on c (x # xs) =
     (if x = c then [] # split_on c xs
      else (case split_on c xs of [] \<Rightarrow> [[x]] | y # ys \<Rightarrow> (x # y) # ys))"

fun join :: "string \<Rightarrow> string list \<Rightarrow> string" where
  "join sep [] = []"
| "join sep [x] = x"
| "join sep (x # y # zs) = x @ sep @ join sep (y # zs)"

lemma split_on_not_Nil [simp]: "split_on c s \<noteq> []"
  by (induction s) (auto split: list.splits)

lemma join_split_on: "join [c] (split_on c s) = s"
proof (induction s)
  case (Cons x xs)
  then show ?case
    by (cases "split_on c xs" rule: list.exhaust; cases "tl (split_on c xs)") (auto split: list.splits)
qed simp

lemma split_on_no_sep: "p \<in> set (split_on c s) \<Longrightarrow> c \<notin> set p"
  by (induction s arbitrary: p) (auto split: list.splits if_splits)

lemma split_on_id: "c \<notin> set s \<Longrightarrow> split_on c s = [s]"
  by (induction s) auto

text \<open>\<open>str.strip\<close> drops white space at both ends (its ASCII part; \<open>bytes.strip\<close> drops
  a smaller set, see \<open>is_bytes_space\<close>).\<close>

definition is_bytes_space :: "char \<Rightarrow> bool" where
  "is_bytes_space c \<longleftrightarrow> of_char c \<in> {9, 10, 11, 12, 13, 32 :: nat}"

definition is_space :: "char \<Rightarrow> bool" where
  "is_space c \<longleftrightarrow> of_char c \<in> {9, 10, 11, 12, 13, 28, 29, 30, 31, 32 :: nat}"

definition strip_by :: "(char \<Rightarrow> bool) \<Rightarrow> string \<Rightarrow> string" where
  "strip_by p s = rev (dropWhile p (rev (dropWhile p s)))"

abbreviation strip :: "string \<Rightarrow> string" where "strip \<equiv> strip_by is_space"

definition is_digit :: "char \<Rightarrow> bool" where
  "is_digit c \<longleftrightarrow> 48 \<le> (of_char c :: nat) \<and> (of_char c :: nat) \<le> 57"

definition digit_value :: "char \<Rightarrow> nat" where
  "digit_value c = of_char c - 48"

fun digits_value :: "nat \<Rightarrow> string \<Rightarrow> nat" where
  "digits_value n [] = n"
| "digits_value n (c # cs) = digits_value (10 * n + digit_value c) cs"

text \<open>\<open>int(s)\<close>: white space, a sign, and digits with single underscores between them.\<close>

fun int_body :: "nat \<Rightarrow> string \<Rightarrow> nat option" where
  "int_body n [] = Some n"
| "int_body n (c # cs) =
     (if is_digit c then int_body (10 * n + digit_value c) cs
      else if c = CHR ''_'' then
        (case cs of d # ds \<Rightarrow> if is_digit d then int_body (10 * n + digit_value d) ds else None
         | [] \<Rightarrow> None)
      else None)"

definition int_digits :: "string \<Rightarrow> nat option" where
  "int_digits s = (case s of [] \<Rightarrow> None | c # cs \<Rightarrow> if is_digit c then int_body 0 s else None)"

definition py_int :: "string \<Rightarrow> int option" where
  "py_int s = (case strip s of
     [] \<Rightarrow> None
   | c # cs \<Rightarrow>
       if c = CHR ''-'' then map_option (\<lambda>n. - int n) (int_digits cs)
       else if c = CHR ''+'' then map_option int (int_digits cs)
       else map_option int (int_digits (c # cs)))"

fun show_nat :: "nat \<Rightarrow> string" where
  "show_nat n = (if n < 10 then [char_of (48 + n)] else show_nat (n div 10) @ [char_of (48 + n mod 10)])"

declare show_nat.simps [simp del]

definition show_int :: "int \<Rightarrow> string" where
  "show_int i = (if i < 0 then CHR ''-'' # show_nat (nat (- i)) else show_nat (nat i))"

definition starts_with :: "string \<Rightarrow> string \<Rightarrow> bool" where
  "starts_with p s \<longleftrightarrow> take (length p) s = p"

lemma starts_with_append [simp]: "starts_with p (p @ s)"
  by (simp add: starts_with_def)

lemma starts_withE: "starts_with p s \<Longrightarrow> (\<And>t. s = p @ t \<Longrightarrow> P) \<Longrightarrow> P"
  unfolding starts_with_def by (metis append_take_drop_id)

definition lower_char :: "char \<Rightarrow> char" where
  "lower_char c = (if 65 \<le> (of_char c :: nat) \<and> (of_char c :: nat) \<le> 90 then char_of (of_char c + 32 :: nat) else c)"

text \<open>\<open>s.lower()\<close> on ASCII letters.\<close>

definition lower :: "string \<Rightarrow> string" where "lower = map lower_char"

text \<open>\<open>sub in s\<close>.\<close>

fun has_sub :: "string \<Rightarrow> string \<Rightarrow> bool" where
  "has_sub p [] = (p = [])"
| "has_sub p (c # s) = (starts_with p (c # s) \<or> has_sub p s)"

lemma of_char_digit: "n < 10 \<Longrightarrow> of_char (char_of (48 + n) :: char) = (48 + (n :: nat))"
  by simp

lemma is_digit_char_of [simp]: "n < 10 \<Longrightarrow> is_digit (char_of (48 + n :: nat))"
  by (simp add: is_digit_def)

lemma digit_value_char_of [simp]: "n < 10 \<Longrightarrow> digit_value (char_of (48 + n :: nat)) = n"
  by (simp add: digit_value_def)

lemma digits_value_append: "digits_value n (s @ t) = digits_value (digits_value n s) t"
  by (induction s arbitrary: n) auto

lemma show_nat_digits: "c \<in> set (show_nat n) \<Longrightarrow> is_digit c"
proof (induction n rule: show_nat.induct)
  case (1 n)
  then show ?case by (cases "n < 10") (auto simp: show_nat.simps [of n])
qed

lemma show_nat_not_Nil [simp]: "show_nat n \<noteq> []"
  by (subst show_nat.simps) simp

lemma digits_value_show_nat: "digits_value 0 (show_nat n) = n"
proof (induction n rule: show_nat.induct)
  case (1 n)
  then show ?case by (cases "n < 10") (auto simp: show_nat.simps [of n] digits_value_append)
qed

lemma int_body_digits: "(\<And>c. c \<in> set s \<Longrightarrow> is_digit c) \<Longrightarrow> int_body n s = Some (digits_value n s)"
  by (induction s arbitrary: n) auto

end
