(* ===== verification/Text_Utf8.thy ===== *)
theory Text_Utf8
  imports SMO_Prelude
begin

text \<open>
  UTF-8 at the level of bytes: which byte strings are encodings of a Python \<open>str\<close>, and
  \<open>bytes.decode("utf-8", errors=...)\<close> with the handlers the program uses (\<open>"ignore"\<close> in
  \<open>display.truncate_utf8\<close>, \<open>"replace"\<close> in \<open>protocol.decode\<close>). A decoder splits the input
  into well-formed sequences and maximal ill-formed subparts, as CPython's does.
\<close>

abbreviation byte :: "char \<Rightarrow> nat" where "byte c \<equiv> of_char c"

text \<open>\<open>(b & 0xC0) == 0x80\<close> for a byte \<open>b\<close>: a continuation byte.\<close>

definition is_cont :: "char \<Rightarrow> bool" where
  "is_cont c \<longleftrightarrow> byte c div 64 = 2"

lemma is_cont_iff: "is_cont c \<longleftrightarrow> 128 \<le> byte c \<and> byte c \<le> 191"
  unfolding is_cont_def by linarith

text \<open>The ranges of the trailing bytes a lead byte asks for (Unicode, table 3-7).\<close>

definition lead_ranges :: "nat \<Rightarrow> (nat \<times> nat) list option" where
  "lead_ranges b =
     (if b < 128 then Some []
      else if 194 \<le> b \<and> b \<le> 223 then Some [(128, 191)]
      else if b = 224 then Some [(160, 191), (128, 191)]
      else if b = 237 then Some [(128, 159), (128, 191)]
      else if 225 \<le> b \<and> b \<le> 239 then Some [(128, 191), (128, 191)]
      else if b = 240 then Some [(144, 191), (128, 191), (128, 191)]
      else if 241 \<le> b \<and> b \<le> 243 then Some [(128, 191), (128, 191), (128, 191)]
      else if b = 244 then Some [(128, 143), (128, 191), (128, 191)]
      else None)"

fun match_tail :: "(nat \<times> nat) list \<Rightarrow> string \<Rightarrow> bool \<times> nat" where
  "match_tail [] s = (True, 0)"
| "match_tail (r # rs) [] = (False, 0)"
| "match_tail ((lo, hi) # rs) (c # s) =
     (if lo \<le> byte c \<and> byte c \<le> hi then (let (ok, n) = match_tail rs s in (ok, Suc n))
      else (False, 0))"

text \<open>Is there a well-formed sequence at the head, and how many bytes does it (or the
  ill-formed subpart) take.\<close>

fun utf8_head :: "string \<Rightarrow> bool \<times> nat" where
  "utf8_head [] = (False, 0)"
| "utf8_head (c # s) =
     (case lead_ranges (byte c) of
        None \<Rightarrow> (False, 1)
      | Some rs \<Rightarrow> (let (ok, n) = match_tail rs s in (ok, Suc n)))"

lemma utf8_head_pos: "s \<noteq> [] \<Longrightarrow> 0 < snd (utf8_head s)"
  by (cases s) (auto split: option.split prod.split)

function decode_with :: "string \<Rightarrow> string \<Rightarrow> string" where
  "decode_with repl s =
     (if s = [] then []
      else (let (ok, n) = utf8_head s in (if ok then take n s else repl) @ decode_with repl (drop n s)))"
  by pat_completeness auto
termination
proof (relation "measure (\<lambda>(r, s). length s)")
  fix repl s p ok n
  assume "s \<noteq> []" "p = utf8_head s" "(ok, n) = p"
  with utf8_head_pos [of s] have "0 < n" by (metis snd_conv)
  with \<open>s \<noteq> []\<close> show "((repl, drop n s), (repl, s)) \<in> measure (\<lambda>(r, s). length s)" by simp
qed simp

declare decode_with.simps [simp del]

definition decode_ignore :: "string \<Rightarrow> string" where "decode_ignore = decode_with []"

definition decode_replace :: "string \<Rightarrow> string" where
  "decode_replace = decode_with [CHR 0xEF, CHR 0xBF, CHR 0xBD]"

inductive utf8_valid :: "string \<Rightarrow> bool" where
  utf8_Nil: "utf8_valid []"
| utf8_Seq: "s \<noteq> [] \<Longrightarrow> utf8_head s = (True, n) \<Longrightarrow> utf8_valid (drop n s) \<Longrightarrow> utf8_valid s"

lemma utf8_valid_code [code]:
  "utf8_valid s \<longleftrightarrow> s = [] \<or> fst (utf8_head s) \<and> utf8_valid (drop (snd (utf8_head s)) s)"
  by (subst utf8_valid.simps) (auto simp: prod_eq_iff)

lemma decode_valid: "utf8_valid s \<Longrightarrow> decode_with repl s = s"
  by (induction rule: utf8_valid.induct) (auto simp: decode_with.simps)

lemma match_tail_ranges:
  "match_tail rs s = (True, n) \<Longrightarrow>
     n = length rs \<and> n \<le> length s \<and> (\<forall>i<n. fst (rs ! i) \<le> byte (s ! i) \<and> byte (s ! i) \<le> snd (rs ! i))"
proof (induction rs s arbitrary: n rule: match_tail.induct)
  case (3 lo hi rs c s)
  then obtain m where "lo \<le> byte c" "byte c \<le> hi" "match_tail rs s = (True, m)" "n = Suc m"
    by (auto split: if_splits prod.splits)
  with "3.IH" [of m] show ?case by (auto simp: less_Suc_eq_0_disj)
qed auto

lemma match_tail_prefix:
  "match_tail rs s = (True, n) \<Longrightarrow> n \<le> k \<Longrightarrow> match_tail rs (take k s) = (True, n)"
proof (induction rs s arbitrary: n k rule: match_tail.induct)
  case (3 lo hi rs c s)
  then show ?case by (cases k) (auto split: if_splits prod.splits)
qed auto

lemma match_tail_append:
  "match_tail rs s = (True, n) \<Longrightarrow> match_tail rs (s @ t) = (True, n)"
  by (induction rs s arbitrary: n rule: match_tail.induct) (auto split: if_splits prod.splits)

lemma lead_ranges_cont:
  "lead_ranges b = Some rs \<Longrightarrow> r \<in> set rs \<Longrightarrow> 128 \<le> fst r \<and> snd r \<le> 191"
  by (auto simp: lead_ranges_def split: if_splits)

lemma utf8_head_length: "utf8_head s = (True, n) \<Longrightarrow> 0 < n \<and> n \<le> length s"
  by (cases s) (auto split: option.splits prod.splits dest: match_tail_ranges)

lemma utf8_head_cont:
  assumes "utf8_head s = (True, n)" "0 < i" "i < n"
  shows "is_cont (s ! i)"
proof -
  from assms(1) obtain c t rs m where s: "s = c # t" and rs: "lead_ranges (byte c) = Some rs"
    and m: "match_tail rs t = (True, m)" "n = Suc m"
    by (cases s) (auto split: option.splits prod.splits)
  from assms obtain j where j: "i = Suc j" "j < m" using m by (cases i) auto
  with match_tail_ranges [OF m(1)] have "rs ! j \<in> set rs" "fst (rs ! j) \<le> byte (t ! j)"
    "byte (t ! j) \<le> snd (rs ! j)" by auto
  with lead_ranges_cont [OF rs, of "rs ! j"] show ?thesis by (auto simp: is_cont_iff s j(1))
qed

lemma utf8_headE:
  assumes "utf8_head s = (True, n)"
  obtains c t rs m where "s = c # t" "lead_ranges (byte c) = Some rs" "match_tail rs t = (True, m)"
    "n = Suc m"
  using assms by (cases s) (auto split: option.splits prod.splits)

lemma utf8_head_prefix:
  assumes "utf8_head s = (True, n)" "n \<le> k"
  shows "utf8_head (take k s) = (True, n)"
proof -
  from assms(1) obtain c t rs m where *: "s = c # t" "lead_ranges (byte c) = Some rs"
    "match_tail rs t = (True, m)" "n = Suc m" by (rule utf8_headE)
  with assms(2) obtain j where j: "k = Suc j" "m \<le> j" by (cases k) auto
  with match_tail_prefix [OF *(3) j(2)] * show ?thesis by simp
qed

lemma utf8_head_append:
  assumes "utf8_head s = (True, n)"
  shows "utf8_head (s @ t) = (True, n)"
proof -
  from assms obtain c u rs m where *: "s = c # u" "lead_ranges (byte c) = Some rs"
    "match_tail rs u = (True, m)" "n = Suc m" by (rule utf8_headE)
  with match_tail_append [OF *(3), of t] show ?thesis by simp
qed

lemma utf8_valid_append: "utf8_valid s \<Longrightarrow> utf8_valid t \<Longrightarrow> utf8_valid (s @ t)"
proof (induction rule: utf8_valid.induct)
  case (utf8_Seq s n)
  have "utf8_head (s @ t) = (True, n)" "n \<le> length s"
    using utf8_head_append [OF utf8_Seq.hyps(2)] utf8_head_length [OF utf8_Seq.hyps(2)] by auto
  with utf8_Seq show ?case by - (rule utf8_valid.utf8_Seq [where n = n], simp_all)
qed simp

lemma utf8_valid_ascii: "(\<And>c. c \<in> set s \<Longrightarrow> byte c < 128) \<Longrightarrow> utf8_valid s"
proof (induction s)
  case (Cons c s)
  then have "utf8_head (c # s) = (True, 1)" by (simp add: lead_ranges_def)
  with Cons show ?case by - (rule utf8_valid.utf8_Seq [where n = 1], simp_all)
qed (rule utf8_Nil)

text \<open>A prefix that ends at a byte which starts a sequence (or at the end) is well formed.\<close>

lemma utf8_valid_take:
  "utf8_valid s \<Longrightarrow> k = length s \<or> k < length s \<and> \<not> is_cont (s ! k) \<Longrightarrow> utf8_valid (take k s)"
proof (induction arbitrary: k rule: utf8_valid.induct)
  case (utf8_Seq s n)
  note len = utf8_head_length [OF utf8_Seq.hyps(2)]
  show ?case
  proof (cases "k = 0")
    case False
    have "n \<le> k"
    proof (rule ccontr)
      assume "\<not> n \<le> k"
      with utf8_head_cont [OF utf8_Seq.hyps(2), of k] False len utf8_Seq.prems show False by auto
    qed
    have "utf8_valid (take (k - n) (drop n s))"
    proof (rule utf8_Seq.IH)
      show "k - n = length (drop n s) \<or> k - n < length (drop n s) \<and> \<not> is_cont (drop n s ! (k - n))"
        using utf8_Seq.prems \<open>n \<le> k\<close> len by auto
    qed
    then have "utf8_valid (drop n (take k s))" by (simp add: drop_take)
    moreover have "take k s \<noteq> []" using False utf8_Seq.hyps(1) by simp
    ultimately show ?thesis
      using utf8_head_prefix [OF utf8_Seq.hyps(2) \<open>n \<le> k\<close>] by - (rule utf8_valid.utf8_Seq)
  qed (simp add: utf8_Nil)
qed (simp add: utf8_Nil)

end
