(* ===== verification/Wire_Json.thy ===== *)
theory Wire_Json
  imports Text_Utf8
begin

text \<open>
  The part of Python's \<open>json\<close> the wire format uses: \<open>json.dumps(d, separators=(",", ":"),
  ensure_ascii=False)\<close> and \<open>json.loads(s)\<close>. A parsed float keeps its lexeme. The parser
  takes fuel and distinguishes running out of it (\<open>PFuel\<close>) from a syntax error (\<open>PErr\<close>);
  \<open>loads_fuel_enough\<close> shows that the fuel \<open>loads\<close> passes never runs out. CPython's two
  resource limits (recursion depth, 4300 digits in an integer) are not modelled.
\<close>

datatype json = JNull | JBool bool | JInt int | JFloat string | JStr string
  | JList "json list" | JObj "(string \<times> json) list"

text \<open>\<open>bool(j)\<close>.\<close>

fun json_truthy :: "json \<Rightarrow> bool" where
  "json_truthy JNull = False"
| "json_truthy (JBool b) = b"
| "json_truthy (JInt i) = (i \<noteq> 0)"
| "json_truthy (JFloat l) = True"
| "json_truthy (JStr s) = (s \<noteq> [])"
| "json_truthy (JList js) = (js \<noteq> [])"
| "json_truthy (JObj kvs) = (kvs \<noteq> [])"

section \<open>Serialising\<close>

definition hex_char :: "nat \<Rightarrow> char" where
  "hex_char n = (if n < 10 then char_of (48 + n) else char_of (87 + n))"

definition escape_char :: "char \<Rightarrow> string" where
  "escape_char c =
     (let b = byte c in
      if b = 34 then [CHR 92, CHR 34]
      else if b = 92 then [CHR 92, CHR 92]
      else if b = 10 then [CHR 92, CHR ''n'']
      else if b = 13 then [CHR 92, CHR ''r'']
      else if b = 9 then [CHR 92, CHR ''t'']
      else if b = 12 then [CHR 92, CHR ''f'']
      else if b = 8 then [CHR 92, CHR ''b'']
      else if b < 32 then [CHR 92, CHR ''u'', CHR ''0'', CHR ''0'', hex_char (b div 16), hex_char (b mod 16)]
      else [c])"

definition escape :: "string \<Rightarrow> string" where
  "escape s = concat (map escape_char s)"

definition quote_str :: "string \<Rightarrow> string" where
  "quote_str s = CHR 34 # escape s @ [CHR 34]"

fun dumps :: "json \<Rightarrow> string" where
  "dumps JNull = ''null''"
| "dumps (JBool b) = (if b then ''true'' else ''false'')"
| "dumps (JInt i) = show_int i"
| "dumps (JFloat l) = l"
| "dumps (JStr s) = quote_str s"
| "dumps (JList js) = CHR ''['' # join '','' (map dumps js) @ '']''"
| "dumps (JObj kvs) = CHR ''{'' # join '','' (map (\<lambda>(k, v). quote_str k @ '':'' @ dumps v) kvs) @ ''}''"

section \<open>Parsing\<close>

definition is_json_space :: "char \<Rightarrow> bool" where
  "is_json_space c \<longleftrightarrow> byte c \<in> {32, 9, 10, 13}"

abbreviation skip_ws :: "string \<Rightarrow> string" where "skip_ws \<equiv> dropWhile is_json_space"

definition hex_value :: "char \<Rightarrow> nat option" where
  "hex_value c =
     (let b = byte c in
      if 48 \<le> b \<and> b \<le> 57 then Some (b - 48)
      else if 97 \<le> b \<and> b \<le> 102 then Some (b - 87)
      else if 65 \<le> b \<and> b \<le> 70 then Some (b - 55)
      else None)"

fun hex4 :: "string \<Rightarrow> (nat \<times> string) option" where
  "hex4 (a # b # c # d # s) =
     (case (hex_value a, hex_value b, hex_value c, hex_value d) of
        (Some w, Some x, Some y, Some z) \<Rightarrow> Some (4096 * w + 256 * x + 16 * y + z, s)
      | _ \<Rightarrow> None)"
| "hex4 _ = None"

text \<open>The bytes of a code point (a lone surrogate, which CPython keeps, gets its three-byte form).\<close>

definition utf8_encode :: "nat \<Rightarrow> string" where
  "utf8_encode n =
     map char_of
       (if n < 128 then [n]
        else if n < 2048 then [192 + n div 64, 128 + n mod 64]
        else if n < 65536 then [224 + n div 4096, 128 + n div 64 mod 64, 128 + n mod 64]
        else [240 + n div 262144, 128 + n div 4096 mod 64, 128 + n div 64 mod 64, 128 + n mod 64])"

definition low_surrogate :: "string \<Rightarrow> (nat \<times> string) option" where
  "low_surrogate s =
     (case s of
        a # b # t \<Rightarrow>
          if a = CHR 92 \<and> b = CHR ''u'' then
            (case hex4 t of
               Some (n, u) \<Rightarrow> if 0xDC00 \<le> n \<and> n \<le> 0xDFFF then Some (n, u) else None
             | None \<Rightarrow> None)
          else None
      | _ \<Rightarrow> None)"

definition unescape_u :: "string \<Rightarrow> (string \<times> string) option" where
  "unescape_u s =
     (case hex4 s of
        None \<Rightarrow> None
      | Some (n, t) \<Rightarrow>
          if 0xD800 \<le> n \<and> n \<le> 0xDBFF then
            (case low_surrogate t of
               Some (m, u) \<Rightarrow> Some (utf8_encode (0x10000 + (n - 0xD800) * 1024 + (m - 0xDC00)), u)
             | None \<Rightarrow> Some (utf8_encode n, t))
          else Some (utf8_encode n, t))"

definition unescape_simple :: "char \<Rightarrow> char option" where
  "unescape_simple c =
     map_of [(CHR 34, CHR 34), (CHR 92, CHR 92), (CHR ''/'', CHR ''/''), (CHR ''b'', CHR 8),
       (CHR ''f'', CHR 12), (CHR ''n'', CHR 10), (CHR ''r'', CHR 13), (CHR ''t'', CHR 9)] c"

lemma hex4_length: "hex4 s = Some (n, t) \<Longrightarrow> length t < length s"
  by (cases s rule: hex4.cases) (auto split: option.splits)

lemma low_surrogate_length: "low_surrogate s = Some (n, t) \<Longrightarrow> length t < length s"
  by (auto simp: low_surrogate_def split: list.splits if_splits option.splits dest!: hex4_length)

lemma unescape_u_length: "unescape_u s = Some (x, t) \<Longrightarrow> length t < length s"
  by (auto simp: unescape_u_def split: option.splits if_splits
      dest!: hex4_length low_surrogate_length)

text \<open>The body of a string literal, after its opening quote: the contents and what follows.\<close>

function scan_string :: "string \<Rightarrow> (string \<times> string) option" where
  "scan_string [] = None"
| "scan_string (c # s) =
     (if c = CHR 34 then Some ([], s)
      else if c = CHR 92 then
        (case s of
           [] \<Rightarrow> None
         | e # t \<Rightarrow>
             if e = CHR ''u'' then
               (case unescape_u t of
                  None \<Rightarrow> None
                | Some (x, u) \<Rightarrow> map_option (apfst ((@) x)) (scan_string u))
             else
               (case unescape_simple e of
                  None \<Rightarrow> None
                | Some x \<Rightarrow> map_option (apfst ((#) x)) (scan_string t)))
      else if byte c < 32 then None
      else map_option (apfst ((#) c)) (scan_string s))"
  by pat_completeness auto
termination
  by (relation "measure length") (auto dest!: unescape_u_length [OF sym] unescape_u_length)

text \<open>\<open>(-?(?:0|[1-9]\d*))(\.\d+)?([eE][-+]?\d+)?\<close>: integer part, fraction and exponent.\<close>

definition scan_int :: "string \<Rightarrow> (string \<times> string) option" where
  "scan_int s =
     (case s of
        [] \<Rightarrow> None
      | c # t \<Rightarrow>
          if c = CHR ''0'' then Some ([c], t)
          else if is_digit c then Some (takeWhile is_digit s, dropWhile is_digit s)
          else None)"

definition scan_frac :: "string \<Rightarrow> string \<times> string" where
  "scan_frac s =
     (case s of
        c # d # t \<Rightarrow>
          if c = CHR ''.'' \<and> is_digit d then (c # takeWhile is_digit (d # t), dropWhile is_digit (d # t))
          else ([], s)
      | _ \<Rightarrow> ([], s))"

definition scan_exp :: "string \<Rightarrow> string \<times> string" where
  "scan_exp s =
     (case s of
        c # t \<Rightarrow>
          if c = CHR ''e'' \<or> c = CHR ''E'' then
            (let (sg, u) = (case t of d # v \<Rightarrow> if d = CHR ''+'' \<or> d = CHR ''-'' then ([d], v) else ([], t)
                                    | [] \<Rightarrow> ([], t));
                 ds = takeWhile is_digit u
             in if ds = [] then ([], s) else (c # sg @ ds, dropWhile is_digit u))
          else ([], s)
      | [] \<Rightarrow> ([], s))"

definition scan_number :: "string \<Rightarrow> (json \<times> string) option" where
  "scan_number s =
     (let neg = (case s of c # t \<Rightarrow> c = CHR ''-'' | [] \<Rightarrow> False);
          body = (if neg then tl s else s)
      in case scan_int body of
           None \<Rightarrow> None
         | Some (ds, t) \<Rightarrow>
             (let (fr, u) = scan_frac t; (ex, v) = scan_exp u;
                  sgn = (if neg then ''-'' else [])
              in if fr = [] \<and> ex = []
                 then Some (JInt ((if neg then - 1 else 1) * int (digits_value 0 ds)), v)
                 else Some (JFloat (sgn @ ds @ fr @ ex), v)))"

datatype 'a presult = POk 'a | PErr | PFuel

lemma map_presult_eq [simp]:
  "map_presult g p = PFuel \<longleftrightarrow> p = PFuel"
  "PFuel = map_presult g p \<longleftrightarrow> p = PFuel"
  "map_presult g p = POk y \<longleftrightarrow> (\<exists>x. p = POk x \<and> y = g x)"
  by (cases p; auto)+

definition scan_literal :: "string \<Rightarrow> (json \<times> string) option" where
  "scan_literal s =
     (case find (\<lambda>(l, j). starts_with l s)
        [(''null'', JNull), (''true'', JBool True), (''false'', JBool False), (''NaN'', JFloat ''NaN''),
         (''Infinity'', JFloat ''Infinity''), (''-Infinity'', JFloat ''-Infinity'')] of
        Some (l, j) \<Rightarrow> Some (j, drop (length l) s)
      | None \<Rightarrow> None)"

definition scan_atom :: "string \<Rightarrow> (json \<times> string) option" where
  "scan_atom s =
     (if \<exists>t. s = CHR 34 # t then map_option (apfst JStr) (scan_string (tl s))
      else case scan_literal s of Some r \<Rightarrow> Some r | None \<Rightarrow> scan_number s)"

lemma scan_atom_code [code]:
  "scan_atom s =
     (if s \<noteq> [] \<and> hd s = CHR 34 then map_option (apfst JStr) (scan_string (tl s))
      else case scan_literal s of Some r \<Rightarrow> Some r | None \<Rightarrow> scan_number s)"
  by (cases s) (auto simp: scan_atom_def)

fun parse_value :: "nat \<Rightarrow> string \<Rightarrow> (json \<times> string) presult"
  and parse_elems :: "nat \<Rightarrow> string \<Rightarrow> (json list \<times> string) presult"
  and parse_members :: "nat \<Rightarrow> string \<Rightarrow> ((string \<times> json) list \<times> string) presult" where
  "parse_value 0 s = PFuel"
| "parse_value (Suc f) s =
     (case s of
        [] \<Rightarrow> PErr
      | c # t \<Rightarrow>
          if c = CHR ''{'' then
            (case skip_ws t of
               [] \<Rightarrow> PErr
             | d # u \<Rightarrow>
                 if d = CHR ''}'' then POk (JObj [], u)
                 else map_presult (apfst (\<lambda>kvs. JObj (dict_update_all kvs []))) (parse_members f (d # u)))
          else if c = CHR ''['' then
            (case skip_ws t of
               [] \<Rightarrow> PErr
             | d # u \<Rightarrow>
                 if d = CHR '']'' then POk (JList [], u)
                 else map_presult (apfst JList) (parse_elems f (d # u)))
          else (case scan_atom s of Some r \<Rightarrow> POk r | None \<Rightarrow> PErr))"
| "parse_elems 0 s = PFuel"
| "parse_elems (Suc f) s =
     (case parse_value f s of
        PErr \<Rightarrow> PErr | PFuel \<Rightarrow> PFuel
      | POk (j, t) \<Rightarrow>
          (case skip_ws t of
             [] \<Rightarrow> PErr
           | c # u \<Rightarrow>
               if c = CHR '']'' then POk ([j], u)
               else if c = CHR '','' then
                 map_presult (apfst ((#) j)) (parse_elems f (skip_ws u))
               else PErr))"
| "parse_members 0 s = PFuel"
| "parse_members (Suc f) s =
     (case s of
        [] \<Rightarrow> PErr
      | q # s' \<Rightarrow>
          if q \<noteq> CHR 34 then PErr
          else (case scan_string s' of
             None \<Rightarrow> PErr
           | Some (k, t) \<Rightarrow>
               (case skip_ws t of
                  [] \<Rightarrow> PErr
                | c # u \<Rightarrow>
                    if c \<noteq> CHR '':'' then PErr
                    else (case parse_value f (skip_ws u) of
                       PErr \<Rightarrow> PErr | PFuel \<Rightarrow> PFuel
                     | POk (j, v) \<Rightarrow>
                         (case skip_ws v of
                            [] \<Rightarrow> PErr
                          | d # w \<Rightarrow>
                              if d = CHR ''}'' then POk ([(k, j)], w)
                              else if d = CHR '','' then
                                map_presult (apfst ((#) (k, j))) (parse_members f (skip_ws w))
                              else PErr)))))"

declare parse_value.simps [simp del] parse_elems.simps [simp del] parse_members.simps [simp del]

definition bom :: string where "bom = [CHR 0xEF, CHR 0xBB, CHR 0xBF]"

definition loads :: "string \<Rightarrow> json presult" where
  "loads s =
     (if starts_with bom s then PErr
      else (case parse_value (2 * length s + 1) (skip_ws s) of
         POk (j, t) \<Rightarrow> if skip_ws t = [] then POk j else PErr
       | PErr \<Rightarrow> PErr | PFuel \<Rightarrow> PFuel))"

section \<open>The fuel of \<open>loads\<close> is enough\<close>

lemma skip_ws_length: "length (skip_ws s) \<le> length s"
  by (rule length_dropWhile_le)

lemma skip_ws_Cons_length: "skip_ws s = c # t \<Longrightarrow> length t < length s"
  using skip_ws_length [of s] by simp

lemma scan_string_length: "scan_string s = Some (x, t) \<Longrightarrow> length t < length s"
proof (induction "length s" arbitrary: s x t rule: less_induct)
  case less
  have IH: "length v < length u" if "length u < length s" "scan_string u = Some (y, v)" for u y v
    using less.hyps that by blast
  from less.prems show ?case
    by (cases s) (auto split: if_splits list.splits option.splits
        dest!: IH [rotated] unescape_u_length, (use unescape_u_length in fastforce)?)
qed

lemma scan_literal_length: "scan_literal s = Some (j, t) \<Longrightarrow> length t < length s"
  by (cases "s = []")
    (auto simp: scan_literal_def starts_with_def split: if_splits option.splits)

lemma dropWhile_length_less: "is_digit c \<Longrightarrow> length (dropWhile is_digit (c # t)) \<le> length t"
  by (simp add: length_dropWhile_le)

lemma scan_int_length: "scan_int s = Some (x, t) \<Longrightarrow> length t < length s"
  by (auto simp: scan_int_def less_Suc_eq_le length_dropWhile_le split: list.splits if_splits)

lemma scan_frac_length: "scan_frac s = (x, t) \<Longrightarrow> length t \<le> length s"
  by (auto simp: scan_frac_def le_Suc_eq length_dropWhile_le split: list.splits if_splits)

lemma scan_exp_length: "scan_exp s = (x, t) \<Longrightarrow> length t \<le> length s"
  using length_dropWhile_le [of is_digit]
  by (fastforce simp: scan_exp_def Let_def le_Suc_eq split: list.splits if_splits prod.splits)

lemma scan_number_length:
  assumes "scan_number s = Some (j, v)"
  shows "length v < length s"
proof -
  define neg where "neg = (case s of c # t \<Rightarrow> c = CHR ''-'' | [] \<Rightarrow> False)"
  from assms obtain ds t fr u ex where
    st: "scan_int (if neg then tl s else s) = Some (ds, t)" "scan_frac t = (fr, u)" "scan_exp u = (ex, v)"
    unfolding scan_number_def neg_def [symmetric] Let_def
    by (auto split: option.splits prod.splits if_splits)
  have "length (if neg then tl s else s) \<le> length s" by simp
  with scan_int_length [OF st(1)] scan_frac_length [OF st(2)] scan_exp_length [OF st(3)]
  show ?thesis by linarith
qed

lemma scan_atom_length: "scan_atom s = Some (j, t) \<Longrightarrow> length t < length s"
  by (cases s) (auto simp: scan_atom_def split: if_splits option.splits
      dest: scan_string_length scan_literal_length scan_number_length)

lemma parse_length:
  "parse_value f s = POk (j, t) \<Longrightarrow> length t < length s"
  "parse_elems f s = POk (js, t) \<Longrightarrow> length t < length s"
  "parse_members f s = POk (kvs, t) \<Longrightarrow> length t < length s"
proof (induction f s and f s and f s arbitrary: j t and js t and kvs t
    rule: parse_value_parse_elems_parse_members.induct)
  case (2 f s)
  show ?case
  proof (cases s)
    case (Cons c r)
    from "2.prems" Cons consider
        d u where "skip_ws r = d # u" "t = u"
      | d u kvs where "skip_ws r = d # u" "c = CHR ''{''" "d \<noteq> CHR ''}''" "parse_members f (d # u) = POk (kvs, t)"
      | d u js where "skip_ws r = d # u" "c = CHR ''[''" "d \<noteq> CHR '']''" "parse_elems f (d # u) = POk (js, t)"
      | "scan_atom s = Some (j, t)"
      by (auto simp: parse_value.simps split: if_splits list.splits presult.splits option.splits)
    then show ?thesis
    proof cases
      case 1 then show ?thesis using skip_ws_Cons_length [of r] Cons by fastforce
    next
      case 2 with "2.IH"(1) [OF Cons] Cons skip_ws_Cons_length [of r] show ?thesis by fastforce
    next
      case 3 with "2.IH"(2) [OF Cons] Cons skip_ws_Cons_length [of r] show ?thesis by fastforce
    next
      case 4 then show ?thesis by (rule scan_atom_length)
    qed
  qed (use "2.prems" in \<open>simp add: parse_value.simps\<close>)
next
  case (4 f s)
  from "4.prems" obtain j r c u where *: "parse_value f s = POk (j, r)" "skip_ws r = c # u"
    and or: "t = u \<or> (\<exists>js'. c = CHR '','' \<and> parse_elems f (skip_ws u) = POk (js', t))"
    by (auto simp: parse_elems.simps split: if_splits list.splits presult.splits)
  from "4.IH"(1) [OF *(1)] skip_ws_Cons_length [OF *(2)] have "length u < length s" by simp
  with or "4.IH"(2) [OF *(1) refl *(2)] skip_ws_length [of u] show ?case by fastforce
next
  case (6 f s)
  from "6.prems" obtain q s' where s: "s = q # s'" by (cases s) (auto simp: parse_members.simps)
  with "6.prems" obtain k r c u j v d w where *: "q = CHR 34" "scan_string s' = Some (k, r)"
    "skip_ws r = c # u" "c = CHR '':''" "parse_value f (skip_ws u) = POk (j, v)" "skip_ws v = d # w"
    and or: "t = w \<or> (\<exists>kvs'. d \<noteq> CHR ''}'' \<and> d = CHR '','' \<and> parse_members f (skip_ws w) = POk (kvs', t))"
    by (auto simp: parse_members.simps split: if_splits list.splits presult.splits option.splits)
  have "length v < length (skip_ws u)"
    using "6.IH"(1) [OF s _ *(2) refl *(3) _ *(5)] *(1,4) by simp
  then have "length w < length s"
    using skip_ws_length [of u] skip_ws_Cons_length [OF *(6)] skip_ws_Cons_length [OF *(3)]
      scan_string_length [OF *(2)] s by simp
  then show ?case
    using or "6.IH"(2) [OF s _ *(2) refl *(3) _ *(5) refl *(6)] *(1,4) skip_ws_length [of w] by fastforce
qed (simp_all add: parse_value.simps parse_elems.simps parse_members.simps)

lemma parse_fuel:
  "2 * length s < f \<Longrightarrow> parse_value f s \<noteq> PFuel"
  "2 * length s + 1 < f \<Longrightarrow> parse_elems f s \<noteq> PFuel"
  "2 * length s + 1 < f \<Longrightarrow> parse_members f s \<noteq> PFuel"
proof (induction f s and f s and f s rule: parse_value_parse_elems_parse_members.induct)
  case (2 f s)
  show ?case
  proof (cases s)
    case (Cons c r)
    show ?thesis
    proof (cases "skip_ws r")
      case Nil
      then show ?thesis using Cons
        by (simp add: parse_value.simps del: dropWhile_eq_Nil_conv split: option.split)
    next
      case ws: (Cons d u)
      then have "2 * length (d # u) + 1 < f"
        using "2.prems" Cons skip_ws_length [of r] by simp
      then show ?thesis
        using "2.IH"(1) [OF Cons _ ws] "2.IH"(2) [OF Cons _ _ ws] Cons ws
        by (auto simp: parse_value.simps split: option.split)
    qed
  qed (simp add: parse_value.simps)
next
  case (4 f s)
  have "parse_value f s \<noteq> PFuel" using 4 by simp
  moreover have m: "parse_elems f (skip_ws u) \<noteq> PFuel"
    if "parse_value f s = POk (j, r)" "skip_ws r = c # u" "c \<noteq> CHR '']''" "c = CHR '',''" for j r c u
    using that parse_length(1) [OF that(1)] skip_ws_Cons_length [OF that(2)] skip_ws_length [of u] "4.prems"
    by (intro "4.IH"(2) [OF that(1) refl that(2)]) auto
  ultimately show ?case
  proof (cases "parse_value f s")
    case (POk p)
    obtain j r where p: "p = (j, r)" by fastforce
    show ?thesis
    proof (cases "skip_ws r")
      case (Cons c u)
      with m [of j r c u] POk p show ?thesis by (simp add: parse_elems.simps split: presult.split)
    qed (simp add: parse_elems.simps POk p del: dropWhile_eq_Nil_conv)
  qed (simp_all add: parse_elems.simps)
next
  case (6 f s)
  show ?case
  proof (cases s)
    case (Cons q s')
    have *: "length u < length s" if "scan_string s' = Some (k, r)" "skip_ws r = c # u" for k r c u
      using scan_string_length [OF that(1)] skip_ws_Cons_length [OF that(2)] Cons by simp
    have v: "parse_value f (skip_ws u) \<noteq> PFuel"
      if "\<not> q \<noteq> CHR 34" "scan_string s' = Some (k, r)" "skip_ws r = c # u" "\<not> c \<noteq> CHR '':''" for k r c u
      using "6.prems" * [OF that(2,3)] skip_ws_length [of u]
      by (intro "6.IH"(1) [OF Cons that(1,2) refl that(3,4)]) simp
    have m: "parse_members f (skip_ws w) \<noteq> PFuel"
      if "\<not> q \<noteq> CHR 34" "scan_string s' = Some (k, r)" "skip_ws r = c # u" "\<not> c \<noteq> CHR '':''"
        "parse_value f (skip_ws u) = POk (j, v)" "skip_ws v = d # w" "d \<noteq> CHR ''}''" "d = CHR '',''"
      for k r c u j v d w
      using "6.prems" * [OF that(2,3)] skip_ws_length [of u] skip_ws_length [of w]
        parse_length(1) [OF that(5)] skip_ws_Cons_length [OF that(6)]
      by (intro "6.IH"(2) [OF Cons that(1,2) refl that(3,4,5) refl that(6,7,8)]) simp
    show ?thesis
    proof (cases "scan_string s'")
      case None
      then show ?thesis by (simp add: parse_members.simps Cons)
    next
      case (Some p)
      obtain k r where p: "p = (k, r)" by fastforce
      show ?thesis
      proof (cases "skip_ws r")
        case Nil
        then show ?thesis
          by (simp add: parse_members.simps Cons Some p del: dropWhile_eq_Nil_conv)
      next
        case ws: (Cons c u)
        show ?thesis
        proof (cases "q = CHR 34 \<and> c = CHR '':''")
          case True
          then have nf: "parse_value f (skip_ws u) \<noteq> PFuel" using v [of k r c u] Some p ws by simp
          show ?thesis
          proof (cases "parse_value f (skip_ws u)")
            case (POk jv)
            obtain j v where jv: "jv = (j, v)" by fastforce
            show ?thesis
            proof (cases "skip_ws v")
              case vs: (Cons d w)
              show ?thesis
                using True m [of k r c u j v d w]
                by (simp add: parse_members.simps Cons Some p ws vs POk jv split: presult.split)
            qed (use True in \<open>simp add: parse_members.simps Cons Some p ws POk jv del: dropWhile_eq_Nil_conv\<close>)
          qed (use True nf in \<open>simp_all add: parse_members.simps Cons Some p ws\<close>)
        qed (auto simp: parse_members.simps Cons Some p ws)
      qed
    qed
  qed (simp add: parse_members.simps)
qed simp_all

lemma loads_fuel_enough: "loads s \<noteq> PFuel"
proof -
  have "parse_value (2 * length s + 1) (skip_ws s) \<noteq> PFuel"
    using skip_ws_length [of s] by (intro parse_fuel(1)) linarith
  then show ?thesis by (auto simp: loads_def split: presult.split)
qed

section \<open>Parsing what was serialised\<close>

lemma byte_CHR: "char_of n = c \<longleftrightarrow> n mod 256 = byte c"
  by (metis char_of_char of_char_of)

lemma hex_value_hex_char: "n < 16 \<Longrightarrow> hex_value (hex_char n) = Some n"
  by (auto simp: hex_value_def hex_char_def Let_def)

lemma hex_value_zero: "hex_value CHR ''0'' = Some 0"
  by (simp add: hex_value_def)

lemma scan_string_plain:
  assumes "byte c \<noteq> 34" "byte c \<noteq> 92" "32 \<le> byte c"
  shows "scan_string (c # s) = map_option (apfst ((#) c)) (scan_string s)"
proof -
  have "c \<noteq> CHR 34" "c \<noteq> CHR 92" using assms by auto
  with assms show ?thesis by simp
qed

lemma scan_string_escape_char:
  "scan_string (escape_char c @ s) = map_option (apfst ((#) c)) (scan_string s)"
proof -
  have "byte c = byte d \<Longrightarrow> c = d" for d by simp
  from this [of "CHR 34"] this [of "CHR 92"] this [of "CHR 10"] this [of "CHR 13"] this [of "CHR 9"]
    this [of "CHR 12"] this [of "CHR 8"]
  have c: "byte c = 34 \<Longrightarrow> c = CHR 34" "byte c = 92 \<Longrightarrow> c = CHR 92" "byte c = 10 \<Longrightarrow> c = CHR 10"
    "byte c = 13 \<Longrightarrow> c = CHR 13" "byte c = 9 \<Longrightarrow> c = CHR 9" "byte c = 12 \<Longrightarrow> c = CHR 12"
    "byte c = 8 \<Longrightarrow> c = CHR 8"
    by simp_all
  consider "byte c = 34" | "byte c = 92" | "byte c = 10" | "byte c = 13" | "byte c = 9"
    | "byte c = 12" | "byte c = 8"
    | "byte c < 32" "byte c \<notin> {10, 13, 9, 12, 8}" | "byte c \<ge> 32" "byte c \<notin> {34, 92}" by fastforce
  then show ?thesis
  proof cases
    case 8
    have "hex4 (CHR ''0'' # CHR ''0'' # hex_char (byte c div 16) # hex_char (byte c mod 16) # s) = Some (byte c, s)"
      using 8(1) hex_value_zero by (simp add: hex_value_hex_char)
    then have "unescape_u (CHR ''0'' # CHR ''0'' # hex_char (byte c div 16) # hex_char (byte c mod 16) # s)
        = Some ([c], s)"
      using 8(1) by (simp add: unescape_u_def utf8_encode_def)
    with 8 show ?thesis
      by (simp add: escape_char_def Let_def option.map_comp apfst_def map_prod_def)
  next
    case 9
    with scan_string_plain [of c s] show ?thesis by (simp add: escape_char_def Let_def)
  qed (use c in \<open>simp_all add: escape_char_def Let_def unescape_simple_def\<close>)
qed

lemma scan_string_escape: "scan_string (escape s @ CHR 34 # t) = Some (s, t)"
proof (induction s)
  case (Cons c s)
  have "scan_string (escape (c # s) @ CHR 34 # t) =
      scan_string (escape_char c @ (escape s @ CHR 34 # t))" by (simp add: escape_def)
  with Cons show ?case by (simp add: scan_string_escape_char)
qed (simp add: escape_def)

text \<open>A document the serialiser maps to a line the parser reads back: no float, and object keys
  distinct (which every Python dict has).\<close>

fun json_ok :: "json \<Rightarrow> bool" where
  "json_ok (JFloat l) = False"
| "json_ok (JList js) = (\<forall>j\<in>set js. json_ok j)"
| "json_ok (JObj kvs) = (distinct (map fst kvs) \<and> (\<forall>p\<in>set kvs. json_ok (snd p)))"
| "json_ok _ = True"

definition delimited :: "string \<Rightarrow> bool" where
  "delimited s \<longleftrightarrow> s = [] \<or> hd s \<in> {CHR '','', CHR '']'', CHR ''}''}"

lemma takeWhile_digits:
  assumes "\<And>c. c \<in> set ds \<Longrightarrow> is_digit c" "delimited s"
  shows "takeWhile is_digit (ds @ s) = ds" "dropWhile is_digit (ds @ s) = s"
proof -
  have "\<not> is_digit (hd s)" if "s \<noteq> []" using assms(2) that by (auto simp: delimited_def is_digit_def)
  then have "takeWhile is_digit s = []" "dropWhile is_digit s = s" by (cases s; simp)+
  with assms(1) show "takeWhile is_digit (ds @ s) = ds" "dropWhile is_digit (ds @ s) = s" by simp_all
qed

lemma scan_frac_delimited: "delimited s \<Longrightarrow> scan_frac s = ([], s)"
  by (auto simp: delimited_def scan_frac_def split: list.split)

lemma scan_exp_delimited: "delimited s \<Longrightarrow> scan_exp s = ([], s)"
  by (auto simp: delimited_def scan_exp_def split: list.split)

lemma show_nat_hd_zero: "show_nat n = CHR ''0'' # t \<Longrightarrow> n = 0 \<and> t = []"
proof (induction n arbitrary: t rule: show_nat.induct)
  case (1 n)
  show ?case
  proof (cases "n < 10")
    case True
    with "1.prems" show ?thesis by (auto simp: show_nat.simps [of n] byte_CHR)
  next
    case False
    with "1.prems" obtain u where "show_nat (n div 10) = CHR ''0'' # u"
      by (cases "show_nat (n div 10)") (auto simp: show_nat.simps [of n])
    with "1.IH" False show ?thesis by fastforce
  qed
qed

lemma scan_int_show_nat: "delimited s \<Longrightarrow> scan_int (show_nat n @ s) = Some (show_nat n, s)"
proof (cases "show_nat n")
  case (Cons c t)
  assume s: "delimited s"
  have dig: "is_digit d" if "d \<in> set (c # t)" for d using show_nat_digits [of d n] Cons that by simp
  show ?thesis
  proof (cases "c = CHR ''0''")
    case True
    with Cons show_nat_hd_zero [of n t] show ?thesis by (simp add: scan_int_def)
  next
    case False
    with takeWhile_digits [OF dig s] dig [of c] Cons show ?thesis by (simp add: scan_int_def)
  qed
qed simp

lemma show_nat_Cons:
  obtains c t where "show_nat n = c # t" "is_digit c"
  using show_nat_digits [of _ n] by (cases "show_nat n") auto

lemma scan_number_show_int: "delimited s \<Longrightarrow> scan_number (show_int i @ s) = Some (JInt i, s)"
proof -
  assume s: "delimited s"
  show ?thesis
  proof (cases "i < 0")
    case True
    with s show ?thesis
      by (simp add: show_int_def scan_number_def scan_int_show_nat scan_frac_delimited
          scan_exp_delimited digits_value_show_nat)
  next
    case False
    obtain c t where ct: "show_nat (nat i) = c # t" "is_digit c" by (rule show_nat_Cons)
    then have "\<not> (case show_nat (nat i) @ s of c # t \<Rightarrow> c = CHR ''-'' | [] \<Rightarrow> False)"
      by (auto simp: is_digit_def)
    with False s show ?thesis
      by (simp add: show_int_def scan_number_def scan_int_show_nat scan_frac_delimited
          scan_exp_delimited digits_value_show_nat)
  qed
qed

lemma show_int_Cons:
  obtains c t where "show_int i = c # t" "is_digit c"
  | d t where "show_int i = CHR ''-'' # d # t" "is_digit d"
proof (cases "i < 0")
  case True
  obtain d t where "show_nat (nat (- i)) = d # t" "is_digit d" by (rule show_nat_Cons)
  with that(2) True show thesis by (simp add: show_int_def)
next
  case False
  obtain d t where "show_nat (nat i) = d # t" "is_digit d" by (rule show_nat_Cons)
  with that(1) False show thesis by (simp add: show_int_def)
qed

lemma digit_neq:
  assumes "is_digit c"
  shows "c \<noteq> CHR ''n''" "c \<noteq> CHR ''t''" "c \<noteq> CHR ''f''" "c \<noteq> CHR ''N''" "c \<noteq> CHR ''I''"
    "c \<noteq> CHR ''-''" "c \<noteq> CHR 34"
  using assms by (auto simp: is_digit_def)

lemma scan_literal_digit: "is_digit c \<Longrightarrow> scan_literal (c # s) = None"
  using digit_neq [of c] by (simp add: scan_literal_def starts_with_def)

lemma scan_literal_minus: "is_digit d \<Longrightarrow> scan_literal (CHR ''-'' # d # s) = None"
  using digit_neq [of d] by (simp add: scan_literal_def starts_with_def)

lemma scan_atom_show_int:
  assumes s: "delimited s"
  shows "scan_atom (show_int i @ s) = Some (JInt i, s)"
proof -
  have "\<not> is_digit CHR 34" by (simp add: is_digit_def)
  then have "scan_literal (show_int i @ s) = None \<and> (\<forall>t. show_int i @ s \<noteq> CHR 34 # t)"
  proof (cases rule: show_int_Cons [of i])
    case (1 c t)
    with \<open>\<not> is_digit CHR 34\<close> show ?thesis by (auto simp: scan_literal_digit)
  next
    case (2 d t)
    then show ?thesis by (simp add: scan_literal_minus)
  qed
  with scan_number_show_int [OF s, of i] show ?thesis by (simp add: scan_atom_def)
qed

text \<open>What the first byte of a serialised document can be.\<close>

definition value_start :: "json \<Rightarrow> char \<Rightarrow> bool" where
  "value_start j c \<longleftrightarrow> \<not> is_json_space c \<and> c \<noteq> CHR '']'' \<and> c \<noteq> CHR ''}'' \<and> byte c < 128 \<and>
     (c = CHR ''{'' \<longrightarrow> (\<exists>kvs. j = JObj kvs)) \<and> (c = CHR ''['' \<longrightarrow> (\<exists>js. j = JList js))"

lemma value_start_digit: "is_digit c \<Longrightarrow> value_start j c"
  by (auto simp: value_start_def is_digit_def is_json_space_def)

lemma dumps_head:
  assumes "json_ok j"
  obtains c s where "dumps j = c # s" "value_start j c"
proof (cases j)
  case (JInt i)
  show thesis
  proof (rule show_int_Cons [of i])
    fix c t assume "show_int i = c # t" "is_digit c"
    with JInt that show thesis by (simp add: value_start_digit)
  next
    fix d t assume "show_int i = CHR ''-'' # d # t"
    with JInt that show thesis by (simp add: value_start_def is_json_space_def)
  qed
next
  case (JBool b)
  with that show thesis by (cases b) (simp_all add: value_start_def is_json_space_def)
qed (use assms that in \<open>simp_all add: value_start_def is_json_space_def quote_str_def\<close>)

lemma dict_update_all_distinct:
  "distinct (map fst (d @ kvs)) \<Longrightarrow> dict_update_all kvs d = d @ kvs"
proof (induction kvs arbitrary: d)
  case (Cons p kvs)
  obtain k v where p: "p = (k, v)" by fastforce
  have "dict_set k v d = d @ [(k, v)]" using Cons.prems p by (induction d) auto
  with Cons p show ?case by simp
qed simp

abbreviation (input) parses_back :: "json \<Rightarrow> bool" where
  "parses_back j \<equiv> (\<forall>f t. delimited t \<longrightarrow> 2 * length (dumps j @ t) < f \<longrightarrow>
     parse_value f (dumps j @ t) = POk (j, t))"

lemma is_json_space_delim [simp]:
  "\<not> is_json_space CHR '',''" "\<not> is_json_space CHR '']''" "\<not> is_json_space CHR ''}''"
  "\<not> is_json_space CHR '':''" "\<not> is_json_space CHR 34"
  by (simp_all add: is_json_space_def)

lemma skip_ws_dumps: "json_ok j \<Longrightarrow> skip_ws (dumps j @ t) = dumps j @ t"
  by (erule dumps_head) (simp add: value_start_def)

lemma join_Cons: "xs \<noteq> [] \<Longrightarrow> join sep (x # xs) = x @ sep @ join sep xs"
  by (cases xs) simp_all

lemma skip_ws_join_dumps:
  "js \<noteq> [] \<Longrightarrow> json_ok (hd js) \<Longrightarrow> skip_ws (join '','' (map dumps js) @ t) = join '','' (map dumps js) @ t"
  using skip_ws_dumps [of "hd js"]
  by (cases js; cases "tl js") simp_all

lemma parse_elems_dumps:
  "js \<noteq> [] \<Longrightarrow> (\<And>j. j \<in> set js \<Longrightarrow> json_ok j \<and> parses_back j) \<Longrightarrow>
     2 * length (join '','' (map dumps js) @ CHR '']'' # t) + 1 < f \<Longrightarrow>
     parse_elems f (join '','' (map dumps js) @ CHR '']'' # t) = POk (js, t)"
proof (induction js arbitrary: f)
  case (Cons j js)
  then obtain g where f: "f = Suc g" by (cases f) auto
  have j: "parses_back j" "\<And>i. i \<in> set js \<Longrightarrow> json_ok i" using Cons.prems(2) by auto
  show ?case
  proof (cases "js = []")
    case True
    with j(1) Cons.prems(3) show ?thesis
      by (simp add: f parse_elems.simps delimited_def)
  next
    case False
    let ?r = "join '','' (map dumps js) @ CHR '']'' # t"
    have "parse_value g (dumps j @ CHR '','' # ?r) = POk (j, CHR '','' # ?r)"
      using j(1) Cons.prems(3) False by (simp add: f delimited_def join_Cons)
    moreover have "parse_elems g ?r = POk (js, t)"
      using Cons.IH [of g] False Cons.prems(2,3) by (simp add: f join_Cons)
    moreover have "skip_ws ?r = ?r" using skip_ws_join_dumps [of js] False j(2) by simp
    ultimately show ?thesis using False by (simp add: f parse_elems.simps join_Cons)
  qed
qed simp

abbreviation (input) dump_member :: "string \<times> json \<Rightarrow> string" where
  "dump_member \<equiv> \<lambda>(k, v). quote_str k @ '':'' @ dumps v"

lemma parse_members_dumps:
  "kvs \<noteq> [] \<Longrightarrow> (\<And>p. p \<in> set kvs \<Longrightarrow> json_ok (snd p) \<and> parses_back (snd p)) \<Longrightarrow>
     2 * length (join '','' (map dump_member kvs) @ CHR ''}'' # t) + 1 < f \<Longrightarrow>
     parse_members f (join '','' (map dump_member kvs) @ CHR ''}'' # t) = POk (kvs, t)"
proof (induction kvs arbitrary: f)
  case (Cons p kvs)
  then obtain g where f: "f = Suc g" by (cases f) auto
  obtain k j where p: "p = (k, j)" by fastforce
  have j: "json_ok j" "parses_back j" using Cons.prems(2) [of p] by (auto simp: p)
  have key: "scan_string (escape k @ CHR 34 # u) = Some (k, u)" for u by (rule scan_string_escape)
  show ?case
  proof (cases "kvs = []")
    case True
    have "parse_value g (dumps j @ CHR ''}'' # t) = POk (j, CHR ''}'' # t)"
      using j(2) Cons.prems(3) True by (simp add: f p delimited_def quote_str_def)
    with True j(1) show ?thesis
      by (simp add: f p parse_members.simps quote_str_def key skip_ws_dumps)
  next
    case False
    let ?r = "join '','' (map dump_member kvs) @ CHR ''}'' # t"
    have "parse_value g (dumps j @ CHR '','' # ?r) = POk (j, CHR '','' # ?r)"
      using j(2) Cons.prems(3) False by (simp add: f p delimited_def join_Cons quote_str_def)
    moreover have "parse_members g ?r = POk (kvs, t)"
      using Cons.IH [of g] False Cons.prems(2,3) by (simp add: f p join_Cons)
    moreover have "skip_ws ?r = ?r"
      using False by (cases kvs; cases "tl kvs") (auto simp: quote_str_def)
    ultimately show ?thesis using False j(1)
      by (simp add: f p parse_members.simps join_Cons quote_str_def key skip_ws_dumps)
  qed
qed simp

lemma parse_value_atom:
  "value_start j c \<Longrightarrow> (\<And>js. j \<noteq> JList js) \<Longrightarrow> (\<And>kvs. j \<noteq> JObj kvs) \<Longrightarrow>
     scan_atom (c # s) = Some r \<Longrightarrow> parse_value (Suc f) (c # s) = POk r"
  by (auto simp: parse_value.simps value_start_def)

lemma parse_dumps: "json_ok j \<Longrightarrow> parses_back j"
proof (induction j)
  case (JList js)
  show ?case
  proof (intro allI impI)
    fix f t assume f: "2 * length (dumps (JList js) @ t) < f"
    then obtain g where g: "f = Suc g" by (cases f) auto
    show "parse_value f (dumps (JList js) @ t) = POk (JList js, t)"
    proof (cases js)
      case Nil
      then show ?thesis by (simp add: g parse_value.simps)
    next
      case (Cons i ks)
      have "parse_elems g (join '','' (map dumps js) @ CHR '']'' # t) = POk (js, t)"
        using JList f Cons by (intro parse_elems_dumps) (auto simp: g)
      moreover have "json_ok i" using JList.prems Cons by simp
      then obtain c s where "dumps i = c # s" "value_start i c" by (rule dumps_head)
      then obtain u where "join '','' (map dumps js) @ CHR '']'' # t = c # u" "c \<noteq> CHR '']''"
        "\<not> is_json_space c"
        using Cons by (cases ks) (auto simp: value_start_def)
      ultimately show ?thesis by (simp add: g parse_value.simps)
    qed
  qed
next
  case (JObj kvs)
  show ?case
  proof (intro allI impI)
    fix f t assume f: "2 * length (dumps (JObj kvs) @ t) < f"
    then obtain g where g: "f = Suc g" by (cases f) auto
    show "parse_value f (dumps (JObj kvs) @ t) = POk (JObj kvs, t)"
    proof (cases kvs)
      case Nil
      then show ?thesis by (simp add: g parse_value.simps)
    next
      case (Cons p ps)
      have IH: "parses_back (snd p)" if "p \<in> set kvs" for p
        using JObj.IH [OF that, of "snd p"] JObj.prems that by (auto simp: snds.simps)
      have "parse_members g (join '','' (map dump_member kvs) @ CHR ''}'' # t) = POk (kvs, t)"
        using JObj.prems IH f Cons by (intro parse_members_dumps) (auto simp: g)
      moreover obtain u where "join '','' (map dump_member kvs) @ CHR ''}'' # t = CHR 34 # u"
        using Cons by (cases p; cases ps) (simp_all add: quote_str_def)
      moreover have "dict_update_all kvs [] = kvs"
        using dict_update_all_distinct [of "[]" kvs] JObj.prems by simp
      ultimately show ?thesis by (simp add: g parse_value.simps)
    qed
  qed
next
  case (JInt i)
  show ?case
  proof (intro allI impI)
    fix f t assume "delimited t" "2 * length (dumps (JInt i) @ t) < f"
    moreover obtain c s where "dumps (JInt i) = c # s" "value_start (JInt i) c"
      by (rule dumps_head [of "JInt i"]) auto
    ultimately show "parse_value f (dumps (JInt i) @ t) = POk (JInt i, t)"
      using parse_value_atom [of "JInt i" c "s @ t"] scan_atom_show_int [of t i]
      by (cases f) auto
  qed
next
  case (JStr x)
  show ?case
  proof (intro allI impI)
    fix f t assume "2 * length (dumps (JStr x) @ t) < f"
    then show "parse_value f (dumps (JStr x) @ t) = POk (JStr x, t)"
      by (cases f) (simp_all add: parse_value.simps quote_str_def scan_atom_def scan_string_escape)
  qed
next
  case (JBool b)
  show ?case
  proof (intro allI impI)
    fix f t assume "2 * length (dumps (JBool b) @ t) < f"
    then show "parse_value f (dumps (JBool b) @ t) = POk (JBool b, t)"
      by (cases f; cases b) (simp_all add: parse_value.simps scan_atom_def scan_literal_def starts_with_def)
  qed
next
  case JNull
  show ?case
  proof (intro allI impI)
    fix f t assume "2 * length (dumps JNull @ t) < f"
    then show "parse_value f (dumps JNull @ t) = POk (JNull, t)"
      by (cases f) (simp_all add: parse_value.simps scan_atom_def scan_literal_def starts_with_def)
  qed
qed simp

lemma loads_dumps:
  assumes "json_ok j"
  shows "loads (dumps j) = POk j"
proof -
  obtain c s where cs: "dumps j = c # s" "value_start j c" using assms by (rule dumps_head)
  then have "c \<noteq> CHR 0xEF" by (auto simp: value_start_def)
  with cs have "\<not> starts_with bom (dumps j)" by (simp add: starts_with_def bom_def)
  moreover have "parse_value (2 * length (dumps j) + 1) (dumps j @ []) = POk (j, [])"
    using parse_dumps [OF assms] by (simp add: delimited_def)
  ultimately show ?thesis using skip_ws_dumps [OF assms, of "[]"] by (simp add: loads_def)
qed

section \<open>The bytes of a line\<close>

text \<open>No serialised document contains a line feed.\<close>

lemma escape_char_no_control: "x \<in> set (escape_char c) \<Longrightarrow> 32 \<le> byte x"
proof -
  have "32 \<le> byte (hex_char n)" if "n < 16" for n using that by (auto simp: hex_char_def)
  moreover have "byte c < 256" by (cases c) simp
  then have "byte c div 16 < 16" by linarith
  moreover assume "x \<in> set (escape_char c)"
  ultimately show ?thesis by (auto simp: escape_char_def Let_def split: if_splits)
qed

lemma quote_str_no_control: "x \<in> set (quote_str s) \<Longrightarrow> 32 \<le> byte x"
  by (auto simp: quote_str_def escape_def dest: escape_char_no_control)

lemma set_join: "x \<in> set (join sep ss) \<Longrightarrow> x \<in> set sep \<or> (\<exists>s\<in>set ss. x \<in> set s)"
  by (induction sep ss rule: join.induct) auto

lemma dumps_no_control: "json_ok j \<Longrightarrow> x \<in> set (dumps j) \<Longrightarrow> 32 \<le> byte x"
proof (induction j)
  case (JInt i)
  then show ?case
    by (auto simp: show_int_def is_digit_def split: if_splits dest!: show_nat_digits)
next
  case (JList js)
  then consider "x \<in> {CHR ''['', CHR '']'', CHR '',''}" | i where "i \<in> set js" "x \<in> set (dumps i)"
    by (auto dest!: set_join)
  then show ?case using JList by cases auto
next
  case (JObj kvs)
  then consider "x \<in> {CHR ''{'', CHR ''}'', CHR '','', CHR '':''}"
    | p where "p \<in> set kvs" "x \<in> set (quote_str (fst p))"
    | p where "p \<in> set kvs" "x \<in> set (dumps (snd p))"
    by (auto dest!: set_join)
  then show ?case
  proof cases
    case (3 p)
    with JObj.IH [of p "snd p"] JObj.prems(1) show ?thesis by (auto simp: snds.simps)
  qed (auto dest: quote_str_no_control)
qed (auto dest: quote_str_no_control split: if_splits)

lemma dumps_no_newline: "json_ok j \<Longrightarrow> CHR 10 \<notin> set (dumps j)"
  using dumps_no_control [of j "CHR 10"] by auto

text \<open>A document whose strings are well-formed UTF-8 is serialised to well-formed UTF-8.\<close>

fun json_utf8 :: "json \<Rightarrow> bool" where
  "json_utf8 (JStr s) = utf8_valid s"
| "json_utf8 (JList js) = (\<forall>j\<in>set js. json_utf8 j)"
| "json_utf8 (JObj kvs) = (\<forall>p\<in>set kvs. utf8_valid (fst p) \<and> json_utf8 (snd p))"
| "json_utf8 _ = True"

lemma escape_char_ascii: "byte c < 128 \<Longrightarrow> x \<in> set (escape_char c) \<Longrightarrow> byte x < 128"
  by (auto simp: escape_char_def hex_char_def Let_def split: if_splits)

lemma escape_char_high: "128 \<le> byte c \<Longrightarrow> escape_char c = [c]"
  by (simp add: escape_char_def Let_def)

lemma escape_high: "(\<And>c. c \<in> set s \<Longrightarrow> 128 \<le> byte c) \<Longrightarrow> escape s = s"
  by (induction s) (simp_all add: escape_def escape_char_high)

lemma utf8_head_high:
  assumes "utf8_head s = (True, n)" "s \<noteq> []" "128 \<le> byte (hd s)" "c \<in> set (take n s)"
  shows "128 \<le> byte c"
proof -
  obtain i where i: "i < n" "i < length s" "c = s ! i" using assms(4) by (auto simp: in_set_conv_nth)
  show ?thesis
  proof (cases "i = 0")
    case True with assms(2,3) i show ?thesis by (simp add: hd_conv_nth)
  next
    case False with utf8_head_cont [OF assms(1), of i] i show ?thesis by (simp add: is_cont_iff)
  qed
qed

lemma utf8_valid_escape: "utf8_valid s \<Longrightarrow> utf8_valid (escape s)"
proof (induction rule: utf8_valid.induct)
  case utf8_Nil
  then show ?case by (simp add: escape_def utf8_valid.utf8_Nil)
next
  case (utf8_Seq s n)
  note len = utf8_head_length [OF utf8_Seq.hyps(2)]
  have split: "escape s = escape (take n s) @ escape (drop n s)"
    unfolding escape_def concat_append [symmetric] map_append [symmetric] by simp
  have "utf8_valid (escape (take n s))"
  proof (cases "128 \<le> byte (hd s)")
    case True
    have "escape (take n s) = take n s"
      by (rule escape_high) (rule utf8_head_high [OF utf8_Seq.hyps(2,1) True])
    moreover have "utf8_valid (take n s)"
      using utf8_head_prefix [OF utf8_Seq.hyps(2), of n] len utf8_Seq.hyps(1)
      by - (rule utf8_valid.utf8_Seq [where n = n], auto simp: utf8_valid.utf8_Nil)
    ultimately show ?thesis by simp
  next
    case False
    then have "n = 1" using utf8_Seq.hyps(1,2) by (cases s) (auto simp: lead_ranges_def)
    with utf8_Seq.hyps(1) have "escape (take n s) = escape_char (hd s)"
      by (cases s) (simp_all add: escape_def)
    with False show ?thesis by (simp add: utf8_valid_ascii escape_char_ascii [of "hd s"])
  qed
  then show ?case unfolding split using utf8_Seq.IH by (rule utf8_valid_append)
qed

lemma utf8_valid_ascii_Cons: "byte c < 128 \<Longrightarrow> utf8_valid s \<Longrightarrow> utf8_valid (c # s)"
  using utf8_valid_append [OF utf8_valid_ascii [of "[c]"], of s] by simp

lemma utf8_valid_ascii_snoc: "byte c < 128 \<Longrightarrow> utf8_valid s \<Longrightarrow> utf8_valid (s @ [c])"
  using utf8_valid_append [OF _ utf8_valid_ascii [of "[c]"], of s] by simp

lemma utf8_valid_quote_str: "utf8_valid s \<Longrightarrow> utf8_valid (quote_str s)"
  unfolding quote_str_def
  by (intro utf8_valid_ascii_Cons utf8_valid_ascii_snoc utf8_valid_escape) simp_all

lemma utf8_valid_join_comma:
  "(\<And>s. s \<in> set ss \<Longrightarrow> utf8_valid s) \<Longrightarrow> utf8_valid (join '','' ss)"
  by (induction "'',''" ss rule: join.induct)
    (simp_all add: utf8_valid.utf8_Nil utf8_valid_append utf8_valid_ascii_Cons)

lemma utf8_valid_dumps: "json_ok j \<Longrightarrow> json_utf8 j \<Longrightarrow> utf8_valid (dumps j)"
proof (induction j)
  case (JInt i)
  have "utf8_valid (show_nat n)" for n
    by (rule utf8_valid_ascii) (use show_nat_digits in \<open>fastforce simp: is_digit_def\<close>)
  then show ?case by (simp add: show_int_def utf8_valid_ascii_Cons)
next
  case (JList js)
  then have "utf8_valid (join '','' (map dumps js))" by (intro utf8_valid_join_comma) auto
  then show ?case by (simp add: utf8_valid_ascii_Cons utf8_valid_ascii_snoc)
next
  case (JObj kvs)
  have "utf8_valid (dump_member p)" if "p \<in> set kvs" for p
  proof -
    have "utf8_valid (dumps (snd p))" "utf8_valid (quote_str (fst p))"
      using JObj.IH [OF that, of "snd p"] JObj.prems that
      by (auto simp: snds.simps intro!: utf8_valid_quote_str)
    then show ?thesis by (cases p) (simp add: utf8_valid_append utf8_valid_ascii_Cons)
  qed
  then have "utf8_valid (join '','' (map dump_member kvs))" by (intro utf8_valid_join_comma) auto
  then show ?case by (simp add: utf8_valid_ascii_Cons utf8_valid_ascii_snoc)
next
  case JNull
  show ?case by (simp add: utf8_valid_ascii_Cons utf8_valid.utf8_Nil)
next
  case (JBool b)
  show ?case by (simp add: utf8_valid_ascii_Cons utf8_valid.utf8_Nil)
qed (simp_all add: utf8_valid_quote_str)


end
