(* ===== verification/Protocol.thy ===== *)
theory Protocol
  imports Wire_Json
begin

text \<open>
  \<open>client/protocol.py\<close>: the messages of the Switch <-> bridge channel, one record per dataclass
  with the source's fields (prefixed by the message), their wire form, and the line framing. A
  field that is \<open>None\<close> is a field holding \<open>None\<close> here; \<open>strip_none\<close> drops it from the
  wire. The constant \<open>t\<close> field of a dataclass is the constructor of \<open>message\<close>.
\<close>

definition max_line_bytes :: nat where "max_line_bytes = 8 * 1024"

section \<open>Kinds, classifications and kingdom names\<close>

datatype item_kind = MOON | CAPTURE | ABILITY | OTHER

fun item_kind_value :: "item_kind \<Rightarrow> string" where
  "item_kind_value MOON = ''moon''"
| "item_kind_value CAPTURE = ''capture''"
| "item_kind_value ABILITY = ''ability''"
| "item_kind_value OTHER = ''other''"

datatype classification = PROGRESSION | USEFUL | TRAP | FILLER

fun classification_value :: "classification \<Rightarrow> string" where
  "classification_value PROGRESSION = ''progression''"
| "classification_value USEFUL = ''useful''"
| "classification_value TRAP = ''trap''"
| "classification_value FILLER = ''filler''"

definition flag_set :: "int \<Rightarrow> nat \<Rightarrow> bool" where
  "flag_set flags i \<longleftrightarrow> flags div 2 ^ i mod 2 = 1"

definition classification_from_flags :: "int \<Rightarrow> classification" where
  "classification_from_flags flags =
     (if flag_set flags 0 then PROGRESSION
      else if flag_set flags 1 then USEFUL
      else if flag_set flags 2 then TRAP
      else FILLER)"

definition ap_to_switch_kingdom :: "(string, string) dict" where
  "ap_to_switch_kingdom = [(''Bowser'' @ [CHR 39] @ ''s'', ''Bowser'')]"

definition switch_to_ap_kingdom :: "(string, string) dict" where
  "switch_to_ap_kingdom = map (\<lambda>(k, v). (v, k)) ap_to_switch_kingdom"

definition kingdom_ap_to_switch :: "string option \<Rightarrow> string option" where
  "kingdom_ap_to_switch kingdom =
     (case kingdom of None \<Rightarrow> None | Some k \<Rightarrow> Some (dict_get_or ap_to_switch_kingdom k k))"

definition kingdom_switch_to_ap :: "string option \<Rightarrow> string option" where
  "kingdom_switch_to_ap kingdom =
     (case kingdom of None \<Rightarrow> None | Some k \<Rightarrow> Some (dict_get_or switch_to_ap_kingdom k k))"

lemmas kingdom_defs = kingdom_ap_to_switch_def kingdom_switch_to_ap_def dict_get_or_def
  ap_to_switch_kingdom_def switch_to_ap_kingdom_def

section \<open>Switch to bridge\<close>

record hello_msg =
  hello_mod_ver :: string
  hello_smo_ver :: string
  hello_cap_table_hash :: string
  hello_device_id :: string

record check_msg =
  check_kind :: string
  check_kingdom :: "string option"
  check_shine_id :: "string option"
  check_cap :: "string option"
  check_stage_name :: "string option"
  check_object_id :: "string option"
  check_shine_uid :: "int option"
  check_hack_name :: "string option"
  check_seq :: "int option"

record status_msg =
  status_kingdom :: "string option"
  status_scenario :: "int option"
  status_moons_collected :: "int option"
  status_stage_name :: "string option"

record death_msg = death_ts_ms :: int

record ping_msg = ping_ts_ms :: int

record log_msg =
  log_level :: string
  log_text :: string

record state_begin_msg =
  sb_mod_ver :: string
  sb_save_slot :: "int option"

record shine_entry =
  sh_object_id :: string
  sh_shine_uid :: int

record state_chunk_msg =
  sc_stage_name :: string
  sc_shines :: "shine_entry list option"
  sc_captures :: "string list option"
  sc_goal_reached :: "bool option"

record pay_snapshot_entry =
  pay_kingdom :: string
  pay_pay :: int

record pay_snapshot_msg =
  ps_entries :: "pay_snapshot_entry list"
  ps_save_slot :: int
  ps_complete :: bool

section \<open>Bridge to Switch\<close>

record hello_ack_msg =
  ack_ok :: bool
  ack_seed :: string
  ack_slot :: string
  ack_cap_table_hash :: string
  ack_deathlink_enabled :: bool
  ack_client_ver :: "string option"
  ack_err :: "string option"

record item_ref =
  ref_kind :: string
  ref_kingdom :: "string option"
  ref_shine_id :: "string option"
  ref_cap :: "string option"
  ref_name :: "string option"
  ref_stage_name :: "string option"
  ref_object_id :: "string option"
  ref_shine_uid :: "int option"
  ref_hack_name :: "string option"
  ref_classification :: "string option"

record item_msg =
  im_kind :: string
  im_kingdom :: "string option"
  im_shine_id :: "string option"
  im_cap :: "string option"
  im_name :: "string option"
  im_from :: string
  im_hack_name :: "string option"
  im_classification :: "string option"

record shine_scout =
  scout_uid :: int
  scout_palette :: int

record err_msg =
  err_code :: string
  err_ctx :: string

record kill_msg =
  kill_source :: string
  kill_cause :: string

record outstanding_entry =
  out_kingdom :: string
  out_count :: int

record shop_label_entry =
  shop_file :: string
  shop_key :: string
  shop_label :: string

record talkatoo_pool_msg =
  tp_enabled :: bool
  tp_kingdom :: string
  tp_moons :: "string list"

record kingdom_gate_entry =
  kg_kingdom :: string
  kg_gate :: int

record ability_entry =
  ab_ability :: string
  ab_count :: int

record ability_state_msg =
  as_entries :: "ability_entry list"
  as_enforce :: bool

definition entrance_map_chunk :: nat where "entrance_map_chunk = 48"

record entrance_map_msg =
  em_entries :: "json list"
  em_reset :: bool

record moon_label_msg =
  ml_text :: string
  ml_seq :: int
  ml_valid_for_ms :: int

datatype message =
    Hello hello_msg | Check check_msg | Status status_msg | Goal | Death death_msg | Ping ping_msg
  | Log log_msg | StateBegin state_begin_msg | StateChunk state_chunk_msg | StateEnd
  | PaySnapshot pay_snapshot_msg
  | HelloAck hello_ack_msg | CheckedReplay "item_ref list" | Item item_msg
  | ShineScouts "shine_scout list" | Print string | ApState string | Pong int | Err err_msg
  | Kill kill_msg | Outstanding "outstanding_entry list" | Cappy string | Kick string | Activate
  | ShopLabels "shop_label_entry list" | TalkatooPool talkatoo_pool_msg
  | KingdomGates "kingdom_gate_entry list" | CoinGrant int | AbilityState ability_state_msg
  | EntranceMap entrance_map_msg | MoonLabel moon_label_msg

section \<open>Wire form\<close>

abbreviation jopt :: "('a \<Rightarrow> json) \<Rightarrow> 'a option \<Rightarrow> json" where
  "jopt f x \<equiv> (case x of None \<Rightarrow> JNull | Some v \<Rightarrow> f v)"

text \<open>\<open>_strip_none\<close>: only the top level of the dictionary is filtered.\<close>

definition strip_none :: "(string \<times> json) list \<Rightarrow> (string \<times> json) list" where
  "strip_none d = filter (\<lambda>p. snd p \<noteq> JNull) d"

definition to_replay_dict :: "item_ref \<Rightarrow> json" where
  "to_replay_dict r = JObj (strip_none
     [(''kind'', JStr (ref_kind r)),
      (''kingdom'', jopt JStr (kingdom_ap_to_switch (ref_kingdom r))),
      (''shine_id'', jopt JStr (ref_shine_id r)),
      (''cap'', jopt JStr (ref_cap r)),
      (''name'', jopt JStr (ref_name r))])"

definition checked_replay_wire :: "item_ref list \<Rightarrow> (string \<times> json) list" where
  "checked_replay_wire refs =
     [(''t'', JStr ''checked_replay''), (''ids'', JList (map to_replay_dict refs))]"

text \<open>\<open>ItemMsg.to_wire\<close>: \<open>d["from"] = d.pop("from_")\<close> moves the field to the end.\<close>

definition item_wire :: "item_msg \<Rightarrow> (string \<times> json) list" where
  "item_wire m = strip_none
     [(''t'', JStr ''item''),
      (''kind'', JStr (im_kind m)),
      (''kingdom'', jopt JStr (kingdom_ap_to_switch (im_kingdom m))),
      (''shine_id'', jopt JStr (im_shine_id m)),
      (''cap'', jopt JStr (im_cap m)),
      (''name'', jopt JStr (im_name m)),
      (''hack_name'', jopt JStr (im_hack_name m)),
      (''classification'', jopt JStr (im_classification m)),
      (''from'', JStr (im_from m))]"

text \<open>\<open>kingdom_ap_to_switch(self.kingdom) or ""\<close> and \<open>... or self.kingdom\<close>.\<close>

definition outstanding_entry_dict :: "outstanding_entry \<Rightarrow> json" where
  "outstanding_entry_dict e = JObj
     [(''kingdom'', JStr (or_default (kingdom_ap_to_switch (Some (out_kingdom e))) [])),
      (''count'', JInt (out_count e))]"

definition outstanding_wire :: "outstanding_entry list \<Rightarrow> (string \<times> json) list" where
  "outstanding_wire es =
     [(''t'', JStr ''outstanding''), (''entries'', JList (map outstanding_entry_dict es))]"

definition kingdom_gate_entry_dict :: "kingdom_gate_entry \<Rightarrow> json" where
  "kingdom_gate_entry_dict e =
     (let k = or_default (kingdom_ap_to_switch (Some (kg_kingdom e))) []
      in JObj [(''kingdom'', JStr (if k = [] then kg_kingdom e else k)), (''gate'', JInt (kg_gate e))])"

definition kingdom_gates_wire :: "kingdom_gate_entry list \<Rightarrow> (string \<times> json) list" where
  "kingdom_gates_wire es =
     [(''t'', JStr ''kingdom_gates''), (''entries'', JList (map kingdom_gate_entry_dict es))]"

definition ability_state_wire :: "ability_state_msg \<Rightarrow> (string \<times> json) list" where
  "ability_state_wire m =
     [(''t'', JStr ''ability_state''),
      (''entries'', JList (map (\<lambda>e. JObj [(''ability'', JStr (ab_ability e)), (''count'', JInt (ab_count e))])
         (as_entries m))),
      (''enforce'', JBool (as_enforce m))]"

text \<open>\<open>dataclasses.asdict\<close> of the messages without a \<open>to_wire\<close> of their own.\<close>

definition shine_entry_dict :: "shine_entry \<Rightarrow> json" where
  "shine_entry_dict s = JObj [(''object_id'', JStr (sh_object_id s)), (''shine_uid'', JInt (sh_shine_uid s))]"

fun asdict :: "message \<Rightarrow> (string \<times> json) list" where
  "asdict (Hello m) =
     [(''t'', JStr ''hello''), (''mod_ver'', JStr (hello_mod_ver m)), (''smo_ver'', JStr (hello_smo_ver m)),
      (''cap_table_hash'', JStr (hello_cap_table_hash m)), (''device_id'', JStr (hello_device_id m))]"
| "asdict (Check m) =
     [(''t'', JStr ''check''), (''kind'', JStr (check_kind m)), (''kingdom'', jopt JStr (check_kingdom m)),
      (''shine_id'', jopt JStr (check_shine_id m)), (''cap'', jopt JStr (check_cap m)),
      (''stage_name'', jopt JStr (check_stage_name m)), (''object_id'', jopt JStr (check_object_id m)),
      (''shine_uid'', jopt JInt (check_shine_uid m)), (''hack_name'', jopt JStr (check_hack_name m)),
      (''seq'', jopt JInt (check_seq m))]"
| "asdict (Status m) =
     [(''t'', JStr ''status''), (''kingdom'', jopt JStr (status_kingdom m)),
      (''scenario'', jopt JInt (status_scenario m)), (''moons_collected'', jopt JInt (status_moons_collected m)),
      (''stage_name'', jopt JStr (status_stage_name m))]"
| "asdict Goal = [(''t'', JStr ''goal'')]"
| "asdict (Death m) = [(''t'', JStr ''death''), (''ts_ms'', JInt (death_ts_ms m))]"
| "asdict (Ping m) = [(''t'', JStr ''ping''), (''ts_ms'', JInt (ping_ts_ms m))]"
| "asdict (Log m) = [(''t'', JStr ''log''), (''level'', JStr (log_level m)), (''msg'', JStr (log_text m))]"
| "asdict (StateBegin m) =
     [(''t'', JStr ''state_begin''), (''mod_ver'', JStr (sb_mod_ver m)), (''save_slot'', jopt JInt (sb_save_slot m))]"
| "asdict (StateChunk m) =
     [(''t'', JStr ''state_chunk''), (''stage_name'', JStr (sc_stage_name m)),
      (''shines'', jopt (\<lambda>ss. JList (map shine_entry_dict ss)) (sc_shines m)),
      (''captures'', jopt (\<lambda>cs. JList (map JStr cs)) (sc_captures m)),
      (''goal_reached'', jopt JBool (sc_goal_reached m))]"
| "asdict StateEnd = [(''t'', JStr ''state_end'')]"
| "asdict (PaySnapshot m) =
     [(''t'', JStr ''pay_snapshot''),
      (''entries'', JList (map (\<lambda>e. JObj [(''kingdom'', JStr (pay_kingdom e)), (''pay'', JInt (pay_pay e))])
         (ps_entries m))),
      (''save_slot'', JInt (ps_save_slot m)), (''complete'', JBool (ps_complete m))]"
| "asdict (HelloAck m) =
     [(''t'', JStr ''hello_ack''), (''ok'', JBool (ack_ok m)), (''seed'', JStr (ack_seed m)),
      (''slot'', JStr (ack_slot m)), (''cap_table_hash'', JStr (ack_cap_table_hash m)),
      (''deathlink_enabled'', JBool (ack_deathlink_enabled m)),
      (''client_ver'', jopt JStr (ack_client_ver m)), (''err'', jopt JStr (ack_err m))]"
| "asdict (CheckedReplay rs) = checked_replay_wire rs"
| "asdict (Item m) = item_wire m"
| "asdict (ShineScouts es) =
     [(''t'', JStr ''shine_scouts''),
      (''entries'', JList (map (\<lambda>e. JObj [(''shine_uid'', JInt (scout_uid e)), (''palette'', JInt (scout_palette e))]) es))]"
| "asdict (Print s) = [(''t'', JStr ''print''), (''text'', JStr s)]"
| "asdict (ApState c) = [(''t'', JStr ''ap_state''), (''conn'', JStr c)]"
| "asdict (Pong ts) = [(''t'', JStr ''pong''), (''ts_ms'', JInt ts)]"
| "asdict (Err m) = [(''t'', JStr ''err''), (''code'', JStr (err_code m)), (''ctx'', JStr (err_ctx m))]"
| "asdict (Kill m) = [(''t'', JStr ''kill''), (''source'', JStr (kill_source m)), (''cause'', JStr (kill_cause m))]"
| "asdict (Outstanding es) = outstanding_wire es"
| "asdict (Cappy s) = [(''t'', JStr ''cappy''), (''text'', JStr s)]"
| "asdict (Kick r) = [(''t'', JStr ''kick''), (''reason'', JStr r)]"
| "asdict Activate = [(''t'', JStr ''activate'')]"
| "asdict (ShopLabels es) =
     [(''t'', JStr ''shop_labels''),
      (''entries'', JList (map (\<lambda>e. JObj [(''file'', JStr (shop_file e)), (''key'', JStr (shop_key e)),
         (''label'', JStr (shop_label e))]) es))]"
| "asdict (TalkatooPool m) =
     [(''t'', JStr ''talkatoo_pool''), (''enabled'', JBool (tp_enabled m)), (''kingdom'', JStr (tp_kingdom m)),
      (''moons'', JList (map JStr (tp_moons m)))]"
| "asdict (KingdomGates es) = kingdom_gates_wire es"
| "asdict (CoinGrant n) = [(''t'', JStr ''coin_grant''), (''total'', JInt n)]"
| "asdict (AbilityState m) = ability_state_wire m"
| "asdict (EntranceMap m) =
     [(''t'', JStr ''entrance_map''), (''entries'', JList (em_entries m)), (''reset'', JBool (em_reset m))]"
| "asdict (MoonLabel m) =
     [(''t'', JStr ''moon_label''), (''text'', JStr (ml_text m)), (''seq'', JInt (ml_seq m)),
      (''valid_for_ms'', JInt (ml_valid_for_ms m))]"

section \<open>Encoding, decoding and framing\<close>

text \<open>\<open>strip_none\<close> leaves a \<open>to_wire\<close> dictionary alone: none of its values is \<open>None\<close>.\<close>

definition to_wire :: "message \<Rightarrow> json" where
  "to_wire m = JObj (strip_none (asdict m))"

definition encode :: "message \<Rightarrow> exn + string" where
  "encode m =
     (let line = dumps (to_wire m)
      in if max_line_bytes < length line then Inl ValueError else Inr (line @ [CHR 10]))"

definition decode :: "string \<Rightarrow> exn + json" where
  "decode line =
     (case loads (decode_replace line) of
        POk j \<Rightarrow> Inr j
      | PErr \<Rightarrow> Inl ValueError
      | PFuel \<Rightarrow> Inl (GenericException ''fuel''))"

function iter_lines :: "string \<Rightarrow> string list \<times> string" where
  "iter_lines buf =
     (if CHR 10 \<notin> set buf then ([], if max_line_bytes < length buf then [] else buf)
      else let line = takeWhile (\<lambda>c. c \<noteq> CHR 10) buf;
               (ls, b) = iter_lines (drop (length line + 1) buf)
           in if max_line_bytes < length line then (ls, b)
              else if strip_by is_bytes_space line \<noteq> [] then (line # ls, b)
              else (ls, b))"
  by pat_completeness auto
termination
proof (relation "measure length")
  fix buf line assume "\<not> CHR 10 \<notin> set buf"
  then have "buf \<noteq> []" by auto
  then show "(drop (length line + 1) buf, buf) \<in> measure length" by simp
qed simp

declare iter_lines.simps [simp del]

text \<open>The reader's loop: the chunks of the stream are appended to the buffer as they arrive.\<close>

fun feed_all :: "string list \<Rightarrow> string \<Rightarrow> string list \<times> string" where
  "feed_all [] buf = ([], buf)"
| "feed_all (c # cs) buf =
     (let (ls, b) = iter_lines (buf @ c); (ls', b') = feed_all cs b in (ls @ ls', b'))"


section \<open>Wire forms are JSON documents\<close>

lemma distinct_strip_none: "distinct (map fst d) \<Longrightarrow> distinct (map fst (strip_none d))"
  unfolding strip_none_def by (rule distinct_map_filter_fst)

lemma json_ok_obj: "distinct (map fst d) \<Longrightarrow> (\<And>p. p \<in> set d \<Longrightarrow> json_ok (snd p)) \<Longrightarrow> json_ok (JObj (strip_none d))"
  using distinct_strip_none [of d] by (auto simp: strip_none_def)

lemma json_ok_jopt [simp]: "(\<And>v. x = Some v \<Longrightarrow> json_ok (f v)) \<Longrightarrow> json_ok (jopt f x)"
  by (cases x) simp_all

text \<open>Only \<open>EntranceMap\<close> carries caller-built dictionaries.\<close>

definition message_ok :: "message \<Rightarrow> bool" where
  "message_ok m = (case m of EntranceMap e \<Rightarrow> (\<forall>j\<in>set (em_entries e). json_ok j) | _ \<Rightarrow> True)"

lemma json_ok_replay [simp]: "json_ok (to_replay_dict r)"
  unfolding to_replay_dict_def by (rule json_ok_obj) auto

lemma json_ok_entry_dicts [simp]:
  "json_ok (outstanding_entry_dict e)" "json_ok (kingdom_gate_entry_dict g)" "json_ok (shine_entry_dict s)"
  by (simp_all add: outstanding_entry_dict_def kingdom_gate_entry_dict_def shine_entry_dict_def Let_def)

lemmas wire_defs = checked_replay_wire_def item_wire_def outstanding_wire_def kingdom_gates_wire_def
  ability_state_wire_def

lemma asdict_keys: "distinct (map fst (asdict m))"
  by (cases m) (simp_all add: wire_defs distinct_strip_none)

lemma set_strip_none: "p \<in> set (strip_none d) \<Longrightarrow> p \<in> set d"
  by (simp add: strip_none_def)

lemma asdict_json_ok: "message_ok m \<Longrightarrow> p \<in> set (asdict m) \<Longrightarrow> json_ok (snd p)"
  by (cases m) (auto simp: wire_defs message_ok_def dest!: set_strip_none)

lemma json_ok_to_wire: "message_ok m \<Longrightarrow> json_ok (to_wire m)"
  unfolding to_wire_def by (rule json_ok_obj [OF asdict_keys asdict_json_ok])

section \<open>Encoded lines\<close>

lemma encode_Inr:
  "encode m = Inr b \<longleftrightarrow> b = dumps (to_wire m) @ [CHR 10] \<and> length (dumps (to_wire m)) \<le> max_line_bytes"
  by (auto simp: encode_def Let_def)

lemma encode_Inl: "encode m = Inl e \<longleftrightarrow> e = ValueError \<and> max_line_bytes < length (dumps (to_wire m))"
  by (auto simp: encode_def Let_def)

text \<open>A line of the stream: no line feed, within the cap, not blank.\<close>

definition good_line :: "string \<Rightarrow> bool" where
  "good_line l \<longleftrightarrow> CHR 10 \<notin> set l \<and> length l \<le> max_line_bytes \<and> strip_by is_bytes_space l \<noteq> []"

lemma strip_by_Cons_nonspace: "\<not> p c \<Longrightarrow> strip_by p (c # s) \<noteq> []"
  by (auto simp: strip_by_def dropWhile_eq_Nil_conv)

lemma encode_good_line:
  assumes "message_ok m" "encode m = Inr b"
  shows "\<exists>l. b = l @ [CHR 10] \<and> good_line l"
proof -
  have "\<not> is_bytes_space CHR ''{''" by (simp add: is_bytes_space_def)
  then have "strip_by is_bytes_space (dumps (to_wire m)) \<noteq> []"
    by (simp add: to_wire_def strip_by_Cons_nonspace)
  with assms show ?thesis
    by (auto simp: encode_Inr good_line_def dumps_no_newline json_ok_to_wire)
qed

section \<open>Framing\<close>

lemma takeWhile_line: "CHR 10 \<notin> set l \<Longrightarrow> takeWhile (\<lambda>c. c \<noteq> CHR 10) (l @ CHR 10 # r) = l"
  by (induction l) auto

lemma iter_lines_partial: "CHR 10 \<notin> set b \<Longrightarrow> iter_lines b = ([], if max_line_bytes < length b then [] else b)"
  by (subst iter_lines.simps) simp

lemma iter_lines_line:
  assumes "CHR 10 \<notin> set l"
  shows "iter_lines (l @ CHR 10 # r) =
    (let (ls, b) = iter_lines r in (if good_line l then l # ls else ls, b))"
proof -
  have "drop (length l + 1) (l @ CHR 10 # r) = r" by simp
  with assms show ?thesis
    by (subst iter_lines.simps) (auto simp: takeWhile_line good_line_def Let_def split: prod.split)
qed

text \<open>A stream fits when every line of it, and its unterminated tail, is within the cap.\<close>

definition fits :: "string \<Rightarrow> bool" where
  "fits s \<longleftrightarrow> (\<forall>p\<in>set (split_on (CHR 10) s). length p \<le> max_line_bytes)"

lemma split_line: "c \<notin> set l \<Longrightarrow> split_on c (l @ c # r) = l # split_on c r"
  by (induction l) (auto split: list.splits)

lemma line_cases:
  obtains "CHR 10 \<notin> set s" | l r where "s = l @ CHR 10 # r" "CHR 10 \<notin> set l"
  by (metis split_list_first)

lemma iter_lines_append:
  "fits (x @ y) \<Longrightarrow> iter_lines (x @ y) =
     (let (ls, b) = iter_lines x; (ls', b') = iter_lines (b @ y) in (ls @ ls', b'))"
proof (induction "length x" arbitrary: x rule: less_induct)
  case less
  show ?case
  proof (cases x rule: line_cases)
    case 1
    have "length x \<le> max_line_bytes"
    proof (cases y rule: line_cases)
      case y: 1
      with 1 less.prems show ?thesis by (simp add: fits_def split_on_id)
    next
      case y: (2 l r)
      then have "split_on (CHR 10) (x @ y) = (x @ l) # split_on (CHR 10) r"
        using 1 split_line [of "CHR 10" "x @ l" r] by simp
      with less.prems show ?thesis by (simp add: fits_def)
    qed
    with 1 show ?thesis by (simp add: iter_lines_partial split: prod.split)
  next
    case (2 l r)
    then have "fits (r @ y)" using less.prems split_line [of "CHR 10" l "r @ y"] by (simp add: fits_def)
    with less.hyps [of r] 2 show ?thesis
      by (simp add: iter_lines_line Let_def split: prod.splits)
  qed
qed

lemma fits_append_left: "fits (x @ y) \<Longrightarrow> fits x"
proof (induction "length x" arbitrary: x rule: less_induct)
  case less
  show ?case
  proof (cases x rule: line_cases)
    case 1
    show ?thesis
    proof (cases y rule: line_cases)
      case y: 1
      with 1 less.prems show ?thesis by (simp add: fits_def split_on_id)
    next
      case y: (2 l r)
      then have "split_on (CHR 10) (x @ y) = (x @ l) # split_on (CHR 10) r"
        using 1 split_line [of "CHR 10" "x @ l" r] by simp
      with less.prems 1 show ?thesis by (simp add: fits_def split_on_id)
    qed
  next
    case (2 l r)
    then have "fits (r @ y)" "length l \<le> max_line_bytes"
      using less.prems split_line [of "CHR 10" l "r @ y"] by (simp_all add: fits_def)
    with less.hyps [of r] 2 show ?thesis by (simp add: fits_def split_line)
  qed
qed

lemma fits_rest: "fits (x @ y) \<Longrightarrow> fits (snd (iter_lines x) @ y)"
proof (induction "length x" arbitrary: x rule: less_induct)
  case less
  show ?case
  proof (cases x rule: line_cases)
    case 1
    show ?thesis
    proof (cases "max_line_bytes < length x")
      case True
      have False
      proof (cases y rule: line_cases)
        case y: 1
        with 1 True less.prems show ?thesis by (simp add: fits_def split_on_id)
      next
        case y: (2 l r)
        then have "split_on (CHR 10) (x @ y) = (x @ l) # split_on (CHR 10) r"
          using 1 split_line [of "CHR 10" "x @ l" r] by simp
        with less.prems True show ?thesis by (simp add: fits_def)
      qed
      then show ?thesis ..
    qed (use 1 less.prems in \<open>simp add: iter_lines_partial\<close>)
  next
    case (2 l r)
    then have "fits (r @ y)" using less.prems split_line [of "CHR 10" l "r @ y"] by (simp add: fits_def)
    with less.hyps [of r] 2 show ?thesis by (cases "iter_lines r") (simp add: iter_lines_line)
  qed
qed

lemma feed_all_concat:
  "fits (buf @ concat cs) \<Longrightarrow> cs \<noteq> [] \<Longrightarrow> feed_all cs buf = iter_lines (buf @ concat cs)"
proof (induction cs arbitrary: buf)
  case (Cons c cs)
  show ?case
  proof (cases "cs = []")
    case True
    then show ?thesis by (simp split: prod.split)
  next
    case False
    have "fits (snd (iter_lines (buf @ c)) @ concat cs)"
      using fits_rest [of "buf @ c" "concat cs"] Cons.prems(1) by simp
    then have "feed_all cs (snd (iter_lines (buf @ c))) = iter_lines (snd (iter_lines (buf @ c)) @ concat cs)"
      using False by (rule Cons.IH)
    with iter_lines_append [of "buf @ c" "concat cs"] Cons.prems(1) show ?thesis
      by (cases "iter_lines (buf @ c)") simp
  qed
qed simp

definition stream_of :: "string list \<Rightarrow> string" where
  "stream_of ls = concat (map (\<lambda>l. l @ [CHR 10]) ls)"

lemma stream_of_Cons [simp]: "stream_of [] = []" "stream_of (l # ls) = l @ CHR 10 # stream_of ls"
  by (simp_all add: stream_of_def)

lemma fits_stream: "(\<And>l. l \<in> set ls \<Longrightarrow> good_line l) \<Longrightarrow> fits (stream_of ls)"
  by (induction ls) (auto simp: fits_def split_line good_line_def)

lemma iter_lines_stream: "(\<And>l. l \<in> set ls \<Longrightarrow> good_line l) \<Longrightarrow> iter_lines (stream_of ls) = (ls, [])"
proof (induction ls)
  case (Cons l ls)
  then have "CHR 10 \<notin> set l" "good_line l" by (auto simp: good_line_def)
  with Cons show ?case by (simp add: iter_lines_line)
qed (simp add: iter_lines_partial)

lemma feed_all_stream:
  assumes "\<And>l. l \<in> set ls \<Longrightarrow> good_line l" "concat cs = stream_of ls" "cs \<noteq> []"
  shows "feed_all cs [] = (ls, [])"
  using feed_all_concat [of "[]" cs] fits_stream [OF assms(1)] iter_lines_stream [OF assms(1)] assms(2,3)
  by simp

lemma iter_lines_lines: "l \<in> set (fst (iter_lines b)) \<Longrightarrow> good_line l"
proof (induction "length b" arbitrary: b rule: less_induct)
  case less
  show ?case
  proof (cases b rule: line_cases)
    case 1
    with less.prems show ?thesis by (simp add: iter_lines_partial)
  next
    case (2 k r)
    with less.hyps [of r] less.prems show ?thesis
      by (auto simp: iter_lines_line split: prod.splits if_splits)
  qed
qed

lemma iter_lines_buffer: "CHR 10 \<notin> set (snd (iter_lines b)) \<and> length (snd (iter_lines b)) \<le> max_line_bytes"
proof (induction "length b" arbitrary: b rule: less_induct)
  case less
  show ?case
  proof (cases b rule: line_cases)
    case 1
    then show ?thesis by (simp add: iter_lines_partial)
  next
    case (2 k r)
    with less.hyps [of r] show ?thesis by (cases "iter_lines r") (simp add: iter_lines_line)
  qed
qed

section \<open>Properties\<close>

lemma json_ok_utf8_decode:
  assumes "json_ok j" "json_utf8 j"
  shows "decode (dumps j) = Inr j"
  using assms
  by (simp add: decode_def decode_replace_def decode_valid utf8_valid_dumps loads_dumps)

lemma encoded_lines:
  assumes "list_all message_ok ms" "map encode ms = map Inr bs"
  shows "concat bs = stream_of (map (dumps \<circ> to_wire) ms) \<and>
    list_all good_line (map (dumps \<circ> to_wire) ms)"
  using assms
proof (induction ms arbitrary: bs)
  case (Cons m ms)
  then obtain b bs' where bs: "bs = b # bs'" "encode m = Inr b" "map encode ms = map Inr bs'"
    by (cases bs) auto
  with Cons.prems encode_good_line [of m b] have "good_line (dumps (to_wire m))"
    by (auto simp: encode_Inr)
  with bs Cons show ?case by (simp add: encode_Inr)
qed simp

text \<open>C1 Framing round trip: whatever messages one side encodes (their strings well-formed UTF-8), and
  however TCP cuts the byte stream into pieces, the reader's loop over \<open>iter_lines\<close> gives exactly one
  line per message, each of which \<open>decode\<close> reads back as that message's wire form, and the buffer
  ends empty.\<close>

theorem wire_framing_roundtrip:
  assumes "list_all message_ok ms" "list_all (\<lambda>m. json_utf8 (to_wire m)) ms"
    "map encode ms = map Inr bs" "concat cs = concat bs" "cs \<noteq> []"
  shows "map decode (fst (feed_all cs [])) = map (\<lambda>m. Inr (to_wire m)) ms \<and> snd (feed_all cs []) = []"
proof -
  let ?ls = "map (dumps \<circ> to_wire) ms"
  have "concat cs = stream_of ?ls" "\<And>l. l \<in> set ?ls \<Longrightarrow> good_line l"
    using encoded_lines [OF assms(1,3)] assms(4) by (auto simp: list_all_iff)
  then have "feed_all cs [] = (?ls, [])" by (intro feed_all_stream assms(5))
  with assms(1,2) show ?thesis
    by (simp add: json_ok_utf8_decode json_ok_to_wire list_all_iff)
qed

definition sample_line :: string where
  "sample_line = dumps (to_wire Activate) @ [CHR 10]"

theorem wire_framing_roundtrip_witness:
  "map decode (fst (feed_all [take 5 sample_line, drop 5 sample_line @ sample_line] [])) =
     [Inr (to_wire Activate), Inr (to_wire Activate)] \<and>
   snd (feed_all [take 5 sample_line, drop 5 sample_line @ sample_line] []) = []"
proof -
  have "utf8_valid ''t''" "utf8_valid ''activate''" by (simp_all add: utf8_valid_ascii_Cons utf8_Nil)
  then have "json_utf8 (to_wire Activate)" by (simp add: to_wire_def strip_none_def)
  moreover have "encode Activate = Inr sample_line"
    by (simp add: sample_line_def encode_def to_wire_def strip_none_def quote_str_def escape_def
        escape_char_def max_line_bytes_def)
  moreover have "concat [take 5 sample_line, drop 5 sample_line @ sample_line] = concat [sample_line, sample_line]"
    by simp
  ultimately show ?thesis
    using wire_framing_roundtrip [of "[Activate, Activate]" "[sample_line, sample_line]"
        "[take 5 sample_line, drop 5 sample_line @ sample_line]"]
    by (simp add: message_ok_def del: feed_all.simps)
qed

text \<open>C37 Reader safety: for any bytes a peer sends, in any pieces, every line the reader yields is
  non-blank, has no line feed and is at most 8 KiB long, and the buffer it keeps never exceeds 8 KiB.\<close>

theorem reader_bounded:
  "list_all good_line (fst (feed_all (c # cs) buf)) \<and>
   CHR 10 \<notin> set (snd (feed_all (c # cs) buf)) \<and> length (snd (feed_all (c # cs) buf)) \<le> max_line_bytes"
proof (induction cs arbitrary: c buf)
  case Nil
  then show ?case using iter_lines_lines [of _ "buf @ c"] iter_lines_buffer [of "buf @ c"]
    by (cases "iter_lines (buf @ c)") (auto simp: list_all_iff)
next
  case (Cons d cs)
  obtain ls b where ls: "iter_lines (buf @ c) = (ls, b)" by fastforce
  have "list_all good_line ls" using iter_lines_lines [of _ "buf @ c"] ls by (auto simp: list_all_iff)
  with Cons [of d b] ls show ?case
    by (cases "feed_all (d # cs) b") (simp del: feed_all.simps add: feed_all.simps(2) [of c])
qed

text \<open>Resynchronisation depends on how the stream is cut: when a piece without a line feed
  overflows the cap the buffer is dropped, so the tail of that same oversized line, arriving later, is
  yielded as if it were a line of its own; received in one piece the whole line is skipped.\<close>

theorem oversized_line_tail:
  assumes "CHR 10 \<notin> set x" "max_line_bytes < length x" "good_line t"
  shows "feed_all [x, t @ [CHR 10]] [] = ([t], []) \<and> feed_all [x @ t @ [CHR 10]] [] = ([], [])"
proof -
  have t: "CHR 10 \<notin> set t" using assms(3) by (simp add: good_line_def)
  have "iter_lines (t @ [CHR 10]) = ([t], [])"
    using iter_lines_line [OF t, of "[]"] assms(3) by (simp add: iter_lines_partial)
  moreover have "iter_lines (x @ t @ [CHR 10]) = ([], [])"
    using iter_lines_line [of "x @ t" "[]"] assms(1,2) t by (simp add: iter_lines_partial good_line_def)
  ultimately show ?thesis using assms(1,2) by (simp add: iter_lines_partial)
qed

theorem oversized_line_tail_witness:
  "feed_all [replicate 9000 (CHR ''x''), ''{}'' @ [CHR 10]] [] = ([''{}''], []) \<and>
   feed_all [replicate 9000 (CHR ''x'') @ ''{}'' @ [CHR 10]] [] = ([], [])"
proof (rule oversized_line_tail)
  show "CHR 10 \<notin> set (replicate 9000 (CHR ''x''))" by simp
  show "max_line_bytes < length (replicate 9000 (CHR ''x''))" by (simp add: max_line_bytes_def)
  show "good_line ''{}''"
    by (simp add: good_line_def max_line_bytes_def strip_by_def is_bytes_space_def)
qed

text \<open>Kingdom names survive both translations at the wire boundary, in either direction, for every
  name that is not itself the other side's spelling of Bowser's Kingdom.\<close>

theorem kingdom_names_roundtrip:
  assumes "k \<noteq> ''Bowser''" "j \<noteq> ''Bowser'' @ [CHR 39] @ ''s''"
  shows "kingdom_switch_to_ap (kingdom_ap_to_switch (Some k)) = Some k \<and>
    kingdom_ap_to_switch (kingdom_switch_to_ap (Some j)) = Some j"
  using assms by (simp add: kingdom_defs)

theorem kingdom_names_roundtrip_witness:
  "kingdom_switch_to_ap (kingdom_ap_to_switch (Some (''Bowser'' @ [CHR 39] @ ''s''))) =
     Some (''Bowser'' @ [CHR 39] @ ''s'') \<and>
   kingdom_ap_to_switch (kingdom_switch_to_ap (Some ''Bowser'')) = Some ''Bowser''"
  by (rule kingdom_names_roundtrip) simp_all

end
