(* ===== verification/Datapackage.thy ===== *)
theory Datapackage
  imports Protocol
begin

text \<open>
  \<open>client/datapackage.py\<close>: the name <-> id tables the AP server sends, the category tables of the
  apworld's data files, and the classification of item and location names. The three regular
  expressions are written out as matchers; names and data files are single-line ASCII outside the
  parts the expressions copy. A data file is an argument (\<open>None\<close> when it cannot be read).
\<close>

section \<open>The regular expressions\<close>

text \<open>\<open>^(.+?)(?: Kingdom)? (Power Moon|Multi-Moon)$\<close>: the shortest non-empty head that leaves one of
  the four tails.\<close>

definition moon_tail :: "string \<Rightarrow> string option" where
  "moon_tail s = map_of
     [('' Kingdom Power Moon'', ''Power Moon''), ('' Kingdom Multi-Moon'', ''Multi-Moon''),
      ('' Power Moon'', ''Power Moon''), ('' Multi-Moon'', ''Multi-Moon'')] s"

fun match_moon_from :: "string \<Rightarrow> string \<Rightarrow> (string \<times> string) option" where
  "match_moon_from hd_part s =
     (case moon_tail s of
        Some body \<Rightarrow> Some (hd_part, body)
      | None \<Rightarrow> (case s of [] \<Rightarrow> None | c # t \<Rightarrow> match_moon_from (hd_part @ [c]) t))"

declare match_moon_from.simps [simp del]

definition match_item_moon :: "string \<Rightarrow> (string \<times> string) option" where
  "match_item_moon name = (case name of [] \<Rightarrow> None | c # t \<Rightarrow> match_moon_from [c] t)"

definition is_alpha :: "char \<Rightarrow> bool" where
  "is_alpha c \<longleftrightarrow> (65 \<le> byte c \<and> byte c \<le> 90) \<or> (97 \<le> byte c \<and> byte c \<le> 122)"

definition is_prefix_char :: "char \<Rightarrow> bool" where
  "is_prefix_char c \<longleftrightarrow> is_alpha c \<or> c = CHR 39 \<or> c = CHR '' ''"

text \<open>\<open>^([A-Za-z' ]+):\s*(.+)$\<close>, both groups stripped as every caller does.\<close>

definition split_kingdom_prefix :: "string \<Rightarrow> string option \<times> string option" where
  "split_kingdom_prefix name =
     (let head = takeWhile is_prefix_char name; rest = dropWhile is_prefix_char name
      in case rest of
           c # body \<Rightarrow>
             if head \<noteq> [] \<and> c = CHR '':'' \<and> body \<noteq> [] then (Some (strip head), Some (strip body))
             else (None, Some name)
         | [] \<Rightarrow> (None, Some name))"

text \<open>\<open>KingdomMoons\(\s*([A-Za-z'][A-Za-z' ]*?)\s*,\s*(\d+)\s*\)\<close> at the start of a string: the two
  groups and what follows the match. The lazy group and the white space after it are what stands
  before the comma, stripped at its end.\<close>

definition match_kingdom_moons :: "string \<Rightarrow> ((string \<times> nat) \<times> string) option" where
  "match_kingdom_moons s =
     (if \<not> starts_with ''KingdomMoons('' s then None
      else (let t = dropWhile is_space (drop 13 s);
                seg = takeWhile (\<lambda>c. c \<noteq> CHR '','') t;
                kingdom = rev (dropWhile is_space (rev seg));
                u = drop (length seg) t
            in if kingdom = [] \<or> u = [] \<or> hd kingdom = CHR '' '' \<or> \<not> list_all is_prefix_char kingdom then None
               else (let v = dropWhile is_space (tl u); ds = takeWhile is_digit v;
                         w = dropWhile is_space (dropWhile is_digit v)
                     in case w of
                          c # x \<Rightarrow> if ds \<noteq> [] \<and> c = CHR '')'' then Some ((kingdom, digits_value 0 ds), x)
                                   else None
                        | [] \<Rightarrow> None)))"

lemma match_kingdom_moons_length: "match_kingdom_moons s = Some (g, x) \<Longrightarrow> length x < length s"
proof -
  assume m: "match_kingdom_moons s = Some (g, x)"
  define t where "t = dropWhile is_space (drop 13 s)"
  define u where "u = drop (length (takeWhile (\<lambda>c. c \<noteq> CHR '','') t)) t"
  define v where "v = dropWhile is_space (tl u)"
  from m have w: "u \<noteq> []" "\<exists>c. dropWhile is_space (dropWhile is_digit v) = c # x"
    unfolding match_kingdom_moons_def Let_def t_def [symmetric] u_def [symmetric] v_def [symmetric]
    by (auto split: if_splits list.splits)
  then obtain c where c: "dropWhile is_space (dropWhile is_digit v) = c # x" by blast
  have "length (c # x) \<le> length v"
    unfolding c [symmetric] by (meson length_dropWhile_le le_trans)
  also have "\<dots> \<le> length (tl u)" unfolding v_def by (rule length_dropWhile_le)
  also have "\<dots> \<le> length t" by (simp add: u_def)
  also have "\<dots> \<le> length s" unfolding t_def by (metis length_dropWhile_le length_drop diff_le_self le_trans)
  finally show ?thesis by simp
qed

text \<open>\<open>findall\<close>: the matches from left to right, without overlap.\<close>

function find_kingdom_moons :: "string \<Rightarrow> (string \<times> nat) list" where
  "find_kingdom_moons s =
     (case s of
        [] \<Rightarrow> []
      | c # t \<Rightarrow>
          (case match_kingdom_moons s of
             Some (g, x) \<Rightarrow> g # find_kingdom_moons x
           | None \<Rightarrow> find_kingdom_moons t))"
  by pat_completeness auto
termination
  by (relation "measure length") (auto dest: match_kingdom_moons_length)

declare find_kingdom_moons.simps [simp del]

definition raise_threshold :: "(string, int) dict \<Rightarrow> string \<times> nat \<Rightarrow> (string, int) dict" where
  "raise_threshold th m =
     (let k = strip (fst m)
      in if dict_get_or th k 0 < int (snd m) then dict_set k (int (snd m)) th else th)"

definition parse_kingdom_exit_thresholds :: "string \<Rightarrow> (string, int) dict" where
  "parse_kingdom_exit_thresholds regions_text = foldl raise_threshold [] (find_kingdom_moons regions_text)"

section \<open>The data package\<close>

record classified_item =
  ci_kind :: item_kind
  ci_name :: string
  ci_kingdom :: "string option"
  ci_shine_id :: "string option"
  ci_cap :: "string option"

definition to_ref :: "classified_item \<Rightarrow> item_ref" where
  "to_ref c = \<lparr>ref_kind = item_kind_value (ci_kind c), ref_kingdom = ci_kingdom c,
     ref_shine_id = ci_shine_id c, ref_cap = ci_cap c, ref_name = Some (ci_name c),
     ref_stage_name = None, ref_object_id = None, ref_shine_uid = None, ref_hack_name = None,
     ref_classification = None\<rparr>"

record data_package =
  item_id_to_name :: "(int, string) dict"
  location_id_to_name :: "(int, string) dict"
  item_name_to_id :: "(string, int) dict"
  location_name_to_id :: "(string, int) dict"
  item_categories :: "(string, string list) dict"
  location_categories :: "(string, string list) dict"
  exit_thresholds :: "(string, int) dict"
  progression_locations :: "string set"

definition empty_data_package :: data_package where
  "empty_data_package = \<lparr>item_id_to_name = [], location_id_to_name = [], item_name_to_id = [],
     location_name_to_id = [], item_categories = [], location_categories = [], exit_thresholds = [],
     progression_locations = {}\<rparr>"

record data_entry =
  de_name :: "string option"
  de_category :: "string list"
  de_progression :: bool

definition load_item :: "data_entry \<Rightarrow> data_package \<Rightarrow> data_package" where
  "load_item e d =
     (if truthy (de_name e)
      then d\<lparr>item_categories := dict_set (the (de_name e)) (de_category e) (item_categories d)\<rparr>
      else d)"

definition load_location :: "data_entry \<Rightarrow> data_package \<Rightarrow> data_package" where
  "load_location e d =
     (if truthy (de_name e)
      then (let n = the (de_name e);
                d = d\<lparr>location_categories := dict_set n (de_category e) (location_categories d)\<rparr>
            in if de_progression e then d\<lparr>progression_locations := insert n (progression_locations d)\<rparr>
               else d)
      else d)"

definition load_apworld ::
  "data_entry list option \<Rightarrow> data_entry list option \<Rightarrow> string option \<Rightarrow> data_package \<Rightarrow> data_package" where
  "load_apworld items locations regions_text d =
     (let d = fold load_item (or_default items []) d;
          d = fold load_location (or_default locations []) d
      in case regions_text of
           None \<Rightarrow> d
         | Some t \<Rightarrow> d\<lparr>exit_thresholds := parse_kingdom_exit_thresholds t\<rparr>)"

definition update_from_ap ::
  "(string, int) dict \<Rightarrow> (string, int) dict \<Rightarrow> data_package \<Rightarrow> data_package" where
  "update_from_ap item_map loc_map d =
     (let d = foldl (\<lambda>d (name, i). d\<lparr>item_name_to_id := dict_set name i (item_name_to_id d),
                                      item_id_to_name := dict_set i name (item_id_to_name d)\<rparr>) d item_map
      in foldl (\<lambda>d (name, i). d\<lparr>location_name_to_id := dict_set name i (location_name_to_id d),
                                 location_id_to_name := dict_set i name (location_id_to_name d)\<rparr>) d loc_map)"

definition classify_item :: "data_package \<Rightarrow> string \<Rightarrow> classified_item" where
  "classify_item d name =
     (let cats = map lower (dict_get_or (item_categories d) name []);
          plain = \<lparr>ci_kind = OTHER, ci_name = name, ci_kingdom = None, ci_shine_id = None, ci_cap = None\<rparr>
      in if ''capture'' \<in> set cats then plain\<lparr>ci_kind := CAPTURE, ci_cap := Some name\<rparr>
         else if ''ability'' \<in> set cats then plain\<lparr>ci_kind := ABILITY\<rparr>
         else if ''moon'' \<in> set cats then
           (case match_item_moon name of
              Some (k, body) \<Rightarrow> plain\<lparr>ci_kind := MOON, ci_kingdom := Some (strip k), ci_shine_id := Some body\<rparr>
            | None \<Rightarrow> plain)
         else plain)"

definition is_progression_location :: "data_package \<Rightarrow> string \<Rightarrow> bool" where
  "is_progression_location d name \<longleftrightarrow> name \<in> progression_locations d"

definition classify_location :: "data_package \<Rightarrow> string \<Rightarrow> classified_item" where
  "classify_location d name =
     (let plain = \<lparr>ci_kind = OTHER, ci_name = name, ci_kingdom = None, ci_shine_id = None, ci_cap = None\<rparr>
      in if starts_with ''Capture: '' name then plain\<lparr>ci_kind := CAPTURE, ci_cap := Some (drop 9 name)\<rparr>
         else if list_ex (has_sub ''kingdom'') (map lower (dict_get_or (location_categories d) name [])) then
           (let (k, s) = split_kingdom_prefix name
            in plain\<lparr>ci_kind := MOON, ci_kingdom := k, ci_shine_id := s\<rparr>)
         else plain)"

section \<open>Names and their parts\<close>

lemma strip_by_id: "s \<noteq> [] \<Longrightarrow> \<not> p (hd s) \<Longrightarrow> \<not> p (last s) \<Longrightarrow> strip_by p s = s"
proof -
  assume s: "s \<noteq> []" "\<not> p (hd s)" "\<not> p (last s)"
  have id: "dropWhile p t = t" if "t \<noteq> []" "\<not> p (hd t)" for t using that by (cases t) simp_all
  have "dropWhile p (rev s) = rev s" using s by (intro id) (simp_all add: hd_rev)
  with id [OF s(1,2)] show ?thesis by (simp add: strip_by_def)
qed

text \<open>A kingdom name as it stands in item and location names: no white space at either end.\<close>

definition trimmed :: "string \<Rightarrow> bool" where
  "trimmed s \<longleftrightarrow> s \<noteq> [] \<and> \<not> is_space (hd s) \<and> \<not> is_space (last s)"

lemma strip_trimmed: "trimmed s \<Longrightarrow> strip s = s"
  by (simp add: trimmed_def strip_by_id)

lemma strip_space_Cons: "strip (CHR '' '' # s) = strip s"
  by (simp add: strip_by_def is_space_def)

lemma split_kingdom_prefix_form:
  assumes "trimmed k" "list_all is_prefix_char k" "trimmed s"
  shows "split_kingdom_prefix (k @ '': '' @ s) = (Some k, Some s)"
proof -
  have c: "\<not> is_prefix_char CHR '':''" by (simp add: is_prefix_char_def is_alpha_def)
  have "takeWhile is_prefix_char (k @ '': '' @ s) = k" "dropWhile is_prefix_char (k @ '': '' @ s) = '': '' @ s"
    using assms(2) c by (simp_all add: list_all_iff takeWhile_append dropWhile_append)
  then show ?thesis using assms(1,3)
    by (simp add: split_kingdom_prefix_def Let_def strip_trimmed strip_space_Cons trimmed_def)
qed

lemma moon_tail_Some: "moon_tail s = Some b \<Longrightarrow> s = '' Kingdom '' @ b \<or> s = '' '' @ b"
  by (auto simp: moon_tail_def split: if_splits)

lemma match_moon_from_split:
  "match_moon_from h s = Some (k, b) \<Longrightarrow> \<exists>t u. k = h @ t \<and> s = t @ u \<and> moon_tail u = Some b"
proof (induction s arbitrary: h)
  case Nil
  then show ?case by (auto simp: match_moon_from.simps [of h] split: option.splits)
next
  case (Cons c s)
  show ?case
  proof (cases "moon_tail (c # s)")
    case None
    then have "match_moon_from (h @ [c]) s = Some (k, b)"
      using Cons.prems by (simp add: match_moon_from.simps [of h])
    from Cons.IH [OF this] obtain t u where "k = (h @ [c]) @ t" "s = t @ u" "moon_tail u = Some b" by blast
    then show ?thesis by (intro exI [of _ "c # t"] exI [of _ u]) simp
  next
    case (Some x)
    then have "k = h \<and> moon_tail (c # s) = Some b" using Cons.prems by (simp add: match_moon_from.simps [of h])
    then show ?thesis by (intro exI [of _ "[]"] exI [of _ "c # s"]) simp
  qed
qed

lemma raise_threshold_get:
  "dict_get_or (raise_threshold th m) k 0 =
     (if strip (fst m) = k then max (dict_get_or th k 0) (int (snd m)) else dict_get_or th k 0)"
  by (simp add: raise_threshold_def Let_def)

lemma raise_thresholds_get:
  "dict_get_or (foldl raise_threshold th ms) k 0 =
     foldl max (dict_get_or th k 0) (map (\<lambda>m. int (snd m)) (filter (\<lambda>m. strip (fst m) = k) ms))"
  by (induction ms arbitrary: th) (simp_all add: raise_threshold_get)

section \<open>Properties\<close>

text \<open>The exit thresholds: the entry of a kingdom is the largest N of all the KingdomMoons clauses
  of the regions file that name it, and 0 (no entry) when none does.\<close>

theorem exit_threshold_is_max:
  "dict_get_or (parse_kingdom_exit_thresholds txt) k 0 =
     foldl max 0 (map (\<lambda>m. int (snd m)) (filter (\<lambda>m. strip (fst m) = k) (find_kingdom_moons txt)))"
  by (simp add: parse_kingdom_exit_thresholds_def raise_thresholds_get)

text \<open>A location name built as kingdom, colon, moon name is taken apart into exactly these two parts
  when its category is a kingdom, whatever the moon name contains.\<close>

theorem classify_location_parts:
  assumes "trimmed k" "list_all is_prefix_char k" "k \<noteq> ''Capture''" "trimmed s"
    "list_ex (has_sub ''kingdom'') (map lower (dict_get_or (location_categories d) (k @ '': '' @ s) []))"
  shows "ci_kind (classify_location d (k @ '': '' @ s)) = MOON \<and>
    ci_kingdom (classify_location d (k @ '': '' @ s)) = Some k \<and>
    ci_shine_id (classify_location d (k @ '': '' @ s)) = Some s"
proof -
  have "\<not> starts_with ''Capture: '' (k @ '': '' @ s)"
  proof
    assume "starts_with ''Capture: '' (k @ '': '' @ s)"
    then obtain t where t: "k @ '': '' @ s = ''Capture: '' @ t" by (rule starts_withE)
    have c: "\<not> is_prefix_char CHR '':''" by (simp add: is_prefix_char_def is_alpha_def)
    have "takeWhile is_prefix_char (k @ '': '' @ s) = k"
      using assms(2) c by (simp add: list_all_iff takeWhile_append)
    moreover have "takeWhile is_prefix_char (''Capture: '' @ t) = ''Capture''"
      using c by (simp add: is_prefix_char_def is_alpha_def)
    ultimately show False using t assms(3) by simp
  qed
  with assms split_kingdom_prefix_form [of k s] show ?thesis
    by (simp add: classify_location_def Let_def)
qed

theorem classify_location_parts_witness:
  "let d = empty_data_package\<lparr>location_categories := [(''Cap: Bonneton Boost: 2'', [''Cap Kingdom''])]\<rparr>
   in ci_kind (classify_location d ''Cap: Bonneton Boost: 2'') = MOON \<and>
      ci_kingdom (classify_location d ''Cap: Bonneton Boost: 2'') = Some ''Cap'' \<and>
      ci_shine_id (classify_location d ''Cap: Bonneton Boost: 2'') = Some ''Bonneton Boost: 2''"
proof -
  let ?d = "empty_data_package\<lparr>location_categories := [(''Cap: Bonneton Boost: 2'', [''Cap Kingdom''])]\<rparr>"
  have "list_ex (has_sub ''kingdom'') (map lower (dict_get_or (location_categories ?d) (''Cap'' @ '': '' @ ''Bonneton Boost: 2'') []))"
    by (simp add: dict_get_or_def lower_def lower_char_def starts_with_def char_of_def bit_0)
  with classify_location_parts [of "''Cap''" "''Bonneton Boost: 2''" ?d] show ?thesis
    by (simp add: trimmed_def is_space_def is_prefix_char_def is_alpha_def)
qed

text \<open>A moon item's name determines its kingdom and weight class: a name in category Moon is read as
  MOON exactly through a split into a non-empty head, an optional "Kingdom" and the moon's kind; the
  kingdom is that head.\<close>

theorem classify_moon_item_sound:
  assumes "ci_kind (classify_item d name) = MOON"
  shows "\<exists>k b. (name = k @ '' Kingdom '' @ b \<or> name = k @ '' '' @ b) \<and> k \<noteq> [] \<and>
    b \<in> {''Power Moon'', ''Multi-Moon''} \<and>
    ci_kingdom (classify_item d name) = Some (strip k) \<and> ci_shine_id (classify_item d name) = Some b"
proof -
  obtain k b where m: "match_item_moon name = Some (k, b)"
    and ci: "ci_kingdom (classify_item d name) = Some (strip k)" "ci_shine_id (classify_item d name) = Some b"
    using assms by (auto simp: classify_item_def Let_def split: if_splits option.splits)
  then obtain c s where name: "name = c # s" "match_moon_from [c] s = Some (k, b)"
    by (auto simp: match_item_moon_def split: list.splits)
  from match_moon_from_split [OF this(2)] obtain t u where tu: "k = [c] @ t" "s = t @ u" "moon_tail u = Some b"
    by blast
  from tu(3) have "b \<in> {''Power Moon'', ''Multi-Moon''}" by (auto simp: moon_tail_def split: if_splits)
  moreover have "name = k @ '' Kingdom '' @ b \<or> name = k @ '' '' @ b"
    using moon_tail_Some [OF tu(3)] tu(1,2) name(1) by (elim disjE) simp_all
  moreover have "k \<noteq> []" using tu(1) by simp
  ultimately show ?thesis using ci by blast
qed

theorem classify_moon_item_sound_witness:
  "ci_kingdom (classify_item (empty_data_package\<lparr>item_categories := [(''Dark Side Multi-Moon'', [''Moon''])]\<rparr>)
     ''Dark Side Multi-Moon'') = Some ''Dark Side''"
proof -
  let ?d = "empty_data_package\<lparr>item_categories := [(''Dark Side Multi-Moon'', [''Moon''])]\<rparr>"
  have k: "ci_kind (classify_item ?d ''Dark Side Multi-Moon'') = MOON"
    by (simp add: classify_item_def dict_get_or_def lower_def lower_char_def char_of_def bit_0
        match_item_moon_def match_moon_from.simps moon_tail_def)
  from classify_moon_item_sound [OF k] show ?thesis
    by (simp add: classify_item_def dict_get_or_def lower_def lower_char_def char_of_def bit_0
        match_item_moon_def match_moon_from.simps moon_tail_def strip_by_def is_space_def)
qed

end
