(* ===== verification/Display.thy ===== *)
theory Display
  imports Datapackage
begin

text \<open>
  \<open>client/display.py\<close> (the labels the Switch shows, cut to a byte budget without splitting a code
  point) and \<open>client/abilities.py\<close> (which moves a received count of an ability item unlocks).
\<close>

section \<open>Labels\<close>

definition max_moon_label_bytes :: nat where "max_moon_label_bytes = 30"
definition truncation_marker :: string where "truncation_marker = ''-''"

definition kingdom_short :: "(string, string) dict" where
  "kingdom_short = [(''Cap'', ''Cap''), (''Cascade'', ''Cascade''), (''Sand'', ''Sand''),
     (''Lake'', ''Lake''), (''Wooded'', ''Wooded''), (''Cloud'', ''Cloud''), (''Lost'', ''Lost''),
     (''Metro'', ''Metro''), (''Snow'', ''Snow''), (''Seaside'', ''Seaside''),
     (''Luncheon'', ''Luncheon''), (''Ruined'', ''Ruined''),
     (''Bowser'' @ [CHR 39] @ ''s'', ''Bowser'' @ [CHR 39] @ ''s''), (''Bowser'', ''Bowser''),
     (''Moon'', ''Moon''), (''Mushroom'', ''Mushroom''), (''Dark Side'', ''Dark Side''),
     (''Darker Side'', ''Darker'')]"

text \<open>\<open>while cut > 0 and (encoded[cut] & 0xC0) == 0x80: cut -= 1\<close>.\<close>

fun back_up :: "string \<Rightarrow> nat \<Rightarrow> nat" where
  "back_up s 0 = 0"
| "back_up s (Suc n) = (if is_cont (s ! Suc n) then back_up s n else Suc n)"

definition truncate_utf8 :: "string \<Rightarrow> nat \<Rightarrow> string" where
  "truncate_utf8 s max_bytes =
     (if s = [] then []
      else if length s \<le> max_bytes then s
      else (let marker_bytes = length truncation_marker
            in if max_bytes < marker_bytes then decode_ignore (take (back_up s max_bytes) s)
               else (let cut = back_up s (max_bytes - marker_bytes)
                     in decode_ignore (take cut s) @ truncation_marker)))"

definition short_kingdom :: "string option \<Rightarrow> string option" where
  "short_kingdom name =
     (if \<not> truthy name then None else Some (dict_get_or kingdom_short (the name) (the name)))"

text \<open>\<open>a or b\<close> for an optional string \<open>a\<close>.\<close>

definition or_str :: "string option \<Rightarrow> string \<Rightarrow> string" where
  "or_str a b = (if truthy a then the a else b)"

definition shorten_item_name :: "classified_item \<Rightarrow> string" where
  "shorten_item_name item =
     (if ci_kind item = MOON then
        (let k = short_kingdom (ci_kingdom item); body = or_str (ci_shine_id item) ''Power Moon''
         in if truthy k then the k @ '' '' @ body else body)
      else if ci_kind item = CAPTURE then or_str (ci_cap item) (ci_name item)
      else ci_name item)"

definition format_moon_label :: "classified_item \<Rightarrow> string \<Rightarrow> string option \<Rightarrow> nat \<Rightarrow> string" where
  "format_moon_label item recipient_slot me_slot max_bytes =
     (let body = shorten_item_name item;
          text = (if me_slot = Some recipient_slot then ''Got '' @ body @ ''!''
                  else ''Sent '' @ body @ '' to '' @ recipient_slot)
      in truncate_utf8 text max_bytes)"

definition format_shop_moon_label :: "classified_item \<Rightarrow> string \<Rightarrow> string option \<Rightarrow> nat \<Rightarrow> string" where
  "format_shop_moon_label item recipient_slot me_slot max_bytes =
     (let body = shorten_item_name item;
          text = (if me_slot = Some recipient_slot then body else body @ '' for '' @ recipient_slot)
      in truncate_utf8 text max_bytes)"

lemma back_up_le: "back_up s n \<le> n"
  by (induction n) auto

lemma back_up_boundary: "back_up s n = 0 \<or> \<not> is_cont (s ! back_up s n)"
  by (induction n) auto

lemma utf8_head_not_cont:
  assumes "utf8_valid s" "s \<noteq> []"
  shows "\<not> is_cont (s ! 0)"
  using assms(1)
proof cases
  case (utf8_Seq n)
  then obtain c u rs where "s = c # u" "lead_ranges (byte c) = Some rs"
    using utf8_headE [of s n] by metis
  then show ?thesis by (auto simp: lead_ranges_def is_cont_iff split: if_splits)
qed (use assms(2) in simp)

lemma utf8_valid_back_up:
  assumes "utf8_valid s" "n < length s"
  shows "utf8_valid (take (back_up s n) s)"
proof (rule utf8_valid_take [OF assms(1)])
  have "back_up s n < length s" using back_up_le [of s n] assms(2) by simp
  moreover have "\<not> is_cont (s ! back_up s n)"
    using back_up_boundary [of s n] utf8_head_not_cont [OF assms(1)] assms(2) by fastforce
  ultimately show "back_up s n = length s \<or> back_up s n < length s \<and> \<not> is_cont (s ! back_up s n)" by simp
qed

lemma truncate_utf8_valid:
  assumes "utf8_valid s"
  shows "utf8_valid (truncate_utf8 s n) \<and> length (truncate_utf8 s n) \<le> n \<and>
    (if length s \<le> n then truncate_utf8 s n = s
     else \<exists>k. truncate_utf8 s n = take k s @ (if n = 0 then [] else truncation_marker))"
proof (cases "length s \<le> n")
  case True
  then show ?thesis using assms by (auto simp: truncate_utf8_def)
next
  case False
  define cut where "cut = back_up s (n - 1)"
  have cut: "cut \<le> n - 1" "utf8_valid (take cut s)"
    unfolding cut_def using back_up_le [of s "n - 1"] utf8_valid_back_up [OF assms, of "n - 1"] False by simp_all
  then have dec: "decode_ignore (take cut s) = take cut s" by (simp add: decode_ignore_def decode_valid)
  have "s \<noteq> []" using False by auto
  show ?thesis
  proof (cases "n = 0")
    case True
    then have "truncate_utf8 s n = []" using False cut(1) dec \<open>s \<noteq> []\<close>
      by (simp add: truncate_utf8_def truncation_marker_def decode_ignore_def decode_with.simps)
    with True False show ?thesis by (auto simp: utf8_Nil intro: exI [of _ 0])
  next
    case n: False
    have "truncate_utf8 s n = take cut s @ truncation_marker"
      using False n \<open>s \<noteq> []\<close> dec by (simp add: truncate_utf8_def truncation_marker_def cut_def Let_def)
    moreover have "utf8_valid (take cut s @ truncation_marker)"
      unfolding truncation_marker_def using cut(2) by (rule utf8_valid_ascii_snoc [rotated]) simp
    ultimately show ?thesis using False n cut(1) by (auto simp: truncation_marker_def)
  qed
qed

section \<open>Abilities\<close>

definition progressive_moves :: "(string, string list) dict" where
  "progressive_moves =
     [(''Progressive Crouch'', [''Crouch'', ''Roll'', ''Roll Boost'']),
      (''Progressive Ground Pound'', [''Ground Pound'', ''Dive'']),
      (''Progressive Jump'', [''Double Jump'', ''Triple Jump'']),
      (''Wall Slide'', [''Wall Slide''])]"

definition moves_owned :: "string \<Rightarrow> int \<Rightarrow> string list" where
  "moves_owned item_name copies =
     (if copies \<le> 0 \<or> item_name = [] then []
      else (case dict_get progressive_moves item_name of
              None \<Rightarrow> [item_name]
            | Some chain \<Rightarrow> take (nat copies) chain))"

definition newly_unlocked_move :: "string \<Rightarrow> int \<Rightarrow> string option" where
  "newly_unlocked_move item_name new_count =
     (if new_count \<le> 0 \<or> item_name = [] then None
      else (case dict_get progressive_moves item_name of
              None \<Rightarrow> (if new_count = 1 then Some item_name else None)
            | Some chain \<Rightarrow> if new_count \<le> int (length chain) then Some (chain ! nat (new_count - 1)) else None))"

definition option_list :: "'a option \<Rightarrow> 'a list" where
  "option_list x = (case x of None \<Rightarrow> [] | Some v \<Rightarrow> [v])"

lemma moves_owned_step:
  assumes "0 \<le> n"
  shows "moves_owned item (n + 1) = moves_owned item n @ option_list (newly_unlocked_move item (n + 1))"
proof (cases "dict_get progressive_moves item")
  case None
  then show ?thesis using assms by (auto simp: moves_owned_def newly_unlocked_move_def option_list_def)
next
  case (Some chain)
  have "take (nat (n + 1)) chain = take (nat n) chain @ option_list (if n + 1 \<le> int (length chain) then Some (chain ! nat n) else None)"
    using assms by (simp add: nat_add_distrib option_list_def take_Suc_conv_app_nth zle_int)
  with Some assms show ?thesis
    by (cases "n = 0") (auto simp: moves_owned_def newly_unlocked_move_def option_list_def)
qed

section \<open>Properties\<close>

text \<open>A label never overflows its byte budget and is always well-formed UTF-8, whatever the item and
  slot names are: the truncation keeps the text when it fits and otherwise cuts it at a code point
  boundary and appends the marker (when the budget has room for it).\<close>

theorem truncation_is_safe:
  assumes "utf8_valid s"
  shows "utf8_valid (truncate_utf8 s n) \<and> length (truncate_utf8 s n) \<le> n \<and>
    (if length s \<le> n then truncate_utf8 s n = s
     else \<exists>k. truncate_utf8 s n = take k s @ (if n = 0 then [] else truncation_marker))"
  using assms by (rule truncate_utf8_valid)

theorem truncation_is_safe_witness:
  "length (truncate_utf8 ([CHR 0xC3, CHR 0xA9] @ ''clair'') 2) \<le> 2"
proof -
  have "utf8_head ([CHR 0xC3, CHR 0xA9] @ ''clair'') = (True, 2)" by (simp add: lead_ranges_def)
  then have "utf8_valid ([CHR 0xC3, CHR 0xA9] @ ''clair'')"
    by (rule utf8_Seq [rotated]) (simp_all add: utf8_valid_ascii_Cons utf8_Nil)
  from truncation_is_safe [OF this, of 2] show ?thesis by simp
qed

text \<open>The list of owned moves grows exactly by the announced move: raising an ability's received count
  by one appends what \<open>newly_unlocked_move\<close> reports, and nothing when it reports a clone.\<close>

theorem moves_grow_by_announced_move:
  assumes "0 \<le> n"
  shows "moves_owned item (n + 1) = moves_owned item n @ option_list (newly_unlocked_move item (n + 1))"
  using assms by (rule moves_owned_step)

theorem moves_grow_by_announced_move_witness:
  "moves_owned ''Progressive Jump'' (1 + 1) =
     moves_owned ''Progressive Jump'' 1 @ option_list (newly_unlocked_move ''Progressive Jump'' (1 + 1))"
  by (rule moves_grow_by_announced_move) simp

end
