(* ===== verification/Bridge_State.thy ===== *)
theory Bridge_State
  imports Protocol
begin

text \<open>
  \<open>client/state.py\<close>: the bridge's mirror of the game (\<open>BridgeState\<close>), one record field per
  attribute and one definition per method, in the source's order. Every method runs under the
  instance's lock, so each is one atomic step; \<open>state_step\<close> is the relation of all the mutating
  ones. The wall-clock fields \<open>received_at\<close> and \<open>checked_at\<close> (and the \<open>at\<close> they
  give \<open>snapshot\<close>) are left out; \<open>last_seen\<close> is written from an argument \<open>now\<close>.
\<close>

section \<open>Ordering of the connections list\<close>

datatype ip_key = IpQuad "int list" | IpOther string

text \<open>Python compares the pairs \<open>(0, ints)\<close> and \<open>(1, ip)\<close>.\<close>

instantiation ip_key :: linorder
begin

fun less_eq_ip_key :: "ip_key \<Rightarrow> ip_key \<Rightarrow> bool" where
  "less_eq_ip_key (IpQuad a) (IpQuad b) = (a \<le> b)"
| "less_eq_ip_key (IpQuad a) (IpOther b) = True"
| "less_eq_ip_key (IpOther a) (IpQuad b) = False"
| "less_eq_ip_key (IpOther a) (IpOther b) = (a \<le> b)"

definition less_ip_key :: "ip_key \<Rightarrow> ip_key \<Rightarrow> bool" where
  "less_ip_key a b \<longleftrightarrow> a \<le> b \<and> \<not> b \<le> a"

instance
proof
  fix x y z :: ip_key
  show "(x < y) = (x \<le> y \<and> \<not> y \<le> x)" by (rule less_ip_key_def)
  show "x \<le> x" by (cases x) simp_all
  show "x \<le> z" if "x \<le> y" "y \<le> z" using that by (cases x; cases y; cases z) auto
  show "x = y" if "x \<le> y" "y \<le> x" using that by (cases x; cases y) auto
  show "x \<le> y \<or> y \<le> x" by (cases x; cases y) auto
qed

end

fun map_option_all :: "('a \<Rightarrow> 'b option) \<Rightarrow> 'a list \<Rightarrow> 'b list option" where
  "map_option_all f [] = Some []"
| "map_option_all f (x # xs) =
     (case f x of None \<Rightarrow> None | Some y \<Rightarrow> map_option ((#) y) (map_option_all f xs))"

definition ip_sort_key :: "string \<Rightarrow> ip_key" where
  "ip_sort_key ip =
     (let parts = split_on (CHR ''.'') ip
      in if length parts = 4
         then (case map_option_all py_int parts of Some ns \<Rightarrow> IpQuad ns | None \<Rightarrow> IpOther ip)
         else IpOther ip)"

section \<open>State\<close>

record item_event =
  ev_item :: item_ref
  ev_sender :: string
  ev_cappy_from :: string

record check_event = ce_item :: item_ref

type_synonym check_key =
  "string \<times> string option \<times> string option \<times> string option \<times> string option \<times> string option \<times> int option \<times> string option"

datatype snapshot_entry = SnapMoon string json json | SnapCapture string

record switch_entry =
  sw_device_id :: string
  sw_peer_ip :: string
  sw_mod_ver :: string
  sw_smo_ver :: string
  sw_last_seen :: int

record bridge_state =
  ap_conn :: string
  switch_conn :: string
  ap_seed :: string
  ap_slot :: string
  received_items :: "item_event list"
  checked_locations :: "check_event list"
  captures_unlocked :: "string set"
  captures_received_count :: "(string, int) dict"
  abilities_received :: "(string, int) dict"
  moons_received_by_kingdom :: "(string, int) dict"
  moons_checked_by_kingdom :: "(string, int) dict"
  reached_kingdoms :: "string set"
  pay_shine_num_by_kingdom :: "(string, int) dict option"
  last_messages :: "string list"
  death_count :: int
  shine_palette :: "(int, int) dict"
  checked_keys :: "check_key set"
  pending_snapshot_active :: bool
  pending_snapshot_entries :: "snapshot_entry list"
  pending_snapshot_save_slot :: "int option"
  pending_snapshot_goal :: bool
  last_snapshot_save_slot :: "int option"
  switches :: "(string, switch_entry) dict"
  active_device_id :: "string option"
  entrance_map :: "(string, string) dict"
  entrance_map_configured :: bool

definition init_bridge_state :: bridge_state where
  "init_bridge_state = \<lparr>
     ap_conn = ''disconnected'', switch_conn = ''disconnected'', ap_seed = [], ap_slot = [],
     received_items = [], checked_locations = [], captures_unlocked = {},
     captures_received_count = [], abilities_received = [], moons_received_by_kingdom = [],
     moons_checked_by_kingdom = [], reached_kingdoms = {}, pay_shine_num_by_kingdom = None,
     last_messages = [], death_count = 0, shine_palette = [], checked_keys = {},
     pending_snapshot_active = False, pending_snapshot_entries = [],
     pending_snapshot_save_slot = None, pending_snapshot_goal = False,
     last_snapshot_save_slot = None, switches = [], active_device_id = None,
     entrance_map = [], entrance_map_configured = False \<rparr>"

section \<open>Receipts and checks\<close>

definition set_ap_conn :: "string \<Rightarrow> 'a bridge_state_scheme \<Rightarrow> 'a bridge_state_scheme" where
  "set_ap_conn c s = s\<lparr>ap_conn := c\<rparr>"

definition set_switch_conn :: "string \<Rightarrow> 'a bridge_state_scheme \<Rightarrow> 'a bridge_state_scheme" where
  "set_switch_conn c s = s\<lparr>switch_conn := c\<rparr>"

definition moon_weight :: "item_ref \<Rightarrow> int" where
  "moon_weight i = (if ref_shine_id i = Some ''Multi-Moon'' then 3 else 1)"

definition add_received_item :: "item_event \<Rightarrow> 'a bridge_state_scheme \<Rightarrow> 'a bridge_state_scheme" where
  "add_received_item evt s =
     (let i = ev_item evt; s = s\<lparr>received_items := received_items s @ [evt]\<rparr>
      in if ref_kind i = ''capture'' \<and> truthy (ref_cap i) then
           (let c = the (ref_cap i)
            in s\<lparr>captures_unlocked := insert c (captures_unlocked s),
                 captures_received_count := dict_bump c 1 (captures_received_count s)\<rparr>)
         else if ref_kind i = ''ability'' \<and> truthy (ref_name i) then
           s\<lparr>abilities_received := dict_bump (the (ref_name i)) 1 (abilities_received s)\<rparr>
         else if ref_kind i = ''moon'' \<and> truthy (ref_kingdom i) then
           s\<lparr>moons_received_by_kingdom :=
               dict_bump (the (ref_kingdom i)) (moon_weight i) (moons_received_by_kingdom s)\<rparr>
         else s)"

definition check_key :: "item_ref \<Rightarrow> check_key" where
  "check_key i = (ref_kind i, ref_kingdom i, ref_shine_id i, ref_cap i, ref_stage_name i,
     ref_object_id i, ref_shine_uid i, ref_hack_name i)"

definition add_checked_location ::
  "check_event \<Rightarrow> 'a bridge_state_scheme \<Rightarrow> 'a bridge_state_scheme \<times> bool" where
  "add_checked_location evt s =
     (let i = ce_item evt; key = check_key i
      in if key \<in> checked_keys s then (s, False)
         else (let s = s\<lparr>checked_keys := insert key (checked_keys s),
                         checked_locations := checked_locations s @ [evt]\<rparr>
               in (if ref_kind i = ''moon'' \<and> truthy (ref_kingdom i)
                   then s\<lparr>moons_checked_by_kingdom :=
                            dict_bump (the (ref_kingdom i)) 1 (moons_checked_by_kingdom s)\<rparr>
                   else s, True)))"

definition clear_received :: "'a bridge_state_scheme \<Rightarrow> 'a bridge_state_scheme" where
  "clear_received s = s\<lparr>received_items := [], captures_unlocked := {},
     moons_received_by_kingdom := [], moons_checked_by_kingdom := [], checked_locations := [],
     checked_keys := {}, reached_kingdoms := {}, shine_palette := [],
     pay_shine_num_by_kingdom := None\<rparr>"

definition mark_kingdom_reached ::
  "string option \<Rightarrow> 'a bridge_state_scheme \<Rightarrow> 'a bridge_state_scheme \<times> bool" where
  "mark_kingdom_reached kingdom s =
     (if \<not> truthy kingdom then (s, False)
      else (let k = the kingdom
            in if k \<in> reached_kingdoms s then (s, False)
               else (s\<lparr>reached_kingdoms := insert k (reached_kingdoms s)\<rparr>, True)))"

definition last_n :: "nat \<Rightarrow> 'b list \<Rightarrow> 'b list" where
  "last_n n xs = drop (length xs - n) xs"

definition add_log :: "string \<Rightarrow> 'a bridge_state_scheme \<Rightarrow> 'a bridge_state_scheme" where
  "add_log text s =
     (let ms = last_messages s @ [text]
      in s\<lparr>last_messages := (if 200 < length ms then last_n 200 ms else ms)\<rparr>)"

definition bump_death_count :: "'a bridge_state_scheme \<Rightarrow> 'a bridge_state_scheme" where
  "bump_death_count s = s\<lparr>death_count := death_count s + 1\<rparr>"

section \<open>Outstanding moons and coins\<close>

definition apply_pay_snapshot ::
  "(string, int) dict \<Rightarrow> 'a bridge_state_scheme \<Rightarrow> 'a bridge_state_scheme" where
  "apply_pay_snapshot totals s =
     s\<lparr>pay_shine_num_by_kingdom := Some (dict_update_all (map (\<lambda>(k, v). (k, max 0 v)) totals) [])\<rparr>"

text \<open>The two loops of \<open>compute_outstanding\<close>.\<close>

definition outstanding_of :: "(string, int) dict \<Rightarrow> (string, int) dict \<Rightarrow> (string, int) dict" where
  "outstanding_of received pays =
     (let out = foldl (\<lambda>out (k, lifetime). dict_set k (max 0 (lifetime - dict_get_or pays k 0)) out) [] received
      in foldl (\<lambda>out k. dict_setdefault k 0 out) out (dict_keys pays))"

definition compute_outstanding :: "'a bridge_state_scheme \<Rightarrow> (string, int) dict option" where
  "compute_outstanding s =
     (case pay_shine_num_by_kingdom s of
        None \<Rightarrow> None
      | Some pays \<Rightarrow> Some (outstanding_of (moons_received_by_kingdom s) pays))"

definition compute_cap_coin_total :: "'a bridge_state_scheme \<Rightarrow> int" where
  "compute_cap_coin_total s = max 0 (dict_get_or (moons_received_by_kingdom s) ''Cap'' 0) * 100"

definition compute_total_coin_grant :: "'a bridge_state_scheme \<Rightarrow> int" where
  "compute_total_coin_grant s =
     (let total = max 0 (dict_get_or (moons_received_by_kingdom s) ''Cap'' 0) * 100;
          total = foldl (\<lambda>t c. t + max 0 (c - 1) * 100) total (map snd (captures_received_count s))
      in foldl (\<lambda>t c. t + max 0 (c - 1) * 100) total (map snd (abilities_received s)))"

definition get_ability_counts :: "'a bridge_state_scheme \<Rightarrow> (string, int) dict" where
  "get_ability_counts s = abilities_received s"

definition received_item_count :: "string \<Rightarrow> 'a bridge_state_scheme \<Rightarrow> int" where
  "received_item_count name s =
     int (length (filter (\<lambda>e. ref_name (ev_item e) = Some name) (received_items s)))"

definition grant_bonus_capture :: "string \<Rightarrow> 'a bridge_state_scheme \<Rightarrow> 'a bridge_state_scheme" where
  "grant_bonus_capture cap s =
     s\<lparr>captures_unlocked := insert cap (captures_unlocked s),
       captures_received_count := dict_bump cap 1 (captures_received_count s)\<rparr>"

definition grant_bonus_ability :: "string \<Rightarrow> 'a bridge_state_scheme \<Rightarrow> 'a bridge_state_scheme" where
  "grant_bonus_ability name s = s\<lparr>abilities_received := dict_bump name 1 (abilities_received s)\<rparr>"

definition get_pay_shine_num :: "'a bridge_state_scheme \<Rightarrow> (string, int) dict option" where
  "get_pay_shine_num s = pay_shine_num_by_kingdom s"

definition get_kingdom_lifetime_received :: "string \<Rightarrow> 'a bridge_state_scheme \<Rightarrow> int" where
  "get_kingdom_lifetime_received kingdom s = dict_get_or (moons_received_by_kingdom s) kingdom 0"

definition set_entrance_map :: "(string, string) dict \<Rightarrow> 'a bridge_state_scheme \<Rightarrow> 'a bridge_state_scheme" where
  "set_entrance_map m s = s\<lparr>entrance_map := dict_update_all m [], entrance_map_configured := True\<rparr>"

definition set_shine_palette :: "(int, int) dict \<Rightarrow> 'a bridge_state_scheme \<Rightarrow> 'a bridge_state_scheme" where
  "set_shine_palette entries s = s\<lparr>shine_palette := entries\<rparr>"

section \<open>Registry of connected Switches\<close>

definition register_switch ::
  "int \<Rightarrow> string \<Rightarrow> string \<Rightarrow> string \<Rightarrow> string \<Rightarrow> 'a bridge_state_scheme \<Rightarrow> 'a bridge_state_scheme" where
  "register_switch now device_id peer_ip mod_ver smo_ver s =
     s\<lparr>switches := dict_set device_id
         \<lparr>sw_device_id = device_id, sw_peer_ip = peer_ip, sw_mod_ver = mod_ver, sw_smo_ver = smo_ver,
          sw_last_seen = now\<rparr> (switches s)\<rparr>"

definition touch_switch :: "int \<Rightarrow> string \<Rightarrow> 'a bridge_state_scheme \<Rightarrow> 'a bridge_state_scheme" where
  "touch_switch now device_id s =
     (case dict_get (switches s) device_id of
        None \<Rightarrow> s
      | Some e \<Rightarrow> s\<lparr>switches := dict_set device_id (e\<lparr>sw_last_seen := now\<rparr>) (switches s)\<rparr>)"

definition unregister_switch :: "string \<Rightarrow> 'a bridge_state_scheme \<Rightarrow> 'a bridge_state_scheme" where
  "unregister_switch device_id s =
     (let s = s\<lparr>switches := dict_pop device_id (switches s)\<rparr>
      in if active_device_id s = Some device_id then s\<lparr>active_device_id := None\<rparr> else s)"

definition set_active_switch :: "string option \<Rightarrow> 'a bridge_state_scheme \<Rightarrow> 'a bridge_state_scheme" where
  "set_active_switch device_id s =
     (case device_id of
        Some d \<Rightarrow> if dict_get (switches s) d = None then s else s\<lparr>active_device_id := device_id\<rparr>
      | None \<Rightarrow> s\<lparr>active_device_id := None\<rparr>)"

definition get_switches :: "'a bridge_state_scheme \<Rightarrow> (switch_entry \<times> bool) list" where
  "get_switches s =
     (let entries = map (\<lambda>(k, v). (v, Some k = active_device_id s)) (switches s)
      in sort_key (\<lambda>(e, a). ip_sort_key (sw_peer_ip e)) entries)"

section \<open>Snapshot for the tracker\<close>

definition int_dict_json :: "(string, int) dict \<Rightarrow> json" where
  "int_dict_json d = JObj (map (\<lambda>(k, v). (k, JInt v)) d)"

definition tracker_snapshot :: "'a bridge_state_scheme \<Rightarrow> json" where
  "tracker_snapshot s = JObj
     [(''ap_conn'', JStr (ap_conn s)), (''switch_conn'', JStr (switch_conn s)),
      (''seed'', JStr (ap_seed s)), (''slot'', JStr (ap_slot s)),
      (''received_count'', JInt (int (length (received_items s)))),
      (''checked_count'', JInt (int (length (checked_locations s)))),
      (''death_count'', JInt (death_count s)),
      (''captures_unlocked'', JList (map JStr (sorted_list_of_set (captures_unlocked s)))),
      (''abilities_received'', int_dict_json (abilities_received s)),
      (''moons_received_by_kingdom'', int_dict_json (moons_received_by_kingdom s)),
      (''moons_checked_by_kingdom'', int_dict_json (moons_checked_by_kingdom s)),
      (''reached_kingdoms'', JList (map JStr (sorted_list_of_set (reached_kingdoms s)))),
      (''pay_shine_num_by_kingdom'',
         (case pay_shine_num_by_kingdom s of None \<Rightarrow> JNull | Some d \<Rightarrow> int_dict_json d)),
      (''recent_items'', JList (map (\<lambda>e. let i = ev_item e in JObj
         [(''kind'', JStr (ref_kind i)), (''kingdom'', jopt JStr (ref_kingdom i)),
          (''shine_id'', jopt JStr (ref_shine_id i)), (''cap'', jopt JStr (ref_cap i)),
          (''name'', jopt JStr (ref_name i)), (''from'', JStr (ev_sender e))])
         (last_n 50 (received_items s)))),
      (''recent_messages'', JList (map JStr (last_n 50 (last_messages s))))]"

section \<open>Snapshot accumulator\<close>

definition begin_snapshot :: "int option \<Rightarrow> 'a bridge_state_scheme \<Rightarrow> 'a bridge_state_scheme" where
  "begin_snapshot save_slot s =
     s\<lparr>pending_snapshot_active := True, pending_snapshot_entries := [],
       pending_snapshot_save_slot := save_slot\<rparr>"

text \<open>\<open>d.get(k)\<close> on a decoded dictionary.\<close>

definition json_get :: "(string \<times> json) list \<Rightarrow> string \<Rightarrow> json" where
  "json_get d k = dict_get_or d k JNull"

text \<open>One entry of a chunk's \<open>shines\<close>: an element that is no dictionary is skipped.\<close>

fun shine_snapshot_entries :: "string \<Rightarrow> json list \<Rightarrow> snapshot_entry list" where
  "shine_snapshot_entries stage [] = []"
| "shine_snapshot_entries stage (JObj d # js) =
     SnapMoon stage (json_get d ''object_id'') (json_get d ''shine_uid'') # shine_snapshot_entries stage js"
| "shine_snapshot_entries stage (_ # js) = shine_snapshot_entries stage js"

definition add_snapshot_chunk_shines ::
  "string \<Rightarrow> json list \<Rightarrow> 'a bridge_state_scheme \<Rightarrow> 'a bridge_state_scheme" where
  "add_snapshot_chunk_shines stage_name shines s =
     (if \<not> pending_snapshot_active s then s
      else s\<lparr>pending_snapshot_entries :=
               pending_snapshot_entries s @ shine_snapshot_entries stage_name shines\<rparr>)"

fun capture_snapshot_entries :: "json list \<Rightarrow> snapshot_entry list" where
  "capture_snapshot_entries [] = []"
| "capture_snapshot_entries (JStr h # js) =
     (if h \<noteq> [] then SnapCapture h # capture_snapshot_entries js else capture_snapshot_entries js)"
| "capture_snapshot_entries (_ # js) = capture_snapshot_entries js"

definition add_snapshot_chunk_meta ::
  "json list option \<Rightarrow> bool option \<Rightarrow> 'a bridge_state_scheme \<Rightarrow> 'a bridge_state_scheme" where
  "add_snapshot_chunk_meta captures goal_reached s =
     (if \<not> pending_snapshot_active s then s
      else (let s = s\<lparr>pending_snapshot_entries :=
                        pending_snapshot_entries s @ capture_snapshot_entries (or_default captures [])\<rparr>
            in case goal_reached of None \<Rightarrow> s | Some g \<Rightarrow> s\<lparr>pending_snapshot_goal := g\<rparr>))"

definition end_snapshot ::
  "'a bridge_state_scheme \<Rightarrow> 'a bridge_state_scheme \<times> (snapshot_entry list \<times> bool)" where
  "end_snapshot s =
     (s\<lparr>last_snapshot_save_slot := pending_snapshot_save_slot s, pending_snapshot_active := False,
        pending_snapshot_entries := [], pending_snapshot_save_slot := None,
        pending_snapshot_goal := False\<rparr>,
      (pending_snapshot_entries s, pending_snapshot_goal s))"


section \<open>The mutating operations as a step relation\<close>

inductive state_step :: "'a bridge_state_scheme \<Rightarrow> 'a bridge_state_scheme \<Rightarrow> bool" where
  step_ap_conn: "state_step s (set_ap_conn c s)"
| step_switch_conn: "state_step s (set_switch_conn c s)"
| step_received: "state_step s (add_received_item e s)"
| step_checked: "state_step s (fst (add_checked_location ce s))"
| step_clear: "state_step s (clear_received s)"
| step_reached: "state_step s (fst (mark_kingdom_reached k s))"
| step_log: "state_step s (add_log t s)"
| step_death: "state_step s (bump_death_count s)"
| step_pay: "state_step s (apply_pay_snapshot p s)"
| step_bonus_capture: "state_step s (grant_bonus_capture c s)"
| step_bonus_ability: "state_step s (grant_bonus_ability a s)"
| step_entrances: "state_step s (set_entrance_map m s)"
| step_palette: "dict_ok q \<Longrightarrow> state_step s (set_shine_palette q s)"
| step_register: "state_step s (register_switch n d ip mv sv s)"
| step_touch: "state_step s (touch_switch n d s)"
| step_unregister: "state_step s (unregister_switch d s)"
| step_activate: "state_step s (set_active_switch a s)"
| step_begin: "state_step s (begin_snapshot slot s)"
| step_shines: "state_step s (add_snapshot_chunk_shines st js s)"
| step_meta: "state_step s (add_snapshot_chunk_meta cs g s)"
| step_end: "state_step s (fst (end_snapshot s))"

lemmas state_op_defs = set_ap_conn_def set_switch_conn_def add_received_item_def
  add_checked_location_def clear_received_def mark_kingdom_reached_def add_log_def
  bump_death_count_def apply_pay_snapshot_def grant_bonus_capture_def grant_bonus_ability_def
  set_entrance_map_def set_shine_palette_def register_switch_def touch_switch_def
  unregister_switch_def set_active_switch_def begin_snapshot_def add_snapshot_chunk_shines_def
  add_snapshot_chunk_meta_def end_snapshot_def

inductive_cases state_stepE: "state_step s t"

inductive state_reach :: "'a bridge_state_scheme \<Rightarrow> 'a bridge_state_scheme \<Rightarrow> bool" for s0 where
  reach_refl: "state_reach s0 s0"
| reach_step: "state_reach s0 s \<Longrightarrow> state_step s t \<Longrightarrow> state_reach s0 t"

lemma state_reach_invariant:
  assumes "state_reach s0 s" "P s0" "\<And>s t. P s \<Longrightarrow> state_step s t \<Longrightarrow> P t"
  shows "P s"
  using assms(1) by induction (use assms(2,3) in auto)

lemma add_received_item_frame [frame_simps]:
  "received_items (add_received_item e s) = received_items s @ [e]"
  "checked_locations (add_received_item e s) = checked_locations s"
  "checked_keys (add_received_item e s) = checked_keys s"
  "moons_checked_by_kingdom (add_received_item e s) = moons_checked_by_kingdom s"
  "switches (add_received_item e s) = switches s"
  "active_device_id (add_received_item e s) = active_device_id s"
  "last_messages (add_received_item e s) = last_messages s"
  "pay_shine_num_by_kingdom (add_received_item e s) = pay_shine_num_by_kingdom s"
  by (simp_all add: add_received_item_def Let_def)

section \<open>Invariants\<close>

subsection \<open>Checks are recorded once and counted\<close>

definition moons_of :: "string \<Rightarrow> item_ref list \<Rightarrow> item_ref list" where
  "moons_of k is = filter (\<lambda>i. ref_kind i = ''moon'' \<and> ref_kingdom i = Some k \<and> k \<noteq> []) is"

lemma moons_of_simps [simp]:
  "moons_of k [] = []"
  "moons_of k (is @ js) = moons_of k is @ moons_of k js"
  "moons_of k [i] = (if ref_kind i = ''moon'' \<and> ref_kingdom i = Some k \<and> k \<noteq> [] then [i] else [])"
  by (simp_all add: moons_of_def)

abbreviation checked_refs :: "'a bridge_state_scheme \<Rightarrow> item_ref list" where
  "checked_refs s \<equiv> map ce_item (checked_locations s)"

abbreviation received_refs :: "'a bridge_state_scheme \<Rightarrow> item_ref list" where
  "received_refs s \<equiv> map ev_item (received_items s)"

definition checks_inv :: "'a bridge_state_scheme \<Rightarrow> bool" where
  "checks_inv s \<longleftrightarrow>
     checked_keys s = check_key ` set (checked_refs s) \<and>
     distinct (map check_key (checked_refs s)) \<and>
     (\<forall>k. dict_get_or (moons_checked_by_kingdom s) k 0 = int (length (moons_of k (checked_refs s))))"

lemma checks_inv_add:
  assumes "checks_inv s"
  shows "checks_inv (fst (add_checked_location e s))"
proof (cases "check_key (ce_item e) \<in> checked_keys s")
  case True
  with assms show ?thesis by (simp add: add_checked_location_def Let_def)
next
  case False
  let ?t = "fst (add_checked_location e s)" and ?i = "ce_item e"
  have refs: "checked_refs ?t = checked_refs s @ [?i]" "checked_keys ?t = insert (check_key ?i) (checked_keys s)"
    using False by (simp_all add: add_checked_location_def Let_def)
  have count: "dict_get_or (moons_checked_by_kingdom ?t) k 0 =
      dict_get_or (moons_checked_by_kingdom s) k 0 + int (length (moons_of k [?i]))" for k
    using False by (auto simp: add_checked_location_def Let_def dict_get_or_bump elim!: truthyE)
  from assms have keys: "checked_keys s = check_key ` set (checked_refs s)"
    and dist: "distinct (map check_key (checked_refs s))"
    and cnt: "\<And>k. dict_get_or (moons_checked_by_kingdom s) k 0 = int (length (moons_of k (checked_refs s)))"
    by (simp_all add: checks_inv_def)
  have "check_key ?i \<notin> set (map check_key (checked_refs s))" using False keys by (auto simp: image_iff)
  then have "distinct (map check_key (checked_refs ?t))" unfolding refs using dist by simp
  moreover have "checked_keys ?t = check_key ` set (checked_refs ?t)" unfolding refs keys by simp
  moreover have "dict_get_or (moons_checked_by_kingdom ?t) k 0 = int (length (moons_of k (checked_refs ?t)))" for k
    unfolding count cnt refs by simp
  ultimately show ?thesis unfolding checks_inv_def by blast
qed

lemma checks_inv_step:
  assumes "state_step s t" "checks_inv s"
  shows "checks_inv t"
  using assms(1)
proof cases
  case (step_checked e) with checks_inv_add [OF assms(2)] show ?thesis by simp
next
  case step_clear then show ?thesis by (simp add: checks_inv_def clear_received_def)
next
  case (step_received e) with assms(2) show ?thesis by (simp add: checks_inv_def frame_simps)
qed (use assms(2) in \<open>simp_all add: state_op_defs Let_def checks_inv_def split: option.splits\<close>)

subsection \<open>Receipts are counted\<close>

definition receipts_inv :: "'a bridge_state_scheme \<Rightarrow> bool" where
  "receipts_inv s \<longleftrightarrow>
     (\<forall>k. dict_get_or (moons_received_by_kingdom s) k 0 = sum_list (map moon_weight (moons_of k (received_refs s)))) \<and>
     (\<forall>c\<in>captures_unlocked s. 1 \<le> dict_get_or (captures_received_count s) c 0) \<and>
     list_all (\<lambda>v. 1 \<le> v) (map snd (captures_received_count s)) \<and>
     list_all (\<lambda>v. 1 \<le> v) (map snd (abilities_received s)) \<and>
     dict_ok (captures_received_count s) \<and> dict_ok (abilities_received s) \<and>
     dict_ok (moons_received_by_kingdom s)"

lemma counts_nonneg: "list_all (\<lambda>v. 1 \<le> v) (map snd d) \<Longrightarrow> 0 \<le> dict_get_or d k (0::int)"
  by (induction d) (auto simp: dict_get_or_def split: option.splits)

lemma list_all_bump:
  assumes "list_all (\<lambda>v. 1 \<le> v) (map snd d)"
  shows "list_all (\<lambda>v. (1::int) \<le> v) (map snd (dict_bump k 1 d))"
proof -
  have "list_all (\<lambda>v. 1 \<le> v) (map snd (dict_set k (dict_get_or d k 0 + 1) d'))"
    if "list_all (\<lambda>v. 1 \<le> v) (map snd d')" for d' :: "('a, int) dict"
    using that counts_nonneg [OF assms, of k] by (induction d') auto
  with assms show ?thesis by (simp add: dict_bump_def)
qed

lemma sum_list_moons_snoc:
  "sum_list (map moon_weight (moons_of k (received_refs s @ [i]))) =
     sum_list (map moon_weight (moons_of k (received_refs s))) + sum_list (map moon_weight (moons_of k [i]))"
  by simp

lemma add_received_item_moons:
  "dict_get_or (moons_received_by_kingdom (add_received_item e s)) k 0 =
     dict_get_or (moons_received_by_kingdom s) k 0 + sum_list (map moon_weight (moons_of k [ev_item e]))"
  by (auto simp: add_received_item_def Let_def dict_get_or_bump elim!: truthyE)

lemma receipts_inv_received: "receipts_inv s \<Longrightarrow> receipts_inv (add_received_item e s)"
  unfolding receipts_inv_def add_received_item_moons frame_simps map_append list.map sum_list_moons_snoc
  by (auto simp: add_received_item_def Let_def dict_get_or_bump list_all_bump counts_nonneg)

lemma receipts_inv_step:
  assumes "state_step s t" "receipts_inv s"
  shows "receipts_inv t"
  using assms(1)
proof cases
  case (step_received e) with receipts_inv_received [OF assms(2)] show ?thesis by simp
next
  case (step_bonus_capture c)
  with assms(2) show ?thesis
    by (auto simp: grant_bonus_capture_def receipts_inv_def dict_get_or_bump list_all_bump counts_nonneg)
next
  case (step_bonus_ability c)
  with assms(2) show ?thesis by (simp add: grant_bonus_ability_def receipts_inv_def list_all_bump)
qed (use assms(2) in \<open>simp_all add: state_op_defs Let_def receipts_inv_def split: option.splits\<close>)

subsection \<open>The registry, the log and the pay table\<close>

definition registry_ok :: "(string, switch_entry) dict \<Rightarrow> string option \<Rightarrow> bool" where
  "registry_ok sws act \<longleftrightarrow>
     dict_ok sws \<and>
     (\<forall>d e. dict_get sws d = Some e \<longrightarrow> sw_device_id e = d) \<and>
     (\<forall>d. act = Some d \<longrightarrow> dict_get sws d \<noteq> None)"

definition registry_inv :: "'a bridge_state_scheme \<Rightarrow> bool" where
  "registry_inv s \<longleftrightarrow> registry_ok (switches s) (active_device_id s)"

lemma registry_inv_step:
  assumes "state_step s t" "registry_inv s"
  shows "registry_inv t"
  using assms(1)
proof cases
  case (step_register n d ip mv sv)
  with assms(2) show ?thesis by (auto simp: register_switch_def registry_inv_def registry_ok_def)
next
  case (step_received e) with assms(2) show ?thesis by (simp add: registry_inv_def frame_simps)
next
  case (step_touch n d)
  with assms(2) show ?thesis by (cases "dict_get (switches s) d") (auto simp: touch_switch_def registry_inv_def registry_ok_def)
next
  case (step_unregister d)
  with assms(2) show ?thesis by (auto simp: unregister_switch_def registry_inv_def registry_ok_def Let_def)
next
  case (step_activate a)
  with assms(2) show ?thesis by (auto simp: set_active_switch_def registry_inv_def registry_ok_def split: option.splits)
qed (use assms(2) in \<open>simp_all add: state_op_defs Let_def registry_inv_def split: option.splits\<close>)

lemma map_pair_Cons: "map (\<lambda>(k, v). (k, max 0 v)) (q # p) = (fst q, max 0 (snd q)) # map (\<lambda>(k, v). (k, max 0 v)) p"
  by (simp split: prod.split)

lemma length_last_n: "length (last_n n xs) = min n (length xs)"
  by (simp add: last_n_def)

definition pay_ok :: "(string, int) dict option \<Rightarrow> bool" where
  "pay_ok p \<longleftrightarrow> (case p of None \<Rightarrow> True | Some d \<Rightarrow> dict_ok d \<and> (\<forall>k v. dict_get d k = Some v \<longrightarrow> 0 \<le> v))"

lemma pay_ok_None [simp]: "pay_ok None"
  by (simp add: pay_ok_def)

lemma pay_ok_clamped: "pay_ok (Some (dict_update_all (map (\<lambda>(k, v). (k, max 0 v)) p) []))"
proof -
  have nn: "0 \<le> v" if "dict_get (dict_update_all (map (\<lambda>(k, v). (k, max 0 v)) p) d) k = Some v"
    "\<And>k v. dict_get d k = Some v \<Longrightarrow> 0 \<le> v" for k and v :: int and d
    using that
  proof (induction p arbitrary: d)
    case (Cons q p)
    show ?case
    proof (rule Cons.IH)
      show "dict_get (dict_update_all (map (\<lambda>(k, v). (k, max 0 v)) p) (dict_set (fst q) (max 0 (snd q)) d)) k = Some v"
        using Cons.prems(1) unfolding map_pair_Cons dict_update_all_simps .
    qed (use Cons.prems(2) in \<open>auto split: if_splits\<close>)
  qed simp
  show ?thesis unfolding pay_ok_def option.case
  proof (intro conjI allI impI)
    show "dict_ok (dict_update_all (map (\<lambda>(k, v). (k, max 0 v)) p) [])" by simp
  next
    fix k and v :: int
    assume "dict_get (dict_update_all (map (\<lambda>(k, v). (k, max 0 v)) p) []) k = Some v"
    then show "0 \<le> v" by (rule nn) simp
  qed
qed

definition bounds_inv :: "'a bridge_state_scheme \<Rightarrow> bool" where
  "bounds_inv s \<longleftrightarrow> length (last_messages s) \<le> 200 \<and> pay_ok (pay_shine_num_by_kingdom s)"

lemma bounds_inv_step:
  assumes "state_step s t" "bounds_inv s"
  shows "bounds_inv t"
  using assms(1)
proof cases
  case (step_log m)
  with assms(2) show ?thesis by (simp add: add_log_def bounds_inv_def Let_def length_last_n)
next
  case (step_pay p)
  with assms(2) pay_ok_clamped show ?thesis by (simp add: apply_pay_snapshot_def bounds_inv_def)
next
  case (step_received e) with assms(2) show ?thesis by (simp add: bounds_inv_def frame_simps)
qed (use assms(2) in \<open>simp_all add: state_op_defs Let_def bounds_inv_def split: option.splits\<close>)

definition state_inv :: "'a bridge_state_scheme \<Rightarrow> bool" where
  "state_inv s \<longleftrightarrow> checks_inv s \<and> receipts_inv s \<and> registry_inv s \<and> bounds_inv s"

lemma state_inv_init: "state_inv init_bridge_state"
  by (simp add: state_inv_def init_bridge_state_def checks_inv_def receipts_inv_def registry_inv_def
      registry_ok_def bounds_inv_def)

lemma state_inv_step: "state_step s t \<Longrightarrow> state_inv s \<Longrightarrow> state_inv t"
  using checks_inv_step receipts_inv_step registry_inv_step bounds_inv_step
  unfolding state_inv_def by blast

lemma state_inv_reach: "state_reach s t \<Longrightarrow> state_inv s \<Longrightarrow> state_inv t"
  by (erule state_reach_invariant) (auto intro: state_inv_step)

section \<open>Outstanding balances\<close>

lemma outstanding_received:
  assumes "dict_ok r"
  shows "dict_get (foldl (\<lambda>out (k, l). dict_set k (g k l) out) out r) k =
    (case dict_get r k of Some l \<Rightarrow> Some (g k l) | None \<Rightarrow> dict_get out k)"
  using assms
proof (induction r arbitrary: out)
  case (Cons p r)
  obtain j l where p: "p = (j, l)" by fastforce
  from Cons.prems p have "dict_get r j = None" by (simp add: map_of_eq_None_iff)
  with Cons p show ?case by (auto split: option.split)
qed simp

lemma setdefault_all:
  "dict_get (foldl (\<lambda>out k. dict_setdefault k v out) out ks) j =
     (if dict_get out j = None \<and> j \<in> set ks then Some v else dict_get out j)"
  by (induction ks arbitrary: out) (auto simp: dict_get_setdefault)

lemma dict_get_or_None: "k \<notin> set (dict_keys d) \<Longrightarrow> dict_get_or d k v = v"
  using dict_get_None_iff [of d k] by (simp add: dict_get_or_def)

lemma dict_get_Some_or: "k \<in> set (dict_keys d) \<Longrightarrow> dict_get d k = Some (dict_get_or d k v)"
  using dict_get_None_iff [of d k] by (auto simp: dict_get_or_def split: option.split)

lemma outstanding_of_get:
  assumes "dict_ok r" "\<And>k v. dict_get p k = Some v \<Longrightarrow> 0 \<le> v"
  shows "dict_get (outstanding_of r p) k =
    (if k \<in> set (dict_keys r) \<union> set (dict_keys p)
     then Some (max 0 (dict_get_or r k 0 - dict_get_or p k 0)) else None)"
proof (cases "k \<in> set (dict_keys r)")
  case True
  then have "dict_get r k = Some (dict_get_or r k 0)" by (rule dict_get_Some_or)
  with True show ?thesis
    by (simp add: outstanding_of_def Let_def setdefault_all outstanding_received [OF assms(1)])
next
  case False
  then have "dict_get r k = None" "dict_get_or r k 0 = 0"
    by (simp_all add: dict_get_None_iff dict_get_or_None)
  moreover have "0 \<le> dict_get_or p k 0"
    using assms(2) [of k] by (auto simp: dict_get_or_def split: option.split)
  ultimately show ?thesis using False
    by (simp add: outstanding_of_def Let_def setdefault_all outstanding_received [OF assms(1)] image_iff)
qed

section \<open>Coins\<close>

lemma foldl_add: "foldl (\<lambda>t c. t + f c) t cs = (t :: int) + sum_list (map f cs)"
  by (induction cs arbitrary: t) simp_all

definition duplicates :: "(string, int) dict \<Rightarrow> int" where
  "duplicates d = sum_list (map (\<lambda>c. max 0 (c - 1)) (map snd d))"

lemma coin_grant_sum:
  "compute_total_coin_grant s = 100 * (max 0 (dict_get_or (moons_received_by_kingdom s) ''Cap'' 0)
     + duplicates (captures_received_count s) + duplicates (abilities_received s))"
proof -
  have "sum_list (map (\<lambda>p. max 0 (snd p - 1) * 100) d) = 100 * sum_list (map (\<lambda>p. max 0 (snd p - 1)) d)"
    for d :: "(string, int) dict" by (induction d) simp_all
  then show ?thesis by (simp add: compute_total_coin_grant_def duplicates_def Let_def foldl_add o_def)
qed

lemma duplicates_bump:
  assumes "dict_ok d" "list_all (\<lambda>v. 1 \<le> v) (map snd d)"
  shows "duplicates (dict_bump k 1 d) = duplicates d + (if k \<in> set (dict_keys d) then 1 else 0)"
proof (cases "dict_get d k")
  case None
  then have "k \<notin> set (dict_keys d)" by (simp add: dict_get_None_iff)
  with None sum_values_set [OF assms(1), of "\<lambda>c. max 0 (c - 1)" k] show ?thesis
    by (simp add: duplicates_def dict_bump_def dict_get_or_def)
next
  case (Some v)
  then have "1 \<le> v" using assms(2) by (auto simp: list_all_iff dest!: map_of_SomeD)
  moreover have "k \<in> set (dict_keys d)" using Some dict_get_None_iff [of d k] by auto
  ultimately show ?thesis using Some sum_values_set [OF assms(1), of "\<lambda>c. max 0 (c - 1)" k]
    by (simp add: duplicates_def dict_bump_def dict_get_or_def)
qed

lemma coin_grant_received_mono:
  assumes "receipts_inv s"
  shows "compute_total_coin_grant s \<le> compute_total_coin_grant (add_received_item e s)"
proof -
  let ?t = "add_received_item e s"
  have "0 \<le> sum_list (map moon_weight is)" for "is" by (induction "is") (simp_all add: moon_weight_def)
  then have "dict_get_or (moons_received_by_kingdom s) k 0 \<le> dict_get_or (moons_received_by_kingdom ?t) k 0" for k
    by (simp add: add_received_item_moons)
  moreover have "duplicates (captures_received_count s) \<le> duplicates (captures_received_count ?t)"
    using assms duplicates_bump [of "captures_received_count s"]
    by (simp add: add_received_item_def Let_def receipts_inv_def)
  moreover have "duplicates (abilities_received s) \<le> duplicates (abilities_received ?t)"
    using assms duplicates_bump [of "abilities_received s"]
    by (simp add: add_received_item_def Let_def receipts_inv_def)
  ultimately show ?thesis unfolding coin_grant_sum by (meson add_mono max.mono mult_left_mono order_refl zero_le_numeral)
qed

text \<open>Receipts in closed form: the names of the captures and abilities in the received list.\<close>

definition capture_names :: "item_ref list \<Rightarrow> string list" where
  "capture_names is = map (\<lambda>i. the (ref_cap i)) (filter (\<lambda>i. ref_kind i = ''capture'' \<and> truthy (ref_cap i)) is)"

definition ability_names :: "item_ref list \<Rightarrow> string list" where
  "ability_names is = map (\<lambda>i. the (ref_name i)) (filter (\<lambda>i. ref_kind i = ''ability'' \<and> truthy (ref_name i)) is)"

definition receive_all :: "item_event list \<Rightarrow> 'a bridge_state_scheme \<Rightarrow> 'a bridge_state_scheme" where
  "receive_all es s = fold add_received_item es s"

text \<open>What a count dictionary holds after a list of names was counted into it.\<close>

definition counts_of :: "string list \<Rightarrow> (string, int) dict \<Rightarrow> bool" where
  "counts_of ns d \<longleftrightarrow> dict_ok d \<and> set (dict_keys d) = set ns \<and>
     (\<forall>k. dict_get_or d k 0 = int (count_list ns k))"

lemma counts_of_Nil: "counts_of [] []"
  by (simp add: counts_of_def)

lemma counts_of_bump: "counts_of ns d \<Longrightarrow> counts_of (ns @ [n]) (dict_bump n 1 d)"
  unfolding counts_of_def by (simp add: dict_get_or_bump) (simp add: dict_bump_def)

lemma counts_of_duplicates:
  "counts_of ns d \<Longrightarrow> duplicates d = int (length ns) - int (card (set ns))"
proof -
  assume a: "counts_of ns d"
  then have ok: "dict_ok d" and keys: "set (dict_keys d) = set ns"
    and cnt: "\<And>k. dict_get_or d k 0 = int (count_list ns k)" by (simp_all add: counts_of_def)
  have "map snd d = map (\<lambda>k. int (count_list ns k)) (dict_keys d)"
  proof -
    have "v = int (count_list ns k)" if "(k, v) \<in> set d" for k v
      using map_of_is_SomeI [OF ok that] cnt [of k] by (simp add: dict_get_or_def)
    then show ?thesis by (induction d) auto
  qed
  then have "duplicates d = (\<Sum>k\<leftarrow>dict_keys d. int (count_list ns k) - 1)"
  proof -
    have "max 0 (int (count_list ns k) - 1) = int (count_list ns k) - 1" if "k \<in> set (dict_keys d)" for k
      using that keys count_list_0_iff [of ns k] by (simp add: max_def)
    then have "map (\<lambda>c. max 0 (c - 1)) (map (\<lambda>k. int (count_list ns k)) (dict_keys d)) =
        map (\<lambda>k. int (count_list ns k) - 1) (dict_keys d)" by simp
    then show ?thesis unfolding duplicates_def \<open>map snd d = _\<close> by (rule arg_cong)
  qed
  also have "\<dots> = (\<Sum>k\<in>set ns. int (count_list ns k) - 1)"
    using sum_list_distinct_conv_sum_set [OF ok, of "\<lambda>k. int (count_list ns k) - 1"] keys by simp
  also have "\<dots> = int (\<Sum>k\<in>set ns. count_list ns k) - int (card (set ns))"
    by (simp add: sum_subtractf)
  also have "(\<Sum>k\<in>set ns. count_list ns k) = length ns"
    by (rule sum_count_set) simp_all
  finally show ?thesis .
qed

lemma receive_all_counts:
  "counts_of (capture_names (map ev_item es)) (captures_received_count (receive_all es init_bridge_state)) \<and>
   counts_of (ability_names (map ev_item es)) (abilities_received (receive_all es init_bridge_state)) \<and>
   received_items (receive_all es init_bridge_state) = es"
proof (induction es rule: rev_induct)
  case Nil
  show ?case by (simp add: receive_all_def init_bridge_state_def capture_names_def ability_names_def counts_of_Nil)
next
  case (snoc e es)
  then show ?case
    by (simp add: receive_all_def add_received_item_def Let_def capture_names_def ability_names_def counts_of_bump)
qed

lemma receive_all_reach: "state_reach s (receive_all es s)"
  by (induction es rule: rev_induct)
    (auto simp: receive_all_def intro: reach_refl reach_step step_received)

section \<open>Replays of checks\<close>

definition add_all_checks :: "check_event list \<Rightarrow> 'a bridge_state_scheme \<Rightarrow> 'a bridge_state_scheme" where
  "add_all_checks es s = fold (\<lambda>e s. fst (add_checked_location e s)) es s"

lemma add_checked_keys: "checked_keys (fst (add_checked_location e s)) = insert (check_key (ce_item e)) (checked_keys s)"
  by (auto simp: add_checked_location_def Let_def)

lemma add_checked_known: "check_key (ce_item e) \<in> checked_keys s \<Longrightarrow> add_checked_location e s = (s, False)"
  by (simp add: add_checked_location_def Let_def)

lemma add_all_checks_keys:
  "checked_keys (add_all_checks es s) = checked_keys s \<union> (check_key \<circ> ce_item) ` set es"
  by (induction es arbitrary: s) (auto simp: add_all_checks_def add_checked_keys)

lemma add_all_checks_known:
  "(check_key \<circ> ce_item) ` set es \<subseteq> checked_keys s \<Longrightarrow> add_all_checks es s = s"
  by (induction es) (auto simp: add_all_checks_def add_checked_known)

section \<open>Snapshots\<close>

datatype snapshot_chunk = StageChunk string "json list" | MetaChunk "json list option" "bool option"

fun add_chunk :: "snapshot_chunk \<Rightarrow> 'a bridge_state_scheme \<Rightarrow> 'a bridge_state_scheme" where
  "add_chunk (StageChunk st js) s = add_snapshot_chunk_shines st js s"
| "add_chunk (MetaChunk cs g) s = add_snapshot_chunk_meta cs g s"

fun chunk_entries :: "snapshot_chunk \<Rightarrow> snapshot_entry list" where
  "chunk_entries (StageChunk st js) = shine_snapshot_entries st js"
| "chunk_entries (MetaChunk cs g) = capture_snapshot_entries (or_default cs [])"

fun chunk_goal :: "bool \<Rightarrow> snapshot_chunk \<Rightarrow> bool" where
  "chunk_goal g (MetaChunk cs (Some b)) = b"
| "chunk_goal g _ = g"

lemma add_chunk_inactive: "\<not> pending_snapshot_active s \<Longrightarrow> add_chunk c s = s"
  by (cases c) (simp_all add: add_snapshot_chunk_shines_def add_snapshot_chunk_meta_def)

lemma add_chunk_active:
  assumes "pending_snapshot_active s"
  shows "pending_snapshot_active (add_chunk c s)"
    "pending_snapshot_entries (add_chunk c s) = pending_snapshot_entries s @ chunk_entries c"
    "pending_snapshot_goal (add_chunk c s) = chunk_goal (pending_snapshot_goal s) c"
    "pending_snapshot_save_slot (add_chunk c s) = pending_snapshot_save_slot s"
  using assms
  by (cases c; simp add: add_snapshot_chunk_shines_def add_snapshot_chunk_meta_def Let_def split: option.split)+

lemma add_chunks:
  assumes "pending_snapshot_active s"
  shows "pending_snapshot_entries (fold add_chunk cs s) = pending_snapshot_entries s @ concat (map chunk_entries cs)"
    "pending_snapshot_goal (fold add_chunk cs s) = foldl chunk_goal (pending_snapshot_goal s) cs"
    "pending_snapshot_save_slot (fold add_chunk cs s) = pending_snapshot_save_slot s"
  using assms by (induction cs arbitrary: s) (simp_all add: add_chunk_active)

section \<open>The connections list\<close>

lemma get_switches_mset:
  "mset (get_switches s) = mset (map (\<lambda>(k, v). (v, Some k = active_device_id s)) (switches s))"
  by (simp add: get_switches_def Let_def)

lemma get_switches_sorted: "sorted (map (\<lambda>(e, a). ip_sort_key (sw_peer_ip e)) (get_switches s))"
  unfolding get_switches_def Let_def by (rule sorted_sort_key)

lemma map_fst_sort_key:
  "map fst (sort_key (\<lambda>(e, a). f e) (map (\<lambda>x. (g x, h x)) xs)) = sort_key f (map g xs)"
proof -
  have ins: "map fst (insort_key (\<lambda>(e, a). f e) p ys) = insort_key f (fst p) (map fst ys)" for p and ys :: "('a \<times> 'b) list"
    by (induction ys) (auto split: prod.splits)
  show ?thesis
  proof (induction xs)
    case (Cons x xs)
    then show ?case using ins [of "(g x, h x)"] by (simp add: sort_key_def)
  qed (simp add: sort_key_def)
qed

lemma get_switches_order: "map fst (get_switches s) = sort_key (\<lambda>e. ip_sort_key (sw_peer_ip e)) (map snd (switches s))"
  using map_fst_sort_key [of "\<lambda>e. ip_sort_key (sw_peer_ip e)" snd "\<lambda>p. Some (fst p) = active_device_id s" "switches s"]
  by (simp add: get_switches_def Let_def case_prod_unfold)

section \<open>Properties\<close>

text \<open>C7 Every sequence of BridgeState's mutating calls keeps the mirror consistent: checked locations
  are recorded once per identity and counted per kingdom, the per-kingdom moon credit is the weighted
  sum of the received moons, every unlocked capture has a count of at least one, the active device is a
  registered one whose entry carries its own id, the log stays within 200 lines and no PayShineNum is
  negative.\<close>

theorem bridge_state_invariant:
  assumes "state_reach init_bridge_state s"
  shows "state_inv s"
  using assms state_inv_init by (rule state_inv_reach)

theorem bridge_state_invariant_witness:
  "state_inv (unregister_switch ''a'' (set_active_switch (Some ''a'') (register_switch 0 ''a'' ''1.2.3.4'' [] [] init_bridge_state)))"
  by (rule bridge_state_invariant) (intro reach_step [OF _ step_unregister] reach_step [OF _ step_activate]
    reach_step [OF _ step_register] reach_refl)

text \<open>C36 The outstanding balance: once a PaySnapshot has arrived, \<open>compute_outstanding\<close> has a row for
  exactly the kingdoms with a receipt or a pay reading, and the row is the credit of all moons received
  for the kingdom (3 for a Multi-Moon) less its PayShineNum, never below zero.\<close>

theorem outstanding_balance:
  assumes "state_reach init_bridge_state s" "pay_shine_num_by_kingdom s = Some pays"
  shows "\<exists>out. compute_outstanding s = Some out \<and>
    (\<forall>k. dict_get out k =
      (if k \<in> set (dict_keys (moons_received_by_kingdom s)) \<union> set (dict_keys pays)
       then Some (max 0 (sum_list (map moon_weight (moons_of k (received_refs s))) - dict_get_or pays k 0))
       else None))"
proof -
  have "state_inv s" using assms(1) state_inv_init by (rule state_inv_reach)
  then have inv: "receipts_inv s" "bounds_inv s" by (simp_all add: state_inv_def)
  then have "\<And>k v. dict_get pays k = Some v \<Longrightarrow> 0 \<le> v"
    using assms(2) by (simp add: bounds_inv_def pay_ok_def)
  moreover have "dict_ok (moons_received_by_kingdom s)" using inv by (simp add: receipts_inv_def)
  ultimately show ?thesis
    using inv(1) assms(2) outstanding_of_get [of "moons_received_by_kingdom s" pays]
    by (simp add: compute_outstanding_def receipts_inv_def)
qed

definition sample_moon :: item_event where
  "sample_moon = \<lparr>ev_item = \<lparr>ref_kind = ''moon'', ref_kingdom = Some ''Sand'', ref_shine_id = Some ''Multi-Moon'',
     ref_cap = None, ref_name = None, ref_stage_name = None, ref_object_id = None, ref_shine_uid = None,
     ref_hack_name = None, ref_classification = None\<rparr>, ev_sender = ''self'', ev_cappy_from = []\<rparr>"

theorem outstanding_balance_witness:
  "\<exists>out. compute_outstanding (apply_pay_snapshot [(''Sand'', 1)] (add_received_item sample_moon init_bridge_state)) = Some out \<and>
     dict_get out ''Sand'' = Some 2"
proof -
  let ?s = "apply_pay_snapshot [(''Sand'', 1)] (add_received_item sample_moon init_bridge_state)"
  have "state_reach init_bridge_state ?s"
    by (intro reach_step [OF _ step_pay] reach_step [OF _ step_received] reach_refl)
  from outstanding_balance [OF this, of "[(''Sand'', 1)]"] show ?thesis
    by (auto simp: apply_pay_snapshot_def add_received_item_def sample_moon_def init_bridge_state_def
        moon_weight_def dict_get_or_def dict_bump_def moons_of_def)
qed

text \<open>The coin total after any sequence of receipts: 100 coins per moon credit of the Cap Kingdom and
  100 for every copy of a capture or an ability beyond the first of its name.\<close>

theorem coin_grant_of_receipts:
  "compute_total_coin_grant (receive_all es init_bridge_state) =
    (let refs = map ev_item es
     in 100 * (sum_list (map moon_weight (moons_of ''Cap'' refs))
        + (int (length (capture_names refs)) - int (card (set (capture_names refs))))
        + (int (length (ability_names refs)) - int (card (set (ability_names refs))))))"
proof -
  let ?s = "receive_all es init_bridge_state"
  have "state_inv ?s" by (rule state_inv_reach [OF receive_all_reach state_inv_init])
  then have "dict_get_or (moons_received_by_kingdom ?s) ''Cap'' 0 = sum_list (map moon_weight (moons_of ''Cap'' (map ev_item es)))"
    using receive_all_counts [of es] by (simp add: state_inv_def receipts_inv_def)
  moreover have "0 \<le> sum_list (map moon_weight is)" for "is"
    by (induction "is") (simp_all add: moon_weight_def)
  moreover have "duplicates (captures_received_count ?s) =
      int (length (capture_names (map ev_item es))) - int (card (set (capture_names (map ev_item es))))"
    "duplicates (abilities_received ?s) =
      int (length (ability_names (map ev_item es))) - int (card (set (ability_names (map ev_item es))))"
    using receive_all_counts [of es] by (blast intro: counts_of_duplicates)+
  ultimately show ?thesis by (simp add: coin_grant_sum Let_def)
qed

text \<open>The coin total never falls when an item arrives, in any reachable state: the Switch can apply
  it as a high-water mark.\<close>

theorem coin_grant_monotone:
  assumes "state_reach init_bridge_state s"
  shows "compute_total_coin_grant s \<le> compute_total_coin_grant (add_received_item e s)"
  using state_inv_reach [OF assms state_inv_init] by (intro coin_grant_received_mono) (simp add: state_inv_def)

theorem coin_grant_monotone_witness:
  "compute_total_coin_grant (init_bridge_state :: bridge_state) \<le>
     compute_total_coin_grant (add_received_item sample_moon init_bridge_state)"
  by (rule coin_grant_monotone) (rule reach_refl)

text \<open>A slot change leaves the duplicate counters behind: after \<open>clear_received\<close> the coin total
  still pays 100 coins for every duplicate capture or ability of the previous slot, although the mirror
  of received items is empty.\<close>

theorem clear_received_keeps_duplicates:
  "received_items (clear_received s) = [] \<and>
   compute_total_coin_grant (clear_received s) =
     100 * (duplicates (captures_received_count s) + duplicates (abilities_received s))"
  unfolding coin_grant_sum by (simp add: clear_received_def)

text \<open>Checks are idempotent: \<open>add_checked_location\<close> answers True exactly for an identity not seen
  before, and replaying a list of checks (a snapshot after a reconnect) changes nothing.\<close>

theorem check_replay_idempotent:
  "add_all_checks es (add_all_checks es s) = add_all_checks es s \<and>
   snd (add_checked_location e s) = (check_key (ce_item e) \<notin> checked_keys s)"
  using add_all_checks_known [of es "add_all_checks es s"] add_all_checks_keys [of es s]
  by (simp add: add_checked_location_def Let_def)

text \<open>The snapshot accumulator: between \<open>begin_snapshot\<close> and \<open>end_snapshot\<close> every well-formed entry
  of every chunk is kept, in order; the slot is recorded, the buffer is emptied, and a chunk outside a
  snapshot is ignored. The goal flag starts from what an abandoned snapshot left behind.\<close>

theorem snapshot_collects_chunks:
  "(let t = fold add_chunk cs (begin_snapshot slot s); (u, entries, goal) = end_snapshot t
    in entries = concat (map chunk_entries cs) \<and> goal = foldl chunk_goal (pending_snapshot_goal s) cs \<and>
       last_snapshot_save_slot u = slot \<and> pending_snapshot_entries u = [] \<and> add_chunk c u = u)"
proof -
  let ?t = "fold add_chunk cs (begin_snapshot slot s)"
  have "pending_snapshot_active (begin_snapshot slot s)" by (simp add: begin_snapshot_def)
  from add_chunks [OF this, of cs] have
    "pending_snapshot_entries ?t = concat (map chunk_entries cs)"
    "pending_snapshot_goal ?t = foldl chunk_goal (pending_snapshot_goal s) cs"
    "pending_snapshot_save_slot ?t = slot"
    by (simp_all add: begin_snapshot_def)
  moreover have "\<not> pending_snapshot_active (fst (end_snapshot ?t))" by (simp add: end_snapshot_def)
  ultimately show ?thesis using add_chunk_inactive [of "fst (end_snapshot ?t)" c]
    by (simp add: end_snapshot_def Let_def)
qed

text \<open>A goal flag leaks out of an abandoned snapshot: opening a new snapshot discards the entries but
  not the flag, so the next snapshot reports the goal although none of its chunks did.\<close>

theorem abandoned_snapshot_goal_leaks:
  "snd (end_snapshot (begin_snapshot new (add_snapshot_chunk_meta cs (Some True) (begin_snapshot old s)))) = ([], True)"
  by (simp add: end_snapshot_def begin_snapshot_def add_snapshot_chunk_meta_def Let_def)

text \<open>The connections list shows every registered Switch once, sorted by numeric address, flags
  exactly the active one, and changing the active device moves no row.\<close>

theorem connections_list:
  "mset (get_switches s) = mset (map (\<lambda>(k, v). (v, Some k = active_device_id s)) (switches s)) \<and>
   sorted (map (\<lambda>(e, a). ip_sort_key (sw_peer_ip e)) (get_switches s)) \<and>
   map fst (get_switches (set_active_switch d s)) = map fst (get_switches s)"
proof -
  have "switches (set_active_switch d s) = switches s"
    by (simp add: set_active_switch_def split: option.split)
  then show ?thesis by (simp add: get_switches_mset get_switches_sorted get_switches_order)
qed

end
