(* ===== verification/Maps.thy ===== *)
theory Maps
  imports Bridge_State
begin

text \<open>
  \<open>client/maps.py\<close>: the tables that turn raw SMO identifiers into the names AP uses
  (\<open>ShineMap\<close>, \<open>CaptureMap\<close>), their loading and atomic reloading, and
  \<open>entrance_logic.compile_stage_remaps\<close>, which resolves a door shuffle into the rows the Switch
  applies. A file is an argument: the decoded JSON, or the exception reading or decoding it raises.
  The extracted tables hold strings where a name is expected; a name of another JSON type is skipped
  here like an absent one.
\<close>

definition json_str :: "json \<Rightarrow> string option" where
  "json_str j = (case j of JStr s \<Rightarrow> Some s | _ \<Rightarrow> None)"

text \<open>\<open>isinstance(uid, int)\<close>; a Python bool is an int.\<close>

definition json_int :: "json \<Rightarrow> int option" where
  "json_int j = (case j of JInt i \<Rightarrow> Some i | JBool b \<Rightarrow> Some (if b then 1 else 0) | _ \<Rightarrow> None)"

definition get_str :: "(string \<times> json) list \<Rightarrow> string \<Rightarrow> string option" where
  "get_str d k = json_str (json_get d k)"

definition get_int :: "(string \<times> json) list \<Rightarrow> string \<Rightarrow> int option" where
  "get_int d k = json_int (json_get d k)"

section \<open>Shines\<close>

record shine_map =
  by_pair :: "(string \<times> string, string \<times> string) dict"
  by_uid :: "(int, string \<times> string) dict"
  uid_by_location :: "(string \<times> string, int) dict"

definition empty_shine_map :: shine_map where
  "empty_shine_map = \<lparr>by_pair = [], by_uid = [], uid_by_location = []\<rparr>"

definition load_shine_entry :: "json \<Rightarrow> shine_map action" where
  "load_shine_entry e m =
     (case e of
        JObj d \<Rightarrow>
          (let stage = get_str d ''stage_name''; obj = get_str d ''object_id'';
               kingdom = get_str d ''kingdom''; shine = get_str d ''shine_id''
           in if \<not> (truthy stage \<and> truthy obj \<and> truthy kingdom \<and> truthy shine) then (m, None)
              else (let res = (the kingdom, the shine);
                        m = m\<lparr>by_pair := dict_set (the stage, the obj) res (by_pair m)\<rparr>
                    in (case get_int d ''shine_uid'' of
                          Some uid \<Rightarrow> m\<lparr>by_uid := dict_set uid res (by_uid m),
                                        uid_by_location := dict_set res uid (uid_by_location m)\<rparr>
                        | None \<Rightarrow> m, None)))
      | _ \<Rightarrow> (m, Some AttributeError))"

definition load_shine_text :: "exn + json \<Rightarrow> shine_map action" where
  "load_shine_text text m =
     (case text of
        Inl e \<Rightarrow> (m, Some e)
      | Inr (JList es) \<Rightarrow> for_each es load_shine_entry m
      | Inr _ \<Rightarrow> (m, Some ValueError))"

definition reload_shine_map :: "exn + json \<Rightarrow> shine_map \<Rightarrow> shine_map \<times> (exn + nat)" where
  "reload_shine_map text m =
     (case load_shine_text text empty_shine_map of
        (staging, None) \<Rightarrow> (staging, Inr (length (by_pair staging)))
      | (staging, Some e) \<Rightarrow> (m, Inl e))"

definition resolve_shine :: "shine_map \<Rightarrow> string option \<Rightarrow> string option \<Rightarrow> int option \<Rightarrow> (string \<times> string) option" where
  "resolve_shine m stage_name object_id shine_uid =
     (case (if truthy stage_name \<and> truthy object_id
            then dict_get (by_pair m) (the stage_name, the object_id) else None) of
        Some res \<Rightarrow> Some res
      | None \<Rightarrow> (case shine_uid of
                   Some uid \<Rightarrow> if 0 \<le> uid then dict_get (by_uid m) uid else None
                 | None \<Rightarrow> None))"

definition resolve_uid_by_location :: "shine_map \<Rightarrow> string option \<Rightarrow> string option \<Rightarrow> int option" where
  "resolve_uid_by_location m kingdom shine_id =
     (if \<not> (truthy kingdom \<and> truthy shine_id) then None
      else dict_get (uid_by_location m) (the kingdom, the shine_id))"

section \<open>Captures\<close>

definition variant_cap_hack_override :: "(string, string) dict" where
  "variant_cap_hack_override =
     [(''Puzzle Part (Lake Kingdom)'', ''GotogotonLake''),
      (''Puzzle Part (Metro Kingdom)'', ''GotogotonCity''),
      (''Picture Match Part (Goomba)'', ''FukuwaraiFacePartsKuribo''),
      (''Picture Match Part (Mario)'', ''FukuwaraiFacePartsMario'')]"

record capture_map =
  cap_table :: "(string, string) dict"
  cap_reverse :: "(string, string) dict"

definition empty_capture_map :: capture_map where
  "empty_capture_map = \<lparr>cap_table = [], cap_reverse = []\<rparr>"

definition load_capture_entry :: "json \<Rightarrow> capture_map action" where
  "load_capture_entry e m =
     (case e of
        JObj d \<Rightarrow>
          (let hack = get_str d ''hack_name''; cap = get_str d ''cap''
           in if truthy hack \<and> truthy cap
              then (m\<lparr>cap_table := dict_set (the hack) (the cap) (cap_table m),
                      cap_reverse := dict_setdefault (the cap) (the hack) (cap_reverse m)\<rparr>, None)
              else (m, None))
      | _ \<Rightarrow> (m, Some AttributeError))"

definition load_capture_text :: "exn + json \<Rightarrow> capture_map action" where
  "load_capture_text text m =
     (case text of
        Inl e \<Rightarrow> (m, Some e)
      | Inr (JList es) \<Rightarrow> for_each es load_capture_entry m
      | Inr _ \<Rightarrow> (m, Some ValueError))"

definition reload_capture_map :: "exn + json \<Rightarrow> capture_map \<Rightarrow> capture_map \<times> (exn + nat)" where
  "reload_capture_map text m =
     (case load_capture_text text empty_capture_map of
        (staging, None) \<Rightarrow> (staging, Inr (length (cap_table staging)))
      | (staging, Some e) \<Rightarrow> (m, Inl e))"

definition resolve_capture :: "capture_map \<Rightarrow> string option \<Rightarrow> string option" where
  "resolve_capture m hack_name =
     (if \<not> truthy hack_name then None
      else Some (dict_get_or (cap_table m) (the hack_name) (the hack_name)))"

definition cap_to_hack :: "capture_map \<Rightarrow> string option \<Rightarrow> string option" where
  "cap_to_hack m cap =
     (if \<not> truthy cap then None
      else (case dict_get variant_cap_hack_override (the cap) of
              Some h \<Rightarrow> Some h
            | None \<Rightarrow> Some (dict_get_or (cap_reverse m) (the cap) (the cap))))"

definition iter_all_captures :: "capture_map \<Rightarrow> (string \<times> string) list" where
  "iter_all_captures m = sort (cap_reverse m)"

section \<open>Entrance shuffle rows\<close>

record stage_rec =
  sr_stage :: "string option"
  sr_entry_id :: "string option"
  sr_exit_dest :: "string option"
  sr_exit_id :: "string option"

record remap_row =
  row_kind :: string
  row_from :: string
  row_to_stage :: string
  row_to_id :: string

text \<open>The two rows of one shuffled door; the arguments are the records of the door and of the
  interior it leads to.\<close>

definition pair_rows :: "stage_rec \<Rightarrow> stage_rec \<Rightarrow> remap_row list" where
  "pair_rows door_rec int_rec =
     (if truthy (sr_stage door_rec) \<and> truthy (sr_stage int_rec) \<and> truthy (sr_entry_id int_rec)
      then [\<lparr>row_kind = ''entry'', row_from = the (sr_stage door_rec),
              row_to_stage = the (sr_stage int_rec), row_to_id = the (sr_entry_id int_rec)\<rparr>]
      else []) @
     (if truthy (sr_stage int_rec) \<and> truthy (sr_exit_dest door_rec) \<and> truthy (sr_exit_id door_rec)
      then [\<lparr>row_kind = ''exit'', row_from = the (sr_stage int_rec),
              row_to_stage = the (sr_exit_dest door_rec), row_to_id = the (sr_exit_id door_rec)\<rparr>]
      else [])"

definition door_rows :: "(string, stage_rec) dict \<Rightarrow> string \<times> string \<Rightarrow> remap_row list" where
  "door_rows stages p =
     (if fst p = snd p then []
      else (case (dict_get stages (fst p), dict_get stages (snd p)) of
              (Some d, Some i) \<Rightarrow> pair_rows d i
            | _ \<Rightarrow> []))"

definition compile_stage_remaps :: "(string, string) dict \<Rightarrow> (string, stage_rec) dict \<Rightarrow> remap_row list" where
  "compile_stage_remaps doors entrance_stages = concat (map (door_rows entrance_stages) doors)"

definition row_json :: "remap_row \<Rightarrow> json" where
  "row_json r = JObj [(''kind'', JStr (row_kind r)), (''from'', JStr (row_from r)),
     (''to_stage'', JStr (row_to_stage r)), (''to_id'', JStr (row_to_id r))]"

section \<open>Lemmas\<close>

text \<open>The capture tables after loading entries with distinct hack names.\<close>

definition capture_entry :: "string \<times> string \<Rightarrow> json" where
  "capture_entry p = JObj [(''hack_name'', JStr (fst p)), (''cap'', JStr (snd p))]"

lemma load_capture_entry_pair:
  "fst p \<noteq> [] \<Longrightarrow> snd p \<noteq> [] \<Longrightarrow>
   load_capture_entry (capture_entry p) m =
     (m\<lparr>cap_table := dict_set (fst p) (snd p) (cap_table m),
        cap_reverse := dict_setdefault (snd p) (fst p) (cap_reverse m)\<rparr>, None)"
  by (simp add: load_capture_entry_def capture_entry_def get_str_def json_get_def json_str_def dict_get_or_def)

definition reverse_sound :: "capture_map \<Rightarrow> bool" where
  "reverse_sound m \<longleftrightarrow> (\<forall>c h. dict_get (cap_reverse m) c = Some h \<longrightarrow> h \<noteq> [] \<and> dict_get (cap_table m) h = Some c)"

lemma reverse_sound_set:
  assumes "reverse_sound m" "dict_get (cap_table m) h = None" "h \<noteq> []"
  shows "reverse_sound (m\<lparr>cap_table := dict_set h c (cap_table m),
    cap_reverse := dict_setdefault c h (cap_reverse m)\<rparr>)"
  using assms by (auto simp: reverse_sound_def dict_get_setdefault split: if_splits)

lemma load_captures:
  assumes "distinct (map fst ps)" "\<And>p. p \<in> set ps \<Longrightarrow> fst p \<noteq> [] \<and> snd p \<noteq> []"
    "reverse_sound m" "\<And>p. p \<in> set ps \<Longrightarrow> dict_get (cap_table m) (fst p) = None"
  shows "\<exists>m'. for_each (map capture_entry ps) load_capture_entry m = (m', None) \<and> reverse_sound m' \<and>
    (\<forall>c. dict_get (cap_reverse m') c \<noteq> None \<longleftrightarrow> dict_get (cap_reverse m) c \<noteq> None \<or> c \<in> snd ` set ps)"
  using assms
proof (induction ps arbitrary: m)
  case (Cons p ps)
  let ?m = "m\<lparr>cap_table := dict_set (fst p) (snd p) (cap_table m),
    cap_reverse := dict_setdefault (snd p) (fst p) (cap_reverse m)\<rparr>"
  have "reverse_sound ?m" using Cons.prems(2,3,4) by (intro reverse_sound_set) auto
  moreover have "dict_get (cap_table ?m) (fst q) = None" if "q \<in> set ps" for q
    using Cons.prems(1,4) that by (auto simp: rev_image_eqI)
  ultimately obtain m' where m': "for_each (map capture_entry ps) load_capture_entry ?m = (m', None)"
    "reverse_sound m'"
    "\<forall>c. dict_get (cap_reverse m') c \<noteq> None \<longleftrightarrow> dict_get (cap_reverse ?m) c \<noteq> None \<or> c \<in> snd ` set ps"
    using Cons.IH [of ?m] Cons.prems(1,2) by auto
  have "load_capture_entry (capture_entry p) m = (?m, None)"
    using Cons.prems(2) [of p] by (intro load_capture_entry_pair) simp_all
  with m' show ?case by (intro exI [of _ m']) (auto simp: dict_get_setdefault)
qed simp

lemma cap_to_hack_resolve:
  assumes "reverse_sound m" "dict_get (cap_reverse m) c \<noteq> None" "c \<noteq> []"
    "dict_get variant_cap_hack_override c = None"
  shows "resolve_capture m (cap_to_hack m (Some c)) = Some c"
proof -
  from assms(2) obtain h where h: "dict_get (cap_reverse m) c = Some h" by auto
  with assms(1) have "h \<noteq> [] \<and> dict_get (cap_table m) h = Some c" by (simp add: reverse_sound_def)
  with assms h show ?thesis by (simp add: resolve_capture_def cap_to_hack_def dict_get_or_def)
qed

lemma door_rowsE:
  assumes "r \<in> set (door_rows st (d, i))"
  obtains dr ir where "d \<noteq> i" "dict_get st d = Some dr" "dict_get st i = Some ir" "r \<in> set (pair_rows dr ir)"
  using assms by (cases "dict_get st d"; cases "dict_get st i") (auto simp: door_rows_def split: if_splits)

lemma compile_rowsE:
  assumes "r \<in> set (compile_stage_remaps b st)"
  obtains d i dr ir where "(d, i) \<in> set b" "dict_get st d = Some dr" "dict_get st i = Some ir"
    "r \<in> set (pair_rows dr ir)"
proof -
  from assms obtain d i where di: "(d, i) \<in> set b" "r \<in> set (door_rows st (d, i))"
    by (auto simp: compile_stage_remaps_def)
  from di(2) show thesis by (rule door_rowsE) (rule that [OF di(1)])
qed

lemma find_unique:
  "x \<in> set xs \<Longrightarrow> P x \<Longrightarrow> (\<And>y. y \<in> set xs \<Longrightarrow> P y \<Longrightarrow> y = x) \<Longrightarrow> find P xs = Some x"
  by (induction xs) (simp, metis find.simps(2) list.set_intros set_ConsD)

definition complete_rec :: "stage_rec \<Rightarrow> bool" where
  "complete_rec r \<longleftrightarrow> truthy (sr_stage r) \<and> truthy (sr_entry_id r) \<and> truthy (sr_exit_dest r) \<and> truthy (sr_exit_id r)"

lemma pair_rows_complete:
  "complete_rec d \<Longrightarrow> complete_rec i \<Longrightarrow> pair_rows d i =
     [\<lparr>row_kind = ''entry'', row_from = the (sr_stage d), row_to_stage = the (sr_stage i), row_to_id = the (sr_entry_id i)\<rparr>,
      \<lparr>row_kind = ''exit'', row_from = the (sr_stage i), row_to_stage = the (sr_exit_dest d), row_to_id = the (sr_exit_id d)\<rparr>]"
  by (simp add: pair_rows_def complete_rec_def)

text \<open>Stage names tell subareas apart and every record is complete.\<close>

definition stages_ok :: "(string, stage_rec) dict \<Rightarrow> bool" where
  "stages_ok st \<longleftrightarrow> (\<forall>a b x y. dict_get st a = Some x \<longrightarrow> dict_get st b = Some y \<longrightarrow>
     complete_rec x \<and> (sr_stage x = sr_stage y \<longrightarrow> a = b))"

lemma stages_okD:
  "stages_ok st \<Longrightarrow> dict_get st a = Some x \<Longrightarrow> complete_rec x"
  "stages_ok st \<Longrightarrow> dict_get st a = Some x \<Longrightarrow> dict_get st b = Some y \<Longrightarrow>
     the (sr_stage x) = the (sr_stage y) \<Longrightarrow> a = b"
  unfolding stages_ok_def complete_rec_def by (blast, metis option.expand truthy_simps(1))

definition row_for :: "string \<Rightarrow> string \<Rightarrow> remap_row list \<Rightarrow> remap_row option" where
  "row_for kind stage rows = find (\<lambda>r. row_kind r = kind \<and> row_from r = stage) rows"

section \<open>Properties\<close>

text \<open>Capture names survive the trip to the Switch and back: after loading a table with distinct hack
  names, the hack name sent for a capture of the table resolves to that capture again, except for the
  four variants pinned by the override.\<close>

theorem capture_names_roundtrip:
  assumes "distinct (map fst ps)" "list_all (\<lambda>p. fst p \<noteq> [] \<and> snd p \<noteq> []) ps" "c \<in> set (map snd ps)"
    "dict_get variant_cap_hack_override c = None"
  shows "\<exists>m. load_capture_text (Inr (JList (map capture_entry ps))) empty_capture_map = (m, None) \<and>
    resolve_capture m (cap_to_hack m (Some c)) = Some c"
proof -
  have "reverse_sound empty_capture_map" by (simp add: reverse_sound_def empty_capture_map_def)
  then obtain m where m: "for_each (map capture_entry ps) load_capture_entry empty_capture_map = (m, None)"
    "reverse_sound m" and all: "\<forall>c. dict_get (cap_reverse m) c \<noteq> None \<longleftrightarrow>
      dict_get (cap_reverse empty_capture_map) c \<noteq> None \<or> c \<in> snd ` set ps"
    using load_captures [OF assms(1), of empty_capture_map] assms(2)
    by (auto simp: list_all_iff empty_capture_map_def)
  have "dict_get (cap_reverse m) c \<noteq> None" using all assms(3) by simp
  moreover have "c \<noteq> []" using assms(2,3) by (auto simp: list_all_iff)
  ultimately have "resolve_capture m (cap_to_hack m (Some c)) = Some c"
    using m(2) assms(4) by (intro cap_to_hack_resolve)
  with m(1) show ?thesis by (simp add: load_capture_text_def)
qed

theorem capture_names_roundtrip_witness:
  "\<exists>m. load_capture_text (Inr (JList (map capture_entry [(''Kuribo'', ''Goomba''), (''KuriboWing'', ''Goomba'')]))) empty_capture_map = (m, None) \<and>
     resolve_capture m (cap_to_hack m (Some ''Goomba'')) = Some ''Goomba''"
  by (rule capture_names_roundtrip) (simp_all add: variant_cap_hack_override_def)

text \<open>Shuffled doors lead there and back: for a one-to-one door assignment over a table whose stage
  names tell subareas apart, the entry row the Switch finds for a door leads to the interior's stage and
  arrival point, and the exit row it finds for that interior leads to the exterior of that same door.\<close>

theorem entrances_lead_there_and_back:
  assumes "distinct (map fst b)" "distinct (map snd b)" "stages_ok st"
    "(d, i) \<in> set b" "d \<noteq> i" "dict_get st d = Some dr" "dict_get st i = Some ir"
  shows "row_for ''entry'' (the (sr_stage dr)) (compile_stage_remaps b st) =
      Some \<lparr>row_kind = ''entry'', row_from = the (sr_stage dr), row_to_stage = the (sr_stage ir), row_to_id = the (sr_entry_id ir)\<rparr> \<and>
    row_for ''exit'' (the (sr_stage ir)) (compile_stage_remaps b st) =
      Some \<lparr>row_kind = ''exit'', row_from = the (sr_stage ir), row_to_stage = the (sr_exit_dest dr), row_to_id = the (sr_exit_id dr)\<rparr>"
proof -
  note stage_eq = stages_okD(2) [OF assms(3)] and complete = stages_okD(1) [OF assms(3)]
  have rows: "r \<in> set (pair_rows dr ir) \<Longrightarrow> r \<in> set (compile_stage_remaps b st)" for r
    using assms(4-7) by (auto simp: compile_stage_remaps_def door_rows_def intro!: bexI [of _ "(d, i)"])
  have inj: "x = i" if "(d, x) \<in> set b" for x
    using map_of_is_SomeI [OF assms(1,4)] map_of_is_SomeI [OF assms(1) that] by simp
  have inj': "x = d" if "(x, i) \<in> set b" for x
  proof -
    have "inj_on snd (set b)" using assms(2) by (simp add: distinct_map)
    from inj_onD [OF this _ that assms(4)] show ?thesis by simp
  qed
  have entry: "r = \<lparr>row_kind = ''entry'', row_from = the (sr_stage dr), row_to_stage = the (sr_stage ir), row_to_id = the (sr_entry_id ir)\<rparr>"
    if r: "r \<in> set (compile_stage_remaps b st)" "row_kind r = ''entry''" "row_from r = the (sr_stage dr)" for r
  proof -
    from r(1) obtain d' i' dr' ir' where *: "(d', i') \<in> set b" "dict_get st d' = Some dr'"
      "dict_get st i' = Some ir'" "r \<in> set (pair_rows dr' ir')" by (rule compile_rowsE)
    then have "the (sr_stage dr') = the (sr_stage dr)"
      using r(2,3) complete by (auto simp: pair_rows_complete)
    then have "d' = d" using stage_eq *(2) assms(6) by blast
    with inj *(1) have "i' = i" by simp
    with \<open>d' = d\<close> * assms(6,7) r(2) complete show ?thesis by (auto simp: pair_rows_complete)
  qed
  have exit: "r = \<lparr>row_kind = ''exit'', row_from = the (sr_stage ir), row_to_stage = the (sr_exit_dest dr), row_to_id = the (sr_exit_id dr)\<rparr>"
    if r: "r \<in> set (compile_stage_remaps b st)" "row_kind r = ''exit''" "row_from r = the (sr_stage ir)" for r
  proof -
    from r(1) obtain d' i' dr' ir' where *: "(d', i') \<in> set b" "dict_get st d' = Some dr'"
      "dict_get st i' = Some ir'" "r \<in> set (pair_rows dr' ir')" by (rule compile_rowsE)
    then have "the (sr_stage ir') = the (sr_stage ir)"
      using r(2,3) complete by (auto simp: pair_rows_complete)
    then have "i' = i" using stage_eq *(3) assms(7) by blast
    with inj' *(1) have "d' = d" by simp
    with \<open>i' = i\<close> * assms(6,7) r(2) complete show ?thesis by (auto simp: pair_rows_complete)
  qed
  show ?thesis unfolding row_for_def
  proof (intro conjI find_unique, goal_cases)
    case 1 show ?case by (rule rows) (simp add: pair_rows_complete complete [OF assms(6)] complete [OF assms(7)])
  next
    case (4 y) then show ?case by (intro entry) simp_all
  next
    case 5 show ?case by (rule rows) (simp add: pair_rows_complete complete [OF assms(6)] complete [OF assms(7)])
  next
    case (8 y) then show ?case by (intro exit) simp_all
  qed simp_all
qed

definition sample_frog :: stage_rec where
  "sample_frog = \<lparr>sr_stage = Some ''FrogSearchExStage'', sr_entry_id = Some ''FrogEnt'',
     sr_exit_dest = Some ''CapWorldHomeStage'', sr_exit_id = Some ''FrogExit''\<rparr>"

definition sample_tides :: stage_rec where
  "sample_tides = \<lparr>sr_stage = Some ''PoisonWaveExStage'', sr_entry_id = Some ''PoisonEnt'',
     sr_exit_dest = Some ''CapWorldHomeStage'', sr_exit_id = Some ''PoisonExit''\<rparr>"

definition sample_stages :: "(string, stage_rec) dict" where
  "sample_stages = [(''Frog Pond'', sample_frog), (''Poison Tides'', sample_tides)]"

theorem entrances_lead_there_and_back_witness:
  "row_for ''exit'' ''PoisonWaveExStage''
     (compile_stage_remaps [(''Frog Pond'', ''Poison Tides''), (''Poison Tides'', ''Frog Pond'')] sample_stages) =
   Some \<lparr>row_kind = ''exit'', row_from = ''PoisonWaveExStage'', row_to_stage = ''CapWorldHomeStage'', row_to_id = ''FrogExit''\<rparr>"
proof -
  have get: "dict_get sample_stages ''Frog Pond'' = Some sample_frog"
    "dict_get sample_stages ''Poison Tides'' = Some sample_tides" by (simp_all add: sample_stages_def)
  have "stages_ok sample_stages"
    by (auto simp: stages_ok_def sample_stages_def sample_frog_def sample_tides_def complete_rec_def
        split: if_splits)
  from entrances_lead_there_and_back [OF _ _ this _ _ get(1) get(2),
      of "[(''Frog Pond'', ''Poison Tides''), (''Poison Tides'', ''Frog Pond'')]"]
  have "row_for ''exit'' (the (sr_stage sample_tides))
      (compile_stage_remaps [(''Frog Pond'', ''Poison Tides''), (''Poison Tides'', ''Frog Pond'')] sample_stages) =
    Some \<lparr>row_kind = ''exit'', row_from = the (sr_stage sample_tides),
      row_to_stage = the (sr_exit_dest sample_frog), row_to_id = the (sr_exit_id sample_frog)\<rparr>" by simp
  then show ?thesis by (simp add: sample_frog_def sample_tides_def)
qed

end
