(* ===== verification/Scouting.thy ===== *)
theory Scouting
  imports Display Maps
begin

text \<open>
  \<open>client/scout_cache.py\<close> (what the AP server said each location holds, and the chunked request
  that asks for it), the palette part of \<open>client/config.py\<close> and the table of
  \<open>client/shop_labels.py\<close>. A network item is the NamedTuple the AP library decodes or a plain
  dictionary; \<open>int(...)\<close> of a JSON float is not modelled (an exception of its own).
\<close>

section \<open>Network items\<close>

datatype network_item =
    NetItem (ni_item: int) (ni_location: int) (ni_player: int) (ni_flags: int)
  | NetDict "(string \<times> json) list"
  | NetOther

definition int_of_json :: "json \<Rightarrow> exn + int" where
  "int_of_json j =
     (case j of
        JInt i \<Rightarrow> Inr i
      | JBool b \<Rightarrow> Inr (if b then 1 else 0)
      | JStr s \<Rightarrow> (case py_int s of Some i \<Rightarrow> Inr i | None \<Rightarrow> Inl ValueError)
      | JFloat l \<Rightarrow> Inl (GenericException ''float'')
      | _ \<Rightarrow> Inl TypeError)"

text \<open>\<open>ni.get(k) if isinstance(ni, dict) else getattr(ni, k, None)\<close>, as an integer field.\<close>

fun ni_get :: "network_item \<Rightarrow> string \<Rightarrow> int option" where
  "ni_get (NetItem i l p f) k =
     map_of [(''item'', i), (''location'', l), (''player'', p), (''flags'', f)] k"
| "ni_get (NetDict d) k = get_int d k"
| "ni_get NetOther k = None"

section \<open>The scout cache\<close>

record scout_info =
  scout_item_id :: int
  scout_recipient :: int
  scout_flags :: int

type_synonym scout_cache = "(int, scout_info) dict"

definition scout_chunk_size :: nat where "scout_chunk_size = 200"

definition absorb :: "int \<Rightarrow> int \<Rightarrow> int \<Rightarrow> int \<Rightarrow> scout_cache \<Rightarrow> scout_cache" where
  "absorb location item recipient flags c =
     dict_set location \<lparr>scout_item_id = item, scout_recipient = recipient, scout_flags = flags\<rparr> c"

text \<open>\<open>ni[k]\<close> followed by \<open>int(...)\<close>.\<close>

definition int_key :: "(string \<times> json) list \<Rightarrow> string \<Rightarrow> exn + int" where
  "int_key d k = (case dict_get d k of None \<Rightarrow> Inl KeyError | Some j \<Rightarrow> int_of_json j)"

fun absorb_network_item :: "network_item \<Rightarrow> scout_cache action" where
  "absorb_network_item (NetItem i l p f) c = (absorb l i p f c, None)"
| "absorb_network_item (NetDict d) c =
     (case int_key d ''location'' of
        Inl e \<Rightarrow> (c, Some e)
      | Inr l \<Rightarrow>
          (case int_key d ''item'' of
             Inl e \<Rightarrow> (c, Some e)
           | Inr i \<Rightarrow>
               (case int_key d ''player'' of
                  Inl e \<Rightarrow> (c, Some e)
                | Inr p \<Rightarrow>
                    (case (if dict_get d ''flags'' = None then Inr 0 else int_key d ''flags'') of
                       Inl e \<Rightarrow> (c, Some e)
                     | Inr f \<Rightarrow> (absorb l i p f c, None)))))"
| "absorb_network_item NetOther c = (c, Some TypeError)"

text \<open>\<open>except (KeyError, TypeError, AttributeError)\<close>: any other exception leaves the loop. The count
  is the number of entries absorbed.\<close>

fun absorb_location_info :: "network_item list \<Rightarrow> scout_cache \<Rightarrow> scout_cache \<times> (exn + nat)" where
  "absorb_location_info [] c = (c, Inr 0)"
| "absorb_location_info (ni # nis) c =
     (case absorb_network_item ni c of
        (c', None) \<Rightarrow> (case absorb_location_info nis c' of (c'', r) \<Rightarrow> (c'', map_sum id Suc r))
      | (c', Some e) \<Rightarrow>
          if e \<in> {KeyError, TypeError, AttributeError} then absorb_location_info nis c' else (c', Inl e))"

definition scout_lookup :: "scout_cache \<Rightarrow> int \<Rightarrow> scout_info option" where
  "scout_lookup c location_id = dict_get c location_id"

datatype ap_msg = LocationScouts "int list" | LocationChecks "int list" | StatusUpdateGoal
  | Bounce int string | ConnectUpdate bool

definition request_scout :: "int list \<Rightarrow> scout_cache option \<Rightarrow> ap_msg list \<times> nat" where
  "request_scout location_ids cache =
     (let ids = filter (\<lambda>i. i > 0) location_ids;
          ids = (case cache of None \<Rightarrow> ids | Some c \<Rightarrow> filter (\<lambda>i. dict_get c i = None) ids);
          cs = chunks scout_chunk_size ids
      in (map LocationScouts cs, sum_list (map length cs)))"

section \<open>Palettes\<close>

definition kingdom_palette_base :: int where "kingdom_palette_base = 5"

definition kingdom_palette_order :: "string list" where
  "kingdom_palette_order =
     [''Cap'', ''Cascade'', ''Sand'', ''Lake'', ''Wooded'', ''Cloud'', ''Lost'', ''Metro'', ''Snow'',
      ''Seaside'', ''Luncheon'', ''Ruined'', ''Bowser'' @ [CHR 39] @ ''s'', ''Moon'', ''Mushroom'',
      ''Dark'', ''Darker'']"

definition kingdom_palette_index :: "(string, int) dict" where
  "kingdom_palette_index =
     map (\<lambda>(i, k). (k, kingdom_palette_base + int i)) (enumerate 0 kingdom_palette_order)"

record colors_config =
  col_enabled :: bool
  col_progression :: int
  col_useful :: int
  col_trap :: int
  col_filler :: int

definition default_colors :: colors_config where
  "default_colors = \<lparr>col_enabled = True, col_progression = 1, col_useful = 2, col_trap = 3, col_filler = 0\<rparr>"

definition for_classification :: "colors_config \<Rightarrow> string \<Rightarrow> int" where
  "for_classification c classification =
     (if classification = ''progression'' then col_progression c
      else if classification = ''useful'' then col_useful c
      else if classification = ''trap'' then col_trap c
      else col_filler c)"

definition for_kingdom :: "string option \<Rightarrow> int option" where
  "for_kingdom kingdom = (if \<not> truthy kingdom then None else dict_get kingdom_palette_index (the kingdom))"

section \<open>Shop slots\<close>

definition shop_location_to_filekey :: "(string, string \<times> string) dict" where
  "shop_location_to_filekey =
     [(''Cap: Shopping in Bonneton'', (''ItemMoon'', ''MoonCap'')),
      (''Cascade: Shopping in Fossil Falls'', (''ItemMoon'', ''MoonWaterfall'')),
      (''Sand: Shopping in Tostarena'', (''ItemMoon'', ''MoonSand'')),
      (''Lake: Shopping in Lake Lamode'', (''ItemMoon'', ''MoonLake'')),
      (''Wooded: Shopping in Steam Gardens'', (''ItemMoon'', ''MoonForest'')),
      (''Lost: Shopping on Forgotten Isle'', (''ItemMoon'', ''MoonClash'')),
      (''Metro: Shopping in New Donk City'', (''ItemMoon'', ''MoonCity'')),
      (''Snow: Shopping in Shiveria'', (''ItemMoon'', ''MoonSnow'')),
      (''Seaside: Shopping in Bubblaine'', (''ItemMoon'', ''MoonSea'')),
      (''Luncheon: Shopping in Mount Volbono'', (''ItemMoon'', ''MoonLava'')),
      (''Bowser'' @ [CHR 39] @ ''s: Shopping at Bowser'' @ [CHR 39] @ ''s Castle'', (''ItemMoon'', ''MoonSky''))]"

definition has_any_populated_keys :: bool where
  "has_any_populated_keys \<longleftrightarrow> list_ex (\<lambda>(n, f, k). f \<noteq> [] \<and> k \<noteq> []) shop_location_to_filekey"

section \<open>Lemmas\<close>

lemma absorb_network_item_other: "absorb_network_item ni c = (c', Some e) \<Longrightarrow> c' = c"
  by (cases ni) (auto split: sum.splits)

definition wanted_ids :: "int list \<Rightarrow> scout_cache option \<Rightarrow> int list" where
  "wanted_ids ids cache =
     filter (\<lambda>i. 0 < i \<and> (case cache of None \<Rightarrow> True | Some c \<Rightarrow> dict_get c i = None)) ids"

fun requested_ids :: "ap_msg list \<Rightarrow> int list" where
  "requested_ids (LocationScouts is # ms) = is @ requested_ids ms"
| "requested_ids (_ # ms) = requested_ids ms"
| "requested_ids [] = []"

lemma requested_ids_scouts: "requested_ids (map LocationScouts cs) = concat cs"
  by (induction cs) simp_all

lemma request_scout_alt:
  "request_scout ids cache =
     (map LocationScouts (chunks 200 (wanted_ids ids cache)), length (wanted_ids ids cache))"
proof -
  have "(case cache of None \<Rightarrow> filter (\<lambda>i. i > 0) ids | Some c \<Rightarrow> filter (\<lambda>i. dict_get c i = None) (filter (\<lambda>i. i > 0) ids))
      = wanted_ids ids cache" by (cases cache) (simp_all add: wanted_ids_def conj_commute)
  moreover have "sum_list (map length (chunks 200 xs)) = length xs" for xs :: "int list"
    using length_concat [of "chunks 200 xs"] by (simp add: concat_chunks)
  ultimately show ?thesis by (simp add: request_scout_def Let_def scout_chunk_size_def)
qed

lemma kingdom_palette_get:
  "dict_get kingdom_palette_index k = Some p \<Longrightarrow>
     0 \<le> p - 5 \<and> nat (p - 5) < length kingdom_palette_order \<and> kingdom_palette_order ! nat (p - 5) = k"
proof -
  assume "dict_get kingdom_palette_index k = Some p"
  then obtain i where "(i, k) \<in> set (enumerate 0 kingdom_palette_order)" "p = 5 + int i"
    by (auto simp: kingdom_palette_index_def kingdom_palette_base_def dest!: map_of_SomeD)
  then show ?thesis by (auto simp: in_set_enumerate_eq)
qed

section \<open>Properties\<close>

text \<open>The scout request asks for every wanted location exactly as often as the caller listed it, in
  order, in messages of at most 200 locations each, never for one the cache already holds, and returns
  how many it asked for.\<close>

theorem scout_request_covers:
  "requested_ids (fst (request_scout ids cache)) = wanted_ids ids cache \<and>
   snd (request_scout ids cache) = length (wanted_ids ids cache) \<and>
   list_all (\<lambda>m. \<exists>c. m = LocationScouts c \<and> c \<noteq> [] \<and> length c \<le> 200) (fst (request_scout ids cache))"
  using chunks_bound [of 200 _ "wanted_ids ids cache"]
  by (auto simp: request_scout_alt requested_ids_scouts concat_chunks list_all_iff)

text \<open>Palette indices of our own moons tell kingdoms apart and stay out of the four classification
  colours: two kingdoms with a palette have the same one only when they are equal, and it lies in
  5..21.\<close>

theorem kingdom_palettes_distinct:
  assumes "for_kingdom k = Some p" "for_kingdom j = Some p"
  shows "k = j \<and> 5 \<le> p \<and> p \<le> 21 \<and> p \<noteq> for_classification default_colors c"
proof -
  from assms obtain a b where ab: "k = Some a" "j = Some b" "dict_get kingdom_palette_index a = Some p"
    "dict_get kingdom_palette_index b = Some p" by (auto simp: for_kingdom_def split: if_splits elim!: truthyE)
  from kingdom_palette_get [OF ab(3)] kingdom_palette_get [OF ab(4)] have "a = b" "5 \<le> p"
    "nat (p - 5) < length kingdom_palette_order" by auto
  moreover have "length kingdom_palette_order = 17" by (simp add: kingdom_palette_order_def)
  ultimately show ?thesis using ab(1,2) by (auto simp: for_classification_def default_colors_def)
qed

theorem kingdom_palettes_distinct_witness:
  "for_kingdom (Some ''Sand'') = Some 7 \<and> (7 :: int) \<noteq> for_classification default_colors ''trap''"
proof -
  have "for_kingdom (Some ''Sand'') = Some 7"
    by (simp add: for_kingdom_def kingdom_palette_index_def kingdom_palette_order_def kingdom_palette_base_def)
  with kingdom_palettes_distinct [OF this this, of "''trap''"] show ?thesis by blast
qed

end
