(* ===== verification/Switch_Server.thy ===== *)
theory Switch_Server
  imports Scouting
begin

text \<open>
  \<open>client/switch_server.py\<close>: the TCP server of the Switches. The state of a \<open>SwitchServer\<close>
  extends the \<open>BridgeState\<close> it shares with the AP side, one field per attribute (prefixed
  \<open>srv_\<close> where the context has one of the same name). A writer is a number; \<open>writers\<close> holds
  for each whether it is closing, whether the peer is gone (a write then raises and the writer is
  closed) and the messages written to it. The callbacks the constructor takes are a record of
  functions. A handler is a function from the state to the new state and the exception it ends with, if
  any: it runs to its end without interleaving with other tasks, so an \<open>await\<close> is no scheduling point
  of the model. Logging other than \<open>BridgeState.add_log\<close> is left out, and a field of a received
  message whose JSON type is not the documented one reads as absent.
\<close>

section \<open>State\<close>

type_synonym check_dict = "(string \<times> json) list"

record writer =
  wr_closing :: bool
  wr_broken :: bool
  wr_out :: "message list"

record switch_conn =
  conn_device_id :: string
  conn_peer_ip :: string
  conn_writer :: nat
  conn_hello :: check_dict

record server = bridge_state +
  srv_client_ver :: string
  srv_deathlink :: bool
  srv_capturesanity :: bool
  srv_abilitysanity :: bool
  connections :: "(string, switch_conn) dict"
  srv_active :: "string option"
  srv_pending_entries :: "check_dict list option"
  srv_pending_goal :: bool
  srv_pending_live_checks :: "check_dict list"
  held_entries :: "check_dict list option"
  held_goal :: bool
  held_from_reconcile :: bool
  reconcile_pending :: "int list"
  talkatoo_configured :: bool
  talkatoo_enabled :: bool
  talkatoo_kingdoms :: "(string, string list) dict"
  talkatoo_ever_shipped :: "string list"
  kingdom_gates_configured :: bool
  kingdom_gates :: "(string, int) dict"
  shop_labels_configured :: bool
  shop_label_entries :: "shop_label_entry list"
  writers :: "nat \<Rightarrow> writer"
  switches_notified :: nat

record 's callbacks =
  cb_check :: "check_dict \<Rightarrow> 's \<Rightarrow> 's \<times> (exn + int option)"
  cb_goal :: "'s action"
  cb_death :: "(int \<Rightarrow> 's action) option"
  cb_compose_label :: "(int \<Rightarrow> 's \<Rightarrow> exn + string option) option"
  cb_pay_snapshot :: "((string, int) dict \<Rightarrow> 's action) option"
  cb_outstanding :: "('s \<Rightarrow> exn + outstanding_entry list) option"
  cb_all_captures :: "('s \<Rightarrow> (string \<times> string) list) option"
  cb_ap_ready :: "('s \<Rightarrow> bool) option"
  cb_reconcile_item :: "(int \<Rightarrow> 's \<Rightarrow> exn + item_msg option) option"
  cb_already_checked :: "('s \<Rightarrow> exn + int set) option"
  cb_resolve_entry :: "(check_dict \<Rightarrow> 's \<Rightarrow> exn + int option) option"
  cb_goal_finished :: "('s \<Rightarrow> exn + bool) option"
  cb_stages :: "(string, stage_rec) dict"

definition init_server :: "string \<Rightarrow> bool \<Rightarrow> bool \<Rightarrow> server" where
  "init_server client_ver deathlink capturesanity = bridge_state.extend init_bridge_state
     (server.fields client_ver deathlink capturesanity True [] None None False [] None False False []
        False False [] [] False [] False [] (\<lambda>w. \<lparr>wr_closing = False, wr_broken = False, wr_out = []\<rparr>) 0)"

section \<open>The confirmation gate's classifier\<close>

definition is_capture_entry :: "check_dict \<Rightarrow> bool" where
  "is_capture_entry e \<longleftrightarrow> get_str e ''kind'' = Some ''capture''"

text \<open>The counting loop: (new, already).\<close>

fun count_entries :: "(check_dict \<Rightarrow> exn + int option) \<Rightarrow> int set \<Rightarrow> check_dict list \<Rightarrow> nat \<times> nat" where
  "count_entries resolve already [] = (0, 0)"
| "count_entries resolve already (e # es) =
     (let (n, a) = count_entries resolve already es
      in if is_capture_entry e then (n, a)
         else (case resolve e of
                 Inr (Some loc_id) \<Rightarrow> if loc_id \<in> already then (n, Suc a) else (Suc n, a)
               | _ \<Rightarrow> (n, a)))"

definition known_loc_ids :: "'s callbacks \<Rightarrow> 's \<Rightarrow> int set" where
  "known_loc_ids cb s =
     (case cb_already_checked cb of
        None \<Rightarrow> {}
      | Some f \<Rightarrow> (case f s of Inr ids \<Rightarrow> ids | Inl e \<Rightarrow> {}))"

definition goal_is_new :: "'s callbacks \<Rightarrow> bool \<Rightarrow> 's \<Rightarrow> bool" where
  "goal_is_new cb goal_reached s \<longleftrightarrow> goal_reached \<and>
     (case cb_goal_finished cb of
        None \<Rightarrow> True
      | Some f \<Rightarrow> (case f s of Inr b \<Rightarrow> \<not> b | Inl e \<Rightarrow> True))"

definition classify_snapshot :: "'s callbacks \<Rightarrow> check_dict list \<Rightarrow> bool \<Rightarrow> 's \<Rightarrow> bool \<times> nat \<times> nat" where
  "classify_snapshot cb entries goal_reached s =
     (case cb_resolve_entry cb of
        None \<Rightarrow> (True, 0, 0)
      | Some resolve \<Rightarrow>
          (let (new_count, already_count) = count_entries (\<lambda>e. resolve e s) (known_loc_ids cb s) entries
           in (new_count = 0 \<and> \<not> goal_is_new cb goal_reached s, new_count, already_count)))"

section \<open>Versions\<close>

fun version_parts :: "string list \<Rightarrow> int list" where
  "version_parts [] = []"
| "version_parts (t # ts) = (case py_int t of None \<Rightarrow> [] | Some n \<Rightarrow> n # version_parts ts)"

definition parse_version :: "string \<Rightarrow> int list" where
  "parse_version v =
     (let head = takeWhile (\<lambda>c. c \<noteq> CHR ''-'') (takeWhile (\<lambda>c. c \<noteq> CHR ''+'') v)
      in version_parts (split_on (CHR ''.'') head))"

definition compare_versions :: "string \<Rightarrow> string \<Rightarrow> int" where
  "compare_versions a b =
     (if parse_version a < parse_version b then - 1
      else if parse_version b < parse_version a then 1 else 0)"

section \<open>Sending\<close>

definition close_writer :: "nat \<Rightarrow> 'a server_scheme \<Rightarrow> 'a server_scheme" where
  "close_writer w s = s\<lparr>writers := (writers s)(w := (writers s w)\<lparr>wr_closing := True\<rparr>)\<rparr>"

definition active_conn :: "'a server_scheme \<Rightarrow> switch_conn option" where
  "active_conn s = (case srv_active s of None \<Rightarrow> None | Some d \<Rightarrow> dict_get (connections s) d)"

definition is_connected :: "'a server_scheme \<Rightarrow> bool" where
  "is_connected s =
     (case active_conn s of None \<Rightarrow> False | Some c \<Rightarrow> \<not> wr_closing (writers s (conn_writer c)))"

definition send_to_conn :: "switch_conn \<Rightarrow> message \<Rightarrow> 'a server_scheme action" where
  "send_to_conn conn msg s =
     (let w = writers s (conn_writer conn)
      in if wr_closing w then (s, None)
         else (case encode msg of
                 Inl e \<Rightarrow> (s, Some e)
               | Inr bytes \<Rightarrow>
                   if wr_broken w then (close_writer (conn_writer conn) s, None)
                   else (s\<lparr>writers := (writers s)(conn_writer conn := w\<lparr>wr_out := wr_out w @ [msg]\<rparr>)\<rparr>, None)))"

definition send_active :: "message \<Rightarrow> 'a server_scheme action" where
  "send_active msg s = (case active_conn s of None \<Rightarrow> (s, None) | Some conn \<Rightarrow> send_to_conn conn msg s)"

definition notify_switches_changed :: "'a server_scheme \<Rightarrow> 'a server_scheme" where
  "notify_switches_changed s = s\<lparr>switches_notified := switches_notified s + 1\<rparr>"

definition set_deathlink_enabled :: "bool \<Rightarrow> 'a server_scheme \<Rightarrow> 'a server_scheme" where
  "set_deathlink_enabled b s = s\<lparr>srv_deathlink := b\<rparr>"

definition set_capturesanity_enabled :: "bool \<Rightarrow> 'a server_scheme \<Rightarrow> 'a server_scheme" where
  "set_capturesanity_enabled b s = s\<lparr>srv_capturesanity := b\<rparr>"

definition set_abilitysanity_enabled :: "bool \<Rightarrow> 'a server_scheme \<Rightarrow> 'a server_scheme" where
  "set_abilitysanity_enabled b s = s\<lparr>srv_abilitysanity := b\<rparr>"

definition push_deathlink_helloack :: "'a server_scheme action" where
  "push_deathlink_helloack s =
     (case active_conn s of
        None \<Rightarrow> (s, None)
      | Some conn \<Rightarrow>
          if wr_closing (writers s (conn_writer conn)) then (s, None)
          else send_to_conn conn (HelloAck \<lparr>ack_ok = True, ack_seed = ap_seed s, ack_slot = ap_slot s,
                 ack_cap_table_hash = [], ack_deathlink_enabled = srv_deathlink s,
                 ack_client_ver = None, ack_err = None\<rparr>) s)"

definition capture_item :: "string \<Rightarrow> string \<Rightarrow> item_msg" where
  "capture_item cap_name hack_name =
     \<lparr>im_kind = ''capture'', im_kingdom = None, im_shine_id = None, im_cap = Some cap_name, im_name = None,
      im_from = [], im_hack_name = Some hack_name, im_classification = None\<rparr>"

definition push_capturesanity_replay :: "'a server_scheme callbacks \<Rightarrow> 'a server_scheme action" where
  "push_capturesanity_replay cb s =
     (if srv_capturesanity s then (s, None)
      else (case cb_all_captures cb of
              None \<Rightarrow> (s, None)
            | Some f \<Rightarrow> for_each (f s) (\<lambda>(c, h). send_active (Item (capture_item c h))) s))"

definition push_coin_grant :: "'a server_scheme action" where
  "push_coin_grant s =
     (let total = compute_total_coin_grant s
      in if total = 0 then (s, None) else send_active (CoinGrant total) s)"

definition push_ability_state :: "'a server_scheme action" where
  "push_ability_state s =
     (let enforce = srv_abilitysanity s; counts = get_ability_counts s
      in if enforce \<and> counts = [] then (s, None)
         else send_active (AbilityState
                \<lparr>as_entries = map (\<lambda>(name, n). \<lparr>ab_ability = name, ab_count = n\<rparr>) (sort counts),
                 as_enforce = enforce\<rparr>) s)"

definition set_talkatoo_pool :: "bool \<Rightarrow> (string, string list) dict \<Rightarrow> 'a server_scheme \<Rightarrow> 'a server_scheme" where
  "set_talkatoo_pool enabled kingdoms s =
     s\<lparr>talkatoo_enabled := enabled, talkatoo_kingdoms := kingdoms, talkatoo_configured := True\<rparr>"

text \<open>\<open>kingdom_ap_to_switch(k) or k\<close>.\<close>

definition switch_kingdom :: "string \<Rightarrow> string" where
  "switch_kingdom k = or_str (kingdom_ap_to_switch (Some k)) k"

definition pool_msg :: "string \<Rightarrow> string list \<Rightarrow> message" where
  "pool_msg kingdom_ap moons =
     TalkatooPool \<lparr>tp_enabled = True, tp_kingdom = switch_kingdom kingdom_ap, tp_moons = moons\<rparr>"

definition push_talkatoo_pool :: "'a server_scheme action" where
  "push_talkatoo_pool s =
     (if \<not> talkatoo_configured s then (s, None)
      else if \<not> talkatoo_enabled s then
        seq [send_active (TalkatooPool \<lparr>tp_enabled = False, tp_kingdom = [], tp_moons = []\<rparr>),
             update (\<lambda>s. s\<lparr>talkatoo_ever_shipped := []\<rparr>)] s
      else (let current = dict_keys (talkatoo_kingdoms s);
                dropped = filter (\<lambda>k. k \<notin> set current) (talkatoo_ever_shipped s)
            in seq [for_each dropped (\<lambda>k. send_active (pool_msg k [])),
                    for_each (talkatoo_kingdoms s) (\<lambda>(k, moons). send_active (pool_msg k moons)),
                    update (\<lambda>s. s\<lparr>talkatoo_ever_shipped := current\<rparr>)] s))"

definition set_kingdom_gates :: "(string, int) dict \<Rightarrow> 'a server_scheme \<Rightarrow> 'a server_scheme" where
  "set_kingdom_gates gates s = s\<lparr>kingdom_gates := gates, kingdom_gates_configured := True\<rparr>"

definition push_kingdom_gates :: "'a server_scheme action" where
  "push_kingdom_gates s =
     (if \<not> kingdom_gates_configured s then (s, None)
      else send_active (KingdomGates (map (\<lambda>(k, v). \<lparr>kg_kingdom = k, kg_gate = v\<rparr>) (kingdom_gates s))) s)"

definition push_entrance_map :: "'a server_scheme callbacks \<Rightarrow> 'a server_scheme action" where
  "push_entrance_map cb s =
     (if \<not> entrance_map_configured s then (s, None)
      else (let quads = map row_json (compile_stage_remaps (entrance_map s) (cb_stages cb))
            in if quads = [] then send_active (EntranceMap \<lparr>em_entries = [], em_reset = True\<rparr>) s
               else for_each (enumerate 0 (chunks entrance_map_chunk quads))
                      (\<lambda>(i, chunk). send_active (EntranceMap \<lparr>em_entries = chunk, em_reset = (i = 0)\<rparr>)) s))"

definition set_shop_labels :: "shop_label_entry list \<Rightarrow> 'a server_scheme \<Rightarrow> 'a server_scheme" where
  "set_shop_labels entries s = s\<lparr>shop_label_entries := entries, shop_labels_configured := True\<rparr>"

definition push_shop_labels :: "'a server_scheme action" where
  "push_shop_labels s =
     (if \<not> shop_labels_configured s then (s, None) else send_active (ShopLabels (shop_label_entries s)) s)"

definition palette_messages :: "(int, int) dict \<Rightarrow> message list" where
  "palette_messages palette =
     map (\<lambda>chunk. ShineScouts (map (\<lambda>(uid, p). \<lparr>scout_uid = uid, scout_palette = p\<rparr>) chunk))
       (chunks 200 palette)"

definition send_shine_scouts :: "(int, int) dict \<Rightarrow> 'a server_scheme action" where
  "send_shine_scouts palette s =
     (if palette = [] then (s, None) else for_each (palette_messages palette) send_active s)"

section \<open>Replay and the active device\<close>

definition replay_item :: "item_event \<Rightarrow> item_msg" where
  "replay_item evt =
     (let i = ev_item evt
      in \<lparr>im_kind = ref_kind i, im_kingdom = ref_kingdom i, im_shine_id = ref_shine_id i, im_cap = ref_cap i,
          im_name = ref_name i, im_from = ev_cappy_from evt, im_hack_name = ref_hack_name i,
          im_classification = ref_classification i\<rparr>)"

definition send_outstanding_reading :: "'a server_scheme callbacks \<Rightarrow> switch_conn \<Rightarrow> 'a server_scheme action" where
  "send_outstanding_reading cb conn s =
     (case cb_outstanding cb of
        None \<Rightarrow> (s, None)
      | Some f \<Rightarrow>
          if compute_outstanding s = None then (s, None)
          else send_to_conn conn (Outstanding (case f s of Inr es \<Rightarrow> es | Inl e \<Rightarrow> [])) s)"

definition send_item_backlog :: "switch_conn \<Rightarrow> 'a server_scheme action" where
  "send_item_backlog conn s =
     for_each (filter (\<lambda>evt. ref_kind (ev_item evt) \<noteq> ''moon'') (received_items s))
       (\<lambda>evt. send_to_conn conn (Item (replay_item evt))) s"

definition run_post_hello_replay :: "'a server_scheme callbacks \<Rightarrow> switch_conn \<Rightarrow> 'a server_scheme action" where
  "run_post_hello_replay cb conn = seq
     [send_outstanding_reading cb conn,
      (\<lambda>s. send_to_conn conn (CheckedReplay (checked_refs s)) s),
      send_item_backlog conn,
      push_capturesanity_replay cb,
      push_talkatoo_pool,
      push_shop_labels,
      push_kingdom_gates,
      push_entrance_map cb,
      push_coin_grant,
      push_ability_state,
      (\<lambda>s. for_each (palette_messages (shine_palette s)) (send_to_conn conn) s),
      (\<lambda>s. send_to_conn conn (ApState (ap_conn s)) s)]"

definition set_active :: "'a server_scheme callbacks \<Rightarrow> string option \<Rightarrow> 'a server_scheme \<Rightarrow> 'a server_scheme \<times> (exn + bool)" where
  "set_active cb device_id s =
     (if device_id \<noteq> None \<and> dict_get (connections s) (the device_id) = None then (s, Inr False)
      else if device_id = srv_active s then (s, Inr True)
      else (let old_conn = (if truthy (srv_active s) then dict_get (connections s) (the (srv_active s)) else None);
                new_conn = (if truthy device_id then dict_get (connections s) (the device_id) else None);
                s = set_active_switch device_id (s\<lparr>srv_active := device_id\<rparr>)
            in then_value
                 (seq [(case old_conn of None \<Rightarrow> skip | Some c \<Rightarrow> send_to_conn c (Kick ''unbound'')),
                       (case new_conn of None \<Rightarrow> skip
                        | Some c \<Rightarrow> seq [send_to_conn c Activate, run_post_hello_replay cb c]),
                       update notify_switches_changed])
                 (\<lambda>s. (s, Inr True)) s))"

section \<open>Connecting\<close>

text \<open>\<open>s.rsplit(".", 1)[-1]\<close> and \<open>s.replace(".", "-")\<close>.\<close>

definition last_octet :: "string \<Rightarrow> string" where
  "last_octet ip = last (split_on (CHR ''.'') ip)"

definition dashed :: "string \<Rightarrow> string" where
  "dashed ip = map (\<lambda>c. if c = CHR ''.'' then CHR ''-'' else c) ip"

definition resolve_device_id :: "string \<Rightarrow> string \<Rightarrow> 'a server_scheme \<Rightarrow> string" where
  "resolve_device_id raw_id peer_ip s =
     (let free = (\<lambda>d. case dict_get (connections s) d of None \<Rightarrow> True | Some c \<Rightarrow> conn_peer_ip c = peer_ip);
          c1 = raw_id @ ''-'' @ last_octet peer_ip; c2 = raw_id @ ''-'' @ dashed peer_ip
      in if free raw_id then raw_id
         else if free c1 then c1
         else if free c2 then c2
         else raw_id @ ''-'' @ peer_ip)"

definition hello_str :: "check_dict \<Rightarrow> string \<Rightarrow> string" where
  "hello_str d k = or_default (get_str d k) []"

definition version_error :: "string \<Rightarrow> string \<Rightarrow> string" where
  "version_error client_ver mod_ver =
     (let order = compare_versions mod_ver client_ver;
          advice =
            (if order < 0 then
               ''Switch mod is older than SMOClient. Re-run /setup to rebuild and redeploy the Switch mod at '' @ client_ver @ ''.''
             else if 0 < order then
               ''SMOClient is older than Switch mod. Install a later meatballs.apworld into vendor/Archipelago/custom_worlds/ (needs to match '' @ mod_ver @ '').''
             else ''Re-run /setup to rebuild and redeploy the Switch mod, or install a matching meatballs.apworld.'')
      in ''Version mismatch: SMOClient is '' @ client_ver @ '', Switch mod is '' @ mod_ver @ ''. '' @ advice)"

definition policy_check_version :: "switch_conn \<Rightarrow> check_dict \<Rightarrow> 'a server_scheme \<Rightarrow> 'a server_scheme \<times> (exn + bool)" where
  "policy_check_version conn msg s =
     (let mod_ver = hello_str msg ''mod_ver''; client_ver = srv_client_ver s
      in if \<not> (client_ver \<noteq> [] \<and> mod_ver \<noteq> [] \<and> mod_ver \<noteq> client_ver) then (s, Inr True)
         else (let err = version_error client_ver mod_ver;
                   s = add_log (''[version mismatch] '' @ err) s
               in then_value
                    (send_to_conn conn (HelloAck \<lparr>ack_ok = False, ack_seed = ap_seed s, ack_slot = ap_slot s,
                       ack_cap_table_hash = hello_str msg ''cap_table_hash'',
                       ack_deathlink_enabled = srv_deathlink s,
                       ack_client_ver = Some client_ver, ack_err = Some err\<rparr>))
                    (\<lambda>s. (s, Inr False)) s))"

definition send_hello_ack :: "switch_conn \<Rightarrow> 'a server_scheme action" where
  "send_hello_ack conn s =
     send_to_conn conn (HelloAck \<lparr>ack_ok = True, ack_seed = ap_seed s, ack_slot = ap_slot s,
       ack_cap_table_hash = hello_str (conn_hello conn) ''cap_table_hash'',
       ack_deathlink_enabled = srv_deathlink s,
       ack_client_ver = (if srv_client_ver s = [] then None else Some (srv_client_ver s)), ack_err = None\<rparr>) s"

text \<open>\<open>self._connections.get(id) is conn\<close>: writers are not shared between connection records.\<close>

definition is_registered :: "switch_conn \<Rightarrow> 'a server_scheme \<Rightarrow> bool" where
  "is_registered conn s =
     (case dict_get (connections s) (conn_device_id conn) of
        None \<Rightarrow> False | Some c \<Rightarrow> conn_writer c = conn_writer conn)"

definition drop_registration :: "string \<Rightarrow> 'a server_scheme \<Rightarrow> 'a server_scheme" where
  "drop_registration d s = unregister_switch d (s\<lparr>connections := dict_pop d (connections s)\<rparr>)"

definition effective_device_id :: "string \<Rightarrow> check_dict \<Rightarrow> 'a server_scheme \<Rightarrow> string" where
  "effective_device_id peer_ip hello s =
     (let raw_id = strip (hello_str hello ''device_id'');
          raw_id = (if raw_id = [] then ''sw-'' @ (if peer_ip = [] then ''?'' else last_octet peer_ip) else raw_id)
      in resolve_device_id raw_id peer_ip s)"

text \<open>The lines before the HELLO: one that does not decode is skipped, every other message is kept for
  later. \<open>m.get\<close> of a message that is no dictionary raises out of the handler.\<close>

fun scan_hello :: "string list \<Rightarrow> check_dict option \<Rightarrow> json list \<Rightarrow> exn + (check_dict option \<times> json list)" where
  "scan_hello [] h left = Inr (h, left)"
| "scan_hello (l # ls) h left =
     (case decode l of
        Inl e \<Rightarrow> scan_hello ls h left
      | Inr m \<Rightarrow>
          if h \<noteq> None then scan_hello ls h (left @ [m])
          else (case m of
                  JObj d \<Rightarrow> if get_str d ''t'' = Some ''hello'' then scan_hello ls (Some d) left
                            else scan_hello ls h (left @ [m])
                | _ \<Rightarrow> Inl AttributeError))"

text \<open>The reads up to the HELLO: \<open>Inr None\<close> when the stream ends first; otherwise the HELLO, the messages
  kept, the buffer and the reads that are left.\<close>

fun await_hello :: "string list \<Rightarrow> string \<Rightarrow> json list \<Rightarrow>
    exn + (check_dict \<times> json list \<times> string \<times> string list) option" where
  "await_hello [] buffer left = Inr None"
| "await_hello (chunk # rest) buffer left =
     (let (ls, b) = iter_lines (buffer @ chunk)
      in case scan_hello ls None left of
           Inl e \<Rightarrow> Inl e
         | Inr (None, left) \<Rightarrow> await_hello rest b left
         | Inr (Some hello, left) \<Rightarrow> Inr (Some (hello, left, b, rest)))"

text \<open>The connection replaces an older one of its id, whose writer is closed.\<close>

definition register_connection :: "int \<Rightarrow> switch_conn \<Rightarrow> 'a server_scheme \<Rightarrow> 'a server_scheme" where
  "register_connection now conn s =
     (let d = conn_device_id conn;
          s = (case dict_get (connections s) d of None \<Rightarrow> s | Some old \<Rightarrow> close_writer (conn_writer old) s);
          s = s\<lparr>connections := dict_set d conn (connections s)\<rparr>
      in register_switch now d (conn_peer_ip conn) (hello_str (conn_hello conn) ''mod_ver'')
           (hello_str (conn_hello conn) ''smo_ver'') s)"

text \<open>The active-slot decision.\<close>

definition bind_connection :: "'a server_scheme callbacks \<Rightarrow> switch_conn \<Rightarrow> 'a server_scheme action" where
  "bind_connection cb conn s =
     (if srv_active s = None then
        seq [update (\<lambda>s. set_switch_conn ''connecting''
                (set_active_switch (Some (conn_device_id conn)) (s\<lparr>srv_active := Some (conn_device_id conn)\<rparr>))),
             send_hello_ack conn,
             update (set_switch_conn ''ready''),
             run_post_hello_replay cb conn,
             update notify_switches_changed] s
      else
        seq [send_hello_ack conn, send_to_conn conn (Kick ''inactive''), update notify_switches_changed] s)"

definition refuse_connection :: "switch_conn \<Rightarrow> 'a server_scheme \<Rightarrow> 'a server_scheme" where
  "refuse_connection conn s =
     close_writer (conn_writer conn)
       (if is_registered conn s
        then notify_switches_changed (drop_registration (conn_device_id conn) s) else s)"

text \<open>\<open>_handle_client\<close> from the HELLO to the dispatch loop. \<open>Inr None\<close>: refused; \<open>Inr (Some conn)\<close>:
  the loop follows; \<open>Inl e\<close>: the exception leaves the handler, the registration stays.\<close>

definition handle_hello ::
  "'a server_scheme callbacks \<Rightarrow> int \<Rightarrow> nat \<Rightarrow> string \<Rightarrow> check_dict \<Rightarrow> 'a server_scheme \<Rightarrow>
     'a server_scheme \<times> (exn + switch_conn option)" where
  "handle_hello cb now w peer_ip hello s =
     (let conn = \<lparr>conn_device_id = effective_device_id peer_ip hello s, conn_peer_ip = peer_ip,
                  conn_writer = w, conn_hello = hello\<rparr>
      in bind_value (policy_check_version conn hello)
           (\<lambda>ok. if ok then then_value (bind_connection cb conn) (\<lambda>s. (s, Inr (Some conn)))
                 else (\<lambda>s. (refuse_connection conn s, Inr None)))
           (register_connection now conn s))"

text \<open>The \<open>finally\<close> block of the handler. An exception of \<open>set_active\<close> leaves it.\<close>

definition handle_disconnect :: "'a server_scheme callbacks \<Rightarrow> switch_conn \<Rightarrow> 'a server_scheme action" where
  "handle_disconnect cb conn s =
     (let s = close_writer (conn_writer conn) s; d = conn_device_id conn
      in if \<not> is_registered conn s then (s, None)
         else (let s = drop_registration d s
               in if srv_active s = Some d then
                    (let s = set_active_switch None (s\<lparr>srv_active := None\<rparr>)
                     in case connections s of
                          (promoted, c) # rest \<Rightarrow>
                            seq [ignore_value (set_active cb (Some promoted)), update notify_switches_changed] s
                        | [] \<Rightarrow> (notify_switches_changed (set_switch_conn ''disconnected'' s), None))
                  else (notify_switches_changed s, None)))"

section \<open>Shutdown\<close>

definition stop_server :: "'a server_scheme \<Rightarrow> 'a server_scheme" where
  "stop_server s = fold (\<lambda>(d, c). close_writer (conn_writer c)) (connections s)
     (s\<lparr>connections := [], srv_active := None\<rparr>)"

end
