(* ===== verification/Switch_Dispatch.thy ===== *)
theory Switch_Dispatch
  imports Switch_Server
begin

text \<open>
  The receiving half of \<open>client/switch_server.py\<close>: the dispatch of the messages of a connection,
  the forwarding of checks, the save-snapshot confirmation gate with its held snapshot, and the
  bubbles for what was collected while the bridge was offline.
\<close>

section \<open>Checks\<close>

text \<open>\<open>int(j or 0)\<close>.\<close>

definition int_or_zero :: "json \<Rightarrow> exn + int" where
  "int_or_zero j = (if json_truthy j then int_of_json j else Inr 0)"

text \<open>\<open>msg.get("kind", "moon")\<close>.\<close>

definition msg_kind :: "check_dict \<Rightarrow> string" where
  "msg_kind msg = (if dict_get msg ''kind'' = None then ''moon'' else hello_str msg ''kind'')"

definition check_ref :: "check_dict \<Rightarrow> item_ref" where
  "check_ref msg = \<lparr>ref_kind = msg_kind msg, ref_kingdom = get_str msg ''kingdom'',
     ref_shine_id = get_str msg ''shine_id'', ref_cap = get_str msg ''cap'', ref_name = None,
     ref_stage_name = get_str msg ''stage_name'', ref_object_id = get_str msg ''object_id'',
     ref_shine_uid = get_int msg ''shine_uid'', ref_hack_name = get_str msg ''hack_name'',
     ref_classification = None\<rparr>"

text \<open>The label of a forwarded check: a moon's only when its message carries a sequence number.\<close>

definition check_label :: "'a server_scheme callbacks \<Rightarrow> string \<Rightarrow> int \<Rightarrow> int option \<Rightarrow> 'a server_scheme \<Rightarrow> string option" where
  "check_label cb kind sq loc_id s =
     (case (loc_id, cb_compose_label cb) of
        (Some l, Some f) \<Rightarrow>
          if (kind = ''moon'' \<and> sq \<noteq> 0) \<or> kind = ''capture''
          then (case f l s of Inr t \<Rightarrow> t | Inl e \<Rightarrow> None) else None
      | _ \<Rightarrow> None)"

definition send_check_label ::
  "'a server_scheme callbacks \<Rightarrow> check_dict \<Rightarrow> bool \<Rightarrow> int set \<Rightarrow> int option \<Rightarrow> 'a server_scheme action" where
  "send_check_label cb msg from_snapshot already loc_id s =
     (let kind = msg_kind msg; sq = or_default (get_int msg ''seq'') 0;
          was_new = (case loc_id of None \<Rightarrow> False | Some l \<Rightarrow> l \<notin> already);
          txt = check_label cb kind sq loc_id s
      in if truthy txt \<and> kind = ''moon'' then
           send_active (MoonLabel \<lparr>ml_text = the txt, ml_seq = sq, ml_valid_for_ms = 4000\<rparr>) s
         else if truthy txt \<and> kind = ''capture'' \<and> was_new \<and> \<not> from_snapshot then
           send_active (Cappy (the txt)) s
         else (s, None))"

definition dispatch_check ::
  "'a server_scheme callbacks \<Rightarrow> check_dict \<Rightarrow> bool \<Rightarrow> 'a server_scheme \<Rightarrow> 'a server_scheme \<times> (exn + int option)" where
  "dispatch_check cb msg from_snapshot s =
     (case (case cb_already_checked cb of None \<Rightarrow> Inr {} | Some f \<Rightarrow> f s) of
        Inl e \<Rightarrow> (s, Inl e)
      | Inr already \<Rightarrow>
          bind_value (cb_check cb msg)
            (\<lambda>loc_id. then_value (send_check_label cb msg from_snapshot already loc_id)
               (\<lambda>s. (fst (add_checked_location \<lparr>ce_item = check_ref msg\<rparr> s), Inr loc_id))) s)"

section \<open>Offline bubbles\<close>

definition reconcile_cappy_burst_threshold :: nat where "reconcile_cappy_burst_threshold = 5"

text \<open>The loop over the pending ids: the state and the ids that are done with.\<close>

fun fire_pending :: "(int \<Rightarrow> 'a server_scheme \<Rightarrow> exn + item_msg option) \<Rightarrow> int list \<Rightarrow> 'a server_scheme \<Rightarrow>
    'a server_scheme \<times> int list" where
  "fire_pending build [] s = (s, [])"
| "fire_pending build (l # ls) s =
     (case build l s of
        Inl e \<Rightarrow> (let (t, fired) = fire_pending build ls s in (t, l # fired))
      | Inr None \<Rightarrow> fire_pending build ls s
      | Inr (Some item) \<Rightarrow>
          (let (t, fired) = fire_pending build ls (fst (send_active (Item item) s)) in (t, l # fired)))"

definition try_fire_reconcile_cappy :: "'a server_scheme callbacks \<Rightarrow> 'a server_scheme \<Rightarrow> 'a server_scheme" where
  "try_fire_reconcile_cappy cb s =
     (case cb_reconcile_item cb of
        None \<Rightarrow> s
      | Some build \<Rightarrow>
          if reconcile_pending s = [] then s
          else (let (t, fired) = fire_pending build (reconcile_pending s) s
                in t\<lparr>reconcile_pending := filter (\<lambda>l. l \<notin> set fired) (reconcile_pending t)\<rparr>))"

section \<open>Snapshots\<close>

text \<open>The loop of \<open>_dispatch_snapshot_entries\<close>; \<open>fresh\<close> collects what \<open>fresh_this_drain\<close> does.\<close>

fun dispatch_entries ::
  "'a server_scheme callbacks \<Rightarrow> bool \<Rightarrow> int set \<Rightarrow> check_dict list \<Rightarrow> int list \<Rightarrow> 'a server_scheme \<Rightarrow>
     'a server_scheme \<times> (exn + int list)" where
  "dispatch_entries cb rec pre [] fresh s = (s, Inr fresh)"
| "dispatch_entries cb rec pre (e # es) fresh s =
     (if is_capture_entry e then dispatch_entries cb rec pre es fresh s
      else (case dispatch_check cb (dict_update_all e [(''t'', JStr ''check'')]) True s of
              (s', Inl x) \<Rightarrow> (s', Inl x)
            | (s', Inr loc_id) \<Rightarrow>
                dispatch_entries cb rec pre es
                  (case loc_id of
                     None \<Rightarrow> fresh
                   | Some l \<Rightarrow> if rec \<and> get_str e ''kind'' \<in> {Some ''moon'', Some ''capture''} \<and> l \<notin> pre
                               then List.insert l fresh else fresh) s'))"

definition dispatch_snapshot_entries ::
  "'a server_scheme callbacks \<Rightarrow> check_dict list \<Rightarrow> bool \<Rightarrow> bool \<Rightarrow> 'a server_scheme action" where
  "dispatch_snapshot_entries cb entries goal_reached from_reconcile s =
     (let pre = (if from_reconcile then known_loc_ids cb s else {})
      in ignore_value
           (bind_value (dispatch_entries cb from_reconcile pre entries [])
             (\<lambda>fresh. then_value (if goal_reached then cb_goal cb else skip)
               (\<lambda>s. if from_reconcile \<and> fresh \<noteq> [] \<and> length fresh \<le> reconcile_cappy_burst_threshold
                    then (try_fire_reconcile_cappy cb
                            (s\<lparr>reconcile_pending := fold List.insert fresh (reconcile_pending s)\<rparr>), Inr ())
                    else (s, Inr ())))) s)"

definition clear_held :: "'a server_scheme \<Rightarrow> 'a server_scheme" where
  "clear_held s = s\<lparr>held_entries := None, held_goal := False, held_from_reconcile := False\<rparr>"

definition em_dash :: string where "em_dash = [CHR 0xE2, CHR 0x80, CHR 0x94]"

definition confirm_prompt :: "nat \<Rightarrow> nat \<Rightarrow> bool \<Rightarrow> string" where
  "confirm_prompt new_count already_count goal_reached =
     ''Switch loaded a save with '' @ show_nat new_count @ '' new moon(s) + '' @ show_nat already_count
       @ '' already-credited'' @ (if goal_reached then '', goal_reached=true'' else [])
       @ '' '' @ em_dash @ '' held to protect against the wrong save auto-loading. ''
       @ ''Type /confirm_snapshot to apply, or /reject_snapshot to discard and load a different save.''"

definition gate_or_dispatch_snapshot ::
  "'a server_scheme callbacks \<Rightarrow> check_dict list \<Rightarrow> bool \<Rightarrow> bool \<Rightarrow> 'a server_scheme action" where
  "gate_or_dispatch_snapshot cb entries goal_reached from_reconcile s =
     (let (auto_confirm, new_count, already_count) = classify_snapshot cb entries goal_reached s
      in if auto_confirm
         then dispatch_snapshot_entries cb entries goal_reached from_reconcile (clear_held s)
         else (add_log (''[confirm-gate] '' @ confirm_prompt new_count already_count goal_reached)
                 (s\<lparr>held_entries := Some entries, held_goal := goal_reached,
                    held_from_reconcile := from_reconcile\<rparr>), None))"

definition confirm_pending_snapshot :: "'a server_scheme callbacks \<Rightarrow> 'a server_scheme \<Rightarrow> 'a server_scheme \<times> (exn + bool)" where
  "confirm_pending_snapshot cb s =
     (case held_entries s of
        None \<Rightarrow> (s, Inr False)
      | Some entries \<Rightarrow>
          then_value (dispatch_snapshot_entries cb entries (held_goal s) (held_from_reconcile s))
            (\<lambda>s. (s, Inr True)) (clear_held s))"

definition reject_pending_snapshot :: "'a server_scheme \<Rightarrow> 'a server_scheme \<times> bool" where
  "reject_pending_snapshot s = (if held_entries s = None then (s, False) else (clear_held s, True))"

definition held_snapshot_summary :: "'a server_scheme callbacks \<Rightarrow> 'a server_scheme \<Rightarrow> (nat \<times> nat \<times> bool) option" where
  "held_snapshot_summary cb s =
     (case held_entries s of
        None \<Rightarrow> None
      | Some entries \<Rightarrow>
          (let (auto_confirm, new_count, already_count) = classify_snapshot cb entries (held_goal s) s
           in Some (new_count, already_count, held_goal s)))"

text \<open>The dictionaries \<open>BridgeState.end_snapshot\<close> returns.\<close>

fun snapshot_entry_dict :: "snapshot_entry \<Rightarrow> check_dict" where
  "snapshot_entry_dict (SnapMoon stage obj uid) =
     [(''kind'', JStr ''moon''), (''stage_name'', JStr stage), (''object_id'', obj), (''shine_uid'', uid)]"
| "snapshot_entry_dict (SnapCapture hack) = [(''kind'', JStr ''capture''), (''hack_name'', JStr hack)]"

definition ap_not_ready :: "'s callbacks \<Rightarrow> 's \<Rightarrow> bool" where
  "ap_not_ready cb s \<longleftrightarrow> (case cb_ap_ready cb of None \<Rightarrow> False | Some f \<Rightarrow> \<not> f s)"

definition on_state_end :: "'a server_scheme callbacks \<Rightarrow> 'a server_scheme action" where
  "on_state_end cb s =
     (let (s, snap, goal_reached) = end_snapshot s; entries = map snapshot_entry_dict snap
      in if ap_not_ready cb s
         then (s\<lparr>srv_pending_entries := Some entries, srv_pending_goal := goal_reached\<rparr>, None)
         else gate_or_dispatch_snapshot cb entries goal_reached False s)"

definition drain_pending_snapshot :: "'a server_scheme callbacks \<Rightarrow> 'a server_scheme action" where
  "drain_pending_snapshot cb s =
     (let live = srv_pending_live_checks s
      in seq [update (\<lambda>s. s\<lparr>srv_pending_live_checks := []\<rparr>),
              (if live = [] then skip else dispatch_snapshot_entries cb live False True),
              (\<lambda>s. case srv_pending_entries s of
                     None \<Rightarrow> (s, None)
                   | Some entries \<Rightarrow>
                       gate_or_dispatch_snapshot cb entries (srv_pending_goal s) True
                         (s\<lparr>srv_pending_entries := None, srv_pending_goal := False\<rparr>))] s)"

section \<open>Pay snapshots\<close>

text \<open>One row: \<open>None\<close> when it is skipped. A pay value that is no integer is skipped, not raised.\<close>

definition pay_row :: "json \<Rightarrow> (string \<times> int) option" where
  "pay_row j =
     (case j of
        JObj d \<Rightarrow>
          (case get_str d ''kingdom'' of
             None \<Rightarrow> None
           | Some k \<Rightarrow>
               if k = [] then None
               else (case int_of_json (json_get d ''pay'') of
                       Inl e \<Rightarrow> None
                     | Inr pay \<Rightarrow>
                         (let kingdom_ap = kingdom_switch_to_ap (Some k)
                          in if truthy kingdom_ap then Some (the kingdom_ap, max 0 pay) else None)))
      | _ \<Rightarrow> None)"

definition pay_totals :: "json list \<Rightarrow> (string, int) dict" where
  "pay_totals entries = dict_update_all (List.map_filter pay_row entries) []"

definition on_pay_snapshot_msg :: "'a server_scheme callbacks \<Rightarrow> check_dict \<Rightarrow> 'a server_scheme action" where
  "on_pay_snapshot_msg cb msg s =
     (case cb_pay_snapshot cb of
        None \<Rightarrow> (s, None)
      | Some handler \<Rightarrow>
          (case json_get msg ''entries'' of
             JList entries \<Rightarrow> try_catch (handler (pay_totals entries)) skip s
           | _ \<Rightarrow> send_active (Err \<lparr>err_code = ''bad_pay_snapshot'', err_ctx = ''entries''\<rparr>) s))"

section \<open>Dispatch\<close>

definition json_list :: "json \<Rightarrow> json list option" where
  "json_list j = (case j of JList js \<Rightarrow> Some js | _ \<Rightarrow> None)"

definition on_state_chunk :: "check_dict \<Rightarrow> 'a server_scheme \<Rightarrow> 'a server_scheme" where
  "on_state_chunk msg s =
     (let stage = hello_str msg ''stage_name''
      in if stage = ''_meta''
         then add_snapshot_chunk_meta (json_list (json_get msg ''captures''))
                (case json_get msg ''goal_reached'' of JNull \<Rightarrow> None | j \<Rightarrow> Some (json_truthy j)) s
         else add_snapshot_chunk_shines stage (or_default (json_list (json_get msg ''shines'')) []) s)"

definition log_line :: "string \<Rightarrow> check_dict \<Rightarrow> string" where
  "log_line device_id msg =
     ''[switch:'' @ device_id @ '':'' @ or_default (get_str msg ''level'') ''info'' @ ''] '' @ hello_str msg ''msg''"

definition dispatch_from ::
  "'a server_scheme callbacks \<Rightarrow> int \<Rightarrow> switch_conn \<Rightarrow> check_dict \<Rightarrow> 'a server_scheme action" where
  "dispatch_from cb now conn msg s =
     (let t = or_default (get_str msg ''t'') ''None''
      in if t = ''hello'' then (s, None)
         else if t = ''ping'' then send_to_conn conn (Pong (or_default (get_int msg ''ts_ms'') now)) s
         else if t = ''log'' then (add_log (log_line (conn_device_id conn) msg) s, None)
         else if srv_active s \<noteq> Some (conn_device_id conn) then (s, None)
         else if t = ''check'' then
           (if ap_not_ready cb s
            then (s\<lparr>srv_pending_live_checks := srv_pending_live_checks s @ [msg]\<rparr>, None)
            else ignore_value (dispatch_check cb msg False) s)
         else if t = ''goal'' then cb_goal cb s
         else if t = ''death'' then
           (case int_or_zero (json_get msg ''ts_ms'') of
              Inl e \<Rightarrow> (s, Some e)
            | Inr ts \<Rightarrow> (case cb_death cb of None \<Rightarrow> (s, None) | Some f \<Rightarrow> f ts s))
         else if t = ''status'' then
           (let k = kingdom_switch_to_ap (get_str msg ''kingdom'')
            in if truthy k then (fst (mark_kingdom_reached k s), None) else (s, None))
         else if t = ''state_begin'' then (begin_snapshot (get_int msg ''save_slot'') s, None)
         else if t = ''state_chunk'' then (on_state_chunk msg s, None)
         else if t = ''state_end'' then on_state_end cb s
         else if t = ''pay_snapshot'' then on_pay_snapshot_msg cb msg s
         else send_to_conn conn (Err \<lparr>err_code = ''unknown_kind'', err_ctx = t\<rparr>) s)"

text \<open>One line of the loop: whatever decoding or dispatching raises is answered with \<open>bad_message\<close>.\<close>

definition receive_line ::
  "'a server_scheme callbacks \<Rightarrow> int \<Rightarrow> switch_conn \<Rightarrow> string \<Rightarrow> 'a server_scheme action" where
  "receive_line cb now conn line =
     try_catch
       (\<lambda>s. case decode line of
              Inl e \<Rightarrow> (s, Some e)
            | Inr (JObj msg) \<Rightarrow> dispatch_from cb now conn msg s
            | Inr _ \<Rightarrow> (s, Some AttributeError))
       (send_to_conn conn (Err \<lparr>err_code = ''bad_message'', err_ctx = ''rx''\<rparr>))"

text \<open>One \<open>reader.read\<close> of the loop.\<close>

definition receive_chunk ::
  "'a server_scheme callbacks \<Rightarrow> int \<Rightarrow> switch_conn \<Rightarrow> string \<Rightarrow> string \<Rightarrow> 'a server_scheme \<Rightarrow>
     ('a server_scheme \<times> exn option) \<times> string" where
  "receive_chunk cb now conn buffer chunk s =
     (let (ls, b) = iter_lines (buffer @ chunk) in (for_each ls (receive_line cb now conn) s, b))"

section \<open>A connection from end to end\<close>

text \<open>The messages that came with the HELLO, each in its own \<open>try\<close>.\<close>

definition redispatch_leftovers :: "'a server_scheme callbacks \<Rightarrow> int \<Rightarrow> switch_conn \<Rightarrow> json list \<Rightarrow> 'a server_scheme action" where
  "redispatch_leftovers cb now conn left =
     for_each left (\<lambda>m. try_catch (case m of JObj d \<Rightarrow> dispatch_from cb now conn d | _ \<Rightarrow> raise_exn AttributeError) skip)"

text \<open>The dispatch loop over the reads of a connection, up to the end of the stream.\<close>

fun dispatch_loop ::
  "'a server_scheme callbacks \<Rightarrow> int \<Rightarrow> switch_conn \<Rightarrow> string \<Rightarrow> string list \<Rightarrow> 'a server_scheme action" where
  "dispatch_loop cb now conn buffer [] s = (s, None)"
| "dispatch_loop cb now conn buffer (chunk # rest) s =
     (case receive_chunk cb now conn buffer chunk s of
        ((s', None), b) \<Rightarrow> dispatch_loop cb now conn b rest s'
      | ((s', Some e), b) \<Rightarrow> (s', Some e))"

text \<open>\<open>_handle_client\<close> for a peer whose reads are \<open>reads\<close>, when no other task runs in between.\<close>

definition handle_client ::
  "'a server_scheme callbacks \<Rightarrow> int \<Rightarrow> nat \<Rightarrow> string \<Rightarrow> string list \<Rightarrow> 'a server_scheme action" where
  "handle_client cb now w peer_ip reads s =
     (case await_hello reads [] [] of
        Inl e \<Rightarrow> (s, Some e)
      | Inr None \<Rightarrow> (close_writer w s, None)
      | Inr (Some (hello, left, buffer, rest)) \<Rightarrow>
          (case handle_hello cb now w peer_ip hello s of
             (s, Inl e) \<Rightarrow> (s, Some e)
           | (s, Inr None) \<Rightarrow> (s, None)
           | (s, Inr (Some conn)) \<Rightarrow>
               (case seq [redispatch_leftovers cb now conn left, dispatch_loop cb now conn buffer rest] s of
                  (s, None) \<Rightarrow> handle_disconnect cb conn s
                | (s, Some e) \<Rightarrow> (case handle_disconnect cb conn s of (s, None) \<Rightarrow> (s, Some e) | r \<Rightarrow> r))))"

end
