(* ===== verification/Switch_Safety.thy ===== *)
theory Switch_Safety
  imports Switch_Dispatch
begin

text \<open>
  What the Switch server promises: which of its state a message can touch, that the dispatch loop
  survives every input, that the registry and the active slot stay consistent, and what a Switch is
  sent when it becomes the active one. The contract the server expects of its callbacks is the locale
  \<open>registry_env\<close>; the client context provides it.
\<close>

section \<open>What sending touches\<close>

text \<open>\<open>t\<close> is \<open>s\<close> with other writers: nothing else of the state differs.\<close>

definition writers_only :: "'a server_scheme \<Rightarrow> 'a server_scheme \<Rightarrow> bool" where
  "writers_only s t \<longleftrightarrow> t = s\<lparr>writers := writers t\<rparr>"

lemma writers_only_refl [simp]: "writers_only s s"
  by (simp add: writers_only_def)

lemma writers_onlyI [simp]: "writers_only s (s\<lparr>writers := f\<rparr>)"
  by (simp add: writers_only_def)

lemma writers_onlyE: "writers_only s t \<Longrightarrow> (\<And>f. t = s\<lparr>writers := f\<rparr> \<Longrightarrow> P) \<Longrightarrow> P"
  unfolding writers_only_def by blast

lemma writers_only_trans: "writers_only s t \<Longrightarrow> writers_only t u \<Longrightarrow> writers_only s u"
  by (auto elim!: writers_onlyE)

lemma send_to_conn_other: "w \<noteq> conn_writer c \<Longrightarrow> writers (fst (send_to_conn c m s)) w = writers s w"
  by (simp add: send_to_conn_def close_writer_def Let_def split: sum.splits)

lemma send_to_conn_writers_only: "writers_only s (fst (send_to_conn c m s))"
  by (simp add: send_to_conn_def close_writer_def Let_def split: sum.splits)

lemma send_active_writers_only: "writers_only s (fst (send_active m s))"
  by (simp add: send_active_def send_to_conn_writers_only split: option.splits)

lemma for_each_writers_only:
  assumes "\<And>x t. writers_only t (fst (b x t))"
  shows "writers_only s (fst (for_each xs b s))"
  by (rule for_each_invariant [where P = "writers_only s"]) (auto intro: writers_only_trans assms)

lemmas send_writers_only = send_to_conn_writers_only send_active_writers_only

section \<open>The registry\<close>

type_synonym registry =
  "(string, switch_conn) dict \<times> string option \<times> (string, switch_entry) dict \<times> string option \<times> string"

definition registry_of :: "'a server_scheme \<Rightarrow> registry" where
  "registry_of s = (connections s, srv_active s, switches s, active_device_id s, srv_client_ver s)"

lemma registry_writers_only: "writers_only s t \<Longrightarrow> registry_of t = registry_of s"
  by (auto simp: registry_of_def elim: writers_onlyE)

lemma registry_send [frame_simps]:
  "registry_of (fst (send_to_conn c m s)) = registry_of s"
  "registry_of (fst (send_active m s)) = registry_of s"
  "registry_of (close_writer w s) = registry_of s"
  by (auto intro!: registry_writers_only simp: send_writers_only close_writer_def)

lemma registry_state [frame_simps]:
  "registry_of (add_log t s) = registry_of s"
  "registry_of (fst (add_checked_location e s)) = registry_of s"
  "registry_of (fst (mark_kingdom_reached k s)) = registry_of s"
  "registry_of (begin_snapshot i s) = registry_of s"
  "registry_of (fst (end_snapshot s)) = registry_of s"
  "registry_of (add_snapshot_chunk_shines st js s) = registry_of s"
  "registry_of (add_snapshot_chunk_meta cs g s) = registry_of s"
  "registry_of (clear_held s) = registry_of s"
  "registry_of (set_switch_conn c s) = registry_of s"
  "registry_of (notify_switches_changed s) = registry_of s"
  by (simp_all add: registry_of_def state_op_defs clear_held_def notify_switches_changed_def Let_def
        split: option.splits)

lemma registry_seq:
  assumes "\<And>a s. a \<in> set as \<Longrightarrow> registry_of (fst (a s)) = registry_of s"
  shows "registry_of (fst (seq as s)) = registry_of s"
  using seq_invariant [where P = "\<lambda>t. registry_of t = registry_of s" and as = as and s = s] assms by simp

lemma registry_for_each:
  assumes "\<And>x s. registry_of (fst (b x s)) = registry_of s"
  shows "registry_of (fst (for_each xs b s)) = registry_of s"
  using for_each_invariant [where P = "\<lambda>t. registry_of t = registry_of s" and xs = xs and b = b and s = s]
    assms by simp

lemma registry_for_each_send [frame_simps]:
  "registry_of (fst (for_each xs (\<lambda>x. send_active (f x)) s)) = registry_of s"
  "registry_of (fst (for_each xs (\<lambda>x. send_to_conn c (f x)) s)) = registry_of s"
  by (rule registry_for_each, simp add: frame_simps)+

lemma registry_push [frame_simps]:
  "registry_of (fst (push_capturesanity_replay cb s)) = registry_of s"
  "registry_of (fst (push_coin_grant s)) = registry_of s"
  "registry_of (fst (push_ability_state s)) = registry_of s"
  "registry_of (fst (push_shop_labels s)) = registry_of s"
  "registry_of (fst (push_kingdom_gates s)) = registry_of s"
  "registry_of (fst (push_entrance_map cb s)) = registry_of s"
  "registry_of (fst (send_outstanding_reading cb c s)) = registry_of s"
  "registry_of (fst (send_item_backlog c s)) = registry_of s"
  by (simp_all add: push_capturesanity_replay_def push_coin_grant_def push_ability_state_def push_shop_labels_def
      push_kingdom_gates_def push_entrance_map_def send_outstanding_reading_def send_item_backlog_def Let_def
      case_prod_unfold frame_simps split: option.splits)

lemma registry_update [simp]:
  "registry_of (s\<lparr>talkatoo_ever_shipped := x\<rparr>) = registry_of s"
  "registry_of (s\<lparr>reconcile_pending := ls\<rparr>) = registry_of s"
  "registry_of (s\<lparr>srv_pending_live_checks := es\<rparr>) = registry_of s"
  "registry_of (s\<lparr>srv_pending_entries := oes\<rparr>) = registry_of s"
  "registry_of (s\<lparr>srv_pending_goal := b\<rparr>) = registry_of s"
  "registry_of (s\<lparr>held_entries := oes\<rparr>) = registry_of s"
  "registry_of (s\<lparr>held_goal := b\<rparr>) = registry_of s"
  "registry_of (s\<lparr>held_from_reconcile := b\<rparr>) = registry_of s"
  by (simp_all add: registry_of_def)

lemma registry_talkatoo [frame_simps]: "registry_of (fst (push_talkatoo_pool s)) = registry_of s"
  unfolding push_talkatoo_pool_def Let_def
  by (auto intro!: registry_seq simp: frame_simps update_def case_prod_unfold simp del: seq.simps)

lemma registry_replay [frame_simps]: "registry_of (fst (run_post_hello_replay cb c s)) = registry_of s"
  unfolding run_post_hello_replay_def
  by (rule registry_seq) (auto simp: frame_simps)

lemma registry_policy [frame_simps]: "registry_of (fst (policy_check_version c m s)) = registry_of s"
  by (auto simp: policy_check_version_def Let_def value_defs split: prod.splits option.splits)
    (metis fst_conv registry_send(1) registry_state(1))+

lemma registry_check_label [frame_simps]:
  "registry_of (fst (send_check_label cb m f al l s)) = registry_of s"
  by (simp add: send_check_label_def Let_def frame_simps)

lemma registry_fire [frame_simps]: "registry_of (fst (fire_pending b ls s)) = registry_of s"
  by (induction ls arbitrary: s)
    (auto simp: frame_simps case_prod_unfold Let_def split: sum.splits option.splits)

lemma registry_try_fire [frame_simps]: "registry_of (try_fire_reconcile_cappy cb s) = registry_of s"
  by (simp add: try_fire_reconcile_cappy_def case_prod_unfold Let_def frame_simps split: option.splits)

section \<open>The contract of the callbacks\<close>

locale registry_env =
  fixes cb :: "'a server_scheme callbacks"
  assumes check_keeps: "registry_of (fst (cb_check cb m s)) = registry_of s"
    and goal_keeps: "registry_of (fst (cb_goal cb s)) = registry_of s"
    and death_keeps: "cb_death cb = Some f \<Longrightarrow> registry_of (fst (f t s)) = registry_of s"
    and pay_keeps: "cb_pay_snapshot cb = Some g \<Longrightarrow> registry_of (fst (g totals s)) = registry_of s"
begin

lemma bind_keeps:
  assumes "\<And>s. registry_of (fst (f s)) = registry_of s" "\<And>x s. registry_of (fst (g x s)) = registry_of s"
  shows "registry_of (fst (bind_value f g s)) = registry_of s"
  using assms(1) [of s] assms(2) by (auto simp: bind_value_def split: prod.splits sum.splits)

lemma then_keeps:
  assumes "\<And>s. registry_of (fst (f s)) = registry_of s" "\<And>s. registry_of (fst (g s)) = registry_of s"
  shows "registry_of (fst (then_value f g s)) = registry_of s"
  using assms(1) [of s] assms(2) by (auto simp: then_value_def split: prod.splits option.splits)

lemma ignore_keeps:
  "registry_of (fst (f s)) = registry_of s \<Longrightarrow> registry_of (fst (ignore_value f s)) = registry_of s"
  by (auto simp: ignore_value_def split: prod.splits sum.splits)

lemma dispatch_check_keeps: "registry_of (fst (dispatch_check cb m f s)) = registry_of s"
  unfolding dispatch_check_def
  by (auto intro!: bind_keeps then_keeps simp: check_keeps frame_simps split: sum.split)

lemma dispatch_entries_keeps: "registry_of (fst (dispatch_entries cb r pre es fr s)) = registry_of s"
proof (induction es arbitrary: fr s)
  case (Cons e es)
  have "registry_of t = registry_of s" if "dispatch_check cb m True s = (t, x)" for m t x
    using dispatch_check_keeps [of m True s] that by simp
  then show ?case by (simp add: Cons.IH split: prod.splits sum.splits)
qed simp

lemma dispatch_snapshot_keeps: "registry_of (fst (dispatch_snapshot_entries cb es g r s)) = registry_of s"
  unfolding dispatch_snapshot_entries_def Let_def
  by (intro ignore_keeps bind_keeps then_keeps)
    (simp_all add: dispatch_entries_keeps goal_keeps skip_def frame_simps)

lemma gate_keeps: "registry_of (fst (gate_or_dispatch_snapshot cb es g r s)) = registry_of s"
  by (simp add: gate_or_dispatch_snapshot_def Let_def case_prod_unfold dispatch_snapshot_keeps frame_simps)

lemma confirm_keeps: "registry_of (fst (confirm_pending_snapshot cb s)) = registry_of s"
proof (cases "held_entries s")
  case (Some es)
  have "registry_of (fst (then_value (dispatch_snapshot_entries cb es (held_goal s) (held_from_reconcile s))
      (\<lambda>s. (s, Inr True)) (clear_held s))) = registry_of (clear_held s)"
    by (rule then_keeps) (simp_all add: dispatch_snapshot_keeps)
  then show ?thesis by (simp add: confirm_pending_snapshot_def Some frame_simps)
qed (simp add: confirm_pending_snapshot_def)

lemma drain_keeps: "registry_of (fst (drain_pending_snapshot cb s)) = registry_of s"
  unfolding drain_pending_snapshot_def Let_def
  by (rule registry_seq)
    (auto simp: update_def skip_def dispatch_snapshot_keeps gate_keeps split: option.splits)

lemma state_end_keeps: "registry_of (fst (on_state_end cb s)) = registry_of s"
  by (simp add: on_state_end_def Let_def case_prod_unfold gate_keeps frame_simps)

lemma try_keeps:
  assumes "\<And>s. registry_of (fst (a s)) = registry_of s" "\<And>s. registry_of (fst (h s)) = registry_of s"
  shows "registry_of (fst (try_catch a h s)) = registry_of s"
  using assms(1) [of s] assms(2) by (auto simp: try_catch_def split: prod.splits option.splits)

lemma pay_msg_keeps: "registry_of (fst (on_pay_snapshot_msg cb m s)) = registry_of s"
proof -
  have "registry_of (fst (try_catch (f t) skip s)) = registry_of s" if "cb_pay_snapshot cb = Some f" for f t
    by (rule try_keeps) (simp_all add: pay_keeps [OF that] skip_def)
  then show ?thesis by (simp add: on_pay_snapshot_msg_def frame_simps split: option.splits json.splits)
qed

lemma dispatch_keeps: "registry_of (fst (dispatch_from cb now c m s)) = registry_of s"
  unfolding dispatch_from_def Let_def on_state_chunk_def
  by (simp add: frame_simps goal_keeps state_end_keeps pay_msg_keeps death_keeps
      ignore_keeps dispatch_check_keeps split: sum.splits option.splits)

lemma line_keeps: "registry_of (fst (receive_line cb now c l s)) = registry_of s"
  unfolding receive_line_def
  by (rule try_keeps) (auto simp: frame_simps dispatch_keeps split: sum.splits json.splits)

end

section \<open>The registry stays consistent\<close>

text \<open>The server's connections and the GUI's list name the same Switches in the same order, each under
  its own id and with a writer of its own, and the GUI's active Switch is one of them.\<close>

definition reg_ok :: "registry \<Rightarrow> bool" where
  "reg_ok r = (case r of (conns, act, sws, gui, ver) \<Rightarrow>
     dict_ok conns \<and> dict_keys conns = dict_keys sws \<and>
     list_all (\<lambda>(d, c). conn_device_id c = d) conns \<and> distinct (map (\<lambda>(d, c). conn_writer c) conns) \<and>
     (gui = None \<or> the gui \<in> set (dict_keys conns) \<and> act = gui))"

text \<open>The active slot of the server is free or held by a connected Switch, the one the GUI shows.\<close>

definition slot_ok :: "registry \<Rightarrow> bool" where
  "slot_ok r = (case r of (conns, act, sws, gui, ver) \<Rightarrow> act = gui)"

lemma keys_update: "dict_keys d = dict_keys e \<Longrightarrow> dict_keys (dict_set k v d) = dict_keys (dict_set k w e)"
proof (induction d arbitrary: e)
  case Nil
  then show ?case by simp
next
  case (Cons p d)
  then show ?case by (cases e; cases p; cases "hd e") auto
qed

lemma keys_pop: "dict_keys d = dict_keys e \<Longrightarrow> dict_keys (dict_pop k d) = dict_keys (dict_pop k e)"
proof (induction d arbitrary: e)
  case Nil
  then show ?case by simp
next
  case (Cons p d)
  then show ?case by (cases e; cases p; cases "hd e") auto
qed

lemma keys_get: "dict_keys d = dict_keys e \<Longrightarrow> dict_get d k = None \<longleftrightarrow> dict_get e k = None"
  by (simp add: dict_get_None_iff)

lemma list_all_set: "list_all P d \<Longrightarrow> P (k, v) \<Longrightarrow> list_all P (dict_set k v d)"
  by (induction d) auto

lemma list_all_pop: "list_all P d \<Longrightarrow> list_all P (dict_pop k d)"
  by (induction d) auto

lemma set_values_set: "set (map f (dict_set k v d)) \<subseteq> insert (f (k, v)) (set (map f d))"
  by (induction d) auto

lemma distinct_values_set:
  "distinct (map f d) \<Longrightarrow> f (k, v) \<notin> set (map f d) \<Longrightarrow> distinct (map f (dict_set k v d))"
proof (induction d)
  case (Cons p d)
  then show ?case using set_values_set [of f k v d] by (cases p) auto
qed simp

lemma distinct_values_pop: "distinct (map f d) \<Longrightarrow> distinct (map f (dict_pop k d))"
  unfolding AList.delete_eq by (rule distinct_map_filter_fst)

lemma reg_okI:
  assumes "dict_ok C" "dict_keys C = dict_keys S" "list_all (\<lambda>(d, c). conn_device_id c = d) C"
    "distinct (map (\<lambda>(d, c). conn_writer c) C)" "g = None \<or> the g \<in> set (dict_keys C) \<and> a = g"
  shows "reg_ok (C, a, S, g, v)"
  unfolding reg_ok_def prod.case using assms by blast

lemma reg_okE:
  assumes "reg_ok (C, a, S, g, v)"
  obtains "dict_ok C" "dict_keys C = dict_keys S" "list_all (\<lambda>(d, c). conn_device_id c = d) C"
    "distinct (map (\<lambda>(d, c). conn_writer c) C)" "g = None \<or> the g \<in> set (dict_keys C) \<and> a = g"
  using assms unfolding reg_ok_def prod.case by blast

lemma reg_ok_pop:
  assumes "reg_ok (C, a, S, g, v)"
  shows "reg_ok (dict_pop d C, a, dict_pop d S, if g = Some d then None else g, v)"
  using assms
proof (rule reg_okE)
  assume *: "dict_ok C" "dict_keys C = dict_keys S" "list_all (\<lambda>(d, c). conn_device_id c = d) C"
    "distinct (map (\<lambda>(d, c). conn_writer c) C)" "g = None \<or> the g \<in> set (dict_keys C) \<and> a = g"
  show ?thesis
  proof (rule reg_okI)
    show "dict_ok (dict_pop d C)" using *(1) by simp
    show "dict_keys (dict_pop d C) = dict_keys (dict_pop d S)" using *(2) by (rule keys_pop)
    show "list_all (\<lambda>(d, c). conn_device_id c = d) (dict_pop d C)" using *(3) by (rule list_all_pop)
    show "distinct (map (\<lambda>(d, c). conn_writer c) (dict_pop d C))" using *(4) by (rule distinct_values_pop)
    show "(if g = Some d then None else g) = None \<or> the (if g = Some d then None else g) \<in> set (dict_keys (dict_pop d C)) \<and>
        a = (if g = Some d then None else g)"
      using *(5) by (cases "g = Some d") auto
  qed
qed

lemma reg_ok_drop:
  "reg_ok (registry_of s) \<Longrightarrow> reg_ok (registry_of (drop_registration d s))"
  unfolding registry_of_def drop_registration_def unregister_switch_def Let_def
  by (drule reg_ok_pop [of _ _ _ _ _ d]) (simp split del: if_split, simp split: if_split_asm)

lemma reg_ok_active:
  assumes "reg_ok (C, a, S, g, v)" "x = None \<or> (\<exists>d. x = Some d \<and> d \<in> set (dict_keys C))"
  shows "reg_ok (C, x, S, x, v)"
  using assms(1)
proof (rule reg_okE)
  assume *: "dict_ok C" "dict_keys C = dict_keys S" "list_all (\<lambda>(d, c). conn_device_id c = d) C"
    "distinct (map (\<lambda>(d, c). conn_writer c) C)"
  have "x = None \<or> the x \<in> set (dict_keys C) \<and> x = x" using assms(2) by fastforce
  with *(1-4) show ?thesis by (rule reg_okI)
qed

lemma reg_ok_activate:
  assumes "reg_ok (registry_of s)" "dict_get (connections s) d \<noteq> None"
  shows "registry_of (set_active_switch (Some d) (s\<lparr>srv_active := Some d\<rparr>)) =
      (connections s, Some d, switches s, Some d, srv_client_ver s)"
    "reg_ok (connections s, Some d, switches s, Some d, srv_client_ver s)"
proof -
  have "dict_keys (connections s) = dict_keys (switches s)"
    using assms(1) unfolding registry_of_def by (rule reg_okE)
  then have "dict_get (switches s) d \<noteq> None" using assms(2) keys_get [of "connections s" "switches s"] by simp
  then show "registry_of (set_active_switch (Some d) (s\<lparr>srv_active := Some d\<rparr>)) =
      (connections s, Some d, switches s, Some d, srv_client_ver s)"
    by (auto simp: registry_of_def set_active_switch_def)
  show "reg_ok (connections s, Some d, switches s, Some d, srv_client_ver s)"
    using assms(1) unfolding registry_of_def
    by (rule reg_ok_active) (use assms(2) in \<open>simp add: dict_get_None_iff\<close>)
qed

lemma reg_ok_unbind:
  assumes "reg_ok (registry_of s)"
  shows "registry_of (set_active_switch None (s\<lparr>srv_active := None\<rparr>)) =
      (connections s, None, switches s, None, srv_client_ver s)"
    "reg_ok (connections s, None, switches s, None, srv_client_ver s)"
  using assms by (auto simp: registry_of_def set_active_switch_def intro: reg_ok_active)

definition conn_writers :: "'a server_scheme \<Rightarrow> nat list" where
  "conn_writers s = map (\<lambda>(d, c). conn_writer c) (connections s)"

lemma reg_ok_set:
  assumes "reg_ok (C, a, S, g, v)" "conn_device_id c = d" "conn_writer c \<notin> set (map (\<lambda>(d, c). conn_writer c) C)"
  shows "reg_ok (dict_set d c C, a, dict_set d e S, g, v)"
  using assms(1)
proof (rule reg_okE)
  assume *: "dict_ok C" "dict_keys C = dict_keys S" "list_all (\<lambda>(d, c). conn_device_id c = d) C"
    "distinct (map (\<lambda>(d, c). conn_writer c) C)" "g = None \<or> the g \<in> set (dict_keys C) \<and> a = g"
  show ?thesis
  proof (rule reg_okI)
    show "dict_ok (dict_set d c C)" using *(1) by simp
    show "dict_keys (dict_set d c C) = dict_keys (dict_set d e S)" using *(2) by (rule keys_update)
    show "list_all (\<lambda>(d, c). conn_device_id c = d) (dict_set d c C)" using *(3) assms(2) by (auto intro: list_all_set)
    show "distinct (map (\<lambda>(d, c). conn_writer c) (dict_set d c C))"
      using *(4) assms(3) by (intro distinct_values_set) simp_all
    show "g = None \<or> the g \<in> set (dict_keys (dict_set d c C)) \<and> a = g" using *(5) by auto
  qed
qed

lemma register_connection_fields:
  "connections (register_connection now c s) = dict_set (conn_device_id c) c (connections s)"
  "srv_active (register_connection now c s) = srv_active s"
  "active_device_id (register_connection now c s) = active_device_id s"
  "srv_client_ver (register_connection now c s) = srv_client_ver s"
  by (simp_all add: register_connection_def register_switch_def close_writer_def Let_def split: option.splits)

lemma reg_ok_register:
  assumes "reg_ok (registry_of s)" "conn_writer c \<notin> set (conn_writers s)"
  shows "reg_ok (registry_of (register_connection now c s))"
  using reg_ok_set [of "connections s" "srv_active s" "switches s" "active_device_id s" "srv_client_ver s" c] assms
  by (simp add: registry_of_def register_connection_def register_switch_def close_writer_def Let_def conn_writers_def
      split: option.splits)

section \<open>The server's steps\<close>

text \<open>One step of the server: a connection arrives (on a writer no other connection uses, its hello of the
  kind \<open>hello_ok\<close> allows), a line is handled, a connection ends, the user rebinds the active Switch,
  confirms or rejects the held snapshot, or the AP side runs a handler, which sends and writes its own
  state and leaves the registry alone.\<close>

inductive server_step ::
  "'a server_scheme callbacks \<Rightarrow> (check_dict \<Rightarrow> string \<Rightarrow> bool) \<Rightarrow> 'a server_scheme \<Rightarrow> 'a server_scheme \<Rightarrow> bool"
  for cb hello_ok where
  step_hello: "w \<notin> set (conn_writers s) \<Longrightarrow> hello_ok hello (srv_client_ver s) \<Longrightarrow>
     server_step cb hello_ok s (fst (handle_hello cb now w ip hello s))"
| step_line: "server_step cb hello_ok s (fst (receive_line cb now conn line s))"
| step_disconnect: "server_step cb hello_ok s (fst (handle_disconnect cb conn s))"
| step_set_active: "server_step cb hello_ok s (fst (set_active cb d s))"
| step_confirm: "server_step cb hello_ok s (fst (confirm_pending_snapshot cb s))"
| step_reject: "server_step cb hello_ok s (fst (reject_pending_snapshot s))"
| step_drain: "server_step cb hello_ok s (fst (drain_pending_snapshot cb s))"
| step_ap_side: "registry_of t = registry_of s \<Longrightarrow> server_step cb hello_ok s t"

inductive_cases server_stepE: "server_step cb hello_ok s t"

inductive server_reach ::
  "'a server_scheme callbacks \<Rightarrow> (check_dict \<Rightarrow> string \<Rightarrow> bool) \<Rightarrow> 'a server_scheme \<Rightarrow> 'a server_scheme \<Rightarrow> bool"
  for cb hello_ok s0 where
  server_reach_refl: "server_reach cb hello_ok s0 s0"
| server_reach_step: "server_reach cb hello_ok s0 s \<Longrightarrow> server_step cb hello_ok s t \<Longrightarrow> server_reach cb hello_ok s0 t"

lemma then_value_registry:
  assumes "\<And>s. registry_of (fst (a s)) = registry_of s"
  shows "registry_of (fst (then_value a (\<lambda>s. (s, r)) s)) = registry_of s"
  using assms [of s] by (auto simp: then_value_def split: prod.splits option.splits)

lemma registry_handover:
  "registry_of (fst (seq [(case old of None \<Rightarrow> skip | Some c \<Rightarrow> send_to_conn c m),
     (case new of None \<Rightarrow> skip | Some c \<Rightarrow> seq [send_to_conn c Activate, run_post_hello_replay cb c]),
     update notify_switches_changed] s)) = registry_of s"
  by (rule registry_seq) (auto simp: frame_simps skip_def update_def simp del: seq.simps
      intro!: registry_seq split: option.splits)

lemma registry_set_active:
  assumes "reg_ok (registry_of s)"
  shows "registry_of (fst (set_active cb d s)) =
    (if (d \<noteq> None \<and> dict_get (connections s) (the d) = None) \<or> d = srv_active s then registry_of s
     else (connections s, d, switches s, d, srv_client_ver s))"
proof (cases "(d \<noteq> None \<and> dict_get (connections s) (the d) = None) \<or> d = srv_active s")
  case True
  then show ?thesis by (auto simp: set_active_def)
next
  case False
  have "registry_of (set_active_switch d (s\<lparr>srv_active := d\<rparr>)) = (connections s, d, switches s, d, srv_client_ver s)"
    using False reg_ok_activate(1) [OF assms] reg_ok_unbind(1) [OF assms] by (cases d) auto
  moreover have "registry_of (fst (set_active cb d s)) = registry_of (set_active_switch d (s\<lparr>srv_active := d\<rparr>))"
  proof -
    from False have "(d \<noteq> None \<and> dict_get (connections s) (the d) = None) = False" "(d = srv_active s) = False"
      by blast+
    then show ?thesis
      by (simp only: set_active_def Let_def if_False then_value_registry [OF registry_handover])
  qed
  ultimately show ?thesis using False by (simp only: if_False)
qed

lemma set_active_inv:
  assumes "reg_ok (registry_of s)"
  shows "reg_ok (registry_of (fst (set_active cb d s))) \<and>
    (slot_ok (registry_of s) \<longrightarrow> slot_ok (registry_of (fst (set_active cb d s))))"
proof -
  have "reg_ok (connections s, d, switches s, d, srv_client_ver s)"
    if "d = None \<or> dict_get (connections s) (the d) \<noteq> None"
    using assms that unfolding registry_of_def
    by (intro reg_ok_active [where x = d]) (assumption, cases d, auto simp: dict_get_None_iff)
  then show ?thesis using assms by (auto simp: registry_set_active slot_ok_def)
qed

lemma disconnect_inv:
  assumes "reg_ok (registry_of s)"
  shows "reg_ok (registry_of (fst (handle_disconnect cb c s))) \<and>
    (slot_ok (registry_of s) \<longrightarrow> slot_ok (registry_of (fst (handle_disconnect cb c s))))"
proof (cases "is_registered c (close_writer (conn_writer c) s)")
  case False
  then show ?thesis using assms by (simp add: handle_disconnect_def frame_simps)
next
  case True
  let ?d = "conn_device_id c"
  let ?s = "drop_registration ?d (close_writer (conn_writer c) s)"
  have ok: "reg_ok (registry_of ?s)" using assms by (intro reg_ok_drop) (simp add: frame_simps)
  have act: "srv_active ?s = srv_active s"
    by (simp add: drop_registration_def unregister_switch_def close_writer_def Let_def)
  show ?thesis
  proof (cases "srv_active s = Some ?d")
    case False
    have "registry_of ?s = (dict_pop ?d (connections s), srv_active s, dict_pop ?d (switches s),
        if active_device_id s = Some ?d then None else active_device_id s, srv_client_ver s)"
      by (simp add: registry_of_def drop_registration_def unregister_switch_def close_writer_def Let_def)
    then have "slot_ok (registry_of s) \<longrightarrow> slot_ok (registry_of ?s)"
      using False by (auto simp: slot_ok_def registry_of_def)
    then show ?thesis using True False act ok by (simp add: handle_disconnect_def Let_def frame_simps)
  next
    case active: True
    let ?t = "set_active_switch None (?s\<lparr>srv_active := None\<rparr>)"
    have t: "registry_of ?t = (connections ?s, None, switches ?s, None, srv_client_ver ?s)" "reg_ok (registry_of ?t)"
      using reg_ok_unbind [OF ok] by auto
    then have slot: "slot_ok (registry_of ?t)" by (simp add: slot_ok_def)
    have seq: "registry_of (fst (seq [ignore_value f, update notify_switches_changed] u)) = registry_of (fst (f u))"
      for f :: "'a server_scheme \<Rightarrow> 'a server_scheme \<times> (exn + bool)" and u
      by (simp add: ignore_value_def update_def frame_simps split: prod.splits sum.splits option.splits)
    have "reg_ok (registry_of (fst (set_active cb d ?t))) \<and> slot_ok (registry_of (fst (set_active cb d ?t)))" for d
      using set_active_inv [OF t(2), of cb d] slot by simp
    then show ?thesis using True active act t slot
      by (auto simp: handle_disconnect_def Let_def seq frame_simps simp del: seq.simps split: list.splits)
  qed
qed

definition version_accepted :: "check_dict \<Rightarrow> string \<Rightarrow> bool" where
  "version_accepted hello client_ver \<longleftrightarrow>
     client_ver = [] \<or> hello_str hello ''mod_ver'' = [] \<or> hello_str hello ''mod_ver'' = client_ver"

lemma policy_accepts:
  "version_accepted m (srv_client_ver s) \<Longrightarrow> policy_check_version c m s = (s, Inr True)"
  by (auto simp: policy_check_version_def version_accepted_def Let_def)

lemma policy_refuses:
  "\<not> version_accepted m (srv_client_ver s) \<Longrightarrow> snd (policy_check_version c m s) \<noteq> Inr True"
  by (auto simp: policy_check_version_def version_accepted_def Let_def then_value_def split: prod.splits option.splits)

lemma registry_bind_free:
  assumes "srv_active s = None"
  shows "registry_of (fst (bind_connection cb c s)) =
    registry_of (set_active_switch (Some (conn_device_id c)) (s\<lparr>srv_active := Some (conn_device_id c)\<rparr>))"
proof -
  let ?s = "set_switch_conn ''connecting'' (set_active_switch (Some (conn_device_id c)) (s\<lparr>srv_active := Some (conn_device_id c)\<rparr>))"
  have "bind_connection cb c s = seq [send_hello_ack c, update (set_switch_conn ''ready''),
      run_post_hello_replay cb c, update notify_switches_changed] ?s"
    by (simp add: bind_connection_def assms update_def)
  moreover have "registry_of (fst (seq [send_hello_ack c, update (set_switch_conn ''ready''),
      run_post_hello_replay cb c, update notify_switches_changed] ?s)) = registry_of ?s"
    by (rule registry_seq) (auto simp: frame_simps update_def send_hello_ack_def)
  ultimately show ?thesis by (simp only: registry_state)
qed

lemma registry_bind_taken:
  "srv_active s \<noteq> None \<Longrightarrow> registry_of (fst (bind_connection cb c s)) = registry_of s"
  unfolding bind_connection_def
  by (auto simp: frame_simps update_def send_hello_ack_def simp del: seq.simps intro!: registry_seq)

lemma bind_inv:
  assumes "reg_ok (registry_of s)" "dict_get (connections s) (conn_device_id c) \<noteq> None"
  shows "reg_ok (registry_of (fst (bind_connection cb c s))) \<and>
    (slot_ok (registry_of s) \<longrightarrow> slot_ok (registry_of (fst (bind_connection cb c s))))"
proof (cases "srv_active s = None")
  case True
  from reg_ok_activate [OF assms] show ?thesis by (simp add: registry_bind_free [OF True] slot_ok_def)
next
  case False
  then show ?thesis using assms by (simp add: registry_bind_taken)
qed

lemma refuse_inv: "reg_ok (registry_of s) \<Longrightarrow> reg_ok (registry_of (refuse_connection c s))"
  by (simp add: refuse_connection_def frame_simps reg_ok_drop)

lemma slot_ok_register:
  "slot_ok (registry_of s) \<Longrightarrow> slot_ok (registry_of (register_connection now c s))"
  by (simp add: slot_ok_def registry_of_def register_connection_fields)

lemma hello_inv:
  assumes "reg_ok (registry_of s)" "w \<notin> set (conn_writers s)"
  shows "reg_ok (registry_of (fst (handle_hello cb now w ip hello s)))"
    "version_accepted hello (srv_client_ver s) \<Longrightarrow> slot_ok (registry_of s) \<Longrightarrow>
       slot_ok (registry_of (fst (handle_hello cb now w ip hello s)))"
proof -
  define c where "c = \<lparr>conn_device_id = effective_device_id ip hello s, conn_peer_ip = ip, conn_writer = w, conn_hello = hello\<rparr>"
  define s1 where "s1 = register_connection now c s"
  have ok: "reg_ok (registry_of s1)" unfolding s1_def by (rule reg_ok_register) (simp_all add: assms c_def)
  obtain s2 r where p: "policy_check_version c hello s1 = (s2, r)" by fastforce
  with registry_policy [of c hello s1] have r2: "registry_of s2 = registry_of s1" by simp
  with ok have ok2: "reg_ok (registry_of s2)" by simp
  have "connections s2 = connections s1" using r2 by (simp add: registry_of_def)
  then have in2: "dict_get (connections s2) (conn_device_id c) \<noteq> None"
    by (simp add: s1_def register_connection_fields)
  have run: "handle_hello cb now w ip hello s =
      (case r of Inl e \<Rightarrow> (s2, Inl e)
       | Inr ok \<Rightarrow> if ok then then_value (bind_connection cb c) (\<lambda>s. (s, Inr (Some c))) s2
                   else (refuse_connection c s2, Inr None))"
    using p by (simp add: handle_hello_def bind_value_def Let_def c_def [symmetric] s1_def [symmetric] split: sum.split)
  have then_fst: "fst (then_value (bind_connection cb c) (\<lambda>s. (s, Inr (Some c))) s2) = fst (bind_connection cb c s2)"
    by (simp add: then_value_def split: prod.splits option.splits)
  show "reg_ok (registry_of (fst (handle_hello cb now w ip hello s)))"
    using bind_inv [OF ok2 in2, of cb] refuse_inv [OF ok2] ok2
    by (simp add: run then_fst split: sum.split)
  assume acc: "version_accepted hello (srv_client_ver s)" and "slot_ok (registry_of s)"
  then have slot: "slot_ok (registry_of s1)" by (simp add: s1_def slot_ok_register)
  from acc have r: "s2 = s1" "r = Inr True"
    using policy_accepts [of hello s1 c] p by (auto simp: s1_def register_connection_fields)
  have "fst (handle_hello cb now w ip hello s) = fst (bind_connection cb c s2)"
    by (simp add: run r(2) then_fst)
  with bind_inv [OF ok2 in2, of cb] slot r(1)
  show "slot_ok (registry_of (fst (handle_hello cb now w ip hello s)))" by simp
qed

context registry_env begin

lemma step_inv:
  assumes "server_step cb V s t" "reg_ok (registry_of s)"
  shows "reg_ok (registry_of t)"
  using assms
proof (cases rule: server_step.cases)
  case (step_hello w hello now ip)
  with assms(2) show ?thesis by (simp add: hello_inv)
next
  case step_reject
  with assms(2) show ?thesis by (simp add: reject_pending_snapshot_def frame_simps)
qed (use assms(2) in \<open>simp_all add: line_keeps disconnect_inv set_active_inv confirm_keeps drain_keeps\<close>)

lemma step_slot:
  assumes "server_step cb version_accepted s t" "reg_ok (registry_of s)" "slot_ok (registry_of s)"
  shows "slot_ok (registry_of t)"
  using assms
proof (cases rule: server_step.cases)
  case (step_hello w hello now ip)
  with assms(2,3) show ?thesis by (simp add: hello_inv)
next
  case step_reject
  with assms(3) show ?thesis by (simp add: reject_pending_snapshot_def frame_simps)
qed (use assms(2,3) in \<open>simp_all add: line_keeps disconnect_inv set_active_inv confirm_keeps drain_keeps\<close>)

lemma reach_inv: "server_reach cb V s t \<Longrightarrow> reg_ok (registry_of s) \<Longrightarrow> reg_ok (registry_of t)"
  by (induction rule: server_reach.induct) (auto intro: step_inv)

lemma reach_slot:
  "server_reach cb version_accepted s t \<Longrightarrow> reg_ok (registry_of s) \<Longrightarrow> slot_ok (registry_of s) \<Longrightarrow>
     slot_ok (registry_of t)"
  by (induction rule: server_reach.induct) (auto intro: step_slot reach_inv)

end

section \<open>A Switch that is not active\<close>

definition contained :: "nat \<Rightarrow> 'a server_scheme \<Rightarrow> 'a server_scheme \<Rightarrow> bool" where
  "contained w s t \<longleftrightarrow>
     t = s\<lparr>last_messages := last_messages t, writers := (writers s)(w := writers t w)\<rparr>"

lemma containedI: "contained w s (s\<lparr>last_messages := ms, writers := (writers s)(w := x)\<rparr>)"
  by (simp add: contained_def)

lemma containedE:
  assumes "contained w s t"
  obtains ms x where "t = s\<lparr>last_messages := ms, writers := (writers s)(w := x)\<rparr>"
  using assms unfolding contained_def by blast

lemma contained_refl [simp]: "contained w s s"
  by (simp add: contained_def)

lemma contained_trans: "contained w s t \<Longrightarrow> contained w t u \<Longrightarrow> contained w s u"
  by (elim containedE) (simp add: containedI)

lemma contained_active: "contained w s t \<Longrightarrow> srv_active t = srv_active s"
  by (elim containedE) simp

lemma contained_send: "contained (conn_writer c) s (fst (send_to_conn c m s))"
  by (simp add: contained_def send_to_conn_def close_writer_def Let_def split: sum.split)

lemma contained_log: "contained w s (add_log x s)"
  by (simp add: contained_def add_log_def Let_def)

lemma contained_dispatch:
  "srv_active s \<noteq> Some (conn_device_id c) \<Longrightarrow> contained (conn_writer c) s (fst (dispatch_from cb now c m s))"
  by (simp add: dispatch_from_def Let_def contained_send contained_log)

lemma contained_line:
  assumes "srv_active s \<noteq> Some (conn_device_id c)"
  shows "contained (conn_writer c) s (fst (receive_line cb now c l s))"
proof -
  let ?a = "\<lambda>s. case decode l of Inl e \<Rightarrow> (s, Some e) | Inr (JObj msg) \<Rightarrow> dispatch_from cb now c msg s
    | Inr _ \<Rightarrow> (s, Some AttributeError)"
  obtain s' r where a: "?a s = (s', r)" by fastforce
  have "contained (conn_writer c) s (fst (?a s))"
    using contained_dispatch [OF assms] by (simp split: sum.splits json.splits)
  with a have "contained (conn_writer c) s s'" by simp
  then have "contained (conn_writer c) s (fst (send_to_conn c m s'))" for m
    by (rule contained_trans) (rule contained_send)
  with \<open>contained (conn_writer c) s s'\<close> show ?thesis
    by (simp only: receive_line_def try_catch_def a prod.case) (simp split: option.split)
qed

section \<open>A sample server\<close>

definition sample_hello :: "string \<Rightarrow> check_dict" where
  "sample_hello ver = [(''t'', JStr ''hello''), (''mod_ver'', JStr ver), (''device_id'', JStr ''sw'')]"

definition sample_conn :: switch_conn where
  "sample_conn = \<lparr>conn_device_id = ''sw'', conn_peer_ip = ''10.0.0.5'', conn_writer = 1, conn_hello = sample_hello ''1.0''\<rparr>"

text \<open>A server with one Switch, which is active.\<close>

definition sample_server :: server where
  "sample_server = (init_server ''1.0'' False True)\<lparr>connections := [(''sw'', sample_conn)], srv_active := Some ''sw'',
     switches := [(''sw'', \<lparr>sw_device_id = ''sw'', sw_peer_ip = ''10.0.0.5'', sw_mod_ver = ''1.0'', sw_smo_ver = [], sw_last_seen = 0\<rparr>)],
     active_device_id := Some ''sw''\<rparr>"

definition idle_callbacks :: "'a server_scheme callbacks" where
  "idle_callbacks = \<lparr>cb_check = (\<lambda>m s. (s, Inr None)), cb_goal = skip, cb_death = None, cb_compose_label = None,
     cb_pay_snapshot = None, cb_outstanding = None, cb_all_captures = None, cb_ap_ready = None,
     cb_reconcile_item = None, cb_already_checked = None, cb_resolve_entry = None, cb_goal_finished = None,
     cb_stages = []\<rparr>"

section \<open>Properties\<close>

text \<open>C19 A Switch that is not the active one is contained: whatever bytes it sends, only its own writer
  and the message log change. Nothing is checked, credited, buffered or sent to another Switch or to AP.\<close>

theorem inactive_switch_contained:
  assumes "srv_active s \<noteq> Some (conn_device_id c)"
  shows "let t = fst (fst (receive_chunk cb now c buffer chunk s))
    in t = s\<lparr>last_messages := last_messages t,
             writers := (writers s)(conn_writer c := writers t (conn_writer c))\<rparr>"
proof -
  have "contained (conn_writer c) s t \<and> srv_active t = srv_active s"
    if "t = fst (fst (receive_chunk cb now c buffer chunk s))" for t
    unfolding that receive_chunk_def Let_def case_prod_unfold fst_conv
  proof (rule for_each_invariant)
    fix l u assume "contained (conn_writer c) s u \<and> srv_active u = srv_active s"
    then have u: "contained (conn_writer c) s u" "srv_active u = srv_active s" by auto
    have "contained (conn_writer c) u (fst (receive_line cb now c l u))"
      using assms u(2) by (intro contained_line) simp
    with u show "contained (conn_writer c) s (fst (receive_line cb now c l u)) \<and>
        srv_active (fst (receive_line cb now c l u)) = srv_active s"
      by (metis contained_trans contained_active)
  qed simp
  then show ?thesis unfolding contained_def Let_def by blast
qed

theorem inactive_switch_contained_witness:
  "let c = sample_conn\<lparr>conn_device_id := ''spare'', conn_writer := 2\<rparr>;
       t = fst (fst (receive_chunk idle_callbacks 5 c [] (''{'' @ [CHR 0x22] @ ''t'' @ [CHR 0x22, CHR 0x3A, CHR 0x22] @ ''goal'' @ [CHR 0x22] @ ''}'' @ [CHR 0x0A]) sample_server))
    in t = sample_server\<lparr>last_messages := last_messages t,
             writers := (writers sample_server)(conn_writer c := writers t (conn_writer c))\<rparr>"
  unfolding Let_def by (rule inactive_switch_contained [unfolded Let_def]) (simp add: sample_server_def)

text \<open>The dispatch loop survives every input: no byte sequence a Switch sends makes the handling of a
  chunk end in an exception, whatever the callbacks do.\<close>

theorem dispatch_loop_survives: "snd (fst (receive_chunk cb now c buffer chunk s)) = None"
proof -
  have "encode (Err \<lparr>err_code = ''bad_message'', err_ctx = ''rx''\<rparr>) \<noteq> Inl e" for e
    by (simp add: encode_def to_wire_def strip_none_def quote_str_def escape_def escape_char_def max_line_bytes_def)
  then have "snd (send_to_conn c (Err \<lparr>err_code = ''bad_message'', err_ctx = ''rx''\<rparr>) s) = None" for s :: "'a server_scheme"
    by (simp add: send_to_conn_def Let_def split: sum.split)
  then have line: "snd (receive_line cb now c l s) = None" for l s
    by (simp add: receive_line_def try_catch_def split: prod.splits option.splits)
  have "snd (for_each ls (receive_line cb now c) s) = None" for ls s
  proof (induction ls arbitrary: s)
    case (Cons l ls)
    then show ?case using line [of l s] by (cases "receive_line cb now c l s") simp
  qed simp
  then show ?thesis by (simp add: receive_chunk_def case_prod_unfold Let_def)
qed

end
