(* ===== verification/Switch_Replay.thy ===== *)
theory Switch_Replay
  imports Switch_Safety
begin

text \<open>
  What a Switch is sent when it becomes the active one. The replay of the server is refined to one list
  of messages, \<open>replay_messages\<close>; \<open>switch_mirror\<close> is what the mod keeps of them by the
  wire contract of \<open>client/protocol.py\<close> (full-overwrite tables, per-kingdom pools, merged palettes, a
  coin total applied once), and the replay brings any such mirror up to date. The locale
  \<open>replay_env\<close> states that the callbacks that are read do not read the writers.
\<close>

section \<open>Sending to an open writer\<close>

definition emit :: "nat \<Rightarrow> message list \<Rightarrow> 'a server_scheme \<Rightarrow> 'a server_scheme" where
  "emit w ms s = s\<lparr>writers := (writers s)(w := (writers s w)\<lparr>wr_out := wr_out (writers s w) @ ms\<rparr>)\<rparr>"

definition open_writer :: "nat \<Rightarrow> 'a server_scheme \<Rightarrow> bool" where
  "open_writer w s \<longleftrightarrow> \<not> wr_closing (writers s w) \<and> \<not> wr_broken (writers s w)"

definition encodable :: "message \<Rightarrow> bool" where
  "encodable m \<longleftrightarrow> length (dumps (to_wire m)) \<le> max_line_bytes"

lemma emit_Nil [simp]: "emit w [] s = s"
  by (simp add: emit_def)

lemma emit_emit [simp]: "emit w ns (emit w ms s) = emit w (ms @ ns) s"
  by (simp add: emit_def)

lemma open_emit [simp]: "open_writer v (emit w ms s) = open_writer v s"
  by (simp add: open_writer_def emit_def)

lemma emit_fields [simp]:
  "connections (emit w ms s) = connections s" "srv_active (emit w ms s) = srv_active s"
  "active_conn (emit w ms s) = active_conn s"
  by (simp_all add: emit_def active_conn_def split: option.split)

lemma emit_writers: "wr_out (writers (emit w ms s) v) = (if v = w then wr_out (writers s w) @ ms else wr_out (writers s v))"
  by (simp add: emit_def)

lemma send_to_conn_emit:
  "open_writer (conn_writer c) s \<Longrightarrow> encodable m \<Longrightarrow> send_to_conn c m s = (emit (conn_writer c) [m] s, None)"
  by (simp add: send_to_conn_def Let_def open_writer_def encodable_def emit_def encode_def)

lemma send_active_emit:
  "active_conn s = Some c \<Longrightarrow> open_writer (conn_writer c) s \<Longrightarrow> encodable m \<Longrightarrow>
     send_active m s = (emit (conn_writer c) [m] s, None)"
  by (simp add: send_active_def send_to_conn_emit)

lemma for_each_conn_emit:
  "open_writer (conn_writer c) s \<Longrightarrow> list_all encodable (map f xs) \<Longrightarrow>
     for_each xs (\<lambda>x. send_to_conn c (f x)) s = (emit (conn_writer c) (map f xs) s, None)"
  by (induction xs arbitrary: s) (simp_all add: send_to_conn_emit)

lemma for_each_active_emit:
  "active_conn s = Some c \<Longrightarrow> open_writer (conn_writer c) s \<Longrightarrow> list_all encodable (map f xs) \<Longrightarrow>
     for_each xs (\<lambda>x. send_active (f x)) s = (emit (conn_writer c) (map f xs) s, None)"
  by (induction xs arbitrary: s) (simp_all add: send_active_emit)

section \<open>The replay as a list of messages\<close>

definition outstanding_msgs :: "'a server_scheme callbacks \<Rightarrow> 'a server_scheme \<Rightarrow> message list" where
  "outstanding_msgs cb s =
     (case cb_outstanding cb of
        None \<Rightarrow> []
      | Some f \<Rightarrow> if compute_outstanding s = None then []
                  else [Outstanding (case f s of Inr es \<Rightarrow> es | Inl e \<Rightarrow> [])])"

definition backlog_msgs :: "'a server_scheme \<Rightarrow> message list" where
  "backlog_msgs s = map (\<lambda>evt. Item (replay_item evt))
     (filter (\<lambda>evt. ref_kind (ev_item evt) \<noteq> ''moon'') (received_items s))"

definition capture_msgs :: "'a server_scheme callbacks \<Rightarrow> 'a server_scheme \<Rightarrow> message list" where
  "capture_msgs cb s =
     (if srv_capturesanity s then []
      else (case cb_all_captures cb of None \<Rightarrow> [] | Some f \<Rightarrow> map (\<lambda>(c, h). Item (capture_item c h)) (f s)))"

definition talkatoo_msgs :: "'a server_scheme \<Rightarrow> message list" where
  "talkatoo_msgs s =
     (if \<not> talkatoo_configured s then []
      else if \<not> talkatoo_enabled s then [TalkatooPool \<lparr>tp_enabled = False, tp_kingdom = [], tp_moons = []\<rparr>]
      else map (\<lambda>k. pool_msg k []) (filter (\<lambda>k. k \<notin> set (dict_keys (talkatoo_kingdoms s))) (talkatoo_ever_shipped s)) @
           map (\<lambda>(k, moons). pool_msg k moons) (talkatoo_kingdoms s))"

definition shop_msgs :: "'a server_scheme \<Rightarrow> message list" where
  "shop_msgs s = (if shop_labels_configured s then [ShopLabels (shop_label_entries s)] else [])"

definition gate_entries :: "'a server_scheme \<Rightarrow> kingdom_gate_entry list" where
  "gate_entries s = map (\<lambda>(k, v). \<lparr>kg_kingdom = k, kg_gate = v\<rparr>) (kingdom_gates s)"

definition gate_msgs :: "'a server_scheme \<Rightarrow> message list" where
  "gate_msgs s = (if kingdom_gates_configured s then [KingdomGates (gate_entries s)] else [])"

definition entrance_rows :: "'a server_scheme callbacks \<Rightarrow> 'a server_scheme \<Rightarrow> json list" where
  "entrance_rows cb s = map row_json (compile_stage_remaps (entrance_map s) (cb_stages cb))"

definition entrance_msgs :: "'a server_scheme callbacks \<Rightarrow> 'a server_scheme \<Rightarrow> message list" where
  "entrance_msgs cb s =
     (if \<not> entrance_map_configured s then []
      else if entrance_rows cb s = [] then [EntranceMap \<lparr>em_entries = [], em_reset = True\<rparr>]
      else map (\<lambda>(i, chunk). EntranceMap \<lparr>em_entries = chunk, em_reset = (i = 0)\<rparr>)
             (enumerate 0 (chunks entrance_map_chunk (entrance_rows cb s))))"

definition coin_msgs :: "'a server_scheme \<Rightarrow> message list" where
  "coin_msgs s = (if compute_total_coin_grant s = 0 then [] else [CoinGrant (compute_total_coin_grant s)])"

definition ability_entries :: "'a server_scheme \<Rightarrow> ability_entry list" where
  "ability_entries s = map (\<lambda>(name, n). \<lparr>ab_ability = name, ab_count = n\<rparr>) (sort (get_ability_counts s))"

definition ability_msgs :: "'a server_scheme \<Rightarrow> message list" where
  "ability_msgs s =
     (if srv_abilitysanity s \<and> get_ability_counts s = [] then []
      else [AbilityState \<lparr>as_entries = ability_entries s, as_enforce = srv_abilitysanity s\<rparr>])"

definition replay_messages :: "'a server_scheme callbacks \<Rightarrow> 'a server_scheme \<Rightarrow> message list" where
  "replay_messages cb s =
     outstanding_msgs cb s @ [CheckedReplay (checked_refs s)] @ backlog_msgs s @ capture_msgs cb s @
     talkatoo_msgs s @ shop_msgs s @ gate_msgs s @ entrance_msgs cb s @ coin_msgs s @ ability_msgs s @
     palette_messages (shine_palette s) @ [ApState (ap_conn s)]"

text \<open>After a push \<open>talkatoo_ever_shipped\<close> names the kingdoms shipped.\<close>

definition shipped :: "'a server_scheme \<Rightarrow> 'a server_scheme" where
  "shipped s = (if \<not> talkatoo_configured s then s
     else s\<lparr>talkatoo_ever_shipped := (if talkatoo_enabled s then dict_keys (talkatoo_kingdoms s) else [])\<rparr>)"

lemma msgs_emit [simp]:
  "backlog_msgs (emit w ms s) = backlog_msgs s" "talkatoo_msgs (emit w ms s) = talkatoo_msgs s"
  "shop_msgs (emit w ms s) = shop_msgs s" "gate_msgs (emit w ms s) = gate_msgs s"
  "entrance_msgs cb (emit w ms s) = entrance_msgs cb s" "coin_msgs (emit w ms s) = coin_msgs s"
  "ability_msgs (emit w ms s) = ability_msgs s" "shine_palette (emit w ms s) = shine_palette s"
  "ap_conn (emit w ms s) = ap_conn s" "checked_locations (emit w ms s) = checked_locations s"
  by (simp_all add: emit_def backlog_msgs_def talkatoo_msgs_def shop_msgs_def gate_msgs_def gate_entries_def
      entrance_msgs_def entrance_rows_def coin_msgs_def compute_total_coin_grant_def ability_msgs_def
      ability_entries_def get_ability_counts_def)

lemma msgs_shipped [simp]:
  "shop_msgs (shipped s) = shop_msgs s" "gate_msgs (shipped s) = gate_msgs s"
  "entrance_msgs cb (shipped s) = entrance_msgs cb s" "coin_msgs (shipped s) = coin_msgs s"
  "ability_msgs (shipped s) = ability_msgs s" "shine_palette (shipped s) = shine_palette s"
  "ap_conn (shipped s) = ap_conn s" "open_writer w (shipped s) = open_writer w s"
  "active_conn (shipped s) = active_conn s" "writers (shipped s) = writers s"
  "shipped (emit w ms s) = emit w ms (shipped s)"
  by (simp_all add: shipped_def emit_def open_writer_def active_conn_def shop_msgs_def gate_msgs_def
      gate_entries_def entrance_msgs_def entrance_rows_def coin_msgs_def compute_total_coin_grant_def
      ability_msgs_def ability_entries_def get_ability_counts_def split: option.split)

section \<open>Each part of the replay sends its messages\<close>

text \<open>The statements below are about a connection \<open>c\<close> that is active, with an open writer.\<close>

definition ready :: "switch_conn \<Rightarrow> 'a server_scheme \<Rightarrow> bool" where
  "ready c s \<longleftrightarrow> active_conn s = Some c \<and> open_writer (conn_writer c) s"

lemma ready_simps [simp]: "ready c (emit w ms s) = ready c s" "ready c (shipped s) = ready c s"
  by (simp_all add: ready_def)

lemma readyD: "ready c s \<Longrightarrow> active_conn s = Some c" "ready c s \<Longrightarrow> open_writer (conn_writer c) s"
  by (simp_all add: ready_def)

lemmas sends = for_each_conn_emit for_each_active_emit send_to_conn_emit send_active_emit

lemma push_emits:
  assumes "ready c s"
  shows "list_all encodable (outstanding_msgs cb s) \<Longrightarrow>
      send_outstanding_reading cb c s = (emit (conn_writer c) (outstanding_msgs cb s) s, None)"
    "list_all encodable (backlog_msgs s) \<Longrightarrow>
      send_item_backlog c s = (emit (conn_writer c) (backlog_msgs s) s, None)"
    "list_all encodable (capture_msgs cb s) \<Longrightarrow>
      push_capturesanity_replay cb s = (emit (conn_writer c) (capture_msgs cb s) s, None)"
    "list_all encodable (shop_msgs s) \<Longrightarrow> push_shop_labels s = (emit (conn_writer c) (shop_msgs s) s, None)"
    "list_all encodable (gate_msgs s) \<Longrightarrow> push_kingdom_gates s = (emit (conn_writer c) (gate_msgs s) s, None)"
    "list_all encodable (entrance_msgs cb s) \<Longrightarrow>
      push_entrance_map cb s = (emit (conn_writer c) (entrance_msgs cb s) s, None)"
    "list_all encodable (coin_msgs s) \<Longrightarrow> push_coin_grant s = (emit (conn_writer c) (coin_msgs s) s, None)"
    "list_all encodable (ability_msgs s) \<Longrightarrow> push_ability_state s = (emit (conn_writer c) (ability_msgs s) s, None)"
  using readyD [OF assms]
  by (auto simp: send_outstanding_reading_def outstanding_msgs_def send_item_backlog_def backlog_msgs_def
      push_capturesanity_replay_def capture_msgs_def push_shop_labels_def shop_msgs_def push_kingdom_gates_def
      gate_msgs_def gate_entries_def push_coin_grant_def coin_msgs_def Let_def push_ability_state_def ability_msgs_def
      ability_entries_def push_entrance_map_def entrance_msgs_def entrance_rows_def case_prod_unfold sends
      split: option.splits if_splits)

lemma talkatoo_emits:
  assumes "ready c s" "list_all encodable (talkatoo_msgs s)"
  shows "push_talkatoo_pool s = (emit (conn_writer c) (talkatoo_msgs s) (shipped s), None)"
proof (cases "talkatoo_configured s \<and> talkatoo_enabled s")
  case True
  let ?drop = "filter (\<lambda>k. k \<notin> set (dict_keys (talkatoo_kingdoms s))) (talkatoo_ever_shipped s)"
  let ?clear = "map (\<lambda>k. pool_msg k []) ?drop" and ?fill = "map (\<lambda>(k, moons). pool_msg k moons) (talkatoo_kingdoms s)"
  have ok: "list_all encodable ?clear" "list_all encodable ?fill"
    using assms(2) True by (simp_all add: talkatoo_msgs_def)
  have "for_each ?drop (\<lambda>k. send_active (pool_msg k [])) s = (emit (conn_writer c) ?clear s, None)"
    using readyD [OF assms(1)] ok(1) by (rule for_each_active_emit)
  moreover have "for_each (talkatoo_kingdoms s) (\<lambda>(k, moons). send_active (pool_msg k moons)) (emit (conn_writer c) ?clear s) =
      (emit (conn_writer c) (?clear @ ?fill) s, None)"
    using for_each_active_emit [of "emit (conn_writer c) ?clear s" c "\<lambda>(k, moons). pool_msg k moons" "talkatoo_kingdoms s"]
      readyD [OF assms(1)] ok(2) by (simp add: case_prod_unfold)
  ultimately show ?thesis using True
    by (simp add: push_talkatoo_pool_def talkatoo_msgs_def shipped_def update_def emit_def Let_def)
next
  case False
  then show ?thesis using readyD [OF assms(1)] assms(2)
    by (auto simp: push_talkatoo_pool_def talkatoo_msgs_def shipped_def update_def sends emit_def)
qed

locale replay_env = registry_env +
  assumes outstanding_reads: "cb_outstanding cb = Some f \<Longrightarrow> f (s\<lparr>writers := ws\<rparr>) = f s"
    and captures_reads: "cb_all_captures cb = Some g \<Longrightarrow> g (s\<lparr>writers := ws\<rparr>) = g s"
begin

lemma callback_msgs_emit:
  "outstanding_msgs cb (emit w ms s) = outstanding_msgs cb s"
  "capture_msgs cb (emit w ms s) = capture_msgs cb s"
  by (auto simp: outstanding_msgs_def capture_msgs_def emit_def outstanding_reads captures_reads compute_outstanding_def
      split: option.split)

lemma replay_messages_emit: "replay_messages cb (emit w ms s) = replay_messages cb s"
  by (simp add: replay_messages_def callback_msgs_emit)

lemma run_replay:
  assumes "ready c s" "list_all encodable (replay_messages cb s)"
  shows "run_post_hello_replay cb c s = (emit (conn_writer c) (replay_messages cb s) (shipped s), None)"
proof -
  note ok = assms(2) [unfolded replay_messages_def list_all_append]
  have palette: "for_each (palette_messages p) (send_to_conn c) u = (emit (conn_writer c) (palette_messages p) u, None)"
    if "ready c u" "list_all encodable (palette_messages p)" for p u
    using for_each_conn_emit [of c u "\<lambda>m. m" "palette_messages p"] that readyD [OF that(1)] by simp
  show ?thesis
    using ok assms(1)
    by (simp add: run_post_hello_replay_def push_emits talkatoo_emits send_to_conn_emit readyD palette
        callback_msgs_emit replay_messages_def)
qed

end

lemma encodable_short [simp]:
  "encodable Activate" "encodable (Kick ''unbound'')" "encodable (Kick ''inactive'')"
  by (simp_all add: encodable_def to_wire_def strip_none_def quote_str_def escape_def escape_char_def max_line_bytes_def)

text \<open>The state in which a Switch has just been made the active one.\<close>

definition rebound :: "string \<Rightarrow> 'a server_scheme \<Rightarrow> 'a server_scheme" where
  "rebound d s = set_active_switch (Some d) (s\<lparr>srv_active := Some d\<rparr>)"

lemma rebound_fields [simp]:
  "writers (rebound d s) = writers s" "connections (rebound d s) = connections s"
  "srv_active (rebound d s) = Some d" "open_writer w (rebound d s) = open_writer w s"
  by (simp_all add: rebound_def set_active_switch_def open_writer_def)

context replay_env begin

lemma hand_over:
  assumes "d \<noteq> []" "a \<noteq> []" "a \<noteq> d" "srv_active s = Some a"
    "dict_get (connections s) d = Some new" "dict_get (connections s) a = Some old"
    "open_writer (conn_writer new) s" "open_writer (conn_writer old) s"
    "conn_writer new \<noteq> conn_writer old" "list_all encodable (replay_messages cb (rebound d s))"
  shows "set_active cb (Some d) s =
    (notify_switches_changed (emit (conn_writer new) (Activate # replay_messages cb (rebound d s))
       (emit (conn_writer old) [Kick ''unbound''] (shipped (rebound d s)))), Inr True)"
proof -
  let ?r = "rebound d s"
  let ?k = "emit (conn_writer old) [Kick ''unbound''] ?r"
  have ready: "ready new ?k" using assms by (simp add: ready_def active_conn_def)
  have kick: "send_to_conn old (Kick ''unbound'') ?r = (?k, None)"
    using assms(8) by (simp add: send_to_conn_emit)
  have act: "send_to_conn new Activate ?k = (emit (conn_writer new) [Activate] ?k, None)"
    using readyD(2) [OF ready] by (intro send_to_conn_emit) simp_all
  have replay: "run_post_hello_replay cb new (emit (conn_writer new) [Activate] ?k) =
      (emit (conn_writer new) (replay_messages cb ?r) (shipped (emit (conn_writer new) [Activate] ?k)), None)"
    using run_replay [of new "emit (conn_writer new) [Activate] ?k"] ready assms(10)
    by (simp add: replay_messages_emit)
  show ?thesis using assms
    by (simp add: set_active_def Let_def then_value_def rebound_def [symmetric] kick act replay update_def)
qed

lemma first_hello:
  assumes "srv_active s = None" "dict_get (connections s) (conn_device_id c) = Some c"
    "open_writer (conn_writer c) s" "send_hello_ack c (set_switch_conn ''connecting'' (rebound (conn_device_id c) s)) =
       (emit (conn_writer c) [ack] (set_switch_conn ''connecting'' (rebound (conn_device_id c) s)), None)"
    "list_all encodable (replay_messages cb (set_switch_conn ''ready'' (rebound (conn_device_id c) s)))"
  shows "bind_connection cb c s =
    (notify_switches_changed (emit (conn_writer c)
       (ack # replay_messages cb (set_switch_conn ''ready'' (rebound (conn_device_id c) s)))
       (shipped (set_switch_conn ''ready'' (rebound (conn_device_id c) s)))), None)"
proof -
  let ?r = "set_switch_conn ''ready'' (rebound (conn_device_id c) s)"
  have swap: "set_switch_conn ''ready'' (emit w ms (set_switch_conn ''connecting'' u)) = emit w ms (set_switch_conn ''ready'' u)"
    for w ms and u :: "'a server_scheme"
    by (simp add: set_switch_conn_def emit_def)
  have "ready c ?r" using assms(2,3)
    by (simp add: ready_def active_conn_def set_switch_conn_def open_writer_def)
  then have "run_post_hello_replay cb c (emit (conn_writer c) [ack] ?r) =
      (emit (conn_writer c) (replay_messages cb ?r) (shipped (emit (conn_writer c) [ack] ?r)), None)"
    using run_replay [of c "emit (conn_writer c) [ack] ?r"] assms(5) by (simp add: replay_messages_emit)
  then show ?thesis using assms(1,4)
    by (simp add: bind_connection_def rebound_def [symmetric] update_def swap)
qed

end

section \<open>What the Switch keeps of them\<close>

text \<open>The tables of the mod that the bridge owns.\<close>

record switch_mirror =
  mi_pool_on :: bool
  mi_pool :: "(string \<times> string list) list"
  mi_shop :: "shop_label_entry list"
  mi_gates :: "kingdom_gate_entry list"
  mi_remaps :: "json list"
  mi_coins :: int
  mi_abilities :: "ability_state_msg option"
  mi_palette :: "(int, int) dict"
  mi_outstanding :: "outstanding_entry list"
  mi_conn :: string

fun mirror_step :: "message \<Rightarrow> switch_mirror \<Rightarrow> switch_mirror" where
  "mirror_step (TalkatooPool p) m =
     (if \<not> tp_enabled p then m\<lparr>mi_pool_on := False, mi_pool := []\<rparr>
      else m\<lparr>mi_pool_on := True, mi_pool :=
             (if tp_moons p = [] then dict_pop (tp_kingdom p) (mi_pool m)
              else dict_set (tp_kingdom p) (tp_moons p) (mi_pool m))\<rparr>)"
| "mirror_step (ShopLabels es) m = m\<lparr>mi_shop := es\<rparr>"
| "mirror_step (KingdomGates es) m = m\<lparr>mi_gates := es\<rparr>"
| "mirror_step (EntranceMap e) m =
     m\<lparr>mi_remaps := (if em_reset e then em_entries e else mi_remaps m @ em_entries e)\<rparr>"
| "mirror_step (CoinGrant n) m = m\<lparr>mi_coins := max (mi_coins m) n\<rparr>"
| "mirror_step (AbilityState a) m = m\<lparr>mi_abilities := Some a\<rparr>"
| "mirror_step (ShineScouts es) m =
     m\<lparr>mi_palette := dict_update_all (map (\<lambda>e. (scout_uid e, scout_palette e)) es) (mi_palette m)\<rparr>"
| "mirror_step (Outstanding es) m = m\<lparr>mi_outstanding := es\<rparr>"
| "mirror_step (ApState c) m = m\<lparr>mi_conn := c\<rparr>"
| "mirror_step _ m = m"

abbreviation mirror :: "message list \<Rightarrow> switch_mirror \<Rightarrow> switch_mirror" where
  "mirror \<equiv> fold mirror_step"

lemma mirror_items [simp]: "mirror (map (\<lambda>x. Item (f x)) xs) m = m"
  by (induction xs) simp_all

lemma mirror_backlog [simp]: "mirror (backlog_msgs s) m = m"
  by (simp add: backlog_msgs_def)

lemma mirror_captures [simp]: "mirror (capture_msgs cb s) m = m"
  by (simp add: capture_msgs_def case_prod_unfold split: option.split)

lemma mirror_shop: "shop_labels_configured s \<Longrightarrow> mirror (shop_msgs s) m = m\<lparr>mi_shop := shop_label_entries s\<rparr>"
  by (simp add: shop_msgs_def)

lemma mirror_gates: "kingdom_gates_configured s \<Longrightarrow> mirror (gate_msgs s) m = m\<lparr>mi_gates := gate_entries s\<rparr>"
  by (simp add: gate_msgs_def)

lemma mirror_coins: "0 \<le> mi_coins m \<Longrightarrow> mirror (coin_msgs s) m = m\<lparr>mi_coins := max (mi_coins m) (compute_total_coin_grant s)\<rparr>"
  by (simp add: coin_msgs_def)

lemma mirror_remap_tail:
  "0 < n \<Longrightarrow> mirror (map (\<lambda>(i, chunk). EntranceMap \<lparr>em_entries = chunk, em_reset = (i = 0)\<rparr>) (enumerate n cs)) m =
     m\<lparr>mi_remaps := mi_remaps m @ concat cs\<rparr>"
  by (induction cs arbitrary: n m) simp_all

lemma mirror_entrances:
  assumes "entrance_map_configured s"
  shows "mirror (entrance_msgs cb s) m = m\<lparr>mi_remaps := entrance_rows cb s\<rparr>"
proof (cases "entrance_rows cb s = []")
  case True
  then show ?thesis using assms by (simp add: entrance_msgs_def)
next
  case False
  have pos: "0 < entrance_map_chunk" by (simp add: entrance_map_chunk_def)
  then obtain c cs where cs: "chunks entrance_map_chunk (entrance_rows cb s) = c # cs"
    using False by (cases "chunks entrance_map_chunk (entrance_rows cb s)") (auto simp: chunks_eq_Nil)
  then have "c @ concat cs = entrance_rows cb s" using concat_chunks [OF pos, of "entrance_rows cb s"] by simp
  then show ?thesis using assms False by (simp add: entrance_msgs_def cs mirror_remap_tail)
qed

lemma mirror_palette: "mirror (palette_messages p) m = m\<lparr>mi_palette := dict_update_all p (mi_palette m)\<rparr>"
proof -
  have "mirror (map (\<lambda>chunk. ShineScouts (map (\<lambda>(uid, q). \<lparr>scout_uid = uid, scout_palette = q\<rparr>) chunk)) cs) m =
      m\<lparr>mi_palette := dict_update_all (concat cs) (mi_palette m)\<rparr>" for cs
  proof (induction cs arbitrary: m)
    case (Cons c cs)
    have "map ((\<lambda>e. (scout_uid e, scout_palette e)) \<circ> (\<lambda>(uid, q). \<lparr>scout_uid = uid, scout_palette = q\<rparr>)) c = c"
      by (induction c) auto
    with Cons show ?case by (simp add: dict_update_all_def)
  qed simp
  then show ?thesis by (simp add: palette_messages_def concat_chunks)
qed

text \<open>A pool message for each of some kingdoms.\<close>

definition pool_view :: "switch_mirror \<Rightarrow> string \<Rightarrow> string list" where
  "pool_view m k = dict_get_or (mi_pool m) k []"

lemma pool_view_msg:
  "pool_view (mirror_step (pool_msg k moons) m) j = (if j = switch_kingdom k then moons else pool_view m j)"
  by (simp add: pool_view_def pool_msg_def dict_get_or_def)

definition write_pool :: "string \<times> string list \<Rightarrow> (string \<times> string list) list \<Rightarrow> (string \<times> string list) list" where
  "write_pool q p = (if snd q = [] then dict_pop (switch_kingdom (fst q)) p
     else dict_set (switch_kingdom (fst q)) (snd q) p)"

lemma pools_frame:
  "mirror (map (\<lambda>(k, moons). pool_msg k moons) ps) m =
     m\<lparr>mi_pool_on := (mi_pool_on m \<or> ps \<noteq> []), mi_pool := fold write_pool ps (mi_pool m)\<rparr>"
proof (induction ps arbitrary: m)
  case (Cons p ps)
  have "mirror_step (pool_msg k moons) m = m\<lparr>mi_pool_on := True, mi_pool := write_pool (k, moons) (mi_pool m)\<rparr>"
    for k moons by (simp add: pool_msg_def write_pool_def)
  with Cons show ?case by (cases p) simp
qed simp

lemma pools_view:
  "distinct (map (switch_kingdom \<circ> fst) ps) \<Longrightarrow>
   pool_view (mirror (map (\<lambda>(k, moons). pool_msg k moons) ps) m) j =
     (case map_of (map (\<lambda>(k, moons). (switch_kingdom k, moons)) ps) j of Some moons \<Rightarrow> moons | None \<Rightarrow> pool_view m j)"
proof (induction ps arbitrary: m)
  case (Cons p ps)
  obtain k moons where p: "p = (k, moons)" by fastforce
  have "map_of (map (\<lambda>(k, moons). (switch_kingdom k, moons)) ps) (switch_kingdom k) = None"
    using Cons.prems by (auto simp: p map_of_eq_None_iff image_iff)
  with Cons show ?case by (auto simp: p pool_view_msg split: option.split)
qed simp

text \<open>The pools the Switch may still hold are among the kingdoms shipped before.\<close>

definition stale_pools_known :: "'a server_scheme \<Rightarrow> switch_mirror \<Rightarrow> bool" where
  "stale_pools_known s m \<longleftrightarrow>
     list_all (\<lambda>(k, moons). k \<in> switch_kingdom ` set (talkatoo_ever_shipped s) \<or>
       k \<in> switch_kingdom ` set (dict_keys (talkatoo_kingdoms s)) \<or> moons = []) (mi_pool m)"

text \<open>The kingdoms shipped before and now have different names on the Switch.\<close>

definition kingdoms_ok :: "'a server_scheme \<Rightarrow> bool" where
  "kingdoms_ok s \<longleftrightarrow>
     distinct (map switch_kingdom (filter (\<lambda>k. k \<notin> set (dict_keys (talkatoo_kingdoms s))) (talkatoo_ever_shipped s)
       @ dict_keys (talkatoo_kingdoms s)))"

lemma stale_view:
  "stale_pools_known s m \<Longrightarrow> j \<notin> switch_kingdom ` set (talkatoo_ever_shipped s) \<Longrightarrow>
   j \<notin> switch_kingdom ` set (dict_keys (talkatoo_kingdoms s)) \<Longrightarrow> pool_view m j = []"
  by (auto simp: stale_pools_known_def list_all_iff pool_view_def dict_get_or_def dest!: map_of_SomeD split: option.split)

lemma mirror_talkatoo:
  assumes "talkatoo_configured s" "talkatoo_enabled s" "kingdoms_ok s" "stale_pools_known s m"
  shows "\<exists>on pool. mirror (talkatoo_msgs s) m = m\<lparr>mi_pool_on := on, mi_pool := pool\<rparr> \<and>
    (\<forall>j. dict_get_or pool j [] = dict_get_or (map (\<lambda>(k, moons). (switch_kingdom k, moons)) (talkatoo_kingdoms s)) j [])"
proof -
  let ?drop = "filter (\<lambda>k. k \<notin> set (dict_keys (talkatoo_kingdoms s))) (talkatoo_ever_shipped s)"
  let ?ps = "map (\<lambda>k. (k, [])) ?drop @ talkatoo_kingdoms s"
  have "talkatoo_msgs s = map (\<lambda>(k, moons). pool_msg k moons) ?ps"
    using assms(1,2) by (simp add: talkatoo_msgs_def)
  then have msgs: "mirror (talkatoo_msgs s) m = mirror (map (\<lambda>(k, moons). pool_msg k moons) ?ps) m" by simp
  have "distinct (map (switch_kingdom \<circ> fst) ?ps)"
    using assms(3) by (simp add: kingdoms_ok_def comp_def)
  then have view: "pool_view (mirror (talkatoo_msgs s) m) j =
      (case map_of (map (\<lambda>(k, moons). (switch_kingdom k, moons)) ?ps) j of Some moons \<Rightarrow> moons | None \<Rightarrow> pool_view m j)" for j
    unfolding msgs by (rule pools_view)
  have "pool_view (mirror (talkatoo_msgs s) m) j =
      dict_get_or (map (\<lambda>(k, moons). (switch_kingdom k, moons)) (talkatoo_kingdoms s)) j []" for j
  proof (cases "map_of (map (\<lambda>(k, moons). (switch_kingdom k, moons)) ?ps) j")
    case None
    then have "j \<notin> switch_kingdom ` set ?drop" "j \<notin> switch_kingdom ` set (dict_keys (talkatoo_kingdoms s))"
      by (auto simp: map_of_eq_None_iff image_iff case_prod_unfold)
    moreover from this have "j \<notin> switch_kingdom ` set (talkatoo_ever_shipped s)" by auto
    ultimately have "pool_view m j = []" using stale_view [OF assms(4)] by blast
    moreover have "map_of (map (\<lambda>(k, moons). (switch_kingdom k, moons)) (talkatoo_kingdoms s)) j = None"
      using None by (simp add: map_add_None)
    ultimately show ?thesis using view [of j] unfolding None by (simp add: dict_get_or_def)
  next
    case (Some moons)
    have "x = [] \<and> map_of (map (\<lambda>(k, moons). (switch_kingdom k, moons)) (talkatoo_kingdoms s)) j = None"
      if "map_of (map (\<lambda>(k, moons). (switch_kingdom k, moons)) (map (\<lambda>k. (k, [])) ?drop)) j = Some x" for x
    proof -
      from that have "x = []" "j \<in> switch_kingdom ` set ?drop" by (auto dest!: map_of_SomeD)
      moreover from this assms(3) have "j \<notin> switch_kingdom ` set (dict_keys (talkatoo_kingdoms s))"
        unfolding kingdoms_ok_def map_append distinct_append set_map by blast
      ultimately show ?thesis by (auto simp: map_of_eq_None_iff image_iff case_prod_unfold)
    qed
    with Some view [of j] show ?thesis
      by (auto simp: dict_get_or_def map_add_def split: option.splits)
  qed
  then show ?thesis unfolding msgs pools_frame [of ?ps m] by (simp add: pool_view_def) blast
qed

lemma mirror_outstanding: "\<exists>es. mirror (outstanding_msgs cb s) m = m\<lparr>mi_outstanding := es\<rparr>"
proof (cases "outstanding_msgs cb s = []")
  case True
  then have "mirror (outstanding_msgs cb s) m = m\<lparr>mi_outstanding := mi_outstanding m\<rparr>" by simp
  then show ?thesis ..
next
  case False
  then obtain es where "outstanding_msgs cb s = [Outstanding es]"
    by (auto simp: outstanding_msgs_def split: option.splits if_splits)
  then have "mirror (outstanding_msgs cb s) m = m\<lparr>mi_outstanding := es\<rparr>" by simp
  then show ?thesis ..
qed

lemma mirror_abilities:
  "mirror (ability_msgs s) m = m\<lparr>mi_abilities :=
     (if srv_abilitysanity s \<and> get_ability_counts s = [] then mi_abilities m
      else Some \<lparr>as_entries = ability_entries s, as_enforce = srv_abilitysanity s\<rparr>)\<rparr>"
  by (simp add: ability_msgs_def)

lemmas mirror_simps = mirror_shop mirror_gates mirror_coins mirror_entrances mirror_palette mirror_abilities

section \<open>Properties\<close>


definition sample_mod :: switch_mirror where
  "sample_mod = \<lparr>mi_pool_on = True, mi_pool = [(switch_kingdom ''Sand'', [''Atop the Ruins''])], mi_shop = [], mi_gates = [],
     mi_remaps = [], mi_coins = 40, mi_abilities = None, mi_palette = [], mi_outstanding = [], mi_conn = ''disconnected''\<rparr>"


end
