(* ===== verification/Wire_Limits.thy ===== *)
theory Wire_Limits
  imports Switch_Replay
begin

text \<open>
  How the messages of \<open>client/switch_server.py\<close> fit the 8 KiB line cap of
  \<open>client/protocol.py\<close>: the palette chunks always do, the unchunked list of checked locations does not.
\<close>

section \<open>Sizes of encoded values\<close>

lemma length_join:
  "xs \<noteq> [] \<Longrightarrow> length (join sep xs) + length sep = (\<Sum>x\<leftarrow>xs. length x) + length sep * length xs"
  by (induction sep xs rule: join.induct) auto

lemma length_join_le:
  assumes "\<And>x. x \<in> set xs \<Longrightarrow> length x \<le> n"
  shows "length (join sep xs) \<le> (n + length sep) * length xs"
proof (cases "xs = []")
  case False
  have "(\<Sum>x\<leftarrow>xs. length x) \<le> n * length xs"
    using sum_list_mono [of xs length "\<lambda>_. n"] assms by (simp add: sum_list_triv mult.commute)
  with length_join [OF False, of sep] show ?thesis by (simp add: algebra_simps)
qed simp

lemma length_join_ge:
  assumes "\<And>x. x \<in> set xs \<Longrightarrow> n \<le> length x"
  shows "(n + length sep) * length xs \<le> length (join sep xs) + length sep"
proof (cases "xs = []")
  case False
  have "n * length xs \<le> (\<Sum>x\<leftarrow>xs. length x)"
    using sum_list_mono [of xs "\<lambda>_. n" length] assms by (simp add: sum_list_triv mult.commute)
  with length_join [OF False, of sep] show ?thesis by (simp add: algebra_simps)
qed simp

lemma length_dumps_list_le:
  "(\<And>j. j \<in> set js \<Longrightarrow> length (dumps j) \<le> n) \<Longrightarrow> length (dumps (JList js)) \<le> 2 + (n + 1) * length js"
  using length_join_le [of "map dumps js" n "'',''"] by auto

lemma length_dumps_list_ge:
  "(\<And>j. j \<in> set js \<Longrightarrow> n \<le> length (dumps j)) \<Longrightarrow> 1 + (n + 1) * length js \<le> length (dumps (JList js))"
  using length_join_ge [of "map dumps js" n "'',''"] by auto

lemma length_show_nat: "n < 10 ^ k \<Longrightarrow> 0 < k \<Longrightarrow> length (show_nat n) \<le> k"
proof (induction n arbitrary: k rule: show_nat.induct)
  case (1 n)
  show ?case
  proof (cases "n < 10")
    case True
    with 1(3) show ?thesis by (simp add: show_nat.simps [of n])
  next
    case False
    with 1(2) have "1 < k" by (cases k; cases "k - 1") auto
    moreover from 1(2) this have "n div 10 < 10 ^ (k - 1)"
      by (cases k) (auto simp: less_mult_imp_div_less mult.commute)
    ultimately have "length (show_nat (n div 10)) \<le> k - 1" using 1(1) False by simp
    with False \<open>1 < k\<close> show ?thesis by (simp add: show_nat.simps [of n])
  qed
qed

lemma length_show_int:
  "0 \<le> i \<Longrightarrow> i < 10 ^ k \<Longrightarrow> 0 < k \<Longrightarrow> length (show_int i) \<le> k"
  by (simp add: show_int_def length_show_nat nat_less_iff)

lemmas wire_size_simps = quote_str_def escape_def escape_char_def

section \<open>Palettes\<close>

definition scout_json :: "int \<times> int \<Rightarrow> json" where
  "scout_json p = JObj [(''shine_uid'', JInt (fst p)), (''palette'', JInt (snd p))]"

lemma length_scout_json:
  assumes "0 \<le> fst p" "fst p < 10 ^ 10" "0 \<le> snd p" "snd p < 100"
  shows "length (dumps (scout_json p)) \<le> 37"
  using length_show_int [of "fst p" 10] length_show_int [of "snd p" 2] assms
  by (simp add: scout_json_def wire_size_simps)

lemma length_scouts:
  assumes "\<And>p. p \<in> set ps \<Longrightarrow> length (dumps (scout_json p)) \<le> 37" "length ps \<le> 200"
  shows "encodable (ShineScouts (map (\<lambda>(uid, q). \<lparr>scout_uid = uid, scout_palette = q\<rparr>) ps))"
proof -
  let ?list = "dumps (JList (map scout_json ps))"
  have "length ?list \<le> 2 + (37 + 1) * length (map scout_json ps)"
    by (rule length_dumps_list_le) (use assms(1) in auto)
  then have list: "length ?list \<le> 7602" using assms(2) by simp
  have "map ((\<lambda>e. JObj [(''shine_uid'', JInt (scout_uid e)), (''palette'', JInt (scout_palette e))]) \<circ>
      (\<lambda>(uid, q). \<lparr>scout_uid = uid, scout_palette = q\<rparr>)) ps = map scout_json ps"
    by (auto simp: scout_json_def)
  then have "to_wire (ShineScouts (map (\<lambda>(uid, q). \<lparr>scout_uid = uid, scout_palette = q\<rparr>) ps)) =
      JObj [(''t'', JStr ''shine_scouts''), (''entries'', JList (map scout_json ps))]"
    by (simp add: to_wire_def strip_none_def)
  then show ?thesis using list
    by (simp add: encodable_def wire_size_simps max_line_bytes_def)
qed

text \<open>Palette messages always fit a line: for shine uids of at most ten digits and two-digit palette
  numbers, a palette of any size is cut into messages of at most 200 entries, in order and without loss,
  each of which encodes within the 8 KiB cap.\<close>

theorem palette_chunks_fit:
  assumes "list_all (\<lambda>(uid, p). 0 \<le> uid \<and> uid < 10 ^ 10 \<and> 0 \<le> p \<and> p < 100) palette"
  shows "list_all (\<lambda>m. \<exists>line. encode m = Inr line) (palette_messages palette) \<and>
    dict_update_all palette [] = mi_palette (mirror (palette_messages palette)
      \<lparr>mi_pool_on = False, mi_pool = [], mi_shop = [], mi_gates = [], mi_remaps = [], mi_coins = 0,
       mi_abilities = None, mi_palette = [], mi_outstanding = [], mi_conn = []\<rparr>)"
proof
  have "encodable (ShineScouts (map (\<lambda>(uid, q). \<lparr>scout_uid = uid, scout_palette = q\<rparr>) c))"
    if "c \<in> set (chunks 200 palette)" for c
  proof (rule length_scouts)
    show "length c \<le> 200" using chunks_bound [OF _ that] by simp
    fix p assume "p \<in> set c"
    then have "p \<in> set palette" using that concat_chunks [of 200 palette] by (metis UN_I set_concat zero_less_numeral)
    with assms show "length (dumps (scout_json p)) \<le> 37"
      by (intro length_scout_json) (auto simp: list_all_iff)
  qed
  then show "list_all (\<lambda>m. \<exists>line. encode m = Inr line) (palette_messages palette)"
    by (auto simp: palette_messages_def list_all_iff encode_Inr encodable_def)
qed (simp add: mirror_palette)

theorem palette_chunks_fit_witness:
  "list_all (\<lambda>m. \<exists>line. encode m = Inr line) (palette_messages [(431, 5), (1086, 0)]) \<and>
    dict_update_all [(431, 5), (1086, 0)] [] = mi_palette (mirror (palette_messages [(431, 5), (1086, 0)])
      \<lparr>mi_pool_on = False, mi_pool = [], mi_shop = [], mi_gates = [], mi_remaps = [], mi_coins = 0,
       mi_abilities = None, mi_palette = [], mi_outstanding = [], mi_conn = []\<rparr>)"
  by (rule palette_chunks_fit) simp

section \<open>The list of checked locations\<close>

lemma length_replay_dict: "ref_kind r = ''moon'' \<Longrightarrow> 15 \<le> length (dumps (to_replay_dict r))"
  by (simp add: to_replay_dict_def strip_none_def wire_size_simps)

text \<open>C40 The checked replay is not chunked: from 511 checked moons on, its line exceeds the 8 KiB cap
  whatever the moons are, and encoding it raises.\<close>

theorem checked_replay_overflows:
  assumes "511 \<le> length refs" "list_all (\<lambda>r. ref_kind r = ''moon'') refs"
  shows "encode (CheckedReplay refs) = Inl ValueError"
proof -
  let ?list = "dumps (JList (map to_replay_dict refs))"
  have "1 + (15 + 1) * length (map to_replay_dict refs) \<le> length ?list"
    by (rule length_dumps_list_ge) (use assms(2) length_replay_dict in \<open>auto simp: list_all_iff\<close>)
  then have list: "8177 \<le> length ?list" using assms(1) by simp
  have "to_wire (CheckedReplay refs) = JObj [(''t'', JStr ''checked_replay''), (''ids'', JList (map to_replay_dict refs))]"
    by (simp add: to_wire_def checked_replay_wire_def strip_none_def)
  then show ?thesis using list
    by (simp add: encode_Inl wire_size_simps max_line_bytes_def del: dumps.simps(6))
qed

definition raw_moon :: "string \<Rightarrow> string \<Rightarrow> int \<Rightarrow> item_ref" where
  "raw_moon stage obj uid = \<lparr>ref_kind = ''moon'', ref_kingdom = None, ref_shine_id = None, ref_cap = None,
     ref_name = None, ref_stage_name = Some stage, ref_object_id = Some obj, ref_shine_uid = Some uid,
     ref_hack_name = None, ref_classification = None\<rparr>"

theorem checked_replay_overflows_witness:
  "encode (CheckedReplay (map (\<lambda>i. raw_moon ''SandWorldHomeStage'' ''obj12'' (int i)) [0..<511])) = Inl ValueError"
  by (rule checked_replay_overflows) (simp_all add: list_all_iff raw_moon_def)

end
