(* ===== verification/Switch_Slots.thy ===== *)
theory Switch_Slots
  imports Switch_Replay
begin

text \<open>
  The active slot of \<open>client/switch_server.py\<close>: who gets it, what a parked Switch is told, and the
  two reconnect sequences in which it is lost; and the order of version numbers the version policy reports.
\<close>

section \<open>Connecting while the slot is taken\<close>

text \<open>The record \<open>_handle_client\<close> makes of a connection.\<close>

definition new_conn :: "nat \<Rightarrow> string \<Rightarrow> check_dict \<Rightarrow> 'a server_scheme \<Rightarrow> switch_conn" where
  "new_conn w ip hello s = \<lparr>conn_device_id = effective_device_id ip hello s, conn_peer_ip = ip,
     conn_writer = w, conn_hello = hello\<rparr>"

lemma new_conn_fields [simp]:
  "conn_device_id (new_conn w ip hello s) = effective_device_id ip hello s"
  "conn_writer (new_conn w ip hello s) = w" "conn_hello (new_conn w ip hello s) = hello"
  by (simp_all add: new_conn_def)

lemma handle_hello_run:
  "handle_hello cb now w ip hello s =
     (case policy_check_version (new_conn w ip hello s) hello (register_connection now (new_conn w ip hello s) s) of
        (t, Inl e) \<Rightarrow> (t, Inl e)
      | (t, Inr ok) \<Rightarrow>
          if ok then then_value (bind_connection cb (new_conn w ip hello s))
                       (\<lambda>u. (u, Inr (Some (new_conn w ip hello s)))) t
          else (refuse_connection (new_conn w ip hello s) t, Inr None))"
  by (simp add: handle_hello_def bind_value_def Let_def new_conn_def split: prod.split sum.split)

lemma srv_active_of_registry: "registry_of t = registry_of s \<Longrightarrow> srv_active t = srv_active s"
  by (simp add: registry_of_def)

lemma refuse_active: "srv_active (refuse_connection c s) = srv_active s"
  by (simp add: refuse_connection_def close_writer_def notify_switches_changed_def drop_registration_def
      unregister_switch_def Let_def)

lemma then_some_fst: "fst (then_value a (\<lambda>s. (s, x)) s) = fst (a s)"
  by (simp add: then_value_def split: prod.split option.split)

lemma taken_slot_stays:
  assumes "srv_active s \<noteq> None"
  shows "srv_active (fst (handle_hello cb now w ip hello s)) = srv_active s"
proof -
  let ?c = "new_conn w ip hello s"
  obtain t r where p: "policy_check_version ?c hello (register_connection now ?c s) = (t, r)" by fastforce
  with registry_policy [of ?c hello "register_connection now ?c s"]
  have t: "srv_active t = srv_active s"
    by (simp add: registry_of_def register_connection_fields)
  then have "srv_active (fst (bind_connection cb ?c t)) = srv_active s"
    using registry_bind_taken [of t cb ?c] assms by (simp add: registry_of_def)
  with p t show ?thesis
    by (simp add: handle_hello_run then_some_fst refuse_active split: sum.split)
qed

lemma refused_state:
  assumes "snd (handle_hello cb now w ip hello s) = Inr None"
  obtains t where "registry_of t = registry_of (register_connection now (new_conn w ip hello s) s)"
    "fst (handle_hello cb now w ip hello s) = refuse_connection (new_conn w ip hello s) t"
proof -
  let ?c = "new_conn w ip hello s"
  obtain t r where p: "policy_check_version ?c hello (register_connection now ?c s) = (t, r)" by fastforce
  then have "registry_of t = registry_of (register_connection now ?c s)"
    using registry_policy [of ?c hello "register_connection now ?c s"] by simp
  moreover have "fst (handle_hello cb now w ip hello s) = refuse_connection ?c t"
    using assms p by (auto simp: handle_hello_run then_value_def split: sum.splits if_splits prod.splits option.splits)
  ultimately show thesis by (rule that)
qed

section \<open>Properties\<close>

text \<open>A refused reconnect wedges the active slot: when the active Switch reconnects and the version
  policy refuses it, its registration is gone but the slot still names it. No later connection can take the
  slot, whatever its hello says, no message reaches any Switch, and rebinding that id does nothing.\<close>

theorem refused_reconnect_wedges_slot:
  assumes "srv_active s = Some d" "effective_device_id ip hello s = d"
    "snd (handle_hello cb now w ip hello s) = Inr None"
  shows "let t = fst (handle_hello cb now w ip hello s)
    in srv_active t = Some d \<and> dict_get (connections t) d = None \<and>
       send_active msg t = (t, None) \<and> set_active cb (Some d) t = (t, Inr False) \<and>
       srv_active (fst (handle_hello cb now' w' ip' hello' t)) = Some d"
proof -
  let ?t = "fst (handle_hello cb now w ip hello s)"
  have act: "srv_active ?t = Some d" using taken_slot_stays [of s] assms(1) by simp
  obtain u where u: "registry_of u = registry_of (register_connection now (new_conn w ip hello s) s)"
    "?t = refuse_connection (new_conn w ip hello s) u" using assms(3) by (rule refused_state)
  have "connections u = dict_set d (new_conn w ip hello s) (connections s)"
    using u(1) assms(2) by (simp add: registry_of_def register_connection_fields)
  then have gone: "dict_get (connections ?t) d = None"
    by (simp add: u(2) refuse_connection_def is_registered_def close_writer_def notify_switches_changed_def
        drop_registration_def unregister_switch_def Let_def assms(2))
  have "srv_active (fst (handle_hello cb now' w' ip' hello' ?t)) = Some d"
    using taken_slot_stays [of ?t] act by simp
  with act gone show ?thesis
    by (simp add: Let_def send_active_def active_conn_def set_active_def)
qed

lemma sample_id: "effective_device_id ''10.0.0.5'' (sample_hello v) sample_server = ''sw''"
  by (simp add: effective_device_id_def hello_str_def get_str_def json_str_def json_get_def dict_get_or_def sample_hello_def strip_by_def is_space_def
      resolve_device_id_def sample_server_def sample_conn_def)

lemma sample_refused: "snd (handle_hello idle_callbacks 9 2 ''10.0.0.5'' (sample_hello ''0.9'') sample_server) = Inr None"
  by code_simp

theorem refused_reconnect_wedges_slot_witness:
  "let t = fst (handle_hello idle_callbacks 9 2 ''10.0.0.5'' (sample_hello ''0.9'') sample_server)
    in srv_active t = Some ''sw'' \<and> dict_get (connections t) ''sw'' = None \<and>
       send_active Activate t = (t, None) \<and> set_active idle_callbacks (Some ''sw'') t = (t, Inr False) \<and>
       srv_active (fst (handle_hello idle_callbacks 10 3 ''10.0.0.7'' (sample_hello ''1.0'') t)) = Some ''sw''"
  by (rule refused_reconnect_wedges_slot) (simp_all add: sample_id sample_refused, simp add: sample_server_def)

text \<open>A reconnect of the active Switch is parked: its new connection takes over the registration, so
  the server goes on sending live messages to it, but it is told that it is inactive, gets no replay, and
  rebinding it is reported as done without sending anything.\<close>

theorem active_reconnect_parked:
  assumes "srv_active s = Some d" "effective_device_id ip hello s = d"
    "version_accepted hello (srv_client_ver s)" "w \<notin> set (conn_writers s)" "open_writer w s" "wr_out (writers s w) = []"
    "snd (handle_hello cb now w ip hello s) = Inr (Some c)"
  shows "let t = fst (handle_hello cb now w ip hello s)
    in (\<exists>ack. ack_ok ack \<and> wr_out (writers t w) = [HelloAck ack, Kick ''inactive'']) \<and>
       active_conn t = Some c \<and> set_active cb (Some d) t = (t, Inr True)"
proof -
  define c' where "c' = new_conn w ip hello s"
  define s1 where "s1 = register_connection now c' s"
  define ack where "ack = \<lparr>ack_ok = True, ack_seed = ap_seed s1, ack_slot = ap_slot s1,
       ack_cap_table_hash = hello_str hello ''cap_table_hash'', ack_deathlink_enabled = srv_deathlink s1,
       ack_client_ver = (if srv_client_ver s1 = [] then None else Some (srv_client_ver s1)), ack_err = None\<rparr>"
  have w: "writers s1 w = writers s w"
  proof -
    have "conn_writer old \<noteq> w" if "dict_get (connections s) d = Some old" for d old
      using map_of_SomeD [OF that] assms(4) by (force simp: conn_writers_def)
    then show ?thesis
      by (auto simp: s1_def register_connection_def register_switch_def close_writer_def Let_def split: option.split)
  qed
  have s1: "srv_active s1 = Some d" "connections s1 = dict_set d c' (connections s)" "srv_client_ver s1 = srv_client_ver s"
    by (simp_all add: s1_def register_connection_fields assms(1,2) c'_def)
  have pol: "policy_check_version c' hello s1 = (s1, Inr True)"
    by (rule policy_accepts) (simp add: s1(3) assms(3))
  have bind: "handle_hello cb now w ip hello s = then_value (bind_connection cb c') (\<lambda>u. (u, Inr (Some c'))) s1"
    by (simp add: handle_hello_run c'_def [symmetric] s1_def [symmetric] pol)
  have enc: "encodable (HelloAck ack)"
  proof (rule ccontr)
    assume "\<not> encodable (HelloAck ack)"
    then have "send_hello_ack c' s1 = (s1, Some ValueError)"
      using assms(5) w by (simp add: send_hello_ack_def send_to_conn_def Let_def open_writer_def encodable_def encode_def
          ack_def c'_def)
    with assms(7) show False by (simp add: bind then_value_def bind_connection_def s1(1))
  qed
  let ?t = "notify_switches_changed (emit w [HelloAck ack, Kick ''inactive''] s1)"
  have op: "open_writer (conn_writer c') s1" using assms(5) w by (simp add: open_writer_def c'_def)
  have "send_hello_ack c' s1 = (emit w [HelloAck ack] s1, None)"
    using send_to_conn_emit [OF op enc] by (simp add: send_hello_ack_def ack_def c'_def)
  moreover have "send_to_conn c' (Kick ''inactive'') (emit w [HelloAck ack] s1) =
      (emit w [HelloAck ack, Kick ''inactive''] s1, None)"
    using send_to_conn_emit [of c' "emit w [HelloAck ack] s1" "Kick ''inactive''"] op by (simp add: c'_def)
  ultimately have t: "handle_hello cb now w ip hello s = (?t, Inr (Some c'))"
    by (simp add: bind then_value_def bind_connection_def s1(1) update_def)
  with assms(7) have c: "c = c'" by simp
  have "ack_ok ack" by (simp add: ack_def)
  moreover have "wr_out (writers ?t w) = [HelloAck ack, Kick ''inactive'']"
    by (simp add: notify_switches_changed_def emit_writers w assms(6))
  moreover have "active_conn ?t = Some c" "srv_active ?t = Some d" "dict_get (connections ?t) d = Some c"
    by (simp_all add: active_conn_def notify_switches_changed_def s1(1,2) c)
  ultimately show ?thesis by (auto simp: t set_active_def Let_def)
qed

lemma sample_parked: "snd (handle_hello idle_callbacks 9 2 ''10.0.0.5'' (sample_hello ''1.0'') sample_server) =
    Inr (Some (new_conn 2 ''10.0.0.5'' (sample_hello ''1.0'') sample_server))"
  by code_simp

theorem active_reconnect_parked_witness:
  "let t = fst (handle_hello idle_callbacks 9 2 ''10.0.0.5'' (sample_hello ''1.0'') sample_server)
    in (\<exists>ack. ack_ok ack \<and> wr_out (writers t 2) = [HelloAck ack, Kick ''inactive'']) \<and>
       active_conn t = Some (new_conn 2 ''10.0.0.5'' (sample_hello ''1.0'') sample_server) \<and>
       set_active idle_callbacks (Some ''sw'') t = (t, Inr True)"
  by (rule active_reconnect_parked [OF _ sample_id _ _ _ _ sample_parked])
    (simp_all add: sample_server_def init_server_def bridge_state.defs server.defs conn_writers_def sample_conn_def open_writer_def
      version_accepted_def sample_hello_def hello_str_def get_str_def json_str_def json_get_def dict_get_or_def)

section \<open>Versions\<close>

text \<open>The version policy orders versions consistently: \<open>_compare_versions\<close> is antisymmetric and
  transitive, and two versions compare as equal exactly when their leading numbers agree.\<close>

theorem versions_ordered:
  "compare_versions b a = - compare_versions a b \<and>
   (compare_versions a b = 0 \<longleftrightarrow> parse_version a = parse_version b) \<and>
   (compare_versions a b \<le> 0 \<and> compare_versions b c \<le> 0 \<longrightarrow> compare_versions a c \<le> 0)"
proof (intro conjI impI)
  show "compare_versions b a = - compare_versions a b"
    unfolding compare_versions_def by (auto dest: order.asym)
  show "compare_versions a b = 0 \<longleftrightarrow> parse_version a = parse_version b"
    unfolding compare_versions_def by (auto simp: antisym_conv3)
  have le: "compare_versions x y \<le> 0 \<longleftrightarrow> parse_version x \<le> parse_version y" for x y
    unfolding compare_versions_def by (auto simp: not_less less_le)
  assume "compare_versions a b \<le> 0 \<and> compare_versions b c \<le> 0"
  then show "compare_versions a c \<le> 0" unfolding le by (meson order_trans)
qed

theorem versions_ordered_witness:
  "compare_versions ''0.2.0'' ''0.10.0'' \<le> 0 \<and> compare_versions ''0.2.0'' ''1.0'' \<le> 0"
proof -
  have 1: "compare_versions ''0.2.0'' ''0.10.0'' = - 1" and 2: "compare_versions ''0.10.0'' ''1.0'' = - 1"
    by code_simp+
  from versions_ordered [of "''0.10.0''" "''0.2.0''" "''1.0''"] 1 2 show ?thesis by simp
qed

end
