(* ===== verification/Client_Context.thy ===== *)
theory Client_Context
  imports Switch_Replay
begin

text \<open>
  \<open>client/context.py\<close>, first half: the state of \<open>SMOContext\<close> and what it does for the Switch
  side (checks, labels, goal, death, pay snapshots), with the wiring of \<open>client/main.py\<close> that hands
  these functions to the \<open>SwitchServer\<close>. The context owns the server, so its record extends the
  server's; \<open>self.switch\<close> is always attached, as \<open>main\<close> attaches it before the AP connection.

  The attributes \<open>CommonContext\<close> maintains (\<open>auth\<close>, \<open>slot\<close>, \<open>checked_locations\<close>,
  \<open>missing_locations\<close>, \<open>player_names\<close>, \<open>item_names\<close>, \<open>location_names\<close>) are fields
  prefixed \<open>fw_\<close> that this code only reads. \<open>ap_out\<close> collects what is handed to
  \<open>send_msgs\<close>, \<open>client_output\<close> what is written to the client's log window. The map files on
  disk, the sentinel of the setup wizard and the clock are fields of the environment (\<open>disk_\<close>).
\<close>

section \<open>State\<close>

text \<open>A map file as \<open>_reload_one\<close> sees it: no file, or its decoded JSON (or the exception of reading it).\<close>

datatype map_file = NoFile | MapFile "exn + json"

record client = server +
  fw_auth :: "string option"
  fw_slot :: "int option"
  fw_player_names :: "(int, string) dict"
  fw_checked_locations :: "int set"
  fw_missing_locations :: "int set"
  fw_item_names :: "(string, (int, string) dict) dict"
  fw_location_names :: "(string, (int, string) dict) dict"
  fw_deathlink_tag :: bool
  locations_checked :: "int set"
  ap_out :: "ap_msg list"
  client_output :: "string list"
  disk_shine_map :: map_file
  disk_capture_map :: map_file
  disk_sentinel :: "int option"
  disk_clock_ms :: int
  dp :: data_package
  ctx_shine_map :: shine_map
  ctx_capture_map :: capture_map
  maps_sentinel_seen :: "int option"
  warned_stale_shine_map :: bool
  deathlink_enabled :: bool
  capturesanity_enabled :: bool
  abilitysanity_enabled :: bool
  talkatoo_mode :: bool
  talkatoo_order :: "(string, string list) dict"
  mm_bonus_captures :: "string list"
  mm_bonus_abilities :: "string list"
  display_enabled :: bool
  colors :: colors_config
  ctx_scout_cache :: scout_cache
  switch_reported_loc_ids :: "int set"
  roominfo_games :: "string list option"
  disconnected_intentionally :: bool
  goal_reported :: bool
  goal_location_name :: "string option"
  shop_labels_signature :: "shop_label_entry list option"

definition init_client ::
  "server \<Rightarrow> data_package \<Rightarrow> shine_map \<Rightarrow> capture_map \<Rightarrow> bool \<Rightarrow> bool \<Rightarrow> colors_config \<Rightarrow> client" where
  "init_client srv datapackage smap cmap deathlink display cols = server.extend srv
     (client.fields None None [] {} {} [] [] deathlink {} [] [] NoFile NoFile None 0
        datapackage smap cmap None False deathlink True True False [] [] [] display cols [] {} None False False None None)"

definition game_name :: string where "game_name = ''Spicy Meatball Overdrive''"

definition festival_location :: string where "festival_location = ''Metro: A Traditional Festival!''"

definition goal_loc_by_option :: "(int, string) dict" where
  "goal_loc_by_option = [(1, festival_location)]"

definition festival_zeroed_kingdoms :: "string list" where
  "festival_zeroed_kingdoms =
     [''Metro'', ''Snow'', ''Seaside'', ''Luncheon'', ''Ruined'', ''Bowser'' @ [CHR 39] @ ''s'', ''Moon'']"

definition send_msgs :: "ap_msg list \<Rightarrow> client \<Rightarrow> client" where
  "send_msgs ms c = c\<lparr>ap_out := ap_out c @ ms\<rparr>"

definition ctx_output :: "string \<Rightarrow> client \<Rightarrow> client" where
  "ctx_output text c = c\<lparr>client_output := client_output c @ [text]\<rparr>"

definition is_festival_goal :: "client \<Rightarrow> bool" where
  "is_festival_goal c \<longleftrightarrow> goal_location_name c = Some festival_location"

definition is_ap_ready :: "client \<Rightarrow> bool" where
  "is_ap_ready c \<longleftrightarrow> ap_conn c = ''ready''"

definition sender_name :: "int option \<Rightarrow> client \<Rightarrow> string" where
  "sender_name idx c =
     (case idx of None \<Rightarrow> ''self'' | Some i \<Rightarrow> dict_get_or (fw_player_names c) i (show_int i))"

definition reconstruct_location_name ::
  "string \<Rightarrow> string option \<Rightarrow> string option \<Rightarrow> string option \<Rightarrow> string option \<Rightarrow> string" where
  "reconstruct_location_name kind kingdom shine_id cap name =
     (if kind = ''moon'' \<and> truthy kingdom \<and> truthy shine_id then the kingdom @ '': '' @ the shine_id
      else if kind = ''capture'' \<and> truthy cap then ''Capture: '' @ the cap
      else if truthy name then the name
      else strip_by (\<lambda>c. c = CHR '':'' \<or> c = CHR '' '')
             (or_default kingdom [] @ '': '' @ or_str shine_id (or_str cap [])))"

section \<open>Map reload\<close>

text \<open>\<open>_reload_one\<close>, for a table of \<open>before\<close> entries: \<open>reload\<close> is the map's own reload from the
  decoded file. The flag is the comparison of the two entry counts.\<close>

definition reload_one :: "map_file \<Rightarrow> nat \<Rightarrow> (exn + json \<Rightarrow> 'm \<Rightarrow> 'm \<times> (exn + nat)) \<Rightarrow> 'm \<Rightarrow> 'm \<times> bool" where
  "reload_one file before reload target =
     (case file of
        NoFile \<Rightarrow> (target, False)
      | MapFile r \<Rightarrow>
          if 0 < before \<and> (case r of Inl e \<Rightarrow> True | Inr j \<Rightarrow> j = JList []) then (target, False)
          else (case reload r target of
                  (t, Inl e) \<Rightarrow> (t, False)
                | (t, Inr after) \<Rightarrow> (t, after \<noteq> before \<or> (before = 0 \<and> 0 < after))))"

definition shine_map_len :: "shine_map \<Rightarrow> nat" where "shine_map_len m = length (by_pair m)"
definition capture_map_len :: "capture_map \<Rightarrow> nat" where "capture_map_len m = length (cap_table m)"

definition reload_needed :: "client \<Rightarrow> bool" where
  "reload_needed c \<longleftrightarrow>
     (case (disk_sentinel c, maps_sentinel_seen c) of
        (None, None) \<Rightarrow> False
      | (Some t, Some seen) \<Rightarrow> \<not> t \<le> seen
      | _ \<Rightarrow> True)"

definition reload_maps :: "bool \<Rightarrow> client \<Rightarrow> client \<times> bool \<times> bool" where
  "reload_maps force c =
     (if \<not> force \<and> \<not> reload_needed c then (c, False, False)
      else (let (sm, shine_reloaded) =
                  reload_one (disk_shine_map c) (shine_map_len (ctx_shine_map c)) reload_shine_map (ctx_shine_map c);
                (cm, cap_reloaded) =
                  reload_one (disk_capture_map c) (capture_map_len (ctx_capture_map c)) reload_capture_map (ctx_capture_map c);
                c = c\<lparr>ctx_shine_map := sm, ctx_capture_map := cm\<rparr>;
                c = (if disk_sentinel c = None then c else c\<lparr>maps_sentinel_seen := disk_sentinel c\<rparr>);
                c = (if shine_reloaded \<and> 0 < shine_map_len (ctx_shine_map c)
                     then c\<lparr>warned_stale_shine_map := False\<rparr> else c)
            in (c, shine_reloaded, cap_reloaded)))"

section \<open>Checks\<close>

definition report_goal :: "client \<Rightarrow> client" where
  "report_goal c =
     (if goal_reported c then c else send_msgs [StatusUpdateGoal] (c\<lparr>goal_reported := True\<rparr>))"

text \<open>\<open>str()\<close> of an optional value in a message.\<close>

definition show_opt :: "string option \<Rightarrow> string" where
  "show_opt x = (case x of None \<Rightarrow> ''None'' | Some s \<Rightarrow> s)"

definition unknown_moon_line :: "string option \<Rightarrow> string option \<Rightarrow> int option \<Rightarrow> string" where
  "unknown_moon_line stage obj uid =
     ''[unknown moon] stage='' @ show_opt stage @ '' object='' @ show_opt obj @ '' uid='' @ show_opt (map_option show_int uid)"

definition arrow :: string where "arrow = [CHR 0xE2, CHR 0x86, CHR 0x92]"

definition stale_map_warning :: "nat \<Rightarrow> string option \<Rightarrow> string option \<Rightarrow> string" where
  "stale_map_warning n stage obj =
     (if n = 0 then
        ''Cannot send moon checks: shine_map.json is empty. Run /setup '' @ arrow @
        '' extract step (or re-run if it already completed) and reconnect. Until then, every moon you '' @
        ''collect will be lost (the Switch sent it but SMOClient can'' @ [CHR 39] @ ''t translate it to an AP location id).''
      else
        ''Cannot resolve moon (stage='' @ show_opt stage @ '', object='' @ show_opt obj @ ''). shine_map.json has '' @
        show_nat n @ '' entries but none match. Re-run /setup '' @ arrow @ '' extract step against a fresh SMO '' @
        ''1.0.0 USen dump; this moon will need to be recollected once the map is updated.'')"

definition unknown_moon :: "string option \<Rightarrow> string option \<Rightarrow> int option \<Rightarrow> client \<Rightarrow> client" where
  "unknown_moon stage obj uid c =
     (let c = add_log (unknown_moon_line stage obj uid) c
      in if warned_stale_shine_map c then c
         else ctx_output (stale_map_warning (shine_map_len (ctx_shine_map c)) stage obj)
                (c\<lparr>warned_stale_shine_map := True\<rparr>))"

text \<open>The second half of \<open>report_check\<close>, from the resolved names on.\<close>

definition forward_check :: "string \<Rightarrow> string option \<Rightarrow> string option \<Rightarrow> string option \<Rightarrow> client \<Rightarrow> client \<times> int option" where
  "forward_check kind kingdom shine_id cap c =
     (let loc_name = reconstruct_location_name kind kingdom shine_id cap None
      in case dict_get (location_name_to_id (dp c)) loc_name of
           None \<Rightarrow> (c, None)
         | Some loc_id \<Rightarrow>
             (let c = c\<lparr>switch_reported_loc_ids := insert loc_id (switch_reported_loc_ids c)\<rparr>
              in if loc_id \<in> locations_checked c then (c, Some loc_id)
                 else (let c = send_msgs [LocationChecks [loc_id]] c;
                           c = c\<lparr>locations_checked := insert loc_id (locations_checked c)\<rparr>
                       in (if goal_location_name c = Some loc_name then report_goal c else c, Some loc_id))))"

definition report_check ::
  "string \<Rightarrow> string option \<Rightarrow> string option \<Rightarrow> string option \<Rightarrow> string option \<Rightarrow> string option \<Rightarrow> int option \<Rightarrow>
     string option \<Rightarrow> client \<Rightarrow> client \<times> int option" where
  "report_check kind kingdom shine_id cap stage_name object_id shine_uid hack_name c =
     (if kind = ''moon'' \<and> (truthy stage_name \<or> truthy object_id) then
        (case resolve_shine (ctx_shine_map c) stage_name object_id shine_uid of
           Some (k, s) \<Rightarrow> forward_check kind (Some k) (Some s) cap c
         | None \<Rightarrow>
             (let (c, shine_new, cap_new) = reload_maps True c
              in case (if shine_new then resolve_shine (ctx_shine_map c) stage_name object_id shine_uid else None) of
                   Some (k, s) \<Rightarrow> forward_check kind (Some k) (Some s) cap c
                 | None \<Rightarrow> (unknown_moon stage_name object_id shine_uid c, None)))
      else if kind = ''capture'' \<and> truthy hack_name then
        forward_check kind kingdom shine_id
          (Some (or_str (resolve_capture (ctx_capture_map c) hack_name) (the hack_name))) c
      else forward_check kind kingdom shine_id cap c)"

definition already_checked_loc_ids :: "client \<Rightarrow> int set" where
  "already_checked_loc_ids c = fw_checked_locations c \<union> locations_checked c"

definition resolve_entry_to_loc_id :: "check_dict \<Rightarrow> client \<Rightarrow> int option" where
  "resolve_entry_to_loc_id entry c =
     (let kind = or_str (get_str entry ''kind'') ''moon''; kingdom = get_str entry ''kingdom'';
          shine_id = get_str entry ''shine_id''; cap = get_str entry ''cap'';
          stage_name = get_str entry ''stage_name''; object_id = get_str entry ''object_id'';
          shine_uid = get_int entry ''shine_uid''; hack_name = get_str entry ''hack_name''
      in if kind = ''moon'' \<and> (truthy stage_name \<or> truthy object_id) then
           (case resolve_shine (ctx_shine_map c) stage_name object_id shine_uid of
              None \<Rightarrow> None
            | Some (k, s) \<Rightarrow>
                dict_get (location_name_to_id (dp c)) (reconstruct_location_name kind (Some k) (Some s) cap None))
         else if kind = ''capture'' \<and> truthy hack_name then
           dict_get (location_name_to_id (dp c)) (reconstruct_location_name kind kingdom shine_id
             (Some (or_str (resolve_capture (ctx_capture_map c) hack_name) (the hack_name))) None)
         else dict_get (location_name_to_id (dp c)) (reconstruct_location_name kind kingdom shine_id cap None))"

section \<open>Labels\<close>

text \<open>The item a location holds and its recipient, as far as the scouts tell.\<close>

definition scouted_item :: "int \<Rightarrow> client \<Rightarrow> (scout_info \<times> string) option" where
  "scouted_item loc_id c =
     (case scout_lookup (ctx_scout_cache c) loc_id of
        None \<Rightarrow> None
      | Some scout \<Rightarrow>
          (case dict_get (item_id_to_name (dp c)) (scout_item_id scout) of
             None \<Rightarrow> None
           | Some item_name \<Rightarrow> if item_name = [] then None else Some (scout, item_name)))"

definition compose_moon_label_for_location :: "int \<Rightarrow> client \<Rightarrow> string option" where
  "compose_moon_label_for_location loc_id c =
     (if \<not> display_enabled c then None
      else (case scouted_item loc_id c of
              None \<Rightarrow> None
            | Some (scout, item_name) \<Rightarrow>
                (let ci = classify_item (dp c) item_name;
                     ci = (if ci_kind ci = ABILITY \<and> Some (scout_recipient scout) = fw_slot c
                           then (let move = newly_unlocked_move item_name (dict_get_or (abilities_received c) item_name 0 + 1)
                                 in if truthy move then ci\<lparr>ci_name := the move\<rparr> else ci)
                           else ci)
                 in Some (format_moon_label ci (sender_name (Some (scout_recipient scout)) c) (fw_auth c)
                      max_moon_label_bytes))))"

definition compose_shop_label_for_location :: "int \<Rightarrow> client \<Rightarrow> string option" where
  "compose_shop_label_for_location loc_id c =
     (if \<not> display_enabled c then None
      else (case scouted_item loc_id c of
              None \<Rightarrow> None
            | Some (scout, item_name) \<Rightarrow>
                Some (format_shop_moon_label (classify_item (dp c) item_name)
                  (sender_name (Some (scout_recipient scout)) c) (fw_auth c) max_moon_label_bytes)))"

definition build_reconcile_cappy_item :: "int \<Rightarrow> client \<Rightarrow> item_msg option" where
  "build_reconcile_cappy_item loc_id c =
     (case scouted_item loc_id c of
        None \<Rightarrow> None
      | Some (scout, item_name) \<Rightarrow>
          if fw_slot c \<noteq> Some (scout_recipient scout) then None
          else (let ci = classify_item (dp c) item_name
                in if ci_kind ci \<notin> {MOON, CAPTURE} then None
                   else (let ref = to_ref ci
                         in Some \<lparr>im_kind = ref_kind ref, im_kingdom = ref_kingdom ref, im_shine_id = ref_shine_id ref,
                              im_cap = ref_cap ref, im_name = ref_name ref, im_from = ''(offline)'',
                              im_hack_name = (if ref_kind ref = ''capture'' \<and> truthy (ref_cap ref)
                                              then cap_to_hack (ctx_capture_map c) (ref_cap ref) else None),
                              im_classification = ref_classification ref\<rparr>)))"

section \<open>Outstanding moons, goal and death\<close>

definition outstanding_entries_for_switch :: "client \<Rightarrow> outstanding_entry list" where
  "outstanding_entries_for_switch c =
     (let outstanding = or_default (compute_outstanding c) []; festival = is_festival_goal c
      in map (\<lambda>(k, v). \<lparr>out_kingdom = k,
                out_count = (if festival \<and> k \<in> set festival_zeroed_kingdoms then 0 else v)\<rparr>) (sort outstanding))"

definition push_outstanding_to_switch :: "client action" where
  "push_outstanding_to_switch c =
     (if compute_outstanding c = None then (c, None)
      else send_active (Outstanding (outstanding_entries_for_switch c)) c)"

definition apply_pay_snapshot_from_switch :: "(string, int) dict \<Rightarrow> client action" where
  "apply_pay_snapshot_from_switch totals = seq [update (apply_pay_snapshot totals), push_outstanding_to_switch]"

definition report_death :: "int \<Rightarrow> client \<Rightarrow> client" where
  "report_death ts_ms c =
     (let c = bump_death_count c
      in if \<not> deathlink_enabled c then c
         else send_msgs [Bounce (if ts_ms \<noteq> 0 then ts_ms else disk_clock_ms c) (or_default (fw_auth c) [])] c)"

section \<open>Wiring\<close>

definition on_check :: "check_dict \<Rightarrow> client \<Rightarrow> client \<times> (exn + int option)" where
  "on_check msg c =
     (let (c, r) = report_check (msg_kind msg) (get_str msg ''kingdom'') (get_str msg ''shine_id'') (get_str msg ''cap'')
            (get_str msg ''stage_name'') (get_str msg ''object_id'') (get_int msg ''shine_uid'') (get_str msg ''hack_name'') c
      in (c, Inr r))"

definition smo_callbacks :: "(string, stage_rec) dict \<Rightarrow> client callbacks" where
  "smo_callbacks stages = \<lparr>
     cb_check = on_check,
     cb_goal = update report_goal,
     cb_death = Some (\<lambda>ts. update (report_death ts)),
     cb_compose_label = Some (\<lambda>l c. Inr (compose_moon_label_for_location l c)),
     cb_pay_snapshot = Some apply_pay_snapshot_from_switch,
     cb_outstanding = Some (\<lambda>c. Inr (outstanding_entries_for_switch c)),
     cb_all_captures = Some (\<lambda>c. iter_all_captures (ctx_capture_map c)),
     cb_ap_ready = Some is_ap_ready,
     cb_reconcile_item = Some (\<lambda>l c. Inr (build_reconcile_cappy_item l c)),
     cb_already_checked = Some (\<lambda>c. Inr (already_checked_loc_ids c)),
     cb_resolve_entry = Some (\<lambda>e c. Inr (resolve_entry_to_loc_id e c)),
     cb_goal_finished = Some (\<lambda>c. Inr (goal_reported c)),
     cb_stages = stages\<rparr>"

end
