(* ===== verification/Client_Packages.thy ===== *)
theory Client_Packages
  imports Client_Context
begin

text \<open>
  \<open>client/context.py\<close>, second half: what arrives from the AP server (received items, the
  Connected handshake with its slot data, location info), the Talkatoo pools and the shop labels derived
  from it, and what is pushed to the Switch. The slot data has the fields and types the apworld fills; an
  absent key is \<open>None\<close>. A \<open>create_task\<close> whose task only sends is run at once, its exception lost.
  Where Python iterates a \<open>set\<close>, the model iterates its sorted list.
\<close>

section \<open>Received items\<close>

record parsed_item =
  pi_ref :: item_ref
  pi_classification :: string
  pi_sender :: string
  pi_cappy_from :: string

definition parse_received_item :: "network_item \<Rightarrow> client \<Rightarrow> parsed_item option" where
  "parse_received_item ni c =
     (case ni_get ni ''item'' of
        None \<Rightarrow> None
      | Some item_id \<Rightarrow>
          (let name = dict_get_or (item_id_to_name (dp c)) item_id (''<unknown:'' @ show_int item_id @ ''>'');
               ref = to_ref (classify_item (dp c) name);
               ref = (if ref_kind ref = ''capture'' \<and> truthy (ref_cap ref)
                      then ref\<lparr>ref_hack_name := cap_to_hack (ctx_capture_map c) (ref_cap ref)\<rparr> else ref);
               classification =
                 classification_value (classification_from_flags (or_default (ni_get ni ''flags'') 0));
               ref = ref\<lparr>ref_classification := Some classification\<rparr>;
               sender_idx = ni_get ni ''player''; sender = sender_name sender_idx c;
               cappy_from =
                 (if sender_idx \<noteq> None \<and> sender_idx = fw_slot c
                  then (case ni_get ni ''location'' of
                          Some l \<Rightarrow> if l \<in> switch_reported_loc_ids c then [] else ''(self)''
                        | None \<Rightarrow> ''(self)'')
                  else sender)
           in Some \<lparr>pi_ref = ref, pi_classification = classification, pi_sender = sender, pi_cappy_from = cappy_from\<rparr>))"

text \<open>What the batch has brought so far.\<close>

record batch_flags =
  bf_moon :: bool
  bf_coin :: bool
  bf_ability :: bool

definition no_flags :: batch_flags where
  "no_flags = \<lparr>bf_moon = False, bf_coin = False, bf_ability = False\<rparr>"

definition received_item_msg :: "parsed_item \<Rightarrow> item_msg" where
  "received_item_msg p =
     (let ref = pi_ref p
      in \<lparr>im_kind = ref_kind ref, im_kingdom = ref_kingdom ref, im_shine_id = ref_shine_id ref, im_cap = ref_cap ref,
          im_name = ref_name ref, im_from = pi_cappy_from p, im_hack_name = ref_hack_name ref,
          im_classification = Some (pi_classification p)\<rparr>)"

text \<open>\<open>xs[3 * (n - 1) : 3 * n]\<close> for the \<open>n\<close>-th multi-moon.\<close>

definition bonus_slice :: "'a list \<Rightarrow> int \<Rightarrow> 'a list" where
  "bonus_slice xs n = take 3 (drop (nat (3 * (n - 1))) xs)"

definition bonus_capture_msg :: "string \<Rightarrow> client \<Rightarrow> item_msg" where
  "bonus_capture_msg cap c =
     \<lparr>im_kind = ''capture'', im_kingdom = None, im_shine_id = None, im_cap = Some cap, im_name = Some cap,
      im_from = ''(self)'', im_hack_name = cap_to_hack (ctx_capture_map c) (Some cap), im_classification = None\<rparr>"

definition grant_bonuses :: "item_ref \<Rightarrow> batch_flags \<Rightarrow> client \<Rightarrow> client \<times> (exn + batch_flags)" where
  "grant_bonuses ref fl c =
     (if ref_name ref = Some ''Mushroom Kingdom Multi-Moon'' \<and> mm_bonus_captures c \<noteq> [] then
        (let n = received_item_count (the (ref_name ref)) c
         in then_value (for_each (bonus_slice (mm_bonus_captures c) n)
                (\<lambda>cap. seq [update (grant_bonus_capture cap),
                             \<lambda>c. send_active (Item (bonus_capture_msg cap c)) c]))
              (\<lambda>c. (c, Inr (fl\<lparr>bf_coin := True\<rparr>))) c)
      else if ref_name ref = Some ''Dark Side Multi-Moon'' \<and> mm_bonus_abilities c \<noteq> [] then
        (fold grant_bonus_ability (mm_bonus_abilities c) c, Inr (fl\<lparr>bf_ability := True, bf_coin := True\<rparr>))
      else (c, Inr fl))"

text \<open>The body of the loop for one item at position \<open>pos\<close>.\<close>

definition receive_one ::
  "int \<Rightarrow> network_item \<Rightarrow> int \<Rightarrow> batch_flags \<Rightarrow> client \<Rightarrow> client \<times> (exn + batch_flags)" where
  "receive_one initial_mirror_len ni pos fl c =
     (case parse_received_item ni c of
        None \<Rightarrow> (c, Inr fl)
      | Some p \<Rightarrow>
          if pos < initial_mirror_len then (c, Inr fl)
          else (let ref = pi_ref p;
                    c = add_received_item \<lparr>ev_item = ref, ev_sender = pi_sender p, ev_cappy_from = pi_cappy_from p\<rparr> c
                in if ref_kind ref = ''moon'' \<and> truthy (ref_kingdom ref) then
                     then_value (send_active (Item (received_item_msg p)))
                       (grant_bonuses ref (fl\<lparr>bf_moon := True, bf_coin := (bf_coin fl \<or> ref_kingdom ref = Some ''Cap'')\<rparr>)) c
                   else if ref_kind ref = ''ability'' then (c, Inr (fl\<lparr>bf_ability := True, bf_coin := True\<rparr>))
                   else then_value (send_active (Item (received_item_msg p)))
                          (grant_bonuses ref (if ref_kind ref = ''capture'' then fl\<lparr>bf_coin := True\<rparr> else fl)) c))"

fun receive_items ::
  "int \<Rightarrow> network_item list \<Rightarrow> int \<Rightarrow> batch_flags \<Rightarrow> client \<Rightarrow> client \<times> (exn + batch_flags)" where
  "receive_items initial_mirror_len [] pos fl c = (c, Inr fl)"
| "receive_items initial_mirror_len (ni # nis) pos fl c =
     bind_value (receive_one initial_mirror_len ni pos fl) (receive_items initial_mirror_len nis (pos + 1)) c"

definition process_received_items :: "int \<Rightarrow> network_item list \<Rightarrow> client action" where
  "process_received_items ap_index items c =
     ignore_value
       (bind_value (receive_items (int (length (received_items c))) items ap_index no_flags)
         (\<lambda>fl. then_value (seq [if bf_moon fl then push_outstanding_to_switch else skip,
                                if bf_ability fl then push_ability_state else skip,
                                if bf_coin fl then push_coin_grant else skip])
                 (\<lambda>c. (c, Inr ())))) c"

section \<open>Talkatoo\<close>

definition talkatoo_window :: nat where "talkatoo_window = 3"

definition talkatoo_loc_id :: "client \<Rightarrow> string \<Rightarrow> string \<Rightarrow> int option" where
  "talkatoo_loc_id c kingdom shine_id = dict_get (location_name_to_id (dp c)) (kingdom @ '': '' @ shine_id)"

definition any_check_in_talkatoo_order :: "int set \<Rightarrow> client \<Rightarrow> bool" where
  "any_check_in_talkatoo_order loc_ids c \<longleftrightarrow>
     list_ex (\<lambda>(kingdom, order). list_ex (\<lambda>shine_id.
       case talkatoo_loc_id c kingdom shine_id of None \<Rightarrow> False | Some l \<Rightarrow> l \<in> loc_ids) order) (talkatoo_order c)"

text \<open>\<open>loc_id is None or loc_id not in checked\<close>.\<close>

definition uncollected :: "client \<Rightarrow> string \<Rightarrow> string \<Rightarrow> bool" where
  "uncollected c kingdom shine_id \<longleftrightarrow>
     (case talkatoo_loc_id c kingdom shine_id of None \<Rightarrow> True | Some l \<Rightarrow> l \<notin> fw_checked_locations c)"

fun first_index :: "('a \<Rightarrow> bool) \<Rightarrow> 'a list \<Rightarrow> nat" where
  "first_index P [] = 0"
| "first_index P (x # xs) = (if P x then 0 else Suc (first_index P xs))"

definition compute_talkatoo_cursor :: "string \<Rightarrow> client \<Rightarrow> nat" where
  "compute_talkatoo_cursor kingdom c =
     first_index (uncollected c kingdom) (dict_get_or (talkatoo_order c) kingdom [])"

text \<open>The loop over \<open>order[cursor:]\<close> that stops when the window is full.\<close>

fun fill_window :: "(string \<Rightarrow> bool) \<Rightarrow> string list \<Rightarrow> string list \<Rightarrow> string list" where
  "fill_window open_moon [] window = window"
| "fill_window open_moon (m # ms) window =
     (if \<not> open_moon m then fill_window open_moon ms window
      else if talkatoo_window \<le> length (window @ [m]) then window @ [m]
      else fill_window open_moon ms (window @ [m]))"

definition talkatoo_window_of :: "client \<Rightarrow> string \<Rightarrow> string list \<Rightarrow> string list" where
  "talkatoo_window_of c kingdom order =
     fill_window (uncollected c kingdom) (drop (compute_talkatoo_cursor kingdom c) order) []"

definition build_talkatoo_pool_phase5 :: "client \<Rightarrow> (string, string list) dict" where
  "build_talkatoo_pool_phase5 c =
     dict_update_all (filter (\<lambda>(k, w). w \<noteq> [])
       (map (\<lambda>(kingdom, order). (kingdom, talkatoo_window_of c kingdom order)) (talkatoo_order c))) []"

definition fallback_moon :: "client \<Rightarrow> int \<Rightarrow> (string \<times> string) option" where
  "fallback_moon c loc_id =
     (case dict_get (location_id_to_name (dp c)) loc_id of
        None \<Rightarrow> None
      | Some name \<Rightarrow>
          if name = [] then None
          else (let cl = classify_location (dp c) name
                in if ci_kind cl \<noteq> MOON \<or> \<not> truthy (ci_kingdom cl) \<or> \<not> truthy (ci_shine_id cl) then None
                   else if is_progression_location (dp c) name then None
                   else Some (the (ci_kingdom cl), the (ci_shine_id cl))))"

definition build_talkatoo_pool_fallback :: "client \<Rightarrow> (string, string list) dict" where
  "build_talkatoo_pool_fallback c =
     (let loc_ids = sorted_list_of_set (fw_missing_locations c \<union> fw_checked_locations c);
          kingdoms = foldl (\<lambda>d (k, m). dict_set k (dict_get_or d k [] @ [m]) d) []
                       (List.map_filter (fallback_moon c) loc_ids)
      in map (\<lambda>(k, ms). (k, sort ms)) kingdoms)"

definition derive_and_push_talkatoo_pool :: "client action" where
  "derive_and_push_talkatoo_pool c =
     seq [update (\<lambda>c. set_talkatoo_pool (talkatoo_mode c)
            (if talkatoo_order c \<noteq> [] then build_talkatoo_pool_phase5 c else build_talkatoo_pool_fallback c) c),
          push_talkatoo_pool] c"

section \<open>Shop labels and palettes\<close>

definition shop_entry :: "client \<Rightarrow> string \<times> string \<times> string \<Rightarrow> shop_label_entry option" where
  "shop_entry c e =
     (case e of (ap_loc_name, file_name, key) \<Rightarrow>
        if file_name = [] \<or> key = [] then None
        else (case dict_get (location_name_to_id (dp c)) ap_loc_name of
                None \<Rightarrow> None
              | Some loc_id \<Rightarrow>
                  (let label = compose_shop_label_for_location loc_id c
                   in if \<not> truthy label then None
                      else Some \<lparr>shop_file = file_name, shop_key = key, shop_label = the label\<rparr>)))"

definition derive_and_push_shop_labels :: "client action" where
  "derive_and_push_shop_labels c =
     (if \<not> is_ap_ready c then (c, None)
      else (let entries = List.map_filter (shop_entry c) shop_location_to_filekey
            in if entries = [] \<and> \<not> has_any_populated_keys then (c, None)
               else if shop_labels_signature c = Some entries then (c, None)
               else seq [update (\<lambda>c. set_shop_labels entries (c\<lparr>shop_labels_signature := Some entries\<rparr>)),
                         push_shop_labels] c))"

definition own_item_palette :: "client \<Rightarrow> network_item \<Rightarrow> int option" where
  "own_item_palette c ni =
     (if fw_slot c \<noteq> None \<and> ni_get ni ''player'' = fw_slot c \<and> ni_get ni ''item'' \<noteq> None then
        (let item_name = dict_get (item_id_to_name (dp c)) (the (ni_get ni ''item''))
         in if \<not> truthy item_name then None
            else (let ci = classify_item (dp c) (the item_name)
                  in case ci_kind ci of
                       MOON \<Rightarrow> for_kingdom (ci_kingdom ci)
                     | ABILITY \<Rightarrow> for_kingdom (Some ''Dark'')
                     | CAPTURE \<Rightarrow> for_kingdom (Some ''Mushroom'')
                     | OTHER \<Rightarrow> None))
      else None)"

definition palette_entry :: "client \<Rightarrow> network_item \<Rightarrow> (int \<times> int) option" where
  "palette_entry c ni =
     (case ni_get ni ''location'' of
        None \<Rightarrow> None
      | Some loc_id \<Rightarrow>
          (let loc_name = dict_get (location_id_to_name (dp c)) loc_id
           in if \<not> truthy loc_name then None
              else (let cl = classify_location (dp c) (the loc_name)
                    in if ci_kind cl \<noteq> MOON then None
                       else (case resolve_uid_by_location (ctx_shine_map c) (ci_kingdom cl) (ci_shine_id cl) of
                               None \<Rightarrow> None
                             | Some uid \<Rightarrow>
                                 Some (uid, or_default (own_item_palette c ni)
                                   (for_classification (colors c)
                                     (classification_value (classification_from_flags (or_default (ni_get ni ''flags'') 0)))))))))"

definition push_palette_for_scout_batch :: "network_item list \<Rightarrow> client action" where
  "push_palette_for_scout_batch locations c =
     (let batch_palette = dict_update_all (List.map_filter (palette_entry c) locations) []
      in if batch_palette = [] then (c, None)
         else seq [update (\<lambda>c. set_shine_palette (dict_update_all batch_palette (shine_palette c)) c),
                   try_catch (send_shine_scouts batch_palette) skip] c)"

section \<open>The data package\<close>

definition mirror_locations :: "(int, string) dict \<Rightarrow> data_package \<Rightarrow> data_package" where
  "mirror_locations loc_map d =
     foldl (\<lambda>d (i, name). if 0 < i then d\<lparr>location_name_to_id := dict_set name i (location_name_to_id d),
                                       location_id_to_name := dict_set i name (location_id_to_name d)\<rparr> else d) d loc_map"

definition mirror_items :: "(int, string) dict \<Rightarrow> data_package \<Rightarrow> data_package" where
  "mirror_items item_map d =
     foldl (\<lambda>d (i, name). if 0 < i then d\<lparr>item_name_to_id := dict_set name i (item_name_to_id d),
                                       item_id_to_name := dict_set i name (item_id_to_name d)\<rparr> else d) d item_map"

definition game_names :: "client \<Rightarrow> string list" where
  "game_names c = sorted_list_of_set (fst ` set (fw_item_names c) \<union> fst ` set (fw_location_names c))"

definition populate_datapackage_from_self :: "client \<Rightarrow> client" where
  "populate_datapackage_from_self c =
     c\<lparr>dp := foldl (\<lambda>d game.
        (case (dict_get (fw_location_names c) game, dict_get (fw_item_names c) game) of
           (Some loc_map, Some item_map) \<Rightarrow> mirror_items item_map (mirror_locations loc_map d)
         | _ \<Rightarrow> d)) (dp c) (game_names c)\<rparr>"

section \<open>Connected\<close>

record slot_data =
  sd_goal :: "int option"
  sd_capturesanity :: "int option"
  sd_abilitysanity :: "int option"
  sd_death_link :: "int option"
  sd_talkatoo_mode :: "int option"
  sd_talkatoo_order :: "(string, string list) dict option"
  sd_kingdom_gates :: "(string, int) dict option"
  sd_entrance_map :: "(string, string) dict option"
  sd_mm_bonus_captures :: "string list option"
  sd_mm_bonus_abilities :: "string list option"

definition reload_notice :: "bool \<Rightarrow> bool \<Rightarrow> client \<Rightarrow> string" where
  "reload_notice shine_new cap_new c =
     ''Reloaded '' @
     join '' and ''
       ((if shine_new then [''shine_map ('' @ show_nat (shine_map_len (ctx_shine_map c)) @ '' entries)''] else []) @
        (if cap_new then [''capture_map ('' @ show_nat (capture_map_len (ctx_capture_map c)) @ '' entries)''] else [])) @
     '' from %APPDATA%/SMOArchipelago/data/ (wizard ran since SMOClient started).''"

definition reset_for_slot :: "client \<Rightarrow> client" where
  "reset_for_slot c =
     (let new_slot = or_default (fw_auth c) []
      in (if ap_slot c \<noteq> [] \<and> new_slot \<noteq> [] \<and> ap_slot c \<noteq> new_slot
          then (clear_received c)\<lparr>switch_reported_loc_ids := {}, goal_reported := False\<rparr> else c)
         \<lparr>ap_slot := new_slot\<rparr>)"

text \<open>The synchronous start of the handler.\<close>

definition connected_start :: "client \<Rightarrow> client" where
  "connected_start c =
     (let (c, shine_new, cap_new) = reload_maps False c;
          c = (if shine_new \<or> cap_new then ctx_output (reload_notice shine_new cap_new c) c else c)
      in reset_for_slot (set_ap_conn ''ready'' (populate_datapackage_from_self c)))"

text \<open>The framework's \<open>update_death_link\<close>: it tells the server when the tag changes.\<close>

definition update_death_link :: "bool \<Rightarrow> client \<Rightarrow> client" where
  "update_death_link b c =
     (if fw_deathlink_tag c = b then c else send_msgs [ConnectUpdate b] (c\<lparr>fw_deathlink_tag := b\<rparr>))"

definition apply_death_link :: "int option \<Rightarrow> client action" where
  "apply_death_link dl_from_slot =
     (case dl_from_slot of
        None \<Rightarrow> skip
      | Some v \<Rightarrow>
          seq [update (\<lambda>c. set_deathlink_enabled (v \<noteq> 0) (update_death_link (v \<noteq> 0) (c\<lparr>deathlink_enabled := (v \<noteq> 0)\<rparr>))),
               push_deathlink_helloack])"

definition apply_sanity :: "slot_data \<Rightarrow> client \<Rightarrow> client" where
  "apply_sanity sd c =
     (let capturesanity = or_default (sd_capturesanity sd) 1 \<noteq> 0; abilitysanity = or_default (sd_abilitysanity sd) 1 \<noteq> 0;
          c = c\<lparr>goal_location_name := (case sd_goal sd of None \<Rightarrow> None | Some g \<Rightarrow> dict_get goal_loc_by_option g)\<rparr>;
          c = set_capturesanity_enabled capturesanity (c\<lparr>capturesanity_enabled := capturesanity\<rparr>)
      in set_abilitysanity_enabled abilitysanity (c\<lparr>abilitysanity_enabled := abilitysanity\<rparr>))"

definition connected_switch :: "client callbacks \<Rightarrow> slot_data \<Rightarrow> client action" where
  "connected_switch cb sd = seq
     [update (apply_sanity sd),
      apply_death_link (sd_death_link sd),
      push_capturesanity_replay cb,
      push_ability_state,
      update (\<lambda>c. c\<lparr>talkatoo_mode := (or_default (sd_talkatoo_mode sd) 0 \<noteq> 0),
                    talkatoo_order := or_default (sd_talkatoo_order sd) []\<rparr>),
      derive_and_push_talkatoo_pool,
      update (set_kingdom_gates (or_default (sd_kingdom_gates sd) [])),
      push_kingdom_gates,
      update (set_entrance_map (or_default (sd_entrance_map sd) [])),
      push_entrance_map cb,
      update (\<lambda>c. c\<lparr>mm_bonus_captures := or_default (sd_mm_bonus_captures sd) [],
                    mm_bonus_abilities := or_default (sd_mm_bonus_abilities sd) []\<rparr>),
      derive_and_push_shop_labels,
      send_active (ApState ''ready''),
      try_catch (drain_pending_snapshot cb) skip]"

definition warm_scout_cache :: "client \<Rightarrow> client" where
  "warm_scout_cache c =
     (if display_enabled c \<or> col_enabled (colors c)
      then (let c = c\<lparr>ctx_scout_cache := []\<rparr>;
                loc_ids = sorted_list_of_set (fw_missing_locations c \<union> fw_checked_locations c)
            in send_msgs (fst (request_scout loc_ids (Some (ctx_scout_cache c)))) c)
      else c)"

section \<open>Packages\<close>

datatype ap_package =
    Connected slot_data
  | RoomInfo "string option"
  | RoomUpdate "int list"
  | ReceivedItems int "network_item list"
  | DataPackageGames "(string \<times> (string, int) dict \<times> (string, int) dict) list"
  | LocationInfo "network_item list"

definition handle_location_info :: "client callbacks \<Rightarrow> network_item list \<Rightarrow> client action" where
  "handle_location_info cb locations c =
     (case absorb_location_info locations (ctx_scout_cache c) of
        (cache, Inl e) \<Rightarrow> (c\<lparr>ctx_scout_cache := cache\<rparr>, Some e)
      | (cache, Inr n) \<Rightarrow>
          seq [\<lambda>c. (if col_enabled (colors c) then push_palette_for_scout_batch locations else skip) c,
               update (try_fire_reconcile_cappy cb),
               try_catch derive_and_push_shop_labels skip] (c\<lparr>ctx_scout_cache := cache\<rparr>))"

definition handle_ap_package :: "client callbacks \<Rightarrow> ap_package \<Rightarrow> client action" where
  "handle_ap_package cb pkg c =
     (case pkg of
        Connected sd \<Rightarrow> seq [update connected_start, connected_switch cb sd, update warm_scout_cache] c
      | RoomInfo seed \<Rightarrow> (if truthy seed then c\<lparr>ap_seed := the seed\<rparr> else c, None)
      | RoomUpdate new_checks \<Rightarrow>
          if talkatoo_mode c \<and> talkatoo_order c \<noteq> [] \<and>
             (new_checks = [] \<or> any_check_in_talkatoo_order (set new_checks) c)
          then derive_and_push_talkatoo_pool c else (c, None)
      | ReceivedItems ap_index items \<Rightarrow> process_received_items ap_index items c
      | DataPackageGames games \<Rightarrow>
          (fold (\<lambda>(game, item_map, loc_map) c. c\<lparr>dp := update_from_ap item_map loc_map (dp c)\<rparr>) games c, None)
      | LocationInfo locations \<Rightarrow> handle_location_info cb locations c)"

section \<open>Other AP events\<close>

definition on_print_json :: "string \<Rightarrow> client \<Rightarrow> client" where
  "on_print_json text c = (if text = [] then c else fst (send_active (Print text) (add_log text c)))"

definition deathlink_log :: "string \<Rightarrow> string \<Rightarrow> string" where
  "deathlink_log source cause =
     ''[deathlink in] source='' @ (if source = [] then ''?'' else source) @ '' cause='' @ (if cause = [] then ''?'' else cause)"

definition on_deathlink :: "string option \<Rightarrow> string option \<Rightarrow> client \<Rightarrow> client" where
  "on_deathlink source cause c =
     (let source = or_default source []; cause = or_default cause []
      in if \<not> deathlink_enabled c then c
         else if source \<noteq> [] \<and> source = or_default (fw_auth c) [] then c
         else fst (send_active (Kill \<lparr>kill_source = source, kill_cause = cause\<rparr>) (add_log (deathlink_log source cause) c)))"

definition ctx_disconnect :: "client action" where
  "ctx_disconnect c =
     (if ap_conn c = ''disconnected'' then (c, None)
      else seq [update (set_ap_conn ''disconnected''), send_active (ApState ''disconnected'')] c)"

definition prepare_data_package :: "string set \<Rightarrow> client \<Rightarrow> client" where
  "prepare_data_package relevant_games c = c\<lparr>roominfo_games := Some (sorted_list_of_set relevant_games)\<rparr>"

definition missing_game_error :: "string list \<Rightarrow> string" where
  "missing_game_error games =
     ''This multiworld does not include '' @ [CHR 39] @ game_name @ [CHR 39] @ ''. Games present: '' @
     (if games = [] then ''(none)'' else join '', '' games) @ ''. SMO Client only works with seeds that contain a '' @
     [CHR 39] @ game_name @ [CHR 39] @ '' slot '' @ em_dash @ '' verify the server address.''"

text \<open>\<open>server_auth\<close> up to the framework's login.\<close>

definition server_auth :: "client action" where
  "server_auth c =
     (case roominfo_games c of
        None \<Rightarrow> (c, None)
      | Some games \<Rightarrow>
          if game_name \<in> set games then (c, None)
          else (c\<lparr>disconnected_intentionally := True\<rparr>, Some (GenericException (missing_game_error games))))"

end
