(* ===== verification/Switch_Owner.thy ===== *)
theory Switch_Owner
  imports Switch_Replay
begin

text \<open>
  The contract between the server and the object that owns it: \<open>owner_env\<close> fixes the callbacks
  and an invariant of the owner's part of the state, the part behind \<open>server.more\<close>. No operation of
  the server touches that part but through the callbacks, so an invariant the callbacks keep is kept by
  everything a Switch can cause.
\<close>

named_theorems more_simps \<open>server operations that leave the owner's part alone\<close>

section \<open>Operations that leave the owner's part alone\<close>

abbreviation more_of :: "'a server_scheme \<Rightarrow> 'a" where "more_of \<equiv> server.more"

lemma more_writers_only: "writers_only s t \<Longrightarrow> more_of t = more_of s"
  by (auto elim: writers_onlyE)

lemma more_send [more_simps]:
  "more_of (fst (send_to_conn c m s)) = more_of s"
  "more_of (fst (send_active m s)) = more_of s"
  "more_of (close_writer w s) = more_of s"
  by (auto intro!: more_writers_only simp: send_writers_only close_writer_def)

lemma more_state [more_simps]:
  "more_of (add_log t s) = more_of s"
  "more_of (fst (add_checked_location e s)) = more_of s"
  "more_of (fst (mark_kingdom_reached k s)) = more_of s"
  "more_of (begin_snapshot i s) = more_of s"
  "more_of (fst (end_snapshot s)) = more_of s"
  "more_of (add_snapshot_chunk_shines st js s) = more_of s"
  "more_of (add_snapshot_chunk_meta cs g s) = more_of s"
  "more_of (clear_held s) = more_of s"
  "more_of (set_switch_conn c s) = more_of s"
  "more_of (set_ap_conn c s) = more_of s"
  "more_of (notify_switches_changed s) = more_of s"
  "more_of (set_active_switch od s) = more_of s"
  "more_of (register_switch now d ip mv sv s) = more_of s"
  "more_of (unregister_switch d s) = more_of s"
  "more_of (add_received_item ev s) = more_of s"
  "more_of (clear_received s) = more_of s"
  "more_of (apply_pay_snapshot p s) = more_of s"
  "more_of (bump_death_count s) = more_of s"
  "more_of (grant_bonus_capture cap s) = more_of s"
  "more_of (grant_bonus_ability ab s) = more_of s"
  "more_of (set_shine_palette pal s) = more_of s"
  "more_of (set_entrance_map em s) = more_of s"
  by (simp_all add: state_op_defs clear_held_def notify_switches_changed_def Let_def split: option.splits)

lemma more_settings [more_simps]:
  "more_of (set_deathlink_enabled b s) = more_of s"
  "more_of (set_capturesanity_enabled b s) = more_of s"
  "more_of (set_abilitysanity_enabled b s) = more_of s"
  "more_of (set_talkatoo_pool b p s) = more_of s"
  "more_of (set_kingdom_gates g s) = more_of s"
  "more_of (set_shop_labels es s) = more_of s"
  by (simp_all add: set_deathlink_enabled_def set_capturesanity_enabled_def set_abilitysanity_enabled_def
      set_talkatoo_pool_def set_kingdom_gates_def set_shop_labels_def)

lemma more_seq:
  assumes "\<And>a s. a \<in> set as \<Longrightarrow> more_of (fst (a s)) = more_of s"
  shows "more_of (fst (seq as s)) = more_of s"
  using seq_invariant [where P = "\<lambda>t. more_of t = more_of s" and as = as and s = s] assms by simp

lemma more_for_each [more_simps]:
  "more_of (fst (for_each xs (\<lambda>x. send_active (f x)) s)) = more_of s"
  "more_of (fst (for_each xs (\<lambda>x. send_to_conn c (f x)) s)) = more_of s"
  using for_each_invariant [where P = "\<lambda>t. more_of t = more_of s" and xs = xs and s = s]
  by (simp_all add: more_simps)

lemma more_push [more_simps]:
  "more_of (fst (push_deathlink_helloack s)) = more_of s"
  "more_of (fst (push_capturesanity_replay cb s)) = more_of s"
  "more_of (fst (push_coin_grant s)) = more_of s"
  "more_of (fst (push_ability_state s)) = more_of s"
  "more_of (fst (push_shop_labels s)) = more_of s"
  "more_of (fst (push_kingdom_gates s)) = more_of s"
  "more_of (fst (push_entrance_map cb s)) = more_of s"
  "more_of (fst (send_shine_scouts p s)) = more_of s"
  "more_of (fst (send_outstanding_reading cb c s)) = more_of s"
  "more_of (fst (send_item_backlog c s)) = more_of s"
  "more_of (fst (send_hello_ack c s)) = more_of s"
  "more_of (fst (send_check_label cb m b al l s)) = more_of s"
  using more_for_each(1) [of "palette_messages p" "\<lambda>m. m"]
  by (simp_all add: push_deathlink_helloack_def push_capturesanity_replay_def push_coin_grant_def push_ability_state_def
      push_shop_labels_def push_kingdom_gates_def push_entrance_map_def send_outstanding_reading_def send_item_backlog_def
      send_hello_ack_def send_check_label_def send_shine_scouts_def Let_def case_prod_unfold more_simps split: option.splits)

lemma more_talkatoo [more_simps]: "more_of (fst (push_talkatoo_pool s)) = more_of s"
  unfolding push_talkatoo_pool_def Let_def
  by (auto intro!: more_seq simp: more_simps update_def case_prod_unfold simp del: seq.simps)

lemma more_replay [more_simps]: "more_of (fst (run_post_hello_replay cb c s)) = more_of s"
  unfolding run_post_hello_replay_def by (rule more_seq) (auto simp: more_simps)

lemma more_fire: "more_of (fst (fire_pending b ls s)) = more_of s"
  by (induction ls arbitrary: s) (auto simp: more_simps case_prod_unfold Let_def split: sum.splits option.splits)

lemma more_try_fire [more_simps]: "more_of (try_fire_reconcile_cappy cb s) = more_of s"
  by (simp add: try_fire_reconcile_cappy_def case_prod_unfold Let_def more_fire split: option.splits)

lemma more_handover:
  "more_of (fst (seq [(case old of None \<Rightarrow> skip | Some c \<Rightarrow> send_to_conn c m),
     (case new of None \<Rightarrow> skip | Some c \<Rightarrow> seq [send_to_conn c Activate, run_post_hello_replay cb c]),
     update notify_switches_changed] s)) = more_of s"
  by (rule more_seq) (auto simp: more_simps skip_def update_def simp del: seq.simps intro!: more_seq split: option.splits)

lemma more_then:
  assumes "\<And>s. more_of (fst (a s)) = more_of s"
  shows "more_of (fst (then_value a (\<lambda>s. (s, r)) s)) = more_of s"
  using assms [of s] by (auto simp: then_value_def split: prod.splits option.splits)

lemma more_set_active [more_simps]: "more_of (fst (set_active cb d s)) = more_of s"
proof (cases "(d \<noteq> None \<and> dict_get (connections s) (the d) = None) \<or> d = srv_active s")
  case False
  then have "(d \<noteq> None \<and> dict_get (connections s) (the d) = None) = False" "(d = srv_active s) = False" by blast+
  then show ?thesis by (simp only: set_active_def Let_def if_False more_then [OF more_handover]) (simp add: more_simps)
qed (auto simp: set_active_def)

lemma more_bind [more_simps]: "more_of (fst (bind_connection cb c s)) = more_of s"
  unfolding bind_connection_def
  by (auto simp: more_simps update_def simp del: seq.simps intro!: more_seq)

lemma more_policy [more_simps]: "more_of (fst (policy_check_version c m s)) = more_of s"
  unfolding policy_check_version_def Let_def by (auto simp: more_then more_simps)

lemma more_register [more_simps]: "more_of (register_connection now c s) = more_of s"
  by (simp add: register_connection_def Let_def more_simps split: option.split)

lemma more_refuse [more_simps]: "more_of (refuse_connection c s) = more_of s"
  by (simp add: refuse_connection_def drop_registration_def more_simps)

lemma more_hello [more_simps]: "more_of (fst (handle_hello cb now w ip hello s)) = more_of s"
proof -
  have "more_of (fst (bind_value (policy_check_version c hello)
      (\<lambda>ok. if ok then then_value (bind_connection cb c) (\<lambda>s. (s, Inr (Some c))) else (\<lambda>s. (refuse_connection c s, Inr None))) u)) =
      more_of u" for c u
  proof -
    obtain v r where p: "policy_check_version c hello u = (v, r)" by fastforce
    with more_policy [of c hello u] have "more_of v = more_of u" by simp
    then show ?thesis by (simp add: bind_value_def p more_then more_simps split: sum.split)
  qed
  then show ?thesis by (simp add: handle_hello_def Let_def more_simps)
qed

lemma more_disconnect [more_simps]: "more_of (fst (handle_disconnect cb c s)) = more_of s"
proof -
  have "more_of (fst (ignore_value (set_active cb d) u)) = more_of u" for d u
    using more_set_active [of cb d u] by (auto simp: ignore_value_def split: prod.split sum.split)
  then have "more_of (fst (seq [ignore_value (set_active cb d), update notify_switches_changed] u)) = more_of u" for d u
    by (intro more_seq) (auto simp: update_def more_simps)
  then show ?thesis
    by (simp add: handle_disconnect_def Let_def drop_registration_def more_simps del: seq.simps split: list.split)
qed

section \<open>The contract\<close>

locale owner_env =
  fixes cb :: "'a server_scheme callbacks" and I :: "'a server_scheme \<Rightarrow> bool"
  assumes owner_only: "more_of s = more_of t \<Longrightarrow> I s = I t"
    and check_inv: "I s \<Longrightarrow> I (fst (cb_check cb m s))"
    and goal_inv: "I s \<Longrightarrow> I (fst (cb_goal cb s))"
    and death_inv: "cb_death cb = Some f \<Longrightarrow> I s \<Longrightarrow> I (fst (f ts s))"
    and pay_inv: "cb_pay_snapshot cb = Some g \<Longrightarrow> I s \<Longrightarrow> I (fst (g totals s))"
begin

lemma bind_I:
  assumes "\<And>s. I s \<Longrightarrow> I (fst (f s))" "\<And>x s. I s \<Longrightarrow> I (fst (g x s))" "I s"
  shows "I (fst (bind_value f g s))"
  using assms(1) [OF assms(3)] assms(2) by (auto simp: bind_value_def split: prod.splits sum.splits)

lemma then_I:
  assumes "\<And>s. I s \<Longrightarrow> I (fst (f s))" "\<And>s. I s \<Longrightarrow> I (fst (g s))" "I s"
  shows "I (fst (then_value f g s))"
  using assms(1) [OF assms(3)] assms(2) by (auto simp: then_value_def split: prod.splits option.splits)

lemma ignore_I: "I (fst (f s)) \<Longrightarrow> I (fst (ignore_value f s))"
  by (auto simp: ignore_value_def split: prod.splits sum.splits)

lemma try_I:
  assumes "\<And>s. I s \<Longrightarrow> I (fst (a s))" "\<And>s. I s \<Longrightarrow> I (fst (h s))" "I s"
  shows "I (fst (try_catch a h s))"
  using assms(1) [OF assms(3)] assms(2) by (auto simp: try_catch_def split: prod.splits option.splits)

lemma same_I: "more_of t = more_of s \<Longrightarrow> I s \<Longrightarrow> I t"
  using owner_only [of s t] by simp

lemma dispatch_check_I: "I s \<Longrightarrow> I (fst (dispatch_check cb m f s))"
  unfolding dispatch_check_def
  by (auto intro!: bind_I then_I check_inv intro: same_I simp: more_simps split: sum.split)

lemma dispatch_entries_I: "I s \<Longrightarrow> I (fst (dispatch_entries cb r pre es fr s))"
proof (induction es arbitrary: fr s)
  case (Cons e es)
  show ?case
  proof (cases "is_capture_entry e")
    case True
    with Cons show ?thesis by simp
  next
    case False
    obtain u x where u: "dispatch_check cb (dict_update_all e [(''t'', JStr ''check'')]) True s = (u, x)" by fastforce
    with dispatch_check_I [OF Cons.prems, of "dict_update_all e [(''t'', JStr ''check'')]" True] have "I u" by simp
    with False u show ?thesis by (simp add: Cons.IH split: sum.split)
  qed
qed simp

lemma dispatch_snapshot_I: "I s \<Longrightarrow> I (fst (dispatch_snapshot_entries cb es g r s))"
  unfolding dispatch_snapshot_entries_def Let_def
  by (intro ignore_I bind_I then_I)
    (auto simp: dispatch_entries_I goal_inv skip_def intro: same_I simp: more_simps)

lemma gate_I: "I s \<Longrightarrow> I (fst (gate_or_dispatch_snapshot cb es g r s))"
  using same_I [of "clear_held s" s]
  by (auto simp: gate_or_dispatch_snapshot_def Let_def case_prod_unfold dispatch_snapshot_I more_simps intro: same_I)

lemma confirm_I:
  assumes "I s" shows "I (fst (confirm_pending_snapshot cb s))"
proof (cases "held_entries s")
  case (Some es)
  have "I (clear_held s)" using assms by (rule same_I [rotated]) (simp add: more_simps)
  then have "I (fst (then_value (dispatch_snapshot_entries cb es (held_goal s) (held_from_reconcile s))
      (\<lambda>s. (s, Inr True)) (clear_held s)))"
    by (intro then_I) (simp_all add: dispatch_snapshot_I)
  then show ?thesis by (simp add: confirm_pending_snapshot_def Some)
qed (simp add: confirm_pending_snapshot_def assms)

lemma reject_I: "I s \<Longrightarrow> I (fst (reject_pending_snapshot s))"
  by (auto simp: reject_pending_snapshot_def more_simps intro: same_I)

lemma pending_I:
  "I s \<Longrightarrow> I (s\<lparr>srv_pending_entries := es, srv_pending_goal := g\<rparr>)"
  "I s \<Longrightarrow> I (s\<lparr>srv_pending_live_checks := ls\<rparr>)"
  by (rule same_I; simp)+

lemma drain_I: "I s \<Longrightarrow> I (fst (drain_pending_snapshot cb s))"
  unfolding drain_pending_snapshot_def Let_def
  by (rule seq_invariant) (auto simp: update_def skip_def dispatch_snapshot_I gate_I pending_I split: option.splits)

lemma state_end_I: "I s \<Longrightarrow> I (fst (on_state_end cb s))"
  using same_I [of "fst (end_snapshot s)" s]
  by (auto simp: on_state_end_def Let_def case_prod_unfold more_simps intro!: gate_I intro: same_I)

lemma pay_msg_I: "I s \<Longrightarrow> I (fst (on_pay_snapshot_msg cb m s))"
proof -
  assume "I s"
  moreover have "I (fst (try_catch (f t) skip s))" if "cb_pay_snapshot cb = Some f" for f t
    using \<open>I s\<close> by (intro try_I) (simp_all add: pay_inv [OF that] skip_def)
  ultimately show ?thesis
    by (auto simp: on_pay_snapshot_msg_def more_simps intro: same_I split: option.splits json.splits)
qed

lemma chunk_more: "more_of (on_state_chunk m s) = more_of s"
  by (simp add: on_state_chunk_def Let_def more_simps)

lemma dispatch_I:
  assumes "I s" shows "I (fst (dispatch_from cb now c m s))"
proof -
  have *: "I t" if "more_of t = more_of s" for t using that assms by (rule same_I)
  show ?thesis unfolding dispatch_from_def Let_def
    by (simp add: assms * more_simps chunk_more goal_inv state_end_I pay_msg_I death_inv
        ignore_I dispatch_check_I split: sum.split option.split)
qed

lemma line_I: "I s \<Longrightarrow> I (fst (receive_line cb now c l s))"
  unfolding receive_line_def
  by (rule try_I) (auto simp: dispatch_I more_simps intro: same_I split: sum.splits json.splits)

text \<open>Every step of the server but the ones of the owner itself.\<close>

lemma server_ops_I:
  assumes "I s"
  shows "I (fst (handle_hello cb now w ip hello s))" "I (fst (handle_disconnect cb c s))"
    "I (fst (set_active cb d s))" "I (try_fire_reconcile_cappy cb s)"
  using assms by (auto intro: same_I simp: more_simps)

end

end
