(* ===== verification/Client_Safety.thy ===== *)
theory Client_Safety
  imports Client_Packages Switch_Owner
begin

text \<open>
  What the client as a whole promises. The server's contracts are interpreted on the context's
  callbacks; \<open>client_step\<close> is one step of the whole client (a Switch connects, sends or leaves, the AP
  server sends a package, the user acts, the framework updates its attributes), and the invariants of the
  messages sent to AP hold along every run.
\<close>

section \<open>The context provides the server's contracts\<close>

named_theorems client_simps \<open>what the context's operations leave alone\<close>

lemma registry_of_update [simp]:
  "registry_of (c\<lparr>ap_out := x1\<rparr>) = registry_of c"
  "registry_of (c\<lparr>client_output := x2\<rparr>) = registry_of c"
  "registry_of (c\<lparr>goal_reported := b\<rparr>) = registry_of c"
  "registry_of (c\<lparr>locations_checked := ls\<rparr>) = registry_of c"
  "registry_of (c\<lparr>switch_reported_loc_ids := ls\<rparr>) = registry_of c"
  "registry_of (c\<lparr>warned_stale_shine_map := b\<rparr>) = registry_of c"
  "registry_of (c\<lparr>ctx_shine_map := sm\<rparr>) = registry_of c"
  "registry_of (c\<lparr>ctx_capture_map := cm\<rparr>) = registry_of c"
  "registry_of (c\<lparr>maps_sentinel_seen := ms\<rparr>) = registry_of c"
  by (simp_all add: registry_of_def)

lemma registry_reload: "registry_of (fst (reload_maps f c)) = registry_of c"
  by (simp add: reload_maps_def Let_def case_prod_unfold)

lemma registry_report_goal: "registry_of (report_goal c) = registry_of c"
  by (simp add: report_goal_def send_msgs_def)

lemma registry_forward: "registry_of (fst (forward_check k kd sh cap c)) = registry_of c"
  by (simp add: forward_check_def Let_def send_msgs_def registry_report_goal split: option.split)

lemma registry_unknown: "registry_of (unknown_moon st ob uid c) = registry_of c"
  by (simp add: unknown_moon_def ctx_output_def Let_def frame_simps)

lemma registry_report_check: "registry_of (fst (report_check k kd sh cap st ob uid h c)) = registry_of c"
  using registry_reload [of True c]
  by (auto simp: report_check_def case_prod_unfold Let_def registry_forward registry_unknown split: option.split)

lemma registry_on_check: "registry_of (fst (on_check m c)) = registry_of c"
  by (simp add: on_check_def case_prod_unfold Let_def registry_report_check)

lemma registry_pay: "registry_of (fst (apply_pay_snapshot_from_switch totals c)) = registry_of c"
proof -
  have "registry_of (apply_pay_snapshot totals c) = registry_of c"
    by (simp add: registry_of_def apply_pay_snapshot_def)
  then show ?thesis
    by (simp add: apply_pay_snapshot_from_switch_def update_def push_outstanding_to_switch_def frame_simps split: prod.split option.split)
      (metis fst_conv registry_send(2))
qed

lemma registry_death: "registry_of (report_death ts c) = registry_of c"
  by (simp add: report_death_def send_msgs_def Let_def registry_of_def bump_death_count_def)

interpretation smo_registry: registry_env "smo_callbacks stages" for stages
  by unfold_locales
    (auto simp: smo_callbacks_def registry_on_check update_def registry_report_goal registry_death registry_pay)

interpretation smo_replay: replay_env "smo_callbacks stages" for stages
proof unfold_locales
  fix f and s :: client and ws
  assume "cb_outstanding (smo_callbacks stages) = Some f"
  then have f: "f = (\<lambda>c. Inr (outstanding_entries_for_switch c))" by (simp add: smo_callbacks_def)
  show "f (s\<lparr>writers := ws\<rparr>) = f s"
    by (simp add: f outstanding_entries_for_switch_def is_festival_goal_def compute_outstanding_def Let_def
        split: option.split)
next
  fix g and s :: client and ws
  assume "cb_all_captures (smo_callbacks stages) = Some g"
  then have g: "g = (\<lambda>c. iter_all_captures (ctx_capture_map c))" by (simp add: smo_callbacks_def)
  show "g (s\<lparr>writers := ws\<rparr>) = g s" by (simp add: g)
qed

section \<open>What is sent to AP\<close>

fun sent_checks :: "ap_msg list \<Rightarrow> int list" where
  "sent_checks [] = []"
| "sent_checks (LocationChecks ls # ms) = ls @ sent_checks ms"
| "sent_checks (_ # ms) = sent_checks ms"

lemma sent_checks_append [simp]: "sent_checks (ms @ ns) = sent_checks ms @ sent_checks ns"
  by (induction ms rule: sent_checks.induct) simp_all

lemma sent_checks_scouts [simp]: "sent_checks (map LocationScouts cs) = []"
  by (induction cs) simp_all

definition goals_sent :: "client \<Rightarrow> nat" where
  "goals_sent c = length (filter (\<lambda>m. m = StatusUpdateGoal) (ap_out c))"

text \<open>Every location this process has checked has been sent once.\<close>

definition checks_once :: "client \<Rightarrow> bool" where
  "checks_once c \<longleftrightarrow> distinct (sent_checks (ap_out c)) \<and> set (sent_checks (ap_out c)) = locations_checked c"

text \<open>A goal has been sent since the latch was last open, over \<open>n\<close> sent before.\<close>

definition goal_latched :: "nat \<Rightarrow> client \<Rightarrow> bool" where
  "goal_latched n c \<longleftrightarrow> goals_sent c = n + (if goal_reported c then 1 else 0)"

type_synonym sent_view = "ap_msg list \<times> int set \<times> bool"

definition sent_view :: "client \<Rightarrow> sent_view" where
  "sent_view c = (ap_out c, locations_checked c, goal_reported c)"

lemma sent_view_more: "more_of c = more_of d \<Longrightarrow> sent_view c = sent_view d" for c d :: client
  by (cases c; cases d) (simp add: sent_view_def)

lemma sent_view_invs:
  assumes "sent_view c = sent_view d"
  shows "checks_once c = checks_once d" "goal_latched n c = goal_latched n d"
  using assms by (simp_all add: sent_view_def checks_once_def goal_latched_def goals_sent_def)

lemma reload_view: "sent_view (fst (reload_maps f c)) = sent_view c"
  by (simp add: reload_maps_def Let_def case_prod_unfold sent_view_def)

lemma unknown_view: "sent_view (unknown_moon st ob uid c) = sent_view c"
  by (simp add: unknown_moon_def ctx_output_def Let_def sent_view_def add_log_def)

lemma report_goal_invs:
  "goal_latched n c \<Longrightarrow> goal_latched n (report_goal c)"
  "checks_once c \<Longrightarrow> checks_once (report_goal c)"
  by (simp_all add: goal_latched_def goals_sent_def checks_once_def report_goal_def send_msgs_def)

lemma forward_invs:
  "goal_latched n c \<Longrightarrow> goal_latched n (fst (forward_check k kd sh cap c))"
  "checks_once c \<Longrightarrow> checks_once (fst (forward_check k kd sh cap c))"
proof -
  have sent: "goal_latched n (send_msgs [LocationChecks [l]] d\<lparr>locations_checked := ls\<rparr>)" if "goal_latched n d" for d l ls
    using that by (simp add: goal_latched_def goals_sent_def send_msgs_def)
  have rep: "goal_latched n (d\<lparr>switch_reported_loc_ids := ls\<rparr>)" if "goal_latched n d" for d ls
    using that by (simp add: goal_latched_def goals_sent_def)
  show "goal_latched n (fst (forward_check k kd sh cap c))" if "goal_latched n c"
    using that by (simp add: forward_check_def Let_def report_goal_invs sent rep split: option.split)
  have new: "checks_once (send_msgs [LocationChecks [l]] (d\<lparr>switch_reported_loc_ids := rs\<rparr>)
      \<lparr>locations_checked := insert l (locations_checked d)\<rparr>)" if "checks_once d" "l \<notin> locations_checked d" for d l rs
    using that by (auto simp: checks_once_def send_msgs_def)
  have rep': "checks_once (d\<lparr>switch_reported_loc_ids := rs\<rparr>)" if "checks_once d" for d rs
    using that by (simp add: checks_once_def)
  have lc: "locations_checked (send_msgs ms d) = locations_checked d" for ms d by (simp add: send_msgs_def)
  show "checks_once (fst (forward_check k kd sh cap c))" if "checks_once c"
    using that by (simp add: forward_check_def Let_def report_goal_invs new rep' lc split: option.split)
qed

lemma report_check_invs:
  assumes fwd: "\<And>k kd sh cap c. P c \<Longrightarrow> P (fst (forward_check k kd sh cap c))"
    and view: "\<And>c d. sent_view c = sent_view d \<Longrightarrow> P c = P d" and "P c"
  shows "P (fst (report_check k kd sh cap st ob uid h c))"
proof -
  obtain d f1 f2 where r: "reload_maps True c = (d, f1, f2)" by (cases "reload_maps True c") auto
  then have "P d" using view [of d c] reload_view [of True c] assms(3) by simp
  moreover from this have "P (unknown_moon st ob uid d)" using view [of "unknown_moon st ob uid d" d] unknown_view by blast
  ultimately show ?thesis
    by (auto simp: report_check_def r fwd assms(3) split: option.split)
qed

lemma on_check_invs:
  "goal_latched n c \<Longrightarrow> goal_latched n (fst (on_check m c))"
  "checks_once c \<Longrightarrow> checks_once (fst (on_check m c))"
  unfolding on_check_def Let_def case_prod_unfold fst_conv
  by (erule report_check_invs [rotated 2], erule forward_invs, erule sent_view_invs)+

lemma death_invs:
  "goal_latched n c \<Longrightarrow> goal_latched n (report_death ts c)"
  "checks_once c \<Longrightarrow> checks_once (report_death ts c)"
  by (simp_all add: goal_latched_def goals_sent_def checks_once_def report_death_def send_msgs_def bump_death_count_def Let_def)

lemma more_outstanding: "more_of (fst (push_outstanding_to_switch c)) = more_of c"
  by (simp add: push_outstanding_to_switch_def more_simps)

lemma pay_view: "sent_view (fst (apply_pay_snapshot_from_switch totals c)) = sent_view c"
  unfolding apply_pay_snapshot_from_switch_def
  by (rule sent_view_more, rule more_seq) (auto simp: update_def more_simps more_outstanding)

lemma smo_callbacks_simps:
  "cb_check (smo_callbacks st) = on_check" "cb_goal (smo_callbacks st) = update report_goal"
  "cb_death (smo_callbacks st) = Some f \<longleftrightarrow> f = (\<lambda>ts. update (report_death ts))"
  "cb_pay_snapshot (smo_callbacks st) = Some g \<longleftrightarrow> g = apply_pay_snapshot_from_switch"
  by (auto simp: smo_callbacks_def)

text \<open>An invariant of what is sent: it reads the messages to AP, the locally checked locations and the
  goal latch, tolerates other messages, and is kept by the three reports.\<close>

fun quiet :: "ap_msg \<Rightarrow> bool" where
  "quiet (LocationChecks ls) = False"
| "quiet StatusUpdateGoal = False"
| "quiet _ = True"

locale sent_env =
  fixes P :: "client \<Rightarrow> bool"
  assumes view_only: "sent_view c = sent_view d \<Longrightarrow> P c = P d"
    and quiet_inv: "list_all quiet ms \<Longrightarrow> P c \<Longrightarrow> P (send_msgs ms c)"
    and on_check_inv: "P c \<Longrightarrow> P (fst (on_check m c))"
    and report_goal_inv: "P c \<Longrightarrow> P (report_goal c)"
begin

lemma report_death_inv: "P c \<Longrightarrow> P (report_death ts c)"
proof -
  assume "P c"
  then have "P (bump_death_count c)" using view_only [OF sent_view_more, of "bump_death_count c" c] by (simp add: more_simps)
  then show ?thesis by (simp add: report_death_def Let_def quiet_inv)
qed

end

sublocale sent_env \<subseteq> smo: owner_env "smo_callbacks stages" P for stages
proof
  fix s t :: client assume "more_of s = more_of t"
  then show "P s = P t" by (rule view_only [OF sent_view_more])
next
  fix s :: client and g totals assume "cb_pay_snapshot (smo_callbacks stages) = Some g" "P s"
  then show "P (fst (g totals s))" using view_only [OF pay_view, of totals s] by (simp add: smo_callbacks_simps)
qed (simp_all add: smo_callbacks_simps update_def on_check_inv report_goal_inv report_death_inv)

lemma quiet_invs:
  assumes "list_all quiet ms"
  shows "goal_latched n c \<Longrightarrow> goal_latched n (send_msgs ms c)" "checks_once c \<Longrightarrow> checks_once (send_msgs ms c)"
proof -
  have "filter (\<lambda>m. m = StatusUpdateGoal) ms = []" using assms by (auto simp: filter_empty_conv list_all_iff)
  then show "goal_latched n c \<Longrightarrow> goal_latched n (send_msgs ms c)"
    by (simp add: goal_latched_def goals_sent_def send_msgs_def)
  have "sent_checks ms = []" using assms by (induction ms rule: sent_checks.induct) simp_all
  then show "checks_once c \<Longrightarrow> checks_once (send_msgs ms c)" by (simp add: checks_once_def send_msgs_def)
qed

interpretation smo_goal: sent_env "goal_latched n" for n
  by unfold_locales (erule sent_view_invs on_check_invs report_goal_invs | erule (1) quiet_invs)+

interpretation smo_checks: sent_env checks_once
  by unfold_locales (erule sent_view_invs on_check_invs report_goal_invs | erule (1) quiet_invs)+

section \<open>Packages\<close>

lemma view_update [simp]:
  "sent_view (c\<lparr>dp := d\<rparr>) = sent_view c"
  "sent_view (c\<lparr>ctx_scout_cache := sc\<rparr>) = sent_view c"
  "sent_view (c\<lparr>talkatoo_mode := b, talkatoo_order := tord\<rparr>) = sent_view c"
  "sent_view (c\<lparr>mm_bonus_captures := mc, mm_bonus_abilities := ma\<rparr>) = sent_view c"
  "sent_view (c\<lparr>shop_labels_signature := sig\<rparr>) = sent_view c"
  "sent_view (c\<lparr>goal_location_name := gl\<rparr>) = sent_view c"
  "sent_view (c\<lparr>capturesanity_enabled := b\<rparr>) = sent_view c"
  "sent_view (c\<lparr>abilitysanity_enabled := b\<rparr>) = sent_view c"
  "sent_view (c\<lparr>deathlink_enabled := b\<rparr>) = sent_view c"
  "sent_view (c\<lparr>fw_deathlink_tag := b\<rparr>) = sent_view c"
  "sent_view (c\<lparr>ap_slot := sl\<rparr>) = sent_view c"
  "sent_view (c\<lparr>ap_seed := sl\<rparr>) = sent_view c"
  "sent_view (ctx_output x c) = sent_view c"
  by (simp_all add: sent_view_def ctx_output_def)

lemma more_receive_one: "more_of (fst (receive_one n ni pos fl c)) = more_of c"
proof -
  have send: "more_of (fst (then_value (send_active m) g d)) = more_of d"
    if "\<And>d. more_of (fst (g d)) = more_of d" for m d and g :: "client \<Rightarrow> client \<times> (exn + batch_flags)"
    using that more_send(2) [of m d] by (auto simp: then_value_def split: prod.splits option.splits)
  have fold: "more_of (fold grant_bonus_ability as d) = more_of d" for as and d :: client
    by (induction as arbitrary: d) (simp_all add: more_simps)
  have bonus: "more_of (fst (grant_bonuses ref f d)) = more_of d" for ref f d
  proof -
    have "more_of (fst (seq [update (grant_bonus_capture cap), \<lambda>c. send_active (Item (bonus_capture_msg cap c)) c] e)) = more_of e"
      for cap and e :: client by (rule more_seq) (auto simp: update_def more_simps)
    then have "more_of (fst (for_each caps (\<lambda>cap. seq [update (grant_bonus_capture cap),
        \<lambda>c. send_active (Item (bonus_capture_msg cap c)) c]) e)) = more_of e" for caps and e :: client
      by (intro for_each_invariant [where P = "\<lambda>t. more_of t = more_of e"]) simp_all
    then show ?thesis by (simp add: grant_bonuses_def Let_def fold more_then del: seq.simps)
  qed
  show ?thesis
    by (simp add: receive_one_def Let_def send [OF bonus] more_simps split: option.split)
qed

lemma more_bind_value:
  assumes "\<And>s. more_of (fst (f s)) = more_of s" "\<And>x s. more_of (fst (g x s)) = more_of s"
  shows "more_of (fst (bind_value f g s)) = more_of s"
  using assms(1) [of s] assms(2) by (auto simp: bind_value_def split: prod.split sum.split)

lemma more_ignore: "more_of (fst (ignore_value f s)) = more_of (fst (f s))"
  by (simp add: ignore_value_def split: prod.split sum.split)

lemma more_receive_items: "more_of (fst (receive_items n nis pos fl c)) = more_of c"
proof (induction nis arbitrary: pos fl c)
  case (Cons ni nis)
  obtain d r where d: "receive_one n ni pos fl c = (d, r)" by fastforce
  with more_receive_one [of n ni pos fl c] have "more_of d = more_of c" by simp
  with Cons show ?case by (simp add: bind_value_def d split: sum.split)
qed simp

lemma more_process: "more_of (fst (process_received_items i items c)) = more_of c"
proof -
  have push: "more_of (fst (seq [if bf_moon fl then push_outstanding_to_switch else skip, if bf_ability fl then push_ability_state else skip,
      if bf_coin fl then push_coin_grant else skip] d)) = more_of d" for fl and d :: client
    by (rule more_seq) (auto simp: skip_def more_simps more_outstanding)
  have "more_of (fst (bind_value (receive_items n items i no_flags) (\<lambda>fl. then_value (seq [if bf_moon fl then push_outstanding_to_switch else skip,
      if bf_ability fl then push_ability_state else skip, if bf_coin fl then push_coin_grant else skip]) (\<lambda>c. (c, Inr ()))) c)) =
      more_of c" for n
    by (rule more_bind_value [OF more_receive_items more_then [OF push]])
  then show ?thesis by (simp only: process_received_items_def more_ignore)
qed

lemma talkatoo_push_view: "sent_view (fst (derive_and_push_talkatoo_pool c)) = sent_view c"
  unfolding derive_and_push_talkatoo_pool_def
  by (rule sent_view_more, rule more_seq) (auto simp: update_def more_simps)

lemma view_seq:
  assumes "\<And>a s. a \<in> set as \<Longrightarrow> sent_view (fst (a s)) = sent_view s"
  shows "sent_view (fst (seq as s)) = sent_view s"
  using seq_invariant [where P = "\<lambda>t. sent_view t = sent_view s" and as = as and s = s] assms by simp

lemmas view_of_more = sent_view_more [OF more_settings(4)] sent_view_more [OF more_settings(6)]

lemma shop_push_view: "sent_view (fst (derive_and_push_shop_labels c)) = sent_view c"
  unfolding derive_and_push_shop_labels_def Let_def
  by (auto intro!: view_seq simp: update_def sent_view_more [OF more_settings(6)] sent_view_more [OF more_push(5)]
      simp del: seq.simps)

lemma palette_push_view: "sent_view (fst (push_palette_for_scout_batch ls c)) = sent_view c"
proof -
  have "sent_view (fst (try_catch (send_shine_scouts p) skip d)) = sent_view d" for p d
    using sent_view_more [OF more_push(8), of p d]
    by (auto simp: try_catch_def skip_def split: prod.splits option.splits)
  then show ?thesis
    unfolding push_palette_for_scout_batch_def Let_def
    by (auto intro!: view_seq simp: update_def sent_view_more [OF more_state(21)] simp del: seq.simps)
qed

lemma sanity_view: "sent_view (apply_sanity sd c) = sent_view c"
  by (simp add: apply_sanity_def Let_def sent_view_more [OF more_settings(2)] sent_view_more [OF more_settings(3)])

lemma populate_view: "sent_view (populate_datapackage_from_self c) = sent_view c"
  by (simp add: populate_datapackage_from_self_def)

definition slot_changes :: "client \<Rightarrow> bool" where
  "slot_changes c \<longleftrightarrow> ap_slot c \<noteq> [] \<and> or_default (fw_auth c) [] \<noteq> [] \<and> ap_slot c \<noteq> or_default (fw_auth c) []"

lemma connected_start_view:
  "sent_view (connected_start c) =
     (if slot_changes c then sent_view (c\<lparr>goal_reported := False\<rparr>) else sent_view c)"
proof -
  obtain d f1 f2 where r: "reload_maps False c = (d, f1, f2)" by (cases "reload_maps False c") auto
  then have d: "sent_view d = sent_view c" "ap_slot d = ap_slot c" "fw_auth d = fw_auth c"
    using reload_view [of False c] by (auto simp: reload_maps_def Let_def case_prod_unfold split: if_splits)
  let ?e = "set_ap_conn ''ready'' (populate_datapackage_from_self
      (if f1 \<or> f2 then ctx_output (reload_notice f1 f2 d) d else d))"
  have e: "sent_view ?e = sent_view c" "ap_slot ?e = ap_slot c" "fw_auth ?e = fw_auth c"
    using d by (simp_all add: sent_view_more [OF more_state(10)] populate_view)
      (simp_all add: set_ap_conn_def populate_datapackage_from_self_def ctx_output_def)
  have "connected_start c = reset_for_slot ?e" by (simp add: connected_start_def r Let_def)
  moreover have "sent_view (reset_for_slot ?e) =
      (if slot_changes c then sent_view (?e\<lparr>goal_reported := False\<rparr>) else sent_view ?e)"
    using e(2,3) by (simp add: reset_for_slot_def Let_def slot_changes_def) (simp add: sent_view_def clear_received_def)
  ultimately show ?thesis using e(1) by (simp add: sent_view_def)
qed

context sent_env begin

lemma view_I: "sent_view d = sent_view c \<Longrightarrow> P c \<Longrightarrow> P d"
  using view_only [of c d] by simp

lemma death_link_I: "P c \<Longrightarrow> P (fst (apply_death_link dl c))"
proof (cases dl)
  case (Some v)
  assume "P c"
  have "P (set_deathlink_enabled (v \<noteq> 0) (update_death_link (v \<noteq> 0) (c\<lparr>deathlink_enabled := (v \<noteq> 0)\<rparr>)))"
    using \<open>P c\<close> by (intro view_I [OF sent_view_more [OF more_settings(1)]])
      (auto simp: update_death_link_def intro!: quiet_inv intro: view_I)
  then have "P (fst (push_deathlink_helloack (set_deathlink_enabled (v \<noteq> 0) (update_death_link (v \<noteq> 0)
      (c\<lparr>deathlink_enabled := (v \<noteq> 0)\<rparr>)))))" by (rule view_I [OF sent_view_more [OF more_push(1)]])
  then show ?thesis by (simp add: apply_death_link_def Some update_def case_prod_unfold split: option.split)
qed (simp add: apply_death_link_def skip_def)

lemma connected_switch_I: "P c \<Longrightarrow> P (fst (connected_switch (smo_callbacks stages) sd c))"
proof -
  have drain: "P (fst (try_catch (drain_pending_snapshot (smo_callbacks stages)) skip d))" if "P d" for d
    using smo.drain_I [OF that, of stages] by (auto simp: try_catch_def skip_def split: prod.split option.split)
  have set: "P (apply_sanity sd d)" "P (d\<lparr>talkatoo_mode := b, talkatoo_order := tord\<rparr>)"
    "P (d\<lparr>mm_bonus_captures := mc, mm_bonus_abilities := ma\<rparr>)" "P (set_kingdom_gates g d)" "P (set_entrance_map em d)"
    if "P d" for d b tord mc ma g em
    using that by (auto intro: view_I [OF sanity_view] view_I [OF view_update(3)] view_I [OF view_update(4)]
        view_I [OF sent_view_more [OF more_settings(5)]] view_I [OF sent_view_more [OF more_state(22)]])
  have push: "P (fst (push_capturesanity_replay cb d))" "P (fst (push_ability_state d))" "P (fst (push_kingdom_gates d))"
    "P (fst (push_entrance_map cb d))" "P (fst (send_active m d))" "P (fst (derive_and_push_talkatoo_pool d))"
    "P (fst (derive_and_push_shop_labels d))" if "P d" for d cb m
    using that by (auto intro: view_I [OF sent_view_more [OF more_push(2)]] view_I [OF sent_view_more [OF more_push(4)]]
        view_I [OF sent_view_more [OF more_push(6)]] view_I [OF sent_view_more [OF more_push(7)]]
        view_I [OF sent_view_more [OF more_send(2)]] view_I [OF talkatoo_push_view] view_I [OF shop_push_view])
  assume "P c"
  then show ?thesis unfolding connected_switch_def
    by (rule seq_invariant [rotated]) (auto simp: update_def drain death_link_I set push)
qed

lemma location_info_I: "P c \<Longrightarrow> P (fst (handle_location_info (smo_callbacks stages) ls c))"
proof -
  assume "P c"
  have shop: "P (fst (try_catch derive_and_push_shop_labels skip d))" if "P d" for d
    using view_I [OF shop_push_view that] by (auto simp: try_catch_def skip_def split: prod.split option.split)
  obtain sc r where sc: "absorb_location_info ls (ctx_scout_cache c) = (sc, r)" by fastforce
  have "P (c\<lparr>ctx_scout_cache := sc\<rparr>)" using \<open>P c\<close> by (rule view_I [rotated]) simp
  then have "P (fst (seq [\<lambda>c. (if col_enabled (colors c) then push_palette_for_scout_batch ls else skip) c,
      update (try_fire_reconcile_cappy (smo_callbacks stages)), try_catch derive_and_push_shop_labels skip] (c\<lparr>ctx_scout_cache := sc\<rparr>)))"
    by (rule seq_invariant [rotated])
      (auto simp: update_def skip_def shop intro: view_I [OF palette_push_view] view_I [OF sent_view_more [OF more_try_fire]])
  with \<open>P (c\<lparr>ctx_scout_cache := sc\<rparr>)\<close> show ?thesis by (simp add: handle_location_info_def sc del: seq.simps split: sum.split)
qed

lemma package_I:
  assumes "P c" "\<And>sd. pkg = Connected sd \<Longrightarrow> slot_changes c \<Longrightarrow> P (c\<lparr>goal_reported := False\<rparr>)"
  shows "P (fst (handle_ap_package (smo_callbacks stages) pkg c))"
proof (cases pkg)
  case (Connected sd)
  have start: "P (connected_start c)"
  proof (cases "slot_changes c")
    case True
    then have "sent_view (connected_start c) = sent_view (c\<lparr>goal_reported := False\<rparr>)" by (simp add: connected_start_view)
    then show ?thesis using assms(2) [OF Connected True] by (rule view_I)
  next
    case False
    then have "sent_view (connected_start c) = sent_view c" by (simp add: connected_start_view)
    then show ?thesis using assms(1) by (rule view_I)
  qed
  have warm: "P (warm_scout_cache d)" if "P d" for d
    using that by (auto simp: warm_scout_cache_def Let_def request_scout_def list_all_iff intro!: quiet_inv intro: view_I)
  have "P (fst (seq [connected_switch (smo_callbacks stages) sd, update warm_scout_cache] (connected_start c)))"
    using start by (rule seq_invariant [rotated]) (auto simp: update_def warm connected_switch_I)
  then show ?thesis by (simp add: handle_ap_package_def Connected update_def)
next
  case (DataPackageGames games)
  have "sent_view (fold (\<lambda>(game, item_map, loc_map) c. c\<lparr>dp := update_from_ap item_map loc_map (dp c)\<rparr>) games c) = sent_view c"
    by (induction games arbitrary: c) (auto simp: case_prod_unfold)
  then show ?thesis using assms(1) by (simp add: handle_ap_package_def DataPackageGames view_I)
next
  case (ReceivedItems i items)
  then show ?thesis using assms(1) by (simp add: handle_ap_package_def view_I [OF sent_view_more [OF more_process]])
qed (use assms(1) in \<open>auto simp: handle_ap_package_def location_info_I intro: view_I view_I [OF talkatoo_push_view]\<close>)

end

section \<open>Runs of the client\<close>

text \<open>What the framework and the environment own.\<close>

definition env_update ::
  "string option \<Rightarrow> int option \<Rightarrow> (int, string) dict \<Rightarrow> int set \<Rightarrow> int set \<Rightarrow> (string, (int, string) dict) dict \<Rightarrow>
     (string, (int, string) dict) dict \<Rightarrow> map_file \<Rightarrow> map_file \<Rightarrow> int option \<Rightarrow> int \<Rightarrow> client \<Rightarrow> client" where
  "env_update auth sl names checked missing items locs shines captures sentinel clock c =
     c\<lparr>fw_auth := auth, fw_slot := sl, fw_player_names := names, fw_checked_locations := checked,
       fw_missing_locations := missing, fw_item_names := items, fw_location_names := locs,
       disk_shine_map := shines, disk_capture_map := captures, disk_sentinel := sentinel, disk_clock_ms := clock\<rparr>"

text \<open>One step of the client; \<open>slot_change\<close> says whether a \<open>Connected\<close> to another slot may occur.\<close>

inductive client_step :: "(string, stage_rec) dict \<Rightarrow> bool \<Rightarrow> client \<Rightarrow> client \<Rightarrow> bool" for stages slot_change where
  cs_hello: "w \<notin> set (conn_writers c) \<Longrightarrow>
    client_step stages slot_change c (fst (handle_hello (smo_callbacks stages) now w ip hello c))"
| cs_line: "client_step stages slot_change c (fst (receive_line (smo_callbacks stages) now conn line c))"
| cs_leave: "client_step stages slot_change c (fst (handle_disconnect (smo_callbacks stages) conn c))"
| cs_select: "client_step stages slot_change c (fst (set_active (smo_callbacks stages) d c))"
| cs_confirm: "client_step stages slot_change c (fst (confirm_pending_snapshot (smo_callbacks stages) c))"
| cs_reject: "client_step stages slot_change c (fst (reject_pending_snapshot c))"
| cs_package: "(\<And>sd. pkg = Connected sd \<Longrightarrow> slot_changes c \<Longrightarrow> slot_change) \<Longrightarrow>
    client_step stages slot_change c (fst (handle_ap_package (smo_callbacks stages) pkg c))"
| cs_print: "client_step stages slot_change c (on_print_json text c)"
| cs_deathlink: "client_step stages slot_change c (on_deathlink source cause c)"
| cs_ap_leave: "client_step stages slot_change c (fst (ctx_disconnect c))"
| cs_prepare: "client_step stages slot_change c (prepare_data_package games c)"
| cs_auth: "client_step stages slot_change c (fst (server_auth c))"
| cs_env: "client_step stages slot_change c
    (env_update auth sl names checked missing items locs shines captures sentinel clock c)"
| cs_network: "client_step stages slot_change c (c\<lparr>writers := ws\<rparr>)"

inductive_cases client_stepE: "client_step stages slot_change c d"

inductive client_reach :: "(string, stage_rec) dict \<Rightarrow> bool \<Rightarrow> client \<Rightarrow> client \<Rightarrow> bool" for stages slot_change c0 where
  client_reach_refl: "client_reach stages slot_change c0 c0"
| client_reach_step: "client_reach stages slot_change c0 c \<Longrightarrow> client_step stages slot_change c d \<Longrightarrow>
    client_reach stages slot_change c0 d"

lemma ap_event_views:
  "more_of (on_print_json text c) = more_of c"
  "more_of (on_deathlink source cause c) = more_of c"
  "more_of (fst (ctx_disconnect c)) = more_of c"
  "sent_view (prepare_data_package games c) = sent_view c"
  "sent_view (fst (server_auth c)) = sent_view c"
  "sent_view (env_update auth sl names checked missing items locs shines captures sentinel clock c) = sent_view c"
  "sent_view (c\<lparr>writers := ws\<rparr>) = sent_view c"
proof -
  show "more_of (fst (ctx_disconnect c)) = more_of c"
    unfolding ctx_disconnect_def by (auto intro!: more_seq simp: update_def more_simps simp del: seq.simps)
qed (simp_all add: on_print_json_def on_deathlink_def Let_def more_simps prepare_data_package_def server_auth_def
    env_update_def sent_view_def split: option.split)

context sent_env begin

lemma client_step_I:
  assumes "client_step stages sc c d" "P c" "\<And>c. sc \<Longrightarrow> P c \<Longrightarrow> P (c\<lparr>goal_reported := False\<rparr>)"
  shows "P d"
  using assms(1)
proof (cases rule: client_step.cases)
  case (cs_package pkg)
  show ?thesis unfolding cs_package(1) by (rule package_I [OF assms(2)]) (auto intro: assms(2,3) cs_package(2))
qed (use assms(2) in \<open>auto simp: smo.line_I smo.server_ops_I smo.confirm_I smo.reject_I
  intro: view_I [OF sent_view_more] view_I simp: ap_event_views\<close>)

end

section \<open>The AP side leaves the registry alone\<close>

lemma registry_client_update [simp]:
  "registry_of (c\<lparr>dp := d\<rparr>) = registry_of c"
  "registry_of (c\<lparr>ctx_scout_cache := sc\<rparr>) = registry_of c"
  "registry_of (c\<lparr>talkatoo_mode := b, talkatoo_order := tord\<rparr>) = registry_of c"
  "registry_of (c\<lparr>mm_bonus_captures := mc, mm_bonus_abilities := ma\<rparr>) = registry_of c"
  "registry_of (c\<lparr>shop_labels_signature := sig\<rparr>) = registry_of c"
  "registry_of (c\<lparr>goal_location_name := gl\<rparr>) = registry_of c"
  "registry_of (c\<lparr>capturesanity_enabled := b\<rparr>) = registry_of c"
  "registry_of (c\<lparr>abilitysanity_enabled := b\<rparr>) = registry_of c"
  "registry_of (c\<lparr>deathlink_enabled := b\<rparr>) = registry_of c"
  "registry_of (c\<lparr>fw_deathlink_tag := b\<rparr>) = registry_of c"
  "registry_of (c\<lparr>ap_seed := sl\<rparr>) = registry_of c"
  "registry_of (ctx_output x c) = registry_of c"
  "registry_of (send_msgs ms c) = registry_of c"
  by (simp_all add: registry_of_def ctx_output_def send_msgs_def)

lemma registry_settings [frame_simps]:
  "registry_of (set_deathlink_enabled b s) = registry_of s"
  "registry_of (set_capturesanity_enabled b s) = registry_of s"
  "registry_of (set_abilitysanity_enabled b s) = registry_of s"
  "registry_of (set_talkatoo_pool b p s) = registry_of s"
  "registry_of (set_kingdom_gates g s) = registry_of s"
  "registry_of (set_shop_labels es s) = registry_of s"
  "registry_of (set_ap_conn c s) = registry_of s"
  "registry_of (set_shine_palette pal s) = registry_of s"
  "registry_of (set_entrance_map em s) = registry_of s"
  "registry_of (add_received_item ev s) = registry_of s"
  "registry_of (grant_bonus_capture cap s) = registry_of s"
  "registry_of (grant_bonus_ability ab s) = registry_of s"
  by (simp_all add: registry_of_def set_deathlink_enabled_def set_capturesanity_enabled_def set_abilitysanity_enabled_def
      set_talkatoo_pool_def set_kingdom_gates_def set_shop_labels_def set_ap_conn_def set_shine_palette_def set_entrance_map_def
      add_received_item_def grant_bonus_capture_def grant_bonus_ability_def Let_def)

lemma registry_helloack [frame_simps]: "registry_of (fst (push_deathlink_helloack s)) = registry_of s"
  by (simp add: push_deathlink_helloack_def frame_simps split: option.split)

lemma registry_scouts [frame_simps]: "registry_of (fst (send_shine_scouts p s)) = registry_of s"
  using registry_for_each_send(1) [of "palette_messages p" "\<lambda>m. m" s] by (simp add: send_shine_scouts_def)

lemma registry_push_outstanding [frame_simps]: "registry_of (fst (push_outstanding_to_switch c)) = registry_of c"
  by (simp add: push_outstanding_to_switch_def frame_simps)

lemma registry_try:
  assumes "\<And>s. registry_of (fst (a s)) = registry_of s"
  shows "registry_of (fst (try_catch a skip s)) = registry_of s"
  using assms [of s] by (auto simp: try_catch_def skip_def split: prod.splits option.splits)

lemma registry_then:
  assumes "\<And>s. registry_of (fst (f s)) = registry_of s" "\<And>s. registry_of (fst (g s)) = registry_of s"
  shows "registry_of (fst (then_value f g s)) = registry_of s"
  using assms(1) [of s] assms(2) by (auto simp: then_value_def split: prod.split option.split)

lemma registry_bind_value:
  assumes "\<And>s. registry_of (fst (f s)) = registry_of s" "\<And>x s. registry_of (fst (g x s)) = registry_of s"
  shows "registry_of (fst (bind_value f g s)) = registry_of s"
  using assms(1) [of s] assms(2) by (auto simp: bind_value_def split: prod.split sum.split)

lemma registry_ignore: "registry_of (fst (ignore_value f s)) = registry_of (fst (f s))"
  by (simp add: ignore_value_def split: prod.split sum.split)

lemma registry_bonus: "registry_of (fst (grant_bonuses ref fl c)) = registry_of c"
proof -
  have fold: "registry_of (fold grant_bonus_ability as d) = registry_of d" for as and d :: client
    by (induction as arbitrary: d) (simp_all add: frame_simps)
  have "registry_of (fst (for_each caps (\<lambda>cap. seq [update (grant_bonus_capture cap),
      \<lambda>c. send_active (Item (bonus_capture_msg cap c)) c]) e)) = registry_of e" for caps and e :: client
    by (rule registry_for_each, rule registry_seq) (auto simp: update_def frame_simps)
  then show ?thesis by (simp add: grant_bonuses_def Let_def fold then_value_registry del: seq.simps)
qed

lemma registry_receive: "registry_of (fst (receive_items n nis pos fl c)) = registry_of c"
proof (induction nis arbitrary: pos fl c)
  case (Cons ni nis)
  have one: "registry_of (fst (receive_one n ni pos fl c)) = registry_of c" for fl c
    by (simp add: receive_one_def Let_def registry_then registry_bonus frame_simps split: option.split)
  show ?case unfolding receive_items.simps by (rule registry_bind_value [OF one Cons.IH])
qed simp

lemma registry_process: "registry_of (fst (process_received_items i items c)) = registry_of c"
proof -
  have "registry_of (fst (seq [if bf_moon fl then push_outstanding_to_switch else skip, if bf_ability fl then push_ability_state else skip,
      if bf_coin fl then push_coin_grant else skip] d)) = registry_of d" for fl and d :: client
    by (rule registry_seq) (auto simp: skip_def frame_simps)
  then have "registry_of (fst (bind_value (receive_items n items i no_flags) (\<lambda>fl. then_value (seq [if bf_moon fl then push_outstanding_to_switch
      else skip, if bf_ability fl then push_ability_state else skip, if bf_coin fl then push_coin_grant else skip]) (\<lambda>c. (c, Inr ()))) c)) =
      registry_of c" for n
    by (intro registry_bind_value registry_receive then_value_registry)
  then show ?thesis by (simp only: process_received_items_def registry_ignore)
qed

lemma registry_talkatoo_push: "registry_of (fst (derive_and_push_talkatoo_pool c)) = registry_of c"
  unfolding derive_and_push_talkatoo_pool_def by (rule registry_seq) (auto simp: update_def frame_simps)

lemma registry_shop_push: "registry_of (fst (derive_and_push_shop_labels c)) = registry_of c"
  unfolding derive_and_push_shop_labels_def Let_def
  by (auto intro!: registry_seq simp: update_def frame_simps simp del: seq.simps)

lemma registry_palette_push: "registry_of (fst (push_palette_for_scout_batch ls c)) = registry_of c"
  unfolding push_palette_for_scout_batch_def Let_def
  by (auto intro!: registry_seq registry_try simp: update_def frame_simps simp del: seq.simps)

lemma registry_start: "registry_of (connected_start c) = registry_of c"
proof -
  have pop: "registry_of (populate_datapackage_from_self d) = registry_of d" for d
    by (simp add: populate_datapackage_from_self_def)
  have slot: "registry_of (reset_for_slot d) = registry_of d" for d
    by (simp add: reset_for_slot_def Let_def registry_of_def clear_received_def)
  show ?thesis using registry_reload [of False c]
    by (simp add: connected_start_def Let_def case_prod_unfold slot pop frame_simps)
qed

lemma registry_death_link: "registry_of (fst (apply_death_link dl c)) = registry_of c"
  unfolding apply_death_link_def
  by (auto intro!: registry_seq simp: update_def skip_def frame_simps update_death_link_def simp del: seq.simps split: option.split)

lemma registry_connected: "registry_of (fst (connected_switch (smo_callbacks stages) sd c)) = registry_of c"
  unfolding connected_switch_def
  by (rule registry_seq)
    (auto simp: update_def frame_simps apply_sanity_def Let_def registry_death_link registry_talkatoo_push registry_shop_push
      registry_try smo_registry.drain_keeps)

lemma registry_location_info:
  "registry_of (fst (handle_location_info (smo_callbacks stages) ls c)) = registry_of c"
proof -
  have "registry_of (fst (seq [\<lambda>c. (if col_enabled (colors c) then push_palette_for_scout_batch ls else skip) c,
      update (try_fire_reconcile_cappy (smo_callbacks stages)), try_catch derive_and_push_shop_labels skip] d)) = registry_of d" for d
    by (rule registry_seq) (auto simp: update_def skip_def frame_simps registry_palette_push registry_try registry_shop_push)
  then show ?thesis
    by (simp add: handle_location_info_def case_prod_unfold del: seq.simps split: sum.split)
qed

lemma registry_package: "registry_of (fst (handle_ap_package (smo_callbacks stages) pkg c)) = registry_of c"
proof (cases pkg)
  case (Connected sd)
  have "registry_of (warm_scout_cache d) = registry_of d" for d by (simp add: warm_scout_cache_def Let_def)
  then have "registry_of (fst (seq [update connected_start, connected_switch (smo_callbacks stages) sd, update warm_scout_cache] c)) = registry_of c"
    by (intro registry_seq) (auto simp: update_def registry_start registry_connected)
  then show ?thesis by (simp add: handle_ap_package_def Connected del: seq.simps)
next
  case (DataPackageGames games)
  have "registry_of (fold (\<lambda>(game, item_map, loc_map) c. c\<lparr>dp := update_from_ap item_map loc_map (dp c)\<rparr>) games c) = registry_of c"
    by (induction games arbitrary: c) (auto simp: case_prod_unfold)
  then show ?thesis by (simp add: handle_ap_package_def DataPackageGames)
qed (simp_all add: handle_ap_package_def registry_process registry_location_info registry_talkatoo_push)

lemma client_step_registry:
  assumes "client_step stages sc c d"
  shows "server_step (smo_callbacks stages) (\<lambda>_ _. True) c d \<or> registry_of d = registry_of c"
  using assms
proof (cases rule: client_step.cases)
  case (cs_hello w now ip hello)
  then show ?thesis by (auto intro: server_step.intros)
next
  case cs_ap_leave
  then show ?thesis by (auto simp: ctx_disconnect_def intro!: registry_seq simp: update_def frame_simps simp del: seq.simps)
next
  case (cs_env auth sl names checked missing items locs shines captures sentinel clock)
  then show ?thesis by (simp add: env_update_def registry_of_def)
next
  case (cs_network ws)
  then show ?thesis by (simp add: registry_of_def)
next
  case (cs_prepare games)
  then show ?thesis by (simp add: prepare_data_package_def registry_of_def)
next
  case cs_auth
  then show ?thesis by (simp add: server_auth_def registry_of_def split: option.split)
qed (auto intro: server_step.intros simp: registry_package on_print_json_def on_deathlink_def Let_def frame_simps)

end
