(* ===== verification/Client_Theorems.thy ===== *)
theory Client_Theorems
  imports Client_Safety
begin

text \<open>
  The properties of the client over its runs: what reaches AP and how often, which Switch is active, what
  a Switch that becomes active is told, the confirmation gate, and the replay of received items.
\<close>

section \<open>A fresh client\<close>

definition fresh_client ::
  "string \<Rightarrow> data_package \<Rightarrow> shine_map \<Rightarrow> capture_map \<Rightarrow> bool \<Rightarrow> bool \<Rightarrow> colors_config \<Rightarrow> client" where
  "fresh_client client_ver datapackage smap cmap deathlink display cols =
     init_client (init_server client_ver deathlink True) datapackage smap cmap deathlink display cols"

lemmas fresh_defs = fresh_client_def init_client_def init_server_def init_bridge_state_def
  server.defs client.defs bridge_state.defs

lemma fresh_sent:
  "sent_view (fresh_client v d sm cm dl dis cols) = ([], {}, False)"
  by (simp add: sent_view_def fresh_defs)

lemma fresh_registry: "registry_of (fresh_client v d sm cm dl dis cols) = ([], None, [], None, v)"
  by (simp add: registry_of_def fresh_defs)

lemma fresh_invs:
  "checks_once (fresh_client v d sm cm dl dis cols)" "goal_latched 0 (fresh_client v d sm cm dl dis cols)"
  "reg_ok (registry_of (fresh_client v d sm cm dl dis cols))"
  using fresh_sent [of v d sm cm dl dis cols]
  by (simp_all add: checks_once_def goal_latched_def goals_sent_def sent_view_def fresh_registry reg_ok_def)

lemma reach_checks: "client_reach stages sc c d \<Longrightarrow> checks_once c \<Longrightarrow> checks_once d"
proof (induction rule: client_reach.induct)
  case (client_reach_step c d)
  then show ?case
    by (intro smo_checks.client_step_I [OF client_reach_step.hyps(2)]) (auto simp: checks_once_def)
qed

lemma reach_goal: "client_reach stages False c d \<Longrightarrow> goal_latched n c \<Longrightarrow> goal_latched n d"
  by (induction rule: client_reach.induct) (auto intro: smo_goal.client_step_I)

lemma reach_registry: "client_reach stages sc c d \<Longrightarrow> reg_ok (registry_of c) \<Longrightarrow> reg_ok (registry_of d)"
proof (induction rule: client_reach.induct)
  case (client_reach_step c d)
  from client_step_registry [OF client_reach_step.hyps(2)] show ?case
  proof
    assume "server_step (smo_callbacks stages) (\<lambda>_ _. True) c d"
    then show ?thesis using client_reach_step.IH [OF client_reach_step.prems] by (rule smo_registry.step_inv)
  qed (use client_reach_step in simp)
qed

section \<open>A sample client\<close>

text \<open>A client whose data package names one moon of the Cap Kingdom.\<close>

definition sample_moon :: check_dict where
  "sample_moon = [(''kind'', JStr ''moon''), (''kingdom'', JStr ''Cap''), (''shine_id'', JStr ''Frog'')]"

definition sample_client :: client where
  "sample_client = fresh_client ''1.0'' (empty_data_package\<lparr>location_name_to_id := [(''Cap: Frog'', 41)]\<rparr>)
     empty_shine_map empty_capture_map False True default_colors"

text \<open>A run in which a Switch connects, the AP session opens and the Switch reports the moon.\<close>

definition sample_joined :: client where
  "sample_joined = fst (handle_hello (smo_callbacks []) 9 1 ''10.0.0.5'' (sample_hello ''1.0'') sample_client)"

definition sample_run :: client where
  "sample_run =
     (let cb = smo_callbacks [];
          c = fst (handle_ap_package cb (RoomInfo (Some ''seed'')) sample_joined)
      in fst (receive_line cb 10 sample_conn (dumps (JObj ((''t'', JStr ''check'') # sample_moon))) c))"

lemma sample_writers: "1 \<notin> set (conn_writers sample_client)"
  by (simp add: conn_writers_def sample_client_def fresh_defs)

lemma sample_run_reach: "client_reach [] sc sample_client sample_run"
proof -
  have "client_reach [] sc sample_client sample_joined"
    unfolding sample_joined_def by (rule client_reach_step [OF client_reach_refl cs_hello [OF sample_writers]])
  from client_reach_step [OF this cs_package] show ?thesis
    unfolding sample_run_def Let_def by (rule client_reach_step [OF _ cs_line]) simp_all
qed

lemma sample_joined_reach: "server_reach (smo_callbacks []) version_accepted sample_client sample_joined"
  unfolding sample_joined_def
  by (rule server_reach_step [OF server_reach_refl step_hello [OF sample_writers]])
    (simp add: sample_client_def fresh_defs version_accepted_def sample_hello_def hello_str_def get_str_def json_str_def
      json_get_def dict_get_or_def)

section \<open>Properties\<close>



text \<open>C38 The goal is reported at most once per slot: as long as the client stays on one slot, at most one
  goal status is sent to AP, and it has been sent exactly when the latch is set.\<close>

theorem goal_sent_once:
  assumes "client_reach stages False (fresh_client v d sm cm dl dis cols) c"
  shows "goals_sent c \<le> 1 \<and> (goal_reported c \<longleftrightarrow> goals_sent c = 1)"
  using reach_goal [OF assms fresh_invs(2)] by (auto simp: goal_latched_def)

theorem goal_sent_once_witness:
  "goals_sent sample_run \<le> 1 \<and> (goal_reported sample_run \<longleftrightarrow> goals_sent sample_run = 1)"
  using goal_sent_once [OF sample_run_reach [unfolded sample_client_def]] by simp



text \<open>C39 The active slot is never lost while the mods' versions match: in every run of the server in which
  no hello is refused by the version policy, the slot is free or held by a connected Switch, and it is the
  one the GUI shows.\<close>

theorem active_slot_connected:
  assumes "server_reach (smo_callbacks stages) version_accepted (fresh_client v d sm cm dl dis cols) c"
  shows "srv_active c = active_device_id c \<and>
    (srv_active c \<noteq> None \<longrightarrow> dict_get (connections c) (the (srv_active c)) \<noteq> None)"
proof -
  have "slot_ok (registry_of (fresh_client v d sm cm dl dis cols))" by (simp add: fresh_registry slot_ok_def)
  from smo_registry.reach_slot [OF assms fresh_invs(3) this] smo_registry.reach_inv [OF assms fresh_invs(3)]
  show ?thesis unfolding slot_ok_def reg_ok_def registry_of_def prod.case dict_get_None_iff by metis
qed

lemma sample_joined_active: "srv_active sample_joined = Some ''sw''"
  by code_simp

theorem active_slot_connected_witness:
  "active_device_id sample_joined = Some ''sw'' \<and> dict_get (connections sample_joined) ''sw'' \<noteq> None"
  using active_slot_connected [OF sample_joined_reach [unfolded sample_client_def]] by (simp add: sample_joined_active)

text \<open>Switching the active Switch hands over completely: when the user activates a connected Switch, the
  old one receives exactly the kick and the new one exactly the activation followed by the whole replay, in
  order, provided both connections are open and the messages fit the line cap; no other connection
  receives anything.\<close>

theorem set_active_hands_over:
  assumes "d \<noteq> []" "a \<noteq> []" "a \<noteq> d" "srv_active c = Some a"
    "dict_get (connections c) d = Some new" "dict_get (connections c) a = Some old"
    "open_writer (conn_writer new) c" "open_writer (conn_writer old) c" "conn_writer new \<noteq> conn_writer old"
    "list_all encodable (replay_messages (smo_callbacks stages) (rebound d c))"
  shows "let (t, r) = set_active (smo_callbacks stages) (Some d) c
    in r = Inr True \<and> srv_active t = Some d \<and>
       wr_out (writers t (conn_writer new)) =
         wr_out (writers c (conn_writer new)) @ Activate # replay_messages (smo_callbacks stages) (rebound d c) \<and>
       wr_out (writers t (conn_writer old)) = wr_out (writers c (conn_writer old)) @ [Kick ''unbound''] \<and>
       (\<forall>w. w \<noteq> conn_writer new \<longrightarrow> w \<noteq> conn_writer old \<longrightarrow> writers t w = writers c w)"
proof -
  let ?t = "emit (conn_writer new) (Activate # replay_messages (smo_callbacks stages) (rebound d c))
       (emit (conn_writer old) [Kick ''unbound''] (shipped (rebound d c)))"
  have notify: "writers (notify_switches_changed u) = writers u" "srv_active (notify_switches_changed u) = srv_active u"
    for u :: client by (simp_all add: notify_switches_changed_def)
  have "srv_active (shipped u) = srv_active u" for u :: client by (simp add: shipped_def)
  then show ?thesis
    using assms(9) by (simp add: smo_replay.hand_over [OF assms] notify emit_writers)
      (simp add: emit_def)
qed

definition sample_pair :: client where
  "sample_pair = sample_client\<lparr>srv_active := Some ''sw'', ap_conn := ''ready'',
     connections := [(''sw'', sample_conn), (''dev'', sample_conn\<lparr>conn_device_id := ''dev'', conn_writer := 2\<rparr>)]\<rparr>"

lemma sample_pair_replay: "list_all encodable (replay_messages (smo_callbacks []) (rebound ''dev'' sample_pair))"
  by code_simp

theorem set_active_hands_over_witness:
  "let (t, r) = set_active (smo_callbacks []) (Some ''dev'') sample_pair
    in r = Inr True \<and> srv_active t = Some ''dev'' \<and> wr_out (writers t 1) = [Kick ''unbound''] \<and>
       wr_out (writers t 2) = Activate # replay_messages (smo_callbacks []) (rebound ''dev'' sample_pair)"
proof -
  have w: "writers sample_pair w = \<lparr>wr_closing = False, wr_broken = False, wr_out = []\<rparr>" for w
    by (simp add: sample_pair_def sample_client_def fresh_defs)
  then have w': "wr_out (writers sample_client w) = []" for w by (simp add: sample_pair_def)
  have o: "open_writer w sample_pair" for w by (simp add: open_writer_def w)
  from set_active_hands_over [of "''dev''" "''sw''" sample_pair "sample_conn\<lparr>conn_device_id := ''dev'', conn_writer := 2\<rparr>"
      sample_conn "[]", OF _ _ _ _ _ _ o o _ sample_pair_replay]
  show ?thesis by (simp add: sample_pair_def sample_conn_def case_prod_unfold Let_def w')
qed

end
