(* ===== verification/Client_Gate.thy ===== *)
theory Client_Gate
  imports Client_Theorems
begin

text \<open>
  The save-snapshot confirmation gate of \<open>client/switch_server.py\<close> with the context's two
  resolution functions: \<open>resolve_entry_to_loc_id\<close>, which the gate asks, and \<open>report_check\<close>, which
  the dispatch runs.
\<close>

section \<open>Resolving and reporting\<close>

text \<open>The kind of an entry is a non-empty string (as in every entry the accumulator makes) or absent.\<close>

definition kind_ok :: "check_dict \<Rightarrow> bool" where
  "kind_ok e \<longleftrightarrow> dict_get e ''kind'' = None \<or> truthy (get_str e ''kind'')"

lemma kind_ok_eq: "kind_ok e \<Longrightarrow> or_str (get_str e ''kind'') ''moon'' = msg_kind e"
  by (auto simp: kind_ok_def msg_kind_def or_str_def hello_str_def get_str_def json_get_def dict_get_or_def json_str_def
      elim: truthyE)

text \<open>What \<open>report_check\<close> does once the location is known.\<close>

definition credit :: "int \<Rightarrow> bool \<Rightarrow> client \<Rightarrow> client" where
  "credit l is_goal c =
     (let c = c\<lparr>switch_reported_loc_ids := insert l (switch_reported_loc_ids c)\<rparr>
      in if l \<in> locations_checked c then c
         else (let c = (send_msgs [LocationChecks [l]] c)\<lparr>locations_checked := insert l (locations_checked c)\<rparr>
               in if is_goal then report_goal c else c))"

lemma forward_check_credit:
  "dict_get (location_name_to_id (dp c)) (reconstruct_location_name k kd sh cap None) = Some l \<Longrightarrow>
   forward_check k kd sh cap c =
     (credit l (goal_location_name c = Some (reconstruct_location_name k kd sh cap None)) c, Some l)"
  by (simp add: forward_check_def credit_def Let_def send_msgs_def)

lemma on_check_credit:
  assumes "kind_ok m" "resolve_entry_to_loc_id m c = Some l"
  shows "\<exists>g. on_check m c = (credit l g c, Inr (Some l))"
proof -
  note k = kind_ok_eq [OF assms(1)]
  show ?thesis
    using assms(2)
    by (auto simp: resolve_entry_to_loc_id_def k Let_def on_check_def report_check_def forward_check_credit
        split: if_splits option.splits)
qed

lemma credit_sent:
  "sent_checks (ap_out (credit l g c)) = sent_checks (ap_out c) @ (if l \<in> locations_checked c then [] else [l])"
  "locations_checked (credit l g c) = insert l (locations_checked c)"
  by (auto simp: credit_def report_goal_def send_msgs_def Let_def)

type_synonym resolver = "shine_map \<times> capture_map \<times> data_package"

definition resolver_of :: "client \<Rightarrow> resolver" where
  "resolver_of c = (ctx_shine_map c, ctx_capture_map c, dp c)"

lemma credit_resolver: "resolver_of (credit l g c) = resolver_of c"
  by (simp add: resolver_of_def credit_def report_goal_def send_msgs_def Let_def)

lemma resolve_eq: "resolver_of c = resolver_of d \<Longrightarrow> resolve_entry_to_loc_id e c = resolve_entry_to_loc_id e d"
  unfolding resolver_of_def prod.inject by (elim conjE) (simp only: resolve_entry_to_loc_id_def)

lemma resolver_more: "more_of c = more_of d \<Longrightarrow> resolver_of c = resolver_of d" for c d :: client
  by (cases c; cases d) (simp add: resolver_of_def)

text \<open>The type tag the dispatch puts before an entry changes none of the fields read.\<close>

lemma tagged_get:
  assumes "dict_ok e" "k \<noteq> ''t''"
  shows "dict_get (dict_update_all e [(''t'', JStr ''check'')]) k = dict_get e k"
proof -
  have "map_of (rev e) = map_of e"
    using assms(1) by (intro map_of_eqI) (auto simp: rev_map [symmetric])
  then show ?thesis using assms(2) by (simp add: dict_get_update_all split: option.split)
qed

lemma tagged_entry:
  assumes "dict_ok e"
  shows "kind_ok (dict_update_all e [(''t'', JStr ''check'')]) = kind_ok e"
  "resolve_entry_to_loc_id (dict_update_all e [(''t'', JStr ''check'')]) c = resolve_entry_to_loc_id e c"
  by (simp_all add: kind_ok_def resolve_entry_to_loc_id_def get_str_def get_int_def json_get_def dict_get_or_def
      tagged_get [OF assms] del: dict_update_all_simps)

section \<open>Dispatching a snapshot\<close>

lemma dispatch_check_effect:
  assumes "kind_ok m" "resolve_entry_to_loc_id m c = Some l" "dispatch_check (smo_callbacks st) m b c = (t, r)"
  shows "resolver_of t = resolver_of c" "set (sent_checks (ap_out t)) \<subseteq> insert l (set (sent_checks (ap_out c)))"
    "locations_checked t = insert l (locations_checked c)" "r = Inr x \<Longrightarrow> x = Some l"
proof -
  obtain g where g: "on_check m c = (credit l g c, Inr (Some l))" using on_check_credit [OF assms(1,2)] by blast
  let ?a = "already_checked_loc_ids c"
  obtain u e where u: "send_check_label (smo_callbacks st) m b ?a (Some l) (credit l g c) = (u, e)" by fastforce
  then have mu: "more_of u = more_of (credit l g c)" using more_push(12) by (metis fst_conv)
  have cbs: "cb_already_checked (smo_callbacks st) = Some (\<lambda>c. Inr (already_checked_loc_ids c))"
    "cb_check (smo_callbacks st) = on_check" by (simp_all add: smo_callbacks_def)
  have tr: "t = (if e = None then fst (add_checked_location \<lparr>ce_item = check_ref m\<rparr> u) else u) \<and>
      r = (case e of None \<Rightarrow> Inr (Some l) | Some x \<Rightarrow> Inl x)"
    using assms(3) by (auto simp: dispatch_check_def cbs bind_value_def g then_value_def u split: option.splits)
  then have mt: "more_of t = more_of (credit l g c)" by (simp add: mu more_simps)
  then show "resolver_of t = resolver_of c" using resolver_more [of t "credit l g c"] credit_resolver [of l g c] by simp
  from sent_view_more [OF mt] have "ap_out t = ap_out (credit l g c)" "locations_checked t = locations_checked (credit l g c)"
    by (simp_all add: sent_view_def)
  then show "set (sent_checks (ap_out t)) \<subseteq> insert l (set (sent_checks (ap_out c)))"
    "locations_checked t = insert l (locations_checked c)"
    by (auto simp: credit_sent)
  show "r = Inr x \<Longrightarrow> x = Some l" using tr by (auto split: option.splits)
qed

text \<open>Entries that resolve, captures aside.\<close>

definition resolvable :: "client \<Rightarrow> check_dict list \<Rightarrow> bool" where
  "resolvable c es \<longleftrightarrow> list_all (\<lambda>e. is_capture_entry e \<or> (dict_ok e \<and> kind_ok e \<and> resolve_entry_to_loc_id e c \<noteq> None)) es"

definition entry_ids :: "client \<Rightarrow> check_dict list \<Rightarrow> int set" where
  "entry_ids c es = {l. \<exists>e \<in> set es. \<not> is_capture_entry e \<and> resolve_entry_to_loc_id e c = Some l}"

lemma entry_ids_Cons:
  "entry_ids c (e # es) = (if is_capture_entry e then entry_ids c es
     else set_option (resolve_entry_to_loc_id e c) \<union> entry_ids c es)"
  by (auto simp: entry_ids_def)

lemma dispatch_entries_effect:
  "resolvable c es \<Longrightarrow> resolver_of t = resolver_of c \<Longrightarrow>
   dispatch_entries (smo_callbacks st) fr pre es fresh t = (u, r) \<Longrightarrow>
   resolver_of u = resolver_of c \<and>
   set (sent_checks (ap_out u)) \<subseteq> set (sent_checks (ap_out t)) \<union> entry_ids c es \<and>
   locations_checked t \<subseteq> locations_checked u \<and>
   (\<forall>x. r = Inr x \<longrightarrow> entry_ids c es \<subseteq> locations_checked u)"
proof (induction es arbitrary: fresh t)
  case Nil
  then show ?case by (simp add: entry_ids_def)
next
  case (Cons e es)
  have res: "resolvable c es" using Cons.prems(1) by (simp add: resolvable_def)
  show ?case
  proof (cases "is_capture_entry e")
    case True
    then show ?thesis using Cons.IH [OF res Cons.prems(2)] Cons.prems(3) by (simp add: entry_ids_Cons)
  next
    case False
    let ?m = "dict_update_all e [(''t'', JStr ''check'')]"
    obtain l where l: "dict_ok e" "kind_ok e" "resolve_entry_to_loc_id e c = Some l"
      using Cons.prems(1) False by (auto simp: resolvable_def)
    then have "kind_ok ?m" "resolve_entry_to_loc_id ?m t = Some l"
      using resolve_eq [OF Cons.prems(2), of e] by (simp_all only: tagged_entry [OF l(1)])
    obtain v x where v: "dispatch_check (smo_callbacks st) ?m True t = (v, x)" by fastforce
    note eff = dispatch_check_effect [OF \<open>kind_ok ?m\<close> \<open>resolve_entry_to_loc_id ?m t = Some l\<close> v]
    have vc: "resolver_of v = resolver_of c" using eff(1) Cons.prems(2) by simp
    show ?thesis
    proof (cases x)
      case (Inl ex)
      then have "u = v" "r = Inl ex" using Cons.prems(3) False v by simp_all
      then show ?thesis using eff(2,3) vc False l(3) by (auto simp: entry_ids_Cons)
    next
      case (Inr y)
      obtain fresh' where "dispatch_entries (smo_callbacks st) fr pre es fresh' v = (u, r)"
        using Cons.prems(3) False v Inr by auto
      from Cons.IH [OF res vc this] eff(2,3) False l(3) show ?thesis by (auto simp: entry_ids_Cons)
    qed
  qed
qed

lemma dispatch_snapshot_effect:
  assumes "resolvable c es" "resolver_of t = resolver_of c"
    "dispatch_snapshot_entries (smo_callbacks st) es g fr t = (u, r)"
  shows "set (sent_checks (ap_out u)) \<subseteq> set (sent_checks (ap_out t)) \<union> entry_ids c es \<and>
    (r = None \<longrightarrow> entry_ids c es \<subseteq> locations_checked u)"
proof -
  obtain v x where v: "dispatch_entries (smo_callbacks st) fr (if fr then known_loc_ids (smo_callbacks st) t else {}) es [] t = (v, x)"
    by fastforce
  note eff = dispatch_entries_effect [OF assms(1,2) v]
  have goal: "sent_checks (ap_out (report_goal c)) = sent_checks (ap_out c)" "locations_checked (report_goal c) = locations_checked c"
    for c by (simp_all add: report_goal_def send_msgs_def)
  have fire: "sent_view (try_fire_reconcile_cappy (smo_callbacks st) (w\<lparr>reconcile_pending := ls\<rparr>)) = sent_view w" for w :: client and ls
    by (rule sent_view_more) (simp add: more_simps)
  then have fire': "ap_out (try_fire_reconcile_cappy (smo_callbacks st) (w\<lparr>reconcile_pending := ls\<rparr>)) = ap_out w"
    "locations_checked (try_fire_reconcile_cappy (smo_callbacks st) (w\<lparr>reconcile_pending := ls\<rparr>)) = locations_checked w"
    for w :: client and ls by (simp_all add: sent_view_def)
  have cb: "cb_goal (smo_callbacks st) = update report_goal" by (simp add: smo_callbacks_def)
  show ?thesis
  proof (cases x)
    case (Inl e)
    then have "u = v" "r \<noteq> None"
      using assms(3) v by (auto simp: dispatch_snapshot_entries_def ignore_value_def bind_value_def Let_def)
    then show ?thesis using eff by blast
  next
    case (Inr fresh)
    then have "ap_out u = ap_out (if g then report_goal v else v) \<and> locations_checked u = locations_checked (if g then report_goal v else v)"
      using assms(3) v
      by (auto simp: dispatch_snapshot_entries_def ignore_value_def bind_value_def then_value_def Let_def cb update_def
          skip_def fire' split: if_splits)
    then show ?thesis using eff Inr by (auto simp: goal)
  qed
qed

lemma count_entries_zero:
  "fst (count_entries res known es) = 0 \<Longrightarrow> e \<in> set es \<Longrightarrow> \<not> is_capture_entry e \<Longrightarrow> res e = Inr (Some l) \<Longrightarrow> l \<in> known"
  by (induction es) (auto simp: case_prod_unfold Let_def split: if_splits sum.splits option.splits)

lemma auto_confirm_known:
  assumes "fst (classify_snapshot (smo_callbacks st) es g c)"
  shows "entry_ids c es \<subseteq> already_checked_loc_ids c"
proof -
  have cbs: "cb_resolve_entry (smo_callbacks st) = Some (\<lambda>e c. Inr (resolve_entry_to_loc_id e c))"
    "known_loc_ids (smo_callbacks st) c = already_checked_loc_ids c"
    by (simp_all add: smo_callbacks_def known_loc_ids_def)
  have "fst (count_entries (\<lambda>e. Inr (resolve_entry_to_loc_id e c)) (already_checked_loc_ids c) es) = 0"
    using assms by (simp add: classify_snapshot_def cbs case_prod_unfold Let_def)
  then show ?thesis unfolding entry_ids_def by (auto dest: count_entries_zero)
qed

lemma sample_resolves:
  "kind_ok sample_moon" "resolve_entry_to_loc_id sample_moon sample_client = Some 41"
  by code_simp+

lemma sample_resolvable: "resolvable sample_client [sample_moon]"
  using sample_resolves by (simp add: resolvable_def sample_moon_def)

section \<open>Properties\<close>

text \<open>The gate asks what the dispatch will do: when the gate resolves an entry to a location, reporting
  that entry yields the same location, records it as reported by the Switch and as checked, and sends it to
  AP exactly when it was not checked before.\<close>

theorem gate_resolution_agrees:
  assumes "kind_ok m" "resolve_entry_to_loc_id m c = Some l"
  shows "let (t, r) = on_check m c
    in r = Inr (Some l) \<and> l \<in> switch_reported_loc_ids t \<and> l \<in> locations_checked t \<and>
       sent_checks (ap_out t) = sent_checks (ap_out c) @ (if l \<in> locations_checked c then [] else [l])"
proof -
  obtain g where g: "on_check m c = (credit l g c, Inr (Some l))" using on_check_credit [OF assms] by blast
  have "l \<in> switch_reported_loc_ids (credit l g c)"
    by (simp add: credit_def report_goal_def send_msgs_def Let_def)
  with g show ?thesis by (simp add: credit_sent)
qed

theorem gate_resolution_agrees_witness:
  "let (t, r) = on_check sample_moon sample_client
    in r = Inr (Some 41) \<and> sent_checks (ap_out t) = [41]"
  using gate_resolution_agrees [OF sample_resolves] by (simp add: case_prod_unfold Let_def sample_client_def fresh_defs)



text \<open>Confirming applies the held snapshot: when the user confirms and no handler raises, every entry the
  held snapshot resolves to (captures aside) is checked afterwards.\<close>

theorem confirm_applies_held:
  assumes "held_entries c = Some es" "resolvable c es" "confirm_pending_snapshot (smo_callbacks st) c = (t, Inr True)"
  shows "entry_ids c es \<subseteq> locations_checked t"
proof -
  obtain u r where u: "dispatch_snapshot_entries (smo_callbacks st) es (held_goal c) (held_from_reconcile c) (clear_held c) = (u, r)"
    by fastforce
  have "resolver_of (clear_held c) = resolver_of c" by (simp add: clear_held_def resolver_of_def)
  from dispatch_snapshot_effect [OF assms(2) this u] assms(1,3) u show ?thesis
    by (auto simp: confirm_pending_snapshot_def then_value_def split: option.splits)
qed

theorem confirm_applies_held_witness:
  "\<exists>t. confirm_pending_snapshot (smo_callbacks []) (sample_client\<lparr>held_entries := Some [sample_moon]\<rparr>) = (t, Inr True) \<and>
     41 \<in> locations_checked t"
proof -
  let ?c = "sample_client\<lparr>held_entries := Some [sample_moon]\<rparr>"
  have "snd (confirm_pending_snapshot (smo_callbacks []) ?c) = Inr True" by code_simp
  then obtain t where t: "confirm_pending_snapshot (smo_callbacks []) ?c = (t, Inr True)" by (metis prod.collapse)
  have res: "resolve_entry_to_loc_id sample_moon ?c = Some 41" by code_simp
  then have "resolvable ?c [sample_moon]" using sample_resolves by (simp add: resolvable_def sample_moon_def)
  from confirm_applies_held [OF _ this t] res show ?thesis using t
    by (auto simp: entry_ids_def is_capture_entry_def sample_moon_def get_str_def json_str_def json_get_def dict_get_or_def)
qed

end
