(* ===== verification/Client_Receive.thy ===== *)
theory Client_Receive
  imports Client_Gate
begin

text \<open>
  What arrives from the AP server: the replay of the received items, the bonus grants of the
  multi-moons, the change of slot, the Talkatoo window and the outstanding counts of the festival goal.
\<close>

section \<open>The mirror of the received items\<close>

lemma receive_one_known: "pos < n \<Longrightarrow> receive_one n ni pos fl c = (c, Inr fl)"
  by (simp add: receive_one_def split: option.split)

lemma receive_items_known:
  "pos + int (length xs) \<le> n \<Longrightarrow>
   receive_items n (xs @ ys) pos fl c = receive_items n ys (pos + int (length xs)) fl c"
proof (induction xs arbitrary: pos)
  case (Cons x xs)
  then show ?case by (simp add: bind_value_def receive_one_known algebra_simps)
qed simp

lemma fst_then_pure: "fst (then_value a (\<lambda>s. (s, x)) s) = fst (a s)"
  by (simp add: then_value_def split: prod.split option.split)

lemma ignore_then: "ignore_value (then_value a (\<lambda>s. (s, Inr ()))) s = a s"
  by (simp add: ignore_value_def then_value_def split: prod.split option.split)

lemma grant_bonus_items: "received_items (fst (grant_bonuses ref fl c)) = received_items c"
proof -
  have send: "received_items (fst (send_active m d)) = received_items d" for m and d :: client
    using send_active_writers_only [of d m] by (auto elim: writers_onlyE)
  have "received_items (fst (for_each caps (\<lambda>cap. seq [update (grant_bonus_capture cap),
      \<lambda>c. send_active (Item (bonus_capture_msg cap c)) c]) e)) = received_items e" for caps and e :: client
    by (rule for_each_invariant [where P = "\<lambda>t. received_items t = received_items e"],
        rule seq_invariant [where P = "\<lambda>t. received_items t = received_items e"])
      (auto simp: update_def grant_bonus_capture_def send)
  moreover have "received_items (fold grant_bonus_ability as d) = received_items d" for as and d :: client
    by (induction as arbitrary: d) (simp_all add: grant_bonus_ability_def)
  ultimately show ?thesis by (simp add: grant_bonuses_def Let_def fst_then_pure del: seq.simps)
qed

lemma send_items: "received_items (fst (send_active m d)) = received_items d" for d :: client
  using send_active_writers_only [of d m] by (auto elim: writers_onlyE)

lemma send_then_items:
  fixes d :: client
  assumes "\<And>d. received_items (fst (g d)) = received_items d"
  shows "received_items (fst (then_value (send_active m) g d)) = received_items d"
  using assms send_items [of m d] by (auto simp: then_value_def split: prod.split option.split)

lemma receive_one_new:
  assumes "n \<le> pos" "parse_received_item ni c = Some p"
  shows "received_items (fst (receive_one n ni pos fl c)) =
    received_items c @ [\<lparr>ev_item = pi_ref p, ev_sender = pi_sender p, ev_cappy_from = pi_cappy_from p\<rparr>]"
  using assms by (simp add: receive_one_def Let_def send_then_items grant_bonus_items frame_simps)

lemma parse_None: "parse_received_item ni c = None \<longleftrightarrow> ni_get ni ''item'' = None"
  by (simp add: parse_received_item_def Let_def split: option.split)

lemma receive_items_length:
  "receive_items n items pos fl c = (d, Inr fl') \<Longrightarrow> list_all (\<lambda>ni. ni_get ni ''item'' \<noteq> None) items \<Longrightarrow>
   int (length (received_items d)) = int (length (received_items c)) + max 0 (pos + int (length items) - max pos n)"
proof (induction items arbitrary: pos fl c)
  case (Cons ni nis)
  obtain e r where e: "receive_one n ni pos fl c = (e, r)" by fastforce
  then obtain f where r: "r = Inr f" "receive_items n nis (pos + 1) f e = (d, Inr fl')"
    using Cons.prems(1) by (auto simp: bind_value_def split: sum.splits)
  have IH: "int (length (received_items d)) =
      int (length (received_items e)) + max 0 (pos + 1 + int (length nis) - max (pos + 1) n)"
    using Cons.IH [OF r(2)] Cons.prems(2) by simp
  show ?case
  proof (cases "pos < n")
    case True
    then have "e = c" using e by (simp add: receive_one_known)
    with IH True show ?thesis by simp
  next
    case False
    from Cons.prems(2) obtain p where "parse_received_item ni c = Some p" using parse_None [of ni c] by fastforce
    then have "length (received_items e) = Suc (length (received_items c))"
      using receive_one_new [of n pos ni c p fl] e False by simp
    with IH False show ?thesis by simp
  qed
qed simp

lemma pushes_items:
  "received_items (fst (seq [if bf_moon fl then push_outstanding_to_switch else skip, if bf_ability fl then push_ability_state else skip,
      if bf_coin fl then push_coin_grant else skip] c)) = received_items c" for c :: client
  by (rule seq_invariant [where P = "\<lambda>t. received_items t = received_items c"])
    (auto simp: skip_def push_outstanding_to_switch_def push_ability_state_def push_coin_grant_def Let_def send_items)

section \<open>Properties\<close>

text \<open>A replayed history is skipped: when the AP server sends a batch that starts inside the mirror, the
  positions already mirrored have no effect at all (no item is added, granted or announced again), and the
  rest is handled as if it had come alone.\<close>

theorem received_replay_skipped:
  assumes "i + int (length xs) \<le> int (length (received_items c))"
  shows "process_received_items i (xs @ ys) c = process_received_items (i + int (length xs)) ys c \<and>
    process_received_items i xs c = (c, None)"
proof
  show "process_received_items i (xs @ ys) c = process_received_items (i + int (length xs)) ys c"
    using assms by (simp add: process_received_items_def ignore_value_def bind_value_def receive_items_known)
  show "process_received_items i xs c = (c, None)"
    using assms receive_items_known [of i xs "int (length (received_items c))" "[]" no_flags c]
    by (simp add: process_received_items_def bind_value_def ignore_value_def then_value_def no_flags_def skip_def)
qed

theorem received_replay_skipped_witness:
  "process_received_items 0 [NetItem 1 2 3 0] (sample_client\<lparr>received_items :=
      [\<lparr>ev_item = to_ref (classify_item empty_data_package ''Frog''), ev_sender = ''self'', ev_cappy_from = []\<rparr>]\<rparr>) =
   (sample_client\<lparr>received_items :=
      [\<lparr>ev_item = to_ref (classify_item empty_data_package ''Frog''), ev_sender = ''self'', ev_cappy_from = []\<rparr>]\<rparr>, None)"
  by (rule received_replay_skipped [THEN conjunct2]) simp

text \<open>The mirror follows AP's history: a well-formed batch that starts inside the mirror or right at its
  end leaves it at the length of the history, unless a send raised.\<close>

theorem mirror_follows_history:
  assumes "0 \<le> i" "i \<le> int (length (received_items c))" "list_all (\<lambda>ni. ni_get ni ''item'' \<noteq> None) items"
    "process_received_items i items c = (d, None)"
  shows "int (length (received_items d)) = max (int (length (received_items c))) (i + int (length items))"
proof -
  let ?n = "int (length (received_items c))"
  obtain e r where e: "receive_items ?n items i no_flags c = (e, r)" by fastforce
  then obtain fl where r: "r = Inr fl"
    using assms(4) by (cases r) (simp_all add: process_received_items_def bind_value_def ignore_value_def)
  let ?push = "seq [if bf_moon fl then push_outstanding_to_switch else skip, if bf_ability fl then push_ability_state else skip,
      if bf_coin fl then push_coin_grant else skip]"
  have "process_received_items i items c = ignore_value (then_value ?push (\<lambda>c. (c, Inr ()))) e"
    using e r unfolding process_received_items_def bind_value_def ignore_value_def by simp
  then have "?push e = (d, None)" using assms(4) by (simp only: ignore_then)
  then have "d = fst (?push e)" by (simp only: fst_conv)
  then have "received_items d = received_items e" by (simp only: pushes_items)
  with receive_items_length [OF e [unfolded r] assms(3)] assms(2) show ?thesis by simp
qed

theorem mirror_follows_history_witness:
  "let d = fst (process_received_items 0 [NetItem 1 2 3 0, NetItem 4 5 6 0] sample_client)
    in length (received_items d) = 2"
proof -
  let ?items = "[NetItem 1 2 3 0, NetItem 4 5 6 0]"
  have "snd (process_received_items 0 ?items sample_client) = None" by code_simp
  then obtain d where d: "process_received_items 0 ?items sample_client = (d, None)" by (metis prod.collapse)
  have "received_items sample_client = []" by (simp add: sample_client_def fresh_defs)
  with mirror_follows_history [OF _ _ _ d] show ?thesis by (simp add: d Let_def)
qed

end
