(* ===== verification/Rule_Logic.thy ===== *)
theory Rule_Logic
  imports Wire_Json Datapackage
begin

text \<open>
  \<open>Rules.py\<close>: the access rules of locations and regions. A \<open>requires\<close> string is rewritten
  in place (calls, then items, then \<open>AND\<close> and \<open>OR\<close>) to a formula over the characters 0, 1,
  \<open>&\<close>, \<open>|\<close>, \<open>!\<close> and parentheses, turned into postfix and evaluated on a stack. The regular
  expressions are written out as scanners; \<open>\w\<close> counts every non-ASCII byte as a letter. The
  collection state of the multiworld is a parameter, and so are the floats of a percentage count.
\<close>

section \<open>Infix and postfix\<close>

definition prec :: "char \<Rightarrow> nat option" where
  "prec c = map_of [(CHR ''&'', 2), (CHR ''|'', 2), (CHR ''!'', 3)] c"

definition pops :: "char \<Rightarrow> char \<Rightarrow> bool" where
  "pops c t \<longleftrightarrow> t \<noteq> CHR ''('' \<and> the (prec c) \<le> the (prec t)"

text \<open>The loop; the head of the list is the top of the stack.\<close>

fun infix_loop :: "string \<Rightarrow> string \<Rightarrow> string \<Rightarrow> exn + string" where
  "infix_loop [] stack postfix = Inr (postfix @ stack)"
| "infix_loop (c # cs) stack postfix =
     (if is_digit c then infix_loop cs stack (postfix @ [c])
      else if prec c \<noteq> None then
        infix_loop cs (c # dropWhile (pops c) stack) (postfix @ takeWhile (pops c) stack)
      else if c = CHR ''('' then infix_loop cs (c # stack) postfix
      else if c = CHR '')'' then
        (case dropWhile (\<lambda>t. t \<noteq> CHR ''('') stack of
           [] \<Rightarrow> Inl KeyError
         | t # below \<Rightarrow> infix_loop cs below (postfix @ takeWhile (\<lambda>t. t \<noteq> CHR ''('') stack))
      else infix_loop cs stack postfix)"

definition infix_to_postfix :: "string \<Rightarrow> exn + string" where
  "infix_to_postfix expr = infix_loop expr [] []"

fun eval_loop :: "string \<Rightarrow> bool list \<Rightarrow> exn + bool list" where
  "eval_loop [] stack = Inr stack"
| "eval_loop (c # cs) stack =
     (if c = CHR ''0'' then eval_loop cs (False # stack)
      else if c = CHR ''1'' then eval_loop cs (True # stack)
      else if c = CHR ''&'' then
        (case stack of op2 # op1 # below \<Rightarrow> eval_loop cs ((op1 \<and> op2) # below) | _ \<Rightarrow> Inl KeyError)
      else if c = CHR ''|'' then
        (case stack of op2 # op1 # below \<Rightarrow> eval_loop cs ((op1 \<or> op2) # below) | _ \<Rightarrow> Inl KeyError)
      else if c = CHR ''!'' then
        (case stack of op # below \<Rightarrow> eval_loop cs ((\<not> op) # below) | [] \<Rightarrow> Inl KeyError)
      else eval_loop cs stack)"

definition evaluate_postfix :: "string \<Rightarrow> exn + bool" where
  "evaluate_postfix expr =
     (case eval_loop expr [] of
        Inl e \<Rightarrow> Inl e
      | Inr [b] \<Rightarrow> Inr b
      | Inr _ \<Rightarrow> Inl KeyError)"

section \<open>Scanners\<close>

definition is_word :: "char \<Rightarrow> bool" where
  "is_word c \<longleftrightarrow> is_digit c \<or> is_alpha c \<or> c = CHR ''_'' \<or> 128 \<le> byte c"

text \<open>\<open>re.findall(r'\{(\w+)\(([^)]*)\)\}', s)\<close>.\<close>

definition match_call :: "string \<Rightarrow> ((string \<times> string) \<times> string) option" where
  "match_call s =
     (let w = takeWhile is_word s; r = dropWhile is_word s;
          a = takeWhile (\<lambda>c. c \<noteq> CHR '')'') (tl r); r2 = dropWhile (\<lambda>c. c \<noteq> CHR '')'') (tl r)
      in if w \<noteq> [] \<and> starts_with ''('' r \<and> starts_with '')}'' r2 then Some ((w, a), drop 2 r2) else None)"

lemma match_call_shorter: "match_call s = Some (x, r) \<Longrightarrow> length r < Suc (length s)"
proof -
  assume "match_call s = Some (x, r)"
  then have "r = drop 2 (dropWhile (\<lambda>c. c \<noteq> CHR '')'') (tl (dropWhile is_word s)))"
    by (auto simp: match_call_def Let_def split: if_splits)
  then show ?thesis
    using length_dropWhile_le [of "\<lambda>c. c \<noteq> CHR '')''" "tl (dropWhile is_word s)"] length_dropWhile_le [of is_word s] by simp
qed

function find_calls :: "string \<Rightarrow> (string \<times> string) list" where
  "find_calls s =
     (case s of
        [] \<Rightarrow> []
      | c # t \<Rightarrow>
          if c = CHR ''{'' then
            (case match_call t of Some (call, r) \<Rightarrow> call # find_calls r | None \<Rightarrow> find_calls t)
          else find_calls t)"
  by pat_completeness auto
termination by (relation "measure length") (auto dest: match_call_shorter)

declare find_calls.simps [simp del]

text \<open>\<open>re.findall(r'\|[^|]+\|', s)\<close>, without the bars.\<close>

function find_items :: "string \<Rightarrow> string list" where
  "find_items s =
     (case s of
        [] \<Rightarrow> []
      | c # t \<Rightarrow>
          (let n = takeWhile (\<lambda>c. c \<noteq> CHR ''|'') t; r = dropWhile (\<lambda>c. c \<noteq> CHR ''|'') t
           in if c = CHR ''|'' \<and> n \<noteq> [] \<and> r \<noteq> [] then n # find_items (tl r) else find_items t))"
  by pat_completeness auto
termination
proof (relation "measure length", goal_cases)
  case (2 s c t x xa)
  then show ?case using length_dropWhile_le [of "\<lambda>c. c \<noteq> CHR ''|''" t] by simp
qed auto

declare find_items.simps [simp del]

text \<open>\<open>s.replace(old, new)\<close> for a non-empty \<open>old\<close>.\<close>

function replace_all :: "string \<Rightarrow> string \<Rightarrow> string \<Rightarrow> string" where
  "replace_all old new s =
     (case s of
        [] \<Rightarrow> []
      | c # t \<Rightarrow> if old \<noteq> [] \<and> starts_with old s then new @ replace_all old new (drop (length old) s)
                else c # replace_all old new t)"
  by pat_completeness auto
termination by (relation "measure (\<lambda>(old, new, s). length s)") auto

declare replace_all.simps [simp del]

text \<open>\<open>re.sub(r'\s?\bWORD\b\s?', op, s, 0, re.IGNORECASE)\<close>; \<open>prev\<close> is the character before \<open>s\<close>.\<close>

definition word_here :: "string \<Rightarrow> char option \<Rightarrow> string \<Rightarrow> bool" where
  "word_here w prev s \<longleftrightarrow>
     lower (take (length w) s) = w \<and>
     (case prev of None \<Rightarrow> True | Some p \<Rightarrow> \<not> is_word p) \<and>
     (case drop (length w) s of [] \<Rightarrow> True | c # _ \<Rightarrow> \<not> is_word c)"

definition after_word :: "string \<Rightarrow> string \<Rightarrow> char option \<times> string" where
  "after_word w s =
     (case drop (length w) s of
        c # t \<Rightarrow> if is_space c then (Some c, t) else (Some (last w), c # t)
      | [] \<Rightarrow> (Some (last w), []))"

lemma after_word_shorter: "w \<noteq> [] \<Longrightarrow> word_here w prev s \<Longrightarrow> length (snd (after_word w s)) < length s"
proof -
  assume "w \<noteq> []" "word_here w prev s"
  then have "s \<noteq> []" by (auto simp: word_here_def lower_def)
  have "length (snd (after_word w s)) \<le> length (drop (length w) s)"
    by (auto simp: after_word_def simp del: length_drop split: list.split)
  with \<open>w \<noteq> []\<close> \<open>s \<noteq> []\<close> show ?thesis by (cases s; cases w) auto
qed

function sub_word :: "string \<Rightarrow> char \<Rightarrow> char option \<Rightarrow> string \<Rightarrow> string" where
  "sub_word w op prev s =
     (case s of
        [] \<Rightarrow> []
      | c # t \<Rightarrow>
          if w \<noteq> [] \<and> is_space c \<and> word_here w (Some c) t then
            op # sub_word w op (fst (after_word w t)) (snd (after_word w t))
          else if w \<noteq> [] \<and> word_here w prev s then
            op # sub_word w op (fst (after_word w s)) (snd (after_word w s))
          else c # sub_word w op (Some c) t)"
  by pat_completeness auto
termination
  by (relation "measure (\<lambda>(w, op, prev, s). length s)") (auto simp: case_prod_unfold dest: after_word_shorter intro: less_trans)

declare sub_word.simps [simp del]

section \<open>Requirement strings\<close>

text \<open>What a rule function returns: a bool or a piece of a requirement string.\<close>

datatype func_result = RBool bool | RText string

record 'st rule_env =
  item_counts :: "(string, int) dict"
  item_table :: "(string \<times> string list) list"
  state_count :: "string \<Rightarrow> 'st \<Rightarrow> int"
  rule_function :: "string \<Rightarrow> (string list \<Rightarrow> 'st \<Rightarrow> exn + func_result) option"
  percent_count :: "string \<Rightarrow> int \<Rightarrow> exn + int"

definition func_text :: "func_result \<Rightarrow> string" where
  "func_text r = (case r of RBool b \<Rightarrow> if b then ''1'' else ''0'' | RText s \<Rightarrow> s)"

definition call_args :: "string \<Rightarrow> string list" where
  "call_args a = (if split_on CHR '','' a = [[]] then [] else split_on CHR '','' a)"

definition call_text :: "string \<times> string \<Rightarrow> string" where
  "call_text f = (case f of (name, args) \<Rightarrow> ''{'' @ name @ ''('' @ args @ '')}'')"

fun replace_calls :: "'st rule_env \<Rightarrow> 'st \<Rightarrow> (string \<times> string) list \<Rightarrow> string \<Rightarrow> exn + string" where
  "replace_calls env st [] s = Inr s"
| "replace_calls env st (f # fs) s =
     (case rule_function env (fst f) of
        None \<Rightarrow> Inl ValueError
      | Some func \<Rightarrow>
          (case func (call_args (snd f)) st of
             Inl e \<Rightarrow> Inl e
           | Inr r \<Rightarrow> replace_calls env st fs (replace_all (call_text f) (func_text r) s)))"

text \<open>The count an item asks for.\<close>

definition required_count :: "'st rule_env \<Rightarrow> string \<Rightarrow> int \<Rightarrow> exn + int" where
  "required_count env item_count available =
     (if lower item_count = ''all'' then Inr available
      else if lower item_count = ''half'' then Inr (available div 2)
      else if item_count \<noteq> [] \<and> last item_count = CHR ''%'' \<and> 1 < length item_count
      then percent_count env (butlast item_count) available
      else (case py_int item_count of None \<Rightarrow> Inl ValueError | Some n \<Rightarrow> Inr n))"

definition item_text :: "string \<Rightarrow> string" where
  "item_text n = ''|'' @ n @ ''|''"

text \<open>\<open>item.lstrip('|@$').rstrip('|')\<close> and its parts.\<close>

definition item_parts :: "string \<Rightarrow> string \<times> string" where
  "item_parts n =
     (let item = dropWhile (\<lambda>c. c \<in> {CHR ''|'', CHR ''@'', CHR ''$''}) n
      in case split_on CHR '':'' item of
           name # cnt # _ \<Rightarrow> (strip name, strip cnt)
         | _ \<Rightarrow> (item, ''1''))"

definition category_items :: "'st rule_env \<Rightarrow> string \<Rightarrow> string list" where
  "category_items env cat = map fst (filter (\<lambda>(n, cats). cat \<in> set cats) (item_table env))"

text \<open>The running total over a category, replacing as soon as it is large enough.\<close>

fun category_loop :: "'st rule_env \<Rightarrow> 'st \<Rightarrow> string \<Rightarrow> int \<Rightarrow> string list \<Rightarrow> int \<Rightarrow> string \<Rightarrow> int \<times> string" where
  "category_loop env st base wanted [] owned s = (owned, s)"
| "category_loop env st base wanted (n # ns) owned s =
     (let owned = owned + state_count env n st
      in category_loop env st base wanted ns owned (if wanted \<le> owned then replace_all base ''1'' s else s))"

definition replace_item :: "'st rule_env \<Rightarrow> 'st \<Rightarrow> string \<Rightarrow> string \<Rightarrow> exn + string" where
  "replace_item env st n s =
     (case item_parts n of
        (item_name, item_count) \<Rightarrow>
          if starts_with ''@'' n then
            (let members = category_items env item_name;
                 available = (\<Sum>m\<leftarrow>members. dict_get_or (item_counts env) m 0)
             in case required_count env item_count available of
                  Inl e \<Rightarrow> Inl e
                | Inr wanted \<Rightarrow>
                    (case category_loop env st (item_text n) wanted members 0 s of
                       (owned, s) \<Rightarrow> Inr (if owned \<le> wanted then replace_all (item_text n) ''0'' s else s)))
          else
            (case required_count env item_count (dict_get_or (item_counts env) item_name 0) of
               Inl e \<Rightarrow> Inl e
             | Inr wanted \<Rightarrow>
                 (let owned = state_count env item_name st;
                      s = (if wanted \<le> owned then replace_all (item_text n) ''1'' s else s)
                  in Inr (if owned \<le> wanted then replace_all (item_text n) ''0'' s else s))))"

fun replace_items :: "'st rule_env \<Rightarrow> 'st \<Rightarrow> string list \<Rightarrow> string \<Rightarrow> exn + string" where
  "replace_items env st [] s = Inr s"
| "replace_items env st (n # ns) s =
     (case replace_item env st n s of Inl e \<Rightarrow> Inl e | Inr s \<Rightarrow> replace_items env st ns s)"

definition sub_operators :: "string \<Rightarrow> string" where
  "sub_operators s = sub_word ''or'' CHR ''|'' None (sub_word ''and'' CHR ''&'' None s)"

definition check_require_string :: "'st rule_env \<Rightarrow> string \<Rightarrow> 'st \<Rightarrow> exn + bool" where
  "check_require_string env requires st =
     (if requires = [] then Inr True
      else (case replace_calls env st (find_calls requires) requires of
              Inl e \<Rightarrow> Inl e
            | Inr s \<Rightarrow>
                (case replace_items env st (find_items s) s of
                   Inl e \<Rightarrow> Inl e
                 | Inr s \<Rightarrow>
                     (case infix_to_postfix (sub_operators s) of
                        Inl e \<Rightarrow> Inl e
                      | Inr p \<Rightarrow> evaluate_postfix p))))"

section \<open>Requirement lists\<close>

text \<open>\<open>item.split(":")\<close> and \<open>state.has(name, player, count)\<close>.\<close>

definition has_entry :: "'st rule_env \<Rightarrow> 'st \<Rightarrow> json \<Rightarrow> exn + bool" where
  "has_entry env st item =
     (case item of
        JStr s \<Rightarrow>
          (case split_on CHR '':'' s of
             name # cnt # _ \<Rightarrow> (case py_int cnt of None \<Rightarrow> Inl ValueError | Some n \<Rightarrow> Inr (n \<le> state_count env name st))
           | _ \<Rightarrow> Inr (1 \<le> state_count env s st))
      | _ \<Rightarrow> Inl AttributeError)"

fun has_all :: "'st rule_env \<Rightarrow> 'st \<Rightarrow> json list \<Rightarrow> exn + bool" where
  "has_all env st [] = Inr True"
| "has_all env st (x # xs) =
     (case has_entry env st x of
        Inl e \<Rightarrow> Inl e
      | Inr b \<Rightarrow> map_sum id (\<lambda>c. b \<and> c) (has_all env st xs))"

definition or_group :: "json \<Rightarrow> json list option" where
  "or_group item =
     (case item of
        JObj d \<Rightarrow> (case dict_get d ''or'' of Some (JList xs) \<Rightarrow> Some xs | _ \<Rightarrow> None)
      | JList xs \<Rightarrow> Some xs
      | _ \<Rightarrow> None)"

fun check_require_list :: "'st rule_env \<Rightarrow> 'st \<Rightarrow> bool \<Rightarrow> json list \<Rightarrow> exn + bool" where
  "check_require_list env st can_access [] = Inr can_access"
| "check_require_list env st can_access (item # items) =
     (case or_group item of
        Some or_items \<Rightarrow>
          (case has_all env st or_items of
             Inl e \<Rightarrow> Inl e
           | Inr b \<Rightarrow> if b then Inr True else check_require_list env st can_access items)
      | None \<Rightarrow>
          (case has_entry env st item of
             Inl e \<Rightarrow> Inl e
           | Inr b \<Rightarrow> check_require_list env st (can_access \<and> b) items))"

section \<open>The rules of the world\<close>

datatype requires = ReqString string | ReqList "json list"

record area =
  area_name :: string
  area_region :: "string option"
  area_requires :: "requires option"

definition full_check :: "'st rule_env \<Rightarrow> area option \<Rightarrow> 'st \<Rightarrow> exn + bool" where
  "full_check env a st =
     (case a of
        None \<Rightarrow> Inr True
      | Some a \<Rightarrow>
          (case area_requires a of
             None \<Rightarrow> Inr True
           | Some (ReqString s) \<Rightarrow> check_require_string env s st
           | Some (ReqList items) \<Rightarrow> check_require_list env st True items))"

text \<open>The rule \<open>set_rules\<close> gives a location: both checks are made before they are combined.\<close>

definition location_rule :: "'st rule_env \<Rightarrow> (string, area) dict \<Rightarrow> area \<Rightarrow> exn + ('st \<Rightarrow> exn + bool)" where
  "location_rule env region_map location =
     (case area_region location of
        Some region \<Rightarrow>
          (case dict_get region_map region of
             None \<Rightarrow> Inl KeyError
           | Some r \<Rightarrow>
               Inr (\<lambda>st. if area_requires location = None then full_check env (Some r) st
                         else (case full_check env (Some location) st of
                                 Inl e \<Rightarrow> Inl e
                               | Inr b \<Rightarrow> map_sum id (\<lambda>c. b \<and> c) (full_check env (Some r) st))))
      | None \<Rightarrow> Inr (full_check env (Some location)))"

definition exit_rule :: "'st rule_env \<Rightarrow> (string, area) dict \<Rightarrow> string \<Rightarrow> 'st \<Rightarrow> exn + bool" where
  "exit_rule env region_map region = full_check env (dict_get region_map region)"

end
