(* ===== verification/Rule_Semantics.thy ===== *)
theory Rule_Semantics
  imports Rule_Logic
begin

text \<open>
  What a requirement string means: a grammar of requirements with its spelling, the truth value it
  stands for, and the proof that the rewriting, the infix conversion and the stack machine of
  \<open>Rule_Logic\<close> together compute that value.
\<close>

section \<open>Requirements and their spelling\<close>

text \<open>The flag of a binary operator says whether it is written in capitals.\<close>

datatype req = Bit bool | Item string | Call string string | Neg req | Group req
  | And bool req req | Or bool req req

datatype tok = TBit bool | TItem string | TCall string string | TNot | TOpen | TClose | TAnd bool | TOr bool

definition paren :: "bool \<Rightarrow> tok list \<Rightarrow> tok list" where
  "paren p ts = (if p then TOpen # ts @ [TClose] else ts)"

text \<open>Level 0 is a whole requirement, 1 an operand on the right of an operator, 2 an operand of \<open>!\<close>.
  The binary operators have one precedence and associate to the left.\<close>

fun toks :: "nat \<Rightarrow> req \<Rightarrow> tok list" where
  "toks l (Bit b) = [TBit b]"
| "toks l (Item n) = [TItem n]"
| "toks l (Call f a) = [TCall f a]"
| "toks l (Neg e) = paren (1 < l) (TNot # toks 2 e)"
| "toks l (Group e) = TOpen # toks 0 e @ [TClose]"
| "toks l (And c a b) = paren (0 < l) (toks 0 a @ TAnd c # toks 1 b)"
| "toks l (Or c a b) = paren (0 < l) (toks 0 a @ TOr c # toks 1 b)"

fun spell :: "tok \<Rightarrow> string" where
  "spell (TBit b) = (if b then ''1'' else ''0'')"
| "spell (TItem n) = item_text n"
| "spell (TCall f a) = call_text (f, a)"
| "spell TNot = ''!''"
| "spell TOpen = ''(''"
| "spell TClose = '')''"
| "spell (TAnd c) = (if c then '' AND '' else '' and '')"
| "spell (TOr c) = (if c then '' OR '' else '' or '')"

abbreviation spells :: "tok list \<Rightarrow> string" where "spells ts \<equiv> concat (map spell ts)"

definition requirement :: "req \<Rightarrow> string" where "requirement e = spells (toks 0 e)"

fun holds :: "(string \<Rightarrow> bool) \<Rightarrow> (string \<Rightarrow> string \<Rightarrow> bool) \<Rightarrow> req \<Rightarrow> bool" where
  "holds item call (Bit b) = b"
| "holds item call (Item n) = item n"
| "holds item call (Call f a) = call f a"
| "holds item call (Neg e) = (\<not> holds item call e)"
| "holds item call (Group e) = holds item call e"
| "holds item call (And c a b) = (holds item call a \<and> holds item call b)"
| "holds item call (Or c a b) = (holds item call a \<or> holds item call b)"

section \<open>Parsing and evaluating\<close>

text \<open>The characters after the operators are substituted.\<close>

fun mark :: "tok \<Rightarrow> string" where
  "mark (TAnd c) = ''&''" | "mark (TOr c) = ''|''" | "mark t = spell t"

abbreviation marks :: "tok list \<Rightarrow> string" where "marks ts \<equiv> concat (map mark ts)"

fun ground :: "req \<Rightarrow> bool" where
  "ground (Bit b) = True" | "ground (Item n) = False" | "ground (Call f a) = False"
| "ground (Neg e) = ground e" | "ground (Group e) = ground e"
| "ground (And c a b) = (ground a \<and> ground b)" | "ground (Or c a b) = (ground a \<and> ground b)"

fun pf :: "req \<Rightarrow> string" where
  "pf (Bit b) = (if b then ''1'' else ''0'')"
| "pf (Neg e) = pf e @ ''!''"
| "pf (Group e) = pf e"
| "pf (And c a b) = pf a @ pf b @ ''&''"
| "pf (Or c a b) = pf a @ pf b @ ''|''"
| "pf (Item n) = []" | "pf (Call f a) = []"

lemma eval_pf: "ground e \<Longrightarrow> eval_loop (pf e @ s) stack = eval_loop s (holds i c e # stack)"
  by (induction e arbitrary: s stack) auto

text \<open>A stack that an operand of an operator starts on.\<close>

definition clear :: "string \<Rightarrow> bool" where "clear st \<longleftrightarrow> (case st of [] \<Rightarrow> True | c # _ \<Rightarrow> c = CHR ''('')"

lemma clear_simps [simp]: "clear []" "clear (c # st) \<longleftrightarrow> c = CHR ''(''"
  by (simp_all add: clear_def)

definition pending :: "string \<Rightarrow> string \<Rightarrow> req \<Rightarrow> string \<Rightarrow> string \<Rightarrow> bool" where
  "pending ops text e st post \<longleftrightarrow>
     (\<forall>rest. \<exists>p q. infix_loop (text @ rest) st post = infix_loop rest (p @ st) (post @ q) \<and> q @ p = pf e \<and> set p \<subseteq> set ops)"

lemma prec_simps [simp]:
  "prec CHR ''&'' = Some 2" "prec CHR ''|'' = Some 2" "prec CHR ''!'' = Some 3"
  "prec CHR ''('' = None" "prec CHR '')'' = None"
  by (simp_all add: prec_def)

lemma op_digit [simp]:
  "is_digit CHR ''0''" "is_digit CHR ''1''"
  "\<not> is_digit CHR ''&''" "\<not> is_digit CHR ''|''" "\<not> is_digit CHR ''!''" "\<not> is_digit CHR ''(''" "\<not> is_digit CHR '')''"
  by (simp_all add: is_digit_def)

lemma pops_simps [simp]:
  "pops c CHR ''('' = False" "pops CHR ''&'' CHR ''&''" "pops CHR ''&'' CHR ''|''" "pops CHR ''&'' CHR ''!''"
  "pops CHR ''|'' CHR ''&''" "pops CHR ''|'' CHR ''|''" "pops CHR ''|'' CHR ''!''"
  "\<not> pops CHR ''!'' CHR ''&''" "\<not> pops CHR ''!'' CHR ''|''" "pops CHR ''!'' CHR ''!''"
  by (simp_all add: pops_def)

lemma pop_pending:
  assumes "set p \<subseteq> set ''&|!''" "clear st" "op = CHR ''&'' \<or> op = CHR ''|''"
  shows "takeWhile (pops op) (p @ st) = p" "dropWhile (pops op) (p @ st) = st"
proof -
  have "pops op c" if "c \<in> set p" for c using that assms(1,3) by auto
  moreover have "takeWhile (pops op) st = []" "dropWhile (pops op) st = st"
    using assms(2) by (cases st; simp)+
  ultimately show "takeWhile (pops op) (p @ st) = p" "dropWhile (pops op) (p @ st) = st"
    by (simp_all add: takeWhile_append dropWhile_append)
qed

lemma close_pending:
  assumes "set p \<subseteq> set ''&|!''"
  shows "takeWhile (\<lambda>t. t \<noteq> CHR ''('') (p @ CHR ''('' # st) = p" "dropWhile (\<lambda>t. t \<noteq> CHR ''('') (p @ CHR ''('' # st) = CHR ''('' # st"
  using assms by (induction p) auto

lemma pending_binary:
  assumes a: "\<And>post. pending ''&|!'' ta a st post" and b: "\<And>post. pending ''!'' tb b (op # st) post"
    and "clear st" "op = CHR ''&'' \<or> op = CHR ''|''" "pf e = pf a @ pf b @ [op]"
  shows "pending ''&|!'' (ta @ op # tb) e st post"
  unfolding pending_def
proof
  fix rest
  obtain p q where pq: "infix_loop (ta @ op # tb @ rest) st post = infix_loop (op # tb @ rest) (p @ st) (post @ q)"
    "q @ p = pf a" "set p \<subseteq> set ''&|!''"
    using a [of post, unfolded pending_def, rule_format, of "op # tb @ rest"] by blast
  have op: "\<not> is_digit op" "prec op = Some 2" using assms(4) by auto
  have "infix_loop (op # tb @ rest) (p @ st) (post @ q) = infix_loop (tb @ rest) (op # st) (post @ pf a)"
    by (simp add: op pop_pending [OF pq(3) assms(3,4)] pq(2))
  moreover obtain p' q' where "infix_loop (tb @ rest) (op # st) (post @ pf a) = infix_loop rest (p' @ op # st) ((post @ pf a) @ q')"
    "q' @ p' = pf b" "set p' \<subseteq> set ''!''"
    using b [of "post @ pf a", unfolded pending_def, rule_format, of rest] by blast
  ultimately show "\<exists>p q. infix_loop ((ta @ op # tb) @ rest) st post = infix_loop rest (p @ st) (post @ q) \<and> q @ p = pf e \<and> set p \<subseteq> set ''&|!''"
    using pq(1) assms(4,5) by (intro exI [of _ "p' @ [op]"] exI [of _ "pf a @ q'"]) auto
qed

lemma pending_paren:
  assumes "\<And>post. pending ''&|!'' t e (CHR ''('' # st) post"
  shows "pending [] (CHR ''('' # t @ '')'') e st post"
  unfolding pending_def
proof
  fix rest
  obtain p q where pq: "infix_loop (t @ CHR '')'' # rest) (CHR ''('' # st) post = infix_loop (CHR '')'' # rest) (p @ CHR ''('' # st) (post @ q)"
    "q @ p = pf e" "set p \<subseteq> set ''&|!''"
    using assms [of post, unfolded pending_def, rule_format, of "CHR '')'' # rest"] by blast
  have "infix_loop ((CHR ''('' # t @ '')'') @ rest) st post = infix_loop (t @ CHR '')'' # rest) (CHR ''('' # st) post"
    by simp
  also note pq(1)
  also have "infix_loop (CHR '')'' # rest) (p @ CHR ''('' # st) (post @ q) = infix_loop rest st (post @ q @ p)"
    by (simp add: close_pending [OF pq(3)])
  finally show "\<exists>p q. infix_loop ((CHR ''('' # t @ '')'') @ rest) st post = infix_loop rest (p @ st) (post @ q) \<and> q @ p = pf e \<and> set p \<subseteq> set []"
    by (intro exI [of _ "[]"] exI [of _ "pf e"]) (simp add: pq(2))
qed

lemma pending_neg:
  assumes "\<And>st post. pending [] t e st post" "st = [] \<or> hd st \<in> set ''&|(''"
  shows "pending ''!'' (CHR ''!'' # t) (Neg e) st post"
  unfolding pending_def
proof
  fix rest
  have st: "takeWhile (pops CHR ''!'') st = []" "dropWhile (pops CHR ''!'') st = st"
    using assms(2) by (cases st; auto)+
  obtain q where "infix_loop (t @ rest) (CHR ''!'' # st) post = infix_loop rest (CHR ''!'' # st) (post @ q)" "q = pf e"
    using assms(1) [of "CHR ''!'' # st" post, unfolded pending_def, rule_format, of rest] by auto
  then show "\<exists>p q. infix_loop ((CHR ''!'' # t) @ rest) st post = infix_loop rest (p @ st) (post @ q) \<and> q @ p = pf (Neg e) \<and> set p \<subseteq> set ''!''"
    by (intro exI [of _ "''!''"] exI [of _ "pf e"]) (simp add: st)
qed

lemma pending_mono: "pending p t e st post \<Longrightarrow> set p \<subseteq> set q \<Longrightarrow> pending q t e st post"
  unfolding pending_def by (meson subset_trans)

lemma pending_weak: "pending [] t e st post \<Longrightarrow> pending q t e st post"
  by (erule pending_mono) simp

lemma infix_pending:
  "ground e \<Longrightarrow>
   (\<forall>st post. pending [] (marks (toks 2 e)) e st post) \<and>
   (\<forall>st post. (st = [] \<or> hd st \<in> set ''&|('') \<longrightarrow> pending ''!'' (marks (toks 1 e)) e st post) \<and>
   (\<forall>st post. clear st \<longrightarrow> pending ''&|!'' (marks (toks 0 e)) e st post)"
proof (induction e)
  case (Bit b)
  have "pending [] (marks [TBit b]) (Bit b) st post" for st post by (simp add: pending_def)
  then show ?case by (auto intro: pending_weak simp del: mark.simps)
next
  case (Neg e)
  then have neg: "pending ''!'' (marks (TNot # toks 2 e)) (Neg e) st post" if "st = [] \<or> hd st \<in> set ''&|(''" for st post
    using pending_neg [of "marks (toks 2 e)" e st post] that by simp
  then have "pending ''&|!'' (marks (TNot # toks 2 e)) (Neg e) st post" if "clear st" for st post
    using that by (intro pending_mono [OF neg]) (cases st; auto)+
  moreover from this have "pending [] (marks (paren True (TNot # toks 2 e))) (Neg e) st post" for st post
    using pending_paren [of "marks (TNot # toks 2 e)" "Neg e"] by (simp add: paren_def)
  ultimately show ?case using neg by (simp add: paren_def)
next
  case (Group e)
  then have "pending [] (CHR ''('' # marks (toks 0 e) @ '')'') e st post" for st post
    by (intro pending_paren) simp
  then have "pending [] (marks (toks l (Group e))) (Group e) st post" for l st post by (simp add: pending_def)
  then show ?case by (blast intro: pending_weak)
next
  case (And c a b)
  have top: "pending ''&|!'' (marks (toks 0 a @ TAnd c # toks 1 b)) (And c a b) st post" if "clear st" for st post
    using pending_binary [of "marks (toks 0 a)" a st "marks (toks 1 b)" b "CHR ''&''" "And c a b" post] And that by simp
  then have "pending [] (marks (paren True (toks 0 a @ TAnd c # toks 1 b))) (And c a b) st post" for st post
    using pending_paren [of "marks (toks 0 a @ TAnd c # toks 1 b)" "And c a b" st post] by (simp add: paren_def)
  then show ?case using top by (auto simp: paren_def intro: pending_weak)
next
  case (Or c a b)
  have top: "pending ''&|!'' (marks (toks 0 a @ TOr c # toks 1 b)) (Or c a b) st post" if "clear st" for st post
    using pending_binary [of "marks (toks 0 a)" a st "marks (toks 1 b)" b "CHR ''|''" "Or c a b" post] Or that by simp
  then have "pending [] (marks (paren True (toks 0 a @ TOr c # toks 1 b))) (Or c a b) st post" for st post
    using pending_paren [of "marks (toks 0 a @ TOr c # toks 1 b)" "Or c a b" st post] by (simp add: paren_def)
  then show ?case using top by (auto simp: paren_def intro: pending_weak)
qed simp_all

lemma parse_ground: "ground e \<Longrightarrow> infix_to_postfix (marks (toks 0 e)) = Inr (pf e)"
  using infix_pending [of e, THEN conjunct2, THEN conjunct2, rule_format, of "[]" "[]"]
  unfolding pending_def infix_to_postfix_def by (metis append_Nil append_Nil2 clear_simps(1) infix_loop.simps(1))

lemma evaluate_ground: "ground e \<Longrightarrow> evaluate_postfix (pf e) = Inr (holds i c e)"
  using eval_pf [of e "[]" "[]" i c] by (simp add: evaluate_postfix_def)

end
