(* ===== verification/Rule_Strings.thy ===== *)
theory Rule_Strings
  imports Rule_Semantics
begin

text \<open>
  The in-place rewriting of a requirement string, token by token: calls are replaced by what their
  function returns, items by a truth value, \<open>AND\<close> and \<open>OR\<close> by operators, and no replacement
  touches another token.
\<close>

section \<open>Well-formed tokens\<close>

text \<open>An item name starts with none of the characters that can stand after the bar of another item.\<close>

definition item_ok :: "string \<Rightarrow> bool" where
  "item_ok n \<longleftrightarrow> n \<noteq> [] \<and> hd n \<notin> set '' ()01!@'' \<and> CHR ''|'' \<notin> set n \<and> CHR ''{'' \<notin> set n"

definition call_ok :: "string \<Rightarrow> string \<Rightarrow> bool" where
  "call_ok f a \<longleftrightarrow> f \<noteq> [] \<and> list_all is_word f \<and> CHR '')'' \<notin> set a \<and> CHR ''{'' \<notin> set a"

fun tok_ok :: "tok \<Rightarrow> bool" where
  "tok_ok (TItem n) = item_ok n" | "tok_ok (TCall f a) = call_ok f a" | "tok_ok _ = True"

fun no_call :: "tok \<Rightarrow> bool" where "no_call (TCall f a) = False" | "no_call _ = True"

fun no_item :: "tok \<Rightarrow> bool" where "no_item (TItem n) = False" | "no_item _ = True"

lemma brace_not_word [simp]: "\<not> is_word CHR ''{''" "\<not> is_word CHR ''(''"
  by (simp_all add: is_word_def is_digit_def is_alpha_def)

lemma spell_brace: "tok_ok t \<Longrightarrow> no_call t \<Longrightarrow> CHR ''{'' \<notin> set (spell t)"
  by (cases t) (auto simp: item_ok_def item_text_def)

lemma spell_bar: "no_call t \<Longrightarrow> no_item t \<Longrightarrow> CHR ''|'' \<notin> set (spell t)"
  by (cases t) auto

lemma spell_not_Nil [simp]: "spell t \<noteq> []"
  by (cases t) (auto simp: item_text_def call_text_def)

lemma hd_spell: "no_call t \<Longrightarrow> hd (spell t) \<in> set '' ()01!|''"
  by (cases t) (auto simp: item_text_def)

section \<open>Replacing\<close>

lemma replace_miss: "\<not> starts_with old (c # t) \<Longrightarrow> replace_all old new (c # t) = c # replace_all old new t"
  by (subst replace_all.simps) simp

lemma replace_hit: "old \<noteq> [] \<Longrightarrow> replace_all old new (old @ r) = new @ replace_all old new r"
  by (cases old) (simp, subst replace_all.simps, simp add: starts_with_def)

lemma replace_Nil [simp]: "replace_all old new [] = []"
  by (subst replace_all.simps) simp

lemma starts_with_Cons: "starts_with (c # p) (d # s) \<longleftrightarrow> c = d \<and> starts_with p s"
  by (auto simp: starts_with_def)

lemma replace_skip: "c \<notin> set u \<Longrightarrow> replace_all (c # old) new (u @ r) = u @ replace_all (c # old) new r"
  by (induction u) (auto simp: replace_miss starts_with_Cons)

lemma match_call_spec:
  assumes "call_ok f a"
  shows "match_call (f @ ''('' @ a @ '')}'' @ r) = Some ((f, a), r)"
proof -
  have "takeWhile is_word (f @ ''('' @ x) = f" "dropWhile is_word (f @ ''('' @ x) = ''('' @ x" for x
    using assms by (auto simp: call_ok_def list_all_iff takeWhile_append dropWhile_append)
  moreover have "takeWhile (\<lambda>c. c \<noteq> CHR '')'') (a @ '')}'' @ x) = a" "dropWhile (\<lambda>c. c \<noteq> CHR '')'') (a @ '')}'' @ x) = '')}'' @ x" for x
    using assms by (auto simp: call_ok_def takeWhile_append dropWhile_append)
  ultimately show ?thesis using assms by (simp add: match_call_def Let_def call_ok_def starts_with_def)
qed

lemma call_text_starts:
  assumes "call_ok f a" "call_ok g b" "starts_with (call_text (f, a)) (call_text (g, b) @ r)"
  shows "(g, b) = (f, a)"
proof -
  obtain r' where "call_text (g, b) @ r = call_text (f, a) @ r'" using assms(3) by (rule starts_withE)
  then have "g @ ''('' @ b @ '')}'' @ r = f @ ''('' @ a @ '')}'' @ r'" by (simp add: call_text_def)
  with match_call_spec [OF assms(1), of r'] match_call_spec [OF assms(2), of r] show ?thesis by simp
qed

lemma replace_call_tokens:
  assumes "call_ok f a" "list_all tok_ok ts"
  shows "replace_all (call_text (f, a)) new (spells ts) = concat (map (\<lambda>t. if t = TCall f a then new else spell t) ts)"
  using assms(2)
proof (induction ts)
  case (Cons t ts)
  have tx: "call_text (f, a) = CHR ''{'' # tl (call_text (f, a))" by (simp add: call_text_def)
  show ?case
  proof (cases t)
    case (TCall g b)
    show ?thesis
    proof (cases "(g, b) = (f, a)")
      case True
      then show ?thesis using Cons TCall replace_hit [of "call_text (f, a)" new] by (simp add: call_text_def)
    next
      case False
      have ok: "call_ok g b" using Cons.prems TCall by simp
      then have "CHR ''{'' \<notin> set (tl (call_text (g, b)))" by (auto simp: call_ok_def call_text_def list_all_iff)
      then have "replace_all (call_text (f, a)) new (call_text (g, b) @ spells ts) = call_text (g, b) @ replace_all (call_text (f, a)) new (spells ts)"
        using replace_miss [of "call_text (f, a)" "CHR ''{''" "tl (call_text (g, b)) @ spells ts" new]
          call_text_starts [OF assms(1) ok, of "spells ts"] False
          replace_skip [of "CHR ''{''" "tl (call_text (g, b))" "tl (call_text (f, a))" new "spells ts"]
        by (auto simp: call_text_def)
      then show ?thesis using Cons TCall False by auto
    qed
  qed (use Cons tx spell_brace [of t] replace_skip [of "CHR ''{''" "spell t" "tl (call_text (f, a))" new "spells ts"] in \<open>auto simp flip: tx\<close>)
qed simp

fun calls_of :: "tok list \<Rightarrow> (string \<times> string) list" where
  "calls_of [] = []"
| "calls_of (TCall f a # ts) = (f, a) # calls_of ts"
| "calls_of (_ # ts) = calls_of ts"

lemma find_calls_skip: "CHR ''{'' \<notin> set u \<Longrightarrow> find_calls (u @ r) = find_calls r"
  by (induction u) (simp, subst find_calls.simps, auto)

lemma find_calls_tokens: "list_all tok_ok ts \<Longrightarrow> find_calls (spells ts) = calls_of ts"
proof (induction ts)
  case Nil
  then show ?case by (simp add: find_calls.simps)
next
  case (Cons t ts)
  show ?case
  proof (cases t)
    case (TCall f a)
    then have "find_calls (CHR ''{'' # f @ ''('' @ a @ '')}'' @ spells ts) = (f, a) # find_calls (spells ts)"
      using Cons.prems match_call_spec [of f a "spells ts"] by (subst find_calls.simps) simp
    then show ?thesis using Cons TCall by (simp add: call_text_def)
  qed (use Cons spell_brace [of t] find_calls_skip [of "spell t" "spells ts"] in auto)
qed

text \<open>Items, once the calls are gone.\<close>

lemma item_text_starts:
  assumes "CHR ''|'' \<notin> set n" "CHR ''|'' \<notin> set m"
  shows "starts_with (item_text n) (item_text m @ r) \<longleftrightarrow> m = n"
proof
  assume "starts_with (item_text n) (item_text m @ r)"
  then obtain r' where "m @ ''|'' @ r = n @ ''|'' @ r'" by (auto simp: item_text_def elim: starts_withE)
  moreover have "takeWhile (\<lambda>c. c \<noteq> CHR ''|'') (x @ ''|'' @ y) = x" if "CHR ''|'' \<notin> set x" for x y
    using that by (auto simp: takeWhile_append)
  ultimately show "m = n" using assms by metis
qed (simp add: starts_with_append)

lemma bar_no_item:
  assumes "item_ok n" "list_all no_call ts"
  shows "\<not> starts_with (item_text n) (CHR ''|'' # spells ts)"
proof (cases ts)
  case Nil
  then show ?thesis using assms(1) by (cases n) (simp_all add: item_ok_def item_text_def starts_with_def)
next
  case (Cons t us)
  have "hd (spells ts) \<in> set '' ()01!|''" using assms(2) Cons hd_spell [of t] by simp
  moreover have "spells ts \<noteq> []" using Cons by simp
  ultimately show ?thesis using assms(1)
    by (cases n; cases "spells ts") (auto simp: item_ok_def item_text_def starts_with_Cons)
qed

lemma replace_item_tokens:
  assumes "item_ok n" "list_all tok_ok ts" "list_all no_call ts"
  shows "replace_all (item_text n) new (spells ts) = concat (map (\<lambda>t. if t = TItem n then new else spell t) ts)"
  using assms(2,3)
proof (induction ts)
  case (Cons t ts)
  have tx: "item_text k = CHR ''|'' # k @ ''|''" for k by (simp add: item_text_def)
  show ?case
  proof (cases t)
    case (TItem m)
    show ?thesis
    proof (cases "m = n")
      case True
      then show ?thesis using Cons TItem replace_hit [of "item_text n" new] by (simp add: item_text_def)
    next
      case False
      have m: "CHR ''|'' \<notin> set m" "CHR ''|'' \<notin> set n" using Cons.prems TItem assms(1) by (simp_all add: item_ok_def)
      have "replace_all (item_text n) new (item_text m @ spells ts) =
          CHR ''|'' # replace_all (item_text n) new (m @ CHR ''|'' # spells ts)"
        using item_text_starts [OF m(2,1), of "spells ts"] False by (simp add: tx [of m] replace_miss)
      also have "replace_all (item_text n) new (m @ CHR ''|'' # spells ts) = m @ replace_all (item_text n) new (CHR ''|'' # spells ts)"
        unfolding tx [of n] by (rule replace_skip [OF m(1)])
      also have "replace_all (item_text n) new (CHR ''|'' # spells ts) = CHR ''|'' # replace_all (item_text n) new (spells ts)"
        using Cons.prems by (intro replace_miss bar_no_item [OF assms(1)]) simp
      finally show ?thesis using Cons TItem False by (simp add: tx)
    qed
  qed (use Cons replace_skip [of "CHR ''|''" "spell t" "n @ ''|''" new "spells ts"] spell_bar [of t] in \<open>auto simp: tx\<close>)
qed simp

fun items_of :: "tok list \<Rightarrow> string list" where
  "items_of [] = []"
| "items_of (TItem n # ts) = n # items_of ts"
| "items_of (_ # ts) = items_of ts"

lemma find_items_skip: "CHR ''|'' \<notin> set u \<Longrightarrow> find_items (u @ r) = find_items r"
  by (induction u) (simp, subst find_items.simps, auto simp: Let_def)

lemma find_items_tokens: "list_all tok_ok ts \<Longrightarrow> list_all no_call ts \<Longrightarrow> find_items (spells ts) = items_of ts"
proof (induction ts)
  case Nil
  then show ?case by (simp add: find_items.simps)
next
  case (Cons t ts)
  show ?case
  proof (cases t)
    case (TItem n)
    then have n: "n \<noteq> []" "CHR ''|'' \<notin> set n" using Cons.prems by (simp_all add: item_ok_def)
    then have "takeWhile (\<lambda>c. c \<noteq> CHR ''|'') (n @ CHR ''|'' # x) = n" "dropWhile (\<lambda>c. c \<noteq> CHR ''|'') (n @ CHR ''|'' # x) = CHR ''|'' # x" for x
      by (auto simp: takeWhile_append dropWhile_append)
    then have "find_items (CHR ''|'' # n @ CHR ''|'' # spells ts) = n # find_items (spells ts)"
      using n by (subst find_items.simps) (simp add: Let_def)
    then show ?thesis using Cons TItem by (simp add: item_text_def)
  qed (use Cons spell_bar [of t] find_items_skip [of "spell t" "spells ts"] in auto)
qed

section \<open>Operators\<close>

text \<open>The text after the first of the two substitutions.\<close>

fun half :: "tok \<Rightarrow> string" where "half (TAnd c) = ''&''" | "half t = spell t"

lemma word_here_hd: "lower_char c \<noteq> hd w \<Longrightarrow> w \<noteq> [] \<Longrightarrow> \<not> word_here w prev (c # r)"
  by (cases w) (auto simp: word_here_def lower_def)

lemma sub_step:
  "\<not> (is_space c \<and> word_here w (Some c) r) \<Longrightarrow> \<not> word_here w prev (c # r) \<Longrightarrow>
   sub_word w op prev (c # r) = c # sub_word w op (Some c) r"
  by (subst sub_word.simps) auto

lemma sub_hit:
  assumes "word_here w (Some CHR '' '') (v @ CHR '' '' # r)" "length v = length w" "w \<noteq> []"
  shows "sub_word w op prev (CHR '' '' # v @ CHR '' '' # r) = op # sub_word w op (Some CHR '' '') r"
  using assms by (subst sub_word.simps) (simp add: is_space_def after_word_def)

lemma word_here_tokens:
  assumes "list_all (\<lambda>t. hd (f t) \<in> set '' ()01!&|'' \<and> f t \<noteq> []) ts" "w = ''and'' \<or> w = ''or''"
  shows "\<not> word_here w prev (concat (map f ts))"
proof (cases "concat (map f ts)")
  case Nil
  show ?thesis unfolding Nil using assms(2) by (auto simp: word_here_def lower_def)
next
  case (Cons c r)
  then obtain t us where "ts = t # us" by (cases ts) auto
  with assms(1) Cons have "c \<in> set '' ()01!&|''" by (cases "f t") auto
  then show ?thesis unfolding Cons using assms(2) by (intro word_here_hd) (auto simp: lower_char_def)
qed

lemma lower_words [simp]:
  "lower ''AND'' = ''and''" "lower ''and'' = ''and''" "lower ''OR'' = ''or''" "lower ''or'' = ''or''"
  by code_simp+

lemma lower_chars [simp]:
  "lower_char CHR ''O'' = CHR ''o''" "lower_char CHR ''R'' = CHR ''r''" "lower_char CHR ''o'' = CHR ''o''"
  "lower_char CHR ''r'' = CHR ''r''" "lower_char CHR '' '' = CHR '' ''"
  by code_simp+

lemma half_not_Nil [simp]: "half t \<noteq> []"
  by (cases t) (auto simp: item_text_def call_text_def)

lemma space_simps [simp]: "is_space CHR '' ''" "\<not> is_space CHR ''0''" "\<not> is_space CHR ''1''" "\<not> is_space CHR ''!''"
  "\<not> is_space CHR ''(''" "\<not> is_space CHR '')''" "\<not> is_space CHR ''&''" "\<not> is_space CHR ''O''" "\<not> is_space CHR ''R''"
  "\<not> is_space CHR ''o''" "\<not> is_space CHR ''r''"
  by (simp_all add: is_space_def)

lemma sub_and_tokens:
  "list_all no_call ts \<Longrightarrow> list_all no_item ts \<Longrightarrow> sub_word ''and'' CHR ''&'' prev (spells ts) = concat (map half ts)"
proof (induction ts arbitrary: prev)
  case Nil
  then show ?case by (simp add: sub_word.simps)
next
  case (Cons t ts)
  have "hd (spell t) \<in> set '' ()01!&|'' \<and> spell t \<noteq> []" if "no_call t" for t using hd_spell [OF that] by auto
  then have rest: "\<not> word_here ''and'' p (spells ts)" for p
    using Cons.prems by (intro word_here_tokens) (auto simp: list_all_iff)
  note IH = Cons.IH [OF Cons.prems(1,2) [simplified, THEN conjunct2]]
  have plain: "sub_word ''and'' CHR ''&'' p (c # spells ts) = c # concat (map half ts)" if "lower_char c \<noteq> CHR ''a''" for c p
    using sub_step [of c "''and''" "spells ts" p] rest word_here_hd [of c "''and''"] that IH by simp
  have and_hit: "word_here ''and'' (Some CHR '' '') (v @ CHR '' '' # spells ts)" if "lower v = ''and''" "length v = 3" for v
    using that by (auto simp: word_here_def is_word_def is_digit_def is_alpha_def)
  show ?case
  proof (cases t)
    case (TAnd c)
    then show ?thesis
      using IH sub_hit [of "''and''" "if c then ''AND'' else ''and''" "spells ts" "CHR ''&''" prev] and_hit [of "if c then ''AND'' else ''and''"]
      by (cases c) simp_all
  next
    case (TOr c)
    have "sub_word ''and'' CHR ''&'' prev ((if c then '' OR'' else '' or'') @ CHR '' '' # spells ts) = (if c then '' OR'' else '' or'') @ sub_word ''and'' CHR ''&'' (Some (if c then CHR ''R'' else CHR ''r'')) (CHR '' '' # spells ts)"
      by (cases c) (simp_all add: sub_step word_here_hd)
    then show ?thesis using TOr plain [of "CHR '' ''"] by (cases c) simp_all
  qed (use Cons.prems plain in \<open>auto simp: lower_char_def\<close>)
qed

lemma sub_or_tokens:
  "list_all no_call ts \<Longrightarrow> list_all no_item ts \<Longrightarrow> sub_word ''or'' CHR ''|'' prev (concat (map half ts)) = marks ts"
proof (induction ts arbitrary: prev)
  case Nil
  then show ?case by (simp add: sub_word.simps)
next
  case (Cons t ts)
  have "hd (half t) \<in> set '' ()01!&|'' \<and> half t \<noteq> []" if "no_call t" for t using hd_spell [OF that] that by (cases t) (auto simp: item_text_def)
  then have rest: "\<not> word_here ''or'' p (concat (map half ts))" for p
    using Cons.prems by (intro word_here_tokens) (auto simp: list_all_iff)
  note IH = Cons.IH [OF Cons.prems(1,2) [simplified, THEN conjunct2]]
  have plain: "sub_word ''or'' CHR ''|'' p (c # concat (map half ts)) = c # marks ts" if "lower_char c \<noteq> CHR ''o''" for c p
    using sub_step [of c "''or''" "concat (map half ts)" p] rest word_here_hd [of c "''or''"] that IH by simp
  have or_hit: "word_here ''or'' (Some CHR '' '') (v @ CHR '' '' # concat (map half ts))" if "lower v = ''or''" "length v = 2" for v
    using that by (auto simp: word_here_def is_word_def is_digit_def is_alpha_def)
  show ?case
  proof (cases t)
    case (TOr c)
    then show ?thesis
      using IH sub_hit [of "''or''" "if c then ''OR'' else ''or''" "concat (map half ts)" "CHR ''|''" prev] or_hit [of "if c then ''OR'' else ''or''"]
      by (cases c) simp_all
  qed (use Cons.prems plain in \<open>auto simp: lower_char_def\<close>)
qed

lemma sub_tokens: "list_all no_call ts \<Longrightarrow> list_all no_item ts \<Longrightarrow> sub_operators (spells ts) = marks ts"
  by (simp add: sub_operators_def sub_and_tokens sub_or_tokens)

end
