(* ===== verification/Rule_Meaning.thy ===== *)
theory Rule_Meaning
  imports Rule_Strings
begin

text \<open>
  The meaning of a requirement string: an item asks for a count of that item, a call stands for the
  requirement its function returns, and the string is true exactly when the formula it spells is.
\<close>

section \<open>Calls\<close>

fun atomic :: "req \<Rightarrow> bool" where
  "atomic (Bit b) = True" | "atomic (Item n) = True" | "atomic (Group e) = True" | "atomic _ = False"

lemma toks_atomic: "atomic e \<Longrightarrow> toks l e = toks 0 e"
  by (cases e) simp_all

text \<open>The requirement with the calls replaced by what they return.\<close>

fun inst_calls :: "(string \<Rightarrow> string \<Rightarrow> req) \<Rightarrow> req \<Rightarrow> req" where
  "inst_calls res (Bit b) = Bit b"
| "inst_calls res (Item n) = Item n"
| "inst_calls res (Call f a) = res f a"
| "inst_calls res (Neg e) = Neg (inst_calls res e)"
| "inst_calls res (Group e) = Group (inst_calls res e)"
| "inst_calls res (And c a b) = And c (inst_calls res a) (inst_calls res b)"
| "inst_calls res (Or c a b) = Or c (inst_calls res a) (inst_calls res b)"

definition expand :: "(string \<Rightarrow> string \<Rightarrow> req) \<Rightarrow> (string \<times> string) set \<Rightarrow> tok list \<Rightarrow> tok list" where
  "expand res F ts = concat (map (\<lambda>t. case t of TCall f a \<Rightarrow> if (f, a) \<in> F then toks 0 (res f a) else [t] | _ \<Rightarrow> [t]) ts)"

lemma expand_simps [simp]:
  "expand res F [] = []"
  "expand res F (t # ts) = (case t of TCall f a \<Rightarrow> if (f, a) \<in> F then toks 0 (res f a) else [t] | _ \<Rightarrow> [t]) @ expand res F ts"
  "expand res F (ts @ us) = expand res F ts @ expand res F us"
  by (simp_all add: expand_def)

lemma expand_no_call: "list_all no_call ts \<Longrightarrow> expand res F ts = ts"
  by (induction ts) (auto split: tok.splits)

lemma expand_tok_ok:
  "list_all tok_ok ts \<Longrightarrow> \<forall>(f, a) \<in> F. list_all tok_ok (toks 0 (res f a)) \<Longrightarrow> list_all tok_ok (expand res F ts)"
  by (induction ts) (auto split: tok.splits)

lemma expand_no_calls:
  "set (calls_of ts) \<subseteq> F \<Longrightarrow> \<forall>(f, a) \<in> F. list_all no_call (toks 0 (res f a)) \<Longrightarrow> list_all no_call (expand res F ts)"
  by (induction ts rule: calls_of.induct) auto

lemma calls_of_append [simp]: "calls_of (ts @ us) = calls_of ts @ calls_of us"
  by (induction ts rule: calls_of.induct) auto

lemma calls_of_iff: "(f, a) \<in> set (calls_of ts) \<longleftrightarrow> TCall f a \<in> set ts"
  by (induction ts rule: calls_of.induct) auto

lemma toks_inst_calls:
  "\<forall>(f, a) \<in> set (calls_of (toks l e)). atomic (res f a) \<and> (f, a) \<in> F \<Longrightarrow> toks l (inst_calls res e) = expand res F (toks l e)"
proof (induction e arbitrary: l)
  case (Call f a)
  then show ?case by (simp add: toks_atomic [of _ l])
qed (simp_all add: paren_def)

text \<open>What a call returns: the spelling of a requirement without calls.\<close>

definition call_defined :: "'st rule_env \<Rightarrow> 'st \<Rightarrow> (string \<Rightarrow> string \<Rightarrow> req) \<Rightarrow> string \<Rightarrow> string \<Rightarrow> bool" where
  "call_defined env st res f a \<longleftrightarrow>
     atomic (res f a) \<and> list_all tok_ok (toks 0 (res f a)) \<and> list_all no_call (toks 0 (res f a)) \<and>
     (case rule_function env f of
        None \<Rightarrow> False
      | Some func \<Rightarrow> (case func (call_args a) st of Inl e \<Rightarrow> False | Inr r \<Rightarrow> func_text r = requirement (res f a)))"

lemma replace_calls_tokens:
  "list_all tok_ok ts \<Longrightarrow> \<forall>(f, a) \<in> set fs. call_ok f a \<and> call_defined env st res f a \<Longrightarrow>
   replace_calls env st fs (spells ts) = Inr (spells (expand res (set fs) ts))"
proof (induction fs arbitrary: ts)
  case Nil
  have "expand res {} ts = ts" by (induction ts) (auto split: tok.splits)
  then show ?case by simp
next
  case (Cons fa fs)
  obtain f a where fa: "fa = (f, a)" by fastforce
  from Cons.prems(2) have ok: "call_ok f a" and d: "call_defined env st res f a" by (auto simp: fa)
  from d obtain func r where func: "rule_function env f = Some func" "func (call_args a) st = Inr r" "func_text r = requirement (res f a)"
    by (auto simp: call_defined_def split: option.splits sum.splits)
  have "replace_all (call_text (f, a)) (func_text r) (spells ts) = spells (expand res {(f, a)} ts)"
    unfolding replace_call_tokens [OF ok Cons.prems(1)] func(3)
    by (induction ts) (auto simp: requirement_def split: tok.splits)
  moreover have "list_all tok_ok (expand res {(f, a)} ts)"
    using Cons.prems(1) d by (induction ts) (auto simp: call_defined_def split: tok.splits)
  moreover have "expand res (set fs) (expand res {(f, a)} ts) = expand res (insert (f, a) (set fs)) ts"
    using d by (induction ts) (auto simp: call_defined_def expand_no_call split: tok.splits)
  ultimately show ?case using Cons func by (simp add: fa)
qed

section \<open>Items\<close>

text \<open>The truth of an item, and whether its count can be read.\<close>

definition item_wanted :: "'st rule_env \<Rightarrow> string \<Rightarrow> exn + int" where
  "item_wanted env n = required_count env (snd (item_parts n)) (dict_get_or (item_counts env) (fst (item_parts n)) 0)"

definition item_sat :: "'st rule_env \<Rightarrow> 'st \<Rightarrow> string \<Rightarrow> bool" where
  "item_sat env st n = (case item_wanted env n of Inl e \<Rightarrow> False | Inr w \<Rightarrow> w \<le> state_count env (fst (item_parts n)) st)"

definition item_defined :: "'st rule_env \<Rightarrow> string \<Rightarrow> bool" where
  "item_defined env n = (case item_wanted env n of Inl e \<Rightarrow> False | Inr w \<Rightarrow> True)"

definition settle :: "(string \<Rightarrow> bool) \<Rightarrow> string set \<Rightarrow> tok \<Rightarrow> tok" where
  "settle sat N t = (case t of TItem n \<Rightarrow> if n \<in> N then TBit (sat n) else t | _ \<Rightarrow> t)"

lemma settle_ok: "list_all tok_ok ts \<Longrightarrow> list_all tok_ok (map (settle sat N) ts)" "list_all no_call ts \<Longrightarrow> list_all no_call (map (settle sat N) ts)"
  by (induction ts) (auto simp: settle_def split: tok.splits)

lemma replace_settles:
  assumes "item_ok n" "list_all tok_ok ts" "list_all no_call ts"
  shows "replace_all (item_text n) (spell (TBit b)) (spells ts) = spells (map (settle (\<lambda>_. b) {n}) ts)"
  unfolding replace_item_tokens [OF assms] by (induction ts) (auto simp: settle_def split: tok.splits)

lemma settle_gone: "map (settle g {n}) (map (settle f {n}) ts) = map (settle f {n}) ts"
  by (auto simp: settle_def split: tok.splits)

lemma replace_item_settles:
  assumes "item_ok n" "list_all tok_ok ts" "list_all no_call ts" "item_defined env n"
  shows "replace_item env st n (spells ts) = Inr (spells (map (settle (item_sat env st) {n}) ts))"
proof -
  obtain name cnt where parts: "item_parts n = (name, cnt)" by fastforce
  from assms(4) obtain w where w: "required_count env cnt (dict_get_or (item_counts env) name 0) = Inr w"
    by (auto simp: item_defined_def item_wanted_def parts split: sum.splits)
  have at: "\<not> starts_with ''@'' n" using assms(1) by (cases n) (auto simp: item_ok_def starts_with_def)
  have sat: "item_sat env st n \<longleftrightarrow> w \<le> state_count env name st" by (simp add: item_sat_def item_wanted_def parts w)
  have cong: "map (settle (\<lambda>_. item_sat env st n) {n}) ts = map (settle (item_sat env st) {n}) ts"
    by (auto simp: settle_def split: tok.splits)
  note r = replace_settles [OF assms(1-3), of True] replace_settles [OF assms(1-3), of False]
  note r' = replace_settles [OF assms(1) settle_ok(1) [OF assms(2)] settle_ok(2) [OF assms(3)], of False, unfolded settle_gone]
  show ?thesis
  proof (cases "w \<le> state_count env name st")
    case True
    then show ?thesis using cong sat r(1) r' [of "\<lambda>_. True" "{n}"]
      by (simp add: replace_item_def parts w at Let_def settle_gone del: map_map map_eq_conv)
  next
    case False
    then show ?thesis using cong sat r(2) by (simp add: replace_item_def parts w at Let_def del: map_map map_eq_conv)
  qed
qed

lemma replace_items_settle:
  "list_all tok_ok ts \<Longrightarrow> list_all no_call ts \<Longrightarrow> \<forall>n \<in> set ns. item_ok n \<and> item_defined env n \<Longrightarrow>
   replace_items env st ns (spells ts) = Inr (spells (map (settle (item_sat env st) (set ns)) ts))"
proof (induction ns arbitrary: ts)
  case Nil
  have "map (settle f {}) ts = ts" for f by (rule map_idI) (auto simp: settle_def split: tok.splits)
  then show ?case by simp
next
  case (Cons n ns)
  have "map (settle f (set ns)) (map (settle f {n}) ts) = map (settle f (insert n (set ns))) ts" for f
    by (auto simp: settle_def split: tok.splits)
  then have "map (settle (item_sat env st) (set ns)) (map (settle (item_sat env st) {n}) ts) =
      map (settle (item_sat env st) (insert n (set ns))) ts" .
  with Cons.IH [OF settle_ok(1) [OF Cons.prems(1)] settle_ok(2) [OF Cons.prems(2)], of "item_sat env st" "{n}"]
    replace_item_settles [OF _ Cons.prems(1,2), of n env st] Cons.prems(3)
  show ?case by (simp del: map_map map_eq_conv)
qed

section \<open>The value of a string\<close>

fun inst_items :: "(string \<Rightarrow> bool) \<Rightarrow> req \<Rightarrow> req" where
  "inst_items sat (Bit b) = Bit b"
| "inst_items sat (Item n) = Bit (sat n)"
| "inst_items sat (Call f a) = Call f a"
| "inst_items sat (Neg e) = Neg (inst_items sat e)"
| "inst_items sat (Group e) = Group (inst_items sat e)"
| "inst_items sat (And c a b) = And c (inst_items sat a) (inst_items sat b)"
| "inst_items sat (Or c a b) = Or c (inst_items sat a) (inst_items sat b)"

lemma items_of_iff: "n \<in> set (items_of ts) \<longleftrightarrow> TItem n \<in> set ts"
  by (induction ts rule: items_of.induct) auto

lemma items_of_append [simp]: "items_of (ts @ us) = items_of ts @ items_of us"
  by (induction ts rule: items_of.induct) auto

lemma toks_inst_items:
  "set (items_of (toks l e)) \<subseteq> N \<Longrightarrow> toks l (inst_items sat e) = map (settle sat N) (toks l e)"
  by (induction e arbitrary: l) (auto simp: paren_def settle_def split: if_splits)

lemma ground_inst: "list_all no_call (toks l e) \<Longrightarrow> ground (inst_items sat e)"
  by (induction e arbitrary: l) (auto simp: paren_def split: if_splits)

lemma ground_toks: "ground e \<Longrightarrow> list_all no_call (toks l e) \<and> list_all no_item (toks l e)"
  by (induction e arbitrary: l) (auto simp: paren_def)

lemma holds_inst_items: "holds i c (inst_items sat e) = holds sat c e"
  by (induction e) auto

lemma holds_inst_calls: "holds i c (inst_calls res e) = holds i (\<lambda>f a. holds i c (res f a)) e"
  by (induction e) auto

lemma check_require_tokens:
  assumes "list_all tok_ok (toks 0 e)" "\<forall>(f, a) \<in> set (calls_of (toks 0 e)). call_defined env st res f a"
    "\<forall>n \<in> set (items_of (toks 0 (inst_calls res e))). item_defined env n"
  shows "check_require_string env (requirement e) st = Inr (holds (item_sat env st) (\<lambda>f a. holds (item_sat env st) (\<lambda>_ _. False) (res f a)) e)"
proof -
  let ?F = "set (calls_of (toks 0 e))"
  let ?e1 = "inst_calls res e" and ?sat = "item_sat env st"
  let ?e2 = "inst_items ?sat ?e1"
  have calls: "\<forall>(f, a) \<in> ?F. call_ok f a \<and> call_defined env st res f a"
    using assms(1,2) by (auto simp: calls_of_iff list_all_iff) (metis tok_ok.simps(2))
  have t1: "toks 0 ?e1 = expand res ?F (toks 0 e)"
    using calls by (intro toks_inst_calls) (auto simp: call_defined_def)
  have ok1: "list_all tok_ok (toks 0 ?e1) \<and> list_all no_call (toks 0 ?e1)"
    unfolding t1 using calls by (intro conjI expand_tok_ok expand_no_calls assms(1)) (auto simp: call_defined_def)
  have items: "\<forall>n \<in> set (items_of (toks 0 ?e1)). item_ok n \<and> item_defined env n"
    using ok1 assms(3) by (auto simp: items_of_iff list_all_iff) (metis tok_ok.simps(1))
  have t2: "toks 0 ?e2 = map (settle ?sat (set (items_of (toks 0 ?e1)))) (toks 0 ?e1)"
    by (rule toks_inst_items) simp
  have g: "ground ?e2" using ok1 ground_inst [of 0 ?e1] by simp
  have "requirement e \<noteq> []" by (cases e) (auto simp: requirement_def paren_def item_text_def call_text_def)
  moreover have "replace_calls env st (find_calls (requirement e)) (requirement e) = Inr (spells (toks 0 ?e1))"
    unfolding requirement_def find_calls_tokens [OF assms(1)] t1 by (rule replace_calls_tokens [OF assms(1) calls])
  moreover have "replace_items env st (find_items (spells (toks 0 ?e1))) (spells (toks 0 ?e1)) = Inr (spells (toks 0 ?e2))"
    using ok1 items unfolding t2 by (simp only: find_items_tokens replace_items_settle)
  moreover have "sub_operators (spells (toks 0 ?e2)) = marks (toks 0 ?e2)"
    using ground_toks [OF g] by (intro sub_tokens) simp_all
  ultimately have "check_require_string env (requirement e) st =
      (case infix_to_postfix (marks (toks 0 ?e2)) of Inl e \<Rightarrow> Inl e | Inr p \<Rightarrow> evaluate_postfix p)"
    by (simp add: check_require_string_def)
  also have "\<dots> = Inr (holds ?sat (\<lambda>_ _. False) ?e2)"
    using parse_ground [OF g] evaluate_ground [OF g, of ?sat "\<lambda>_ _. False"] by simp
  finally show ?thesis by (simp add: holds_inst_items holds_inst_calls)
qed

end
