(* ===== verification/Py_Random.thy ===== *)
theory Py_Random
  imports SMO_Prelude
begin

text \<open>
  Python's seeded \<open>random.Random\<close> as the apworld uses it. A generator is the position in an
  arbitrary sequence of draws; \<open>randint\<close>, \<open>choice\<close>, \<open>shuffle\<close> and \<open>sample\<close> reduce a draw
  to the range asked for, so a statement over all generators covers every outcome of the library's.
\<close>

record rng =
  rng_position :: nat
  rng_draws :: "nat \<Rightarrow> nat"

definition draw_below :: "nat \<Rightarrow> rng \<Rightarrow> nat \<times> rng" where
  "draw_below n r = (rng_draws r (rng_position r) mod n, r\<lparr>rng_position := Suc (rng_position r)\<rparr>)"

lemma draw_below_less: "0 < n \<Longrightarrow> fst (draw_below n r) < n"
  by (simp add: draw_below_def)

definition randint :: "int \<Rightarrow> int \<Rightarrow> rng \<Rightarrow> int \<times> rng" where
  "randint lo hi r = (case draw_below (nat (hi - lo + 1)) r of (d, r) \<Rightarrow> (lo + int d, r))"

lemma randint_bounds: "lo \<le> hi \<Longrightarrow> lo \<le> fst (randint lo hi r) \<and> fst (randint lo hi r) \<le> hi"
  using draw_below_less [of "nat (hi - lo + 1)" r] by (auto simp: randint_def split: prod.split)

definition choice :: "'a list \<Rightarrow> rng \<Rightarrow> 'a \<times> rng" where
  "choice xs r = (case draw_below (length xs) r of (d, r) \<Rightarrow> (xs ! d, r))"

lemma choice_in [intro]: "xs \<noteq> [] \<Longrightarrow> fst (choice xs r) \<in> set xs"
  using draw_below_less [of "length xs" r] by (auto simp: choice_def split: prod.split)

text \<open>\<open>random.sample(xs, k)\<close> draws without replacement, \<open>random.shuffle\<close> is a full sample;
  \<open>sample\<close> raises \<open>ValueError\<close> when \<open>k\<close> exceeds the population.\<close>

fun sample_pool :: "nat \<Rightarrow> 'a list \<Rightarrow> rng \<Rightarrow> 'a list \<times> rng" where
  "sample_pool 0 xs r = ([], r)"
| "sample_pool (Suc k) xs r =
     (case draw_below (length xs) r of
        (d, r) \<Rightarrow> (case sample_pool k (take d xs @ drop (Suc d) xs) r of (ys, r) \<Rightarrow> (xs ! d # ys, r)))"

definition shuffle :: "'a list \<Rightarrow> rng \<Rightarrow> 'a list \<times> rng" where
  "shuffle xs r = sample_pool (length xs) xs r"

definition sample :: "nat \<Rightarrow> 'a list \<Rightarrow> rng \<Rightarrow> exn + ('a list \<times> rng)" where
  "sample k xs r = (if length xs < k then Inl ValueError else Inr (sample_pool k xs r))"

lemma mset_remove_nth: "d < length xs \<Longrightarrow> add_mset (xs ! d) (mset (take d xs @ drop (Suc d) xs)) = mset xs"
proof -
  assume d: "d < length xs"
  have "mset xs = mset (take d xs @ xs ! d # drop (Suc d) xs)" using id_take_nth_drop [OF d] by simp
  then show ?thesis by simp
qed

lemma sample_pool_spec:
  "k \<le> length xs \<Longrightarrow> length (fst (sample_pool k xs r)) = k \<and> mset (fst (sample_pool k xs r)) \<subseteq># mset xs"
proof (induction k arbitrary: xs r)
  case (Suc k)
  obtain d r' where d: "draw_below (length xs) r = (d, r')" by fastforce
  then have "d < length xs" using draw_below_less [of "length xs" r] Suc.prems by (cases xs) auto
  let ?ys = "take d xs @ drop (Suc d) xs"
  have "length ?ys = length xs - 1" using \<open>d < length xs\<close> by simp
  then have "k \<le> length ?ys" using Suc.prems by linarith
  from Suc.IH [OF this, of r'] have "length (fst (sample_pool k ?ys r')) = k \<and> mset (fst (sample_pool k ?ys r')) \<subseteq># mset ?ys" .
  moreover obtain zs r'' where z: "sample_pool k ?ys r' = (zs, r'')" by fastforce
  ultimately show ?case
    using mset_remove_nth [OF \<open>d < length xs\<close>] by (simp add: d) (metis insert_subset_eq_iff mset_append add_mset_remove_trivial mset_subset_eq_add_mset_cancel)
qed simp

lemma shuffle_mset [simp]: "mset (fst (shuffle xs r)) = mset xs"
proof -
  have "length (fst (sample_pool (length xs) xs r)) = length xs" "mset (fst (sample_pool (length xs) xs r)) \<subseteq># mset xs"
    using sample_pool_spec [of "length xs" xs r] by simp_all
  then show ?thesis unfolding shuffle_def
    by (metis size_mset subseteq_mset_def mset_subset_size nat_less_le subset_mset.le_neq_trans)
qed

lemma shuffle_set [simp]: "set (fst (shuffle xs r)) = set xs"
  using shuffle_mset [of xs r] by (metis set_mset_mset)

end
