(* ===== verification/Talkatoo_Order.thy ===== *)
theory Talkatoo_Order
  imports Py_Random Datapackage
begin

text \<open>
  \<open>talkatoo_order.py\<close>: the order in which Talkatoo names the moons of each kingdom. Archipelago's
  \<open>CollectionState\<close> is a parameter: a state, whether a location is reachable in it, the state after
  collecting a location's item, and the sweep that starts it.
\<close>

definition window :: nat where "window = 3"

record ap_location =
  loc_name :: string
  loc_item :: "string option"

text \<open>\<open>_split_kingdom_prefix\<close>, with the expression of the data package.\<close>

definition split_location :: "string \<Rightarrow> (string \<times> string) option" where
  "split_location name = (case split_kingdom_prefix name of (Some k, Some s) \<Rightarrow> Some (k, s) | _ \<Rightarrow> None)"

definition in_pool :: "string set \<Rightarrow> ap_location \<Rightarrow> bool" where
  "in_pool progression_names l \<longleftrightarrow>
     loc_name l \<notin> progression_names \<and> loc_item l \<noteq> Some ''__Victory__'' \<and>
     (case split_location (loc_name l) of None \<Rightarrow> False | Some (k, s) \<Rightarrow> k \<noteq> ''Capture'')"

definition kingdom_of :: "string \<Rightarrow> string" where "kingdom_of name = fst (the (split_location name))"

text \<open>\<open>d.setdefault(k, []).append(v)\<close>.\<close>

definition append_to :: "'k \<Rightarrow> 'v \<Rightarrow> ('k, 'v list) dict \<Rightarrow> ('k, 'v list) dict" where
  "append_to k v d = dict_set k (dict_get_or d k [] @ [v]) d"

definition collect_pool_per_kingdom :: "ap_location list \<Rightarrow> string set \<Rightarrow> (string, string list) dict" where
  "collect_pool_per_kingdom locations progression_names =
     foldl (\<lambda>d l. if in_pool progression_names l then append_to (kingdom_of (loc_name l)) (loc_name l) d else d)
       [] locations"

fun is_sphere_safe_with_oracle ::
  "nat \<Rightarrow> ('st \<Rightarrow> string \<Rightarrow> bool) \<Rightarrow> (string \<Rightarrow> 'st \<Rightarrow> 'st) \<Rightarrow> string list \<Rightarrow> 'st \<Rightarrow> bool" where
  "is_sphere_safe_with_oracle w can_reach collect [] st = True"
| "is_sphere_safe_with_oracle w can_reach collect (l # ls) st =
     (list_ex (can_reach st) (take w (l # ls)) \<and>
      is_sphere_safe_with_oracle w can_reach collect ls (collect l st))"

text \<open>The reachable locations, sorted, as \<open>rng.choice\<close> gets them.\<close>

definition reachable_sorted :: "('st \<Rightarrow> string \<Rightarrow> bool) \<Rightarrow> 'st \<Rightarrow> string list \<Rightarrow> string list" where
  "reachable_sorted can_reach st locs = sort (filter (can_reach st) locs)"

lemma reachable_sorted_set [simp]: "set (reachable_sorted can_reach st locs) = {l \<in> set locs. can_reach st l}"
  by (simp add: reachable_sorted_def)

lemma reachable_sorted_Nil: "reachable_sorted can_reach st locs = [] \<longleftrightarrow> (\<forall>l \<in> set locs. \<not> can_reach st l)"
  using reachable_sorted_set [of can_reach st locs] by (metis (mono_tags, lifting) empty_Collect_eq list.set(1) set_empty)

lemma choice_reachable:
  assumes "reachable_sorted can_reach st locs \<noteq> []" "choice (reachable_sorted can_reach st locs) r = (pick, r')"
  shows "pick \<in> set locs \<and> can_reach st pick"
  using choice_in [OF assms(1), of r] assms(2) by simp

lemma choice_shrinks:
  assumes "reachable_sorted can_reach st locs \<noteq> []" "(pick, r') = choice (reachable_sorted can_reach st locs) r"
  shows "length (remove1 pick locs) < length locs"
proof -
  have "pick \<in> set locs" using choice_reachable [OF assms(1) assms(2) [symmetric]] by blast
  then show ?thesis using length_pos_if_in_set [of pick locs] by (simp add: length_remove1)
qed

function find_safe_permutation_with_oracle ::
  "('st \<Rightarrow> string \<Rightarrow> bool) \<Rightarrow> (string \<Rightarrow> 'st \<Rightarrow> 'st) \<Rightarrow> string list \<Rightarrow> rng \<Rightarrow> 'st \<Rightarrow> string list option" where
  "find_safe_permutation_with_oracle can_reach collect remaining r st =
     (if remaining = [] then Some []
      else if reachable_sorted can_reach st remaining = [] then None
      else (case choice (reachable_sorted can_reach st remaining) r of
              (pick, r') \<Rightarrow> map_option ((#) pick)
                (find_safe_permutation_with_oracle can_reach collect (remove1 pick remaining) r' (collect pick st))))"
  by pat_completeness auto
termination
  by (relation "measure (\<lambda>(can_reach, collect, remaining, r, st). length remaining)") (auto intro: choice_shrinks)

declare find_safe_permutation_with_oracle.simps [simp del]

text \<open>\<open>_make_ap_oracles\<close>: the state before any pool moon is collected.\<close>

definition start_state :: "(string set \<Rightarrow> 'st \<Rightarrow> 'st) \<Rightarrow> 'st \<Rightarrow> string set \<Rightarrow> 'st" where
  "start_state sweep fresh exclude_pool = (if exclude_pool = {} then fresh else sweep exclude_pool fresh)"

definition is_sphere_safe ::
  "('st \<Rightarrow> string \<Rightarrow> bool) \<Rightarrow> (string \<Rightarrow> 'st \<Rightarrow> 'st) \<Rightarrow> (string set \<Rightarrow> 'st \<Rightarrow> 'st) \<Rightarrow> 'st \<Rightarrow> nat \<Rightarrow> string list \<Rightarrow> bool" where
  "is_sphere_safe can_reach collect sweep fresh w order =
     is_sphere_safe_with_oracle w can_reach collect order (start_state sweep fresh (set order))"

definition find_safe_permutation_for_kingdom ::
  "('st \<Rightarrow> string \<Rightarrow> bool) \<Rightarrow> (string \<Rightarrow> 'st \<Rightarrow> 'st) \<Rightarrow> (string set \<Rightarrow> 'st \<Rightarrow> 'st) \<Rightarrow> 'st \<Rightarrow> string list \<Rightarrow> rng \<Rightarrow>
     string list option" where
  "find_safe_permutation_for_kingdom can_reach collect sweep fresh locs r =
     find_safe_permutation_with_oracle can_reach collect locs r (start_state sweep fresh (set locs))"

definition order_error :: "nat \<Rightarrow> nat \<Rightarrow> exn" where
  "order_error moons kingdoms = GenericException
     (''talkatoo_mode: global sphere-safety failed across the '' @ show_nat moons @ '' pool moons (across '' @
      show_nat kingdoms @ '' kingdoms). The greedy validator could not find a topological order in which every step '' @
      ''has at least one reachable moon. Likely causes: (a) capturesanity off plus tight peace toggles stripped key items; '' @
      ''(b) an apworld rule references an item the current option set doesn'' @ [CHR 39] @
      ''t generate. Inspect TALKATOO.md '' @ [CHR 39] @ ''Diagnostics '' @ [CHR 0xE2, CHR 0x86, CHR 0x92] @
      '' Unbeatable seeds'' @ [CHR 39] @ '' for the triage checklist.'')"

text \<open>The projection of the global order onto the kingdoms.\<close>

definition project_one :: "string \<Rightarrow> (string, string list) dict \<Rightarrow> exn + (string, string list) dict" where
  "project_one name d =
     (case split_location name of
        None \<Rightarrow> Inl AssertionError
      | Some (k, s) \<Rightarrow> (case dict_get d k of None \<Rightarrow> Inl KeyError | Some order \<Rightarrow> Inr (dict_set k (order @ [s]) d)))"

fun project_order :: "string list \<Rightarrow> (string, string list) dict \<Rightarrow> exn + (string, string list) dict" where
  "project_order [] d = Inr d"
| "project_order (l # ls) d = (case project_one l d of Inl e \<Rightarrow> Inl e | Inr d \<Rightarrow> project_order ls d)"

definition build_talkatoo_order ::
  "('st \<Rightarrow> string \<Rightarrow> bool) \<Rightarrow> (string \<Rightarrow> 'st \<Rightarrow> 'st) \<Rightarrow> (string set \<Rightarrow> 'st \<Rightarrow> 'st) \<Rightarrow> 'st \<Rightarrow> ap_location list \<Rightarrow>
     string set \<Rightarrow> rng \<Rightarrow> exn + (string, string list) dict" where
  "build_talkatoo_order can_reach collect sweep fresh locations progression_names r =
     (let pool_per_kingdom = collect_pool_per_kingdom locations progression_names
      in if pool_per_kingdom = [] then Inr []
         else (let all_pool = concat (map snd pool_per_kingdom)
               in case find_safe_permutation_with_oracle can_reach collect all_pool r
                         (start_state sweep fresh (set all_pool)) of
                    None \<Rightarrow> Inl (order_error (length all_pool) (length pool_per_kingdom))
                  | Some global_order \<Rightarrow> project_order global_order (map (\<lambda>(k, _). (k, [])) pool_per_kingdom)))"

section \<open>The greedy order\<close>

text \<open>Every location is reachable once those before it are collected.\<close>

fun playable :: "('st \<Rightarrow> string \<Rightarrow> bool) \<Rightarrow> (string \<Rightarrow> 'st \<Rightarrow> 'st) \<Rightarrow> string list \<Rightarrow> 'st \<Rightarrow> bool" where
  "playable can_reach collect [] st = True"
| "playable can_reach collect (l # ls) st = (can_reach st l \<and> playable can_reach collect ls (collect l st))"

lemma playable_safe: "playable can_reach collect ls st \<Longrightarrow> 0 < w \<Longrightarrow> is_sphere_safe_with_oracle w can_reach collect ls st"
  by (induction ls arbitrary: st) (auto simp: gr0_conv_Suc)

lemma safe_playable: "is_sphere_safe_with_oracle 1 can_reach collect ls st \<Longrightarrow> playable can_reach collect ls st"
  by (induction ls arbitrary: st) auto

lemma playable_nth:
  "playable can_reach collect ls st \<Longrightarrow> i < length ls \<Longrightarrow> can_reach (fold collect (take i ls) st) (ls ! i)"
proof (induction ls arbitrary: st i)
  case (Cons l ls)
  then show ?case by (cases i) auto
qed simp

lemma find_sound:
  "find_safe_permutation_with_oracle can_reach collect locs r st = Some order \<Longrightarrow>
   mset order = mset locs \<and> playable can_reach collect order st"
proof (induction can_reach collect locs r st arbitrary: order rule: find_safe_permutation_with_oracle.induct)
  case (1 can_reach collect remaining r st)
  show ?case
  proof (cases "remaining = []")
    case True
    then show ?thesis using "1.prems" by (simp add: find_safe_permutation_with_oracle.simps [of can_reach])
  next
    case False
    obtain pick r' where p: "choice (reachable_sorted can_reach st remaining) r = (pick, r')" by fastforce
    have nonempty: "reachable_sorted can_reach st remaining \<noteq> []"
      and "\<exists>rest. order = pick # rest \<and>
        find_safe_permutation_with_oracle can_reach collect (remove1 pick remaining) r' (collect pick st) = Some rest"
      using "1.prems" False by (auto simp: find_safe_permutation_with_oracle.simps [of can_reach _ remaining] p split: if_splits)
    then obtain rest where rest: "order = pick # rest"
      "find_safe_permutation_with_oracle can_reach collect (remove1 pick remaining) r' (collect pick st) = Some rest"
      by blast
    from "1.IH" [OF False nonempty p [symmetric] rest(2)] choice_reachable [OF nonempty p]
    show ?thesis by (simp add: rest(1))
  qed
qed

text \<open>An oracle in which collecting more never makes a location unreachable: Archipelago's collection
  states only gain items, and its access rules ask for items that are there.\<close>

locale growing_oracle =
  fixes can_reach :: "'st \<Rightarrow> string \<Rightarrow> bool" and collect :: "string \<Rightarrow> 'st \<Rightarrow> 'st"
  assumes more: "mset xs \<subseteq># mset ys \<Longrightarrow> can_reach (fold collect xs st) l \<Longrightarrow> can_reach (fold collect ys st) l"
begin

lemma some_reachable:
  assumes "playable can_reach collect (p1 @ l # p2) st" "mset p1 \<subseteq># mset collected"
  shows "can_reach (fold collect collected st) l"
proof -
  have "can_reach (fold collect p1 st) l" using playable_nth [OF assms(1), of "length p1"] by simp
  with assms(2) show ?thesis by (rule more)
qed

lemma first_missing:
  "\<not> mset p \<subseteq># collected \<Longrightarrow> \<exists>p1 l p2. p = p1 @ l # p2 \<and> mset p1 \<subseteq># collected \<and> \<not> add_mset l (mset p1) \<subseteq># collected"
proof (induction p rule: rev_induct)
  case (snoc x xs)
  then show ?case
  proof (cases "mset xs \<subseteq># collected")
    case True
    with snoc.prems show ?thesis by auto
  next
    case False
    with snoc.IH obtain p1 l p2 where "xs = p1 @ l # p2" "mset p1 \<subseteq># collected" "\<not> add_mset l (mset p1) \<subseteq># collected" by blast
    then show ?thesis by (metis append.assoc append_Cons)
  qed
qed simp

text \<open>The greedy never gets stuck on a pool that has a playable order.\<close>

lemma greedy_complete:
  assumes "playable can_reach collect p st" "mset p = mset collected + mset remaining"
  shows "find_safe_permutation_with_oracle can_reach collect remaining r (fold collect collected st) \<noteq> None"
  using assms(2)
proof (induction "length remaining" arbitrary: remaining collected r)
  case 0
  then show ?case by (simp add: find_safe_permutation_with_oracle.simps)
next
  case (Suc n)
  let ?st = "fold collect collected st"
  have "\<not> mset p \<subseteq># mset collected"
    using Suc.hyps(2) Suc.prems by (metis mset_subset_eq_add_left add_cancel_right_right size_eq_0_iff_empty size_mset subset_mset.antisym Zero_not_Suc)
  then obtain p1 l p2 where l: "p = p1 @ l # p2" "mset p1 \<subseteq># mset collected" "\<not> add_mset l (mset p1) \<subseteq># mset collected"
    using first_missing [of p] by blast
  have "l \<in># mset remaining"
  proof (rule ccontr)
    assume "l \<notin># mset remaining"
    then have "count (mset remaining) l = 0" by (simp only: not_in_iff)
    moreover have "\<not> count (mset p1) l < count (mset collected) l"
      using l(2,3) by (auto simp: subseteq_mset_def Suc_le_eq split: if_splits)
    ultimately show False using arg_cong [OF Suc.prems, of "\<lambda>m. count m l"] by (simp add: l(1) del: count_mset_0_iff)
  qed
  then have ne: "reachable_sorted can_reach ?st remaining \<noteq> []" "remaining \<noteq> []"
    using some_reachable [OF assms(1) [unfolded l(1)] l(2)] by (auto simp: reachable_sorted_Nil)
  obtain pick r' where p: "choice (reachable_sorted can_reach ?st remaining) r = (pick, r')" by fastforce
  then have pick: "pick \<in> set remaining" using choice_reachable [OF ne(1)] by blast
  then have "n = length (remove1 pick remaining)" "mset p = mset (collected @ [pick]) + mset (remove1 pick remaining)"
    using Suc.hyps(2) Suc.prems by (simp_all add: length_remove1)
  from Suc.hyps(1) [OF this, of r'] show ?case
    using ne by (simp add: find_safe_permutation_with_oracle.simps [of can_reach collect remaining] p)
qed

end

section \<open>The pool and the projection\<close>

definition shine_of :: "string \<Rightarrow> string" where "shine_of name = snd (the (split_location name))"

definition pool_names :: "ap_location list \<Rightarrow> string set \<Rightarrow> string list" where
  "pool_names locations progression_names = map loc_name (filter (in_pool progression_names) locations)"

lemma in_pool_split: "in_pool P l \<Longrightarrow> split_location (loc_name l) = Some (kingdom_of (loc_name l), shine_of (loc_name l))"
  by (auto simp: in_pool_def kingdom_of_def shine_of_def split: option.splits)

lemma append_to_simps [simp]:
  "dict_get (append_to k v d) j = (if j = k then Some (dict_get_or d k [] @ [v]) else dict_get d j)"
  "fst ` set (append_to k v d) = insert k (fst ` set d)"
  "dict_ok d \<Longrightarrow> dict_ok (append_to k v d)"
  by (simp_all add: append_to_def)

lemma append_to_mset:
  "dict_ok d \<Longrightarrow> mset (concat (map snd (append_to k v d))) = add_mset v (mset (concat (map snd d)))"
proof (induction d)
  case (Cons p d)
  then show ?case
    by (cases p; cases "fst p = k") (auto simp: append_to_def dict_get_or_def)
qed (simp add: append_to_def)

lemma pool_spec:
  "dict_ok (collect_pool_per_kingdom ls P) \<and>
   mset (concat (map snd (collect_pool_per_kingdom ls P))) = mset (pool_names ls P) \<and>
   fst ` set (collect_pool_per_kingdom ls P) = kingdom_of ` set (pool_names ls P)"
proof (induction ls rule: rev_induct)
  case (snoc l ls)
  then show ?case
    by (auto simp: collect_pool_per_kingdom_def pool_names_def append_to_mset [of _ "kingdom_of (loc_name l)"])
qed (simp add: collect_pool_per_kingdom_def pool_names_def)

lemma project_order_spec:
  "list_all (\<lambda>l. split_location l = Some (kingdom_of l, shine_of l) \<and> kingdom_of l \<in> set (dict_keys d)) ls \<Longrightarrow>
   \<exists>d'. project_order ls d = Inr d' \<and>
     (\<forall>k. dict_get_or d' k [] = dict_get_or d k [] @ map shine_of (filter (\<lambda>l. kingdom_of l = k) ls)) \<and>
     dict_keys d' = dict_keys d"
proof (induction ls arbitrary: d)
  case (Cons l ls)
  then obtain order where o: "dict_get d (kingdom_of l) = Some order" by (cases "dict_get d (kingdom_of l)") (auto simp: dict_get_None_iff)
  let ?d = "dict_set (kingdom_of l) (order @ [shine_of l]) d"
  have keys: "dict_keys ?d = dict_keys d"
    using Cons.prems by (intro dict_keys_set) simp
  then have "list_all (\<lambda>l. split_location l = Some (kingdom_of l, shine_of l) \<and> kingdom_of l \<in> set (dict_keys ?d)) ls"
    using Cons.prems by simp
  from Cons.IH [OF this] obtain d' where d': "project_order ls ?d = Inr d'" "dict_keys d' = dict_keys ?d"
    "\<forall>k. dict_get_or d' k [] = dict_get_or ?d k [] @ map shine_of (filter (\<lambda>l. kingdom_of l = k) ls)" by blast
  have "project_one l d = Inr ?d" using Cons.prems o by (simp add: project_one_def)
  then show ?case using d' o keys by (auto simp: dict_get_or_def)
qed simp

lemma empty_orders: "dict_get_or (map (\<lambda>(k, _). (k, [])) d) k [] = []"
  by (induction d) (auto simp: dict_get_or_def)

lemma build_cases:
  assumes "build_talkatoo_order can_reach collect sweep fresh ls P r = res"
  defines "st \<equiv> start_state sweep fresh (set (pool_names ls P))"
  obtains (empty) "pool_names ls P = []" "res = Inr []"
  | (stuck) pool r' e where "mset pool = mset (pool_names ls P)" "res = Inl e"
      "find_safe_permutation_with_oracle can_reach collect pool r' st = None"
  | (order) g d where "mset g = mset (pool_names ls P)" "playable can_reach collect g st" "res = Inr d"
      "\<forall>k. dict_get_or d k [] = map shine_of (filter (\<lambda>l. kingdom_of l = k) g)"
      "set (dict_keys d) = kingdom_of ` set (pool_names ls P)"
proof -
  let ?pool = "collect_pool_per_kingdom ls P"
  let ?all = "concat (map snd ?pool)"
  have spec: "mset ?all = mset (pool_names ls P)" "fst ` set ?pool = kingdom_of ` set (pool_names ls P)"
    using pool_spec [of ls P] by auto
  then have sets: "set ?all = set (pool_names ls P)" by (metis set_mset_mset)
  show thesis
  proof (cases "?pool = []")
    case True
    then have "pool_names ls P = []" using spec(2) by simp
    then show thesis using assms(1) True empty by (simp add: build_talkatoo_order_def)
  next
    case False
    show thesis
    proof (cases "find_safe_permutation_with_oracle can_reach collect ?all r st")
      case None
      then have "res = Inl (order_error (length ?all) (length ?pool))"
        using assms(1) False sets by (simp add: build_talkatoo_order_def Let_def st_def)
      from stuck [OF spec(1) this None] show thesis .
    next
      case (Some g)
      from find_sound [OF Some] have g: "mset g = mset (pool_names ls P)" "playable can_reach collect g st"
        using spec(1) by auto
      then have "set g = set (pool_names ls P)" by (metis set_mset_mset)
      let ?d0 = "map (\<lambda>(k, _). (k, [] :: string list)) ?pool"
      have "dict_keys ?d0 = dict_keys ?pool" by (simp add: comp_def case_prod_unfold)
      with spec(2) have keys: "set (dict_keys ?d0) = kingdom_of ` set (pool_names ls P)" by (simp only: set_map)
      have "list_all (\<lambda>l. split_location l = Some (kingdom_of l, shine_of l) \<and> kingdom_of l \<in> set (dict_keys ?d0)) g"
        unfolding list_all_iff keys \<open>set g = set (pool_names ls P)\<close> by (auto simp: pool_names_def in_pool_split)
      from project_order_spec [OF this] obtain d where "project_order g ?d0 = Inr d" "dict_keys d = dict_keys ?d0"
        "\<forall>k. dict_get_or d k [] = map shine_of (filter (\<lambda>l. kingdom_of l = k) g)" by (auto simp: empty_orders)
      moreover from this(1) have "res = Inr d"
        using assms(1) Some sets False by (simp add: build_talkatoo_order_def Let_def st_def)
      ultimately show thesis using order g keys by metis
    qed
  qed
qed

section \<open>Properties\<close>

text \<open>C18 A Talkatoo order can be played: when the order is built, there is one order of all the pool moons in
  which each is reachable once those before it are collected, and each kingdom's list is exactly that order
  restricted to the kingdom.\<close>

theorem talkatoo_order_playable:
  assumes "build_talkatoo_order can_reach collect sweep fresh ls P r = Inr d"
  shows "\<exists>g. mset g = mset (pool_names ls P) \<and>
    playable can_reach collect g (start_state sweep fresh (set (pool_names ls P))) \<and>
    (\<forall>k. dict_get_or d k [] = map shine_of (filter (\<lambda>l. kingdom_of l = k) g))"
  using assms by (cases rule: build_cases) auto

theorem talkatoo_order_playable_witness:
  "\<exists>g. mset g = {#''Cap: A''#} \<and> playable (\<lambda>st l. True) (\<lambda>l st. st) g ()"
proof -
  let ?ls = "[\<lparr>loc_name = ''Cap: A'', loc_item = None\<rparr>]"
  have pool: "pool_names ?ls {} = [''Cap: A'']" by code_simp
  have "build_talkatoo_order (\<lambda>st l. True) (\<lambda>l st. st) (\<lambda>_ st. st) () ?ls {} \<lparr>rng_position = 0, rng_draws = id\<rparr> = Inr [(''Cap'', [''A''])]"
    by code_simp
  from talkatoo_order_playable [OF this] show ?thesis by (auto simp: pool start_state_def)
qed

text \<open>C4 The greedy validator is complete: for an oracle in which collecting more never makes a location
  unreachable, building fails only when the pool has no playable order at all, whatever the random choices.\<close>

theorem talkatoo_order_complete:
  assumes "growing_oracle can_reach collect"
    "build_talkatoo_order can_reach collect sweep fresh ls P r = Inl e" "mset p = mset (pool_names ls P)"
  shows "\<not> playable can_reach collect p (start_state sweep fresh (set (pool_names ls P)))"
proof
  let ?st = "start_state sweep fresh (set (pool_names ls P))"
  assume play: "playable can_reach collect p ?st"
  from assms(2) obtain pool r' where stuck: "mset pool = mset (pool_names ls P)"
    "find_safe_permutation_with_oracle can_reach collect pool r' ?st = None"
    by (cases rule: build_cases) auto
  from growing_oracle.greedy_complete [OF assms(1) play, of "[]" pool r'] stuck assms(3) show False by simp
qed

text \<open>The window check agrees with the greedy: an order the greedy finds passes the sphere-safety check for
  every window size, and window 1 is exactly playability.\<close>

theorem greedy_order_sphere_safe:
  "(find_safe_permutation_with_oracle can_reach collect locs r st = Some order \<longrightarrow> 0 < w \<longrightarrow>
      mset order = mset locs \<and> is_sphere_safe_with_oracle w can_reach collect order st) \<and>
   (is_sphere_safe_with_oracle 1 can_reach collect order st \<longleftrightarrow> playable can_reach collect order st)"
  using find_sound [of can_reach collect locs r st order] playable_safe [of can_reach collect order st]
    safe_playable [of can_reach collect order st] by auto

theorem greedy_order_sphere_safe_witness:
  "is_sphere_safe_with_oracle 3 (\<lambda>st l. l = ''a'' \<or> ''a'' \<in> set st) (\<lambda>l st. l # st) [''a'', ''b''] []"
proof -
  have "find_safe_permutation_with_oracle (\<lambda>st l. l = ''a'' \<or> ''a'' \<in> set st) (\<lambda>l st. l # st) [''b'', ''a'']
      \<lparr>rng_position = 0, rng_draws = id\<rparr> [] = Some [''a'', ''b'']" by code_simp
  with greedy_order_sphere_safe [of "\<lambda>st l. l = ''a'' \<or> ''a'' \<in> set st" "\<lambda>l st. l # st" "[''b'', ''a'']" _ "[]" "[''a'', ''b'']" 3]
  show ?thesis by simp
qed

end
