(* ===== verification/Rule_Oracle.thy ===== *)
theory Rule_Oracle
  imports Rule_Meaning Talkatoo_Order
begin

text \<open>
  The access rules as a reachability oracle: with requirement lists as rules, collecting more items
  never closes a location, so the greedy Talkatoo order is complete over them.
\<close>

section \<open>Requirement lists grow\<close>

lemma has_entry_grows:
  assumes "\<And>n. state_count env n st \<le> state_count env n st'"
  shows "(has_entry env st x = Inl e \<longrightarrow> has_entry env st' x = Inl e) \<and>
    (\<forall>b. has_entry env st x = Inr b \<longrightarrow> (\<exists>b'. has_entry env st' x = Inr b' \<and> (b \<longrightarrow> b')))"
  using assms by (auto simp: has_entry_def split: json.splits list.splits option.splits intro: order.trans)

lemma has_all_grows:
  assumes "\<And>n. state_count env n st \<le> state_count env n st'"
  shows "has_all env st xs = Inr b \<Longrightarrow> \<exists>b'. has_all env st' xs = Inr b' \<and> (b \<longrightarrow> b')"
proof (induction xs arbitrary: b)
  case (Cons x xs)
  then obtain c d where c: "has_entry env st x = Inr c" "has_all env st xs = Inr d" "b \<longleftrightarrow> c \<and> d"
    by (cases "has_entry env st x"; cases "has_all env st xs") auto
  from c(1) has_entry_grows [OF assms, of x] obtain c' where "has_entry env st' x = Inr c'" "c \<longrightarrow> c'" by blast
  moreover from Cons.IH [OF c(2)] obtain d' where "has_all env st' xs = Inr d'" "d \<longrightarrow> d'" by blast
  ultimately show ?case using c(3) by auto
qed auto

lemma require_list_grows:
  assumes "\<And>n. state_count env n st \<le> state_count env n st'"
  shows "check_require_list env st acc items = Inr True \<Longrightarrow> (acc \<longrightarrow> acc') \<Longrightarrow> check_require_list env st' acc' items = Inr True"
proof (induction items arbitrary: acc acc')
  case (Cons item items)
  show ?case
  proof (cases "or_group item")
    case None
    with Cons.prems(1) obtain b where b: "has_entry env st item = Inr b" "check_require_list env st (acc \<and> b) items = Inr True"
      by (cases "has_entry env st item") auto
    from b(1) has_entry_grows [OF assms, of item] obtain b' where b': "has_entry env st' item = Inr b'" "b \<longrightarrow> b'" by blast
    have "acc \<and> b \<longrightarrow> acc' \<and> b'" using Cons.prems(2) b'(2) by blast
    from Cons.IH [OF b(2) this] None b'(1) show ?thesis by simp
  next
    case (Some xs)
    with Cons.prems(1) obtain b where b: "has_all env st xs = Inr b" "b \<or> check_require_list env st acc items = Inr True"
      by (cases "has_all env st xs") (auto split: if_splits)
    from has_all_grows [OF assms b(1)] obtain b' where b': "has_all env st' xs = Inr b'" "b \<longrightarrow> b'" by blast
    show ?thesis
    proof (cases b')
      case False
      then have "check_require_list env st acc items = Inr True" using b(2) b'(2) by blast
      from Cons.IH [OF this Cons.prems(2)] show ?thesis using Some b' by simp
    qed (use Some b' in simp)
  qed
qed simp

section \<open>The oracle\<close>

text \<open>The state is the list of items collected, counted by name.\<close>

definition counting_env :: "(string, int) dict \<Rightarrow> (string \<times> string list) list \<Rightarrow> string list rule_env" where
  "counting_env counts table = \<lparr>item_counts = counts, item_table = table, state_count = (\<lambda>n st. int (count_list st n)),
     rule_function = (\<lambda>_. None), percent_count = (\<lambda>_ _. Inl ValueError)\<rparr>"

definition list_reach :: "(string, json list) dict \<Rightarrow> string list \<Rightarrow> string \<Rightarrow> bool" where
  "list_reach rules st l =
     (case dict_get rules l of None \<Rightarrow> True | Some items \<Rightarrow> check_require_list (counting_env [] []) st True items = Inr True)"

definition place_collect :: "(string, string) dict \<Rightarrow> string \<Rightarrow> string list \<Rightarrow> string list" where
  "place_collect placement l st = (case dict_get placement l of None \<Rightarrow> st | Some item \<Rightarrow> item # st)"

lemma count_collected:
  "count_list (fold (place_collect placement) xs st) n =
     count_list st n + size (filter_mset (\<lambda>l. dict_get placement l = Some n) (mset xs))"
  by (induction xs arbitrary: st) (auto simp: place_collect_def split: option.splits)

interpretation list_rules: growing_oracle "list_reach rules" "place_collect placement"
  for rules :: "(string, json list) dict" and placement :: "(string, string) dict"
proof
  fix xs ys st l
  assume sub: "mset xs \<subseteq># mset ys" and reach: "list_reach rules (fold (place_collect placement) xs st) l"
  let ?st = "fold (place_collect placement) xs st" and ?st' = "fold (place_collect placement) ys st"
  have "count_list ?st n \<le> count_list ?st' n" for n
    unfolding count_collected using sub by (intro add_left_mono size_mset_mono multiset_filter_mono)
  then have "state_count (counting_env [] []) n ?st \<le> state_count (counting_env [] []) n ?st'" for n
    by (simp add: counting_env_def)
  from require_list_grows [OF this, of True _ True] reach show "list_reach rules ?st' l"
    by (auto simp: list_reach_def split: option.splits)
qed

section \<open>Properties\<close>

text \<open>C2 A requirement string means what it spells: for a requirement whose items have countable names and
  whose calls return requirements, checking the string (replacing the calls, then the items, then AND and
  OR, converting to postfix and running the stack machine) yields exactly the truth value of the formula, with
  both operators at one precedence and associating to the left.\<close>

theorem requirement_string_meaning:
  assumes "list_all tok_ok (toks 0 e)" "\<forall>(f, a) \<in> set (calls_of (toks 0 e)). call_defined env st res f a"
    "\<forall>n \<in> set (items_of (toks 0 (inst_calls res e))). item_defined env n"
  shows "check_require_string env (requirement e) st =
    Inr (holds (item_sat env st) (\<lambda>f a. holds (item_sat env st) (\<lambda>_ _. False) (res f a)) e)"
  using assms by (rule check_require_tokens)

definition frog_env :: "string list rule_env" where
  "frog_env = (counting_env [(''Frog'', 1)] [])\<lparr>rule_function := (\<lambda>f. if f = ''MazeSkip'' then Some (\<lambda>args st. Inr (RBool True)) else None)\<rparr>"

theorem requirement_string_meaning_witness:
  "requirement (And True (Or False (Item ''Frog'') (Item ''Uproot:2'')) (Call ''MazeSkip'' '''')) = ''|Frog| or |Uproot:2| AND {MazeSkip()}'' \<and>
   check_require_string frog_env ''|Frog| or |Uproot:2| AND {MazeSkip()}'' [''Frog''] = Inr True \<and>
   check_require_string frog_env ''|Frog| or |Uproot:2| AND {MazeSkip()}'' [''Uproot''] = Inr False"
proof -
  let ?e = "And True (Or False (Item ''Frog'') (Item ''Uproot:2'')) (Call ''MazeSkip'' '''')"
  have s: "requirement ?e = ''|Frog| or |Uproot:2| AND {MazeSkip()}''" by code_simp
  have ok: "list_all tok_ok (toks 0 ?e)" by code_simp
  have call: "\<forall>(f, a) \<in> set (calls_of (toks 0 ?e)). call_defined frog_env st (\<lambda>_ _. Bit True) f a" for st
    by (simp add: paren_def call_defined_def frog_env_def func_text_def requirement_def)
  have items: "\<forall>n \<in> set (items_of (toks 0 (inst_calls (\<lambda>_ _. Bit True) ?e))). item_defined frog_env n" by code_simp
  have sat: "item_sat frog_env [''Frog''] ''Frog''" "\<not> item_sat frog_env [''Uproot''] ''Frog''" "\<not> item_sat frog_env [''Uproot''] ''Uproot:2''"
    by code_simp+
  note m = requirement_string_meaning [OF ok call items, unfolded s]
  show ?thesis unfolding m using s sat by simp
qed

text \<open>Two moons that ask for each other's item have no playable order, so building the order fails.\<close>

definition locked_rules :: "(string, json list) dict" where
  "locked_rules = [(''Cap: A'', [JStr ''Key B'']), (''Cap: B'', [JStr ''Key A''])]"

definition locked_items :: "(string, string) dict" where
  "locked_items = [(''Cap: A'', ''Key A''), (''Cap: B'', ''Key B'')]"

definition locked_locations :: "ap_location list" where
  "locked_locations = [\<lparr>loc_name = ''Cap: A'', loc_item = Some ''Key A''\<rparr>, \<lparr>loc_name = ''Cap: B'', loc_item = Some ''Key B''\<rparr>]"

lemma locked_fails:
  "build_talkatoo_order (list_reach locked_rules) (place_collect locked_items) (\<lambda>_ st. st) [] locked_locations {}
     \<lparr>rng_position = 0, rng_draws = id\<rparr> = Inl (order_error 2 1)"
  by code_simp

theorem talkatoo_order_complete_witness:
  "\<not> playable (list_reach locked_rules) (place_collect locked_items) [''Cap: B'', ''Cap: A'']
     (start_state (\<lambda>_ st. st) [] (set (pool_names locked_locations {})))"
  by (rule talkatoo_order_complete [OF list_rules.growing_oracle_axioms locked_fails])
    (simp add: pool_names_def locked_locations_def in_pool_def split_location_def split_kingdom_prefix_def is_prefix_char_def
      is_alpha_def strip_by_def is_space_def Let_def)

end
