(* ===== verification/Rule_Hooks.thy ===== *)
theory Rule_Hooks
  imports Rule_Meaning
begin

text \<open>
  \<open>hooks/Rules.py\<close> and the rule functions of \<open>Rules.py\<close>: what a call in a requirement
  string may name. \<open>KingdomMoons\<close> spells the leave-threshold of a kingdom as an OR-chain over the
  split of its moons into Multi-Moons and Power Moons. The multiworld's options, reachability and
  collection state are parameters; of the module globals a call may name only the rule functions are
  in the table.
\<close>

record 'st hook_env =
  he_counts :: "(string, int) dict"
  he_table :: "(string \<times> string list) list"
  he_count :: "string \<Rightarrow> 'st \<Rightarrow> int"
  he_reach_location :: "string \<Rightarrow> 'st \<Rightarrow> bool"
  he_reach_region :: "string \<Rightarrow> 'st \<Rightarrow> bool"
  he_option :: "string \<Rightarrow> int"
  he_rolled_gates :: "(string, int) dict option"
  he_percent :: "string \<Rightarrow> int \<Rightarrow> exn + int"
  he_item_value :: "string \<Rightarrow> 'st \<Rightarrow> exn + func_result"

section \<open>Helpers\<close>

definition is_option_enabled :: "'st hook_env \<Rightarrow> string \<Rightarrow> bool" where
  "is_option_enabled h name \<longleftrightarrow> 0 < he_option h name"

definition clamp :: "int \<Rightarrow> int \<Rightarrow> int \<Rightarrow> int" where
  "clamp v lo hi = (if v < lo then lo else if hi < v then hi else v)"

definition moon_name :: "string \<Rightarrow> string" where "moon_name kingdom = kingdom @ '' Kingdom Power Moon''"
definition multi_moon_name :: "string \<Rightarrow> string" where "multi_moon_name kingdom = kingdom @ '' Kingdom Multi-Moon''"

section \<open>KingdomMoons\<close>

text \<open>One clause: \<open>mm\<close> Multi-Moons and the Power Moons still missing.\<close>

definition clause_parts :: "string \<Rightarrow> int \<Rightarrow> int \<Rightarrow> string list" where
  "clause_parts kingdom mm pm_needed =
     (if mm = 1 then [item_text (multi_moon_name kingdom)]
      else if 1 < mm then [item_text (multi_moon_name kingdom @ '':'' @ show_int mm)] else []) @
     (if 0 < pm_needed then [item_text (moon_name kingdom @ '':'' @ show_int pm_needed)] else [])"

definition join_parts :: "string \<Rightarrow> string list \<Rightarrow> string" where
  "join_parts sep parts = (if length parts = 1 then hd parts else ''('' @ join sep parts @ '')'')"

fun moon_clauses :: "string \<Rightarrow> int \<Rightarrow> int \<Rightarrow> int list \<Rightarrow> string list \<Rightarrow> func_result + string list" where
  "moon_clauses kingdom n pm_pool [] clauses = Inr clauses"
| "moon_clauses kingdom n pm_pool (mm # mms) clauses =
     (let pm_needed = max 0 (n - 3 * mm); sub = clause_parts kingdom mm pm_needed
      in if pm_pool < pm_needed then moon_clauses kingdom n pm_pool mms clauses
         else if sub = [] then Inl (RBool True)
         else moon_clauses kingdom n pm_pool mms (clauses @ [join_parts '' AND '' sub]))"

definition kingdom_threshold :: "'st hook_env \<Rightarrow> string \<Rightarrow> int \<Rightarrow> int" where
  "kingdom_threshold h kingdom n =
     (case he_rolled_gates h of None \<Rightarrow> n | Some rolled \<Rightarrow> dict_get_or rolled kingdom n)"

definition kingdom_moons_int :: "'st hook_env \<Rightarrow> string \<Rightarrow> int \<Rightarrow> func_result" where
  "kingdom_moons_int h kingdom n =
     (let n = kingdom_threshold h kingdom n
      in if n \<le> 0 then RBool True
         else (let pm_pool = dict_get_or (he_counts h) (moon_name kingdom) 0;
                   mm_pool = dict_get_or (he_counts h) (multi_moon_name kingdom) 0
               in case moon_clauses kingdom n pm_pool [0..mm_pool] [] of
                    Inl r \<Rightarrow> r
                  | Inr clauses \<Rightarrow> if clauses = [] then RBool False else RText (join_parts '' OR '' clauses)))"

definition kingdom_moons :: "'st hook_env \<Rightarrow> string \<Rightarrow> string \<Rightarrow> func_result" where
  "kingdom_moons h kingdom n =
     (case py_int n of None \<Rightarrow> RBool False | Some n \<Rightarrow> kingdom_moons_int h (strip kingdom) n)"

section \<open>OptOne and OptAll\<close>

text \<open>\<open>s.isnumeric()\<close>.\<close>

definition is_numeric :: "string \<Rightarrow> bool" where "is_numeric s \<longleftrightarrow> s \<noteq> [] \<and> list_all is_digit s"

definition rstrip_bar :: "string \<Rightarrow> string" where
  "rstrip_bar s = rev (dropWhile (\<lambda>c. c = CHR ''|'') (rev s))"

definition opt_one :: "'st hook_env \<Rightarrow> string \<Rightarrow> string" where
  "opt_one h item =
     (if item = [] then []
      else (let category = CHR ''@'' \<in> set (take 2 item);
                item = rstrip_bar (dropWhile (\<lambda>c. c \<in> {CHR ''|'', CHR ''@'', CHR ''$''}) item);
                parts = split_on CHR '':'' item;
                name = (if 1 < length parts then parts ! 0 else item);
                cnt = (if 1 < length parts then parts ! 1 else ''1'');
                available = (if category
                  then (\<Sum>m\<leftarrow>map fst (filter (\<lambda>(n, cats). name \<in> set cats) (he_table h)). dict_get_or (he_counts h) m 0)
                  else dict_get_or (he_counts h) name 0);
                cnt = (if is_numeric cnt then show_int (clamp (int (digits_value 0 cnt)) 0 available) else cnt)
            in ''|'' @ (if category then ''@'' else []) @ name @ '':'' @ cnt @ ''|''))"

text \<open>The calls inside the argument are set aside while the items are rewritten; a name seen twice keeps
  its last argument, and every call is put back under the name and argument seen last.\<close>

definition opt_all :: "'st hook_env \<Rightarrow> string \<Rightarrow> func_result" where
  "opt_all h requires =
     (if requires = [] then RBool True
      else (let calls = find_calls requires;
                functions = dict_update_all calls [];
                aside = foldl (\<lambda>s f. replace_all (call_text f) (call_text (fst f, ''temp'')) s) requires calls;
                items = foldl (\<lambda>s n. replace_all (item_text n) (opt_one h (item_text n)) s) aside (find_items requires)
            in RText (foldl (\<lambda>s f. replace_all (call_text (fst f, ''temp''))
                 (call_text (fst (last calls), dict_get_or functions (fst (last calls)) [])) s) items functions)))"

section \<open>Item values\<close>

text \<open>\<open>world.item_values_cache[player]\<close>: the collected items it was computed for, and a total per value.
  \<open>values\<close> are the items that carry a value, \<open>items\<close> the items collected.\<close>

record value_cache =
  vc_state :: "(string, int) dict"
  vc_count :: "(string, int) dict"

definition value_total :: "(string, int) dict \<Rightarrow> (string, int) dict \<Rightarrow> int" where
  "value_total values items =
     (\<Sum>(name, v)\<leftarrow>values. let c = dict_get_or items name 0 in if 0 < c then c * v else 0)"

definition item_value ::
  "(string \<Rightarrow> (string, int) dict) \<Rightarrow> string \<Rightarrow> (string, int) dict \<Rightarrow> value_cache \<Rightarrow> value_cache \<times> (exn + bool)" where
  "item_value values args items cache =
     (case split_on CHR '':'' args of
        [v, n] \<Rightarrow>
          if \<not> is_numeric n then (cache, Inl (GenericException (''ItemValue needs a number after : so it looks something like '' @
              [CHR 39] @ ''ItemValue('' @ v @ '':12)'' @ [CHR 39])))
          else (let v = strip (lower v);
                    cache = (if dict_get (vc_count cache) v = None \<or> vc_state cache \<noteq> items
                             then cache\<lparr>vc_count := dict_set v (value_total (values v) items) (vc_count cache), vc_state := items\<rparr>
                             else cache)
                in (cache, Inr (int (digits_value 0 n) \<le> dict_get_or (vc_count cache) v 0)))
      | parts \<Rightarrow> (cache, Inl (GenericException (''ItemValue needs a number after : so it looks something like '' @
              [CHR 39] @ ''ItemValue('' @ hd parts @ '':12)'' @ [CHR 39]))))"

section \<open>The table of functions\<close>

definition always_true :: "string list" where
  "always_true =
    [''BulletBillSkip'', ''BulletBillSmallSkip'', ''BulletBillMaze'', ''SwimOrCheepCheep'', ''SwimOrCapJump'',
     ''CheepCheepOrGroundPound'', ''MazeSkip'', ''ShermOrLongJump'', ''PostNightMetro'', ''PostTrumpeter'',
     ''FromTheTopOfTheTower'', ''WallJumpOrPole'', ''TyfooOrScaleATallWall'', ''PostEarlyLuncheon'',
     ''ClimbToTheMeat'', ''JumpHigh'', ''ScaleAWall'', ''ScaleAWallNoTripleJump'', ''NiceFrame'',
     ''ParabonesSkip'', ''RegionalCap'', ''RegionalCascade'', ''RegionalSand'', ''RegionalLake'',
     ''RegionalWooded'', ''RegionalLost'', ''RegionalMetro'', ''RegionalSnow'', ''RegionalSeaside'',
     ''RegionalLuncheon'', ''RegionalBowser'', ''RegionalMoon'', ''Meat'', ''UprootOrFireBro'', ''Lighthouse'']"

definition nullary :: "('st \<Rightarrow> func_result) \<Rightarrow> string list \<Rightarrow> 'st \<Rightarrow> exn + func_result" where
  "nullary f args st = (if args = [] then Inr (f st) else Inl TypeError)"

definition unary :: "(string \<Rightarrow> 'st \<Rightarrow> exn + func_result) \<Rightarrow> string list \<Rightarrow> 'st \<Rightarrow> exn + func_result" where
  "unary f args st = (case args of [a] \<Rightarrow> f a st | _ \<Rightarrow> Inl TypeError)"

definition binary :: "(string \<Rightarrow> string \<Rightarrow> 'st \<Rightarrow> exn + func_result) \<Rightarrow> string list \<Rightarrow> 'st \<Rightarrow> exn + func_result" where
  "binary f args st = (case args of [a, b] \<Rightarrow> f a b st | _ \<Rightarrow> Inl TypeError)"

definition peace_locations :: "(string, string) dict" where
  "peace_locations =
     [(''CascadePeace'', ''Cascade: Multi Moon Atop the Falls''), (''SandPeace'', ''Sand: The Hole in the Desert''),
      (''LakePeace'', ''Lake: Broodals Over the Lake''), (''WoodedPeace'', ''Wooded: Defend the Secret Flower Field!''),
      (''MetroPeace'', ''Metro: A Traditional Festival!''), (''SnowPeace'', ''Snow: The Bound Bowl Grand Prix''),
      (''SeasidePeace'', ''Seaside: The Glass Is Half Full!''), (''LuncheonPeace'', ''Luncheon: Cookatiel Showdown!''),
      (''RuinedPeace'', ''Ruined: Battle with the Lord of Lightning!''),
      (''BowserPeace'', ''Bowser'' @ [CHR 39] @ ''s: Showdown at Bowser'' @ [CHR 39] @ ''s Castle'')]"

definition peace_thresholds :: "(string, string \<times> int) dict" where
  "peace_thresholds = [(''CascadeDeparture'', (''Cascade'', 5)), (''CloudPeace'', (''Lost'', 10)), (''LostPeace'', (''Lost'', 10))]"

definition hook_function :: "'st hook_env \<Rightarrow> string \<Rightarrow> (string list \<Rightarrow> 'st \<Rightarrow> exn + func_result) option" where
  "hook_function h name =
     (if name \<in> set always_true then Some (nullary (\<lambda>st. RBool True))
      else case dict_get peace_locations name of
        Some l \<Rightarrow> Some (nullary (\<lambda>st. RBool (he_reach_location h l st)))
      | None \<Rightarrow>
          case dict_get peace_thresholds name of
            Some (k, n) \<Rightarrow> Some (nullary (\<lambda>st. kingdom_moons_int h k n))
          | None \<Rightarrow>
              if name = ''CapPeace'' then
                Some (nullary (\<lambda>st. if is_option_enabled h ''start_at_cap_peace'' then RBool True
                                    else kingdom_moons_int h ''Cascade'' 5))
              else if name = ''MoonPeace'' then Some (nullary (\<lambda>st. RBool (he_reach_region h ''Mushroom Kingdom'' st)))
              else if name = ''SnowSeasidePeace'' then
                Some (nullary (\<lambda>st. RBool (he_reach_location h ''Snow: The Bound Bowl Grand Prix'' st \<or>
                                          he_reach_location h ''Seaside: The Glass Is Half Full!'' st)))
              else if name = ''KingdomMoons'' then Some (binary (\<lambda>k n st. Inr (kingdom_moons h k n)))
              else if name = ''canReachLocation'' then Some (unary (\<lambda>l st. Inr (RBool (he_reach_location h l st))))
              else if name = ''canReachRegion'' then Some (unary (\<lambda>r st. Inr (RBool (he_reach_region h r st))))
              else if name = ''ItemValue'' then Some (unary (he_item_value h))
              else if name = ''OptOne'' then Some (unary (\<lambda>i st. Inr (RText (opt_one h i))))
              else if name = ''OptAll'' then Some (unary (\<lambda>r st. Inr (opt_all h r)))
              else if name = ''YamlEnabled'' then Some (unary (\<lambda>p st. Inr (RBool (is_option_enabled h p))))
              else if name = ''YamlDisabled'' then Some (unary (\<lambda>p st. Inr (RBool (\<not> is_option_enabled h p))))
              else None)"

definition world_env :: "'st hook_env \<Rightarrow> 'st rule_env" where
  "world_env h = \<lparr>item_counts = he_counts h, item_table = he_table h, state_count = he_count h,
     rule_function = hook_function h, percent_count = he_percent h\<rparr>"

end
