(* ===== verification/World_Options.thy ===== *)
theory World_Options
  imports Rule_Hooks
begin

text \<open>
  \<open>Helpers.py\<close> and \<open>hooks/Helpers.py\<close>: which categories, items and locations the options leave enabled,
  over the rows of \<open>locations.json\<close> as \<open>Locations.py\<close> completes them. Option values are an argument.
\<close>

section \<open>Rows\<close>

text \<open>A row of \<open>locations.json\<close>; a flag that is absent is false.\<close>

record location_data =
  ld_name :: string
  ld_region :: string
  ld_requires :: "requires option"
  ld_category :: "string list"
  ld_filler_only :: bool
  ld_junk_only :: bool
  ld_multi_moon :: bool
  ld_moon_postwin :: bool
  ld_victory :: bool
  ld_progression :: bool

text \<open>\<open>categories.json\<close>: the options of a category; a category without \<open>yaml_option\<close> has none.\<close>

type_synonym category_options = "(string, string list) dict"

section \<open>Enabled categories, items and locations\<close>

definition shared_peace_category :: string where "shared_peace_category = ''Snow/Seaside Peace''"

definition before_is_category_enabled :: "(string \<Rightarrow> int) \<Rightarrow> string \<Rightarrow> bool option" where
  "before_is_category_enabled opt category =
     (if category = shared_peace_category
      then Some (0 < opt ''include_snow_peace_moons'' \<or> 0 < opt ''include_seaside_peace_moons'')
      else None)"

definition before_is_item_enabled :: "string list \<Rightarrow> bool option" where
  "before_is_item_enabled category = None"

definition before_is_location_enabled :: "string list \<Rightarrow> bool option" where
  "before_is_location_enabled category = (if ''Capture'' \<in> set category then Some False else None)"

fun options_met :: "(string \<Rightarrow> int) \<Rightarrow> string list \<Rightarrow> bool" where
  "options_met opt [] = True"
| "options_met opt (option_name # names) =
     (let required = \<not> starts_with ''!'' option_name;
          name = (if required then option_name else tl option_name)
      in if (0 < opt name) \<noteq> required then False else options_met opt names)"

definition is_category_enabled :: "(string \<Rightarrow> int) \<Rightarrow> category_options \<Rightarrow> string \<Rightarrow> bool" where
  "is_category_enabled opt table category =
     (case before_is_category_enabled opt category of
        Some b \<Rightarrow> b
      | None \<Rightarrow> options_met opt (dict_get_or table category []))"

definition is_smoobject_enabled :: "(string \<Rightarrow> int) \<Rightarrow> category_options \<Rightarrow> string list \<Rightarrow> bool" where
  "is_smoobject_enabled opt table category = list_all (is_category_enabled opt table) category"

definition is_item_enabled :: "(string \<Rightarrow> int) \<Rightarrow> category_options \<Rightarrow> string list \<Rightarrow> bool" where
  "is_item_enabled opt table category =
     or_default (before_is_item_enabled category) (is_smoobject_enabled opt table category)"

definition is_location_enabled :: "(string \<Rightarrow> int) \<Rightarrow> category_options \<Rightarrow> location_data \<Rightarrow> bool" where
  "is_location_enabled opt table location =
     or_default (before_is_location_enabled (ld_category location)) (is_smoobject_enabled opt table (ld_category location))"

section \<open>Lemmas\<close>

lemma options_met_iff:
  "options_met opt names \<longleftrightarrow> list_all (\<lambda>n. if starts_with ''!'' n then opt (tl n) \<le> 0 else 0 < opt n) names"
  by (induction names) (auto simp: Let_def)

lemma is_location_enabled_iff:
  "is_location_enabled opt table l \<longleftrightarrow> ''Capture'' \<notin> set (ld_category l) \<and> is_smoobject_enabled opt table (ld_category l)"
  by (simp add: is_location_enabled_def before_is_location_enabled_def)

end
