(* ===== verification/Kingdom_Gates.thy ===== *)
theory Kingdom_Gates
  imports Py_Random
begin

text \<open>
  \<open>kingdom_gates.py\<close>: the moon capacity of the item pool per kingdom, and the roll of the
  leave-thresholds as a walk that moves requirements between kingdoms inside their windows.
\<close>

definition gate_randomize_spread :: int where "gate_randomize_spread = 5"
definition walk_steps_per_kingdom :: nat where "walk_steps_per_kingdom = 16"

definition pool_gate_capacities :: "string list \<Rightarrow> string list \<Rightarrow> (string, int) dict" where
  "pool_gate_capacities names kingdoms =
     dict_update_all (map (\<lambda>kingdom.
        (kingdom, 3 * int (count_list names (kingdom @ '' Kingdom Multi-Moon'')) +
                  int (count_list names (kingdom @ '' Kingdom Power Moon'')))) kingdoms) []"

text \<open>The window of a kingdom; a capacity that is absent does not clamp.\<close>

definition gate_lo :: "int \<Rightarrow> int" where
  "gate_lo vanilla = max 1 (vanilla - gate_randomize_spread)"

definition gate_hi :: "int \<Rightarrow> int option \<Rightarrow> int" where
  "gate_hi vanilla cap =
     (let k_hi = vanilla + gate_randomize_spread in case cap of None \<Rightarrow> k_hi | Some n \<Rightarrow> min k_hi n)"

record gate_table =
  gate_los :: "(string, int) dict"
  gate_his :: "(string, int) dict"
  gate_values :: "(string, int) dict"
  gate_walkers :: "string list"

definition start_gate :: "(string, int) dict \<Rightarrow> string \<times> int \<Rightarrow> gate_table \<Rightarrow> gate_table" where
  "start_gate capacities kv t =
     (case kv of (kingdom, vanilla) \<Rightarrow>
        let k_lo = gate_lo vanilla; k_hi = gate_hi vanilla (dict_get capacities kingdom)
        in if k_hi < k_lo then t\<lparr>gate_values := dict_set kingdom (max 1 k_hi) (gate_values t)\<rparr>
           else t\<lparr>gate_los := dict_set kingdom k_lo (gate_los t), gate_his := dict_set kingdom k_hi (gate_his t),
                  gate_values := dict_set kingdom (if k_lo \<le> vanilla \<and> vanilla \<le> k_hi then vanilla else k_hi) (gate_values t),
                  gate_walkers := gate_walkers t @ [kingdom]\<rparr>)"

definition start_gates :: "(string, int) dict \<Rightarrow> (string, int) dict \<Rightarrow> gate_table" where
  "start_gates base_gates capacities =
     fold (start_gate capacities) base_gates \<lparr>gate_los = [], gate_his = [], gate_values = [], gate_walkers = []\<rparr>"

text \<open>One transfer: \<open>d[k]\<close> of a key that is present.\<close>

definition at :: "(string, int) dict \<Rightarrow> string \<Rightarrow> int" where "at d k = the (dict_get d k)"

definition transfer :: "string \<Rightarrow> string \<Rightarrow> gate_table \<Rightarrow> gate_table" where
  "transfer a b t =
     (if a = b then t
      else if at (gate_values t) a < at (gate_his t) a \<and> at (gate_los t) b < at (gate_values t) b
      then t\<lparr>gate_values := dict_set b (at (gate_values t) b - 1) (dict_set a (at (gate_values t) a + 1) (gate_values t))\<rparr>
      else t)"

fun walk :: "nat \<Rightarrow> gate_table \<Rightarrow> rng \<Rightarrow> gate_table \<times> rng" where
  "walk 0 t r = (t, r)"
| "walk (Suc n) t r =
     (case randint 0 (int (length (gate_walkers t)) - 1) r of
        (i, r) \<Rightarrow>
          (case randint 0 (int (length (gate_walkers t)) - 1) r of
             (j, r) \<Rightarrow> walk n (transfer (gate_walkers t ! nat i) (gate_walkers t ! nat j) t) r))"

definition roll_kingdom_gates ::
  "(string, int) dict \<Rightarrow> (string, int) dict \<Rightarrow> rng \<Rightarrow> (string, int) dict \<times> rng" where
  "roll_kingdom_gates base_gates capacities r =
     (let t = start_gates base_gates capacities
      in if 2 \<le> length (gate_walkers t)
         then (case walk (walk_steps_per_kingdom * length (gate_walkers t)) t r of (t, r) \<Rightarrow> (gate_values t, r))
         else (gate_values t, r))"

section \<open>Lemmas\<close>

text \<open>The value a kingdom starts with.\<close>

definition start_value :: "(string, int) dict \<Rightarrow> string \<Rightarrow> int \<Rightarrow> int" where
  "start_value capacities kingdom vanilla =
     (let k_lo = gate_lo vanilla; k_hi = gate_hi vanilla (dict_get capacities kingdom)
      in if k_hi < k_lo then max 1 k_hi else if k_lo \<le> vanilla \<and> vanilla \<le> k_hi then vanilla else k_hi)"

text \<open>The shape of a table: its kingdoms, the windows of its walkers and the values inside them.\<close>

definition gate_ok :: "(string, int) dict \<Rightarrow> gate_table \<Rightarrow> string \<Rightarrow> int \<Rightarrow> bool" where
  "gate_ok capacities t k v \<longleftrightarrow>
     (let hi = gate_hi v (dict_get capacities k)
      in if hi < gate_lo v then k \<notin> set (gate_walkers t) \<and> dict_get (gate_values t) k = Some (max 1 hi)
         else dict_get (gate_los t) k = Some (gate_lo v) \<and> dict_get (gate_his t) k = Some hi \<and>
           gate_lo v \<le> at (gate_values t) k \<and> at (gate_values t) k \<le> hi)"

definition window_ok :: "(string, int) dict \<Rightarrow> (string, int) dict \<Rightarrow> gate_table \<Rightarrow> bool" where
  "window_ok base capacities t \<longleftrightarrow>
     dict_keys (gate_values t) = dict_keys base \<and> set (gate_walkers t) \<subseteq> set (dict_keys base) \<and>
     (\<forall>(k, v) \<in> set base. gate_ok capacities t k v)"

definition total_gate :: "(string, int) dict \<Rightarrow> int" where
  "total_gate d = (\<Sum>v\<leftarrow>map snd d. v)"

lemma total_gate_set:
  "dict_ok d \<Longrightarrow> dict_get d k = Some v \<Longrightarrow> total_gate (dict_set k w d) = total_gate d + w - v"
  using sum_values_set [of d "\<lambda>v. v" k w] by (simp add: total_gate_def)

lemma transfer_total:
  assumes "dict_ok (gate_values t)" "a \<in> set (dict_keys (gate_values t))" "b \<in> set (dict_keys (gate_values t))"
  shows "total_gate (gate_values (transfer a b t)) = total_gate (gate_values t)"
proof -
  obtain x y where "dict_get (gate_values t) a = Some x" "dict_get (gate_values t) b = Some y"
    using assms(2,3) by (metis dict_get_None_iff not_None_eq)
  then show ?thesis using assms(1)
    by (auto simp: transfer_def at_def total_gate_set)
qed

lemma transfer_fields [simp]:
  "gate_walkers (transfer a b t) = gate_walkers t" "gate_los (transfer a b t) = gate_los t"
  "gate_his (transfer a b t) = gate_his t"
  by (simp_all add: transfer_def)

lemma transfer_window:
  assumes "window_ok base capacities t" "a \<in> set (gate_walkers t)" "b \<in> set (gate_walkers t)"
  shows "window_ok base capacities (transfer a b t)"
proof (cases "a \<noteq> b \<and> at (gate_values t) a < at (gate_his t) a \<and> at (gate_los t) b < at (gate_values t) b")
  case True
  let ?v = "dict_set b (at (gate_values t) b - 1) (dict_set a (at (gate_values t) a + 1) (gate_values t))"
  have t: "transfer a b t = t\<lparr>gate_values := ?v\<rparr>" using True by (simp add: transfer_def)
  have keys: "a \<in> set (dict_keys (gate_values t))" "b \<in> set (dict_keys (gate_values t))"
    using assms unfolding window_ok_def by auto
  then have "dict_keys ?v = dict_keys (gate_values t)" using keys by (simp add: dict_keys_set)
  then show ?thesis
    using assms True unfolding window_ok_def t
    by (fastforce simp: at_def gate_ok_def Let_def split: if_splits)
qed (use assms in \<open>auto simp: transfer_def\<close>)

lemma walk_keeps:
  assumes "window_ok base capacities t" "dict_ok base" "gate_walkers t \<noteq> []"
  shows "window_ok base capacities (fst (walk n t r)) \<and>
    total_gate (gate_values (fst (walk n t r))) = total_gate (gate_values t)"
  using assms
proof (induction n arbitrary: t r)
  case (Suc n)
  let ?h = "int (length (gate_walkers t)) - 1"
  obtain i r1 where i: "randint 0 ?h r = (i, r1)" by fastforce
  obtain j r2 where j: "randint 0 ?h r1 = (j, r2)" by fastforce
  have "nat i < length (gate_walkers t)" "nat j < length (gate_walkers t)"
    using randint_bounds [of 0 ?h r] randint_bounds [of 0 ?h r1] i j Suc.prems(3) by (auto simp: Suc_leI)
  then have w: "gate_walkers t ! nat i \<in> set (gate_walkers t)" "gate_walkers t ! nat j \<in> set (gate_walkers t)" by simp_all
  let ?t = "transfer (gate_walkers t ! nat i) (gate_walkers t ! nat j) t"
  have win: "window_ok base capacities ?t" by (rule transfer_window [OF Suc.prems(1) w])
  have "total_gate (gate_values ?t) = total_gate (gate_values t)"
    using Suc.prems(1,2) w by (intro transfer_total) (auto simp: window_ok_def)
  then show ?case using Suc.IH [OF win Suc.prems(2)] Suc.prems(3) i j by simp
qed simp

text \<open>The table before the walk.\<close>

lemma start_gate_fields:
  "k \<notin> set (dict_keys (gate_values t)) \<Longrightarrow>
   gate_values (start_gate capacities (k, v) t) = gate_values t @ [(k, start_value capacities k v)]"
  "set (gate_walkers (start_gate capacities (k, v) t)) \<subseteq> insert k (set (gate_walkers t))"
  using dict_set_new [of k "gate_values t"] by (auto simp: start_gate_def start_value_def Let_def)

lemma start_gate_other: "gate_ok capacities t j w \<Longrightarrow> j \<noteq> k \<Longrightarrow> gate_ok capacities (start_gate capacities (k, v) t) j w"
  by (auto simp: gate_ok_def start_gate_def Let_def at_def split: if_splits)

lemma start_gate_new:
  "k \<notin> set (gate_walkers t) \<Longrightarrow> dict_get (gate_values t) k = None \<Longrightarrow> gate_ok capacities (start_gate capacities (k, v) t) k v"
  by (auto simp: gate_ok_def start_gate_def Let_def at_def)

lemma start_gate_window:
  assumes "window_ok base capacities t" "k \<notin> set (dict_keys base)"
  shows "window_ok (base @ [(k, v)]) capacities (start_gate capacities (k, v) t)"
proof -
  have k: "k \<notin> set (dict_keys (gate_values t))" "k \<notin> set (gate_walkers t)"
    using assms by (auto simp: window_ok_def)
  then have "gate_ok capacities (start_gate capacities (k, v) t) k v"
    by (intro start_gate_new) (simp_all add: dict_get_None_iff)
  moreover have "gate_ok capacities (start_gate capacities (k, v) t) j w" if "(j, w) \<in> set base" for j w
    using that assms by (intro start_gate_other) (force simp: window_ok_def)+
  ultimately show ?thesis
    using assms(1) start_gate_fields(1) [OF k(1), of capacities v] start_gate_fields(2) [of capacities k v t]
    by (auto simp: window_ok_def)
qed

lemma start_gates_shape:
  assumes "dict_ok base"
  shows "gate_values (start_gates base capacities) = map (\<lambda>(k, v). (k, start_value capacities k v)) base \<and>
    window_ok base capacities (start_gates base capacities)"
  using assms unfolding start_gates_def
proof (induction base rule: rev_induct)
  case (snoc kv base)
  obtain k v where kv: "kv = (k, v)" by fastforce
  let ?t = "fold (start_gate capacities) base \<lparr>gate_los = [], gate_his = [], gate_values = [], gate_walkers = []\<rparr>"
  from snoc have IH: "gate_values ?t = map (\<lambda>(k, v). (k, start_value capacities k v)) base" "window_ok base capacities ?t"
    and k: "k \<notin> set (dict_keys base)" by (auto simp: kv)
  then have "k \<notin> set (dict_keys (gate_values ?t))" by (auto simp: window_ok_def)
  from start_gate_fields(1) [OF this, of capacities v] start_gate_window [OF IH(2) k, of v] IH(1)
  show ?case by (simp add: kv)
qed (simp add: window_ok_def)

lemma roll_table:
  assumes "dict_ok base"
  obtains t where "window_ok base capacities t" "fst (roll_kingdom_gates base capacities r) = gate_values t"
    "total_gate (gate_values t) = (\<Sum>(k, v)\<leftarrow>base. start_value capacities k v)"
proof -
  let ?s = "start_gates base capacities"
  have s: "gate_values ?s = map (\<lambda>(k, v). (k, start_value capacities k v)) base" "window_ok base capacities ?s"
    using start_gates_shape [OF assms] by auto
  have total: "total_gate (gate_values ?s) = (\<Sum>(k, v)\<leftarrow>base. start_value capacities k v)"
    by (simp add: s(1) total_gate_def comp_def case_prod_unfold)
  show thesis
  proof (cases "2 \<le> length (gate_walkers ?s)")
    case True
    then have "gate_walkers ?s \<noteq> []" by auto
    note keeps = walk_keeps [OF s(2) assms this, of "walk_steps_per_kingdom * length (gate_walkers ?s)" r]
    show thesis
    proof (rule that [OF conjunct1 [OF keeps] _ trans [OF conjunct2 [OF keeps] total]])
      show "fst (roll_kingdom_gates base capacities r) =
          gate_values (fst (walk (walk_steps_per_kingdom * length (gate_walkers ?s)) ?s r))"
        using True by (simp add: roll_kingdom_gates_def Let_def case_prod_unfold)
    qed
  next
    case False
    with that [OF s(2) _ total] show thesis by (simp add: roll_kingdom_gates_def Let_def)
  qed
qed

lemma roll_bounds:
  assumes "dict_ok base"
  shows "let gates = fst (roll_kingdom_gates base capacities r)
    in dict_keys gates = dict_keys base \<and>
       (\<forall>(k, v) \<in> set base. let hi = gate_hi v (dict_get capacities k); g = at gates k
          in 1 \<le> g \<and> (if hi < gate_lo v then g = max 1 hi else gate_lo v \<le> g \<and> g \<le> hi))"
proof -
  obtain t where t: "window_ok base capacities t" "fst (roll_kingdom_gates base capacities r) = gate_values t"
    by (rule roll_table [OF assms])
  have "gate_ok capacities t k v" if "(k, v) \<in> set base" for k v using t(1) that by (auto simp: window_ok_def)
  moreover have "1 \<le> gate_lo v" for v by (simp add: gate_lo_def)
  ultimately have "let hi = gate_hi v (dict_get capacities k); g = at (gate_values t) k
      in 1 \<le> g \<and> (if hi < gate_lo v then g = max 1 hi else gate_lo v \<le> g \<and> g \<le> hi)" if "(k, v) \<in> set base" for k v
    using that unfolding gate_ok_def Let_def at_def by (smt (verit) option.sel)
  with t show ?thesis by (auto simp: window_ok_def Let_def)
qed

lemma capacity_of:
  "k \<in> set ks \<Longrightarrow> dict_get (pool_gate_capacities names ks) k =
     Some (3 * int (count_list names (k @ '' Kingdom Multi-Moon'')) + int (count_list names (k @ '' Kingdom Power Moon'')))"
proof -
  assume "k \<in> set ks"
  have "map_of (map (\<lambda>k. (k, g k)) xs) k = (if k \<in> set xs then Some (g k) else None)" for g :: "string \<Rightarrow> int" and xs
    by (induction xs) auto
  with \<open>k \<in> set ks\<close> show ?thesis
    unfolding pool_gate_capacities_def by (simp add: dict_get_update_all rev_map)
qed

lemma roll_total:
  assumes "dict_ok base"
  shows "total_gate (fst (roll_kingdom_gates base capacities r)) = (\<Sum>(k, v)\<leftarrow>base. start_value capacities k v) \<and>
    ((\<forall>(k, v) \<in> set base. 1 \<le> v \<and> (\<forall>n. dict_get capacities k = Some n \<longrightarrow> v \<le> n)) \<longrightarrow>
       total_gate (fst (roll_kingdom_gates base capacities r)) = total_gate base)"
proof -
  have total: "total_gate (fst (roll_kingdom_gates base capacities r)) = (\<Sum>(k, v)\<leftarrow>base. start_value capacities k v)"
    using roll_table [OF assms] by metis
  have "(\<Sum>(k, v)\<leftarrow>base. start_value capacities k v) = total_gate base"
    if ok: "\<forall>(k, v) \<in> set base. 1 \<le> v \<and> (\<forall>n. dict_get capacities k = Some n \<longrightarrow> v \<le> n)"
  proof -
    have "start_value capacities k v = v" if "(k, v) \<in> set base" for k v
      using ok that by (auto simp: start_value_def gate_lo_def gate_hi_def gate_randomize_spread_def Let_def split: option.splits)
    then show ?thesis unfolding total_gate_def by (intro arg_cong [where f = sum_list] map_cong) auto
  qed
  with total show ?thesis by simp
qed

section \<open>Properties\<close>

text \<open>C21 Every rolled gate is within its bounds: whatever the random numbers, each kingdom of the table gets
  exactly one gate, at least 1, at most 5 from the vanilla one and at most the capacity of the pool, unless
  the capacity lies below that window, in which case the gate is the capacity (at least 1).\<close>

theorem rolled_gates_bounded:
  assumes "dict_ok base"
  shows "let gates = fst (roll_kingdom_gates base capacities r)
    in dict_keys gates = dict_keys base \<and>
       (\<forall>(k, v) \<in> set base. let hi = gate_hi v (dict_get capacities k); g = at gates k
          in 1 \<le> g \<and> (if hi < gate_lo v then g = max 1 hi else gate_lo v \<le> g \<and> g \<le> hi))"
  using assms by (rule roll_bounds)

theorem rolled_gates_bounded_witness:
  "let gates = fst (roll_kingdom_gates [(''Cascade'', 5), (''Sand'', 16), (''Metro'', 20)] [(''Metro'', 0)]
       \<lparr>rng_position = 0, rng_draws = (\<lambda>n. n * n)\<rparr>)
    in dict_keys gates = [''Cascade'', ''Sand'', ''Metro''] \<and> at gates ''Metro'' = 1 \<and> at gates ''Cascade'' \<le> 10"
  using rolled_gates_bounded [of "[(''Cascade'', 5), (''Sand'', 16), (''Metro'', 20)]" "[(''Metro'', 0)]"]
  by (simp add: Let_def gate_hi_def gate_lo_def gate_randomize_spread_def)

text \<open>The walk keeps the total: the sum of the rolled gates is the sum of the start values, that is of the
  vanilla gates as long as every kingdom's capacity reaches its vanilla gate.\<close>

theorem rolled_gates_total:
  assumes "dict_ok base"
  shows "total_gate (fst (roll_kingdom_gates base capacities r)) = (\<Sum>(k, v)\<leftarrow>base. start_value capacities k v) \<and>
    ((\<forall>(k, v) \<in> set base. 1 \<le> v \<and> (\<forall>n. dict_get capacities k = Some n \<longrightarrow> v \<le> n)) \<longrightarrow>
       total_gate (fst (roll_kingdom_gates base capacities r)) = total_gate base)"
  by (rule roll_total [OF assms])

theorem rolled_gates_total_witness:
  "total_gate (fst (roll_kingdom_gates [(''Cascade'', 5), (''Sand'', 16)] [(''Sand'', 40)]
      \<lparr>rng_position = 0, rng_draws = (\<lambda>n. n * n)\<rparr>)) = 21"
  using rolled_gates_total [of "[(''Cascade'', 5), (''Sand'', 16)]" "[(''Sand'', 40)]"]
  by (simp add: total_gate_def start_value_def gate_hi_def gate_lo_def gate_randomize_spread_def Let_def)

text \<open>A capacity inside the window but below the vanilla gate already lowers the total.\<close>

lemma clamped_gate_lowers_total:
  "gate_lo 16 \<le> 12 \<and> total_gate (fst (roll_kingdom_gates [(''Cascade'', 5), (''Sand'', 16)] [(''Sand'', 12)] r)) = 17"
  using roll_total [of "[(''Cascade'', 5), (''Sand'', 16)]" "[(''Sand'', 12)]" r]
  by (simp add: start_value_def gate_hi_def gate_lo_def gate_randomize_spread_def Let_def)

end
