(* ===== verification/Item_Pool.thy ===== *)
theory Item_Pool
  imports Kingdom_Gates
begin

text \<open>
  \<open>hooks/World.py\<close>, the item pool: starting captures, the drops of the festival goal and of disabled
  abilities, the caps on the moons of each kingdom, the demotion of surplus moons, and the bonus grants
  of the late Multi-Moons. An item is a name and a classification; classifications are Archipelago's
  flags. Options, the item table and the random numbers are arguments.
\<close>

section \<open>Items and tables\<close>

record pool_item =
  item_name :: string
  item_class :: int

definition class_filler :: int where "class_filler = 0"
definition class_progression :: int where "class_progression = 1"
definition class_useful :: int where "class_useful = 2"

definition advancement :: "pool_item \<Rightarrow> bool" where "advancement it \<longleftrightarrow> item_class it mod 2 = 1"
definition useful :: "pool_item \<Rightarrow> bool" where "useful it \<longleftrightarrow> item_class it div 2 mod 2 = 1"

definition bowsers_kingdom :: string where "bowsers_kingdom = ''Bowser'' @ [CHR 39] @ ''s''"

definition kingdom_moon_gates :: "(string, int) dict" where
  "kingdom_moon_gates =
     [(''Cascade'', 5), (''Sand'', 16), (''Lake'', 8), (''Wooded'', 16), (''Lost'', 10), (''Metro'', 20),
      (''Snow'', 10), (''Seaside'', 10), (''Luncheon'', 18), (''Ruined'', 3), (bowsers_kingdom, 8)]"

definition kingdom_moon_count_options :: "(string, string) dict" where
  "kingdom_moon_count_options =
     [(''Cascade'', ''cascade_moon_count''), (''Sand'', ''sand_moon_count''), (''Lake'', ''lake_moon_count''),
      (''Wooded'', ''wooded_moon_count''), (''Lost'', ''lost_moon_count''), (''Metro'', ''metro_moon_count''),
      (''Snow'', ''snow_moon_count''), (''Seaside'', ''seaside_moon_count''),
      (''Luncheon'', ''luncheon_moon_count''), (''Ruined'', ''ruined_moon_count''),
      (bowsers_kingdom, ''bowsers_moon_count'')]"

definition power_moon :: "string \<Rightarrow> string" where "power_moon kingdom = kingdom @ '' Kingdom Power Moon''"
definition multi_moon :: "string \<Rightarrow> string" where "multi_moon kingdom = kingdom @ '' Kingdom Multi-Moon''"

definition festival_items_to_drop :: "string list" where
  "festival_items_to_drop =
     concat (map (\<lambda>k. [power_moon k, multi_moon k]) [''Snow'', ''Seaside'', ''Luncheon'', ''Ruined'', bowsers_kingdom]) @
     [power_moon ''Moon''] @
     [''Ty-foo'', ''Shiverian Racer'', ''Snow Cheep Cheep'', ''Gushen'', ''Lava Bubble'', ''Volbonan'', ''Hammer Bro'',
      ''Meat'', ''Fire Piranha Plant'', ''Pokio'', ''Jizo'', ''Bowser Statue'', ''Parabones'', ''Banzai Bill'',
      ''Chargin'' @ [CHR 39] @ '' Chuck'', ''Letter'', ''Yoshi'', ''Bowser'']"

definition fixed_starter_captures :: "string list" where
  "fixed_starter_captures = [''Frog'', ''Chain Chomp'', ''Broode'' @ [CHR 39] @ ''s Chain Chomp'']"

definition mm_bonus_capture_count :: nat where "mm_bonus_capture_count = 18"
definition mm_bonus_ability_count :: nat where "mm_bonus_ability_count = 3"

text \<open>\<open>world.item_name_to_item\<close>: the categories of each item; an item without an entry has none.\<close>

type_synonym category_table = "(string, string list) dict"

definition in_category :: "category_table \<Rightarrow> string \<Rightarrow> string \<Rightarrow> bool" where
  "in_category table category name \<longleftrightarrow> category \<in> set (dict_get_or table name [])"

section \<open>Starting captures\<close>

fun indices_where :: "nat \<Rightarrow> ('a \<Rightarrow> bool) \<Rightarrow> 'a list \<Rightarrow> nat list" where
  "indices_where i p [] = []"
| "indices_where i p (x # xs) = (if p x then [i] else []) @ indices_where (Suc i) p xs"

definition pop_at :: "nat \<Rightarrow> 'a list \<Rightarrow> 'a list" where
  "pop_at i xs = take i xs @ drop (Suc i) xs"

text \<open>The indices chosen and the random capture; \<open>pool_by_name\<close> keeps the first index of a name.\<close>

definition starter_choice :: "category_table \<Rightarrow> pool_item list \<Rightarrow> rng \<Rightarrow> (nat list \<times> string option) \<times> rng" where
  "starter_choice table pool r =
     (let capture_indices = indices_where 0 (\<lambda>it. in_category table ''Capture'' (item_name it)) pool;
          pool_by_name = foldl (\<lambda>d i. dict_setdefault (item_name (pool ! i)) i d) [] capture_indices;
          fixed = List.map_filter (dict_get pool_by_name) fixed_starter_captures;
          chosen_names = map (\<lambda>i. item_name (pool ! i)) fixed;
          eligible = filter (\<lambda>i. item_name (pool ! i) \<notin> set chosen_names \<and> i \<notin> set fixed) capture_indices
      in if eligible = [] then ((fixed, None), r)
         else (case choice eligible r of (extra, r) \<Rightarrow> ((fixed @ [extra], Some (item_name (pool ! extra))), r)))"

text \<open>The items pushed to the player, in the order they are pushed, the remaining pool, the random capture.\<close>

definition precollect_starting_captures ::
  "category_table \<Rightarrow> pool_item list \<Rightarrow> rng \<Rightarrow> (pool_item list \<times> pool_item list \<times> string option) \<times> rng" where
  "precollect_starting_captures table pool r =
     (case starter_choice table pool r of
        ((idx, extra), r) \<Rightarrow>
          (case foldl (\<lambda>(pushed, pool) i. (pushed @ [pool ! i], pop_at i pool)) ([], pool) (rev (sort idx)) of
             (pushed, pool) \<Rightarrow> ((pushed, pool, extra), r)))"

definition before_create_items_starting ::
  "category_table \<Rightarrow> (string \<Rightarrow> int) \<Rightarrow> pool_item list \<Rightarrow> rng \<Rightarrow> (pool_item list \<times> pool_item list \<times> string option) \<times> rng" where
  "before_create_items_starting table opt pool r =
     (case precollect_starting_captures table pool r of
        ((pushed, pool, extra), r) \<Rightarrow>
          ((pushed,
            (if opt ''goal'' = 1
             then map (\<lambda>it. if item_name it \<in> {power_moon ''Metro'', multi_moon ''Metro''} then it\<lparr>item_class := class_filler\<rparr> else it)
               (filter (\<lambda>it. item_name it \<notin> set festival_items_to_drop) pool)
             else pool),
            extra), r))"

section \<open>Drops and caps\<close>

definition drop_items_by_name :: "string list \<Rightarrow> pool_item list \<Rightarrow> pool_item list" where
  "drop_items_by_name names pool = filter (\<lambda>it. item_name it \<notin> set names) pool"

definition drop_ability_items_if_disabled :: "category_table \<Rightarrow> (string \<Rightarrow> int) \<Rightarrow> pool_item list \<Rightarrow> pool_item list" where
  "drop_ability_items_if_disabled table opt pool =
     (if 0 < opt ''abilitysanity'' then pool
      else filter (\<lambda>it. \<not> in_category table ''Ability'' (item_name it)) pool)"

text \<open>Removing the first \<open>k\<close> items of a name.\<close>

fun drop_first :: "string \<Rightarrow> nat \<Rightarrow> pool_item list \<Rightarrow> pool_item list" where
  "drop_first n 0 pool = pool"
| "drop_first n (Suc k) [] = []"
| "drop_first n (Suc k) (it # pool) = (if item_name it = n then drop_first n k pool else it # drop_first n (Suc k) pool)"

definition count_name :: "string \<Rightarrow> pool_item list \<Rightarrow> nat" where
  "count_name n pool = length (filter (\<lambda>it. item_name it = n) pool)"

definition trim_kingdom :: "(string \<Rightarrow> int) \<Rightarrow> string \<times> string \<Rightarrow> pool_item list \<Rightarrow> pool_item list" where
  "trim_kingdom opt ko pool =
     (case ko of (kingdom, opt_name) \<Rightarrow>
        let target = opt opt_name; pms = count_name (power_moon kingdom) pool; mms = count_name (multi_moon kingdom) pool;
            to_drop = int pms + int mms - target
        in if to_drop \<le> 0 then pool
           else drop_first (multi_moon kingdom) (min mms (nat (to_drop - int pms)))
             (drop_first (power_moon kingdom) (min pms (nat to_drop)) pool))"

definition trim_kingdom_moons_to_options :: "(string \<Rightarrow> int) \<Rightarrow> pool_item list \<Rightarrow> pool_item list" where
  "trim_kingdom_moons_to_options opt pool = fold (trim_kingdom opt) kingdom_moon_count_options pool"

definition before_create_items_filler :: "category_table \<Rightarrow> (string \<Rightarrow> int) \<Rightarrow> pool_item list \<Rightarrow> pool_item list" where
  "before_create_items_filler table opt pool =
     (let festival = opt ''goal'' = 1;
          pool = (if festival then drop_items_by_name [multi_moon ''Mushroom'', ''Dark Side Multi-Moon''] pool else pool);
          pool = (if 0 < opt ''multi_moon_shuffle'' \<and> festival then drop_first (multi_moon ''Metro'') 1 pool else pool);
          pool = drop_ability_items_if_disabled table opt pool
      in trim_kingdom_moons_to_options opt pool)"

section \<open>Demotion\<close>

text \<open>The items of a name from the \<open>k\<close>-th progression one on lose their progression.\<close>

definition progression_of :: "string \<Rightarrow> pool_item \<Rightarrow> bool" where
  "progression_of n it \<longleftrightarrow> item_name it = n \<and> item_class it = class_progression"

fun demote_from :: "string \<Rightarrow> nat \<Rightarrow> pool_item list \<Rightarrow> pool_item list" where
  "demote_from n k [] = []"
| "demote_from n k (it # pool) =
     (if progression_of n it then
        (case k of 0 \<Rightarrow> it\<lparr>item_class := class_filler\<rparr> # demote_from n 0 pool | Suc j \<Rightarrow> it # demote_from n j pool)
      else it # demote_from n k pool)"

definition count_progression :: "string \<Rightarrow> pool_item list \<Rightarrow> nat" where
  "count_progression n pool = length (filter (progression_of n) pool)"

text \<open>How many Multi-Moons and Power Moons stay; \<open>xs[k:]\<close> with a negative \<open>k\<close> counts from the end.\<close>

definition slice_start :: "nat \<Rightarrow> int \<Rightarrow> nat" where
  "slice_start len k = (if k < 0 then nat (int len + k) else nat k)"

definition moons_kept :: "bool \<Rightarrow> int \<Rightarrow> nat \<Rightarrow> nat \<Rightarrow> int \<times> int" where
  "moons_kept prefer_demoting_multimoons threshold mms pms =
     (if prefer_demoting_multimoons
      then (let pms_kept = min (int pms) threshold; remainder = threshold - pms_kept
            in (if 0 < remainder then min (int mms) ((remainder + 2) div 3) else 0, pms_kept))
      else (let mms_kept = min (int mms) (threshold div 3)
            in (mms_kept, min (int pms) (max 0 (threshold - 3 * mms_kept)))))"

definition demote_kingdom :: "bool \<Rightarrow> string \<times> int \<Rightarrow> pool_item list \<Rightarrow> pool_item list" where
  "demote_kingdom prefer kt pool =
     (case kt of (kingdom, threshold) \<Rightarrow>
        if kingdom = ''Ruined'' then pool
        else let pm_name = power_moon kingdom; mm_name = multi_moon kingdom;
                 mms = count_progression mm_name pool; pms = count_progression pm_name pool;
                 (mms_kept, pms_kept) = moons_kept prefer threshold mms pms
             in demote_from pm_name (slice_start pms pms_kept) (demote_from mm_name (slice_start mms mms_kept) pool))"

definition demote_surplus_kingdom_moons :: "(string, int) dict option \<Rightarrow> bool \<Rightarrow> pool_item list \<Rightarrow> pool_item list" where
  "demote_surplus_kingdom_moons gates prefer pool = fold (demote_kingdom prefer) (or_default gates kingdom_moon_gates) pool"

definition demote_all :: "string list" where "demote_all = [''Spin Throw'', ''Ledge Grab'']"
definition keep_first :: "(string, int) dict" where "keep_first = [(''Progressive Crouch'', 1)]"

fun demote_mobility_loop :: "(string, int) dict \<Rightarrow> pool_item list \<Rightarrow> pool_item list" where
  "demote_mobility_loop kept [] = []"
| "demote_mobility_loop kept (it # pool) =
     (if \<not> advancement it then it # demote_mobility_loop kept pool
      else if item_name it \<in> set demote_all then it\<lparr>item_class := class_useful\<rparr> # demote_mobility_loop kept pool
      else (case dict_get keep_first (item_name it) of
              None \<Rightarrow> it # demote_mobility_loop kept pool
            | Some n \<Rightarrow>
                (let kept = dict_bump (item_name it) 1 kept
                 in (if n < dict_get_or kept (item_name it) 0 then it\<lparr>item_class := class_useful\<rparr> else it) #
                    demote_mobility_loop kept pool)))"

definition demote_mobility_only_abilities :: "pool_item list \<Rightarrow> pool_item list" where
  "demote_mobility_only_abilities pool = demote_mobility_loop [] pool"

section \<open>Bonus grants\<close>

definition names_in_item_category :: "category_table \<Rightarrow> string \<Rightarrow> string list" where
  "names_in_item_category table category = sort (map fst (filter (\<lambda>(n, cats). category \<in> set cats) table))"

definition sample_some :: "nat \<Rightarrow> string list \<Rightarrow> rng \<Rightarrow> string list \<times> rng" where
  "sample_some n names r =
     (let k = min n (length names)
      in if k = 0 then ([], r) else (case sample k names r of Inl e \<Rightarrow> ([], r) | Inr x \<Rightarrow> x))"

definition roll_mm_bonus_grants :: "category_table \<Rightarrow> rng \<Rightarrow> (string list \<times> string list) \<times> rng" where
  "roll_mm_bonus_grants table r =
     (let captures = filter (\<lambda>c. c \<notin> set fixed_starter_captures) (names_in_item_category table ''Capture'');
          abilities = names_in_item_category table ''Ability''
      in case sample_some mm_bonus_capture_count captures r of
           (bonus_captures, r) \<Rightarrow>
             (case sample_some mm_bonus_ability_count abilities r of
                (bonus_abilities, r) \<Rightarrow> ((bonus_captures, bonus_abilities), r)))"

section \<open>The finished pool\<close>

record world_rolls =
  rolled_kingdom_gates :: "(string, int) dict option"
  mm_bonus_captures :: "string list"
  mm_bonus_abilities :: "string list"

definition after_create_items ::
  "category_table \<Rightarrow> (string \<Rightarrow> int) \<Rightarrow> pool_item list \<Rightarrow> rng \<Rightarrow> (pool_item list \<times> world_rolls) \<times> rng" where
  "after_create_items table opt pool r =
     (let (gates, r) = (if 0 < opt ''randomize_kingdom_gates''
            then (case roll_kingdom_gates kingdom_moon_gates (pool_gate_capacities (map item_name pool) (dict_keys kingdom_moon_gates)) r of
                    (g, r) \<Rightarrow> (Some g, r))
            else (None, r));
          pool = demote_mobility_only_abilities (demote_surplus_kingdom_moons gates (0 < opt ''multi_moon_shuffle'') pool);
          ((captures, abilities), r) = roll_mm_bonus_grants table r
      in ((pool, \<lparr>rolled_kingdom_gates = gates, mm_bonus_captures = captures, mm_bonus_abilities = abilities\<rparr>), r))"

end
