(* ===== verification/Rule_Names.thy ===== *)
theory Rule_Names
  imports Rule_Meaning
begin

text \<open>
  Items named in a requirement, alone or with a count: their texts are well-formed tokens, their counts
  are read back, and they are satisfied by that many copies.
\<close>

section \<open>Numbers in item names\<close>

lemma digit_not: "is_digit c \<Longrightarrow> \<not> is_space c \<and> c \<notin> set '':%-+alhf|{,)''"
  by (auto simp: is_digit_def is_space_def)

lemma strip_digits: "s \<noteq> [] \<Longrightarrow> list_all is_digit s \<Longrightarrow> strip s = s"
  using digit_not by (intro strip_by_id) (auto simp: list_all_iff)

lemma show_nat_all: "list_all is_digit (show_nat n)"
  by (simp add: list_all_iff show_nat_digits)

lemma show_nat_ends: "is_digit (hd (show_nat n))" "is_digit (last (show_nat n))"
  by (rule show_nat_digits [OF hd_in_set]; simp) (rule show_nat_digits [OF last_in_set]; simp)

lemma int_digits_show: "int_digits (show_nat n) = Some n"
proof -
  have "int_body 0 (show_nat n) = Some n"
    using int_body_digits [of "show_nat n" 0] show_nat_digits by (simp add: digits_value_show_nat)
  then show ?thesis using show_nat_ends(1) [of n] by (cases "show_nat n") (simp_all add: int_digits_def)
qed

lemma trimmed_show_int: "trimmed (show_int i)"
proof -
  have "\<not> is_space (hd (show_nat n))" "\<not> is_space (last (show_nat n))" for n using show_nat_ends digit_not by blast+
  then show ?thesis by (simp add: trimmed_def show_int_def is_space_def)
qed

lemma py_int_show_int: "py_int (show_int i) = Some i"
proof -
  have "strip (show_int i) = show_int i" by (rule strip_trimmed [OF trimmed_show_int])
  moreover obtain c cs where c: "show_nat (nat i) = c # cs" "c \<noteq> CHR ''-''" "c \<noteq> CHR ''+''"
    using show_nat_ends(1) [of "nat i"] digit_not [of "hd (show_nat (nat i))"] by (cases "show_nat (nat i)") simp_all
  ultimately show ?thesis
    using int_digits_show [of "nat i"] int_digits_show [of "nat (- i)"]
    by (cases "i < 0") (simp_all add: py_int_def show_int_def)
qed

lemma show_int_chars: "c \<in> set (show_int i) \<Longrightarrow> c \<notin> set '':|{,)''"
proof (cases "c = CHR ''-''")
  case False
  assume "c \<in> set (show_int i)"
  with False have "is_digit c" using show_nat_digits by (auto simp: show_int_def split: if_splits)
  then show ?thesis using digit_not [of c] by simp
qed simp

lemma required_show:
  assumes "0 < w"
  shows "required_count env (show_int w) available = Inr w"
proof -
  have s: "show_int w = show_nat (nat w)" using assms by (simp add: show_int_def)
  have d: "is_digit c" if "c \<in> set (show_int w)" for c using that show_nat_digits unfolding s by blast
  then have "lower (show_int w) = show_int w"
    unfolding lower_def by (intro map_idI) (fastforce simp: lower_char_def is_digit_def)
  moreover have "show_int w \<noteq> ''all''" "show_int w \<noteq> ''half''"
    using d [of "CHR ''a''"] d [of "CHR ''h''"] by (auto simp: is_digit_def)
  moreover have "last (show_int w) \<noteq> CHR ''%''"
    using show_nat_ends(2) [of "nat w"] s by (auto simp: is_digit_def)
  ultimately show ?thesis by (simp add: required_count_def py_int_show_int)
qed

section \<open>Plain names\<close>

text \<open>A name that reads back as itself: trimmed, free of separators, not starting like an operand.\<close>

definition plain_name :: "string \<Rightarrow> bool" where
  "plain_name n \<longleftrightarrow> trimmed n \<and> list_all (\<lambda>c. c \<notin> set '':|{'') n \<and> hd n \<notin> set '' ()01!@|$''"

lemma prefix_char_not: "is_prefix_char c \<Longrightarrow> c \<notin> set ''():!@$|{},01''"
  by (auto simp: is_prefix_char_def is_alpha_def)

lemma split_on_mid: "c \<notin> set a \<Longrightarrow> split_on c (a @ c # b) = a # split_on c b"
  by (induction a) auto

definition counted :: "string \<Rightarrow> int \<Rightarrow> string" where "counted n i = n @ '':'' @ show_int i"

lemma plain_name_chars:
  assumes "plain_name n"
  shows "n \<noteq> []" "CHR '':'' \<notin> set n" "CHR ''|'' \<notin> set n" "CHR ''{'' \<notin> set n"
  using assms by (auto simp: plain_name_def trimmed_def list_all_iff)

lemma split_counted: "plain_name n \<Longrightarrow> split_on CHR '':'' (counted n i) = [n, show_int i]"
proof -
  have "CHR '':'' \<notin> set (show_int i)" using show_int_chars by force
  then show "plain_name n \<Longrightarrow> ?thesis"
    using split_on_mid [OF plain_name_chars(2)] split_on_id [of "CHR '':''" "show_int i"] by (simp add: counted_def)
qed

lemma item_parts_name:
  assumes "plain_name n"
  shows "item_parts n = (n, ''1'')" "item_parts (counted n i) = (n, show_int i)" "item_ok n" "item_ok (counted n i)"
proof -
  note n = plain_name_chars [OF assms]
  have hd: "hd n \<notin> set '' ()01!@|$''" "trimmed n" using assms by (simp_all add: plain_name_def)
  have i: "CHR ''|'' \<notin> set (show_int i)" "CHR ''{'' \<notin> set (show_int i)"
    using show_int_chars by force+
  have dw: "dropWhile (\<lambda>c. c \<in> {CHR ''|'', CHR ''@'', CHR ''$''}) (n @ x) = n @ x" for x
    using hd(1) n(1) by (cases n) auto
  show "item_parts n = (n, ''1'')" using dw [of "[]"] split_on_id [OF n(2)] by (simp add: item_parts_def Let_def)
  show "item_parts (counted n i) = (n, show_int i)"
    using dw [of "'':'' @ show_int i"] split_counted [OF assms, of i] strip_trimmed [OF hd(2)] strip_trimmed [OF trimmed_show_int, of i]
    by (simp add: item_parts_def counted_def Let_def)
  show "item_ok n" "item_ok (counted n i)" using n i hd(1) by (auto simp: item_ok_def counted_def)
qed

lemma show_one: "show_int 1 = ''1''"
  by code_simp

lemma item_name_sat:
  assumes "plain_name n"
  shows "item_sat env st n \<longleftrightarrow> 1 \<le> state_count env n st" "item_defined env n"
    "0 < i \<Longrightarrow> item_sat env st (counted n i) \<longleftrightarrow> i \<le> state_count env n st" "0 < i \<Longrightarrow> item_defined env (counted n i)"
proof -
  have "required_count env ''1'' a = Inr 1" for a
    using required_show [of 1 env a] show_one by simp
  then show "item_sat env st n \<longleftrightarrow> 1 \<le> state_count env n st" "item_defined env n"
    by (simp_all add: item_sat_def item_defined_def item_wanted_def item_parts_name [OF assms])
  show "0 < i \<Longrightarrow> item_sat env st (counted n i) \<longleftrightarrow> i \<le> state_count env n st" "0 < i \<Longrightarrow> item_defined env (counted n i)"
    by (simp_all add: item_sat_def item_defined_def item_wanted_def item_parts_name [OF assms] required_show)
qed

section \<open>Joined requirements\<close>

text \<open>One requirement stands alone, several are joined by an operator inside parentheses.\<close>

definition group_req :: "(req \<Rightarrow> req \<Rightarrow> req) \<Rightarrow> req list \<Rightarrow> req" where
  "group_req opr rs = (case rs of [] \<Rightarrow> Bit False | [r] \<Rightarrow> r | r # qs \<Rightarrow> Group (foldl opr r qs))"

definition joins :: "(req \<Rightarrow> req \<Rightarrow> req) \<Rightarrow> tok \<Rightarrow> bool" where
  "joins opr t \<longleftrightarrow> (\<forall>a b. toks 0 (opr a b) = toks 0 a @ t # toks 1 b)"

lemma joins_simps [simp]: "joins (And c) (TAnd c)" "joins (Or c) (TOr c)"
  by (simp_all add: joins_def paren_def)

lemma group_req_simps [simp]:
  "group_req opr [] = Bit False" "group_req opr [r] = r" "group_req opr (r # q # qs) = Group (foldl opr r (q # qs))"
  by (simp_all add: group_req_def)

lemma no_one_more [case_names Nil one more]:
  "(xs = [] \<Longrightarrow> P) \<Longrightarrow> (\<And>x. xs = [x] \<Longrightarrow> P) \<Longrightarrow> (\<And>x y ys. xs = x # y # ys \<Longrightarrow> P) \<Longrightarrow> P"
  by (metis list.exhaust)

lemma toks_foldl: "joins opr t \<Longrightarrow> toks 0 (foldl opr r rs) = toks 0 r @ concat (map (\<lambda>x. t # toks 1 x) rs)"
  by (induction rs rule: rev_induct) (simp_all add: joins_def)

lemma join_concat: "join sep (x # xs) = x @ concat (map (\<lambda>y. sep @ y) xs)"
  by (induction xs arbitrary: x) auto

lemma atomic_group: "list_all atomic rs \<Longrightarrow> rs \<noteq> [] \<Longrightarrow> atomic (group_req opr rs)"
  by (cases rs rule: no_one_more) auto

text \<open>An operand is written without parentheses of its own.\<close>

definition single :: "req \<Rightarrow> bool" where
  "single r \<longleftrightarrow> toks 1 r = toks 0 r"

lemma single_Call [simp]: "single (Call f a)" "single (Item n)" "single (Group r)" "single (Bit b)"
  by (simp_all add: single_def)

lemma atomic_single: "list_all atomic rs \<Longrightarrow> list_all single rs"
  using toks_atomic [of _ 1] by (simp add: list_all_iff single_def)

lemma single_group: "list_all single rs \<Longrightarrow> rs \<noteq> [] \<Longrightarrow> single (group_req opr rs)"
  by (cases rs rule: no_one_more) auto

lemma single_one: "list_all single rs \<Longrightarrow> x \<in> set rs \<Longrightarrow> toks 1 x = toks 0 x"
  by (simp add: list_all_iff single_def)

lemma single_req_spell:
  assumes "joins opr t" "rs \<noteq> []" "list_all single rs"
  shows "requirement (group_req opr rs) =
    (if length rs = 1 then requirement (hd rs) else ''('' @ join (spell t) (map requirement rs) @ '')'')"
proof (cases rs rule: no_one_more)
  case (more x y ys)
  have "spells (concat (map (\<lambda>x. t # toks 1 x) qs)) = concat (map (\<lambda>y. spell t @ y) (map requirement qs))"
    if "set qs \<subseteq> set rs" for qs
    using that single_one [OF assms(3)] by (induction qs) (simp_all add: requirement_def)
  from this [of "y # ys"] have "spells (concat (map (\<lambda>x. t # toks 1 x) (y # ys))) = concat (map (\<lambda>y. spell t @ y) (map requirement (y # ys)))"
    unfolding more by (meson set_subset_Cons)
  then show ?thesis
    unfolding more group_req_simps by (simp add: requirement_def toks_foldl [OF assms(1)] join_concat more del: foldl_Cons join.simps(3))
qed (use assms(2) in simp_all)

lemmas group_req_spell = single_req_spell [OF _ _ atomic_single]

lemma single_req_keeps:
  assumes "joins opr t" "list_all single rs" "no_item t" "no_call t" "tok_ok t"
  shows "set (items_of (toks 0 (group_req opr rs))) = (\<Union>x \<in> set rs. set (items_of (toks 0 x)))"
    "list_all tok_ok (toks 0 (group_req opr rs)) \<longleftrightarrow> (\<forall>x \<in> set rs. list_all tok_ok (toks 0 x))"
    "list_all no_call (toks 0 (group_req opr rs)) \<longleftrightarrow> (\<forall>x \<in> set rs. list_all no_call (toks 0 x))"
    "set (calls_of (toks 0 (group_req opr rs))) = (\<Union>x \<in> set rs. set (calls_of (toks 0 x)))"
proof -
  have t: "items_of (t # ts) = items_of ts" "calls_of (t # ts) = calls_of ts" for ts using assms(3,4) by (cases t; simp)+
  note one = single_one [OF assms(2)]
  have i: "items_of (concat (map (\<lambda>x. t # toks 1 x) qs)) = concat (map (items_of \<circ> toks 0) qs) \<and>
      calls_of (concat (map (\<lambda>x. t # toks 1 x) qs)) = concat (map (calls_of \<circ> toks 0) qs) \<and>
      (list_all tok_ok (concat (map (\<lambda>x. t # toks 1 x) qs)) \<longleftrightarrow> (\<forall>x \<in> set qs. list_all tok_ok (toks 0 x))) \<and>
      (list_all no_call (concat (map (\<lambda>x. t # toks 1 x) qs)) \<longleftrightarrow> (\<forall>x \<in> set qs. list_all no_call (toks 0 x)))"
    if "set qs \<subseteq> set rs" for qs
    using that assms(4,5) one by (induction qs) (simp_all add: t)
  have split: "rs = [] \<or> (\<exists>x. rs = [x]) \<or> (toks 0 (group_req opr rs) = TOpen # (toks 0 (hd rs) @ concat (map (\<lambda>x. t # toks 1 x) (tl rs))) @ [TClose])"
    by (cases rs rule: no_one_more) (simp_all add: toks_foldl [OF assms(1)] del: foldl_Cons)
  have tl: "set (tl rs) \<subseteq> set rs" "rs \<noteq> [] \<Longrightarrow> set rs = insert (hd rs) (set (tl rs))" by (cases rs; auto)+
  note i = i [OF tl(1)]
  show "set (items_of (toks 0 (group_req opr rs))) = (\<Union>x \<in> set rs. set (items_of (toks 0 x)))"
    using split i tl(2) by (cases "rs = []") auto
  show "list_all tok_ok (toks 0 (group_req opr rs)) \<longleftrightarrow> (\<forall>x \<in> set rs. list_all tok_ok (toks 0 x))"
    using split i tl(2) by (cases "rs = []") auto
  show "list_all no_call (toks 0 (group_req opr rs)) \<longleftrightarrow> (\<forall>x \<in> set rs. list_all no_call (toks 0 x))"
    using split i tl(2) by (cases "rs = []") auto
  show "set (calls_of (toks 0 (group_req opr rs))) = (\<Union>x \<in> set rs. set (calls_of (toks 0 x)))"
    using split i tl(2) by (cases "rs = []") auto
qed

lemmas group_req_keeps = single_req_keeps [OF _ atomic_single]

lemma group_and_holds: "rs \<noteq> [] \<Longrightarrow> holds i c (group_req (And b) rs) \<longleftrightarrow> (\<forall>x \<in> set rs. holds i c x)"
proof -
  have "holds i c (foldl (And b) r qs) \<longleftrightarrow> holds i c r \<and> (\<forall>x \<in> set qs. holds i c x)" for r qs
    by (induction qs rule: rev_induct) auto
  then show "rs \<noteq> [] \<Longrightarrow> ?thesis" by (cases rs rule: no_one_more) (simp_all del: foldl_Cons)
qed

lemma group_or_holds: "holds i c (group_req (Or b) rs) \<longleftrightarrow> (\<exists>x \<in> set rs. holds i c x)"
proof -
  have "holds i c (foldl (Or b) r qs) \<longleftrightarrow> holds i c r \<or> (\<exists>x \<in> set qs. holds i c x)" for r qs
    by (induction qs rule: rev_induct) auto
  then show ?thesis by (cases rs rule: no_one_more) (simp_all del: foldl_Cons)
qed

end
