(* ===== verification/Entrance_Eval.thy ===== *)
theory Entrance_Eval
  imports Rule_Names Rule_Hooks
begin

text \<open>
  \<open>entrance_logic.py\<close>: the two evaluators the entrance shuffle uses for its gates. The interior
  evaluator knows items and operators only; the full one first splices in what the calls return, at
  most sixteen of them. Both let a string they cannot read pass. The rule functions are those of
  \<open>hooks/Rules.py\<close>.
\<close>

section \<open>The interior evaluator\<close>

text \<open>The name and count between two bars.\<close>

definition interior_item :: "string \<Rightarrow> exn + string \<times> int" where
  "interior_item n =
     (case split_on CHR '':'' n of
        name # cnt # _ \<Rightarrow> (case py_int cnt of None \<Rightarrow> Inl ValueError | Some k \<Rightarrow> Inr (strip name, k))
      | _ \<Rightarrow> Inr (strip n, 1))"

text \<open>The substitution over \<open>_ITEM_RE.finditer\<close>.\<close>

function settle_items :: "'st rule_env \<Rightarrow> 'st \<Rightarrow> string \<Rightarrow> exn + string" where
  "settle_items env st s =
     (case s of
        [] \<Rightarrow> Inr []
      | c # t \<Rightarrow>
          (let n = takeWhile (\<lambda>c. c \<noteq> CHR ''|'') t; r = dropWhile (\<lambda>c. c \<noteq> CHR ''|'') t
           in if c = CHR ''|'' \<and> n \<noteq> [] \<and> r \<noteq> [] then
                (case interior_item n of
                   Inl e \<Rightarrow> Inl e
                 | Inr (name, k) \<Rightarrow> map_sum id ((@) (if k \<le> state_count env name st then ''1'' else ''0'')) (settle_items env st (tl r)))
              else map_sum id ((#) c) (settle_items env st t)))"
  by pat_completeness auto
termination
proof (relation "measure (\<lambda>(env, st, s). length s)", goal_cases)
  case (2 env st s c t)
  then show ?case using length_dropWhile_le [of "\<lambda>c. c \<noteq> CHR ''|''" t] by simp
qed auto

declare settle_items.simps [simp del]

text \<open>\<open>re.sub(r'\s+WORD\s+', op, s, flags=re.IGNORECASE)\<close>.\<close>

definition spaced_word :: "string \<Rightarrow> string \<Rightarrow> string option" where
  "spaced_word w s =
     (let r = dropWhile is_space s; r2 = drop (length w) r
      in if lower (take (length w) r) = w \<and> r2 \<noteq> [] \<and> is_space (hd r2) then Some (dropWhile is_space r2) else None)"

lemma spaced_word_shorter:
  assumes "spaced_word w s = Some r"
  shows "length r < length s"
proof -
  let ?r2 = "drop (length w) (dropWhile is_space s)"
  have "?r2 \<noteq> []" "is_space (hd ?r2)" "r = dropWhile is_space ?r2"
    using assms by (auto simp: spaced_word_def Let_def split: if_splits)
  then have "length r < length ?r2"
    using length_dropWhile_le [of is_space "tl ?r2"] by (cases ?r2) auto
  then show ?thesis using length_dropWhile_le [of is_space s] by simp
qed

function sub_spaced :: "string \<Rightarrow> char \<Rightarrow> string \<Rightarrow> string" where
  "sub_spaced w opr s =
     (case s of
        [] \<Rightarrow> []
      | c # t \<Rightarrow>
          (case (if is_space c then spaced_word w s else None) of
             Some r \<Rightarrow> opr # sub_spaced w opr r
           | None \<Rightarrow> c # sub_spaced w opr t))"
  by pat_completeness auto
termination by (relation "measure (\<lambda>(w, opr, s). length s)") (auto dest: spaced_word_shorter split: if_splits)

declare sub_spaced.simps [simp del]

definition sub_spaced_operators :: "string \<Rightarrow> string" where
  "sub_spaced_operators s = sub_spaced ''or'' CHR ''|'' (sub_spaced ''and'' CHR ''&'' s)"

definition evaluate_interior_requires :: "'st rule_env \<Rightarrow> string \<Rightarrow> 'st \<Rightarrow> exn + bool" where
  "evaluate_interior_requires env req_str st =
     (if req_str = [] then Inr True
      else (case settle_items env st req_str of
              Inl e \<Rightarrow> Inl e
            | Inr s \<Rightarrow>
                (let result = strip (sub_spaced_operators s)
                 in if result = [] then Inr True
                    else (case infix_to_postfix result of
                            Inl _ \<Rightarrow> Inr True
                          | Inr p \<Rightarrow> (case evaluate_postfix p of Inl _ \<Rightarrow> Inr True | Inr b \<Rightarrow> Inr b)))))"

section \<open>The full evaluator\<close>

text \<open>\<open>_FUNC_RE.search(s)\<close>: the text before the first call, the call, the text after it.\<close>

fun find_call :: "string \<Rightarrow> (string \<times> (string \<times> string) \<times> string) option" where
  "find_call [] = None"
| "find_call (c # t) =
     (case (if c = CHR ''{'' then match_call t else None) of
        Some (call, r) \<Rightarrow> Some ([], call, r)
      | None \<Rightarrow> map_option (\<lambda>(before, x). (c # before, x)) (find_call t))"

definition trimmed_args :: "string \<Rightarrow> string list" where
  "trimmed_args a = (if strip a = [] then [] else map strip (split_on CHR '','' (strip a)))"

definition call_value :: "'st rule_env \<Rightarrow> 'st \<Rightarrow> string \<times> string \<Rightarrow> string" where
  "call_value env st f =
     (case rule_function env (fst f) of
        None \<Rightarrow> ''1''
      | Some func \<Rightarrow>
          (case func (trimmed_args (snd f)) st of
             Inl _ \<Rightarrow> ''1''
           | Inr (RBool b) \<Rightarrow> if b then ''1'' else ''0''
           | Inr (RText s) \<Rightarrow> if s = [] then ''1'' else ''('' @ s @ '')''))"

fun splice_calls :: "nat \<Rightarrow> 'st rule_env \<Rightarrow> 'st \<Rightarrow> string \<Rightarrow> string" where
  "splice_calls 0 env st s = s"
| "splice_calls (Suc n) env st s =
     (case find_call s of
        None \<Rightarrow> s
      | Some (before, f, after) \<Rightarrow> splice_calls n env st (before @ call_value env st f @ after))"

definition evaluate_full_requires :: "'st rule_env \<Rightarrow> string \<Rightarrow> 'st \<Rightarrow> exn + bool" where
  "evaluate_full_requires env req_str st =
     (if req_str = [] then Inr True
      else evaluate_interior_requires env (splice_calls 16 env st req_str) st)"

section \<open>Scenario gates\<close>

definition parse_scenario_fragment :: "string option \<Rightarrow> (string \<times> string list) list" where
  "parse_scenario_fragment fragment = map (\<lambda>(f, a). (f, trimmed_args a)) (find_calls (or_default fragment []))"

definition make_scenario_gate_rule :: "'st rule_env \<Rightarrow> string option \<Rightarrow> 'st \<Rightarrow> exn + bool" where
  "make_scenario_gate_rule env fragment st =
     (case fragment of
        None \<Rightarrow> Inr True
      | Some s \<Rightarrow> if strip s = [] then Inr True else evaluate_full_requires env s st)"

text \<open>\<open>any\<close> and \<open>all\<close> over rules that may raise.\<close>

fun any_rule :: "('st \<Rightarrow> exn + bool) list \<Rightarrow> 'st \<Rightarrow> exn + bool" where
  "any_rule [] st = Inr False"
| "any_rule (r # rs) st = (case r st of Inl e \<Rightarrow> Inl e | Inr b \<Rightarrow> if b then Inr True else any_rule rs st)"

fun all_rules :: "('st \<Rightarrow> exn + bool) list \<Rightarrow> 'st \<Rightarrow> exn + bool" where
  "all_rules [] st = Inr True"
| "all_rules (r # rs) st = (case r st of Inl e \<Rightarrow> Inl e | Inr b \<Rightarrow> if b then all_rules rs st else Inr False)"

definition make_door_scenario_gate_rule :: "'st rule_env \<Rightarrow> string option list \<Rightarrow> 'st \<Rightarrow> exn + bool" where
  "make_door_scenario_gate_rule env member_fragments st =
     (if member_fragments = [] then Inr True
      else any_rule (map (make_scenario_gate_rule env) member_fragments) st)"

end
