(* ===== verification/Entrance_Meaning.thy ===== *)
theory Entrance_Meaning
  imports Entrance_Eval
begin

text \<open>
  The entrance evaluators on requirements: an item asks for its plain count, calls stand for what their
  functions return, and the value is that of the formula, the same the evaluator of \<open>Rules.py\<close> gives.
\<close>

section \<open>Items and operators\<close>

definition counts :: "'st rule_env \<Rightarrow> string \<Rightarrow> bool" where
  "counts env n = (case interior_item n of Inl e \<Rightarrow> False | Inr (name, k) \<Rightarrow> True)"

definition owned :: "'st rule_env \<Rightarrow> 'st \<Rightarrow> string \<Rightarrow> bool" where
  "owned env st n = (case interior_item n of Inl e \<Rightarrow> False | Inr (name, k) \<Rightarrow> k \<le> state_count env name st)"

lemma settle_skip: "CHR ''|'' \<notin> set u \<Longrightarrow> settle_items env st (u @ r) = map_sum id ((@) u) (settle_items env st r)"
proof (induction u)
  case (Cons c u)
  then have "c \<noteq> CHR ''|''" by auto
  then have "settle_items env st ((c # u) @ r) = map_sum id ((#) c) (settle_items env st (u @ r))"
    by (subst settle_items.simps) (simp add: Let_def)
  with Cons show ?case by (cases "settle_items env st r") simp_all
qed (cases "settle_items env st r"; simp)

lemma settle_tokens:
  assumes "list_all tok_ok ts" "list_all no_call ts" "list_all (counts env) (items_of ts)"
  shows "settle_items env st (spells ts) = Inr (spells (map (settle (owned env st) UNIV) ts))"
  using assms
proof (induction ts)
  case Nil
  then show ?case by (simp add: settle_items.simps)
next
  case (Cons t ts)
  show ?case
  proof (cases t)
    case (TItem n)
    then have n: "n \<noteq> []" "CHR ''|'' \<notin> set n" using Cons.prems by (simp_all add: item_ok_def)
    then have "takeWhile (\<lambda>c. c \<noteq> CHR ''|'') (n @ CHR ''|'' # x) = n" "dropWhile (\<lambda>c. c \<noteq> CHR ''|'') (n @ CHR ''|'' # x) = CHR ''|'' # x" for x
      by (auto simp: takeWhile_append dropWhile_append)
    moreover obtain name k where "interior_item n = Inr (name, k)"
      using Cons.prems TItem by (auto simp: counts_def split: sum.splits)
    ultimately have "settle_items env st (CHR ''|'' # n @ CHR ''|'' # spells ts) =
        map_sum id ((@) (if owned env st n then ''1'' else ''0'')) (settle_items env st (spells ts))"
      using n by (subst settle_items.simps) (simp add: Let_def owned_def)
    then show ?thesis using Cons TItem by (simp add: item_text_def settle_def)
  qed (use Cons spell_bar [of t] settle_skip [of "spell t" env st "spells ts"] in \<open>auto simp: settle_def\<close>)
qed

lemma spaced_word_hit:
  assumes "lower v = w" "w \<noteq> []" "\<not> is_space (hd v)" "r = [] \<or> \<not> is_space (hd r)"
  shows "spaced_word w (CHR '' '' # v @ CHR '' '' # r) = Some r"
proof -
  have len: "length v = length w" using assms(1) by (auto simp: lower_def)
  then have v: "v \<noteq> []" using assms(2) by auto
  then have "dropWhile is_space (CHR '' '' # v @ CHR '' '' # r) = v @ CHR '' '' # r"
    using assms(3) by (cases v) simp_all
  moreover have "dropWhile is_space (CHR '' '' # r) = r" using assms(4) by (cases r) auto
  ultimately show ?thesis using assms(1) len by (simp add: spaced_word_def Let_def)
qed

lemma spaced_word_miss:
  assumes "u \<noteq> []" "\<not> is_space (hd u)" "lower_char (hd u) \<noteq> hd w" "w \<noteq> []"
  shows "spaced_word w (CHR '' '' # u) = None"
proof -
  obtain c cs where u: "u = c # cs" using assms(1) by (cases u) auto
  then have "dropWhile is_space (CHR '' '' # u) = u" using assms(2) by simp
  then show ?thesis using assms(3,4) by (cases w) (auto simp: spaced_word_def u lower_def Let_def)
qed

lemma sub_spaced_step: "\<not> is_space c \<Longrightarrow> sub_spaced w opr (c # r) = c # sub_spaced w opr r"
  by (subst sub_spaced.simps) simp

lemma sub_spaced_hit:
  "lower v = w \<Longrightarrow> w \<noteq> [] \<Longrightarrow> \<not> is_space (hd v) \<Longrightarrow> r \<noteq> [] \<Longrightarrow> \<not> is_space (hd r) \<Longrightarrow>
   sub_spaced w opr (CHR '' '' # v @ CHR '' '' # r) = opr # sub_spaced w opr r"
  by (subst sub_spaced.simps) (simp add: spaced_word_hit)

lemma sub_spaced_miss:
  "u \<noteq> [] \<Longrightarrow> \<not> is_space (hd u) \<Longrightarrow> lower_char (hd u) \<noteq> hd w \<Longrightarrow> w \<noteq> [] \<Longrightarrow>
   sub_spaced w opr (CHR '' '' # u) = CHR '' '' # sub_spaced w opr u"
  by (subst sub_spaced.simps) (simp add: spaced_word_miss)

definition operand :: "string \<Rightarrow> bool" where "operand r \<longleftrightarrow> r \<noteq> [] \<and> hd r \<in> set ''01!(''"

lemma operand_append [simp]: "operand r \<Longrightarrow> operand (r @ s)"
  by (auto simp: operand_def)

lemma operand_not: "operand r \<Longrightarrow> r \<noteq> [] \<and> \<not> is_space (hd r) \<and> lower_char (hd r) \<noteq> CHR ''a'' \<and> lower_char (hd r) \<noteq> CHR ''o''"
  by (auto simp: operand_def lower_char_def)

text \<open>A substitution that acts on the operators and leaves the other tokens acts on a whole requirement.\<close>

definition keeps_operands :: "(tok \<Rightarrow> string) \<Rightarrow> bool" where
  "keeps_operands f \<longleftrightarrow> (\<forall>b. f (TBit b) = spell (TBit b)) \<and> f TNot = ''!'' \<and> f TOpen = ''('' \<and> f TClose = '')''"

lemma operand_ground: "ground e \<Longrightarrow> keeps_operands f \<Longrightarrow> operand (concat (map f (toks l e)))"
  by (induction e arbitrary: l) (auto simp: keeps_operands_def paren_def, auto simp: operand_def)

lemma sub_spaced_ground:
  assumes "keeps_operands f" "keeps_operands g"
    and opr: "\<And>t c r. t = TAnd c \<or> t = TOr c \<Longrightarrow> operand r \<Longrightarrow> sub_spaced w opr (f t @ r) = g t @ sub_spaced w opr r"
  shows "ground e \<Longrightarrow> sub_spaced w opr (concat (map f (toks l e)) @ r) = concat (map g (toks l e)) @ sub_spaced w opr r"
proof (induction e arbitrary: l r)
  case (And c a b)
  then show ?case
    using assms(1,2) opr [of "TAnd c"] operand_ground [OF _ assms(1), of b 1]
    by (simp add: paren_def keeps_operands_def sub_spaced_step)
next
  case (Or c a b)
  then show ?case
    using assms(1,2) opr [of "TOr c"] operand_ground [OF _ assms(1), of b 1]
    by (simp add: paren_def keeps_operands_def sub_spaced_step)
qed (use assms(1,2) in \<open>simp_all add: paren_def keeps_operands_def sub_spaced_step\<close>)

lemma keeps_operands_simps [simp]: "keeps_operands spell" "keeps_operands half" "keeps_operands mark"
  by (simp_all add: keeps_operands_def)

lemma sub_spaced_Nil [simp]: "sub_spaced w opr [] = []"
  by (simp add: sub_spaced.simps)

lemma letters [simp]: "\<not> is_space CHR ''A''" "\<not> is_space CHR ''a''" "lower_char CHR ''O'' \<noteq> CHR ''a''" "lower_char CHR ''o'' \<noteq> CHR ''a''"
  by (code_simp; fail)+

lemma sub_spaced_and: "ground e \<Longrightarrow> sub_spaced ''and'' CHR ''&'' (spells (toks l e)) = concat (map half (toks l e))"
proof -
  have "sub_spaced ''and'' CHR ''&'' (spell t @ r) = half t @ sub_spaced ''and'' CHR ''&'' r"
    if "t = TAnd c \<or> t = TOr c" "operand r" for t c r
    using that operand_not [OF that(2)] sub_spaced_hit [of "if c then ''AND'' else ''and''" "''and''" r "CHR ''&''"]
      sub_spaced_miss [of r "''and''" "CHR ''&''"] sub_spaced_miss [of "(if c then ''OR '' else ''or '') @ r" "''and''" "CHR ''&''"]
    by (cases c) (auto simp: sub_spaced_step)
  then show "ground e \<Longrightarrow> ?thesis" using sub_spaced_ground [of spell half "''and''" "CHR ''&''" e l "[]"] by simp
qed

lemma sub_spaced_or: "ground e \<Longrightarrow> sub_spaced ''or'' CHR ''|'' (concat (map half (toks l e))) = marks (toks l e)"
proof -
  have "sub_spaced ''or'' CHR ''|'' (half t @ r) = mark t @ sub_spaced ''or'' CHR ''|'' r"
    if "t = TAnd c \<or> t = TOr c" "operand r" for t c r
    using that operand_not [OF that(2)] sub_spaced_hit [of "if c then ''OR'' else ''or''" "''or''" r "CHR ''|''"]
    by (cases c) (auto simp: sub_spaced_step)
  then show "ground e \<Longrightarrow> ?thesis" using sub_spaced_ground [of half mark "''or''" "CHR ''|''" e l "[]"] by simp
qed

lemma requirement_not_Nil: "requirement e \<noteq> []"
  by (cases e) (auto simp: requirement_def paren_def item_text_def call_text_def)

lemma evaluate_interior_tokens:
  assumes "list_all tok_ok (toks 0 e)" "list_all no_call (toks 0 e)" "list_all (counts env) (items_of (toks 0 e))"
  shows "evaluate_interior_requires env (requirement e) st = Inr (holds (owned env st) c e)"
proof -
  let ?e = "inst_items (owned env st) e"
  have g: "ground ?e" using assms(2) ground_inst by blast
  have s: "settle_items env st (requirement e) = Inr (spells (toks 0 ?e))"
    unfolding requirement_def settle_tokens [OF assms] by (simp add: toks_inst_items [of 0 e UNIV] del: map_map)
  have m: "sub_spaced_operators (spells (toks 0 ?e)) = marks (toks 0 ?e)"
    using g by (simp add: sub_spaced_operators_def sub_spaced_and sub_spaced_or)
  have last: "last (marks (toks l x)) \<in> set ''01)'' \<and> marks (toks l x) \<noteq> []" if "ground x" for x l
    using that by (induction x arbitrary: l) (auto simp: paren_def)
  have "strip (marks (toks 0 ?e)) = marks (toks 0 ?e)"
    using last [OF g, of 0] operand_not [OF operand_ground [OF g, of mark 0]] by (intro strip_by_id) auto
  then show ?thesis
    using last [OF g, of 0] parse_ground [OF g] evaluate_ground [OF g, of "owned env st" c] s m
    by (auto simp: evaluate_interior_requires_def Let_def holds_inst_items requirement_not_Nil)
qed

section \<open>Plain items\<close>

lemma interior_item_plain:
  assumes "plain_name n"
  shows "interior_item n = Inr (n, 1)" "interior_item (counted n i) = Inr (n, i)"
proof -
  have "strip n = n" using assms by (simp add: plain_name_def strip_trimmed)
  then show "interior_item n = Inr (n, 1)" "interior_item (counted n i) = Inr (n, i)"
    using split_on_id [OF plain_name_chars(2) [OF assms]] split_counted [OF assms, of i]
    by (simp_all add: interior_item_def py_int_show_int)
qed

text \<open>An item of a gate: a name, alone or with a positive count.\<close>

definition plain_item :: "string \<Rightarrow> bool" where
  "plain_item n \<longleftrightarrow> (\<exists>m i. plain_name m \<and> 0 < i \<and> (n = m \<or> n = counted m i))"

lemma plain_itemE:
  assumes "plain_item n"
  obtains m where "plain_name m" "n = m" | m i where "plain_name m" "0 < i" "n = counted m i"
  using assms unfolding plain_item_def by blast

lemma plain_item_keeps:
  assumes "plain_item n"
  shows "item_ok n" "counts env n" "item_defined env n" "owned env st n = item_sat env st n"
  using assms
  by (cases rule: plain_itemE; simp add: item_parts_name item_name_sat counts_def owned_def interior_item_plain)+

text \<open>On plain items the evaluator of the entrance shuffle gives what \<open>Rules.py\<close> gives.\<close>

lemma interior_agrees:
  assumes "list_all no_call (toks 0 e)" "\<forall>n \<in> set (items_of (toks 0 e)). plain_item n"
  shows "evaluate_interior_requires env (requirement e) st = check_require_string env (requirement e) st"
proof -
  have calls: "calls_of ts = []" if "list_all no_call ts" for ts using that by (induction ts rule: calls_of.induct) auto
  have t: "tok_ok t" if "t \<in> set (toks 0 e)" for t
  proof (cases t)
    case (TItem n)
    then have "n \<in> set (items_of (toks 0 e))" using that by (simp add: items_of_iff)
    then show ?thesis using TItem assms(2) plain_item_keeps(1) by simp
  qed (use that assms(1) in \<open>auto simp: list_all_iff\<close>)
  then have ok: "list_all tok_ok (toks 0 e)" by (simp add: list_all_iff)
  have noc: "inst_calls res x = x" if "list_all no_call (toks l x)" for res x l
    using that by (induction x arbitrary: l) (auto simp: paren_def split: if_splits)
  have c: "list_all (counts env) (items_of (toks 0 e))" using assms(2) by (simp add: list_all_iff plain_item_keeps(2))
  have d: "\<forall>n \<in> set (items_of (toks 0 (inst_calls (\<lambda>_ _. Bit True) e))). item_defined env n"
    using assms(2) by (simp add: noc [OF assms(1)] plain_item_keeps(3))
  have same: "holds i k x = holds j k x" if "\<forall>n \<in> set (items_of (toks l x)). i n = j n" for i j k x l
    using that by (induction x arbitrary: l) (auto simp: paren_def split: if_splits)
  have nocall: "holds i k x = holds i k' x" if "list_all no_call (toks l x)" for i k k' x l
    using that by (induction x arbitrary: l) (auto simp: paren_def split: if_splits)
  show ?thesis
    using evaluate_interior_tokens [OF ok assms(1) c, of st "\<lambda>_ _. False"] check_require_tokens [OF ok _ d, of st] calls [OF assms(1)]
      same [of 0 e "owned env st" "item_sat env st"] plain_item_keeps(4) [of _ env st] assms(2)
      nocall [OF assms(1), of "item_sat env st" "\<lambda>_ _. False"] by simp
qed

section \<open>Calls\<close>

text \<open>What is spliced in for a call is a requirement in parentheses, or a truth value.\<close>

definition wrap :: "req \<Rightarrow> req" where
  "wrap r = (case r of Bit b \<Rightarrow> Bit b | _ \<Rightarrow> Group r)"

lemma wrap_atomic [simp]: "atomic (wrap r)"
  by (simp add: wrap_def split: req.split)

lemma holds_wrap [simp]: "holds i c (wrap r) = holds i c r"
  by (simp add: wrap_def split: req.split)

lemma toks_wrap:
  "list_all no_call (toks 0 (wrap r)) = list_all no_call (toks 0 r)" "list_all tok_ok (toks 0 (wrap r)) = list_all tok_ok (toks 0 r)"
  "items_of (toks 0 (wrap r)) = items_of (toks 0 r)"
  by (cases r; simp add: wrap_def paren_def)+

text \<open>A call is settled when its function returns the spelling of a requirement without calls; one that
  raises or is not there counts as true.\<close>

definition call_settled :: "'st rule_env \<Rightarrow> 'st \<Rightarrow> (string \<Rightarrow> string \<Rightarrow> req) \<Rightarrow> string \<Rightarrow> string \<Rightarrow> bool" where
  "call_settled env st res f a \<longleftrightarrow>
     list_all tok_ok (toks 0 (res f a)) \<and> list_all no_call (toks 0 (res f a)) \<and>
     (case rule_function env f of
        None \<Rightarrow> res f a = Bit True
      | Some func \<Rightarrow>
          (case func (trimmed_args a) st of
             Inl _ \<Rightarrow> res f a = Bit True
           | Inr (RBool b) \<Rightarrow> res f a = Bit b
           | Inr (RText s) \<Rightarrow> s = requirement (res f a) \<and> wrap (res f a) = Group (res f a)))"

lemma call_value_settled: "call_settled env st res f a \<Longrightarrow> call_value env st (f, a) = spells (toks 0 (wrap (res f a)))"
  using requirement_not_Nil [of "res f a"]
  by (auto simp: call_settled_def call_value_def wrap_def requirement_def split: option.splits sum.splits func_result.splits)

lemma find_call_tokens:
  assumes "call_ok f a" "list_all tok_ok us" "list_all no_call us"
  shows "find_call (spells us @ call_text (f, a) @ r) = Some (spells us, (f, a), r)"
proof -
  have skip: "find_call (u @ s) = map_option (\<lambda>(before, x). (u @ before, x)) (find_call s)" if "CHR ''{'' \<notin> set u" for u s
    using that
  proof (induction u)
    case (Cons c u)
    then have "c \<noteq> CHR ''{''" by auto
    with Cons show ?case by (simp add: option.map_comp comp_def case_prod_unfold)
  qed (cases "find_call s"; simp)
  have "CHR ''{'' \<notin> set (spells us)" using assms(2,3) spell_brace by (fastforce simp: list_all_iff)
  moreover have "find_call (call_text (f, a) @ r) = Some ([], (f, a), r)"
    using match_call_spec [OF assms(1), of r] by (simp add: call_text_def)
  ultimately show ?thesis by (simp add: skip)
qed

lemma find_call_none: "list_all tok_ok us \<Longrightarrow> list_all no_call us \<Longrightarrow> find_call (spells us) = None"
proof -
  have skip: "find_call u = None" if "CHR ''{'' \<notin> set u" for u using that by (induction u) auto
  assume "list_all tok_ok us" "list_all no_call us"
  then show ?thesis using spell_brace by (intro skip) (fastforce simp: list_all_iff)
qed

lemma splice_tokens:
  "length (calls_of ts) \<le> n \<Longrightarrow> list_all tok_ok us \<Longrightarrow> list_all no_call us \<Longrightarrow> list_all tok_ok ts \<Longrightarrow>
   \<forall>(f, a) \<in> set (calls_of ts). call_settled env st res f a \<Longrightarrow>
   splice_calls n env st (spells us @ spells ts) = spells us @ spells (expand (\<lambda>f a. wrap (res f a)) UNIV ts)"
proof (induction ts arbitrary: us n)
  case Nil
  then show ?case by (cases n) (simp_all add: find_call_none)
next
  case (Cons t ts)
  show ?case
  proof (cases "no_call t")
    case True
    then have "calls_of (t # ts) = calls_of ts" "expand res' UNIV (t # ts) = t # expand res' UNIV ts" for res' by (cases t; simp)+
    with Cons.IH [of n "us @ [t]"] Cons.prems True show ?thesis by simp
  next
    case False
    then obtain f a where t: "t = TCall f a" by (cases t) auto
    with Cons.prems obtain m where n: "n = Suc m" "length (calls_of ts) \<le> m" by (cases n) auto
    have c: "call_settled env st res f a" "call_ok f a" using Cons.prems t by auto
    let ?w = "toks 0 (wrap (res f a))"
    have w: "list_all tok_ok ?w" "list_all no_call ?w" using c(1) by (simp_all add: toks_wrap call_settled_def)
    have "splice_calls n env st (spells us @ spells (t # ts)) = splice_calls m env st (spells (us @ ?w) @ spells ts)"
      using find_call_tokens [OF c(2) Cons.prems(2,3), of "spells ts"] call_value_settled [OF c(1)] by (simp add: n t)
    also have "\<dots> = spells (us @ ?w) @ spells (expand (\<lambda>f a. wrap (res f a)) UNIV ts)"
      using Cons.prems w n t by (intro Cons.IH) auto
    finally show ?thesis by (simp add: t)
  qed
qed

lemma evaluate_full_tokens:
  assumes "list_all tok_ok (toks 0 e)" "length (calls_of (toks 0 e)) \<le> 16"
    "\<forall>(f, a) \<in> set (calls_of (toks 0 e)). call_settled env st res f a"
    "\<forall>n \<in> set (items_of (toks 0 (inst_calls (\<lambda>f a. wrap (res f a)) e))). counts env n"
  shows "evaluate_full_requires env (requirement e) st =
    Inr (holds (owned env st) (\<lambda>f a. holds (owned env st) (\<lambda>_ _. False) (res f a)) e)"
proof -
  let ?res = "\<lambda>f a. wrap (res f a)" and ?o = "owned env st"
  let ?e = "inst_calls ?res e"
  have t: "toks 0 ?e = expand ?res UNIV (toks 0 e)" by (rule toks_inst_calls) simp
  have "splice_calls 16 env st (requirement e) = requirement ?e"
    using splice_tokens [OF assms(2), of "[]" env st res] assms(1,3) by (simp add: requirement_def t)
  moreover have n: "list_all no_call (expand ?res F ts)" if "\<forall>(f, a) \<in> set (calls_of ts). call_settled env st res f a \<and> (f, a) \<in> F" for ts F
    using that by (induction ts rule: calls_of.induct) (auto simp: toks_wrap call_settled_def)
  moreover have "list_all tok_ok (expand ?res F ts)"
    if "\<forall>(f, a) \<in> set (calls_of ts). call_settled env st res f a" "list_all tok_ok ts" for ts F
    using that by (induction ts rule: calls_of.induct) (auto simp: toks_wrap call_settled_def)
  ultimately have "evaluate_interior_requires env (requirement ?e) st = Inr (holds ?o (\<lambda>_ _. False) ?e)"
    using assms by (intro evaluate_interior_tokens) (simp_all add: t list_all_iff [of "counts env"])
  with \<open>splice_calls 16 env st (requirement e) = requirement ?e\<close> show ?thesis
    by (simp add: evaluate_full_requires_def requirement_not_Nil holds_inst_calls)
qed

end
