(* ===== verification/Entrance_Moves.thy ===== *)
theory Entrance_Moves
  imports Entrance_Meaning
begin

text \<open>
  \<open>entrance_logic.py\<close>: the compiler from a moon's record (the methods that reach it, with jump heights,
  cap throws, further moves and captures) to its interior requirement string, and the proof that the
  string holds exactly when one of the methods can be carried out with the moves owned.
\<close>

section \<open>Joining\<close>

definition join_with :: "string \<Rightarrow> string list \<Rightarrow> string" where
  "join_with sep parts =
     (case filter (\<lambda>p. p \<noteq> []) parts of
        [] \<Rightarrow> []
      | [p] \<Rightarrow> p
      | ps \<Rightarrow> ''('' @ join sep ps @ '')'')"

definition and_join :: "string list \<Rightarrow> string" where "and_join = join_with '' and ''"
definition or_join :: "string list \<Rightarrow> string" where "or_join = join_with '' or ''"

section \<open>Tables\<close>

definition jump_frag :: "(string, string) dict" where
  "jump_frag =
     [(''PJ1'', ''|Progressive Jump:1|''), (''PJ2'', ''|Progressive Jump:2|''), (''CAP_BOUNCE'', ''|Cap Bounce|''),
      (''BACKFLIP'', ''(|Backflip| and |Progressive Crouch:1|)''), (''SIDE_FLIP'', ''|Side Flip|''),
      (''GPJ'', ''(|Ground Pound Jump| and |Progressive Ground Pound:1|)''),
      (''LONG_JUMP'', ''(|Long Jump| and |Progressive Crouch:1|)'')]"

definition height_satisfiers :: "(string, string list) dict" where
  "height_satisfiers =
     [(''double'', [''PJ1'', ''CAP_BOUNCE'', ''BACKFLIP'', ''SIDE_FLIP'', ''GPJ'', ''PJ2'']),
      (''cap_return'', [''CAP_BOUNCE'', ''BACKFLIP'', ''SIDE_FLIP'', ''GPJ'', ''PJ2'']),
      (''backflip'', [''CAP_BOUNCE'', ''BACKFLIP'', ''SIDE_FLIP'', ''GPJ'', ''PJ2'']),
      (''gpj'', [''GPJ'', ''PJ2'']), (''triple'', [''PJ2''])]"

definition throw_frag :: "(string, string) dict" where
  "throw_frag = [(''up'', ''|Up Throw|''), (''down'', ''|Down Throw|''), (''spin'', ''|Spin Throw|'')]"

definition other_frag :: "(string, string option) dict" where
  "other_frag =
     [(''ground_pound'', Some ''|Progressive Ground Pound:1|''), (''dive'', Some ''|Progressive Ground Pound:2|''),
      (''crouch'', Some ''|Progressive Crouch:1|''), (''roll'', Some ''|Progressive Crouch:2|''),
      (''roll_boost'', Some ''|Progressive Crouch:3|''), (''wall_slide'', Some ''|Wall Slide|''),
      (''climb'', Some ''|Climb|''), (''cap_bounce'', Some ''|Cap Bounce|''),
      (''bonk_roll'', Some ''|Progressive Crouch:2|''), (''single'', None)]"

definition free_captures :: "string list" where "free_captures = [''Frog'', ''Chain Chomp'']"

section \<open>The compiler\<close>

record move_method =
  jump_height :: "string option"
  cap_throws :: "string list"
  other_required :: "string list"

record moon_record =
  mr_methods :: "(string, move_method option) dict"
  mr_capture_groups :: "string list list"
  mr_location_name :: "string option"

definition not_free :: "string list \<Rightarrow> string list" where
  "not_free g = filter (\<lambda>c. c \<notin> set free_captures) g"

definition capture_term :: "string list list \<Rightarrow> string option" where
  "capture_term groups =
     (if groups = [] \<or> list_ex (\<lambda>g. not_free g = []) groups then None
      else Some (or_join (map (\<lambda>g. and_join (map item_text (not_free g))) groups)))"

definition height_terms :: "move_method \<Rightarrow> string list" where
  "height_terms m =
     (case jump_height m of
        None \<Rightarrow> []
      | Some jh \<Rightarrow>
          if jh = ''long_jump'' then [the (dict_get jump_frag ''LONG_JUMP'')]
          else (case dict_get height_satisfiers jh of
                  None \<Rightarrow> []
                | Some ks \<Rightarrow> [or_join (map (\<lambda>k. the (dict_get jump_frag k)) ks)]))"

definition throw_terms :: "move_method \<Rightarrow> string list" where
  "throw_terms m =
     (if cap_throws m \<noteq> [] \<and> ''neutral'' \<notin> set (cap_throws m) \<and> ''none'' \<notin> set (cap_throws m)
      then [or_join (List.map_filter (dict_get throw_frag) (cap_throws m))] else [])"

definition other_term :: "string list list \<Rightarrow> string \<Rightarrow> string option" where
  "other_term groups need =
     (if need = ''capture'' then capture_term groups
      else (case dict_get other_frag need of None \<Rightarrow> None | Some frag \<Rightarrow> frag))"

definition compile_method :: "string list list \<Rightarrow> move_method \<Rightarrow> string" where
  "compile_method groups m =
     and_join (height_terms m @ throw_terms m @ List.map_filter (other_term groups) (other_required m))"

definition method_exprs :: "moon_record \<Rightarrow> string list" where
  "method_exprs rec =
     foldl (\<lambda>es m. let e = compile_method (mr_capture_groups rec) m in if e \<in> set es then es else es @ [e]) []
       (List.map_filter snd (mr_methods rec))"

definition compile_interior_requires :: "moon_record \<Rightarrow> string" where
  "compile_interior_requires rec =
     (if [] \<in> set (method_exprs rec) then [] else or_join (method_exprs rec))"

text \<open>The requirements file is an argument; \<open>None\<close> when it is not found.\<close>

definition build_interior_requires_map ::
  "string list \<Rightarrow> (string, moon_record) dict option \<Rightarrow> (string, string) dict" where
  "build_interior_requires_map location_names requirements =
     (case requirements of
        None \<Rightarrow> []
      | Some rs \<Rightarrow>
          (let loc_to_record = foldl (\<lambda>d rec. if truthy (mr_location_name rec) then dict_set (the (mr_location_name rec)) rec d else d)
                 [] (map snd rs)
           in foldl (\<lambda>d name. dict_set name
                (case dict_get loc_to_record name of None \<Rightarrow> [] | Some rec \<Rightarrow> compile_interior_requires rec) d) [] location_names))"

section \<open>What a method asks for\<close>

text \<open>\<open>has n k\<close>: at least \<open>k\<close> copies of the item are owned.\<close>

definition jump_met :: "(string \<Rightarrow> int \<Rightarrow> bool) \<Rightarrow> string \<Rightarrow> bool" where
  "jump_met has k \<longleftrightarrow>
     (if k = ''PJ1'' then has ''Progressive Jump'' 1
      else if k = ''PJ2'' then has ''Progressive Jump'' 2
      else if k = ''CAP_BOUNCE'' then has ''Cap Bounce'' 1
      else if k = ''BACKFLIP'' then has ''Backflip'' 1 \<and> has ''Progressive Crouch'' 1
      else if k = ''SIDE_FLIP'' then has ''Side Flip'' 1
      else if k = ''GPJ'' then has ''Ground Pound Jump'' 1 \<and> has ''Progressive Ground Pound'' 1
      else has ''Long Jump'' 1 \<and> has ''Progressive Crouch'' 1)"

definition height_met :: "(string \<Rightarrow> int \<Rightarrow> bool) \<Rightarrow> string option \<Rightarrow> bool" where
  "height_met has h \<longleftrightarrow>
     (case h of
        None \<Rightarrow> True
      | Some jh \<Rightarrow>
          if jh = ''long_jump'' then jump_met has ''LONG_JUMP''
          else (case dict_get height_satisfiers jh of None \<Rightarrow> True | Some ks \<Rightarrow> list_ex (jump_met has) ks))"

definition throw_item :: "(string, string) dict" where
  "throw_item = [(''up'', ''Up Throw''), (''down'', ''Down Throw''), (''spin'', ''Spin Throw'')]"

text \<open>A plain throw is free; otherwise one of the listed throws, if any of them is a throw at all.\<close>

definition throws_met :: "(string \<Rightarrow> int \<Rightarrow> bool) \<Rightarrow> string list \<Rightarrow> bool" where
  "throws_met has ts \<longleftrightarrow>
     ''neutral'' \<in> set ts \<or> ''none'' \<in> set ts \<or> List.map_filter (dict_get throw_item) ts = [] \<or>
     list_ex (\<lambda>n. has n 1) (List.map_filter (dict_get throw_item) ts)"

definition move_item :: "(string, string \<times> int) dict" where
  "move_item =
     [(''ground_pound'', (''Progressive Ground Pound'', 1)), (''dive'', (''Progressive Ground Pound'', 2)),
      (''crouch'', (''Progressive Crouch'', 1)), (''roll'', (''Progressive Crouch'', 2)),
      (''roll_boost'', (''Progressive Crouch'', 3)), (''wall_slide'', (''Wall Slide'', 1)),
      (''climb'', (''Climb'', 1)), (''cap_bounce'', (''Cap Bounce'', 1)), (''bonk_roll'', (''Progressive Crouch'', 2))]"

definition captures_met :: "(string \<Rightarrow> int \<Rightarrow> bool) \<Rightarrow> string list list \<Rightarrow> bool" where
  "captures_met has groups \<longleftrightarrow>
     groups = [] \<or> list_ex (list_all (\<lambda>c. c \<in> set free_captures \<or> has c 1)) groups"

definition need_met :: "(string \<Rightarrow> int \<Rightarrow> bool) \<Rightarrow> string list list \<Rightarrow> string \<Rightarrow> bool" where
  "need_met has groups need \<longleftrightarrow>
     (if need = ''capture'' then captures_met has groups
      else (case dict_get move_item need of None \<Rightarrow> True | Some (n, k) \<Rightarrow> has n k))"

definition method_met :: "(string \<Rightarrow> int \<Rightarrow> bool) \<Rightarrow> string list list \<Rightarrow> move_method \<Rightarrow> bool" where
  "method_met has groups m \<longleftrightarrow>
     height_met has (jump_height m) \<and> throws_met has (cap_throws m) \<and>
     list_all (need_met has groups) (other_required m)"

definition moon_met :: "(string \<Rightarrow> int \<Rightarrow> bool) \<Rightarrow> moon_record \<Rightarrow> bool" where
  "moon_met has rec \<longleftrightarrow>
     (let methods = List.map_filter snd (mr_methods rec)
      in methods = [] \<or> list_ex (method_met has (mr_capture_groups rec)) methods)"

section \<open>The compiled text as a requirement\<close>

text \<open>Joining the spellings of requirements spells the joined requirement.\<close>

definition joined_text :: "(req \<Rightarrow> req \<Rightarrow> req) \<Rightarrow> req list \<Rightarrow> string" where
  "joined_text opr qs = (if qs = [] then [] else requirement (group_req opr qs))"

lemma join_with_reqs:
  assumes "joins opr t" "filter (\<lambda>p. p \<noteq> []) ps = map requirement qs" "list_all atomic qs"
  shows "join_with (spell t) ps = joined_text opr qs"
  using assms(2) group_req_spell [OF assms(1) _ assms(3)]
  by (cases qs rule: no_one_more) (simp_all add: join_with_def joined_text_def)

lemma joins_lower [simp]: "spell (TAnd False) = '' and ''" "spell (TOr False) = '' or ''"
  by simp_all

lemmas and_join_reqs = join_with_reqs [of "And False" "TAnd False", simplified, folded and_join_def]
lemmas or_join_reqs = join_with_reqs [of "Or False" "TOr False", simplified, folded or_join_def]

lemma filter_requirements [simp]: "filter (\<lambda>p. p \<noteq> []) (map requirement qs) = map requirement qs"
  by (simp add: filter_id_conv requirement_not_Nil)

text \<open>A requirement over plain items, without calls, that can stand beside an operator.\<close>

definition move_req :: "req \<Rightarrow> bool" where
  "move_req r \<longleftrightarrow> atomic r \<and> list_all no_call (toks 0 r) \<and> (\<forall>n \<in> set (items_of (toks 0 r)). plain_item n)"

lemma move_req_atomic: "list_all move_req qs \<Longrightarrow> list_all atomic qs"
  by (simp add: list_all_iff move_req_def)

lemma move_req_Item [simp]: "move_req (Item n) \<longleftrightarrow> plain_item n"
  by (simp add: move_req_def)

lemma move_req_group:
  assumes "list_all move_req qs" "opr = And False \<or> opr = Or False" "qs \<noteq> []"
  shows "move_req (group_req opr qs)"
proof -
  from assms(2) obtain t where t: "joins opr t" "no_item t" "no_call t" "tok_ok t"
    using joins_simps(1) [of False] joins_simps(2) [of False] by (auto simp del: joins_simps)
  note keeps = group_req_keeps [OF t(1) move_req_atomic [OF assms(1)] t(2-4)]
  show ?thesis
    using assms(1) atomic_group [OF move_req_atomic [OF assms(1)] assms(3)] keeps(1,3) by (auto simp: move_req_def list_all_iff)
qed

lemma move_req_ok: "move_req r \<Longrightarrow> list_all tok_ok (toks 0 r)"
  unfolding list_all_iff
proof
  fix t assume r: "move_req r" and t: "t \<in> set (toks 0 r)"
  show "tok_ok t"
  proof (cases t)
    case (TItem n)
    then show ?thesis using t r items_of_iff [of n "toks 0 r"] by (simp add: move_req_def plain_item_keeps(1))
  qed (use t r in \<open>auto simp: move_req_def list_all_iff\<close>)
qed

lemma evaluate_move_req: "move_req r \<Longrightarrow> evaluate_interior_requires env (requirement r) st = Inr (holds (owned env st) c r)"
  by (intro evaluate_interior_tokens move_req_ok) (auto simp: move_req_def list_all_iff plain_item_keeps(2))

text \<open>The requirements behind the tables.\<close>

definition jump_req :: "string \<Rightarrow> req" where
  "jump_req k =
     (if k = ''PJ1'' then Item ''Progressive Jump:1''
      else if k = ''PJ2'' then Item ''Progressive Jump:2''
      else if k = ''CAP_BOUNCE'' then Item ''Cap Bounce''
      else if k = ''BACKFLIP'' then Group (And False (Item ''Backflip'') (Item ''Progressive Crouch:1''))
      else if k = ''SIDE_FLIP'' then Item ''Side Flip''
      else if k = ''GPJ'' then Group (And False (Item ''Ground Pound Jump'') (Item ''Progressive Ground Pound:1''))
      else Group (And False (Item ''Long Jump'') (Item ''Progressive Crouch:1'')))"

definition has_count :: "'st rule_env \<Rightarrow> 'st \<Rightarrow> string \<Rightarrow> int \<Rightarrow> bool" where
  "has_count env st n k \<longleftrightarrow> k \<le> state_count env n st"

lemma counted_texts:
  "''Progressive Jump:1'' = counted ''Progressive Jump'' 1" "''Progressive Jump:2'' = counted ''Progressive Jump'' 2"
  "''Progressive Crouch:1'' = counted ''Progressive Crouch'' 1" "''Progressive Crouch:2'' = counted ''Progressive Crouch'' 2"
  "''Progressive Crouch:3'' = counted ''Progressive Crouch'' 3"
  "''Progressive Ground Pound:1'' = counted ''Progressive Ground Pound'' 1"
  "''Progressive Ground Pound:2'' = counted ''Progressive Ground Pound'' 2"
  by (code_simp; fail)+

lemma plain_moves:
  "list_all plain_name [''Progressive Jump'', ''Cap Bounce'', ''Backflip'', ''Progressive Crouch'', ''Side Flip'',
     ''Ground Pound Jump'', ''Progressive Ground Pound'', ''Long Jump'', ''Up Throw'', ''Down Throw'', ''Spin Throw'',
     ''Wall Slide'', ''Climb'']"
  by code_simp

lemma owned_plain:
  "plain_name n \<Longrightarrow> owned env st n \<longleftrightarrow> has_count env st n 1"
  "plain_name n \<Longrightarrow> owned env st (counted n i) \<longleftrightarrow> has_count env st n i"
  by (simp_all add: owned_def interior_item_plain has_count_def)

lemma plain_item_simps: "plain_name n \<Longrightarrow> plain_item n" "plain_name n \<Longrightarrow> 0 < i \<Longrightarrow> plain_item (counted n i)"
  unfolding plain_item_def using zero_less_one by blast+

lemma jump_req_move: "move_req (jump_req k)" "holds (owned env st) c (jump_req k) \<longleftrightarrow> jump_met (has_count env st) k"
  using plain_moves
  by (simp_all add: jump_req_def jump_met_def move_req_def counted_texts paren_def plain_item_simps owned_plain)

lemma jump_frag_req:
  assumes "dict_get height_satisfiers jh = Some ks"
  shows "map (\<lambda>k. the (dict_get jump_frag k)) ks = map (requirement \<circ> jump_req) ks" "ks \<noteq> []"
proof -
  have "list_all (\<lambda>(jh, ks). map (\<lambda>k. the (dict_get jump_frag k)) ks = map (requirement \<circ> jump_req) ks \<and> ks \<noteq> []) height_satisfiers"
    by code_simp
  with map_of_SomeD [OF assms] show "map (\<lambda>k. the (dict_get jump_frag k)) ks = map (requirement \<circ> jump_req) ks" "ks \<noteq> []"
    by (auto simp: list_all_iff)
qed

definition height_reqs :: "move_method \<Rightarrow> req list" where
  "height_reqs m =
     (case jump_height m of
        None \<Rightarrow> []
      | Some jh \<Rightarrow>
          if jh = ''long_jump'' then [jump_req ''LONG_JUMP'']
          else (case dict_get height_satisfiers jh of None \<Rightarrow> [] | Some ks \<Rightarrow> [group_req (Or False) (map jump_req ks)]))"

lemma jump_reqs_move: "list_all move_req (map jump_req ks)"
  by (simp add: list_all_iff jump_req_move)

lemma height_reqs_spec:
  "height_terms m = map requirement (height_reqs m)" "list_all move_req (height_reqs m)"
  "(\<forall>q \<in> set (height_reqs m). holds (owned env st) c q) \<longleftrightarrow> height_met (has_count env st) (jump_height m)"
proof -
  have long: "the (dict_get jump_frag ''LONG_JUMP'') = requirement (jump_req ''LONG_JUMP'')"
    by code_simp
  have tab: "or_join (map (\<lambda>k. the (dict_get jump_frag k)) ks) = requirement (group_req (Or False) (map jump_req ks))"
    "move_req (group_req (Or False) (map jump_req ks))" "ks \<noteq> []"
    if "dict_get height_satisfiers jh = Some ks" for jh ks
  proof -
    have e: "map (\<lambda>k. the (dict_get jump_frag k)) ks = map requirement (map jump_req ks)" "ks \<noteq> []"
      using jump_frag_req [OF that] by simp_all
    show "or_join (map (\<lambda>k. the (dict_get jump_frag k)) ks) = requirement (group_req (Or False) (map jump_req ks))"
      unfolding e(1) or_join_reqs [OF filter_requirements move_req_atomic [OF jump_reqs_move]] using e(2) by (simp add: joined_text_def)
    show "move_req (group_req (Or False) (map jump_req ks))" "ks \<noteq> []"
      using move_req_group [OF jump_reqs_move [of ks], of "Or False"] e(2) by simp_all
  qed
  show "height_terms m = map requirement (height_reqs m)" "list_all move_req (height_reqs m)"
    using long tab by (auto simp: height_terms_def height_reqs_def jump_req_move split: option.split)
  show "(\<forall>q \<in> set (height_reqs m). holds (owned env st) c q) \<longleftrightarrow> height_met (has_count env st) (jump_height m)"
  proof (cases "jump_height m")
    case (Some jh)
    then show ?thesis
      by (cases "jh = ''long_jump''"; cases "dict_get height_satisfiers jh")
         (simp_all add: height_reqs_def height_met_def jump_req_move group_or_holds list_ex_iff)
  qed (simp add: height_reqs_def height_met_def)
qed

definition throw_reqs :: "move_method \<Rightarrow> req list" where
  "throw_reqs m =
     (let ns = List.map_filter (dict_get throw_item) (cap_throws m)
      in if ''neutral'' \<in> set (cap_throws m) \<or> ''none'' \<in> set (cap_throws m) \<or> ns = [] then []
         else [group_req (Or False) (map Item ns)])"

lemma throw_frag_item: "dict_get throw_frag t = map_option item_text (dict_get throw_item t)"
  by (simp add: throw_frag_def throw_item_def item_text_def)

lemma throw_items_plain: "n \<in> set (List.map_filter (dict_get throw_item) ts) \<Longrightarrow> plain_name n"
  using plain_moves by (auto simp: throw_item_def map_filter_def split: if_splits)

lemma items_move: "list_all plain_name ns \<Longrightarrow> list_all move_req (map Item ns)"
  by (simp add: list_all_iff plain_item_simps)

lemma throw_reqs_spec:
  "filter (\<lambda>p. p \<noteq> []) (throw_terms m) = map requirement (throw_reqs m)" "list_all move_req (throw_reqs m)"
  "(\<forall>q \<in> set (throw_reqs m). holds (owned env st) c q) \<longleftrightarrow> throws_met (has_count env st) (cap_throws m)"
proof -
  let ?ns = "List.map_filter (dict_get throw_item) (cap_throws m)"
  have plain: "list_all plain_name ?ns" using throw_items_plain by (auto simp: list_all_iff)
  note move = items_move [OF plain]
  have "List.map_filter (dict_get throw_frag) ts = map requirement (map Item (List.map_filter (dict_get throw_item) ts))" for ts
    by (induction ts) (simp_all add: map_filter_simps throw_frag_item requirement_def split: option.split)
  then have joined: "or_join (List.map_filter (dict_get throw_frag) (cap_throws m)) = joined_text (Or False) (map Item ?ns)"
    using or_join_reqs [OF _ move_req_atomic [OF move]] by (metis filter_requirements)
  have none: "cap_throws m = [] \<Longrightarrow> ?ns = []" by (simp add: map_filter_simps)
  show "filter (\<lambda>p. p \<noteq> []) (throw_terms m) = map requirement (throw_reqs m)"
    using joined none by (auto simp: throw_terms_def throw_reqs_def joined_text_def Let_def requirement_not_Nil)
  show "list_all move_req (throw_reqs m)" using move_req_group [OF move, of "Or False"] by (simp add: throw_reqs_def Let_def)
  show "(\<forall>q \<in> set (throw_reqs m). holds (owned env st) c q) \<longleftrightarrow> throws_met (has_count env st) (cap_throws m)"
    using throw_items_plain [of _ "cap_throws m"] by (auto simp: throw_reqs_def throws_met_def Let_def group_or_holds list_ex_iff owned_plain)
qed

text \<open>Names of captures that can be written between bars.\<close>

definition captures_ok :: "string list list \<Rightarrow> bool" where
  "captures_ok groups \<longleftrightarrow> list_all (list_all plain_name) groups"

definition capture_req :: "string list \<Rightarrow> req" where
  "capture_req g = group_req (And False) (map Item (not_free g))"

definition capture_reqs :: "string list list \<Rightarrow> req list" where
  "capture_reqs groups =
     (if groups = [] \<or> list_ex (\<lambda>g. not_free g = []) groups then []
      else [group_req (Or False) (map capture_req groups)])"

lemma capture_req_spec:
  assumes "list_all plain_name g" "not_free g \<noteq> []"
  shows "and_join (map item_text (not_free g)) = requirement (capture_req g)" "move_req (capture_req g)"
    "holds (owned env st) c (capture_req g) \<longleftrightarrow> list_all (\<lambda>c. c \<in> set free_captures \<or> has_count env st c 1) g"
proof -
  have plain: "list_all plain_name (not_free g)" using assms(1) by (simp add: not_free_def list_all_iff)
  have e: "map item_text (not_free g) = map requirement (map Item (not_free g))" by (simp add: requirement_def)
  show "and_join (map item_text (not_free g)) = requirement (capture_req g)"
    unfolding e and_join_reqs [OF filter_requirements move_req_atomic [OF items_move [OF plain]]] using assms(2)
    by (simp add: joined_text_def capture_req_def)
  show "move_req (capture_req g)"
    unfolding capture_req_def using assms(2) by (intro move_req_group items_move plain) simp_all
  show "holds (owned env st) c (capture_req g) \<longleftrightarrow> list_all (\<lambda>c. c \<in> set free_captures \<or> has_count env st c 1) g"
    using plain assms(2) by (auto simp: capture_req_def group_and_holds not_free_def list_all_iff owned_plain)
qed

lemma capture_reqs_spec:
  assumes "captures_ok groups"
  shows "capture_term groups = (case capture_reqs groups of [] \<Rightarrow> None | q # _ \<Rightarrow> Some (requirement q))"
    "list_all move_req (capture_reqs groups)"
    "(\<forall>q \<in> set (capture_reqs groups). holds (owned env st) c q) \<longleftrightarrow> captures_met (has_count env st) groups"
proof -
  have free: "captures_met (has_count env st) groups" if "list_ex (\<lambda>g. not_free g = []) groups"
    using that by (fastforce simp: captures_met_def list_ex_iff not_free_def list_all_iff filter_empty_conv)
  have g: "list_all plain_name g \<and> not_free g \<noteq> []" if "g \<in> set groups" "\<not> list_ex (\<lambda>g. not_free g = []) groups" for g
    using that assms by (auto simp: captures_ok_def list_all_iff list_ex_iff)
  have move: "list_all move_req (map capture_req groups)" if "\<not> list_ex (\<lambda>g. not_free g = []) groups"
    using g [OF _ that] capture_req_spec(2) by (auto simp: list_all_iff)
  have "or_join (map (\<lambda>g. and_join (map item_text (not_free g))) groups) = joined_text (Or False) (map capture_req groups)"
    if "\<not> list_ex (\<lambda>g. not_free g = []) groups"
  proof -
    have e: "map (\<lambda>g. and_join (map item_text (not_free g))) groups = map requirement (map capture_req groups)"
      using g [OF _ that] capture_req_spec(1) by simp
    show ?thesis unfolding e by (rule or_join_reqs [OF filter_requirements move_req_atomic [OF move [OF that]]])
  qed
  then show "capture_term groups = (case capture_reqs groups of [] \<Rightarrow> None | q # _ \<Rightarrow> Some (requirement q))"
    by (simp add: capture_term_def capture_reqs_def joined_text_def)
  show "list_all move_req (capture_reqs groups)"
    using move_req_group [OF move, of "Or False"] by (simp add: capture_reqs_def)
  show "(\<forall>q \<in> set (capture_reqs groups). holds (owned env st) c q) \<longleftrightarrow> captures_met (has_count env st) groups"
  proof (cases "groups = [] \<or> list_ex (\<lambda>g. not_free g = []) groups")
    case True
    then show ?thesis using free by (auto simp: capture_reqs_def captures_met_def [of _ "[]"])
  next
    case False
    then have "holds (owned env st) c (capture_req g) \<longleftrightarrow> list_all (\<lambda>c. c \<in> set free_captures \<or> has_count env st c 1) g"
      if "g \<in> set groups" for g using g that by (intro capture_req_spec(3)) simp_all
    with False show ?thesis by (simp add: capture_reqs_def group_or_holds captures_met_def [of _ groups] list_ex_iff)
  qed
qed

definition other_reqs :: "string list list \<Rightarrow> string \<Rightarrow> req list" where
  "other_reqs groups need =
     (if need = ''capture'' then capture_reqs groups
      else (case dict_get other_frag need of Some (Some f) \<Rightarrow> [Item (butlast (tl f))] | _ \<Rightarrow> []))"

lemma other_frag_move:
  "dict_get other_frag need = Some (Some f) \<Longrightarrow>
   \<exists>n k. dict_get move_item need = Some (n, k) \<and> plain_name n \<and> 0 < k \<and> f = item_text (butlast (tl f)) \<and>
     (butlast (tl f) = counted n k \<or> k = 1 \<and> butlast (tl f) = n)"
proof -
  assume f: "dict_get other_frag need = Some (Some f)"
  have "list_all (\<lambda>(need, f). case f of None \<Rightarrow> True | Some f \<Rightarrow>
      (case dict_get move_item need of None \<Rightarrow> False
       | Some (n, k) \<Rightarrow> plain_name n \<and> 0 < k \<and> f = item_text (butlast (tl f)) \<and>
           (butlast (tl f) = counted n k \<or> k = 1 \<and> butlast (tl f) = n))) other_frag"
    by code_simp
  with map_of_SomeD [OF f] show ?thesis by (fastforce simp: list_all_iff split: option.splits)
qed

lemma other_frag_none: "dict_get other_frag need = None \<or> dict_get other_frag need = Some None \<Longrightarrow> dict_get move_item need = None"
proof (rule ccontr)
  assume "dict_get other_frag need = None \<or> dict_get other_frag need = Some None" "dict_get move_item need \<noteq> None"
  then obtain v where v: "(need, v) \<in> set move_item" by (auto dest: map_of_SomeD)
  have "list_all (\<lambda>(need, v). case dict_get other_frag need of Some (Some f) \<Rightarrow> True | _ \<Rightarrow> False) move_item" by code_simp
  with v \<open>dict_get other_frag need = None \<or> dict_get other_frag need = Some None\<close> show False by (auto simp: list_all_iff)
qed

lemma other_reqs_spec:
  assumes "captures_ok groups"
  shows "other_term groups need = (case other_reqs groups need of [] \<Rightarrow> None | q # _ \<Rightarrow> Some (requirement q))"
    "length (other_reqs groups need) \<le> 1" "list_all move_req (other_reqs groups need)"
    "(\<forall>q \<in> set (other_reqs groups need). holds (owned env st) c q) \<longleftrightarrow> need_met (has_count env st) groups need"
proof -
  note cap = capture_reqs_spec(1,2) [OF assms] capture_reqs_spec(3) [OF assms, of env st c]
  consider "need = ''capture''" | f where "need \<noteq> ''capture''" "dict_get other_frag need = Some (Some f)"
    | "need \<noteq> ''capture''" "dict_get other_frag need = None \<or> dict_get other_frag need = Some None"
    using option.exhaust by metis
  then have "other_term groups need = (case other_reqs groups need of [] \<Rightarrow> None | q # _ \<Rightarrow> Some (requirement q)) \<and>
    length (other_reqs groups need) \<le> 1 \<and> list_all move_req (other_reqs groups need) \<and>
    ((\<forall>q \<in> set (other_reqs groups need). holds (owned env st) c q) \<longleftrightarrow> need_met (has_count env st) groups need)"
  proof cases
    case 1
    then show ?thesis using cap by (simp add: other_term_def other_reqs_def need_met_def capture_reqs_def)
  next
    case (2 f)
    from other_frag_move [OF 2(2)] obtain n k where nk: "dict_get move_item need = Some (n, k)" "plain_name n" "0 < k"
      "f = item_text (butlast (tl f))" "butlast (tl f) = counted n k \<or> k = 1 \<and> butlast (tl f) = n" by blast
    then have "plain_item (butlast (tl f))" "owned env st (butlast (tl f)) \<longleftrightarrow> has_count env st n k"
      by (auto simp: plain_item_simps owned_plain)
    with 2 nk(1,4) show ?thesis by (simp add: other_term_def other_reqs_def need_met_def requirement_def)
  next
    case 3
    then show ?thesis using other_frag_none [of need] by (auto simp: other_term_def other_reqs_def need_met_def)
  qed
  then show "other_term groups need = (case other_reqs groups need of [] \<Rightarrow> None | q # _ \<Rightarrow> Some (requirement q))"
    "length (other_reqs groups need) \<le> 1" "list_all move_req (other_reqs groups need)"
    "(\<forall>q \<in> set (other_reqs groups need). holds (owned env st) c q) \<longleftrightarrow> need_met (has_count env st) groups need" by blast+
qed

definition method_reqs :: "string list list \<Rightarrow> move_method \<Rightarrow> req list" where
  "method_reqs groups m = height_reqs m @ throw_reqs m @ concat (map (other_reqs groups) (other_required m))"

lemma method_reqs_spec:
  assumes "captures_ok groups"
  shows "compile_method groups m = joined_text (And False) (method_reqs groups m)" "list_all move_req (method_reqs groups m)"
    "(\<forall>q \<in> set (method_reqs groups m). holds (owned env st) c q) \<longleftrightarrow> method_met (has_count env st) groups m"
proof -
  note others = other_reqs_spec [OF assms]
  have o: "List.map_filter (other_term groups) ns = map requirement (concat (map (other_reqs groups) ns))" for ns
  proof (induction ns)
    case (Cons n ns)
    then show ?case using others(1,2) [of n] by (cases "other_reqs groups n") (simp_all add: map_filter_simps)
  qed (simp add: map_filter_simps)
  show moves: "list_all move_req (method_reqs groups m)"
    using height_reqs_spec(2) throw_reqs_spec(2) others(3) by (auto simp: method_reqs_def list_all_iff)
  have "filter (\<lambda>p. p \<noteq> []) (height_terms m @ throw_terms m @ List.map_filter (other_term groups) (other_required m)) =
      map requirement (method_reqs groups m)"
    unfolding o height_reqs_spec(1) filter_append throw_reqs_spec(1) filter_requirements by (simp add: method_reqs_def)
  then show "compile_method groups m = joined_text (And False) (method_reqs groups m)"
    unfolding compile_method_def by (rule and_join_reqs [OF _ move_req_atomic [OF moves]])
  show "(\<forall>q \<in> set (method_reqs groups m). holds (owned env st) c q) \<longleftrightarrow> method_met (has_count env st) groups m"
  proof -
    have "(\<forall>q \<in> set (concat (map (other_reqs groups) ns)). holds (owned env st) c q) \<longleftrightarrow> list_all (need_met (has_count env st) groups) ns" for ns
      by (induction ns) (simp_all add: ball_Un others(4))
    then show ?thesis
      using height_reqs_spec(3) [of m env st c] throw_reqs_spec(3) [of m env st c]
      by (simp add: method_reqs_def method_met_def ball_Un del: set_concat)
  qed
qed

lemma method_exprs_set: "set (method_exprs rec) = compile_method (mr_capture_groups rec) ` set (List.map_filter snd (mr_methods rec))"
proof -
  have "set (foldl (\<lambda>es m. let e = f m in if e \<in> set es then es else es @ [e]) acc ms) = set acc \<union> f ` set ms" for f :: "move_method \<Rightarrow> string" and acc ms
    by (induction ms arbitrary: acc) (auto simp: Let_def)
  then show ?thesis by (simp add: method_exprs_def)
qed

lemma requirement_choice:
  "set es \<subseteq> requirement ` R \<Longrightarrow> \<exists>qs. es = map requirement qs \<and> set qs \<subseteq> R"
proof (induction es)
  case (Cons e es)
  then obtain qs q where "es = map requirement qs" "set qs \<subseteq> R" "e = requirement q" "q \<in> R" by auto
  then show ?case by (intro exI [of _ "q # qs"]) simp
qed simp

lemma interior_requires_spec:
  assumes "captures_ok (mr_capture_groups rec)"
  shows "evaluate_interior_requires env (compile_interior_requires rec) st = Inr (moon_met (has_count env st) rec)"
proof -
  let ?g = "mr_capture_groups rec" and ?ms = "List.map_filter snd (mr_methods rec)"
  let ?req = "\<lambda>m. group_req (And False) (method_reqs ?g m)"
  note spec = method_reqs_spec [OF assms]
  show ?thesis
  proof (cases "[] \<in> set (method_exprs rec)")
    case True
    then obtain m where "m \<in> set ?ms" "compile_method ?g m = []" by (auto simp: method_exprs_set)
    moreover from this have "method_met (has_count env st) ?g m"
      using spec(1,3) [of m] requirement_not_Nil by (auto simp: joined_text_def split: if_splits)
    ultimately have "moon_met (has_count env st) rec" by (auto simp: moon_met_def Let_def list_ex_iff)
    with True show ?thesis by (simp add: compile_interior_requires_def evaluate_interior_requires_def)
  next
    case False
    then have ne: "method_reqs ?g m \<noteq> []" if "m \<in> set ?ms" for m
      using that spec(1) [of m] by (auto simp: method_exprs_set joined_text_def image_iff)
    then have exprs: "set (method_exprs rec) = requirement ` ?req ` set ?ms"
      using spec(1) by (auto simp: method_exprs_set joined_text_def image_image)
    have moves: "move_req (?req m)" if "m \<in> set ?ms" for m
      using ne [OF that] spec(2) by (intro move_req_group) simp_all
    have met: "holds (owned env st) (\<lambda>_ _. False) (?req m) \<longleftrightarrow> method_met (has_count env st) ?g m" if "m \<in> set ?ms" for m
      using spec(3) [where c = "\<lambda>_ _. False"] by (simp add: group_and_holds ne [OF that])
    obtain qs where qs: "method_exprs rec = map requirement qs" "set qs \<subseteq> ?req ` set ?ms"
      using requirement_choice [of "method_exprs rec" "?req ` set ?ms"] exprs by auto
    have qmoves: "list_all move_req qs" using qs(2) moves by (auto simp: list_all_iff)
    have same: "holds (owned env st) (\<lambda>_ _. False) q \<longleftrightarrow> holds (owned env st) (\<lambda>_ _. False) r"
      if "requirement q = requirement r" "move_req q" "move_req r" for q r
      using evaluate_move_req [OF that(2), of env st "\<lambda>_ _. False"] evaluate_move_req [OF that(3), of env st "\<lambda>_ _. False"] that(1) by simp
    have ex: "(\<exists>q \<in> set qs. holds (owned env st) (\<lambda>_ _. False) q) \<longleftrightarrow> (\<exists>m \<in> set ?ms. method_met (has_count env st) ?g m)"
    proof
      assume "\<exists>q \<in> set qs. holds (owned env st) (\<lambda>_ _. False) q"
      then show "\<exists>m \<in> set ?ms. method_met (has_count env st) ?g m" using qs(2) met by blast
    next
      assume "\<exists>m \<in> set ?ms. method_met (has_count env st) ?g m"
      then obtain m where m: "m \<in> set ?ms" "holds (owned env st) (\<lambda>_ _. False) (?req m)" using met by blast
      have "requirement (?req m) \<in> set (method_exprs rec)" unfolding exprs using m(1) by (intro imageI)
      then obtain q where q: "q \<in> set qs" "requirement q = requirement (?req m)" unfolding qs(1) set_map by (elim imageE) simp
      then have "move_req q" using qmoves by (simp add: list_all_iff)
      with same [OF q(2) _ moves [OF m(1)]] m(2) q(1) show "\<exists>q \<in> set qs. holds (owned env st) (\<lambda>_ _. False) q" by blast
    qed
    have c: "compile_interior_requires rec = joined_text (Or False) qs"
      using False or_join_reqs [OF filter_requirements move_req_atomic [OF qmoves]] by (simp add: compile_interior_requires_def qs(1))
    show ?thesis
    proof (cases "qs = []")
      case True
      then have "?ms = []" using qs(1) exprs by (metis image_is_empty list.set(1) list.simps(8) set_empty)
      with True c show ?thesis by (simp add: joined_text_def evaluate_interior_requires_def moon_met_def)
    next
      case qne: False
      then have "?ms \<noteq> []" using qs(2) by auto
      have "move_req (group_req (Or False) qs)" using qne by (intro move_req_group qmoves) simp_all
      then show ?thesis
        using evaluate_move_req [of "group_req (Or False) qs" env st "\<lambda>_ _. False"] ex qne \<open>?ms \<noteq> []\<close>
        by (simp add: c joined_text_def group_or_holds moon_met_def Let_def list_ex_iff)
    qed
  qed
qed

text \<open>C11 The compiled interior requirement of a moon holds exactly when one of its methods can be carried
  out: for any record whose capture names are plain, evaluating the compiled string in a collection
  state never fails and gives whether some method's jump height, throws, moves and captures are owned;
  a moon without methods is free.\<close>

theorem interior_requires_meaning:
  assumes "captures_ok (mr_capture_groups rec)"
  shows "evaluate_interior_requires env (compile_interior_requires rec) st = Inr (moon_met (has_count env st) rec)"
  by (rule interior_requires_spec [OF assms])

definition two_methods :: moon_record where
  "two_methods = \<lparr>mr_methods =
      [(''a'', Some \<lparr>jump_height = Some ''gpj'', cap_throws = [''up'', ''spin''], other_required = [''capture'', ''climb'', ''single'']\<rparr>),
       (''b'', None),
       (''c'', Some \<lparr>jump_height = Some ''long_jump'', cap_throws = [''neutral''], other_required = [''roll'']\<rparr>)],
    mr_capture_groups = [[''Frog'', ''Uproot''], [''Sherm'', ''Pokio'']], mr_location_name = Some ''Sand: Top''\<rparr>"

definition bag_env :: "string list rule_env" where
  "bag_env = \<lparr>item_counts = [], item_table = [], state_count = (\<lambda>n st. int (length (filter (\<lambda>m. m = n) st))),
     rule_function = (\<lambda>_. None), percent_count = (\<lambda>_ _. Inl ValueError)\<rparr>"

theorem interior_requires_meaning_witness:
  "compile_interior_requires two_methods =
     ''(((''@''(|Ground Pound Jump| and |Progressive Ground Pound:1|) or |Progressive Jump:2|) and (|Up Throw| or |Spin Throw|) and (|Uproot| or (|Sherm| and |Pokio|)) and |Climb|) or ((|Long Jump| and |Progressive Crouch:1|) and |Progressive Crouch:2|))'' \<and>
   evaluate_interior_requires bag_env (compile_interior_requires two_methods) [''Uproot'', ''Climb'', ''Spin Throw'', ''Progressive Jump'', ''Progressive Jump''] = Inr True \<and>
   evaluate_interior_requires bag_env (compile_interior_requires two_methods) [''Long Jump'', ''Progressive Crouch''] = Inr False"
proof -
  have ok: "captures_ok (mr_capture_groups two_methods)" by code_simp
  have "moon_met (has_count bag_env [''Uproot'', ''Climb'', ''Spin Throw'', ''Progressive Jump'', ''Progressive Jump'']) two_methods"
    "\<not> moon_met (has_count bag_env [''Long Jump'', ''Progressive Crouch'']) two_methods" by code_simp+
  moreover have "compile_interior_requires two_methods =
     ''(((''@''(|Ground Pound Jump| and |Progressive Ground Pound:1|) or |Progressive Jump:2|) and (|Up Throw| or |Spin Throw|) and (|Uproot| or (|Sherm| and |Pokio|)) and |Climb|) or ((|Long Jump| and |Progressive Crouch:1|) and |Progressive Crouch:2|))''"
    by code_simp
  ultimately show ?thesis using interior_requires_meaning [OF ok, of bag_env] by simp
qed

end
