(* ===== verification/Entrance_Doors.thy ===== *)
theory Entrance_Doors
  imports Entrance_Moves
begin

text \<open>
  \<open>entrance_logic.py\<close>: the gate tables and the access rule of a shuffled door, which joins the gates of
  the kingdom, of the door, of the interior it leads to and of moon-pipes.
\<close>

section \<open>Gate tables\<close>

definition jump :: "string \<Rightarrow> string" where "jump k = the (dict_get jump_frag k)"

definition high_jump :: string where
  "high_jump = or_join [jump ''BACKFLIP'', jump ''SIDE_FLIP'', jump ''PJ2'', jump ''GPJ'']"

definition lake_gate :: string where
  "lake_gate = or_join [''|Zipper|'',
     and_join [high_jump, ''|Cap Bounce|'', or_join [''|Progressive Ground Pound:2|'', ''|Wall Slide|'']]]"

definition narrow_valley_gate :: string where
  "narrow_valley_gate = or_join [''|Gushen|'', and_join [jump ''PJ2'', ''|Wall Slide|'', ''|Cap Bounce|'']]"

definition bowsers :: string where "bowsers = ''Bowser'' @ [CHR 39] @ ''s''"

definition kingdom_entrance_gates :: "(string, string) dict" where
  "kingdom_entrance_gates = [(''Metro'', ''|Spark pylon|''), (bowsers, ''|Spark pylon|''), (''Lake'', lake_gate)]"

definition subarea_entrance_gates :: "(string, string) dict" where
  "subarea_entrance_gates =
     [(''Unzipping the Chasm'', ''|Zipper|''), (''Sewers'', ''|Manhole|''), (''Rotating Maze Shards'', ''|Manhole|''),
      (''Swinging Along the High-Rises'', ''|Mini Rocket|''), (''A Sea of Clouds'', ''|Mini Rocket|''),
      (''Strange Neighborhood'', ''|Mini Rocket|''), (''Shards in the Fog'', ''(|Mini Rocket| and |Climb|)''),
      (''Picture Match (Mario)'', ''|Mini Rocket|''), (''Roulette Tower'', ''|Mini Rocket|''),
      (''Shards Under Siege'', ''|Taxi|''), (''Flying Through the Narrow Valley'', narrow_valley_gate),
      (''Fork-Flickin to the Summit'', ''|Lava Bubble|''), (''Shards in the Cheese Rocks'', ''|Hammer Bro|''),
      (''Spinning Athletics'', ''|Lava Bubble|''), (''Crowded Elevator'', ''|Climb|''),
      (''Spinning-Platforms Treasure Vault'', ''|Climb|''),
      (''Jaxi Driving'', ''({SandPeace()} or (|Bullet Bill| and |Progressive Ground Pound:2| and |Wall Slide|))'')]"

definition subarea_exit_gates :: "(string, string) dict" where
  "subarea_exit_gates =
     [(''Swinging Along the High-Rises'', ''|Mini Rocket|''), (''A Sea of Clouds'', ''|Mini Rocket|''),
      (''Strange Neighborhood'', ''|Mini Rocket|''), (''Shards in the Fog'', ''|Mini Rocket|''),
      (''Picture Match (Mario)'', ''|Mini Rocket|''), (''Roulette Tower'', ''|Mini Rocket|'')]"

definition moon_rock_reach_capture :: "(string, string) dict" where
  "moon_rock_reach_capture = [(''Cap'', ''|Paragoomba|''), (''Luncheon'', ''|Lava Bubble|'')]"

definition moon_pipe_peace_funcs :: "(string, string) dict" where
  "moon_pipe_peace_funcs =
     [(''Cascade'', ''CascadePeace''), (''Sand'', ''SandPeace''), (''Lake'', ''LakePeace''), (''Wooded'', ''WoodedPeace''),
      (''Metro'', ''MetroPeace''), (''Snow'', ''SnowPeace''), (''Seaside'', ''SeasidePeace''),
      (''Luncheon'', ''LuncheonPeace''), (''Ruined'', ''RuinedPeace''), (bowsers, ''BowserPeace'')]"

definition get_kingdom_entrance_gate :: "string \<Rightarrow> string" where
  "get_kingdom_entrance_gate kingdom_prefix = dict_get_or kingdom_entrance_gates kingdom_prefix []"

definition remove_suffix :: "string \<Rightarrow> string \<Rightarrow> string" where
  "remove_suffix suffix s =
     (if suffix \<noteq> [] \<and> length suffix \<le> length s \<and> drop (length s - length suffix) s = suffix
      then take (length s - length suffix) s else s)"

definition kingdom_prefix_from_name :: "string \<Rightarrow> string" where
  "kingdom_prefix_from_name kingdom_name =
     (if kingdom_name = bowsers @ '' Kingdom'' then bowsers
      else if kingdom_name = ''Night Metro'' then ''Metro''
      else strip (remove_suffix '' Kingdom'' kingdom_name))"

section \<open>The rule of a door\<close>

text \<open>The functions a gate can name: those of \<open>hooks/Rules.py\<close>, without the two of \<open>Rules.py\<close>.\<close>

definition hook_rules :: "'st hook_env \<Rightarrow> 'st rule_env" where
  "hook_rules h = (world_env h)\<lparr>rule_function :=
     (\<lambda>n. if n = ''YamlEnabled'' \<or> n = ''YamlDisabled'' then None else hook_function h n)\<rparr>"

definition gate_check :: "('st rule_env \<Rightarrow> string \<Rightarrow> 'st \<Rightarrow> exn + bool) \<Rightarrow> 'st rule_env \<Rightarrow> string \<Rightarrow> ('st \<Rightarrow> exn + bool) list" where
  "gate_check evaluate env gate = (if gate = [] then [] else [evaluate env gate])"

definition peace_check :: "'st rule_env \<Rightarrow> string \<Rightarrow> ('st \<Rightarrow> exn + bool) list" where
  "peace_check env name =
     (case rule_function env name of
        None \<Rightarrow> []
      | Some f \<Rightarrow>
          [\<lambda>st. case f [] st of
             Inl e \<Rightarrow> Inl e
           | Inr (RBool b) \<Rightarrow> Inr b
           | Inr (RText s) \<Rightarrow> Inr (s \<noteq> [])])"

definition make_door_access_rule ::
  "'st hook_env \<Rightarrow> string \<Rightarrow> string \<Rightarrow> bool \<Rightarrow> string option \<Rightarrow> 'st \<Rightarrow> exn + bool" where
  "make_door_access_rule h door_subarea door_kingdom_name is_moon_pipe interior_subarea st =
     (let env = hook_rules h;
          interior = or_default interior_subarea door_subarea;
          door_prefix = kingdom_prefix_from_name door_kingdom_name
      in all_rules
           (gate_check evaluate_interior_requires env (get_kingdom_entrance_gate door_prefix) @
            gate_check evaluate_full_requires env (dict_get_or subarea_entrance_gates door_subarea []) @
            gate_check evaluate_interior_requires env (dict_get_or subarea_exit_gates interior []) @
            (if is_moon_pipe
             then gate_check evaluate_interior_requires env (dict_get_or moon_rock_reach_capture door_prefix []) else []) @
            (if is_moon_pipe
             then (case dict_get moon_pipe_peace_funcs door_prefix of None \<Rightarrow> [] | Some f \<Rightarrow> peace_check env f) else [])) st)"

section \<open>Every gate is a requirement\<close>

text \<open>A requirement that can be recognised by evaluation.\<close>

definition plain_text :: "string \<Rightarrow> bool" where
  "plain_text n \<longleftrightarrow> plain_name n \<or>
     (case split_on CHR '':'' n of
        [m, k] \<Rightarrow> plain_name m \<and> (case py_int k of None \<Rightarrow> False | Some i \<Rightarrow> 0 < i \<and> n = counted m i)
      | _ \<Rightarrow> False)"

lemma plain_text_item: "plain_text n \<Longrightarrow> plain_item n"
  by (auto simp: plain_text_def plain_item_simps split: list.splits option.splits)

definition item_gate :: "req \<Rightarrow> bool" where
  "item_gate r \<longleftrightarrow> atomic r \<and> list_all no_call (toks 0 r) \<and> list_all plain_text (items_of (toks 0 r))"

lemma item_gate_move: "item_gate r \<Longrightarrow> move_req r"
  using plain_text_item by (auto simp: item_gate_def move_req_def list_all_iff)

text \<open>The requirements the item gates spell.\<close>

definition high_jump_req :: req where
  "high_jump_req = group_req (Or False) [jump_req ''BACKFLIP'', jump_req ''SIDE_FLIP'', jump_req ''PJ2'', jump_req ''GPJ'']"

definition gate_reqs :: "req list" where
  "gate_reqs =
     map Item [''Spark pylon'', ''Zipper'', ''Manhole'', ''Mini Rocket'', ''Taxi'', ''Lava Bubble'', ''Hammer Bro'', ''Climb'', ''Paragoomba''] @
     [group_req (Or False) [Item ''Zipper'', group_req (And False) [high_jump_req, Item ''Cap Bounce'',
        group_req (Or False) [Item ''Progressive Ground Pound:2'', Item ''Wall Slide'']]],
      group_req (And False) [Item ''Mini Rocket'', Item ''Climb''],
      group_req (Or False) [Item ''Gushen'', group_req (And False) [jump_req ''PJ2'', Item ''Wall Slide'', Item ''Cap Bounce'']]]"

definition jaxi_req :: req where
  "jaxi_req = group_req (Or False) [Call ''SandPeace'' [],
     group_req (And False) [Item ''Bullet Bill'', Item ''Progressive Ground Pound:2'', Item ''Wall Slide'']]"

lemma gate_reqs_items: "list_all item_gate gate_reqs"
  by code_simp

lemma gates_spelled:
  "set (map snd kingdom_entrance_gates) \<subseteq> set (map requirement gate_reqs)"
  "set (map snd subarea_entrance_gates) \<subseteq> set (requirement jaxi_req # map requirement gate_reqs)"
  "set (map snd subarea_exit_gates) \<subseteq> set (map requirement gate_reqs)"
  "set (map snd moon_rock_reach_capture) \<subseteq> set (map requirement gate_reqs)"
  by (code_simp; fail)+

lemma owned_hooks [simp]: "owned (hook_rules h) st = owned (world_env h) st"
  by (auto simp: owned_def hook_rules_def fun_eq_iff split: sum.split)

lemma item_gate_eval:
  assumes "item_gate r"
  shows "evaluate_interior_requires (hook_rules h) (requirement r) st = check_require_string (world_env h) (requirement r) st"
    "evaluate_full_requires (hook_rules h) (requirement r) st = check_require_string (world_env h) (requirement r) st"
    "\<exists>b. check_require_string (world_env h) (requirement r) st = Inr b"
proof -
  note move = item_gate_move [OF assms]
  have i: "evaluate_interior_requires env (requirement r) st = Inr (holds (owned env st) (\<lambda>_ _. False) r)" for env :: "'a rule_env"
    by (rule evaluate_move_req [OF move])
  have a: "evaluate_interior_requires (world_env h) (requirement r) st = check_require_string (world_env h) (requirement r) st"
    using move by (intro interior_agrees) (simp_all add: move_req_def)
  then show int: "evaluate_interior_requires (hook_rules h) (requirement r) st = check_require_string (world_env h) (requirement r) st"
    by (metis i owned_hooks)
  have "find_call (requirement r) = None"
    unfolding requirement_def using move by (intro find_call_none move_req_ok) (simp_all add: move_req_def)
  then have "splice_calls n (hook_rules h) st (requirement r) = requirement r" for n by (cases n) simp_all
  with int show "evaluate_full_requires (hook_rules h) (requirement r) st = check_require_string (world_env h) (requirement r) st"
    by (simp add: evaluate_full_requires_def requirement_not_Nil)
  show "\<exists>b. check_require_string (world_env h) (requirement r) st = Inr b" using a i [of "world_env h"] by metis
qed

text \<open>A call of a peace function is the reachability of the kingdom's last story moon.\<close>

lemma peace_call:
  assumes "dict_get peace_locations f = Some l"
  shows "call_ok f []" "rule_function (world_env h) f = Some (nullary (\<lambda>st. RBool (he_reach_location h l st)))"
    "rule_function (hook_rules h) f = Some (nullary (\<lambda>st. RBool (he_reach_location h l st)))"
proof -
  have "list_all (\<lambda>(f, l). call_ok f [] \<and> f \<notin> set always_true \<and> f \<noteq> ''YamlEnabled'' \<and> f \<noteq> ''YamlDisabled'') peace_locations" by code_simp
  then have f: "call_ok f [] \<and> f \<notin> set always_true \<and> f \<noteq> ''YamlEnabled'' \<and> f \<noteq> ''YamlDisabled''"
    using map_of_SomeD [OF assms] by (auto simp: list_all_iff)
  then show "call_ok f []" by simp
  from f assms show "rule_function (world_env h) f = Some (nullary (\<lambda>st. RBool (he_reach_location h l st)))"
    "rule_function (hook_rules h) f = Some (nullary (\<lambda>st. RBool (he_reach_location h l st)))"
    by (simp_all add: hook_rules_def world_env_def hook_function_def)
qed

lemma peace_settled:
  assumes "dict_get peace_locations f = Some l"
  shows "call_settled (hook_rules h) st (\<lambda>_ _. Bit (he_reach_location h l st)) f []"
    "call_defined (world_env h) st (\<lambda>_ _. Bit (he_reach_location h l st)) f []"
  using peace_call(2,3) [OF assms, of h]
  by (simp_all add: call_settled_def call_defined_def trimmed_args_def strip_by_def call_args_def nullary_def func_text_def requirement_def)

lemma peace_text:
  assumes "dict_get peace_locations f = Some l"
  shows "check_require_string (world_env h) (call_text (f, [])) st = Inr (he_reach_location h l st)"
proof -
  have "call_text (f, []) = requirement (Call f [])" by (simp add: requirement_def)
  then show ?thesis
    using check_require_tokens [of "Call f []" "world_env h" st "\<lambda>_ _. Bit (he_reach_location h l st)"]
      peace_call(1) [OF assms] peace_settled(2) [OF assms, of h st] by simp
qed

lemma peace_check_rule:
  assumes "dict_get peace_locations f = Some l"
  shows "peace_check (hook_rules h) f = [\<lambda>st. Inr (he_reach_location h l st)]"
  using peace_call(3) [OF assms, of h] by (simp add: peace_check_def nullary_def)

lemma peace_funcs_located: "dict_get moon_pipe_peace_funcs k = Some f \<Longrightarrow> \<exists>l. dict_get peace_locations f = Some l"
proof -
  assume f: "dict_get moon_pipe_peace_funcs k = Some f"
  have "list_all (\<lambda>(k, f). dict_get peace_locations f \<noteq> None) moon_pipe_peace_funcs" by code_simp
  with map_of_SomeD [OF f] show ?thesis by (auto simp: list_all_iff)
qed

lemma jaxi_eval:
  "evaluate_full_requires (hook_rules h) (requirement jaxi_req) st = check_require_string (world_env h) (requirement jaxi_req) st"
  "\<exists>b. check_require_string (world_env h) (requirement jaxi_req) st = Inr b"
proof -
  have l: "dict_get peace_locations ''SandPeace'' = Some ''Sand: The Hole in the Desert''" by code_simp
  let ?res = "\<lambda>_ _ :: string. Bit (he_reach_location h ''Sand: The Hole in the Desert'' st)"
  have toks: "list_all tok_ok (toks 0 jaxi_req)" "calls_of (toks 0 jaxi_req) = [(''SandPeace'', [])]" by code_simp+
  have items: "items_of (toks 0 (inst_calls (\<lambda>_ _. Bit b) jaxi_req)) = [''Bullet Bill'', ''Progressive Ground Pound:2'', ''Wall Slide'']" for b
    by (simp add: jaxi_req_def paren_def)
  have plain: "list_all plain_text [''Bullet Bill'', ''Progressive Ground Pound:2'', ''Wall Slide'']" by code_simp
  note p = plain_item_keeps [OF plain_text_item]
  have f: "evaluate_full_requires (hook_rules h) (requirement jaxi_req) st =
      Inr (holds (owned (hook_rules h) st) (\<lambda>f a. holds (owned (hook_rules h) st) (\<lambda>_ _. False) (?res f a)) jaxi_req)"
    using toks items plain peace_settled(1) [OF l, of h st] by (intro evaluate_full_tokens) (simp_all add: wrap_def list_all_iff p(2))
  have c: "check_require_string (world_env h) (requirement jaxi_req) st =
      Inr (holds (item_sat (world_env h) st) (\<lambda>f a. holds (item_sat (world_env h) st) (\<lambda>_ _. False) (?res f a)) jaxi_req)"
    using toks items plain peace_settled(2) [OF l, of h st] by (intro check_require_tokens) (simp_all add: list_all_iff p(3))
  have "owned (world_env h) st n = item_sat (world_env h) st n" if "n \<in> set [''Bullet Bill'', ''Progressive Ground Pound:2'', ''Wall Slide'']" for n
    using plain that by (intro p(4)) (auto simp: list_all_iff)
  then have "holds (owned (world_env h) st) k jaxi_req = holds (item_sat (world_env h) st) k jaxi_req" for k
    by (simp add: jaxi_req_def)
  with f c show "evaluate_full_requires (hook_rules h) (requirement jaxi_req) st = check_require_string (world_env h) (requirement jaxi_req) st"
    "\<exists>b. check_require_string (world_env h) (requirement jaxi_req) st = Inr b" by simp_all
qed

section \<open>The rule and its gates\<close>

definition peace_gate :: "string \<Rightarrow> string" where
  "peace_gate prefix = (case dict_get moon_pipe_peace_funcs prefix of None \<Rightarrow> [] | Some f \<Rightarrow> call_text (f, []))"

text \<open>The gate strings in the way of a door.\<close>

definition door_gates :: "string \<Rightarrow> string \<Rightarrow> bool \<Rightarrow> string option \<Rightarrow> string list" where
  "door_gates door_subarea door_kingdom_name is_moon_pipe interior_subarea =
     (let prefix = kingdom_prefix_from_name door_kingdom_name
      in filter (\<lambda>g. g \<noteq> [])
           ([get_kingdom_entrance_gate prefix, dict_get_or subarea_entrance_gates door_subarea [],
             dict_get_or subarea_exit_gates (or_default interior_subarea door_subarea) []] @
            (if is_moon_pipe then [dict_get_or moon_rock_reach_capture prefix [], peace_gate prefix] else [])))"

lemma all_rules_append:
  "all_rules (xs @ ys) st = (case all_rules xs st of Inl e \<Rightarrow> Inl e | Inr b \<Rightarrow> if b then all_rules ys st else Inr False)"
  by (induction xs) (auto split: sum.splits)

lemma gate_or_Nil:
  assumes "set (map snd d) \<subseteq> set gs"
  shows "dict_get_or d k [] = [] \<or> dict_get_or d k [] \<in> set gs"
proof (cases "dict_get d k")
  case (Some v)
  then have "v \<in> set (map snd d)" using map_of_SomeD by force
  then show ?thesis using assms Some by (auto simp: dict_get_or_def)
qed (simp add: dict_get_or_def)

definition holds_gate :: "'st hook_env \<Rightarrow> 'st \<Rightarrow> string \<Rightarrow> bool" where
  "holds_gate h st g \<longleftrightarrow> check_require_string (world_env h) g st = Inr True"

lemma gate_check_item:
  assumes "g = [] \<or> g \<in> set (map requirement gate_reqs)"
  shows "all_rules (gate_check evaluate_interior_requires (hook_rules h) g) st = Inr (list_all (holds_gate h st) (filter (\<lambda>g. g \<noteq> []) [g]))"
proof (cases "g = []")
  case False
  with assms obtain r where r: "item_gate r" "g = requirement r" using gate_reqs_items by (auto simp: list_all_iff)
  from item_gate_eval(3) [OF r(1), of h st] obtain b where "check_require_string (world_env h) g st = Inr b" using r(2) by blast
  with False item_gate_eval(1) [OF r(1), of h st] r(2) show ?thesis by (simp add: gate_check_def holds_gate_def)
qed (simp add: gate_check_def)

lemma gate_check_full:
  assumes "g = [] \<or> g \<in> set (requirement jaxi_req # map requirement gate_reqs)"
  shows "all_rules (gate_check evaluate_full_requires (hook_rules h) g) st = Inr (list_all (holds_gate h st) (filter (\<lambda>g. g \<noteq> []) [g]))"
proof -
  have "\<exists>b. evaluate_full_requires (hook_rules h) g st = Inr b \<and> check_require_string (world_env h) g st = Inr b" if "g \<noteq> []"
  proof (cases "g = requirement jaxi_req")
    case True
    then show ?thesis using jaxi_eval [of h st] by auto
  next
    case False
    with that assms obtain r where "item_gate r" "g = requirement r" using gate_reqs_items by (auto simp: list_all_iff)
    then show ?thesis using item_gate_eval(2,3) [of r h st] by auto
  qed
  then show ?thesis by (auto simp: gate_check_def holds_gate_def)
qed

lemma peace_check_gate:
  "all_rules (case dict_get moon_pipe_peace_funcs k of None \<Rightarrow> [] | Some f \<Rightarrow> peace_check (hook_rules h) f) st =
   Inr (list_all (holds_gate h st) (filter (\<lambda>g. g \<noteq> []) [peace_gate k]))"
proof (cases "dict_get moon_pipe_peace_funcs k")
  case (Some f)
  then obtain l where l: "dict_get peace_locations f = Some l" using peace_funcs_located by blast
  show ?thesis
    using Some peace_check_rule [OF l, of h] peace_text [OF l, of h st]
    by (simp add: peace_gate_def holds_gate_def call_text_def)
qed (simp add: peace_gate_def)

lemma door_rule:
  "make_door_access_rule h D K mp I st = Inr (list_all (holds_gate h st) (door_gates D K mp I))"
proof -
  have all: "all_rules [] st = Inr True" for st :: 'a by simp
  show ?thesis
    unfolding make_door_access_rule_def door_gates_def Let_def all_rules_append filter_append list_all_append get_kingdom_entrance_gate_def
      gate_check_item [OF gate_or_Nil [OF gates_spelled(1)]] gate_check_full [OF gate_or_Nil [OF gates_spelled(2)]]
      gate_check_item [OF gate_or_Nil [OF gates_spelled(3)]]
    by (cases mp) (simp_all only: if_True if_False all gate_check_item [OF gate_or_Nil [OF gates_spelled(4)]] peace_check_gate,
        auto split: if_splits)
qed

section \<open>Properties\<close>

text \<open>C16 The rule of a shuffled door asks for its gates: for every door, kingdom and interior, and in every
  collection state, the rule raises nothing and is true exactly when each gate string in the way (of the
  kingdom, of the door, of leaving the interior it leads to, and for a moon-pipe of the moon rock and of
  the kingdom's peace) is true for the requirement evaluator of \<open>Rules.py\<close>, which bakes the same strings
  into the locations when the shuffle is off.\<close>

theorem door_rule_is_its_gates:
  "make_door_access_rule h door kingdom moon_pipe interior st =
   Inr (list_all (\<lambda>g. check_require_string (world_env h) g st = Inr True) (door_gates door kingdom moon_pipe interior))"
  unfolding door_rule holds_gate_def ..

lemma exit_gate_text: "dict_get subarea_exit_gates i \<noteq> None \<Longrightarrow> dict_get_or subarea_exit_gates i [] = item_text ''Mini Rocket''"
proof -
  have "list_all (\<lambda>(i, g). g = item_text ''Mini Rocket'') subarea_exit_gates" by code_simp
  moreover assume "dict_get subarea_exit_gates i \<noteq> None"
  then obtain g where "dict_get subarea_exit_gates i = Some g" by blast
  ultimately show ?thesis using map_of_SomeD [of subarea_exit_gates i g] by (auto simp: dict_get_or_def list_all_iff)
qed

text \<open>No door strands the player in a rocket subarea: whichever door leads there, if its rule is true
  the collection state holds a Mini Rocket, without which the subarea cannot be left.\<close>

theorem rocket_exit_enforced:
  assumes "dict_get subarea_exit_gates interior \<noteq> None"
    "make_door_access_rule h door kingdom moon_pipe (Some interior) st = Inr True"
  shows "1 \<le> he_count h ''Mini Rocket'' st"
proof -
  let ?g = "item_text ''Mini Rocket''"
  have g: "?g = requirement (Item ''Mini Rocket'')" "?g \<noteq> []" by (simp_all add: requirement_def item_text_def)
  have "?g \<in> set (door_gates door kingdom moon_pipe (Some interior))"
    using exit_gate_text [OF assms(1)] g(2) by (simp add: door_gates_def Let_def)
  with assms(2) have "check_require_string (world_env h) ?g st = Inr True" by (simp add: door_rule list_all_iff holds_gate_def)
  moreover have plain: "plain_name ''Mini Rocket''" by code_simp
  then have "evaluate_interior_requires (world_env h) ?g st = Inr (holds (owned (world_env h) st) (\<lambda>_ _. False) (Item ''Mini Rocket''))"
    unfolding g(1) by (intro evaluate_move_req) (simp add: plain_item_simps)
  moreover have "evaluate_interior_requires (world_env h) ?g st = check_require_string (world_env h) ?g st"
    unfolding g(1) by (intro interior_agrees) (simp_all add: plain plain_item_simps)
  ultimately show ?thesis by (simp add: owned_plain(1) [OF plain] has_count_def world_env_def)
qed

definition bag_hooks :: "string list hook_env" where
  "bag_hooks = \<lparr>he_counts = [], he_table = [], he_count = (\<lambda>n st. int (length (filter (\<lambda>m. m = n) st))),
     he_reach_location = (\<lambda>l st. l = ''Sand: The Hole in the Desert'' \<and> ''Sand boss'' \<in> set st), he_reach_region = (\<lambda>_ _. False),
     he_option = (\<lambda>_. 0), he_rolled_gates = None, he_percent = (\<lambda>_ _. Inl ValueError),
     he_item_value = (\<lambda>_ _. Inl ValueError)\<rparr>"

theorem rocket_exit_enforced_witness:
  "make_door_access_rule bag_hooks ''Jaxi Driving'' ''Sand Kingdom'' False (Some ''A Sea of Clouds'') [''Sand boss'', ''Mini Rocket''] = Inr True \<and>
   make_door_access_rule bag_hooks ''Jaxi Driving'' ''Sand Kingdom'' False (Some ''A Sea of Clouds'') [''Sand boss''] = Inr False \<and>
   1 \<le> he_count bag_hooks ''Mini Rocket'' [''Sand boss'', ''Mini Rocket'']"
proof -
  have "make_door_access_rule bag_hooks ''Jaxi Driving'' ''Sand Kingdom'' False (Some ''A Sea of Clouds'') [''Sand boss'', ''Mini Rocket''] = Inr True"
    "make_door_access_rule bag_hooks ''Jaxi Driving'' ''Sand Kingdom'' False (Some ''A Sea of Clouds'') [''Sand boss''] = Inr False"
    "dict_get subarea_exit_gates ''A Sea of Clouds'' \<noteq> None"
    by code_simp+
  with rocket_exit_enforced [OF this(3,1)] show ?thesis by blast
qed

end
