(* ===== verification/Entrance_Pool.thy ===== *)
theory Entrance_Pool
  imports Maps Py_Random
begin

text \<open>
  \<open>entrance_logic.py\<close>: the pool of shuffled subareas, the moon-pipe subareas, and what the compiled
  remaps do for a permutation of the pool.
\<close>

section \<open>Definitions\<close>

definition is_round_trippable :: "string \<Rightarrow> (string, stage_rec) dict \<Rightarrow> bool" where
  "is_round_trippable name entrance_stages =
     (case dict_get entrance_stages name of
        None \<Rightarrow> False
      | Some rec \<Rightarrow> truthy (sr_stage rec) \<and> truthy (sr_entry_id rec))"

text \<open>\<open>subareas\<close> are the names in order, \<open>exclusions\<close> the names per kingdom.\<close>

definition build_entrance_pool ::
  "string list \<Rightarrow> (string, string list) dict \<Rightarrow> (string, stage_rec) dict option \<Rightarrow> string list" where
  "build_entrance_pool subareas exclusions entrance_stages =
     (let excluded = \<Union> (set (map (set \<circ> snd) exclusions));
          candidates = filter (\<lambda>name. name \<notin> excluded) subareas
      in case entrance_stages of
           None \<Rightarrow> sort candidates
         | Some stages \<Rightarrow> sort (filter (\<lambda>n. is_round_trippable n stages) candidates))"

text \<open>\<open>subareas\<close> with their location names, locations with their categories.\<close>

definition build_moonpipe_subarea_set ::
  "(string, string list) dict \<Rightarrow> (string \<times> string list) list \<Rightarrow> string set" where
  "build_moonpipe_subarea_set subareas location_table =
     (let moon_rock_names = set (map fst (filter (\<lambda>(n, cats). ''Moon Rock'' \<in> set cats) location_table))
      in set (map fst (filter (\<lambda>(s, locs). locs \<noteq> [] \<and> list_all (\<lambda>l. l \<in> moon_rock_names) locs) subareas)))"

section \<open>Lemmas\<close>

lemma round_trippableE:
  assumes "is_round_trippable n st"
  obtains rec where "dict_get st n = Some rec" "truthy (sr_stage rec)" "truthy (sr_entry_id rec)"
  using assms by (auto simp: is_round_trippable_def split: option.splits)

lemma pool_round_trippable: "n \<in> set (build_entrance_pool subareas exclusions (Some st)) \<Longrightarrow> is_round_trippable n st"
  by (simp add: build_entrance_pool_def)

text \<open>Stage names tell subareas apart.\<close>

definition stages_distinct :: "(string, stage_rec) dict \<Rightarrow> bool" where
  "stages_distinct st \<longleftrightarrow> dict_ok st \<and> distinct (List.map_filter sr_stage (map snd st))"

lemma stage_names_differ:
  "distinct (List.map_filter sr_stage (map snd st)) \<Longrightarrow> (a, x) \<in> set st \<Longrightarrow> (b, y) \<in> set st \<Longrightarrow>
   sr_stage x = Some v \<Longrightarrow> sr_stage y = Some v \<Longrightarrow> (a, x) = (b, y)"
proof (induction st)
  case (Cons p st)
  have mem: "v \<in> set (List.map_filter sr_stage (map snd st))" if "(c, z) \<in> set st" "sr_stage z = Some v" for c z
    using that by (force simp: map_filter_def)
  show ?case
  proof (cases "sr_stage (snd p) = Some v")
    case True
    then have "v \<notin> set (List.map_filter sr_stage (map snd st))" "distinct (List.map_filter sr_stage (map snd st))"
      using Cons.prems(1) by (simp_all add: map_filter_simps)
    then show ?thesis using Cons.prems(2-5) mem by auto
  next
    case False
    then have "(a, x) \<in> set st" "(b, y) \<in> set st" using Cons.prems(2-5) by auto
    moreover have "distinct (List.map_filter sr_stage (map snd st))"
      using Cons.prems(1) by (auto simp: map_filter_simps split: option.splits)
    ultimately show ?thesis using Cons.IH Cons.prems(4,5) by blast
  qed
qed simp

lemma stage_names_injective:
  assumes "stages_distinct st" "dict_get st a = Some x" "dict_get st b = Some y"
    "truthy (sr_stage x)" "the (sr_stage x) = the (sr_stage y)" "truthy (sr_stage y)"
  shows "a = b"
proof -
  obtain v where "sr_stage x = Some v" "sr_stage y = Some v"
    using assms(4-6) by (cases "sr_stage x"; cases "sr_stage y"; simp)
  then have "(a, x) = (b, y)"
    using stage_names_differ [of st a x b y v] map_of_SomeD [OF assms(2)] map_of_SomeD [OF assms(3)] assms(1)
    by (simp add: stages_distinct_def)
  then show ?thesis by simp
qed

lemma pair_rows_trip:
  assumes "truthy (sr_stage d)" "truthy (sr_stage i)" "truthy (sr_entry_id i)"
  shows "r \<in> set (pair_rows d i) \<longleftrightarrow>
    r = \<lparr>row_kind = ''entry'', row_from = the (sr_stage d), row_to_stage = the (sr_stage i), row_to_id = the (sr_entry_id i)\<rparr> \<or>
    truthy (sr_exit_dest d) \<and> truthy (sr_exit_id d) \<and>
      r = \<lparr>row_kind = ''exit'', row_from = the (sr_stage i), row_to_stage = the (sr_exit_dest d), row_to_id = the (sr_exit_id d)\<rparr>"
  using assms by (auto simp: pair_rows_def)

definition entry_row :: "stage_rec \<Rightarrow> stage_rec \<Rightarrow> remap_row" where
  "entry_row d i = \<lparr>row_kind = ''entry'', row_from = the (sr_stage d), row_to_stage = the (sr_stage i), row_to_id = the (sr_entry_id i)\<rparr>"

definition exit_row :: "stage_rec \<Rightarrow> stage_rec \<Rightarrow> remap_row option" where
  "exit_row d i = (if truthy (sr_exit_dest d) \<and> truthy (sr_exit_id d)
     then Some \<lparr>row_kind = ''exit'', row_from = the (sr_stage i), row_to_stage = the (sr_exit_dest d), row_to_id = the (sr_exit_id d)\<rparr>
     else None)"

lemma find_none_or:
  assumes "\<And>y. y \<in> set xs \<Longrightarrow> P y \<Longrightarrow> r = Some y" "\<And>x. r = Some x \<Longrightarrow> x \<in> set xs \<and> P x"
  shows "find P xs = r"
proof (cases r)
  case None
  then show ?thesis using assms(1) by (auto simp: find_None_iff)
next
  case (Some x)
  have "find P xs = Some x" using assms(2) [OF Some] assms(1) Some by (intro find_unique) auto
  then show ?thesis using Some by simp
qed

text \<open>The remaps of one shuffled door, for doors and interiors that can be entered.\<close>

lemma remap_rows_of_door:
  assumes "dict_ok b" "distinct (map snd b)" "stages_distinct st" "(d, i) \<in> set b" "d \<noteq> i"
    "\<And>x. x \<in> set (map fst b) \<union> set (map snd b) \<Longrightarrow> is_round_trippable x st"
    "dict_get st d = Some dr" "dict_get st i = Some ir"
  shows "row_for ''entry'' (the (sr_stage dr)) (compile_stage_remaps b st) = Some (entry_row dr ir)"
    "row_for ''exit'' (the (sr_stage ir)) (compile_stage_remaps b st) = exit_row dr ir"
proof -
  have trip: "truthy (sr_stage x) \<and> truthy (sr_entry_id x)" if "dict_get st n = Some x" "n \<in> set (map fst b) \<union> set (map snd b)" for n x
    using assms(6) [OF that(2)] that(1) by (auto elim: round_trippableE)
  have mem: "d \<in> set (map fst b) \<union> set (map snd b)" "i \<in> set (map fst b) \<union> set (map snd b)" using assms(4) by force+
  have rows: "r \<in> set (compile_stage_remaps b st) \<longleftrightarrow>
      (\<exists>d i dr ir. (d, i) \<in> set b \<and> d \<noteq> i \<and> dict_get st d = Some dr \<and> dict_get st i = Some ir \<and> r \<in> set (pair_rows dr ir))" for r
  proof
    assume "r \<in> set (compile_stage_remaps b st)"
    then obtain d i where "(d, i) \<in> set b" "r \<in> set (door_rows st (d, i))" by (auto simp: compile_stage_remaps_def)
    then show "\<exists>d i dr ir. (d, i) \<in> set b \<and> d \<noteq> i \<and> dict_get st d = Some dr \<and> dict_get st i = Some ir \<and> r \<in> set (pair_rows dr ir)"
      by (elim door_rowsE) blast
  next
    assume "\<exists>d i dr ir. (d, i) \<in> set b \<and> d \<noteq> i \<and> dict_get st d = Some dr \<and> dict_get st i = Some ir \<and> r \<in> set (pair_rows dr ir)"
    then show "r \<in> set (compile_stage_remaps b st)" by (force simp: compile_stage_remaps_def door_rows_def)
  qed
  have members: "n \<in> set (map fst b) \<union> set (map snd b)" if "(n, m) \<in> set b \<or> (m, n) \<in> set b" for n m using that by force
  have one: "d' = d" if "(d', i) \<in> set b" for d' using that assms(2,4) by (metis distinct_map inj_onD prod.inject snd_conv)
  have one': "i' = i" if "(d, i') \<in> set b" for i' using that assms(1,4) by (metis eq_key_imp_eq_value)
  have of_pair: "(row_kind r = ''entry'' \<longrightarrow> row_from r = the (sr_stage dr) \<longrightarrow> d' = d \<and> i' = i) \<and>
      (row_kind r = ''exit'' \<longrightarrow> row_from r = the (sr_stage ir) \<longrightarrow> d' = d \<and> i' = i)"
    if "(d', i') \<in> set b" "dict_get st d' = Some dr'" "dict_get st i' = Some ir'" "r \<in> set (pair_rows dr' ir')" for d' i' dr' ir' r
  proof -
    have t: "truthy (sr_stage dr')" "truthy (sr_stage ir')" "truthy (sr_entry_id ir')"
      using trip [OF that(2)] trip [OF that(3)] members that(1) by blast+
    have same_door: "d' = d \<and> i' = i" if "the (sr_stage dr') = the (sr_stage dr)"
      using stage_names_injective [OF assms(3) \<open>dict_get st d' = Some dr'\<close> assms(7) t(1) that] trip [OF assms(7) mem(1)] one' \<open>(d', i') \<in> set b\<close>
      by blast
    have same_interior: "d' = d \<and> i' = i" if "the (sr_stage ir') = the (sr_stage ir)"
      using stage_names_injective [OF assms(3) \<open>dict_get st i' = Some ir'\<close> assms(8) t(2) that] trip [OF assms(8) mem(2)] one \<open>(d', i') \<in> set b\<close>
      by blast
    from that(4) [unfolded pair_rows_trip [OF t]] show ?thesis
      by (elim disjE conjE) (use same_door same_interior in simp_all)
  qed
  have here: "r \<in> set (compile_stage_remaps b st) \<longleftrightarrow> r \<in> set (pair_rows dr ir)"
    if "row_kind r = ''entry'' \<and> row_from r = the (sr_stage dr) \<or> row_kind r = ''exit'' \<and> row_from r = the (sr_stage ir)" for r
  proof
    assume "r \<in> set (compile_stage_remaps b st)"
    then obtain d' i' dr' ir' where p: "(d', i') \<in> set b" "dict_get st d' = Some dr'" "dict_get st i' = Some ir'" "r \<in> set (pair_rows dr' ir')"
      unfolding rows by blast
    from of_pair [OF this] that have "d' = d" "i' = i" by blast+
    with p assms(7,8) show "r \<in> set (pair_rows dr ir)" by simp
  next
    assume "r \<in> set (pair_rows dr ir)"
    with assms(4,5,7,8) show "r \<in> set (compile_stage_remaps b st)" unfolding rows by blast
  qed
  have t: "truthy (sr_stage dr)" "truthy (sr_stage ir)" "truthy (sr_entry_id ir)"
    using trip [OF assms(7) mem(1)] trip [OF assms(8) mem(2)] by blast+
  show "row_for ''entry'' (the (sr_stage dr)) (compile_stage_remaps b st) = Some (entry_row dr ir)"
    unfolding row_for_def by (rule find_none_or) (auto simp: here pair_rows_trip [OF t] entry_row_def)
  show "row_for ''exit'' (the (sr_stage ir)) (compile_stage_remaps b st) = exit_row dr ir"
    unfolding row_for_def by (rule find_none_or) (auto simp: here pair_rows_trip [OF t] exit_row_def split: if_splits)
qed

section \<open>Properties\<close>

text \<open>A shuffled pool has no one-way doors: for any table with distinct stage names, any assignment of
  doors to interiors that permutes subareas of the pool built from it, and any door that does not lead to
  its own interior, the compiled remaps send whoever enters the door to its interior's arrival point, and
  whoever leaves that interior to the door's exterior whenever the table names one; without an exterior
  no exit row is sent for the interior and the game returns by itself.\<close>

theorem pooled_doors_lead_back:
  assumes "stages_distinct st" "dict_ok b" "distinct (map snd b)"
    "set (map fst b) \<subseteq> set (build_entrance_pool subareas exclusions (Some st))"
    "set (map snd b) \<subseteq> set (build_entrance_pool subareas exclusions (Some st))"
    "(d, i) \<in> set b" "d \<noteq> i"
  shows "\<exists>dr ir. dict_get st d = Some dr \<and> dict_get st i = Some ir \<and>
    row_for ''entry'' (the (sr_stage dr)) (compile_stage_remaps b st) = Some (entry_row dr ir) \<and>
    row_for ''exit'' (the (sr_stage ir)) (compile_stage_remaps b st) = exit_row dr ir"
proof -
  have trip: "is_round_trippable x st" if "x \<in> set (map fst b) \<union> set (map snd b)" for x
    using that assms(4,5) pool_round_trippable by blast
  have "d \<in> set (map fst b) \<union> set (map snd b)" "i \<in> set (map fst b) \<union> set (map snd b)" using assms(6) by force+
  then obtain dr ir where "dict_get st d = Some dr" "dict_get st i = Some ir" by (metis trip round_trippableE)
  then show ?thesis using remap_rows_of_door [OF assms(2,3,1,6,7) trip] by blast
qed

definition sample_arena :: stage_rec where
  "sample_arena = \<lparr>sr_stage = Some ''RevengeBossKnuckle'', sr_entry_id = Some ''KnuckleEnt'', sr_exit_dest = None, sr_exit_id = None\<rparr>"

theorem pooled_doors_lead_back_witness:
  "let st = sample_stages @ [(''Knucklotec Boss Re-fight'', sample_arena), (''Class A Race'', \<lparr>sr_stage = Some ''Race'', sr_entry_id = None, sr_exit_dest = None, sr_exit_id = None\<rparr>)];
       pool = build_entrance_pool [''Poison Tides'', ''Class A Race'', ''Frog Pond'', ''Sewers'', ''Knucklotec Boss Re-fight''] [(''Metro'', [''Sewers''])] (Some st);
       b = [(''Frog Pond'', ''Knucklotec Boss Re-fight''), (''Poison Tides'', ''Poison Tides''), (''Knucklotec Boss Re-fight'', ''Frog Pond'')]
   in pool = [''Frog Pond'', ''Knucklotec Boss Re-fight'', ''Poison Tides''] \<and>
      row_for ''exit'' ''RevengeBossKnuckle'' (compile_stage_remaps b st) = exit_row sample_frog sample_arena \<and>
      row_for ''exit'' ''FrogSearchExStage'' (compile_stage_remaps b st) = None"
proof -
  let ?st = "sample_stages @ [(''Knucklotec Boss Re-fight'', sample_arena), (''Class A Race'', \<lparr>sr_stage = Some ''Race'', sr_entry_id = None, sr_exit_dest = None, sr_exit_id = None\<rparr>)]"
  let ?sub = "[''Poison Tides'', ''Class A Race'', ''Frog Pond'', ''Sewers'', ''Knucklotec Boss Re-fight'']"
  let ?b = "[(''Frog Pond'', ''Knucklotec Boss Re-fight''), (''Poison Tides'', ''Poison Tides''), (''Knucklotec Boss Re-fight'', ''Frog Pond'')]"
  have pool: "build_entrance_pool ?sub [(''Metro'', [''Sewers''])] (Some ?st) = [''Frog Pond'', ''Knucklotec Boss Re-fight'', ''Poison Tides'']" by code_simp
  have st: "stages_distinct ?st" by code_simp
  have get: "dict_get ?st ''Frog Pond'' = Some sample_frog" "dict_get ?st ''Knucklotec Boss Re-fight'' = Some sample_arena"
    by (simp_all add: sample_stages_def)
  note there = pooled_doors_lead_back [OF st, of ?b ?sub "[(''Metro'', [''Sewers''])]", unfolded pool]
  have "row_for ''exit'' (the (sr_stage sample_arena)) (compile_stage_remaps ?b ?st) = exit_row sample_frog sample_arena"
    using there [of "''Frog Pond''" "''Knucklotec Boss Re-fight''"] get by simp
  moreover have "row_for ''exit'' (the (sr_stage sample_frog)) (compile_stage_remaps ?b ?st) = exit_row sample_arena sample_frog"
    using there [of "''Knucklotec Boss Re-fight''" "''Frog Pond''"] get by simp
  moreover have "exit_row sample_arena sample_frog = None" by (simp add: exit_row_def sample_arena_def)
  ultimately show ?thesis using pool by (simp add: sample_frog_def sample_arena_def)
qed

end
