(* ===== verification/World_Graph.thy ===== *)
theory World_Graph
  imports World_Options Item_Pool Entrance_Doors Entrance_Pool
begin

text \<open>
  The graph Archipelago fills: \<open>Regions.py\<close> creates the regions, \<open>SMOWorld.create_regions\<close> of
  \<open>__init__.py\<close> fits it to the goal, the hooks of \<open>hooks/World.py\<close> remove what the options disable and
  wire the shuffled doors. Regions, entrances and locations are values; a name identifies an entrance,
  a location and a region, as in Archipelago's caches. \<open>KeyError\<close> is what its look-ups raise.
\<close>

section \<open>Regions\<close>

type_synonym 'st access = "'st \<Rightarrow> exn + bool"

record 'st location =
  lo_name :: string
  lo_rule :: "'st access"
  lo_item_rules :: "(pool_item \<Rightarrow> bool) list"

record 'st entrance =
  en_name :: string
  en_target :: string
  en_rule :: "'st access"

record 'st region =
  rg_name :: string
  rg_locations :: "'st location list"
  rg_exits :: "'st entrance list"

record region_row =
  rr_requires :: "requires option"
  rr_connects_to :: "string list option"
  rr_starting :: bool

definition root_region :: string where "root_region = ''SMO''"

definition always :: "'st access" where "always st = Inr True"

definition region_map :: "(string, region_row) dict \<Rightarrow> (string, region_row) dict" where
  "region_map table =
     (let starting_regions = map fst (filter (\<lambda>(_, row). rr_starting row) table)
      in dict_set root_region
           \<lparr>rr_requires = Some (ReqList []), rr_connects_to = Some (if starting_regions = [] then dict_keys table else starting_regions),
            rr_starting = False\<rparr> table)"

definition connection_name :: "string \<Rightarrow> string \<Rightarrow> string" where
  "connection_name entrance_name exit_name = entrance_name @ ''To'' @ exit_name"

text \<open>\<open>create_region\<close>; the entrances are given the target they are linked to afterwards.\<close>

definition create_region :: "string \<Rightarrow> string list \<Rightarrow> string list \<Rightarrow> 'st region" where
  "create_region name locations exits =
     \<lparr>rg_name = name,
      rg_locations = map (\<lambda>l. \<lparr>lo_name = l, lo_rule = always, lo_item_rules = []\<rparr>) locations,
      rg_exits = map (\<lambda>x. \<lparr>en_name = connection_name name x, en_target = x, en_rule = always\<rparr>) exits\<rparr>"

definition region_locations :: "(location_data \<Rightarrow> bool) \<Rightarrow> location_data list \<Rightarrow> string \<Rightarrow> string list" where
  "region_locations enabled location_table name =
     map ld_name (filter (\<lambda>l. ld_region l = name \<and> enabled l) location_table)"

definition create_regions ::
  "(location_data \<Rightarrow> bool) \<Rightarrow> (string, region_row) dict \<Rightarrow> location_data list \<Rightarrow> exn + 'st region list" where
  "create_regions enabled regions location_table =
     (if list_all (\<lambda>(_, row). list_all (\<lambda>x. x \<in> set (''Menu'' # dict_keys regions)) (or_default (rr_connects_to row) [])) regions \<and>
         root_region \<in> set (dict_keys regions)
      then Inr (map (\<lambda>(name, row). create_region name (region_locations enabled location_table name) (or_default (rr_connects_to row) [])) regions @
                [create_region ''Menu'' [] [root_region]])
      else Inl KeyError)"

section \<open>The goal\<close>

definition location_names :: "'st region list \<Rightarrow> string list" where
  "location_names regions = map lo_name (concat (map rg_locations regions))"

definition region_named :: "string \<Rightarrow> 'st region list \<Rightarrow> bool" where
  "region_named name regions \<longleftrightarrow> name \<in> set (map rg_name regions)"

definition keep_locations :: "(string \<Rightarrow> string \<Rightarrow> bool) \<Rightarrow> 'st region list \<Rightarrow> 'st region list" where
  "keep_locations keep regions =
     map (\<lambda>r. r\<lparr>rg_locations := filter (\<lambda>l. keep (rg_name r) (lo_name l)) (rg_locations r)\<rparr>) regions"

definition goal_to_victory :: "(int, string) dict" where
  "goal_to_victory = [(0, ''Arrive in the Mushroom Kingdom''), (1, ''Metro: A Traditional Festival!'')]"

definition festival_regions_to_empty :: "string list" where
  "festival_regions_to_empty =
     [''Snow Kingdom'', ''Seaside Kingdom'', ''Very Early Luncheon'', ''Luncheon Kingdom'', ''Ruined Kingdom'', ''Pokino'',
      bowsers_kingdom @ '' Kingdom'', ''Moon Kingdom'']"

text \<open>\<open>\bMetroPeace\s*\(\<close>, searched; the first argument tells whether the last character is a word character.\<close>

fun metro_peace_call :: "bool \<Rightarrow> string \<Rightarrow> bool" where
  "metro_peace_call in_word [] = False"
| "metro_peace_call in_word (c # s) =
     (\<not> in_word \<and> starts_with ''MetroPeace'' (c # s) \<and> starts_with ''('' (dropWhile is_space (drop 10 (c # s))) \<or>
      metro_peace_call (is_word c) s)"

definition needs_metro_peace :: "location_data option \<Rightarrow> bool" where
  "needs_metro_peace loc_data =
     (case loc_data of
        None \<Rightarrow> False
      | Some l \<Rightarrow>
          ''Metro Peace'' \<in> set (ld_category l) \<or>
          (case ld_requires l of Some (ReqString s) \<Rightarrow> metro_peace_call False s | _ \<Rightarrow> False))"

definition location_row :: "location_data list \<Rightarrow> string \<Rightarrow> location_data option" where
  "location_row location_table name = dict_get (rev (map (\<lambda>l. (ld_name l, l)) location_table)) name"

definition victory_names :: "location_data list \<Rightarrow> string list" where
  "victory_names location_table = map ld_name (filter ld_victory location_table)"

text \<open>The locations of \<open>SMOWorld.create_regions\<close> after the goal: its own victory location and the Multi-Moons
  of the others stay, and the festival empties what comes after Metro.\<close>

definition drop_unused_goals :: "location_data list \<Rightarrow> string \<Rightarrow> 'st region list \<Rightarrow> exn + 'st region list" where
  "drop_unused_goals location_table target regions =
     (let unused = filter (\<lambda>n. n \<noteq> target) (victory_names location_table);
          is_moon = (\<lambda>n. case location_row location_table n of None \<Rightarrow> False | Some l \<Rightarrow> ld_multi_moon l)
      in if list_all (\<lambda>n. n \<in> set (location_names regions)) unused
         then Inr (keep_locations (\<lambda>_ n. n \<notin> set unused \<or> is_moon n) regions)
         else Inl KeyError)"

definition festival_locations :: "location_data list \<Rightarrow> 'st region list \<Rightarrow> exn + 'st region list" where
  "festival_locations location_table regions =
     (if list_all (\<lambda>n. region_named n regions) ([''Metro Kingdom'', ''Night Metro''] @ festival_regions_to_empty)
      then Inr (keep_locations (\<lambda>r n.
        r \<notin> set festival_regions_to_empty \<and>
        (r \<in> {''Metro Kingdom'', ''Night Metro''} \<longrightarrow> \<not> needs_metro_peace (location_row location_table n))) regions)
      else Inl KeyError)"

definition fit_goal :: "location_data list \<Rightarrow> int \<Rightarrow> 'st region list \<Rightarrow> exn + 'st region list" where
  "fit_goal location_table goal regions =
     (case dict_get goal_to_victory goal of
        None \<Rightarrow> Inl KeyError
      | Some target \<Rightarrow>
          if target \<notin> set (location_names regions) then Inl KeyError
          else (case drop_unused_goals location_table target regions of
                  Inl e \<Rightarrow> Inl e
                | Inr regions \<Rightarrow> if goal = 1 then festival_locations location_table regions else Inr regions))"

section \<open>Entrance shuffle\<close>

record subarea =
  sa_kingdom :: string
  sa_location_names :: "string list"

record entrance_roll =
  roll_map :: "(string, string) dict"
  entrance_shuffled_locs :: "string list"
  interior_requires :: "(string, string) dict"
  entrance_subareas :: "(string, subarea) dict"
  entrance_moonpipe :: "string set"
  entrance_pool :: "string list"

definition roll_entrance_bijection :: "string list \<Rightarrow> rng \<Rightarrow> (string, string) dict \<times> rng" where
  "roll_entrance_bijection pool r = (case shuffle pool r of (shuffled, r) \<Rightarrow> (zip pool shuffled, r))"

definition before_create_regions ::
  "(string \<Rightarrow> int) \<Rightarrow> (string, subarea) dict \<Rightarrow> (string, string list) dict \<Rightarrow> (string, stage_rec) dict \<Rightarrow>
   (string, moon_record) dict option \<Rightarrow> location_data list \<Rightarrow> rng \<Rightarrow> entrance_roll option \<times> rng" where
  "before_create_regions opt subareas exclusions stages requirements location_table r =
     (if opt ''entrance_shuffle'' \<le> 0 then (None, r)
      else let pool = build_entrance_pool (dict_keys subareas) exclusions (Some stages);
               (bijection, r) = roll_entrance_bijection pool r;
               shuffled_locs = concat (map (\<lambda>s. case dict_get subareas s of None \<Rightarrow> [] | Some info \<Rightarrow> sa_location_names info) pool);
               interior = build_interior_requires_map (map ld_name location_table) requirements
           in (Some \<lparr>roll_map = bijection,
                     entrance_shuffled_locs = shuffled_locs,
                     interior_requires = map (\<lambda>n. (n, dict_get_or interior n [])) shuffled_locs,
                     entrance_subareas = subareas,
                     entrance_moonpipe = build_moonpipe_subarea_set (map (\<lambda>(s, info). (s, sa_location_names info)) subareas)
                       (map (\<lambda>l. (ld_name l, ld_category l)) location_table),
                     entrance_pool = pool\<rparr>, r))"

definition interior_name :: "string \<Rightarrow> string" where "interior_name sub_name = sub_name @ '' Interior''"

definition door_name :: "string \<Rightarrow> string \<Rightarrow> string" where
  "door_name door interior = door @ '' -> '' @ interior @ '' Interior''"

definition subarea_kingdom :: "entrance_roll \<Rightarrow> string \<Rightarrow> string" where
  "subarea_kingdom roll s = (case dict_get (entrance_subareas roll) s of None \<Rightarrow> [] | Some info \<Rightarrow> sa_kingdom info)"

definition subarea_locations :: "entrance_roll \<Rightarrow> string \<Rightarrow> string list" where
  "subarea_locations roll s = (case dict_get (entrance_subareas roll) s of None \<Rightarrow> [] | Some info \<Rightarrow> sa_location_names info)"

definition loc_to_subarea :: "entrance_roll \<Rightarrow> (string, string) dict" where
  "loc_to_subarea roll =
     foldl (\<lambda>d (s, info). if s \<in> set (entrance_pool roll) then foldl (\<lambda>d l. dict_set l s d) d (sa_location_names info) else d)
       [] (entrance_subareas roll)"

text \<open>The locations of the pooled subareas move into the interior regions; the pass over the interior
  regions themselves puts each location back where it is.\<close>

definition interior_regions :: "entrance_roll \<Rightarrow> 'st region list \<Rightarrow> 'st region list" where
  "interior_regions roll regions =
     map (\<lambda>s. \<lparr>rg_name = interior_name s,
                rg_locations = filter (\<lambda>l. dict_get (loc_to_subarea roll) (lo_name l) = Some s) (concat (map rg_locations regions)),
                rg_exits = []\<rparr>) (entrance_pool roll)"

definition door_entrance :: "string \<times> string \<Rightarrow> 'st entrance" where
  "door_entrance di = (case di of (d, i) \<Rightarrow> \<lparr>en_name = door_name d i, en_target = interior_name i, en_rule = always\<rparr>)"

definition add_door :: "entrance_roll \<Rightarrow> string \<times> string \<Rightarrow> 'st region list \<Rightarrow> 'st region list" where
  "add_door roll di regions =
     (if snd di \<in> set (entrance_pool roll)
      then map (\<lambda>r. if rg_name r = subarea_kingdom roll (fst di) then r\<lparr>rg_exits := rg_exits r @ [door_entrance di]\<rparr> else r) regions
      else regions)"

definition wire_entrance_shuffle :: "entrance_roll \<Rightarrow> 'st region list \<Rightarrow> 'st region list" where
  "wire_entrance_shuffle roll regions =
     fold (add_door roll) (roll_map roll)
       (keep_locations (\<lambda>_ n. dict_get (loc_to_subarea roll) n = None) regions @ interior_regions roll regions)"

section \<open>The finished graph\<close>

definition after_create_regions ::
  "(location_data \<Rightarrow> bool) \<Rightarrow> location_data list \<Rightarrow> entrance_roll option \<Rightarrow> 'st region list \<Rightarrow> 'st region list" where
  "after_create_regions enabled location_table roll regions =
     (let removed = map ld_name (filter (\<lambda>l. \<not> enabled l) location_table);
          regions = keep_locations (\<lambda>_ n. n \<notin> set removed) regions
      in case roll of None \<Rightarrow> regions | Some roll \<Rightarrow> wire_entrance_shuffle roll regions)"

definition world_create_regions ::
  "(string \<Rightarrow> int) \<Rightarrow> category_options \<Rightarrow> (string, region_row) dict \<Rightarrow> location_data list \<Rightarrow> entrance_roll option \<Rightarrow> exn + 'st region list" where
  "world_create_regions opt categories region_table location_table roll =
     (let enabled = is_location_enabled opt categories
      in case create_regions enabled (region_map region_table) location_table of
           Inl e \<Rightarrow> Inl e
         | Inr regions \<Rightarrow>
             (case fit_goal location_table (opt ''goal'') regions of
                Inl e \<Rightarrow> Inl e
              | Inr regions \<Rightarrow> Inr (after_create_regions enabled location_table roll regions)))"

end
