(* ===== verification/World_Rules.thy ===== *)
theory World_Rules
  imports World_Graph
begin

text \<open>
  The access rules of the finished graph: \<open>set_rules\<close> of \<open>Rules.py\<close> over every exit and location, then
  \<open>after_set_rules\<close> of \<open>hooks/World.py\<close>. Archipelago's \<open>add_rule\<close>, which combines a new rule with the
  old one of a spot, is an argument.
\<close>

section \<open>set_rules\<close>

definition region_area :: "string \<Rightarrow> region_row \<Rightarrow> area" where
  "region_area name row = \<lparr>area_name = name, area_region = None, area_requires = rr_requires row\<rparr>"

definition location_area :: "location_data \<Rightarrow> area" where
  "location_area l = \<lparr>area_name = ld_name l, area_region = Some (ld_region l), area_requires = ld_requires l\<rparr>"

definition region_areas :: "(string, region_row) dict \<Rightarrow> (string, area) dict" where
  "region_areas regions = map (\<lambda>(n, row). (n, region_area n row)) regions"

definition map_exits :: "(string \<Rightarrow> 'st entrance \<Rightarrow> 'st entrance) \<Rightarrow> 'st region list \<Rightarrow> 'st region list" where
  "map_exits f regions = map (\<lambda>r. r\<lparr>rg_exits := map (f (rg_name r)) (rg_exits r)\<rparr>) regions"

definition map_locations :: "('st location \<Rightarrow> 'st location) \<Rightarrow> 'st region list \<Rightarrow> 'st region list" where
  "map_locations f regions = map (\<lambda>r. r\<lparr>rg_locations := map f (rg_locations r)\<rparr>) regions"

definition used_location_names :: "(string, region_row) dict \<Rightarrow> 'st region list \<Rightarrow> string list" where
  "used_location_names rows regions =
     map lo_name (concat (map rg_locations (filter (\<lambda>r. rg_name r \<in> set (dict_keys rows)) regions)))"

definition set_exit_rules :: "'st rule_env \<Rightarrow> (string, region_row) dict \<Rightarrow> 'st region list \<Rightarrow> 'st region list" where
  "set_exit_rules env rows regions =
     map_exits (\<lambda>r e. if r \<in> set (dict_keys rows) \<and> r \<noteq> ''Menu''
                      then e\<lparr>en_rule := exit_rule env (region_areas rows) r\<rparr> else e) regions"

text \<open>The rules of the rows in use, the last row of a name winning; a row of an unknown region raises.\<close>

fun location_rules ::
  "'st rule_env \<Rightarrow> (string, region_row) dict \<Rightarrow> string list \<Rightarrow> location_data list \<Rightarrow> (string, 'st access) dict \<Rightarrow>
   exn + (string, 'st access) dict" where
  "location_rules env rows used [] rules = Inr rules"
| "location_rules env rows used (l # ls) rules =
     (if ld_name l \<notin> set used then location_rules env rows used ls rules
      else (case location_rule env (region_areas rows) (location_area l) of
              Inl e \<Rightarrow> Inl e
            | Inr rule \<Rightarrow> location_rules env rows used ls (dict_set (ld_name l) rule rules)))"

definition set_rules ::
  "'st rule_env \<Rightarrow> (string, region_row) dict \<Rightarrow> location_data list \<Rightarrow> 'st region list \<Rightarrow> exn + 'st region list" where
  "set_rules env rows location_table regions =
     (case location_rules env rows (used_location_names rows regions) location_table [] of
        Inl e \<Rightarrow> Inl e
      | Inr rules \<Rightarrow>
          Inr (map_locations (\<lambda>l. case dict_get rules (lo_name l) of None \<Rightarrow> l | Some rule \<Rightarrow> l\<lparr>lo_rule := rule\<rparr>)
            (set_exit_rules env rows regions)))"

section \<open>Item rules\<close>

definition goals_with_moon_postwin :: "int list" where "goals_with_moon_postwin = []"

definition is_mm_item :: "pool_item \<Rightarrow> bool" where
  "is_mm_item it \<longleftrightarrow> drop (length (item_name it) - 11) (item_name it) = '' Multi-Moon''"

definition add_item_rule_where :: "(string \<Rightarrow> (pool_item \<Rightarrow> bool) option) \<Rightarrow> 'st region list \<Rightarrow> 'st region list" where
  "add_item_rule_where rule regions =
     map_locations (\<lambda>l. case rule (lo_name l) of None \<Rightarrow> l | Some p \<Rightarrow> l\<lparr>lo_item_rules := lo_item_rules l @ [p]\<rparr>) regions"

definition tagged :: "(location_data \<Rightarrow> bool) \<Rightarrow> location_data list \<Rightarrow> string \<Rightarrow> bool" where
  "tagged flag location_table name \<longleftrightarrow> name \<in> set (map ld_name (filter flag location_table))"

definition apply_filler_only_rules :: "location_data list \<Rightarrow> 'st region list \<Rightarrow> 'st region list" where
  "apply_filler_only_rules table =
     add_item_rule_where (\<lambda>n. if tagged ld_filler_only table n then Some (\<lambda>it. \<not> advancement it) else None)"

definition apply_junk_only_rules :: "location_data list \<Rightarrow> 'st region list \<Rightarrow> 'st region list" where
  "apply_junk_only_rules table =
     add_item_rule_where (\<lambda>n. if tagged ld_junk_only table n then Some (\<lambda>it. \<not> advancement it \<and> \<not> useful it) else None)"

definition apply_moon_postwin_rules :: "(string \<Rightarrow> int) \<Rightarrow> location_data list \<Rightarrow> 'st region list \<Rightarrow> 'st region list" where
  "apply_moon_postwin_rules opt table regions =
     (if opt ''goal'' \<in> set goals_with_moon_postwin then regions
      else add_item_rule_where (\<lambda>n. if tagged ld_moon_postwin table n then Some (\<lambda>it. \<not> advancement it \<and> \<not> useful it) else None) regions)"

definition apply_multi_moon_rules :: "location_data list \<Rightarrow> 'st region list \<Rightarrow> 'st region list" where
  "apply_multi_moon_rules table =
     add_item_rule_where (\<lambda>n. Some (if tagged ld_multi_moon table n then is_mm_item else (\<lambda>it. \<not> is_mm_item it)))"

text \<open>An item may be placed where every item rule of the location accepts it.\<close>

definition may_hold :: "'st location \<Rightarrow> pool_item \<Rightarrow> bool" where
  "may_hold l it \<longleftrightarrow> list_all (\<lambda>p. p it) (lo_item_rules l)"

section \<open>Access rules of the shuffle\<close>

type_synonym 'st combine = "'st access \<Rightarrow> 'st access \<Rightarrow> 'st access"

definition apply_entrance_shuffle_location_rules :: "'st rule_env \<Rightarrow> entrance_roll \<Rightarrow> 'st region list \<Rightarrow> 'st region list" where
  "apply_entrance_shuffle_location_rules env roll =
     map_locations (\<lambda>l.
       if lo_name l \<in> set (entrance_shuffled_locs roll)
       then let req = dict_get_or (interior_requires roll) (lo_name l) []
            in l\<lparr>lo_rule := (if req = [] then always else evaluate_interior_requires env req)\<rparr>
       else l)"

text \<open>\<open>subarea_scenario_gates.json\<close> is an argument, \<open>None\<close> when it is missing.\<close>

definition apply_subarea_scenario_gates ::
  "'st combine \<Rightarrow> 'st rule_env \<Rightarrow> (string, string) dict option \<Rightarrow> entrance_roll \<Rightarrow> 'st region list \<Rightarrow> 'st region list" where
  "apply_subarea_scenario_gates add_rule env gates roll regions =
     (case gates of
        None \<Rightarrow> regions
      | Some gates \<Rightarrow>
          map_locations (\<lambda>l.
            if lo_name l \<in> set (entrance_shuffled_locs roll)
            then (case dict_get gates (lo_name l) of
                    None \<Rightarrow> l
                  | Some fragment \<Rightarrow> l\<lparr>lo_rule := add_rule (make_scenario_gate_rule env (Some fragment)) (lo_rule l)\<rparr>)
            else l) regions)"

definition door_fragments :: "(string, string) dict option \<Rightarrow> entrance_roll \<Rightarrow> string \<Rightarrow> string list" where
  "door_fragments gates roll door =
     map (\<lambda>l. dict_get_or (or_default gates []) l []) (subarea_locations roll door)"

definition door_gate ::
  "'st combine \<Rightarrow> 'st hook_env \<Rightarrow> (string, string) dict option \<Rightarrow> entrance_roll \<Rightarrow> string \<Rightarrow> string \<Rightarrow> 'st access \<Rightarrow> 'st access" where
  "door_gate add_rule h gates roll door interior old =
     (let rule = make_door_access_rule h door (subarea_kingdom roll door) (door \<in> entrance_moonpipe roll) (Some interior);
          fragments = door_fragments gates roll door;
          scenario = make_door_scenario_gate_rule (hook_rules h) (map Some fragments)
      in if list_ex (\<lambda>f. f \<noteq> []) fragments then add_rule scenario (add_rule rule old) else add_rule rule old)"

definition apply_door_rule ::
  "'st combine \<Rightarrow> 'st hook_env \<Rightarrow> (string, string) dict option \<Rightarrow> entrance_roll \<Rightarrow> string \<times> string \<Rightarrow> 'st region list \<Rightarrow> 'st region list" where
  "apply_door_rule add_rule h gates roll di regions =
     (case di of (door, interior) \<Rightarrow>
        map_exits (\<lambda>_ e. if en_name e = door_name door interior
                         then e\<lparr>en_rule := door_gate add_rule h gates roll door interior (en_rule e)\<rparr> else e) regions)"

definition apply_entrance_shuffle_door_rules ::
  "'st combine \<Rightarrow> 'st hook_env \<Rightarrow> (string, string) dict option \<Rightarrow> entrance_roll \<Rightarrow> 'st region list \<Rightarrow> 'st region list" where
  "apply_entrance_shuffle_door_rules add_rule h gates roll regions =
     fold (apply_door_rule add_rule h gates roll) (roll_map roll) regions"

definition apply_start_at_cap_peace_rules :: "'st region list \<Rightarrow> exn + 'st region list" where
  "apply_start_at_cap_peace_rules regions =
     (if region_named ''Cap Kingdom'' regions
      then Inr (map_exits (\<lambda>_ e. if en_target e = ''Cap Kingdom'' then e\<lparr>en_rule := always\<rparr> else e) regions)
      else Inl KeyError)"

section \<open>after_set_rules\<close>

text \<open>The accessibility option of the slot; \<open>None\<close> for what the option class lacks.\<close>

record accessibility =
  acc_value :: int
  option_full :: "int option"
  option_minimal :: "int option"

definition relax_full_accessibility :: "accessibility option \<Rightarrow> accessibility option" where
  "relax_full_accessibility acc =
     (case acc of
        None \<Rightarrow> None
      | Some a \<Rightarrow>
          (case (option_full a, option_minimal a) of
             (Some full, Some minimal) \<Rightarrow> Some (if acc_value a = full then a\<lparr>acc_value := minimal\<rparr> else a)
           | _ \<Rightarrow> Some a))"

definition apply_no_logic :: "'st region list \<times> accessibility option \<Rightarrow> 'st region list \<times> accessibility option" where
  "apply_no_logic x =
     (case x of (regions, acc) \<Rightarrow>
        (map_locations (\<lambda>l. l\<lparr>lo_rule := always\<rparr>) (map_exits (\<lambda>_ e. e\<lparr>en_rule := always\<rparr>) regions),
         map_option (\<lambda>a. case option_minimal a of None \<Rightarrow> a | Some m \<Rightarrow> a\<lparr>acc_value := m\<rparr>) acc))"

definition shuffle_rules ::
  "'st combine \<Rightarrow> 'st hook_env \<Rightarrow> (string, string) dict option \<Rightarrow> entrance_roll option \<Rightarrow> 'st region list \<Rightarrow> 'st region list" where
  "shuffle_rules add_rule h gates roll regions =
     (case roll of
        None \<Rightarrow> regions
      | Some roll \<Rightarrow>
          apply_entrance_shuffle_door_rules add_rule h gates roll
            (apply_subarea_scenario_gates add_rule (hook_rules h) gates roll
              (apply_entrance_shuffle_location_rules (hook_rules h) roll regions)))"

definition item_placement_rules :: "(string \<Rightarrow> int) \<Rightarrow> location_data list \<Rightarrow> 'st region list \<Rightarrow> 'st region list" where
  "item_placement_rules opt table regions =
     (let regions = apply_moon_postwin_rules opt table (apply_junk_only_rules table (apply_filler_only_rules table regions))
      in if 0 < opt ''multi_moon_shuffle'' then apply_multi_moon_rules table regions else regions)"

definition after_set_rules ::
  "'st combine \<Rightarrow> 'st hook_env \<Rightarrow> (string, string) dict option \<Rightarrow> location_data list \<Rightarrow> entrance_roll option \<Rightarrow>
   'st region list \<times> accessibility option \<Rightarrow> exn + 'st region list \<times> accessibility option" where
  "after_set_rules add_rule h gates table roll x =
     (let opt = he_option h;
          acc = relax_full_accessibility (snd x);
          regions = item_placement_rules opt table (fst x);
          regions = (if 0 < opt ''entrance_shuffle'' then shuffle_rules add_rule h gates roll regions else regions)
      in case (if 0 < opt ''start_at_cap_peace'' then apply_start_at_cap_peace_rules regions else Inr regions) of
           Inl e \<Rightarrow> Inl e
         | Inr regions \<Rightarrow> Inr (if 0 < opt ''no_logic'' then apply_no_logic (regions, acc) else (regions, acc)))"

text \<open>\<open>SMOWorld.set_rules\<close>; the hook before it does nothing.\<close>

definition world_set_rules ::
  "'st combine \<Rightarrow> 'st hook_env \<Rightarrow> (string, string) dict option \<Rightarrow> (string, region_row) dict \<Rightarrow> location_data list \<Rightarrow>
   entrance_roll option \<Rightarrow> 'st region list \<times> accessibility option \<Rightarrow> exn + 'st region list \<times> accessibility option" where
  "world_set_rules add_rule h gates region_table table roll x =
     (case set_rules (world_env h) (region_map region_table) table (fst x) of
        Inl e \<Rightarrow> Inl e
      | Inr regions \<Rightarrow> after_set_rules add_rule h gates table roll (regions, snd x))"

section \<open>Slot data\<close>

text \<open>What the hook before \<open>fill_slot_data\<close> puts in, as far as the rolls fill it.\<close>

record roll_slot_data =
  sd_kingdom_gates :: "(string, int) dict option"
  sd_entrance_map :: "(string, string) dict option"
  sd_mm_bonus_captures :: "string list option"
  sd_mm_bonus_abilities :: "string list option"

definition not_empty :: "'a list \<Rightarrow> 'a list option" where
  "not_empty xs = (if xs = [] then None else Some xs)"

definition before_fill_slot_data :: "world_rolls \<Rightarrow> entrance_roll option \<Rightarrow> roll_slot_data" where
  "before_fill_slot_data rolls roll =
     \<lparr>sd_kingdom_gates = (case rolled_kingdom_gates rolls of None \<Rightarrow> None | Some g \<Rightarrow> not_empty g),
      sd_entrance_map = map_option roll_map roll,
      sd_mm_bonus_captures = not_empty (mm_bonus_captures rolls),
      sd_mm_bonus_abilities = not_empty (mm_bonus_abilities rolls)\<rparr>"

end
