(* ===== verification/World_Access.thy ===== *)
theory World_Access
  imports World_Rules
begin

text \<open>
  What can be reached in the finished graph. Archipelago reaches a region through an entrance whose rule
  is true from a region it reaches, starting at the menu, and a location when its region is reached and
  its own rule is true.
\<close>

section \<open>Reachability\<close>

inductive region_reached :: "'st region list \<Rightarrow> 'st \<Rightarrow> string \<Rightarrow> bool" for regions st where
  menu: "region_reached regions st ''Menu''"
| exit: "region_reached regions st (rg_name r) \<Longrightarrow> r \<in> set regions \<Longrightarrow> e \<in> set (rg_exits r) \<Longrightarrow> en_rule e st = Inr True \<Longrightarrow>
    en_target e = name \<Longrightarrow> region_reached regions st name"

definition location_reached :: "'st region list \<Rightarrow> 'st \<Rightarrow> string \<Rightarrow> bool" where
  "location_reached regions st name \<longleftrightarrow>
     (\<exists>r\<in>set regions. \<exists>l\<in>set (rg_locations r). lo_name l = name \<and> region_reached regions st (rg_name r) \<and> lo_rule l st = Inr True)"

section \<open>Rules change no shape\<close>

lemma map_exits_exits: "map_exits f (map_exits g regions) = map_exits (\<lambda>r. f r \<circ> g r) regions"
  by (simp add: map_exits_def)

lemma map_locations_locations: "map_locations f (map_locations g regions) = map_locations (f \<circ> g) regions"
  by (simp add: map_locations_def)

lemma map_locations_exits: "map_locations f (map_exits g regions) = map_exits g (map_locations f regions)"
  by (simp add: map_exits_def map_locations_def)

lemma region_named_map [simp]:
  "region_named n (map_exits f regions) = region_named n regions" "region_named n (map_locations g regions) = region_named n regions"
  by (simp_all add: region_named_def map_exits_def map_locations_def comp_def)

lemma in_map_graph:
  "r \<in> set (map_exits f (map_locations g regions)) \<longleftrightarrow>
   (\<exists>r0\<in>set regions. r = r0\<lparr>rg_locations := map g (rg_locations r0), rg_exits := map (f (rg_name r0)) (rg_exits r0)\<rparr>)"
  by (auto simp: map_exits_def map_locations_def)

text \<open>Adding item rules leaves names and access rules.\<close>

definition only_item_rules :: "('st region list \<Rightarrow> 'st region list) \<Rightarrow> bool" where
  "only_item_rules F \<longleftrightarrow> (\<exists>g. F = map_locations g \<and> (\<forall>l. lo_name (g l) = lo_name l \<and> lo_rule (g l) = lo_rule l))"

lemma only_item_rules_comp: "only_item_rules F \<Longrightarrow> only_item_rules G \<Longrightarrow> only_item_rules (\<lambda>x. F (G x))"
  unfolding only_item_rules_def
proof (elim exE conjE)
  fix f g :: "'a location \<Rightarrow> 'a location"
  assume a: "F = map_locations f" "G = map_locations g" "\<forall>l. lo_name (f l) = lo_name l \<and> lo_rule (f l) = lo_rule l"
    "\<forall>l. lo_name (g l) = lo_name l \<and> lo_rule (g l) = lo_rule l"
  show "\<exists>g. (\<lambda>x. F (G x)) = map_locations g \<and> (\<forall>l. lo_name (g l) = lo_name l \<and> lo_rule (g l) = lo_rule l)"
    by (rule exI [of _ "f \<circ> g"]) (simp add: a map_locations_locations fun_eq_iff)
qed

lemma only_item_rules_where: "only_item_rules (add_item_rule_where rule)"
  unfolding only_item_rules_def add_item_rule_where_def fun_eq_iff
  by (rule exI [of _ "\<lambda>l. case rule (lo_name l) of None \<Rightarrow> l | Some p \<Rightarrow> l\<lparr>lo_item_rules := lo_item_rules l @ [p]\<rparr>"])
    (simp split: option.split)

lemma only_item_rules_id: "only_item_rules (\<lambda>x. x)"
  unfolding only_item_rules_def by (rule exI [of _ id]) (simp add: map_locations_def fun_eq_iff)

lemma only_item_rules_placement: "only_item_rules (item_placement_rules opt table)"
proof -
  have post: "only_item_rules (\<lambda>x. apply_moon_postwin_rules opt table (apply_junk_only_rules table (apply_filler_only_rules table x)))"
    unfolding apply_moon_postwin_rules_def goals_with_moon_postwin_def apply_junk_only_rules_def apply_filler_only_rules_def list.set empty_iff if_False
    by (rule only_item_rules_comp [OF only_item_rules_where only_item_rules_comp [OF only_item_rules_where only_item_rules_where]])
  show ?thesis
  proof (cases "0 < opt ''multi_moon_shuffle''")
    case True
    have "only_item_rules (\<lambda>x. apply_multi_moon_rules table (apply_moon_postwin_rules opt table (apply_junk_only_rules table (apply_filler_only_rules table x))))"
      by (rule only_item_rules_comp [OF _ post]) (simp add: apply_multi_moon_rules_def only_item_rules_where)
    then show ?thesis using True unfolding item_placement_rules_def Let_def by simp
  next
    case False
    then show ?thesis using post unfolding item_placement_rules_def Let_def by simp
  qed
qed

section \<open>The rules of a shuffled graph\<close>

text \<open>What the passes over the rules do to one exit and to one location.\<close>

definition exit_pass :: "'st rule_env \<Rightarrow> (string, region_row) dict \<Rightarrow> string \<Rightarrow> 'st entrance \<Rightarrow> 'st entrance" where
  "exit_pass env rows r e =
     (if r \<in> set (dict_keys rows) \<and> r \<noteq> ''Menu'' then e\<lparr>en_rule := exit_rule env (region_areas rows) r\<rparr> else e)"

definition door_pass ::
  "'st combine \<Rightarrow> 'st hook_env \<Rightarrow> (string, string) dict option \<Rightarrow> entrance_roll \<Rightarrow> string \<times> string \<Rightarrow> 'st entrance \<Rightarrow> 'st entrance" where
  "door_pass add_rule h gates roll di e =
     (if en_name e = door_name (fst di) (snd di) then e\<lparr>en_rule := door_gate add_rule h gates roll (fst di) (snd di) (en_rule e)\<rparr> else e)"

definition peace_pass :: "(string \<Rightarrow> int) \<Rightarrow> 'st entrance \<Rightarrow> 'st entrance" where
  "peace_pass opt e = (if 0 < opt ''start_at_cap_peace'' \<and> en_target e = ''Cap Kingdom'' then e\<lparr>en_rule := always\<rparr> else e)"

definition moon_rule ::
  "'st combine \<Rightarrow> 'st rule_env \<Rightarrow> (string, string) dict option \<Rightarrow> entrance_roll \<Rightarrow> string \<Rightarrow> 'st access" where
  "moon_rule add_rule env gates roll n =
     (let req = dict_get_or (interior_requires roll) n [];
          rule = (if req = [] then always else evaluate_interior_requires env req)
      in case dict_get (or_default gates []) n of
           None \<Rightarrow> rule
         | Some fragment \<Rightarrow> add_rule (make_scenario_gate_rule env (Some fragment)) rule)"

lemma door_passes: "apply_entrance_shuffle_door_rules add_rule h gates roll = map_exits (\<lambda>_. fold (door_pass add_rule h gates roll) (roll_map roll))"
proof -
  have "fold (apply_door_rule add_rule h gates roll) ds regions = map_exits (\<lambda>_. fold (door_pass add_rule h gates roll) ds) regions" for ds regions
  proof (induction ds arbitrary: regions)
    case Nil
    then show ?case by (simp add: map_exits_def)
  next
    case (Cons di ds)
    have one: "apply_door_rule add_rule h gates roll di regions = map_exits (\<lambda>_. door_pass add_rule h gates roll di) regions"
      by (cases di) (simp add: apply_door_rule_def door_pass_def map_exits_def)
    show ?case unfolding fold_simps Cons.IH one map_exits_exits by (simp add: comp_def)
  qed
  then show ?thesis by (simp add: apply_entrance_shuffle_door_rules_def fun_eq_iff)
qed

lemma moon_pass:
  obtains g where
    "\<And>regions :: 'st region list. apply_subarea_scenario_gates add_rule env gates roll (apply_entrance_shuffle_location_rules env roll regions) = map_locations g regions"
    "\<And>l. lo_name (g l) = lo_name l" "\<And>l. lo_name l \<in> set (entrance_shuffled_locs roll) \<Longrightarrow> lo_rule (g l) = moon_rule add_rule env gates roll (lo_name l)"
proof
  let ?g = "\<lambda>l. if lo_name l \<in> set (entrance_shuffled_locs roll) then l\<lparr>lo_rule := moon_rule add_rule env gates roll (lo_name l)\<rparr> else l"
  show "apply_subarea_scenario_gates add_rule env gates roll (apply_entrance_shuffle_location_rules env roll regions) = map_locations ?g regions"
    for regions :: "'st region list"
  proof (cases gates)
    case None
    then show ?thesis
      by (auto simp: apply_subarea_scenario_gates_def apply_entrance_shuffle_location_rules_def map_locations_def moon_rule_def Let_def)
  next
    case (Some gs)
    show ?thesis
      unfolding Some apply_subarea_scenario_gates_def apply_entrance_shuffle_location_rules_def option.case map_locations_locations
      by (rule arg_cong [where f = "\<lambda>g. map_locations g regions"]) (auto simp: moon_rule_def Let_def fun_eq_iff split: option.split)
  qed
qed simp_all

text \<open>The graph after \<open>after_set_rules\<close>, when the shuffle is on and \<open>no_logic\<close> is off.\<close>

lemma world_rules_graph:
  assumes "world_set_rules add_rule h gates region_table table (Some roll) (regions, acc) = Inr (finished, acc')"
    "0 < he_option h ''entrance_shuffle''" "he_option h ''no_logic'' \<le> 0"
  obtains g where
    "finished = map_exits (\<lambda>r e. peace_pass (he_option h) (fold (door_pass add_rule h gates roll) (roll_map roll)
       (exit_pass (world_env h) (region_map region_table) r e))) (map_locations g regions)"
    "\<And>l. lo_name (g l) = lo_name l"
    "\<And>l. lo_name l \<in> set (entrance_shuffled_locs roll) \<Longrightarrow> lo_rule (g l) = moon_rule add_rule (hook_rules h) gates roll (lo_name l)"
proof -
  let ?E = "exit_pass (world_env h) (region_map region_table)" and ?D = "fold (door_pass add_rule h gates roll) (roll_map roll)"
  have exits: "set_exit_rules (world_env h) (region_map region_table) = map_exits ?E"
    by (simp add: set_exit_rules_def exit_pass_def fun_eq_iff map_exits_def)
  obtain rules where "set_rules (world_env h) (region_map region_table) table regions = Inr (map_locations
      (\<lambda>l. case dict_get rules (lo_name l) of None \<Rightarrow> l | Some rule \<Rightarrow> l\<lparr>lo_rule := rule\<rparr>) (map_exits ?E regions))" (is "_ = Inr (map_locations ?r _)")
    using assms(1) by (auto simp: world_set_rules_def set_rules_def exits split: sum.splits)
  then have after: "after_set_rules add_rule h gates table (Some roll) (map_locations ?r (map_exits ?E regions), acc) = Inr (finished, acc')"
    using assms(1) by (simp add: world_set_rules_def)
  obtain i where i: "item_placement_rules (he_option h) table = (map_locations i :: 'a region list \<Rightarrow> _)"
      "\<And>l :: 'a location. lo_name (i l) = lo_name l" "\<And>l :: 'a location. lo_rule (i l) = lo_rule l"
    using only_item_rules_placement unfolding only_item_rules_def by metis
  obtain m where m: "\<And>rs :: 'a region list. apply_subarea_scenario_gates add_rule (hook_rules h) gates roll (apply_entrance_shuffle_location_rules (hook_rules h) roll rs) = map_locations m rs"
      "\<And>l. lo_name (m l) = lo_name l"
      "\<And>l. lo_name l \<in> set (entrance_shuffled_locs roll) \<Longrightarrow> lo_rule (m l) = moon_rule add_rule (hook_rules h) gates roll (lo_name l)"
    by (rule moon_pass [of add_rule "hook_rules h" gates roll]) (rule that)
  have shuffled: "shuffle_rules add_rule h gates (Some roll) (item_placement_rules (he_option h) table (map_locations ?r (map_exits ?E regions))) =
      map_exits (\<lambda>r e. ?D (?E r e)) (map_locations (\<lambda>l. m (i (?r l))) regions)"
    by (simp add: shuffle_rules_def m(1) door_passes i(1) map_locations_locations map_locations_exits map_exits_exits comp_def)
  have "finished = map_exits (\<lambda>r e. peace_pass (he_option h) (?D (?E r e))) (map_locations (\<lambda>l. m (i (?r l))) regions)"
  proof (cases "0 < he_option h ''start_at_cap_peace''")
    case True
    with after assms(2,3) shuffled show ?thesis
      by (auto simp: after_set_rules_def Let_def apply_start_at_cap_peace_rules_def map_exits_exits comp_def peace_pass_def [abs_def] split: if_splits)
  next
    case False
    with after assms(2,3) shuffled show ?thesis by (simp add: after_set_rules_def Let_def peace_pass_def)
  qed
  moreover have "lo_name (?r l) = lo_name l" for l by (simp split: option.split)
  ultimately show thesis using that [of "\<lambda>l. m (i (?r l))"] by (simp add: m(2,3) i(2))
qed

section \<open>The shape of a shuffled graph\<close>

lemma keep_locations_shape:
  "r \<in> set (keep_locations keep rs) \<Longrightarrow> \<exists>r0\<in>set rs. rg_name r = rg_name r0 \<and> rg_exits r = rg_exits r0 \<and> set (rg_locations r) \<subseteq> set (rg_locations r0)"
  by (auto simp: keep_locations_def)

lemma add_doors:
  "fold (add_door roll) ds rs =
   map (\<lambda>r. r\<lparr>rg_exits := rg_exits r @ map door_entrance (filter (\<lambda>di. snd di \<in> set (entrance_pool roll) \<and> rg_name r = subarea_kingdom roll (fst di)) ds)\<rparr>) rs"
proof (induction ds arbitrary: rs)
  case (Cons di ds)
  show ?case unfolding fold_simps Cons.IH by (auto simp: add_door_def)
qed simp

text \<open>The names and targets a graph has before the doors are added.\<close>

definition plain_region :: "(string, region_row) dict \<Rightarrow> 'st region \<Rightarrow> bool" where
  "plain_region rows r \<longleftrightarrow> rg_name r \<in> set (''Menu'' # dict_keys rows) \<and>
     (\<forall>e\<in>set (rg_exits r). en_target e \<in> set (''Menu'' # dict_keys rows) \<and>
        (\<exists>x. en_name e = connection_name (rg_name r) x \<and> x \<in> set (''Menu'' # dict_keys rows)))"

lemma create_regions_plain:
  assumes "create_regions enabled rows table = Inr regions" "r \<in> set regions"
  shows "plain_region rows r"
proof -
  have root: "root_region \<in> set (dict_keys rows)"
    and targets: "\<And>n row x. (n, row) \<in> set rows \<Longrightarrow> x \<in> set (or_default (rr_connects_to row) []) \<Longrightarrow> x \<in> set (''Menu'' # dict_keys rows)"
    using assms(1) by (fastforce simp: create_regions_def list_all_iff split: if_splits)+
  consider (menu) "r = create_region ''Menu'' [] [root_region]"
    | (row) n row where "(n, row) \<in> set rows" "r = create_region n (region_locations enabled table n) (or_default (rr_connects_to row) [])"
    using assms by (auto simp: create_regions_def split: if_splits)
  then show ?thesis
  proof cases
    case menu
    then show ?thesis using root by (auto simp: create_region_def plain_region_def)
  next
    case row
    then have "n \<in> set (dict_keys rows)" by force
    with row targets [OF row(1)] show ?thesis by (auto simp: create_region_def plain_region_def)
  qed
qed

lemma create_regions_named:
  "create_regions enabled rows table = Inr regions \<Longrightarrow> map rg_name regions = dict_keys rows @ [''Menu'']"
  by (auto simp: create_regions_def create_region_def comp_def split_def split: if_splits)

lemma keep_locations_names [simp]: "map rg_name (keep_locations keep rs) = map rg_name rs"
  by (simp add: keep_locations_def)

lemma keep_locations_plain:
  assumes "\<And>r. r \<in> set rs \<Longrightarrow> plain_region rows r" "r \<in> set (keep_locations keep rs)"
  shows "plain_region rows r"
proof -
  obtain r0 where "r0 \<in> set rs" "rg_name r = rg_name r0" "rg_exits r = rg_exits r0" using keep_locations_shape [OF assms(2)] by blast
  then show ?thesis using assms(1) [of r0] by (simp add: plain_region_def)
qed

lemma fit_goal_keeps:
  assumes "fit_goal table goal rs = Inr rs'"
  obtains keep where "rs' = keep_locations keep rs"
proof -
  have comp: "keep_locations k (keep_locations k' rs) = keep_locations (\<lambda>r n. k' r n \<and> k r n) rs" for k k'
    by (simp add: keep_locations_def)
  show thesis
    using assms that by (auto simp: fit_goal_def drop_unused_goals_def festival_locations_def Let_def comp split: option.splits sum.splits if_splits)
qed

lemma shuffled_graph:
  assumes "world_create_regions opt categories region_table table (Some roll) = Inr regions"
  obtains rs where "regions = wire_entrance_shuffle roll rs" "map rg_name rs = dict_keys (region_map region_table) @ [''Menu'']"
    "\<And>r. r \<in> set rs \<Longrightarrow> plain_region (region_map region_table) r"
proof -
  let ?enabled = "is_location_enabled opt categories"
  obtain base fitted where base: "create_regions ?enabled (region_map region_table) table = Inr (base :: 'a region list)"
    and fitted: "fit_goal table (opt ''goal'') base = Inr fitted" and regions: "regions = after_create_regions ?enabled table (Some roll) fitted"
    using assms by (auto simp: world_create_regions_def Let_def split: sum.splits)
  obtain keep where keep: "fitted = keep_locations keep base" using fit_goal_keeps [OF fitted] .
  note plain = create_regions_plain [OF base]
  have names: "map rg_name fitted = dict_keys (region_map region_table) @ [''Menu'']" using create_regions_named [OF base] keep by simp
  have fp: "plain_region (region_map region_table) r" if "r \<in> set fitted" for r
    using keep_locations_plain [of base] plain that keep by metis
  show thesis
    using that [OF _ _ keep_locations_plain [of fitted, OF fp]] regions names by (simp add: after_create_regions_def Let_def)
qed

section \<open>Doors and moons of the finished graph\<close>

lemma exit_pass_fields [simp]: "en_name (exit_pass env rows r e) = en_name e" "en_target (exit_pass env rows r e) = en_target e"
  by (simp_all add: exit_pass_def)

lemma peace_pass_fields [simp]: "en_name (peace_pass opt e) = en_name e" "en_target (peace_pass opt e) = en_target e"
  by (simp_all add: peace_pass_def)

lemma door_pass_fields [simp]:
  "en_name (fold (door_pass add_rule h gates roll) ds e) = en_name e" "en_target (fold (door_pass add_rule h gates roll) ds e) = en_target e"
  by (induction ds arbitrary: e) (simp_all add: door_pass_def)

lemma door_pass_rule:
  assumes "distinct (map (\<lambda>(d, i). door_name d i) ds)"
  shows "(d, i) \<in> set ds \<Longrightarrow> en_name e = door_name d i \<Longrightarrow>
    en_rule (fold (door_pass add_rule h gates roll) ds e) = door_gate add_rule h gates roll d i (en_rule e)"
  using assms
proof (induction ds arbitrary: e)
  case (Cons x ds)
  obtain d' i' where x: "x = (d', i')" by fastforce
  have later: "fold (door_pass add_rule h gates roll) ds e' = e'" if "en_name e' \<notin> set (map (\<lambda>(d, i). door_name d i) ds)" for e'
    using that by (induction ds) (auto simp: door_pass_def)
  show ?case
  proof (cases "x = (d, i)")
    case True
    have "fold (door_pass add_rule h gates roll) ds (door_pass add_rule h gates roll x e) = door_pass add_rule h gates roll x e"
      using Cons.prems True by (intro later) (simp add: door_pass_def)
    then show ?thesis unfolding fold_simps by (simp add: door_pass_def Cons.prems(2) True)
  next
    case False
    then have "(d, i) \<in> set ds" using Cons.prems(1) by auto
    moreover have "door_name d i \<noteq> door_name d' i'" using Cons.prems(3) \<open>(d, i) \<in> set ds\<close> x by force
    ultimately show ?thesis using Cons.IH [of e] Cons.prems(2,3) x by (simp add: door_pass_def)
  qed
qed simp

text \<open>Names that keep the shuffled part apart from the regions of \<open>regions.json\<close>.\<close>

definition names_apart :: "(string, region_row) dict \<Rightarrow> entrance_roll \<Rightarrow> bool" where
  "names_apart rows roll \<longleftrightarrow>
     ''Menu'' \<notin> set (dict_keys rows) \<and>
     list_all (\<lambda>s. interior_name s \<notin> set (''Menu'' # dict_keys rows)) (entrance_pool roll) \<and>
     list_all (\<lambda>(d, i). i \<in> set (entrance_pool roll) \<and> subarea_kingdom roll d \<in> set (dict_keys rows)) (roll_map roll) \<and>
     distinct (map (\<lambda>(d, i). door_name d i) (roll_map roll))"

lemma interior_name_inject [simp]: "interior_name s = interior_name t \<longleftrightarrow> s = t"
  by (simp add: interior_name_def)

lemma interior_not_cap: "interior_name s \<noteq> ''Cap Kingdom''"
proof
  assume "interior_name s = ''Cap Kingdom''"
  then have "last (interior_name s) = CHR ''m''" by simp
  then show False by (simp add: interior_name_def)
qed

lemma loc_to_subareaD:
  assumes "dict_get (loc_to_subarea roll) m = Some s"
  shows "s \<in> set (entrance_pool roll) \<and> (\<exists>info. (s, info) \<in> set (entrance_subareas roll) \<and> m \<in> set (sa_location_names info))"
proof -
  have inner: "dict_get (foldl (\<lambda>d l. dict_set l s' d) d ls) m = (if m \<in> set ls then Some s' else dict_get d m)" for ls d s'
    by (induction ls arbitrary: d) auto
  have "dict_get d m = Some s \<or> s \<in> set (entrance_pool roll) \<and> (\<exists>info. (s, info) \<in> set subs \<and> m \<in> set (sa_location_names info))"
    if "dict_get (foldl (\<lambda>d (s, info). if s \<in> set (entrance_pool roll) then foldl (\<lambda>d l. dict_set l s d) d (sa_location_names info) else d)
      d subs) m = Some s" for subs d
    using that
  proof (induction subs arbitrary: d)
    case (Cons x subs)
    obtain s' info where x: "x = (s', info)" by fastforce
    show ?case using Cons.IH [of "if s' \<in> set (entrance_pool roll) then foldl (\<lambda>d l. dict_set l s' d) d (sa_location_names info) else d"] Cons.prems
      by (auto simp: x inner split: if_splits)
  qed simp
  from this [of "[]" "entrance_subareas roll"] assms show ?thesis by (simp add: loc_to_subarea_def)
qed

lemma roll_shuffles:
  assumes "before_create_regions opt subareas exclusions stages requirements table r = (Some roll, r')" "dict_ok subareas"
    "dict_get (loc_to_subarea roll) m = Some s"
  shows "m \<in> set (entrance_shuffled_locs roll)"
proof -
  have roll: "entrance_subareas roll = subareas" "entrance_shuffled_locs roll =
      concat (map (\<lambda>s. case dict_get subareas s of None \<Rightarrow> [] | Some info \<Rightarrow> sa_location_names info) (entrance_pool roll))"
    using assms(1) by (auto simp: before_create_regions_def Let_def split: if_splits prod.splits)
  obtain info where "s \<in> set (entrance_pool roll)" "dict_get subareas s = Some info" "m \<in> set (sa_location_names info)"
    using loc_to_subareaD [OF assms(3)] assms(2) roll(1) by (auto simp: map_of_eq_Some_iff)
  then show ?thesis by (auto simp: roll(2) intro!: bexI [of _ s])
qed

definition shuffled_world ::
  "'st combine \<Rightarrow> 'st hook_env \<Rightarrow> (string, string) dict option \<Rightarrow> (string, region_row) dict \<Rightarrow> location_data list \<Rightarrow> entrance_roll \<Rightarrow> 'st region list \<Rightarrow> bool" where
  "shuffled_world add_rule h gates region_table table roll finished \<longleftrightarrow>
     0 < he_option h ''entrance_shuffle'' \<and> he_option h ''no_logic'' \<le> 0 \<and> names_apart (region_map region_table) roll \<and>
     (\<exists>opt categories regions acc acc'. world_create_regions opt categories region_table table (Some roll) = Inr regions \<and>
        world_set_rules add_rule h gates region_table table (Some roll) (regions, acc) = Inr (finished, acc'))"

text \<open>The final rule of an exit of region \<open>r\<close>.\<close>

definition final_exit ::
  "'st combine \<Rightarrow> 'st hook_env \<Rightarrow> (string, string) dict option \<Rightarrow> (string, region_row) dict \<Rightarrow> entrance_roll \<Rightarrow> string \<Rightarrow> 'st entrance \<Rightarrow> 'st entrance" where
  "final_exit add_rule h gates region_table roll r e =
     peace_pass (he_option h) (fold (door_pass add_rule h gates roll) (roll_map roll) (exit_pass (world_env h) (region_map region_table) r e))"

lemma final_exit_fields [simp]:
  "en_name (final_exit add_rule h gates region_table roll r e) = en_name e"
  "en_target (final_exit add_rule h gates region_table roll r e) = en_target e"
  by (simp_all add: final_exit_def)

definition door_exits :: "entrance_roll \<Rightarrow> string \<Rightarrow> 'st entrance list" where
  "door_exits roll k = map door_entrance (filter (\<lambda>di. snd di \<in> set (entrance_pool roll) \<and> k = subarea_kingdom roll (fst di)) (roll_map roll))"

text \<open>The graph is the regions of the table without the moved moons, and the interiors; each has its own exits
  and then its doors.\<close>

lemma shuffled_worldE:
  assumes "shuffled_world add_rule h gates region_table table roll finished"
  obtains rs g where
    "finished = map (\<lambda>r. r\<lparr>rg_locations := map g (rg_locations r),
         rg_exits := map (final_exit add_rule h gates region_table roll (rg_name r)) (rg_exits r @ door_exits roll (rg_name r))\<rparr>)
       (keep_locations (\<lambda>_ n. dict_get (loc_to_subarea roll) n = None) rs @ interior_regions roll rs)"
    "map rg_name rs = dict_keys (region_map region_table) @ [''Menu'']"
    "\<And>r. r \<in> set rs \<Longrightarrow> plain_region (region_map region_table) r"
    "\<And>l. lo_name (g l) = lo_name l"
    "\<And>l. lo_name l \<in> set (entrance_shuffled_locs roll) \<Longrightarrow> lo_rule (g l) = moon_rule add_rule (hook_rules h) gates roll (lo_name l)"
proof -
  obtain opt categories regions acc acc' where c: "world_create_regions opt categories region_table table (Some roll) = Inr regions"
    and s: "world_set_rules add_rule h gates region_table table (Some roll) (regions, acc) = Inr (finished, acc')"
    using assms by (auto simp: shuffled_world_def)
  obtain rs where rs: "regions = wire_entrance_shuffle roll rs" "map rg_name rs = dict_keys (region_map region_table) @ [''Menu'']"
    "\<And>r. r \<in> set rs \<Longrightarrow> plain_region (region_map region_table) r"
    by (rule shuffled_graph [OF c]) (rule that)
  have o: "0 < he_option h ''entrance_shuffle''" "he_option h ''no_logic'' \<le> 0" using assms by (simp_all add: shuffled_world_def)
  obtain g where g0: "finished = map_exits (\<lambda>r e. peace_pass (he_option h) (fold (door_pass add_rule h gates roll) (roll_map roll)
       (exit_pass (world_env h) (region_map region_table) r e))) (map_locations g regions)"
    and g: "\<And>l. lo_name (g l) = lo_name l"
    "\<And>l. lo_name l \<in> set (entrance_shuffled_locs roll) \<Longrightarrow> lo_rule (g l) = moon_rule add_rule (hook_rules h) gates roll (lo_name l)"
    by (rule world_rules_graph [OF s o]) (rule that)
  show thesis
    by (rule that [OF _ rs(2,3) g])
      (simp_all add: g0 final_exit_def rs(1) wire_entrance_shuffle_def add_doors map_exits_def map_locations_def door_exits_def)
qed

lemma door_exit_rule:
  assumes "names_apart (region_map region_table) roll" "(d, i) \<in> set (roll_map roll)"
  shows "en_rule (final_exit add_rule h gates region_table roll (subarea_kingdom roll d) (door_entrance (d, i))) =
    door_gate add_rule h gates roll d i (exit_rule (world_env h) (region_areas (region_map region_table)) (subarea_kingdom roll d))"
proof -
  let ?k = "subarea_kingdom roll d" and ?rows = "region_map region_table"
  have in_rows: "?k \<in> set (dict_keys ?rows)" "''Menu'' \<notin> set (dict_keys ?rows)" and distinct: "distinct (map (\<lambda>(d, i). door_name d i) (roll_map roll))"
    using assms by (auto simp: names_apart_def list_all_iff)
  then have k: "?k \<noteq> ''Menu''" by metis
  have "exit_pass (world_env h) ?rows ?k (door_entrance (d, i)) =
      (door_entrance (d, i))\<lparr>en_rule := exit_rule (world_env h) (region_areas ?rows) ?k\<rparr>" (is "_ = ?e")
    using k in_rows(1) by (simp add: exit_pass_def)
  moreover have "en_rule (fold (door_pass add_rule h gates roll) (roll_map roll) ?e) = door_gate add_rule h gates roll d i (en_rule ?e)"
    by (rule door_pass_rule [OF distinct assms(2)]) (simp add: door_entrance_def)
  moreover have "en_target ?e \<noteq> ''Cap Kingdom''" by (simp add: door_entrance_def interior_not_cap)
  ultimately show ?thesis by (simp add: final_exit_def peace_pass_def)
qed

text \<open>Every entrance into an interior is a door of the roll, and every door of the roll is one.\<close>

lemma interior_entrances:
  assumes "shuffled_world add_rule h gates region_table table roll finished" "i \<in> set (entrance_pool roll)"
  shows "(\<exists>r\<in>set finished. \<exists>e\<in>set (rg_exits r). rg_name r = n \<and> en_target e = interior_name i \<and> en_rule e = rule) \<longleftrightarrow>
    (\<exists>d. (d, i) \<in> set (roll_map roll) \<and> n = subarea_kingdom roll d \<and>
       rule = door_gate add_rule h gates roll d i (exit_rule (world_env h) (region_areas (region_map region_table)) n))"
  (is "?L \<longleftrightarrow> ?R")
proof -
  let ?rows = "region_map region_table" and ?F = "final_exit add_rule h gates region_table roll"
  have apart: "names_apart ?rows roll" using assms(1) by (simp add: shuffled_world_def)
  obtain rs g where fin: "finished = map (\<lambda>r. r\<lparr>rg_locations := map g (rg_locations r),
         rg_exits := map (?F (rg_name r)) (rg_exits r @ door_exits roll (rg_name r))\<rparr>)
       (keep_locations (\<lambda>_ n. dict_get (loc_to_subarea roll) n = None) rs @ interior_regions roll rs)"
    and named: "map rg_name rs = dict_keys ?rows @ [''Menu'']" and plain: "\<And>r. r \<in> set rs \<Longrightarrow> plain_region ?rows r"
    by (rule shuffled_worldE [OF assms(1)]) (rule that)
  let ?base = "keep_locations (\<lambda>_ n. dict_get (loc_to_subarea roll) n = None) rs @ interior_regions roll rs"
  have exits: "(\<exists>r\<in>set finished. \<exists>e\<in>set (rg_exits r). rg_name r = n \<and> P e) \<longleftrightarrow>
      (\<exists>r\<in>set ?base. \<exists>e\<in>set (rg_exits r @ door_exits roll n). rg_name r = n \<and> P (?F n e))" for P
    unfolding fin by (simp del: set_append map_append) blast
  have new: "interior_name i \<notin> set (''Menu'' # dict_keys ?rows)" using apart assms(2) by (auto simp: names_apart_def list_all_iff)
  have old: "en_target e \<noteq> interior_name i" if r: "r \<in> set ?base" and e: "e \<in> set (rg_exits r)" for r e
  proof -
    consider "r \<in> set (keep_locations (\<lambda>_ n. dict_get (loc_to_subarea roll) n = None) rs)" | "rg_exits r = []"
      using r by (auto simp: interior_regions_def)
    then show ?thesis
    proof cases
      case 1
      then have "plain_region ?rows r" using keep_locations_plain [OF plain] by blast
      then have "en_target e \<in> set (''Menu'' # dict_keys ?rows)" using e by (simp add: plain_region_def)
      then show ?thesis using new by metis
    qed (use e in simp)
  qed
  have base: "\<exists>r\<in>set ?base. rg_name r = k" if "k \<in> set (dict_keys ?rows)" for k
  proof -
    have "k \<in> set (map rg_name ?base)" using that named by simp
    then show ?thesis by (auto simp only: set_map)
  qed
  show ?thesis
  proof
    assume ?L
    then obtain r e where r: "r \<in> set ?base" "e \<in> set (rg_exits r @ door_exits roll n)" "rg_name r = n" "en_target e = interior_name i" "rule = en_rule (?F n e)"
      unfolding exits [of "\<lambda>e. en_target e = interior_name i \<and> en_rule e = rule"] by auto
    then have "e \<in> set (door_exits roll n)" using old by auto
    then obtain d where "(d, i) \<in> set (roll_map roll)" "n = subarea_kingdom roll d" "e = door_entrance (d, i)"
      using r(4) by (auto simp: door_exits_def door_entrance_def)
    then show ?R using door_exit_rule [OF apart] r(5) by blast
  next
    assume ?R
    then obtain d where d: "(d, i) \<in> set (roll_map roll)" "n = subarea_kingdom roll d"
        "rule = door_gate add_rule h gates roll d i (exit_rule (world_env h) (region_areas ?rows) n)" by blast
    then have "n \<in> set (dict_keys ?rows)" using apart by (auto simp: names_apart_def list_all_iff)
    then obtain r where r: "r \<in> set ?base" "rg_name r = n" using base by blast
    have "door_entrance (d, i) \<in> set (door_exits roll n :: 'a entrance list)" using d(1,2) assms(2) by (force simp: door_exits_def)
    moreover have "en_rule (?F n (door_entrance (d, i))) = rule" using door_exit_rule [OF apart d(1)] d(2,3) by simp
    ultimately show ?L
      unfolding exits [of "\<lambda>e. en_target e = interior_name i \<and> en_rule e = rule"]
      using r by (intro bexI [of _ r] bexI [of _ "door_entrance (d, i)"]) (auto simp: door_entrance_def)
  qed
qed

lemma interior_moons:
  assumes "shuffled_world add_rule h gates region_table table roll finished"
    "dict_get (loc_to_subarea roll) m = Some s" "m \<in> set (entrance_shuffled_locs roll)"
    "r \<in> set finished" "l \<in> set (rg_locations r)" "lo_name l = m"
  shows "rg_name r = interior_name s \<and> lo_rule l = moon_rule add_rule (hook_rules h) gates roll m"
proof -
  obtain rs g where fin: "finished = map (\<lambda>r. r\<lparr>rg_locations := map g (rg_locations r),
         rg_exits := map (final_exit add_rule h gates region_table roll (rg_name r)) (rg_exits r @ door_exits roll (rg_name r))\<rparr>)
       (keep_locations (\<lambda>_ n. dict_get (loc_to_subarea roll) n = None) rs @ interior_regions roll rs)"
    and g: "\<And>l. lo_name (g l) = lo_name l"
      "\<And>l. lo_name l \<in> set (entrance_shuffled_locs roll) \<Longrightarrow> lo_rule (g l) = moon_rule add_rule (hook_rules h) gates roll (lo_name l)"
    by (rule shuffled_worldE [OF assms(1)]) (rule that)
  obtain r0 where r0: "r0 \<in> set (keep_locations (\<lambda>_ n. dict_get (loc_to_subarea roll) n = None) rs @ interior_regions roll rs)"
      "rg_name r = rg_name r0" "rg_locations r = map g (rg_locations r0)"
    using assms(4) unfolding fin by (auto simp del: set_append map_append)
  then obtain l0 where l0: "l0 \<in> set (rg_locations r0)" "l = g l0" using assms(5) by auto
  have m: "lo_name l0 = m" using assms(6) l0(2) g(1) by simp
  have "r0 \<notin> set (keep_locations (\<lambda>_ n. dict_get (loc_to_subarea roll) n = None) rs)"
    using l0(1) m assms(2) by (auto simp: keep_locations_def)
  then show ?thesis using assms(2,3) g(2) [of l0] r0(1,2) l0 m by (auto simp: interior_regions_def)
qed

section \<open>What a moon asks for\<close>

text \<open>A door is open when every gate in its way is, and one of its own moons' scenario gates is; a moon can be
  done when its move requirement and its scenario gate hold.\<close>

definition door_open ::
  "'st hook_env \<Rightarrow> (string, string) dict option \<Rightarrow> entrance_roll \<Rightarrow> 'st \<Rightarrow> string \<Rightarrow> string \<Rightarrow> bool" where
  "door_open h gates roll st door interior \<longleftrightarrow>
     list_all (\<lambda>g. check_require_string (world_env h) g st = Inr True)
       (door_gates door (subarea_kingdom roll door) (door \<in> entrance_moonpipe roll) (Some interior)) \<and>
     (list_all (\<lambda>f. f = []) (door_fragments gates roll door) \<or>
      make_door_scenario_gate_rule (hook_rules h) (map Some (door_fragments gates roll door)) st = Inr True)"

definition moon_doable :: "'st hook_env \<Rightarrow> (string, string) dict option \<Rightarrow> entrance_roll \<Rightarrow> 'st \<Rightarrow> string \<Rightarrow> bool" where
  "moon_doable h gates roll st moon \<longleftrightarrow>
     evaluate_interior_requires (hook_rules h) (dict_get_or (interior_requires roll) moon []) st = Inr True \<and>
     make_scenario_gate_rule (hook_rules h) (dict_get (or_default gates []) moon) st = Inr True"

definition combines_rules :: "'st combine \<Rightarrow> bool" where
  "combines_rules add_rule \<longleftrightarrow> (\<forall>new old st. add_rule new old st = Inr True \<longleftrightarrow> new st = Inr True \<and> old st = Inr True)"

lemma door_gate_open:
  assumes "combines_rules add_rule"
  shows "door_gate add_rule h gates roll d i old st = Inr True \<longleftrightarrow> door_open h gates roll st d i \<and> old st = Inr True"
proof -
  have "list_all (holds_gate h st) gs \<longleftrightarrow> list_all (\<lambda>g. check_require_string (world_env h) g st = Inr True) gs" for gs
    by (simp add: holds_gate_def [abs_def])
  moreover have "\<not> list_ex (\<lambda>f. f \<noteq> []) fs \<longleftrightarrow> list_all (\<lambda>f. f = []) fs" for fs :: "string list"
    by (induction fs) auto
  ultimately show ?thesis
    using assms unfolding door_gate_def door_open_def combines_rules_def Let_def
    by (auto simp: door_rule)
qed

lemma moon_rule_doable:
  assumes "combines_rules add_rule"
  shows "moon_rule add_rule (hook_rules h) gates roll m st = Inr True \<longleftrightarrow> moon_doable h gates roll st m"
proof -
  have "make_scenario_gate_rule env None st = Inr True" for env :: "'a rule_env" by (simp add: make_scenario_gate_rule_def)
  moreover have "evaluate_interior_requires env [] st = Inr True" for env :: "'a rule_env" by (simp add: evaluate_interior_requires_def)
  ultimately show ?thesis
    using assms unfolding moon_rule_def moon_doable_def combines_rules_def Let_def
    by (auto simp: always_def split: option.split)
qed

lemma interior_reached:
  assumes "shuffled_world add_rule h gates region_table table roll finished" "combines_rules add_rule" "i \<in> set (entrance_pool roll)"
  shows "region_reached finished st (interior_name i) \<longleftrightarrow>
    (\<exists>door. (door, i) \<in> set (roll_map roll) \<and> region_reached finished st (subarea_kingdom roll door) \<and>
       exit_rule (world_env h) (region_areas (region_map region_table)) (subarea_kingdom roll door) st = Inr True \<and> door_open h gates roll st door i)"
proof -
  have menu: "interior_name i \<noteq> ''Menu''" using assms(1,3) by (auto simp: shuffled_world_def names_apart_def list_all_iff)
  have "region_reached finished st (interior_name i) \<longleftrightarrow>
      (\<exists>n rule. (\<exists>r\<in>set finished. \<exists>e\<in>set (rg_exits r). rg_name r = n \<and> en_target e = interior_name i \<and> en_rule e = rule) \<and>
         region_reached finished st n \<and> rule st = Inr True)" (is "?L \<longleftrightarrow> ?R")
  proof
    assume ?L
    then show ?R
    proof cases
      case (exit r e)
      then show ?thesis by blast
    qed (use menu in simp)
  next
    show "?R \<Longrightarrow> ?L" by (auto intro: region_reached.exit)
  qed
  also have "\<dots> \<longleftrightarrow> (\<exists>d. (d, i) \<in> set (roll_map roll) \<and> region_reached finished st (subarea_kingdom roll d) \<and>
       door_gate add_rule h gates roll d i (exit_rule (world_env h) (region_areas (region_map region_table)) (subarea_kingdom roll d)) st = Inr True)"
    unfolding interior_entrances [OF assms(1,3)] by (simp only: ex_simps [symmetric]) blast
  also have "\<dots> \<longleftrightarrow> (\<exists>door. (door, i) \<in> set (roll_map roll) \<and> region_reached finished st (subarea_kingdom roll door) \<and>
       exit_rule (world_env h) (region_areas (region_map region_table)) (subarea_kingdom roll door) st = Inr True \<and> door_open h gates roll st door i)"
    unfolding door_gate_open [OF assms(2)] by blast
  finally show ?thesis .
qed

section \<open>Properties\<close>

text \<open>C9 Under the entrance shuffle a moon is reached exactly through the door that leads to it: in the graph
  that generation finishes, for any roll, options, goal and collection state, a moon of a pooled subarea
  is reachable if and only if some door of the roll leads to its subarea, the kingdom of that door is
  reached and can be left, the door is open (its gate strings and scenario gates hold) and the moon itself
  can be done (its moves and its scenario gate). No other entrance, and no rule of the kingdom the moon
  came from, gives or takes anything.\<close>

theorem shuffled_moon_reached:
  assumes "before_create_regions opt subareas exclusions stages requirements table r = (Some roll, r')" "dict_ok subareas"
    "shuffled_world add_rule h gates region_table table roll finished" "combines_rules add_rule"
    "dict_get (loc_to_subarea roll) moon = Some interior" "moon \<in> set (location_names finished)"
  shows "location_reached finished st moon \<longleftrightarrow>
    (\<exists>door. (door, interior) \<in> set (roll_map roll) \<and> region_reached finished st (subarea_kingdom roll door) \<and>
       exit_rule (world_env h) (region_areas (region_map region_table)) (subarea_kingdom roll door) st = Inr True \<and>
       door_open h gates roll st door interior \<and> moon_doable h gates roll st moon)"
proof -
  have pool: "interior \<in> set (entrance_pool roll)" using loc_to_subareaD [OF assms(5)] by blast
  note stands = interior_moons [OF assms(3,5) roll_shuffles [OF assms(1,2,5)]]
  obtain rg l where "rg \<in> set finished" "l \<in> set (rg_locations rg)" "lo_name l = moon"
    using assms(6) by (auto simp: location_names_def)
  with stands have "location_reached finished st moon \<longleftrightarrow> region_reached finished st (interior_name interior) \<and>
      moon_rule add_rule (hook_rules h) gates roll moon st = Inr True"
    unfolding location_reached_def by metis
  then show ?thesis unfolding interior_reached [OF assms(3,4) pool] moon_rule_doable [OF assms(4)] by blast
qed

text \<open>A small world: two kingdoms with a subarea each, whose doors the roll exchanges.\<close>

definition sample_rows :: "(string, region_row) dict" where
  "sample_rows =
     [(''Cascade Kingdom'', \<lparr>rr_requires = None, rr_connects_to = Some [''Sand Kingdom''], rr_starting = True\<rparr>),
      (''Sand Kingdom'', \<lparr>rr_requires = Some (ReqString ''|Frog|''), rr_connects_to = None, rr_starting = False\<rparr>)]"

definition sample_location :: "string \<Rightarrow> string \<Rightarrow> bool \<Rightarrow> location_data" where
  "sample_location n r v =
     \<lparr>ld_name = n, ld_region = r, ld_requires = None, ld_category = [], ld_filler_only = False, ld_junk_only = False,
      ld_multi_moon = False, ld_moon_postwin = False, ld_victory = v, ld_progression = False\<rparr>"

definition sample_locations :: "location_data list" where
  "sample_locations =
     [sample_location ''Sand: Cloud Moon'' ''Sand Kingdom'' False, sample_location ''Cascade: Ice Moon'' ''Cascade Kingdom'' False,
      sample_location ''Arrive in the Mushroom Kingdom'' ''Sand Kingdom'' True]"

definition sample_subareas :: "(string, subarea) dict" where
  "sample_subareas =
     [(''A Sea of Clouds'', \<lparr>sa_kingdom = ''Sand Kingdom'', sa_location_names = [''Sand: Cloud Moon'']\<rparr>),
      (''Ice Cave'', \<lparr>sa_kingdom = ''Cascade Kingdom'', sa_location_names = [''Cascade: Ice Moon'']\<rparr>)]"

definition sample_stages :: "(string, stage_rec) dict" where
  "sample_stages = map (\<lambda>s. (s, \<lparr>sr_stage = Some s, sr_entry_id = Some ''in'', sr_exit_dest = None, sr_exit_id = None\<rparr>)) (dict_keys sample_subareas)"

definition sample_rng :: rng where "sample_rng = \<lparr>rng_position = 0, rng_draws = (\<lambda>_. 1)\<rparr>"

definition sample_roll :: entrance_roll where
  "sample_roll = the (fst (before_create_regions (\<lambda>_. 1) sample_subareas [] sample_stages None sample_locations sample_rng))"

definition sample_hooks :: "string list hook_env" where
  "sample_hooks = bag_hooks\<lparr>he_option := (\<lambda>n. if n = ''entrance_shuffle'' then 1 else 0)\<rparr>"

definition and_rule :: "string list combine" where
  "and_rule new old st = (case new st of Inl e \<Rightarrow> Inl e | Inr b \<Rightarrow> if b then old st else Inr False)"

definition sample_regions :: "exn + string list region list" where
  "sample_regions = world_create_regions (he_option sample_hooks) [] sample_rows sample_locations (Some sample_roll)"

definition sample_finished :: "exn + string list region list \<times> accessibility option" where
  "sample_finished = world_set_rules and_rule sample_hooks None sample_rows sample_locations (Some sample_roll) (projr sample_regions, None)"

definition sample_world :: "string list region list" where "sample_world = fst (projr sample_finished)"

definition exit_table :: "'st region list \<Rightarrow> 'st \<Rightarrow> (string \<times> (string \<times> (exn + bool)) list) list" where
  "exit_table regions st = map (\<lambda>r. (rg_name r, map (\<lambda>e. (en_target e, en_rule e st)) (rg_exits r))) regions"

lemma exit_table_step:
  assumes "region_reached regions st n" "(n, xs) \<in> set (exit_table regions st)" "(k, Inr True) \<in> set xs"
  shows "region_reached regions st k"
proof -
  obtain r where r: "r \<in> set regions" "n = rg_name r" "xs = map (\<lambda>e. (en_target e, en_rule e st)) (rg_exits r)"
    using assms(2) by (auto simp: exit_table_def)
  then obtain e where "e \<in> set (rg_exits r)" "en_target e = k" "en_rule e st = Inr True" using assms(3) by auto
  then show ?thesis using r assms(1) by (auto intro: region_reached.exit)
qed

lemma sample_shuffled: "shuffled_world and_rule sample_hooks None sample_rows sample_locations sample_roll sample_world"
proof -
  have ok: "\<not> isl sample_regions" "\<not> isl sample_finished" by code_simp+
  have "sample_regions = Inr (projr sample_regions)" using ok(1) by simp
  then have c: "world_create_regions (he_option sample_hooks) [] sample_rows sample_locations (Some sample_roll) = Inr (projr sample_regions)"
    by (simp add: sample_regions_def)
  have "sample_finished = Inr (sample_world, snd (projr sample_finished))" using ok(2) by (simp add: sample_world_def)
  then have s: "world_set_rules and_rule sample_hooks None sample_rows sample_locations (Some sample_roll) (projr sample_regions, None) =
      Inr (sample_world, snd (projr sample_finished))"
    by (simp add: sample_finished_def)
  have "0 < he_option sample_hooks ''entrance_shuffle''" "he_option sample_hooks ''no_logic'' \<le> 0"
    "names_apart (region_map sample_rows) sample_roll" by code_simp+
  then show ?thesis unfolding shuffled_world_def using c s by blast
qed

lemma sample_cascade: "region_reached sample_world [''Mini Rocket''] ''Cascade Kingdom''"
proof (rule exit_table_step, rule exit_table_step, rule region_reached.menu)
  show "(''Menu'', [(root_region, Inr True)]) \<in> set (exit_table sample_world [''Mini Rocket''])"
    "(root_region, [(''Cascade Kingdom'', Inr True)]) \<in> set (exit_table sample_world [''Mini Rocket''])" by code_simp+
qed simp_all

lemma sample_roll_drawn:
  "before_create_regions (\<lambda>_. 1) sample_subareas [] sample_stages None sample_locations sample_rng =
   (Some sample_roll, snd (before_create_regions (\<lambda>_. 1) sample_subareas [] sample_stages None sample_locations sample_rng))"
  by (simp add: sample_roll_def before_create_regions_def Let_def split: prod.split)

theorem shuffled_moon_reached_witness:
  "location_reached sample_world [''Mini Rocket''] ''Sand: Cloud Moon'' \<and> \<not> location_reached sample_world [] ''Sand: Cloud Moon''"
proof -
  have ok: "dict_ok sample_subareas" "dict_get (loc_to_subarea sample_roll) ''Sand: Cloud Moon'' = Some ''A Sea of Clouds''"
    "''Sand: Cloud Moon'' \<in> set (location_names sample_world)" by code_simp+
  have rule: "combines_rules and_rule" by (simp add: combines_rules_def and_rule_def split: sum.split)
  note reached = shuffled_moon_reached [OF sample_roll_drawn ok(1) sample_shuffled rule ok(2,3)]
  have doors: "roll_map sample_roll = [(''A Sea of Clouds'', ''Ice Cave''), (''Ice Cave'', ''A Sea of Clouds'')]"
    "subarea_kingdom sample_roll ''Ice Cave'' = ''Cascade Kingdom''" by code_simp+
  have opened: "door_open sample_hooks None sample_roll [''Mini Rocket''] ''Ice Cave'' ''A Sea of Clouds''"
    "\<not> door_open sample_hooks None sample_roll [] ''Ice Cave'' ''A Sea of Clouds''"
    "moon_doable sample_hooks None sample_roll [''Mini Rocket''] ''Sand: Cloud Moon''"
    "exit_rule (world_env sample_hooks) (region_areas (region_map sample_rows)) ''Cascade Kingdom'' [''Mini Rocket''] = Inr True" by code_simp+
  show ?thesis unfolding reached doors(1) using opened doors(2) sample_cascade by auto
qed

end
