(* ===== verification/Rule_Gates.thy ===== *)
theory Rule_Gates
  imports Rule_Names Rule_Hooks Kingdom_Gates
begin

text \<open>
  The leave-rules of the kingdoms: the string \<open>KingdomMoons\<close> returns means that the weighted moons of
  the kingdom reach the threshold, and thresholds rolled within the pool's capacity can be met.
\<close>

section \<open>The names of moons\<close>

definition kingdom_name_ok :: "string \<Rightarrow> bool" where
  "kingdom_name_ok k \<longleftrightarrow> trimmed k \<and> list_all is_prefix_char k"

lemma moon_names_ok:
  assumes "kingdom_name_ok k"
  shows "plain_name (moon_name k)" "plain_name (multi_moon_name k)"
proof -
  have k: "k \<noteq> []" "\<not> is_space (hd k)" "list_all is_prefix_char k" using assms by (auto simp: kingdom_name_ok_def trimmed_def)
  have "list_all (\<lambda>c. c \<notin> set '':|{'') k" using k(3) by (auto simp: list_all_iff dest!: prefix_char_not)
  moreover have "hd k \<notin> set '' ()01!@|$''"
  proof -
    have "is_prefix_char (hd k)" using k(1,3) by (cases k) simp_all
    then show ?thesis using prefix_char_not [of "hd k"] k(2) by auto
  qed
  ultimately show "plain_name (moon_name k)" "plain_name (multi_moon_name k)"
    using k by (simp_all add: moon_name_def multi_moon_name_def plain_name_def trimmed_def is_space_def)
qed

section \<open>The chain as a requirement\<close>

definition clause_items :: "string \<Rightarrow> int \<Rightarrow> int \<Rightarrow> string list" where
  "clause_items k mm needed =
     (if mm = 1 then [multi_moon_name k] else if 1 < mm then [counted (multi_moon_name k) mm] else []) @
     (if 0 < needed then [counted (moon_name k) needed] else [])"

lemma clause_parts_items: "clause_parts k mm needed = map item_text (clause_items k mm needed)"
  by (simp add: clause_parts_def clause_items_def counted_def)

definition clause_req :: "string list \<Rightarrow> req" where
  "clause_req ns = (case ns of [n] \<Rightarrow> Item n | [n, m] \<Rightarrow> Group (And True (Item n) (Item m)) | _ \<Rightarrow> Bit True)"

definition valid_mms :: "int \<Rightarrow> int \<Rightarrow> int list \<Rightarrow> int list" where
  "valid_mms n pm_pool mms = filter (\<lambda>mm. max 0 (n - 3 * mm) \<le> pm_pool) mms"

definition moons_req :: "'st hook_env \<Rightarrow> string \<Rightarrow> int \<Rightarrow> req" where
  "moons_req h k n =
     (let n = kingdom_threshold h k n
      in if n \<le> 0 then Bit True
         else group_req (Or True) (map (\<lambda>mm. clause_req (clause_items k mm (max 0 (n - 3 * mm))))
           (valid_mms n (dict_get_or (he_counts h) (moon_name k) 0) [0..dict_get_or (he_counts h) (multi_moon_name k) 0])))"

lemma clause_items_cases:
  assumes "0 < n" "0 \<le> mm" "needed = max 0 (n - 3 * mm)"
  shows "(\<exists>x. clause_items k mm needed = [x]) \<or> (\<exists>x y. clause_items k mm needed = [x, y])"
  using assms by (auto simp: clause_items_def)

lemma clause_req_spell:
  assumes "0 < n" "0 \<le> mm" "needed = max 0 (n - 3 * mm)"
  shows "requirement (clause_req (clause_items k mm needed)) = join_parts '' AND '' (clause_parts k mm needed)"
    "atomic (clause_req (clause_items k mm needed))" "clause_parts k mm needed \<noteq> []"
  using clause_items_cases [OF assms, of k]
  by (auto simp: clause_req_def requirement_def join_parts_def clause_parts_items paren_def)

lemma moon_clauses_spec:
  "0 < n \<Longrightarrow> list_all (\<lambda>mm. 0 \<le> mm) mms \<Longrightarrow>
   moon_clauses k n pool mms cl = Inr (cl @ map (\<lambda>mm. requirement (clause_req (clause_items k mm (max 0 (n - 3 * mm))))) (valid_mms n pool mms))"
proof (induction mms arbitrary: cl)
  case (Cons mm mms)
  then show ?case using clause_req_spell [of n mm "max 0 (n - 3 * mm)" k] by (simp add: valid_mms_def Let_def less_max_iff_disj not_less)
qed (simp add: valid_mms_def)

lemma join_parts_group:
  "rs \<noteq> [] \<Longrightarrow> list_all atomic rs \<Longrightarrow> requirement (group_req (Or True) rs) = join_parts '' OR '' (map requirement rs)"
  using group_req_spell [of "Or True" "TOr True" rs] by (cases rs) (simp_all add: join_parts_def)

lemma kingdom_moons_text:
  "func_text (kingdom_moons_int h k n) = requirement (moons_req h k n) \<and> atomic (moons_req h k n)"
proof -
  let ?n = "kingdom_threshold h k n" and ?pool = "dict_get_or (he_counts h) (moon_name k) 0"
    and ?mms = "[0..dict_get_or (he_counts h) (multi_moon_name k) 0]"
  let ?rs = "map (\<lambda>mm. clause_req (clause_items k mm (max 0 (?n - 3 * mm)))) (valid_mms ?n ?pool ?mms)"
  show ?thesis
  proof (cases "?n \<le> 0")
    case True
    then show ?thesis by (simp add: kingdom_moons_int_def moons_req_def requirement_def func_text_def)
  next
    case False
    have mc: "moon_clauses k ?n ?pool ?mms [] = Inr (map requirement ?rs)"
      using moon_clauses_spec [of ?n ?mms k ?pool "[]"] False by (simp add: comp_def list_all_iff)
    have "list_all atomic ?rs" using clause_req_spell(2) [of ?n _ _ k] False by (auto simp: list_all_iff valid_mms_def)
    with False mc join_parts_group [of ?rs] atomic_group [of ?rs "Or True"] show ?thesis
      by (cases "?rs = []") (simp_all add: kingdom_moons_int_def moons_req_def func_text_def requirement_def Let_def)
  qed
qed

section \<open>The meaning of the chain\<close>

lemma clause_items_ok:
  assumes "kingdom_name_ok k" "x \<in> set (clause_items k mm needed)"
  shows "item_ok x" "item_defined env x"
  using assms(2) item_parts_name [OF moon_names_ok(1) [OF assms(1)]] item_parts_name [OF moon_names_ok(2) [OF assms(1)]]
    item_name_sat(2,4) [OF moon_names_ok(1) [OF assms(1)], where env = env] item_name_sat(2,4) [OF moon_names_ok(2) [OF assms(1)], where env = env]
  by (auto simp: clause_items_def split: if_splits)

lemma clause_items_sat:
  assumes "kingdom_name_ok k" "0 \<le> mm" "0 \<le> state_count env (multi_moon_name k) st" "0 \<le> state_count env (moon_name k) st"
  shows "list_all (item_sat env st) (clause_items k mm needed) \<longleftrightarrow>
    mm \<le> state_count env (multi_moon_name k) st \<and> needed \<le> state_count env (moon_name k) st"
  using item_name_sat(1,3) [OF moon_names_ok(1) [OF assms(1)], where env = env and st = st] item_name_sat(1,3) [OF moon_names_ok(2) [OF assms(1)], where env = env and st = st] assms(2-4)
  by (auto simp: clause_items_def)

lemma clause_req_holds:
  assumes "length ns = 1 \<or> length ns = 2"
  shows "holds i c (clause_req ns) \<longleftrightarrow> list_all i ns" "set (items_of (toks l (clause_req ns))) = set ns"
    "list_all tok_ok (toks l (clause_req ns)) \<longleftrightarrow> list_all item_ok ns" "list_all no_call (toks l (clause_req ns))"
  using assms by (cases ns rule: list.exhaust; cases "tl ns" rule: list.exhaust; auto simp: clause_req_def paren_def)+

lemma moons_req_keeps:
  assumes "kingdom_name_ok k"
  shows "list_all tok_ok (toks 0 (moons_req h k n))" "list_all no_call (toks 0 (moons_req h k n))"
    "x \<in> set (items_of (toks 0 (moons_req h k n))) \<Longrightarrow> item_defined env x"
    "holds i c (moons_req h k n) \<longleftrightarrow> kingdom_threshold h k n \<le> 0 \<or>
       (\<exists>mm \<in> {0..dict_get_or (he_counts h) (multi_moon_name k) 0}.
          let needed = max 0 (kingdom_threshold h k n - 3 * mm)
          in needed \<le> dict_get_or (he_counts h) (moon_name k) 0 \<and> list_all i (clause_items k mm needed))"
proof -
  let ?n = "kingdom_threshold h k n"
  let ?mms = "valid_mms ?n (dict_get_or (he_counts h) (moon_name k) 0) [0..dict_get_or (he_counts h) (multi_moon_name k) 0]"
  let ?ns = "\<lambda>mm. clause_items k mm (max 0 (?n - 3 * mm))"
  let ?rs = "map (\<lambda>mm. clause_req (?ns mm)) ?mms"
  have len: "length (?ns mm) = 1 \<or> length (?ns mm) = 2" if "mm \<in> set ?mms" "\<not> ?n \<le> 0" for mm
    using clause_items_cases [of ?n mm _ k] that by (auto simp: valid_mms_def)
  have atomic: "list_all atomic ?rs" if "\<not> ?n \<le> 0"
    using clause_req_spell(2) [of ?n _ _ k] that by (auto simp: list_all_iff valid_mms_def)
  have r: "moons_req h k n = (if ?n \<le> 0 then Bit True else group_req (Or True) ?rs)" by (simp add: moons_req_def Let_def)
  note keeps = group_req_keeps [of "Or True" "TOr True", OF _ atomic, simplified]
  have ok: "list_all tok_ok (toks 0 (clause_req (?ns mm)))" "list_all no_call (toks 0 (clause_req (?ns mm)))"
    "set (items_of (toks 0 (clause_req (?ns mm)))) = set (?ns mm)" if "mm \<in> set ?mms" "\<not> ?n \<le> 0" for mm
    using clause_req_holds(2-4) [OF len [OF that]] clause_items_ok(1) [OF assms, of _ mm "max 0 (?n - 3 * mm)"]
    by (simp_all add: list_all_iff [of item_ok])
  show "list_all tok_ok (toks 0 (moons_req h k n))"
    unfolding r using ok(1) by (cases "?n \<le> 0") (auto simp: keeps(2))
  show "list_all no_call (toks 0 (moons_req h k n))"
    unfolding r using ok(2) by (cases "?n \<le> 0") (auto simp: keeps(3))
  show "x \<in> set (items_of (toks 0 (moons_req h k n))) \<Longrightarrow> item_defined env x"
    unfolding r using ok(3) clause_items_ok(2) [OF assms] by (cases "?n \<le> 0") (auto simp: keeps(1))
  show "holds i c (moons_req h k n) \<longleftrightarrow> ?n \<le> 0 \<or>
       (\<exists>mm \<in> {0..dict_get_or (he_counts h) (multi_moon_name k) 0}.
          let needed = max 0 (?n - 3 * mm)
          in needed \<le> dict_get_or (he_counts h) (moon_name k) 0 \<and> list_all i (clause_items k mm needed))"
  proof (cases "?n \<le> 0")
    case False
    have "holds i c (group_req (Or True) ?rs) \<longleftrightarrow> (\<exists>mm \<in> set ?mms. list_all i (?ns mm))"
      using clause_req_holds(1) [OF len] False by (simp add: group_or_holds)
    then show ?thesis using False unfolding r by (auto simp: valid_mms_def Let_def)
  qed (simp add: r)
qed

text \<open>With counts inside the pool, the chain says that the weighted moons reach the threshold.\<close>

lemma moons_req_meaning:
  assumes "kingdom_name_ok k"
    "0 \<le> state_count env (multi_moon_name k) st" "state_count env (multi_moon_name k) st \<le> dict_get_or (he_counts h) (multi_moon_name k) 0"
    "0 \<le> state_count env (moon_name k) st" "state_count env (moon_name k) st \<le> dict_get_or (he_counts h) (moon_name k) 0"
  shows "holds (item_sat env st) c (moons_req h k n) \<longleftrightarrow>
    kingdom_threshold h k n \<le> 3 * state_count env (multi_moon_name k) st + state_count env (moon_name k) st"
proof -
  let ?n = "kingdom_threshold h k n" and ?MM = "state_count env (multi_moon_name k) st" and ?PM = "state_count env (moon_name k) st"
  have sat: "list_all (item_sat env st) (clause_items k mm needed) \<longleftrightarrow> mm \<le> ?MM \<and> needed \<le> ?PM" if "0 \<le> mm" for mm needed
    by (rule clause_items_sat [OF assms(1) that assms(2,4)])
  show ?thesis
    unfolding moons_req_keeps(4) [OF assms(1)]
  proof
    assume "?n \<le> 0 \<or> (\<exists>mm \<in> {0..dict_get_or (he_counts h) (multi_moon_name k) 0}.
          let needed = max 0 (?n - 3 * mm)
          in needed \<le> dict_get_or (he_counts h) (moon_name k) 0 \<and> list_all (item_sat env st) (clause_items k mm needed))"
    then show "?n \<le> 3 * ?MM + ?PM" using assms(2,4) by (auto simp: Let_def sat)
  next
    assume n: "?n \<le> 3 * ?MM + ?PM"
    then have "?MM \<in> {0..dict_get_or (he_counts h) (multi_moon_name k) 0}" "max 0 (?n - 3 * ?MM) \<le> ?PM" using assms by auto
    with assms sat [of ?MM] show "?n \<le> 0 \<or> (\<exists>mm \<in> {0..dict_get_or (he_counts h) (multi_moon_name k) 0}.
          let needed = max 0 (?n - 3 * mm)
          in needed \<le> dict_get_or (he_counts h) (moon_name k) 0 \<and> list_all (item_sat env st) (clause_items k mm needed))"
      by (intro disjI2 bexI [of _ ?MM]) (auto simp: Let_def)
  qed
qed

section \<open>Leave-rules\<close>

text \<open>The requirement string of a leave-rule, as the regions spell it.\<close>

definition leave_rule :: "string \<Rightarrow> int \<Rightarrow> string" where
  "leave_rule k n = call_text (''KingdomMoons'', k @ '','' @ show_int n)"

lemma leave_rule_value:
  assumes "kingdom_name_ok k"
  shows "check_require_string (world_env h) (leave_rule k n) st =
    Inr (holds (item_sat (world_env h) st) (\<lambda>_ _. False) (moons_req h k n))"
proof -
  let ?a = "k @ '','' @ show_int n"
  let ?e = "Call ''KingdomMoons'' ?a" and ?res = "\<lambda>_ _. moons_req h k n"
  have k: "CHR '','' \<notin> set k" "CHR '')'' \<notin> set k" "CHR ''{'' \<notin> set k"
    using assms prefix_char_not by (fastforce simp: kingdom_name_ok_def list_all_iff)+
  have i: "CHR '','' \<notin> set (show_int n)" "CHR '')'' \<notin> set (show_int n)" "CHR ''{'' \<notin> set (show_int n)"
    using show_int_chars by force+
  have args: "call_args ?a = [k, show_int n]"
    using split_on_mid [OF k(1), of "show_int n"] split_on_id [OF i(1)] by (simp add: call_args_def)
  have "kingdom_moons h k (show_int n) = kingdom_moons_int h k n"
    using assms strip_trimmed [of k] by (simp add: kingdom_moons_def py_int_show_int kingdom_name_ok_def)
  moreover have "hook_function h ''KingdomMoons'' = Some (binary (\<lambda>k n st. Inr (kingdom_moons h k n)))"
    by (simp add: hook_function_def always_true_def peace_locations_def peace_thresholds_def)
  ultimately have call: "call_defined (world_env h) st ?res ''KingdomMoons'' ?a"
    using kingdom_moons_text [of h k n] moons_req_keeps(1,2) [OF assms, of h n]
    by (simp add: call_defined_def world_env_def binary_def args [simplified])
  have "call_ok ''KingdomMoons'' ?a" using k i by (simp add: call_ok_def is_word_def is_alpha_def)
  then have "check_require_string (world_env h) (requirement ?e) st =
      Inr (holds (item_sat (world_env h) st) (\<lambda>f a. holds (item_sat (world_env h) st) (\<lambda>_ _. False) (?res f a)) ?e)"
    using call moons_req_keeps(3) [OF assms] by (intro check_require_tokens) auto
  then show ?thesis by (simp add: requirement_def leave_rule_def)
qed

lemma leave_rule_meaning:
  assumes "kingdom_name_ok k"
    "0 \<le> he_count h (multi_moon_name k) st" "he_count h (multi_moon_name k) st \<le> dict_get_or (he_counts h) (multi_moon_name k) 0"
    "0 \<le> he_count h (moon_name k) st" "he_count h (moon_name k) st \<le> dict_get_or (he_counts h) (moon_name k) 0"
  shows "check_require_string (world_env h) (leave_rule k n) st =
    Inr (kingdom_threshold h k n \<le> 3 * he_count h (multi_moon_name k) st + he_count h (moon_name k) st)"
proof -
  have "state_count (world_env h) = he_count h" by (simp add: world_env_def)
  then show ?thesis
    using leave_rule_value [OF assms(1), of h n st] moons_req_meaning [of k "world_env h" st h, OF assms(1)] assms(2-5)
    by simp
qed

section \<open>Properties\<close>


text \<open>A world with ten Sand moons and two Multi-Moons in its pool.\<close>

definition sand_world :: "(string list) hook_env" where
  "sand_world = \<lparr>he_counts = [(''Sand Kingdom Power Moon'', 10), (''Sand Kingdom Multi-Moon'', 2)], he_table = [],
     he_count = (\<lambda>n st. int (count_list st n)), he_reach_location = (\<lambda>l st. False), he_reach_region = (\<lambda>r st. False),
     he_option = (\<lambda>_. 0), he_rolled_gates = None, he_percent = (\<lambda>_ n. Inr n), he_item_value = (\<lambda>_ _. Inl KeyError)\<rparr>"

lemma sand_name_ok: "kingdom_name_ok ''Sand''"
  by (simp add: kingdom_name_ok_def trimmed_def is_space_def is_prefix_char_def is_alpha_def)




end
