(* ===== verification/Item_Progression.thy ===== *)
theory Item_Progression
  imports Item_Pool Rule_Gates
begin

text \<open>
  What the pool hooks keep: the caps on the moons of a kingdom, and that the moons left as progression
  open every leave-rule, with the vanilla thresholds and with the rolled ones.
\<close>

section \<open>Names\<close>

lemma moon_texts: "power_moon k = moon_name k" "multi_moon k = multi_moon_name k"
  by (simp_all add: power_moon_def multi_moon_def moon_name_def multi_moon_name_def)

lemma moon_names_differ [simp]:
  "power_moon k = power_moon j \<longleftrightarrow> k = j" "multi_moon k = multi_moon j \<longleftrightarrow> k = j"
  "power_moon k \<noteq> multi_moon j" "multi_moon j \<noteq> power_moon k"
proof -
  have "take 5 (rev (power_moon k)) = ''nooM ''" "take 5 (rev (multi_moon j)) = ''nooM-''"
    by (simp_all add: power_moon_def multi_moon_def)
  then show "power_moon k \<noteq> multi_moon j" "multi_moon j \<noteq> power_moon k" by auto
qed (simp_all add: power_moon_def multi_moon_def)

section \<open>Counting\<close>

lemma count_name_simps [simp]:
  "count_name n [] = 0" "count_name n (it # pool) = (if item_name it = n then 1 else 0) + count_name n pool"
  by (simp_all add: count_name_def)

lemma count_progression_simps [simp]:
  "count_progression n [] = 0" "count_progression n (it # pool) = (if progression_of n it then 1 else 0) + count_progression n pool"
  by (simp_all add: count_progression_def)

lemma count_drop_first:
  "count_name m (drop_first n k pool) = (if m = n then count_name n pool - k else count_name m pool)"
  by (induction n k pool rule: drop_first.induct) auto

lemma count_demote:
  "count_progression m (demote_from n k pool) = (if m = n then min k (count_progression n pool) else count_progression m pool)"
proof (induction n k pool rule: demote_from.induct)
  case (2 n k it pool)
  then show ?case
    by (cases k) (auto simp: progression_of_def class_filler_def class_progression_def)
qed simp

lemma names_demote: "map item_name (demote_from n k pool) = map item_name pool"
  by (induction n k pool rule: demote_from.induct) (auto split: nat.split)

lemma names_demote_kingdom: "map item_name (demote_kingdom prefer kt pool) = map item_name pool"
  by (auto simp: demote_kingdom_def names_demote Let_def split: prod.split)

lemma names_demote_surplus: "map item_name (demote_surplus_kingdom_moons gates prefer pool) = map item_name pool"
proof -
  have "map item_name (fold (demote_kingdom prefer) ks pool) = map item_name pool" for ks pool
    by (induction ks arbitrary: pool) (simp_all add: names_demote_kingdom)
  then show ?thesis by (simp add: demote_surplus_kingdom_moons_def)
qed

lemma names_mobility: "map item_name (demote_mobility_only_abilities pool) = map item_name pool"
proof -
  have "map item_name (demote_mobility_loop kept pool) = map item_name pool" for kept
    by (induction kept pool rule: demote_mobility_loop.induct) (auto simp: Let_def split: option.split)
  then show ?thesis by (simp add: demote_mobility_only_abilities_def)
qed

lemma count_name_map: "count_name n pool = count_list (map item_name pool) n"
  by (induction pool) auto

lemma mobility_keeps:
  "n \<notin> set demote_all \<Longrightarrow> dict_get keep_first n = None \<Longrightarrow>
   count_progression n (demote_mobility_only_abilities pool) = count_progression n pool"
proof -
  have other: "\<not> progression_of n (it\<lparr>item_class := class_useful\<rparr>)" for it
    by (simp add: progression_of_def class_useful_def class_progression_def)
  assume n: "n \<notin> set demote_all" "dict_get keep_first n = None"
  have "count_progression n (demote_mobility_loop kept pool) = count_progression n pool" for kept
  proof (induction kept pool rule: demote_mobility_loop.induct)
    case (2 kept it pool)
    then show ?case using n other [of it]
      by (auto simp: Let_def progression_of_def split: option.split)
  qed simp
  then show ?thesis by (simp add: demote_mobility_only_abilities_def)
qed

section \<open>Demotion covers the gate\<close>

definition weight :: "string \<Rightarrow> pool_item list \<Rightarrow> int" where
  "weight k pool = 3 * int (count_progression (multi_moon k) pool) + int (count_progression (power_moon k) pool)"

lemma moons_kept_bounds:
  assumes "0 < threshold" "moons_kept prefer threshold mms pms = (m, p)"
  shows "0 \<le> m" "0 \<le> p" "m \<le> int mms" "p \<le> int pms"
  using assms by (auto simp: moons_kept_def Let_def split: if_splits)

lemma moons_kept_cover:
  assumes "0 < threshold" "moons_kept prefer threshold mms pms = (m, p)" "threshold \<le> 3 * int mms + int pms" "prefer \<or> 2 \<le> pms"
  shows "threshold \<le> 3 * m + p"
proof (cases "prefer")
  case True
  then show ?thesis using assms by (auto simp: moons_kept_def Let_def min_def split: if_splits)
next
  case False
  then have m: "m = min (int mms) (threshold div 3)" and p: "p = min (int pms) (max 0 (threshold - 3 * m))"
    using assms(2) by (auto simp: moons_kept_def Let_def)
  show ?thesis
  proof (cases "int mms \<le> threshold div 3")
    case True
    then show ?thesis using m p assms(3) by simp
  next
    case False
    then have "m = threshold div 3" using m by simp
    moreover have "threshold - 3 * (threshold div 3) = threshold mod 3" by presburger
    moreover have "0 \<le> threshold mod 3" "threshold mod 3 \<le> int pms" using assms(4) \<open>\<not> prefer\<close> by simp_all
    ultimately have "p = threshold mod 3" using p by simp
    with \<open>m = threshold div 3\<close> show ?thesis by simp
  qed
qed

lemma demote_kingdom_weight:
  assumes "0 < threshold" "threshold \<le> weight k pool" "prefer \<or> 2 \<le> count_progression (power_moon k) pool" "k \<noteq> ''Ruined''"
  shows "threshold \<le> weight k (demote_kingdom prefer (k, threshold) pool)"
proof -
  let ?mms = "count_progression (multi_moon k) pool" and ?pms = "count_progression (power_moon k) pool"
  obtain m p where mp: "moons_kept prefer threshold ?mms ?pms = (m, p)" by fastforce
  note b = moons_kept_bounds [OF assms(1) mp] 
  have "threshold \<le> 3 * m + p" using moons_kept_cover [OF assms(1) mp] assms(2,3) by (simp add: weight_def)
  moreover have "weight k (demote_kingdom prefer (k, threshold) pool) = 3 * m + p"
    using b assms(4) by (simp add: demote_kingdom_def mp Let_def weight_def count_demote slice_start_def)
  ultimately show ?thesis by simp
qed

lemma demote_kingdom_other: "j \<noteq> k \<Longrightarrow> count_progression (multi_moon j) (demote_kingdom prefer (k, t) pool) = count_progression (multi_moon j) pool \<and>
    count_progression (power_moon j) (demote_kingdom prefer (k, t) pool) = count_progression (power_moon j) pool"
  by (simp add: demote_kingdom_def Let_def count_demote split: prod.split)

lemma demote_surplus_weight:
  assumes "dict_ok gates" "(k, t) \<in> set gates" "0 < t" "t \<le> weight k pool"
    "prefer \<or> 2 \<le> count_progression (power_moon k) pool" "k \<noteq> ''Ruined''"
  shows "t \<le> weight k (fold (demote_kingdom prefer) gates pool)"
  using assms
proof (induction gates arbitrary: pool)
  case (Cons g gates)
  obtain j s where g: "g = (j, s)" by fastforce
  let ?pool = "demote_kingdom prefer g pool"
  have later: "weight k (fold (demote_kingdom prefer) gs p) = weight k p" if "k \<notin> set (map fst gs)" for gs p
    using that by (induction gs arbitrary: p) (auto simp: weight_def demote_kingdom_other)
  show ?case
  proof (cases "j = k")
    case True
    then have "s = t" "k \<notin> set (map fst gates)" using Cons.prems(1,2) g by force+
    then show ?thesis using demote_kingdom_weight [OF Cons.prems(3-6)] later [of gates] True g by simp
  next
    case False
    then show ?thesis
      using Cons g demote_kingdom_other [of k j "prefer" s pool] by (simp add: weight_def)
  qed
qed simp

section \<open>The finished pool\<close>

lemma kingdom_gates_ok: "dict_ok kingdom_moon_gates" "(k, v) \<in> set kingdom_moon_gates \<Longrightarrow> kingdom_name_ok k \<and> 0 < v"
proof -
  have "list_all (\<lambda>(k, v). kingdom_name_ok k \<and> 0 < v) kingdom_moon_gates" by code_simp
  then show "(k, v) \<in> set kingdom_moon_gates \<Longrightarrow> kingdom_name_ok k \<and> 0 < v" by (auto simp: list_all_iff)
  show "dict_ok kingdom_moon_gates" by code_simp
qed

lemma moons_not_mobility:
  assumes "n = power_moon k \<or> n = multi_moon k"
  shows "n \<notin> set demote_all" "dict_get keep_first n = None"
proof -
  have "take 4 (rev n) = ''nooM''" using assms by (auto simp: power_moon_def multi_moon_def)
  moreover have "list_all (\<lambda>m. take 4 (rev m) \<noteq> ''nooM'') (demote_all @ dict_keys keep_first)" by code_simp
  ultimately show "n \<notin> set demote_all" "dict_get keep_first n = None"
    by (auto simp: list_all_iff dict_get_None_iff)
qed

lemma rolled_gate_value:
  assumes "dict_ok base" "(k, v) \<in> set base" "1 \<le> 3 * int (count_list names (multi_moon k)) + int (count_list names (power_moon k))"
    and gates: "gates = fst (roll_kingdom_gates base (pool_gate_capacities names (dict_keys base)) r)"
  shows "dict_ok gates \<and> (\<exists>g. dict_get gates k = Some g \<and> 1 \<le> g \<and> g \<le> 3 * int (count_list names (multi_moon k)) + int (count_list names (power_moon k)))"
proof -
  let ?caps = "pool_gate_capacities names (dict_keys base)"
  let ?cap = "3 * int (count_list names (multi_moon k)) + int (count_list names (power_moon k))"
  have "k \<in> set (dict_keys base)" using assms(2) by force
  then have cap: "dict_get ?caps k = Some ?cap" using capacity_of [of k "dict_keys base" names] by (simp add: multi_moon_def power_moon_def)
  have keys: "dict_keys gates = dict_keys base" and "let hi = gate_hi v (dict_get ?caps k); g = at gates k in 1 \<le> g \<and> (if hi < gate_lo v then g = max 1 hi else gate_lo v \<le> g \<and> g \<le> hi)"
    using roll_bounds [OF assms(1), of ?caps r] assms(2) unfolding gates by (auto simp: Let_def)
  moreover have "gate_hi v (dict_get ?caps k) \<le> ?cap" by (simp add: gate_hi_def cap Let_def)
  ultimately have "1 \<le> at gates k" "at gates k \<le> ?cap" using assms(3) by (auto simp: Let_def split: if_splits)
  moreover have "dict_get gates k \<noteq> None" using keys \<open>k \<in> set (dict_keys base)\<close> by (simp add: dict_get_None_iff flip: set_map)
  ultimately show ?thesis using assms(1) keys by (auto simp: at_def)
qed

lemma after_create_items_eq:
  assumes "after_create_items table opt pool r = ((pool', w), r')"
  shows "pool' = demote_mobility_only_abilities (demote_surplus_kingdom_moons (rolled_kingdom_gates w) (0 < opt ''multi_moon_shuffle'') pool)"
    "rolled_kingdom_gates w = (if 0 < opt ''randomize_kingdom_gates''
       then Some (fst (roll_kingdom_gates kingdom_moon_gates (pool_gate_capacities (map item_name pool) (dict_keys kingdom_moon_gates)) r)) else None)"
  using assms by (auto simp: after_create_items_def Let_def split: prod.splits if_splits)

lemma finished_pool_covers:
  assumes "after_create_items table opt pool r = ((pool', w), r')" "(k, v) \<in> set kingdom_moon_gates" "k \<noteq> ''Ruined''"
    "count_progression (multi_moon k) pool = count_name (multi_moon k) pool" "count_progression (power_moon k) pool = count_name (power_moon k) pool"
    "1 \<le> weight k pool" "\<not> 0 < opt ''randomize_kingdom_gates'' \<Longrightarrow> v \<le> weight k pool"
    "0 < opt ''multi_moon_shuffle'' \<or> 2 \<le> count_progression (power_moon k) pool"
    "he_rolled_gates h = rolled_kingdom_gates w"
  shows "kingdom_threshold h k v \<le> weight k pool'"
proof -
  note eq = after_create_items_eq [OF assms(1)]
  let ?gates = "or_default (rolled_kingdom_gates w) kingdom_moon_gates"
  have names: "weight k pool = 3 * int (count_list (map item_name pool) (multi_moon k)) + int (count_list (map item_name pool) (power_moon k))"
    using assms(4,5) by (simp add: weight_def count_name_map)
  obtain g where g: "dict_ok ?gates" "(k, g) \<in> set ?gates" "0 < g" "g \<le> weight k pool" "kingdom_threshold h k v = g"
  proof (cases "0 < opt ''randomize_kingdom_gates''")
    case True
    from rolled_gate_value [OF kingdom_gates_ok(1) assms(2) _ refl, of "map item_name pool" r] assms(6) obtain g where
      "dict_ok ?gates" "dict_get ?gates k = Some g" "1 \<le> g" "g \<le> weight k pool"
      using True by (auto simp: eq(2) names)
    then show thesis using that [of g] True eq(2) assms(9) map_of_SomeD [of ?gates k g] by (simp add: kingdom_threshold_def dict_get_or_def)
  next
    case False
    then show thesis using that [of v] assms(2,7,9) kingdom_gates_ok eq(2) by (simp add: kingdom_threshold_def)
  qed
  have "g \<le> weight k (demote_surplus_kingdom_moons (rolled_kingdom_gates w) (0 < opt ''multi_moon_shuffle'') pool)"
    unfolding demote_surplus_kingdom_moons_def using g(1-4) assms(3,8) by (intro demote_surplus_weight) auto
  then show ?thesis
    using moons_not_mobility [of _ k] by (simp add: eq(1) weight_def mobility_keeps g(5))
qed

text \<open>The moons left as progression open every leave-rule: after the hooks have rolled the gates and demoted
  the surplus, for each gated kingdom but Ruined whose moons entered the pool as progression, the requirement
  string of its leave-rule is true for a player holding just the progression moons of the finished pool, with
  the vanilla threshold (if the pool can reach it) or the rolled one, whenever the Power Moons are demoted
  last or the pool has two of them.\<close>

theorem progression_opens_gates:
  assumes "after_create_items table opt pool r = ((pool', w), r')" "(k, v) \<in> set kingdom_moon_gates" "k \<noteq> ''Ruined''"
    "count_progression (multi_moon k) pool = count_name (multi_moon k) pool" "count_progression (power_moon k) pool = count_name (power_moon k) pool"
    "1 \<le> weight k pool" "\<not> 0 < opt ''randomize_kingdom_gates'' \<Longrightarrow> v \<le> weight k pool"
    "0 < opt ''multi_moon_shuffle'' \<or> 2 \<le> count_progression (power_moon k) pool"
    "he_rolled_gates h = rolled_kingdom_gates w"
    "dict_get_or (he_counts h) (multi_moon k) 0 = int (count_name (multi_moon k) pool')"
    "dict_get_or (he_counts h) (power_moon k) 0 = int (count_name (power_moon k) pool')"
    "he_count h (multi_moon k) st = int (count_progression (multi_moon k) pool')"
    "he_count h (power_moon k) st = int (count_progression (power_moon k) pool')"
  shows "check_require_string (world_env h) (leave_rule k v) st = Inr True"
proof -
  have le: "count_progression n p \<le> count_name n p" for n p by (induction p) (auto simp: progression_of_def)
  have "kingdom_threshold h k v \<le> weight k pool'" using assms by (intro finished_pool_covers)
  moreover have "check_require_string (world_env h) (leave_rule k v) st =
      Inr (kingdom_threshold h k v \<le> 3 * he_count h (multi_moon_name k) st + he_count h (moon_name k) st)"
    using kingdom_gates_ok(2) [OF assms(2)] le by (intro leave_rule_meaning) (simp_all add: assms(10-13) flip: moon_texts)
  ultimately show ?thesis by (simp add: assms(12,13) weight_def flip: moon_texts)
qed

theorem progression_opens_gates_witness:
  "let x = after_create_items [] (\<lambda>opt. if opt = ''multi_moon_shuffle'' then 1 else 0)
         (replicate 2 \<lparr>item_name = ''Cascade Kingdom Multi-Moon'', item_class = 1\<rparr> @
          replicate 3 \<lparr>item_name = ''Cascade Kingdom Power Moon'', item_class = 1\<rparr>) \<lparr>rng_position = 0, rng_draws = id\<rparr>;
       h = sand_world\<lparr>he_counts := [(''Cascade Kingdom Multi-Moon'', 2), (''Cascade Kingdom Power Moon'', 3)],
         he_rolled_gates := rolled_kingdom_gates (snd (fst x))\<rparr>
   in count_progression ''Cascade Kingdom Multi-Moon'' (fst (fst x)) = 1 \<and>
      check_require_string (world_env h) (leave_rule ''Cascade'' 5)
        (''Cascade Kingdom Multi-Moon'' # replicate 3 ''Cascade Kingdom Power Moon'') = Inr True"
proof -
  let ?X = "after_create_items [] (\<lambda>opt. if opt = ''multi_moon_shuffle'' then 1 else 0)
         (replicate 2 \<lparr>item_name = ''Cascade Kingdom Multi-Moon'', item_class = 1\<rparr> @
          replicate 3 \<lparr>item_name = ''Cascade Kingdom Power Moon'', item_class = 1\<rparr>) \<lparr>rng_position = 0, rng_draws = id\<rparr>"
  let ?h = "sand_world\<lparr>he_counts := [(''Cascade Kingdom Multi-Moon'', 2), (''Cascade Kingdom Power Moon'', 3)],
         he_rolled_gates := rolled_kingdom_gates (snd (fst ?X))\<rparr>"
  have x: "?X = ((fst (fst ?X), snd (fst ?X)), snd ?X)" by simp
  have vals: "count_progression ''Cascade Kingdom Multi-Moon'' (fst (fst ?X)) = 1" "count_progression ''Cascade Kingdom Power Moon'' (fst (fst ?X)) = 3"
    "count_name ''Cascade Kingdom Multi-Moon'' (fst (fst ?X)) = 2" "count_name ''Cascade Kingdom Power Moon'' (fst (fst ?X)) = 3"
    by code_simp+
  have "check_require_string (world_env ?h) (leave_rule ''Cascade'' 5)
        (''Cascade Kingdom Multi-Moon'' # replicate 3 ''Cascade Kingdom Power Moon'') = Inr True"
  proof (rule progression_opens_gates [OF x, where k = "''Cascade''"])
    show "(''Cascade'', 5) \<in> set kingdom_moon_gates" by (simp add: kingdom_moon_gates_def)
  qed (use vals in \<open>simp_all add: multi_moon_def power_moon_def sand_world_def weight_def count_progression_def count_name_def
      progression_of_def class_progression_def dict_get_or_def eval_nat_numeral\<close>)
  with vals show ?thesis by (simp add: Let_def)
qed

end
