(* ===== verification/World_Items.thy ===== *)
theory World_Items
  imports Item_Progression World_Options
begin

text \<open>
  The items of the world: the ids of \<open>Game.py\<close>, \<open>Items.py\<close> and \<open>Locations.py\<close>, and \<open>create_items\<close> and
  \<open>adjust_filler_items\<close> in \<open>__init__.py\<close>, around the pool hooks of
  \<open>hooks/World.py\<close>. Two items are equal to Archipelago when their names are; all belong to one player.
\<close>

section \<open>Ids\<close>

definition game_seed :: string where "game_seed = ''MEATBALLS''"
definition creator_seed :: string where "creator_seed = ''maxdietz''"
definition filler_item_name :: string where "filler_item_name = ''Coin''"

definition starting_index :: "string \<Rightarrow> string \<Rightarrow> nat" where
  "starting_index game player =
     of_char (hd game) * 100000000 + of_char (game ! 1) * 70000000 + of_char (last game) * 10000000 +
     (if 3 < length game then sum_list (map (\<lambda>c. of_char c * 100000) (drop 2 (butlast game))) else 0) +
     sum_list (map (\<lambda>c. of_char c * 1000) player)"

text \<open>A row of \<open>items.json\<close>; \<open>None\<close> for a category that is absent.\<close>

record item_data =
  id_name :: string
  id_count :: int
  id_category :: "string list option"
  id_trap :: bool
  id_useful :: bool
  id_progression :: bool
  id_progression_skip_balancing :: bool
  id_early :: bool
  id_local :: bool

definition plain_row :: "string \<Rightarrow> item_data" where
  "plain_row n =
     \<lparr>id_name = n, id_count = 1, id_category = None, id_trap = False, id_useful = False, id_progression = False,
      id_progression_skip_balancing = False, id_early = False, id_local = False\<rparr>"

definition item_rows :: "item_data list \<Rightarrow> item_data list" where
  "item_rows table = table @ [plain_row filler_item_name]"

definition victory_item :: string where "victory_item = ''__Victory__''"

definition item_id_to_name :: "item_data list \<Rightarrow> (nat option, string) dict" where
  "item_id_to_name rows =
     map (\<lambda>(i, row). (Some (starting_index game_seed creator_seed + i), id_name row)) (enumerate 0 rows) @ [(None, victory_item)]"

definition item_name_to_id :: "item_data list \<Rightarrow> (string, nat option) dict" where
  "item_name_to_id rows = foldl (\<lambda>d (i, n). dict_set n i d) [] (item_id_to_name rows)"

definition item_name_to_item :: "item_data list \<Rightarrow> (string, item_data) dict" where
  "item_name_to_item rows = foldl (\<lambda>d row. dict_set (id_name row) row d) [] rows"

definition item_name_groups :: "item_data list \<Rightarrow> (string, string list) dict" where
  "item_name_groups rows =
     foldl (\<lambda>d row. foldl (\<lambda>d c. dict_set c (dict_get_or d c [] @ [id_name row]) d) d (or_default (id_category row) [])) [] rows"

definition location_id_to_name :: "location_data list \<Rightarrow> (nat, string) dict" where
  "location_id_to_name table =
     (let start = starting_index game_seed creator_seed + 500
      in map (\<lambda>(i, l). (start + i, ld_name l)) (enumerate 0 table) @
         (if list_ex ld_victory table then [] else [(start + length table + 1, ''__Game Complete__'')]))"

section \<open>Items\<close>

definition class_trap :: int where "class_trap = 4"
definition class_progression_skip_balancing :: int where "class_progression_skip_balancing = 9"

definition row_class :: "item_data \<Rightarrow> int" where
  "row_class row =
     (let c = class_filler;
          c = (if id_trap row then class_trap else c);
          c = (if id_useful row then class_useful else c);
          c = (if id_progression row then class_progression else c)
      in if id_progression_skip_balancing row then class_progression_skip_balancing else c)"

definition create_item :: "item_data list \<Rightarrow> string \<Rightarrow> exn + pool_item" where
  "create_item rows name =
     (case dict_get (item_name_to_item rows) name of
        None \<Rightarrow> Inl KeyError
      | Some row \<Rightarrow> Inr \<lparr>item_name = name, item_class = row_class row\<rparr>)"

section \<open>The raw pool\<close>

record created_items =
  ci_pool :: "pool_item list"
  ci_traps :: "string list"
  ci_early :: "(string, int) dict"
  ci_local :: "string list"

definition item_count :: "(string \<Rightarrow> int) \<Rightarrow> category_options \<Rightarrow> item_data \<Rightarrow> int" where
  "item_count opt categories row =
     (case id_category row of
        None \<Rightarrow> id_count row
      | Some category \<Rightarrow> if is_item_enabled opt categories category then id_count row else 0)"

fun create_pool :: "(string \<Rightarrow> int) \<Rightarrow> category_options \<Rightarrow> item_data list \<Rightarrow> string list \<Rightarrow> created_items \<Rightarrow> exn + created_items" where
  "create_pool opt categories rows [] ci = Inr ci"
| "create_pool opt categories rows (name # names) ci =
     (if name = victory_item \<or> name = filler_item_name then create_pool opt categories rows names ci
      else case dict_get (item_name_to_item rows) name of
             None \<Rightarrow> Inl KeyError
           | Some row \<Rightarrow>
               let n = item_count opt categories row;
                   ci = (if id_trap row then ci\<lparr>ci_traps := ci_traps ci @ [name]\<rparr> else ci)
               in if n = 0 then create_pool opt categories rows names ci
                  else let ci = ci\<lparr>ci_pool := ci_pool ci @ replicate (nat n) \<lparr>item_name = name, item_class = row_class row\<rparr>\<rparr>;
                           ci = (if id_early row then ci\<lparr>ci_early := dict_set name n (ci_early ci)\<rparr> else ci);
                           ci = (if id_local row \<and> name \<notin> set (ci_local ci) then ci\<lparr>ci_local := ci_local ci @ [name]\<rparr> else ci)
                       in create_pool opt categories rows names ci)"

section \<open>Starting items\<close>

text \<open>A block of \<open>starting_items\<close>; a key that is absent is \<open>None\<close>.\<close>

record starting_block =
  sb_if_previous_item :: "string list option"
  sb_items :: "string list option"
  sb_item_categories :: "string list option"
  sb_random :: "nat option"

fun remove_named :: "string \<Rightarrow> pool_item list \<Rightarrow> pool_item list" where
  "remove_named n [] = []"
| "remove_named n (it # pool) = (if item_name it = n then pool else it # remove_named n pool)"

lemma length_remove_named: "n \<in> item_name ` set pool \<Longrightarrow> Suc (length (remove_named n pool)) = length pool"
  by (induction pool) auto

text \<open>With none of the keys the block's items are the pool itself: the loop takes the item at the next index of
  the list it removes from.\<close>

function start_pool :: "nat \<Rightarrow> pool_item list \<Rightarrow> pool_item list \<Rightarrow> pool_item list \<times> pool_item list" where
  "start_pool i started pool =
     (if i < length pool
      then start_pool (Suc i) (started @ [pool ! i]) (remove_named (item_name (pool ! i)) pool)
      else (started, pool))"
  by pat_completeness auto
termination
proof (relation "measure (\<lambda>(i, started, pool). length pool - i)")
  fix i :: nat and started pool :: "pool_item list"
  assume "i < length pool"
  with length_remove_named [of "item_name (pool ! i)" pool]
  show "((Suc i, started @ [pool ! i], remove_named (item_name (pool ! i)) pool), i, started, pool) \<in> measure (\<lambda>(i, started, pool). length pool - i)"
    by simp
qed simp

declare start_pool.simps [simp del]

fun start_items :: "pool_item list \<Rightarrow> pool_item list \<Rightarrow> pool_item list \<Rightarrow> pool_item list \<times> pool_item list" where
  "start_items [] started pool = (started, pool)"
| "start_items (it # items) started pool = start_items items (started @ [it]) (remove_named (item_name it) pool)"

definition start_block ::
  "item_data list \<Rightarrow> starting_block \<Rightarrow> pool_item list \<Rightarrow> pool_item list \<Rightarrow> rng \<Rightarrow> (pool_item list \<times> pool_item list) \<times> rng" where
  "start_block rows b started pool r =
     (if (case sb_if_previous_item b of None \<Rightarrow> False | Some ns \<Rightarrow> \<not> list_ex (\<lambda>it. item_name it \<in> set ns) started)
      then ((started, pool), r)
      else case (sb_item_categories b, sb_items b) of
             (None, None) \<Rightarrow>
               (case shuffle pool r of (pool, r) \<Rightarrow>
                  (case sb_random b of
                     None \<Rightarrow> (start_pool 0 started pool, r)
                   | Some k \<Rightarrow> (start_items (take k pool) started pool, r)))
           | (cats, items) \<Rightarrow>
               let chosen = (case cats of
                     None \<Rightarrow> filter (\<lambda>it. item_name it \<in> set (or_default items [])) pool
                   | Some cs \<Rightarrow>
                       filter (\<lambda>it. list_ex (\<lambda>(n, row). n = item_name it \<and> list_ex (\<lambda>c. c \<in> set cs) (or_default (id_category row) []))
                         (item_name_to_item rows)) pool)
               in (case shuffle chosen r of (chosen, r) \<Rightarrow>
                     (start_items (case sb_random b of None \<Rightarrow> chosen | Some k \<Rightarrow> take k chosen) started pool, r)))"

fun start_blocks ::
  "item_data list \<Rightarrow> starting_block list \<Rightarrow> pool_item list \<Rightarrow> pool_item list \<Rightarrow> rng \<Rightarrow> (pool_item list \<times> pool_item list) \<times> rng" where
  "start_blocks rows [] started pool r = ((started, pool), r)"
| "start_blocks rows (b # bs) started pool r =
     (case start_block rows b started pool r of ((started, pool), r) \<Rightarrow> start_blocks rows bs started pool r)"

definition start_inventory :: "pool_item list \<Rightarrow> (string, nat) dict" where
  "start_inventory started = foldl (\<lambda>d it. dict_set (item_name it) (count_name (item_name it) started) d) [] started"

section \<open>Filler\<close>

fun choices :: "nat \<Rightarrow> 'a list \<Rightarrow> rng \<Rightarrow> 'a list \<times> rng" where
  "choices 0 xs r = ([], r)"
| "choices (Suc n) xs r = (case choice xs r of (x, r) \<Rightarrow> (case choices n xs r of (ys, r) \<Rightarrow> (x # ys, r)))"

text \<open>Removing \<open>n\<close> items, the last fillers first, then traps, then useful items.\<close>

fun pop_items :: "nat \<Rightarrow> pool_item list \<Rightarrow> pool_item list \<Rightarrow> pool_item list \<Rightarrow> pool_item list \<Rightarrow> pool_item list" where
  "pop_items 0 fillers traps usefuls pool = pool"
| "pop_items (Suc n) fillers traps usefuls pool =
     (if fillers \<noteq> [] then pop_items n (butlast fillers) traps usefuls (remove_named (item_name (last fillers)) pool)
      else if traps \<noteq> [] then pop_items n fillers (butlast traps) usefuls (remove_named (item_name (last traps)) pool)
      else if usefuls \<noteq> [] then pop_items n fillers traps (butlast usefuls) (remove_named (item_name (last usefuls)) pool)
      else pool)"

definition of_class :: "int \<Rightarrow> pool_item list \<Rightarrow> pool_item list" where
  "of_class c pool = filter (\<lambda>it. item_class it = c) pool"

text \<open>\<open>unfilled\<close> is the number of the player's locations without an item.\<close>

definition adjust_filler_items ::
  "item_data list \<Rightarrow> (string \<Rightarrow> int) \<Rightarrow> nat \<Rightarrow> pool_item list \<Rightarrow> string list \<Rightarrow> rng \<Rightarrow> (exn + pool_item list) \<times> rng" where
  "adjust_filler_items rows opt unfilled pool traps r =
     (let extras = int unfilled - int (length pool)
      in if 0 < extras
         then let trap_percent = (if traps = [] then 0 else opt ''filler_traps'');
                  trap_count = extras * trap_percent div 100;
                  filler_count = extras - trap_count
              in (case choices (nat trap_count) traps r of (names, r) \<Rightarrow>
                    (map_sum id (\<lambda>new. pool @ new) (map_raising (create_item rows) (names @ replicate (nat filler_count) filler_item_name)), r))
         else if extras < 0
         then (case shuffle (of_class class_filler pool) r of (fillers, r) \<Rightarrow>
                 (case shuffle (of_class class_trap pool) r of (traps, r) \<Rightarrow>
                    (case shuffle (of_class class_useful pool) r of (usefuls, r) \<Rightarrow>
                       (Inr (pop_items (nat (- extras)) fillers traps usefuls pool), r))))
         else (Inr pool, r))"

section \<open>create_items\<close>

definition item_table_of :: "item_data list \<Rightarrow> category_table" where
  "item_table_of rows = map (\<lambda>(n, row). (n, or_default (id_category row) [])) (item_name_to_item rows)"

record items_result =
  ir_pool :: "pool_item list"
  ir_precollected :: "pool_item list"
  ir_start_inventory :: "(string, nat) dict"
  ir_rolls :: world_rolls

definition last_items ::
  "category_table \<Rightarrow> (string \<Rightarrow> int) \<Rightarrow> pool_item list \<times> pool_item list \<Rightarrow> (exn + pool_item list) \<times> rng \<Rightarrow> (exn + items_result) \<times> rng" where
  "last_items table opt started x =
     (case fst x of
        Inl e \<Rightarrow> (Inl e, snd x)
      | Inr pool \<Rightarrow>
          (case after_create_items table opt pool (snd x) of
             ((pool, rolls), r) \<Rightarrow>
               (Inr \<lparr>ir_pool = pool, ir_precollected = fst started @ snd started,
                     ir_start_inventory = start_inventory (snd started), ir_rolls = rolls\<rparr>, r)))"

definition fitted_items ::
  "item_data list \<Rightarrow> (string \<Rightarrow> int) \<Rightarrow> nat \<Rightarrow> string list \<Rightarrow> pool_item list \<Rightarrow> (pool_item list \<times> pool_item list) \<times> rng \<Rightarrow> (exn + items_result) \<times> rng" where
  "fitted_items rows opt unfilled traps pushed x =
     last_items (item_table_of rows) opt (pushed, fst (fst x))
       (adjust_filler_items rows opt unfilled (before_create_items_filler (item_table_of rows) opt (snd (fst x))) traps (snd x))"

definition fill_items ::
  "item_data list \<Rightarrow> starting_block list \<Rightarrow> (string \<Rightarrow> int) \<Rightarrow> nat \<Rightarrow> string list \<Rightarrow>
   (pool_item list \<times> pool_item list \<times> string option) \<times> rng \<Rightarrow> (exn + items_result) \<times> rng" where
  "fill_items rows starting_items opt unfilled traps x =
     fitted_items rows opt unfilled traps (fst (fst x)) (start_blocks rows starting_items [] (fst (snd (fst x))) (snd x))"

definition world_create_items ::
  "item_data list \<Rightarrow> starting_block list \<Rightarrow> (string \<Rightarrow> int) \<Rightarrow> category_options \<Rightarrow> nat \<Rightarrow> rng \<Rightarrow> (exn + items_result) \<times> rng" where
  "world_create_items rows starting_items opt categories unfilled r =
     (case create_pool opt categories rows (map snd (item_id_to_name rows)) \<lparr>ci_pool = [], ci_traps = [], ci_early = [], ci_local = []\<rparr> of
        Inl e \<Rightarrow> (Inl e, r)
      | Inr ci \<Rightarrow> fill_items rows starting_items opt unfilled (ci_traps ci) (before_create_items_starting (item_table_of rows) opt (ci_pool ci) r))"

text \<open>The names in the order of their ids, without computing these.\<close>

lemma item_names: "map snd (item_id_to_name rows) = map id_name rows @ [victory_item]"
proof -
  have "map (\<lambda>x. id_name (snd x)) (enumerate n rows) = map id_name rows" for n
  proof -
    have "map (\<lambda>x. id_name (snd x)) (enumerate n rows) = map id_name (map snd (enumerate n rows))" by (simp only: map_map comp_def)
    then show ?thesis by simp
  qed
  then show ?thesis by (simp add: item_id_to_name_def comp_def split_def)
qed

lemmas world_create_items_code [code] = world_create_items_def [unfolded item_names]

end
