(* ===== verification/World_Pool.thy ===== *)
theory World_Pool
  imports World_Items "HOL-Library.Sublist"
begin

text \<open>
  What \<open>create_items\<close> hands to Archipelago: as many items as there are locations, every item a row of the
  table with its classification or a demoted one, and moons that open the leave-rules.
\<close>

section \<open>Starting from the whole pool\<close>

lemma start_pool_half:
  "i \<le> length pool \<Longrightarrow> start_pool i started pool = (started', pool') \<Longrightarrow>
   length started' = length started + (length pool - i + 1) div 2 \<and> length pool' = length pool - (length pool - i + 1) div 2"
proof (induction i started pool arbitrary: started' pool' rule: start_pool.induct)
  case (1 i started pool)
  show ?case
  proof (cases "i < length pool")
    case True
    let ?rest = "remove_named (item_name (pool ! i)) pool"
    have len: "Suc (length ?rest) = length pool" using True by (intro length_remove_named) simp
    have step: "start_pool (Suc i) (started @ [pool ! i]) ?rest = (started', pool')"
      using "1.prems"(2) True by (simp add: start_pool.simps [of i])
    show ?thesis
    proof (cases "Suc i \<le> length ?rest")
      case within: True
      then obtain d where "length ?rest = Suc i + d" using le_Suc_ex by blast
      then have lens: "length ?rest - Suc i + 1 = d + 1" "length pool = i + d + 2" "length pool - i + 1 = d + 3" using len by auto
      have "(d + 3) div 2 = Suc ((d + 1) div 2)" by presburger
      with "1.IH" [OF True within step] lens \<open>length ?rest = Suc i + d\<close> show ?thesis by simp
    next
      case False
      then have "\<not> Suc i < length ?rest" "length pool - i = 1" using len True by auto
      with step len show ?thesis by (auto simp: start_pool.simps [of "Suc i"])
    qed
  next
    case False
    then have "started' = started" "pool' = pool" "i = length pool" using "1.prems" start_pool.simps [of i started pool] by simp_all
    then show ?thesis by simp
  qed
qed

section \<open>Filler\<close>

text \<open>What \<open>adjust_filler_items\<close> may take out, and that a name determines the classification.\<close>

definition disposable :: "pool_item \<Rightarrow> bool" where
  "disposable it \<longleftrightarrow> item_class it \<in> {class_filler, class_trap, class_useful}"

definition classes_agree :: "pool_item list \<Rightarrow> bool" where
  "classes_agree pool \<longleftrightarrow> (\<forall>x\<in>set pool. \<forall>y\<in>set pool. item_name x = item_name y \<longrightarrow> item_class x = item_class y)"

lemma remove_named_item:
  assumes "classes_agree pool" "x \<in> set pool"
  shows "remove_named (item_name x) pool = remove1 x pool"
proof -
  have "remove_named (item_name x) ps = remove1 x ps" if "\<And>y. y \<in> set ps \<Longrightarrow> item_name y = item_name x \<Longrightarrow> y = x" for ps
    using that
  proof (induction ps)
    case (Cons y ps)
    have "item_name y = item_name x \<longleftrightarrow> x = y" using Cons.prems [of y] by auto
    moreover have "remove_named (item_name x) ps = remove1 x ps" using Cons.prems by (intro Cons.IH) simp
    ultimately show ?case by simp
  qed simp
  moreover have "y = x" if "y \<in> set pool" "item_name y = item_name x" for y
  proof -
    have "item_class y = item_class x" using assms that unfolding classes_agree_def by blast
    then show ?thesis using that(2) by (intro pool_item.equality) simp_all
  qed
  ultimately show ?thesis by blast
qed

text \<open>The items go in one order: the last filler first.\<close>

lemma pop_items_fold:
  "pop_items n fillers traps usefuls pool =
   fold (\<lambda>it. remove_named (item_name it)) (take n (rev fillers @ rev traps @ rev usefuls)) pool"
proof -
  have snoc: "rev xs = last xs # rev (butlast xs)" if "xs \<noteq> []" for xs :: "pool_item list"
    using that by (metis append_butlast_last_id rev.simps(2) rev_rev_ident rev_append append_Cons append_Nil)
  show ?thesis
  proof (induction n fillers traps usefuls pool rule: pop_items.induct)
    case (2 n fillers traps usefuls pool)
    consider (f) "fillers \<noteq> []" | (t) "fillers = []" "traps \<noteq> []" | (u) "fillers = []" "traps = []" "usefuls \<noteq> []"
      | (none) "fillers = []" "traps = []" "usefuls = []" by blast
    then show ?case
    proof cases
      case f
      with 2(1) show ?thesis unfolding snoc [OF f] by (simp only: pop_items.simps append_Cons take_Suc_Cons fold_simps if_True simp_thms)
    next
      case t
      with 2(2) show ?thesis unfolding snoc [OF t(2)] by simp
    next
      case u
      with 2(3) show ?thesis unfolding snoc [OF u(3)] by simp
    qed simp
  qed simp
qed

lemma remove_disposable:
  assumes "classes_agree pool" "mset xs \<subseteq># mset pool" "list_all disposable xs"
  shows "length (fold (\<lambda>it. remove_named (item_name it)) xs pool) = length pool - length xs \<and>
    filter (\<lambda>it. \<not> disposable it) (fold (\<lambda>it. remove_named (item_name it)) xs pool) = filter (\<lambda>it. \<not> disposable it) pool"
  using assms
proof (induction xs arbitrary: pool)
  case (Cons x xs)
  have x: "x \<in> set pool" using Cons.prems(2) mset_subset_eqD [of "mset (x # xs)" "mset pool" x] by simp
  have "classes_agree (remove1 x pool)" using Cons.prems(1) unfolding classes_agree_def by (meson notin_set_remove1)
  moreover have "mset xs \<subseteq># mset (remove1 x pool)" using Cons.prems(2) by (simp add: insert_subset_eq_iff)
  moreover have "filter (\<lambda>it. \<not> disposable it) (remove1 x pool) = filter (\<lambda>it. \<not> disposable it) pool"
    using Cons.prems(3) by (induction pool) auto
  moreover have "list_all disposable xs" using Cons.prems(3) by simp
  ultimately show ?case
    using Cons.IH [of "remove1 x pool"] x by (simp only: fold_simps remove_named_item [OF Cons.prems(1) x] length_remove1 length_Cons if_True) simp
qed simp

lemma collect_length: "map_raising f xs = Inr ys \<Longrightarrow> length ys = length xs"
proof (induction xs arbitrary: ys)
  case (Cons x xs)
  then show ?case by (cases "f x"; cases "map_raising f xs") auto
qed simp

lemma choices_length [simp]: "length (fst (choices n xs r)) = n"
  by (induction n xs r rule: choices.induct) (auto split: prod.splits)

lemma mset_of_class: "mset (of_class class_filler pool) + mset (of_class class_trap pool) + mset (of_class class_useful pool) = filter_mset disposable (mset pool)"
  by (induction pool) (auto simp: of_class_def disposable_def class_filler_def class_trap_def class_useful_def)

lemma adjust_filler_spec:
  assumes "adjust_filler_items rows opt unfilled pool traps r = (Inr pool', r')" "classes_agree pool"
    "0 \<le> opt ''filler_traps''" "opt ''filler_traps'' \<le> 100"
  shows "length pool' = max unfilled (length (filter (\<lambda>it. \<not> disposable it) pool)) \<and>
    prefix (filter (\<lambda>it. \<not> disposable it) pool) (filter (\<lambda>it. \<not> disposable it) pool')"
proof -
  let ?keep = "filter (\<lambda>it. \<not> disposable it)"
  have kept: "length (?keep pool) + length (filter disposable pool) = length pool"
    by (metis add.commute sum_length_filter_compl)
  consider (add) "length pool < unfilled" | (drop) "unfilled < length pool" | (eq) "unfilled = length pool" by linarith
  then show ?thesis
  proof cases
    case add
    let ?e = "int unfilled - int (length pool)" and ?p = "if traps = [] then 0 else opt ''filler_traps''"
    have p: "0 \<le> ?e * ?p div 100" "?e * ?p div 100 \<le> ?e"
    proof -
      have "0 \<le> ?e * ?p" using add assms(3) by (intro mult_nonneg_nonneg) auto
      then show "0 \<le> ?e * ?p div 100" by (simp add: pos_imp_zdiv_nonneg_iff)
      have "?e * ?p \<le> ?e * 100" using add assms(4) by (intro mult_left_mono) auto
      then show "?e * ?p div 100 \<le> ?e" using zdiv_mono1 [of "?e * ?p" "?e * 100" 100] by simp
    qed
    obtain names s where names: "choices (nat (?e * ?p div 100)) traps r = (names, s)" by fastforce
    then have len: "length names = nat (?e * ?p div 100)" using choices_length [of "nat (?e * ?p div 100)" traps r] by simp
    have "map_sum id (\<lambda>new. pool @ new) (map_raising (create_item rows) (names @ replicate (nat (?e - ?e * ?p div 100)) filler_item_name)) = Inr pool'"
      using assms(1) add by (simp add: adjust_filler_items_def Let_def names)
    then obtain new where new: "pool' = pool @ new"
        "map_raising (create_item rows) (names @ replicate (nat (?e - ?e * ?p div 100)) filler_item_name) = Inr new"
      by (cases "map_raising (create_item rows) (names @ replicate (nat (?e - ?e * ?p div 100)) filler_item_name)") auto
    then have "length new = nat ?e" using collect_length [OF new(2)] p len by (simp flip: nat_add_distrib)
    then show ?thesis using add kept new(1) by simp
  next
    case drop
    obtain f r1 where f: "shuffle (of_class class_filler pool) r = (f, r1)" by fastforce
    obtain t r2 where t: "shuffle (of_class class_trap pool) r1 = (t, r2)" by fastforce
    obtain u r3 where u: "shuffle (of_class class_useful pool) r2 = (u, r3)" by fastforce
    have pool': "pool' = pop_items (length pool - unfilled) f t u pool"
      using assms(1) drop by (simp add: adjust_filler_items_def Let_def f t u nat_diff_distrib)
    have "mset f = mset (of_class class_filler pool)" "mset t = mset (of_class class_trap pool)" "mset u = mset (of_class class_useful pool)"
      using shuffle_mset [of "of_class class_filler pool" r] shuffle_mset [of "of_class class_trap pool" r1]
        shuffle_mset [of "of_class class_useful pool" r2] f t u by simp_all
    then have all: "mset (rev f @ rev t @ rev u) = filter_mset disposable (mset pool)"
      by (simp flip: mset_of_class add: ac_simps)
    let ?xs = "take (length pool - unfilled) (rev f @ rev t @ rev u)"
    have n: "length (rev f @ rev t @ rev u) = length (filter disposable pool)"
      by (metis all mset_filter size_mset)
    have sub: "mset ?xs \<subseteq># mset (rev f @ rev t @ rev u)" by (metis append_take_drop_id mset_append mset_subset_eq_add_left)
    then have "mset ?xs \<subseteq># mset pool" using all by (metis multiset_filter_subset subset_mset.order_trans)
    moreover have "list_all disposable ?xs"
    proof -
      have "set ?xs \<subseteq> set (rev f @ rev t @ rev u)" by (rule set_take_subset)
      also have "\<dots> = set_mset (filter_mset disposable (mset pool))" by (metis all set_mset_mset)
      finally show ?thesis by (auto simp: list_all_iff)
    qed
    ultimately show ?thesis
      using remove_disposable [of pool ?xs] assms(2) kept n drop unfolding pool' pop_items_fold by auto
  next
    case eq
    then show ?thesis using assms(1) kept by (simp add: adjust_filler_items_def)
  qed
qed

section \<open>Classifications\<close>

text \<open>Until the demotion an item has the classification of its row; the festival makes Metro's moons filler.\<close>

definition metro_moons :: "string set" where "metro_moons = {power_moon ''Metro'', multi_moon ''Metro''}"

definition item_raw :: "(string \<Rightarrow> int) \<Rightarrow> item_data list \<Rightarrow> pool_item \<Rightarrow> bool" where
  "item_raw opt rows it \<longleftrightarrow>
     (case dict_get (item_name_to_item rows) (item_name it) of
        None \<Rightarrow> False
      | Some row \<Rightarrow> item_class it = row_class row \<or> opt ''goal'' = 1 \<and> item_name it \<in> metro_moons \<and> item_class it = class_filler)"

definition item_typed :: "item_data list \<Rightarrow> pool_item \<Rightarrow> bool" where
  "item_typed rows it \<longleftrightarrow>
     (case dict_get (item_name_to_item rows) (item_name it) of
        None \<Rightarrow> False
      | Some row \<Rightarrow> item_class it \<in> {row_class row, class_filler, class_useful})"

lemma raw_typed: "item_raw opt rows it \<Longrightarrow> item_typed rows it"
  by (auto simp: item_raw_def item_typed_def split: option.splits)

lemma raw_created:
  "create_pool opt categories rows names ci = Inr ci' \<Longrightarrow> list_all (item_raw opt rows) (ci_pool ci) \<Longrightarrow> list_all (item_raw opt rows) (ci_pool ci')"
proof (induction opt categories rows names ci arbitrary: ci' rule: create_pool.induct)
  case (2 opt categories rows name names ci)
  show ?case
  proof (cases "name = victory_item \<or> name = filler_item_name")
    case True
    with 2 show ?thesis by simp
  next
    case False
    then obtain row where row: "dict_get (item_name_to_item rows) name = Some row" using "2.prems"(1) by (auto split: option.splits)
    then have "item_raw opt rows \<lparr>item_name = name, item_class = row_class row\<rparr>" by (simp add: item_raw_def)
    then have "list_all (item_raw opt rows) (replicate n \<lparr>item_name = name, item_class = row_class row\<rparr>)" for n by (auto simp: list_all_iff)
    with "2.IH"(2,3) [OF False row refl refl] "2.prems" False row show ?thesis by (auto simp: Let_def split: if_splits)
  qed
qed simp

lemma set_pop_at: "set (pop_at i xs) \<subseteq> set xs"
  by (auto simp: pop_at_def dest: in_set_takeD in_set_dropD)

lemma set_drop_first: "set (drop_first n k pool) \<subseteq> set pool"
  by (induction n k pool rule: drop_first.induct) auto

lemma set_remove_named: "set (remove_named n pool) \<subseteq> set pool"
  by (induction pool) auto

lemma precollect_subset:
  assumes "precollect_starting_captures table pool r = ((pushed, pool', extra), r')"
  shows "set pool' \<subseteq> set pool"
proof -
  have pops: "set (snd (foldl (\<lambda>(pushed, pool) i. (pushed @ [pool ! i], pop_at i pool)) (ps, pool) is)) \<subseteq> set pool"
    for ps :: "pool_item list" and pool "is"
    by (induction "is" arbitrary: ps pool) (use set_pop_at in fastforce)+
  obtain idx ex r1 where "starter_choice table pool r = ((idx, ex), r1)" by (metis prod.exhaust)
  then show ?thesis using assms pops [of "[]" pool "rev (sort idx)"] by (auto simp: precollect_starting_captures_def split: prod.splits)
qed

lemma raw_starting:
  assumes "before_create_items_starting table opt pool r = ((pushed, pool', extra), r')" "list_all (item_raw opt rows) pool"
  shows "list_all (item_raw opt rows) pool'"
proof -
  obtain p pre e r1 where p: "precollect_starting_captures table pool r = ((p, pre, e), r1)" by (metis prod.exhaust)
  have pre: "list_all (item_raw opt rows) pre" using precollect_subset [OF p] assms(2) by (auto simp: list_all_iff)
  have filler: "item_raw opt rows (it\<lparr>item_class := class_filler\<rparr>)" if "item_raw opt rows it" "opt ''goal'' = 1" "item_name it \<in> metro_moons" for it
    using that by (auto simp: item_raw_def split: option.splits)
  show ?thesis
  proof (cases "opt ''goal'' = 1")
    case True
    then show ?thesis using assms(1) p pre filler [OF _ True] unfolding before_create_items_starting_def metro_moons_def by (auto simp: list_all_iff)
  next
    case False
    then show ?thesis using assms(1) p pre by (simp add: before_create_items_starting_def)
  qed
qed

lemma start_pool_subset: "start_pool i started pool = (started', pool') \<Longrightarrow> set pool' \<subseteq> set pool"
proof (induction i started pool arbitrary: started' pool' rule: start_pool.induct)
  case (1 i started pool)
  show ?case
  proof (cases "i < length pool")
    case True
    with "1.prems" have "start_pool (Suc i) (started @ [pool ! i]) (remove_named (item_name (pool ! i)) pool) = (started', pool')"
      by (simp add: start_pool.simps [of i started pool])
    from "1.IH" [OF True this] set_remove_named show ?thesis by blast
  next
    case False
    then show ?thesis using "1.prems" start_pool.simps [of i started pool] by simp
  qed
qed

lemma start_items_subset: "start_items items started pool = (started', pool') \<Longrightarrow> set pool' \<subseteq> set pool"
  by (induction items started pool arbitrary: started' pool' rule: start_items.induct) (use set_remove_named in fastforce)+

lemma start_block_subset: "start_block rows b started pool r = ((started', pool'), r') \<Longrightarrow> set pool' \<subseteq> set pool"
proof -
  assume a: "start_block rows b started pool r = ((started', pool'), r')"
  obtain p s where p: "shuffle pool r = (p, s)" by fastforce
  have "set p = set pool" using shuffle_set [of pool r] p by simp
  then show ?thesis
    using a start_pool_subset start_items_subset
    by (fastforce simp: start_block_def p Let_def split: if_splits option.splits prod.splits)
qed

lemma start_blocks_subset: "start_blocks rows bs started pool r = ((started', pool'), r') \<Longrightarrow> set pool' \<subseteq> set pool"
proof (induction bs arbitrary: started pool r)
  case (Cons b bs)
  obtain s p r1 where b: "start_block rows b started pool r = ((s, p), r1)" by (metis prod.exhaust)
  with Cons.prems have "start_blocks rows bs s p r1 = ((started', pool'), r')" by simp
  from Cons.IH [OF this] start_block_subset [OF b] show ?case by blast
qed simp

lemma filler_subset: "set (before_create_items_filler table opt pool) \<subseteq> set pool"
proof -
  have one: "set (trim_kingdom opt ko pool) \<subseteq> set pool" for ko pool
    by (auto simp: trim_kingdom_def Let_def split: prod.splits dest!: set_drop_first [THEN subsetD])
  have trim: "set (fold (trim_kingdom opt) kos pool) \<subseteq> set pool" for kos pool
    by (induction kos arbitrary: pool) (use one in fastforce)+
  have ability: "set (drop_ability_items_if_disabled table opt pool) \<subseteq> set pool" for pool
    by (auto simp: drop_ability_items_if_disabled_def)
  let ?p = "if opt ''goal'' = 1 then drop_items_by_name [multi_moon ''Mushroom'', ''Dark Side Multi-Moon''] pool else pool"
  let ?q = "if 0 < opt ''multi_moon_shuffle'' \<and> opt ''goal'' = 1 then drop_first (multi_moon ''Metro'') 1 ?p else ?p"
  have "set ?p \<subseteq> set pool" by (auto simp: drop_items_by_name_def)
  then have "set ?q \<subseteq> set pool" using set_drop_first [of "multi_moon ''Metro''" 1 ?p] by auto
  moreover have "before_create_items_filler table opt pool = fold (trim_kingdom opt) kingdom_moon_count_options (drop_ability_items_if_disabled table opt ?q)"
    by (simp only: before_create_items_filler_def trim_kingdom_moons_to_options_def Let_def)
  ultimately show ?thesis by (metis (no_types) order_trans [OF trim order_trans [OF ability]])
qed

lemma raw_adjusted:
  assumes "adjust_filler_items rows opt unfilled pool traps r = (Inr pool', r')" "list_all (item_raw opt rows) pool"
  shows "list_all (item_raw opt rows) pool'"
proof -
  have fresh: "list_all (item_raw opt rows) new" if "map_raising (create_item rows) names = Inr new" for names new
    using that
  proof (induction names arbitrary: new)
    case (Cons n names)
    have one: "item_raw opt rows it" if "create_item rows n = Inr it" for it
      using that by (auto simp: create_item_def item_raw_def split: option.splits)
    show ?case using Cons one by (cases "create_item rows n"; cases "map_raising (create_item rows) names") auto
  qed simp
  have pops: "set (pop_items n f t u pool) \<subseteq> set pool" for n f t u
  proof -
    have "set (fold (\<lambda>it. remove_named (item_name it)) xs pool) \<subseteq> set pool" for xs
      by (induction xs arbitrary: pool) (use set_remove_named in fastforce)+
    then show ?thesis unfolding pop_items_fold .
  qed
  consider new names where "pool' = pool @ new" "map_raising (create_item rows) names = Inr new" | "set pool' \<subseteq> set pool"
  proof (cases "int unfilled - int (length pool)" "0 :: int" rule: linorder_cases)
    case greater
    then obtain names r1 where "map_sum id (\<lambda>new. pool @ new) (map_raising (create_item rows) names) = Inr pool'"
      using assms(1) by (auto simp: adjust_filler_items_def Let_def split: prod.splits)
    then show thesis using that(1) by (cases "map_raising (create_item rows) names") auto
  next
    case less
    then show thesis using assms(1) that(2) pops by (auto simp: adjust_filler_items_def Let_def split: prod.splits)
  next
    case equal
    then show thesis using assms(1) that(2) by (simp add: adjust_filler_items_def)
  qed
  then show ?thesis
  proof cases
    case 1
    then show ?thesis using fresh assms(2) by simp
  next
    case 2
    then show ?thesis using assms(2) by (auto simp: list_all_iff)
  qed
qed

text \<open>The demotion keeps the types.\<close>

lemma typed_demoted:
  assumes "after_create_items table opt pool r = ((pool', w), r')" "list_all (item_typed rows) pool"
  shows "list_all (item_typed rows) pool'"
proof -
  have demoted: "item_typed rows (it\<lparr>item_class := c\<rparr>)" if "item_typed rows it" "c \<in> {class_filler, class_useful}" for it c
    using that by (auto simp: item_typed_def split: option.splits)
  have from_k: "list_all (item_typed rows) (demote_from n k p)" if "list_all (item_typed rows) p" for n k p
    using that by (induction n k p rule: demote_from.induct) (auto simp: demoted split: nat.split)
  have kingdom: "list_all (item_typed rows) (demote_kingdom b kt p)" if "list_all (item_typed rows) p" for b kt p
    using that by (auto simp: demote_kingdom_def Let_def from_k split: prod.split)
  have surplus: "list_all (item_typed rows) (fold (demote_kingdom b) ks p)" if "list_all (item_typed rows) p" for b ks p
    using that by (induction ks arbitrary: p) (simp_all add: kingdom)
  have mobility: "list_all (item_typed rows) (demote_mobility_loop kept p)" if "list_all (item_typed rows) p" for kept p
    using that by (induction kept p rule: demote_mobility_loop.induct) (auto simp: Let_def demoted split: option.split)
  show ?thesis
    using after_create_items_eq(1) [OF assms(1)] mobility surplus assms(2)
    by (simp add: demote_mobility_only_abilities_def demote_surplus_kingdom_moons_def)
qed

text \<open>The pool before and after the last hook.\<close>

lemma world_create_itemsE:
  assumes "world_create_items rows blocks opt categories unfilled r = (Inr res, r')"
  obtains pool r1 where "list_all (item_raw opt rows) pool" "after_create_items (item_table_of rows) opt pool r1 = ((ir_pool res, ir_rolls res), r')"
proof -
  let ?table = "item_table_of rows"
  obtain ci where ci: "create_pool opt categories rows (map snd (item_id_to_name rows)) \<lparr>ci_pool = [], ci_traps = [], ci_early = [], ci_local = []\<rparr> = Inr ci"
    using assms by (auto simp: world_create_items_def split: sum.splits)
  obtain pushed p1 e r1 where p1: "before_create_items_starting ?table opt (ci_pool ci) r = ((pushed, p1, e), r1)" by (metis prod.exhaust)
  obtain started p2 r2 where p2: "start_blocks rows blocks [] p1 r1 = ((started, p2), r2)" by (metis prod.exhaust)
  obtain p3 r3 where p3: "adjust_filler_items rows opt unfilled (before_create_items_filler ?table opt p2) (ci_traps ci) r2 = (Inr p3, r3)"
    using assms ci p1 p2
    by (cases "adjust_filler_items rows opt unfilled (before_create_items_filler ?table opt p2) (ci_traps ci) r2"; cases "fst (adjust_filler_items rows opt unfilled (before_create_items_filler ?table opt p2) (ci_traps ci) r2)")
      (auto simp: world_create_items_def fill_items_def fitted_items_def last_items_def)
  obtain p4 w r4 where p4: "after_create_items ?table opt p3 r3 = ((p4, w), r4)" by (metis prod.exhaust)
  have "list_all (item_raw opt rows) p1" using raw_starting [OF p1] raw_created [OF ci] by simp
  then have "list_all (item_raw opt rows) (before_create_items_filler ?table opt p2)"
    using start_blocks_subset [OF p2] filler_subset [of ?table opt p2] by (auto simp: list_all_iff)
  then have "list_all (item_raw opt rows) p3" using raw_adjusted [OF p3] by simp
  moreover have "ir_pool res = p4" "ir_rolls res = w" "r' = r4"
    using assms ci p1 p2 p3 p4 by (auto simp: world_create_items_def fill_items_def fitted_items_def last_items_def)
  ultimately show thesis using that p4 by simp
qed

section \<open>Properties\<close>



text \<open>C35 A starting block without a key takes only every other item: the loop removes from the list it walks,
  so it ends after half of the pool (rounded up) and leaves the other half, although the block asks for
  every item.\<close>

theorem keyless_block_takes_half:
  "case start_block rows \<lparr>sb_if_previous_item = None, sb_items = None, sb_item_categories = None, sb_random = None\<rparr> started pool r of
     ((started', pool'), r') \<Rightarrow> length started' = length started + (length pool + 1) div 2 \<and> length pool' = length pool div 2"
proof -
  obtain p s where p: "shuffle pool r = (p, s)" by fastforce
  have len: "length p = length pool" using shuffle_mset [of pool r] p by (metis fst_conv mset_eq_length)
  obtain started' pool' where q: "start_pool 0 started p = (started', pool')" by fastforce
  have "length pool - (length pool + 1) div 2 = length pool div 2" by presburger
  with start_pool_half [OF _ q] len show ?thesis by (simp add: start_block_def p q)
qed


section \<open>A small item table\<close>

definition sample_items :: "item_data list" where
  "sample_items = item_rows
     [(plain_row ''Cascade Kingdom Multi-Moon'')\<lparr>id_progression := True, id_count := 2\<rparr>,
      (plain_row ''Cascade Kingdom Power Moon'')\<lparr>id_progression := True, id_count := 3\<rparr>,
      (plain_row ''Spin Throw'')\<lparr>id_progression := True, id_category := Some [''Ability'']\<rparr>]"

definition sample_options :: "string \<Rightarrow> int" where
  "sample_options n = (if n = ''multi_moon_shuffle'' \<or> n = ''abilitysanity'' then 1 else if n = ''cascade_moon_count'' then 5 else 0)"

definition sample_result :: items_result where
  "sample_result =
     \<lparr>ir_pool = [\<lparr>item_name = ''Cascade Kingdom Multi-Moon'', item_class = 1\<rparr>, \<lparr>item_name = ''Cascade Kingdom Multi-Moon'', item_class = 0\<rparr>] @
        replicate 3 \<lparr>item_name = ''Cascade Kingdom Power Moon'', item_class = 1\<rparr> @
        [\<lparr>item_name = ''Spin Throw'', item_class = 2\<rparr>, \<lparr>item_name = ''Coin'', item_class = 0\<rparr>, \<lparr>item_name = ''Coin'', item_class = 0\<rparr>],
      ir_precollected = [], ir_start_inventory = [],
      ir_rolls = \<lparr>rolled_kingdom_gates = None, mm_bonus_captures = [], mm_bonus_abilities = [''Spin Throw'']\<rparr>\<rparr>"

lemma sample_created:
  "world_create_items sample_items [] sample_options [] 8 \<lparr>rng_position = 0, rng_draws = id\<rparr> =
   (Inr sample_result, snd (world_create_items sample_items [] sample_options [] 8 \<lparr>rng_position = 0, rng_draws = id\<rparr>))"
proof -
  have "fst (world_create_items sample_items [] sample_options [] 8 \<lparr>rng_position = 0, rng_draws = id\<rparr>) = Inr sample_result" by code_simp
  then show ?thesis by (simp add: prod_eq_iff)
qed




end
