(* ===== verification/Data_Checks.thy ===== *)
theory Data_Checks
  imports World_Graph World_Items
begin

text \<open>
  \<open>DataValidation.py\<close>: the checks on the tables of the apworld before generation and before the fill.
  A check gives the first fault it finds: \<open>Invalid\<close> is a \<open>ValidationError\<close>, with its message and the
  values the message is filled with, \<open>Crash\<close> any other exception. The tables are those of \<open>Data.py\<close> after
  \<open>Items.py\<close> and \<open>Locations.py\<close> have completed their rows in place.
\<close>

section \<open>Tables\<close>

record valued_item = item_data +
  vi_value :: "(string, int) dict option"

record placed_location = location_data +
  pl_place_item :: "json option"
  pl_place_item_category :: "json option"
  pl_dont_place_item :: "json option"
  pl_dont_place_item_category :: "json option"

text \<open>Whether a region's row has the key \<open>starting\<close>.\<close>

record region_entry = region_row +
  re_has_starting :: bool

record data_tables =
  dt_game :: "(string, json) dict"
  dt_items :: "valued_item list"
  dt_locations :: "placed_location list"
  dt_regions :: "(string, region_entry) dict"

section \<open>JSON values as Python objects\<close>

text \<open>\<open>key in j\<close>, \<open>j[key]\<close> and \<open>for x in j\<close>.\<close>

definition json_has :: "string \<Rightarrow> json \<Rightarrow> exn + bool" where
  "json_has key j =
     (case j of
        JObj d \<Rightarrow> Inr (key \<in> set (dict_keys d))
      | JList xs \<Rightarrow> Inr (JStr key \<in> set xs)
      | JStr s \<Rightarrow> Inr (has_sub key s)
      | _ \<Rightarrow> Inl TypeError)"

definition json_item :: "json \<Rightarrow> string \<Rightarrow> exn + json" where
  "json_item j key =
     (case j of
        JObj d \<Rightarrow> (case dict_get d key of None \<Rightarrow> Inl KeyError | Some v \<Rightarrow> Inr v)
      | _ \<Rightarrow> Inl TypeError)"

definition json_iter :: "json \<Rightarrow> exn + json list" where
  "json_iter j =
     (case j of
        JList xs \<Rightarrow> Inr xs
      | JObj d \<Rightarrow> Inr (map JStr (dict_keys d))
      | JStr s \<Rightarrow> Inr (map (\<lambda>c. JStr [c]) s)
      | _ \<Rightarrow> Inl TypeError)"

text \<open>\<open>json.dumps\<close> with its default separators, and a requirement as the value it was read from.\<close>

fun dumps_spaced :: "json \<Rightarrow> string" where
  "dumps_spaced (JList js) = CHR ''['' # join '', '' (map dumps_spaced js) @ '']''"
| "dumps_spaced (JObj kvs) = CHR ''{'' # join '', '' (map (\<lambda>(k, v). quote_str k @ '': '' @ dumps_spaced v) kvs) @ ''}''"
| "dumps_spaced j = dumps j"

fun requires_json :: "requires \<Rightarrow> json" where
  "requires_json (ReqString s) = JStr s"
| "requires_json (ReqList xs) = JList xs"

section \<open>Faults\<close>

datatype fault = Invalid string "json list" | Crash exn

fun each :: "('a \<Rightarrow> fault option) \<Rightarrow> 'a list \<Rightarrow> fault option" where
  "each check [] = None"
| "each check (x # xs) = (case check x of None \<Rightarrow> each check xs | Some e \<Rightarrow> Some e)"

definition on_value :: "exn + 'a \<Rightarrow> ('a \<Rightarrow> fault option) \<Rightarrow> fault option" where
  "on_value v check = (case v of Inl e \<Rightarrow> Some (Crash e) | Inr x \<Rightarrow> check x)"

lemma each_None: "each check xs = None \<longleftrightarrow> (\<forall>x \<in> set xs. check x = None)"
  by (induction xs) (auto split: option.splits)

section \<open>Names in requirements\<close>

definition known_item :: "'a item_data_scheme list \<Rightarrow> string \<Rightarrow> bool" where
  "known_item items name \<longleftrightarrow> list_ex (\<lambda>it. id_name it = name) items"

definition name_part :: "string \<Rightarrow> string" where
  "name_part s = hd (split_on CHR '':'' s)"

definition check_item_name :: "'a item_data_scheme list \<Rightarrow> string \<Rightarrow> string \<Rightarrow> string \<Rightarrow> fault option" where
  "check_item_name items message area s =
     (if known_item items (name_part s) then None else Some (Invalid message [JStr (name_part s), JStr area]))"

definition check_item_entry :: "'a item_data_scheme list \<Rightarrow> string \<Rightarrow> string \<Rightarrow> json \<Rightarrow> fault option" where
  "check_item_entry items message area entry =
     (case entry of JStr s \<Rightarrow> check_item_name items message area s | _ \<Rightarrow> Some (Crash AttributeError))"

definition check_names_in_requires :: "'a item_data_scheme list \<Rightarrow> string \<Rightarrow> string \<Rightarrow> requires \<Rightarrow> fault option" where
  "check_names_in_requires items message area req =
     (case req of
        ReqString s \<Rightarrow>
          each (\<lambda>n. if lower (item_text n) \<in> {''or'', ''and''} \<or> item_text n \<in> {'')'', ''(''} \<or> CHR ''@'' \<in> set n then None
                    else check_item_name items message area n) (find_items s)
      | ReqList entries \<Rightarrow>
          each (\<lambda>entry. case or_group entry of
                  Some or_items \<Rightarrow> each (check_item_entry items message area) or_items
                | None \<Rightarrow> check_item_entry items message area entry) entries)"

definition check_item_names_in_location_requires :: "data_tables \<Rightarrow> fault option" where
  "check_item_names_in_location_requires t =
     each (\<lambda>l. case ld_requires l of
             None \<Rightarrow> None
           | Some r \<Rightarrow> check_names_in_requires (dt_items t)
               ''Item %s is required by location %s but is misspelled or does not exist.'' (ld_name l) r) (dt_locations t)"

definition check_item_names_in_region_requires :: "data_tables \<Rightarrow> fault option" where
  "check_item_names_in_region_requires t =
     each (\<lambda>(name, region). case rr_requires region of
             None \<Rightarrow> None
           | Some r \<Rightarrow> check_names_in_requires (dt_items t)
               ''Item %s is required by region %s but is misspelled or does not exist.'' name r) (dt_regions t)"

definition check_region_names_in_locations :: "data_tables \<Rightarrow> fault option" where
  "check_region_names_in_locations t =
     each (\<lambda>l. if ld_region l \<in> {''Menu'', ''SMO''} \<or> ld_region l \<in> set (dict_keys (dt_regions t)) then None
               else Some (Invalid ''Region %s is set for location %s, but the region is misspelled or does not exist.''
                 [JStr (ld_region l), JStr (ld_name l)])) (dt_locations t)"

section \<open>Items that should be progression\<close>

definition mentions :: "string \<Rightarrow> requires \<Rightarrow> bool" where
  "mentions name r \<longleftrightarrow> has_sub (item_text name) (dumps_spaced (requires_json r))"

definition check_items_that_should_be_required :: "data_tables \<Rightarrow> fault option" where
  "check_items_that_should_be_required t =
     each (\<lambda>it.
       if id_progression it \<or> id_progression_skip_balancing it then None
       else (case each (\<lambda>l. case ld_requires l of
                      None \<Rightarrow> None
                    | Some r \<Rightarrow> if mentions (id_name it) r
                        then Some (Invalid ''Item %s is required by location %s, but the item is not marked as progression.''
                          [JStr (id_name it), JStr (ld_name l)])
                        else None) (dt_locations t) of
               Some e \<Rightarrow> Some e
             | None \<Rightarrow> each (\<lambda>(name, region). case rr_requires region of
                      None \<Rightarrow> None
                    | Some r \<Rightarrow> if mentions (id_name it) r
                        then Some (Invalid ''Item %s is required by region %s, but the item is not marked as progression.''
                          [JStr (id_name it), JStr name])
                        else None) (dt_regions t))) (dt_items t)"

section \<open>Values\<close>

text \<open>\<open>re.findall(r'\{ItemValue\(([^:]*)\:([^)]+)\)\}', s)\<close>.\<close>

definition match_item_value :: "string \<Rightarrow> ((string \<times> string) \<times> string) option" where
  "match_item_value s =
     (let rest = drop 11 s;
          value = takeWhile (\<lambda>c. c \<noteq> CHR '':'') rest; after_value = dropWhile (\<lambda>c. c \<noteq> CHR '':'') rest;
          amount = takeWhile (\<lambda>c. c \<noteq> CHR '')'') (tl after_value); after_amount = dropWhile (\<lambda>c. c \<noteq> CHR '')'') (tl after_value)
      in if starts_with ''{ItemValue('' s \<and> after_value \<noteq> [] \<and> amount \<noteq> [] \<and> starts_with '')}'' after_amount
         then Some ((value, amount), drop 2 after_amount) else None)"

lemma match_item_value_shorter: "match_item_value s = Some (x, r) \<Longrightarrow> length r < length s"
proof -
  assume "match_item_value s = Some (x, r)"
  then have s: "starts_with ''{ItemValue('' s" and r: "r = drop 2 (dropWhile (\<lambda>c. c \<noteq> CHR '')'') (tl (dropWhile (\<lambda>c. c \<noteq> CHR '':'') (drop 11 s))))"
    by (auto simp: match_item_value_def Let_def split: if_splits)
  have "length r \<le> length (tl (dropWhile (\<lambda>c. c \<noteq> CHR '':'') (drop 11 s)))"
    unfolding r length_drop using length_dropWhile_le le_trans diff_le_self by blast
  also have "\<dots> \<le> length (drop 11 s)" using length_dropWhile_le [of "\<lambda>c. c \<noteq> CHR '':''" "drop 11 s"] by simp
  also have "\<dots> < length s" using s by (auto elim: starts_withE)
  finally show ?thesis .
qed

function item_value_calls :: "string \<Rightarrow> (string \<times> string) list" where
  "item_value_calls s =
     (case s of
        [] \<Rightarrow> []
      | _ # t \<Rightarrow> (case match_item_value s of Some (call, r) \<Rightarrow> call # item_value_calls r | None \<Rightarrow> item_value_calls t))"
  by pat_completeness auto
termination by (relation "measure length") (auto dest: match_item_value_shorter)

declare item_value_calls.simps [simp del]

definition value_key :: "string \<Rightarrow> string" where "value_key s = strip (lower s)"

text \<open>Absent and zero are the same to \<open>if not d.get(key)\<close>.\<close>

definition request_value :: "string \<Rightarrow> int \<Rightarrow> (string, int) dict \<Rightarrow> (string, int) dict" where
  "request_value v c d = dict_set v (if dict_get_or d v 0 = 0 then c else max (dict_get_or d v 0) c) d"

fun request_calls :: "(string \<times> string) list \<Rightarrow> (string, int) dict \<Rightarrow> exn + (string, int) dict" where
  "request_calls [] d = Inr d"
| "request_calls ((v, c) # calls) d =
     (case py_int c of None \<Rightarrow> Inl ValueError | Some c \<Rightarrow> request_calls calls (request_value (value_key v) c d))"

definition check_requires_for_item_value :: "json \<Rightarrow> (string, int) dict \<Rightarrow> exn + (string, int) dict" where
  "check_requires_for_item_value req d =
     (case req of
        JStr s \<Rightarrow> if has_sub ''ItemValue'' s then request_calls (item_value_calls s) d else Inr d
      | _ \<Rightarrow> Inr d)"

fun request_all :: "json list \<Rightarrow> (string, int) dict \<Rightarrow> exn + (string, int) dict" where
  "request_all [] d = Inr d"
| "request_all (r # rs) d = (case check_requires_for_item_value r d of Inl e \<Rightarrow> Inl e | Inr d \<Rightarrow> request_all rs d)"

text \<open>A value's total is looked up under the normalised key but kept under the key as written.\<close>

fun add_values :: "int \<Rightarrow> (string, int) dict \<Rightarrow> (string, int) dict \<Rightarrow> exn + (string, int) dict" where
  "add_values n [] d = Inr d"
| "add_values n ((key, c) # kvs) d =
     (let d = (if dict_get_or d (value_key key) 0 = 0 then dict_set key 0 d else d)
      in case dict_get d key of None \<Rightarrow> Inl KeyError | Some a \<Rightarrow> add_values n kvs (dict_set key (a + c * n) d))"

fun available_values :: "valued_item list \<Rightarrow> (string, int) dict \<Rightarrow> exn + (string, int) dict" where
  "available_values [] d = Inr d"
| "available_values (it # items) d =
     (if id_progression it \<or> id_progression_skip_balancing it
      then (case add_values (id_count it) (or_default (vi_value it) []) d of Inl e \<Rightarrow> Inl e | Inr d \<Rightarrow> available_values items d)
      else available_values items d)"

definition missing_values :: "(string, int) dict \<Rightarrow> (string, int) dict \<Rightarrow> json list" where
  "missing_values available requested =
     map (\<lambda>(v, c). JList [JStr v, JInt (dict_get_or available v 0), JInt c])
       (filter (\<lambda>(v, c). dict_get_or available v 0 < c) requested)"

definition check_if_enough_items_for_value :: "data_tables \<Rightarrow> fault option" where
  "check_if_enough_items_for_value t =
     on_value (request_all (map (JStr \<circ> dumps_spaced \<circ> requires_json)
         (List.map_filter ld_requires (dt_locations t) @ List.map_filter (rr_requires \<circ> snd) (dt_regions t))) [])
       (\<lambda>requested.
          if requested = [] then None
          else on_value (available_values (dt_items t) [])
            (\<lambda>available.
               let errors = missing_values available requested
               in if errors = [] then None
                  else Some (Invalid ''There are not enough progression items for the following values: '' errors)))"

section \<open>Regions and duplicate names\<close>

definition check_regions_connecting_to_other_regions :: "data_tables \<Rightarrow> fault option" where
  "check_regions_connecting_to_other_regions t =
     each (\<lambda>(name, region).
       each (\<lambda>c. if c \<in> set (dict_keys (dt_regions t)) then None
                 else Some (Invalid ''Region %s connects to a region %s, which is misspelled or does not exist.'' [JStr name, JStr c]))
         (or_default (rr_connects_to region) [])) (dt_regions t)"

definition check_unique :: "string \<Rightarrow> string list \<Rightarrow> fault option" where
  "check_unique message names =
     each (\<lambda>n. if 1 < count_list names n then Some (Invalid message [JStr n]) else None) names"

definition check_for_duplicate_item_names :: "data_tables \<Rightarrow> fault option" where
  "check_for_duplicate_item_names t = check_unique ''Item %s is defined more than once.'' (map id_name (dt_items t))"

definition check_for_duplicate_location_names :: "data_tables \<Rightarrow> fault option" where
  "check_for_duplicate_location_names t = check_unique ''Location %s is defined more than once.'' (map ld_name (dt_locations t))"

definition check_for_duplicate_region_names :: "data_tables \<Rightarrow> fault option" where
  "check_for_duplicate_region_names t = check_unique ''Region %s is defined more than once.'' (dict_keys (dt_regions t))"

definition nonstarting_regions :: "(string, region_entry) dict \<Rightarrow> string list" where
  "nonstarting_regions regions = map fst (filter (\<lambda>(_, r). re_has_starting r \<and> \<not> rr_starting r) regions)"

definition check_for_nonstarting_regions_that_are_unreachable :: "data_tables \<Rightarrow> fault option" where
  "check_for_nonstarting_regions_that_are_unreachable t =
     each (\<lambda>n. if list_ex (\<lambda>(_, r). n \<in> set (or_default (rr_connects_to r) [])) (dt_regions t) then None
               else Some (Invalid
                 (''The region '' @ [CHR 39] @ ''%s'' @ [CHR 39] @ '' is set as a non-starting region, but has no regions that connect to it. It will be inaccessible.'')
                 [JStr n])) (nonstarting_regions (dt_regions t))"

section \<open>Starting and placed items\<close>

definition some_in_category :: "'a item_data_scheme list \<Rightarrow> string \<Rightarrow> bool" where
  "some_in_category items c \<longleftrightarrow> list_ex (\<lambda>it. c \<in> set (or_default (id_category it) [])) items"

text \<open>A list of names, each of which must pass: no string but a name's is equal to it.\<close>

definition each_name :: "(string \<Rightarrow> bool) \<Rightarrow> string \<Rightarrow> json \<Rightarrow> fault option" where
  "each_name known message names =
     on_value (json_iter names)
       (each (\<lambda>n. if (case n of JStr s \<Rightarrow> known s | _ \<Rightarrow> False) then None else Some (Invalid message [n])))"

definition check_starting_names :: "valued_item list \<Rightarrow> json \<Rightarrow> fault option" where
  "check_starting_names items block =
     on_value (json_has ''items'' block) (\<lambda>has_items.
     on_value (json_has ''item_categories'' block) (\<lambda>has_categories.
       if has_items \<and> has_categories
       then Some (Invalid (''One of your starting item definitions has both '' @ [CHR 39] @ ''items'' @ [CHR 39] @ '' and '' @ [CHR 39] @
              ''item_categories'' @ [CHR 39] @ '' defined, but only one will be applied.'') [])
       else (case (if has_items
                   then on_value (json_item block ''items'')
                     (each_name (known_item items) ''Item %s is set as a starting item, but is misspelled or is not defined.'')
                   else None) of
               Some e \<Rightarrow> Some e
             | None \<Rightarrow>
                 if has_categories
                 then on_value (json_item block ''item_categories'')
                   (each_name (some_in_category items) ''Item category %s is set as a starting item category, but is misspelled or is not defined on any items.'')
                 else None)))"

definition check_starting_items_for_valid_items_and_categories :: "data_tables \<Rightarrow> fault option" where
  "check_starting_items_for_valid_items_and_categories t =
     (case dict_get (dt_game t) ''starting_items'' of
        None \<Rightarrow> None
      | Some blocks \<Rightarrow> on_value (json_iter blocks) (each (check_starting_names (dt_items t))))"

definition starting_keys :: "string list" where
  "starting_keys = [''items'', ''item_categories'', ''random'', ''if_previous_item'', ''_comment'']"

definition check_starting_syntax :: "json \<Rightarrow> fault option" where
  "check_starting_syntax block =
     (case block of
        JObj (kv # kvs) \<Rightarrow>
          (let invalid_keys = filter (\<lambda>k. k \<notin> set starting_keys) (dict_keys (kv # kvs))
           in if invalid_keys = [] then None
              else Some (Invalid (''One of your starting item definitions is invalid and may have unexpected results.'' @ [CHR 10] @
                ''   The invalid starting item definition specifies the following incorrect keys: {}'') (map JStr invalid_keys)))
      | _ \<Rightarrow> Some (Invalid (''One of your starting item definitions is not a valid dictionary.'' @ [CHR 10] @
                ''   Each definition must be inside {}.'') []))"

definition check_starting_items_for_bad_syntax :: "data_tables \<Rightarrow> fault option" where
  "check_starting_items_for_bad_syntax t =
     (let starting_items = dict_get_or (dt_game t) ''starting_items'' (JBool False)
      in if json_truthy starting_items then on_value (json_iter starting_items) (each check_starting_syntax) else None)"

fun is_list :: "json \<Rightarrow> bool" where
  "is_list (JList xs) = True"
| "is_list j = False"

definition placed :: "json option \<Rightarrow> bool" where
  "placed j \<longleftrightarrow> json_truthy (or_default j (JBool False))"

definition check_placed_items_and_categories_for_bad_syntax :: "data_tables \<Rightarrow> fault option" where
  "check_placed_items_and_categories_for_bad_syntax t =
     each (\<lambda>l.
       if placed (pl_place_item l) \<and> \<not> is_list (the (pl_place_item l))
       then Some (Invalid (''One of your location has an incorrectly formatted place_item.'' @ [CHR 10] @
              ''   The items, even just one, must be inside [].'') [])
       else if placed (pl_place_item_category l) \<and> \<not> is_list (the (pl_place_item_category l))
       then Some (Invalid (''One of your location has an incorrectly formatted place_item_category.'' @ [CHR 10] @
              ''   The categories, even just one, must be inside [].'') [])
       else None) (dt_locations t)"

definition check_placed_items_for_valid_items :: "data_tables \<Rightarrow> fault option" where
  "check_placed_items_for_valid_items t =
     each (\<lambda>l. if placed (pl_place_item l) \<and> is_list (the (pl_place_item l))
               then each_name (known_item (dt_items t))
                 ''Item %s is placed (using place_item) on a location, but is misspelled or is not defined.'' (the (pl_place_item l))
               else None) (dt_locations t)"

definition check_placed_item_categories_for_valid_item_categories :: "data_tables \<Rightarrow> fault option" where
  "check_placed_item_categories_for_valid_item_categories t =
     each (\<lambda>l. if placed (pl_place_item_category l) \<and> is_list (the (pl_place_item_category l))
               then each_name (some_in_category (dt_items t))
                 ''Item category %s is placed (using place_item_category) on a location, but is misspelled or is not defined.''
                 (the (pl_place_item_category l))
               else None) (dt_locations t)"

section \<open>The runs of checks\<close>

definition check_for_game_being_invalid_json :: "data_tables \<Rightarrow> fault option" where
  "check_for_game_being_invalid_json t =
     (if dt_game t = [] then Some (Invalid ''No game-level settings were found; the game_table constant in Data.py is empty.'' []) else None)"

definition check_for_items_being_invalid_json :: "data_tables \<Rightarrow> fault option" where
  "check_for_items_being_invalid_json t =
     (if dt_items t = [] then Some (Invalid ''No items were found in your items.json. This likely indicates that your JSON is incorrectly formatted. Use https://jsonlint.com/ to validate your JSON files.'' []) else None)"

definition check_for_locations_being_invalid_json :: "data_tables \<Rightarrow> fault option" where
  "check_for_locations_being_invalid_json t =
     (if dt_locations t = [] then Some (Invalid ''No locations were found in your locations.json. This likely indicates that your JSON is incorrectly formatted. Use https://jsonlint.com/ to validate your JSON files.'' []) else None)"

text \<open>\<open>except ValidationError as e: validation_errors.append(e)\<close>; anything else a check raises goes on.\<close>

fun run_checks :: "fault option list \<Rightarrow> exn + (string \<times> json list) list" where
  "run_checks [] = Inr []"
| "run_checks (None # cs) = run_checks cs"
| "run_checks (Some (Crash e) # cs) = Inl e"
| "run_checks (Some (Invalid m vs) # cs) = map_sum id ((#) (m, vs)) (run_checks cs)"

definition generation_checks :: "(data_tables \<Rightarrow> fault option) list" where
  "generation_checks =
     [check_item_names_in_location_requires, check_item_names_in_region_requires, check_region_names_in_locations,
      check_items_that_should_be_required, check_if_enough_items_for_value, check_regions_connecting_to_other_regions,
      check_for_duplicate_item_names, check_for_duplicate_location_names, check_for_duplicate_region_names,
      check_starting_items_for_bad_syntax, check_starting_items_for_valid_items_and_categories,
      check_placed_items_and_categories_for_bad_syntax, check_placed_items_for_valid_items,
      check_placed_item_categories_for_valid_item_categories, check_for_nonstarting_regions_that_are_unreachable]"

text \<open>\<open>Inr []\<close>: generation goes on; otherwise the errors it reports, or the exception that escaped.\<close>

definition run_generation_data_validation :: "data_tables \<Rightarrow> exn + (string \<times> json list) list" where
  "run_generation_data_validation t = run_checks (map (\<lambda>check. check t) generation_checks)"

section \<open>Before the fill\<close>

text \<open>\<open>get_items_with_value\<close> of \<open>Helpers.py\<close>, forced: the values of the player's items whose names are in the
  group \<open>Items.py\<close> makes of the rows with that value. An event is an item without an id.\<close>

record player_item = pool_item +
  wi_event :: bool

definition value_group :: "valued_item list \<Rightarrow> string \<Rightarrow> string list" where
  "value_group rows v =
     dict_get_or (item_name_groups (map item_data.truncate rows)) (''has_'' @ v @ ''_value'') [] @
     map id_name (filter (\<lambda>row. list_ex (\<lambda>k. value_key k = v) (dict_keys (or_default (vi_value row) []))) rows)"

definition last_row :: "valued_item list \<Rightarrow> string \<Rightarrow> valued_item option" where
  "last_row rows n = dict_get (rev (map (\<lambda>row. (id_name row, row)) rows)) n"

definition item_value_of :: "valued_item list \<Rightarrow> string \<Rightarrow> string \<Rightarrow> exn + int" where
  "item_value_of rows v n =
     (case last_row rows n of
        Some row \<Rightarrow> (case vi_value row of Some vs \<Rightarrow> Inr (dict_get_or vs v 0) | None \<Rightarrow> Inl KeyError)
      | None \<Rightarrow> Inl KeyError)"

fun collect_values :: "(string \<Rightarrow> exn + int) \<Rightarrow> string list \<Rightarrow> (string, int) dict \<Rightarrow> exn + (string, int) dict" where
  "collect_values f [] d = Inr d"
| "collect_values f (n # ns) d = (case f n of Inl e \<Rightarrow> Inl e | Inr c \<Rightarrow> collect_values f ns (dict_set n c d))"

definition get_items_with_value :: "valued_item list \<Rightarrow> player_item list \<Rightarrow> string \<Rightarrow> exn + (string, int) dict" where
  "get_items_with_value rows player_items value =
     (if player_items = [] then Inr [(value, -1)]
      else let v = value_key value
           in collect_values (item_value_of rows v)
                (map item_name (filter (\<lambda>i. \<not> wi_event i \<and> item_name i \<in> set (value_group rows v)) player_items)) [])"

definition existing_items :: "player_item list \<Rightarrow> player_item list" where
  "existing_items player_items =
     filter (\<lambda>i. \<not> wi_event i \<and> item_class i = class_progression \<or> item_class i = class_progression_skip_balancing) player_items"

definition found_count :: "(string, int) dict \<Rightarrow> player_item list \<Rightarrow> int" where
  "found_count items_value items =
     (\<Sum>i\<leftarrow>items. case dict_get items_value (item_name i) of None \<Rightarrow> 0 | Some c \<Rightarrow> c)"

fun missing_found :: "valued_item list \<Rightarrow> player_item list \<Rightarrow> (string, int) dict \<Rightarrow> exn + json list" where
  "missing_found rows items [] = Inr []"
| "missing_found rows items ((v, c) # requested) =
     (case get_items_with_value rows items v of
        Inl e \<Rightarrow> Inl e
      | Inr items_value \<Rightarrow>
          let found = found_count items_value (existing_items items)
          in map_sum id (\<lambda>es. if found < c then JList [JStr v, JInt found, JInt c] # es else es) (missing_found rows items requested))"

text \<open>The requirements of a region and of its locations: a region's are serialised, a location's are not.\<close>

definition asked_in_region :: "data_tables \<Rightarrow> 'st region \<Rightarrow> json list" where
  "asked_in_region t r =
     (case dict_get (dt_regions t) (rg_name r) of
        None \<Rightarrow> []
      | Some row \<Rightarrow> (case rr_requires row of
                       Some q \<Rightarrow> if json_truthy (requires_json q) then [JStr (dumps_spaced (requires_json q))] else []
                     | None \<Rightarrow> [])) @
     concat (map (\<lambda>l. case dict_get (rev (map (\<lambda>row. (ld_name row, row)) (dt_locations t))) (lo_name l) of
                None \<Rightarrow> []
              | Some row \<Rightarrow> (case ld_requires row of
                              Some q \<Rightarrow> if json_truthy (requires_json q) then [requires_json q] else []
                            | None \<Rightarrow> [])) (rg_locations r))"

definition pre_fill_check_if_enough_items_for_value :: "data_tables \<Rightarrow> 'st region list \<Rightarrow> player_item list \<Rightarrow> fault option" where
  "pre_fill_check_if_enough_items_for_value t regions items =
     on_value (request_all (concat (map (asked_in_region t) regions)) []) (\<lambda>requested.
     on_value (missing_found (dt_items t) items requested) (\<lambda>errors.
       if errors = [] then None
       else Some (Invalid ''There are not enough progression items for the following value(s): '' errors)))"

definition run_pre_fill_data_validation :: "data_tables \<Rightarrow> 'st region list \<Rightarrow> player_item list \<Rightarrow> exn + (string \<times> json list) list" where
  "run_pre_fill_data_validation t regions items = run_checks [pre_fill_check_if_enough_items_for_value t regions items]"

end
