(* ===== verification/Data_Safety.thy ===== *)
theory Data_Safety
  imports Data_Checks
begin

text \<open>
  What the checks of \<open>DataValidation.py\<close> are worth to the code that runs after them: tables that pass
  build a world, names and ids are inverse, and a pool that passes covers every value a location asks for.
\<close>

section \<open>Passing\<close>

lemma run_checks_passes: "run_checks cs = Inr [] \<longleftrightarrow> (\<forall>c \<in> set cs. c = None)"
proof (induction cs)
  case (Cons c cs)
  show ?case
  proof (cases c)
    case (Some f)
    then show ?thesis by (cases f; cases "run_checks cs") auto
  qed (simp add: Cons)
qed simp

lemma check_unique_distinct: "check_unique m ns = None \<Longrightarrow> distinct ns"
proof -
  assume "check_unique m ns = None"
  then have "\<forall>n \<in> set ns. count_list ns n \<le> 1" by (auto simp: check_unique_def each_None split: if_splits)
  then show "distinct ns"
  proof (induction ns)
    case (Cons n ns)
    then have "count_list ns n = 0" by auto
    then have "n \<notin> set ns" by (simp add: count_list_0_iff)
    moreover have "\<forall>k \<in> set ns. count_list ns k \<le> 1" using Cons.prems by (metis count_list.simps(2) le_add1 le_trans list.set_intros(2))
    ultimately show ?case using Cons.IH by simp
  qed simp
qed

lemma validatedE:
  assumes "run_generation_data_validation t = Inr []"
  obtains "distinct (map id_name (dt_items t))" "distinct (map ld_name (dt_locations t))"
    "\<And>l. l \<in> set (dt_locations t) \<Longrightarrow> ld_region l \<in> {''Menu'', ''SMO''} \<union> set (dict_keys (dt_regions t))"
    "\<And>n r c. (n, r) \<in> set (dt_regions t) \<Longrightarrow> c \<in> set (or_default (rr_connects_to r) []) \<Longrightarrow> c \<in> set (dict_keys (dt_regions t))"
proof
  have none: "c \<in> set generation_checks \<Longrightarrow> c t = None" for c
    using assms by (auto simp: run_generation_data_validation_def run_checks_passes)
  have "check_for_duplicate_item_names t = None" "check_for_duplicate_location_names t = None"
    and regions: "check_region_names_in_locations t = None" "check_regions_connecting_to_other_regions t = None"
    by (rule none; simp add: generation_checks_def)+
  then show "distinct (map id_name (dt_items t))" "distinct (map ld_name (dt_locations t))"
    by (auto simp: check_for_duplicate_item_names_def check_for_duplicate_location_names_def intro: check_unique_distinct)
  show "l \<in> set (dt_locations t) \<Longrightarrow> ld_region l \<in> {''Menu'', ''SMO''} \<union> set (dict_keys (dt_regions t))" for l
    using regions(1) by (fastforce simp: check_region_names_in_locations_def each_None split: if_splits)
  show "(n, r) \<in> set (dt_regions t) \<Longrightarrow> c \<in> set (or_default (rr_connects_to r) []) \<Longrightarrow> c \<in> set (dict_keys (dt_regions t))" for n r c
    using regions(2) by (fastforce simp: check_regions_connecting_to_other_regions_def each_None split: if_splits)
qed

section \<open>The tables as the world reads them\<close>

definition region_rows :: "data_tables \<Rightarrow> (string, region_row) dict" where
  "region_rows t = map (\<lambda>(n, r). (n, region_row.truncate r)) (dt_regions t)"

definition location_rows :: "data_tables \<Rightarrow> location_data list" where
  "location_rows t = map location_data.truncate (dt_locations t)"

definition rows_of :: "data_tables \<Rightarrow> item_data list" where
  "rows_of t = map item_data.truncate (dt_items t)"

lemma truncate_fields [simp]:
  "ld_name (location_data.truncate l) = ld_name l" "ld_region (location_data.truncate l) = ld_region l"
  "rr_connects_to (region_row.truncate r) = rr_connects_to r" "id_name (item_data.truncate it) = id_name it"
  by (simp_all add: location_data.truncate_def region_row.truncate_def item_data.truncate_def)

lemma keys_region_rows [simp]: "dict_keys (region_rows t) = dict_keys (dt_regions t)"
  by (simp add: region_rows_def comp_def split_def)

lemma region_map_links:
  assumes "\<And>n r c. (n, r) \<in> set table \<Longrightarrow> c \<in> set (or_default (rr_connects_to r) []) \<Longrightarrow> c \<in> set (dict_keys table)"
    "(n, r) \<in> set (region_map table)" "c \<in> set (or_default (rr_connects_to r) [])"
  shows "c \<in> set (dict_keys table)"
proof -
  let ?starting = "map fst (filter (\<lambda>(_, row). rr_starting row) table)"
  have "(n, r) \<in> set table \<or> or_default (rr_connects_to r) [] \<in> {dict_keys table, ?starting}"
    using in_dict_set [of "(n, r)"] assms(2) by (fastforce simp: region_map_def Let_def)
  then show ?thesis using assms(1,3) by auto
qed

lemma keys_region_map: "set (dict_keys (region_map table)) = insert root_region (set (dict_keys table))"
  unfolding region_map_def Let_def set_map by (rule set_keys_set)

lemma fst_region_map [simp]: "fst ` set (region_map (region_rows t)) = insert root_region (fst ` set (dt_regions t))"
  using keys_region_map [of "region_rows t"] keys_region_rows [of t] by (metis set_map)

lemma dict_ok_region_map: "dict_ok table \<Longrightarrow> dict_ok (region_map table)"
  by (simp add: region_map_def Let_def distinct_update)

text \<open>The locations of the regions that are created.\<close>

lemma location_names_create:
  "create_regions enabled regions locations = Inr rs \<Longrightarrow>
   location_names rs = concat (map (\<lambda>n. region_locations enabled locations n) (dict_keys regions))"
  by (auto simp: create_regions_def create_region_def location_names_def comp_def split_def map_concat split: if_splits)

lemma distinct_region_locations:
  assumes "distinct (map ld_name locations)" "distinct ns"
  shows "distinct (concat (map (region_locations enabled locations) ns))"
  using assms(2)
proof (induction ns)
  case (Cons n ns)
  have "distinct (region_locations enabled locations n)"
    using assms(1) by (simp add: region_locations_def distinct_map_filter)
  moreover have "set (region_locations enabled locations n) \<inter> set (region_locations enabled locations m) = {}" if "m \<in> set ns" for m
    using that Cons.prems assms(1) by (fastforce simp: region_locations_def distinct_map dest: inj_onD)
  ultimately show ?case using Cons by auto
qed simp


section \<open>Names and ids\<close>

lemma dict_of_pairs:
  "distinct (map snd ps) \<Longrightarrow> foldl (\<lambda>d (i, n). dict_set n i d) d ps = foldl (\<lambda>d (n, i). dict_set n i d) d (map (\<lambda>(i, n). (n, i)) ps)"
  by (induction ps arbitrary: d) auto

lemma foldl_dict_set:
  "distinct (map fst ps) \<Longrightarrow> fst ` set ps \<inter> fst ` set d = {} \<Longrightarrow> foldl (\<lambda>d (n, i). dict_set n i d) d ps = d @ ps"
proof (induction ps arbitrary: d)
  case (Cons p ps)
  then show ?case by (cases p) (auto simp: dict_set_new)
qed simp

lemma id_pairs:
  "map fst (item_id_to_name rows) = map (\<lambda>i. Some (starting_index game_seed creator_seed + i)) [0..<length rows] @ [None]"
  "map snd (item_id_to_name rows) = map id_name rows @ [victory_item]"
proof -
  have "map fst (item_id_to_name rows) = map (\<lambda>i. Some (starting_index game_seed creator_seed + i)) (map fst (enumerate 0 rows)) @ [None]"
    by (simp add: item_id_to_name_def comp_def split_def del: map_fst_enumerate)
  then show "map fst (item_id_to_name rows) = map (\<lambda>i. Some (starting_index game_seed creator_seed + i)) [0..<length rows] @ [None]" by simp
qed (simp add: item_names)

lemma item_name_to_id_swap:
  assumes "distinct (map id_name rows)" "victory_item \<notin> id_name ` set rows"
  shows "item_name_to_id rows = map (\<lambda>(i, n). (n, i)) (item_id_to_name rows)"
proof -
  have d: "distinct (map snd (item_id_to_name rows))" using assms by (simp add: id_pairs(2))
  then have "distinct (map fst (map (\<lambda>(i, n). (n, i)) (item_id_to_name rows)))" by (simp add: comp_def split_def)
  from foldl_dict_set [OF this, of "[]"] dict_of_pairs [OF d] show ?thesis by (simp add: item_name_to_id_def)
qed

lemma item_rows_swap:
  assumes "distinct (map id_name rows)"
  shows "item_name_to_item rows = map (\<lambda>row. (id_name row, row)) rows"
proof -
  have e: "foldl (\<lambda>d row. dict_set (id_name row) row d) d rs = foldl (\<lambda>d (n, i). dict_set n i d) d (map (\<lambda>row. (id_name row, row)) rs)" for d rs
    by (induction rs arbitrary: d) auto
  have "distinct (map fst (map (\<lambda>row. (id_name row, row)) rows))" using assms by (simp add: comp_def)
  from foldl_dict_set [OF this, of "[]"] show ?thesis by (simp add: item_name_to_item_def e)
qed

text \<open>C33 The id tables are inverse: when the checks pass and no item is called \<open>__Victory__\<close>, an id has a
  name exactly when the name has that id, and looking a name up gives the one row with that name.\<close>

theorem item_ids_inverse:
  assumes "run_generation_data_validation t = Inr []" "victory_item \<notin> id_name ` set (rows_of t)"
  shows "(dict_get (item_id_to_name (rows_of t)) i = Some n \<longleftrightarrow> dict_get (item_name_to_id (rows_of t)) n = Some i) \<and>
    (dict_get (item_name_to_item (rows_of t)) n = Some row \<longleftrightarrow> row \<in> set (rows_of t) \<and> id_name row = n)"
proof -
  obtain "distinct (map id_name (dt_items t))" using assms(1) by (rule validatedE) (rule that)
  then have d: "distinct (map id_name (rows_of t))" by (simp add: rows_of_def comp_def)
  let ?ids = "item_id_to_name (rows_of t)"
  have ids: "distinct (map fst ?ids)" by (auto simp: id_pairs(1) distinct_map inj_on_def)
  have names: "distinct (map fst (map (\<lambda>(i, n). (n, i)) ?ids))"
    using d assms(2) by (simp add: comp_def split_def id_pairs(2))
  have "dict_get ?ids i = Some n \<longleftrightarrow> (i, n) \<in> set ?ids" using ids by (rule map_of_eq_Some_iff)
  moreover have "dict_get (item_name_to_id (rows_of t)) n = Some i \<longleftrightarrow> (n, i) \<in> set (map (\<lambda>(i, n). (n, i)) ?ids)"
    unfolding item_name_to_id_swap [OF d assms(2)] using names by (rule map_of_eq_Some_iff)
  moreover have "dict_get (item_name_to_item (rows_of t)) n = Some row \<longleftrightarrow> (n, row) \<in> set (map (\<lambda>row. (id_name row, row)) (rows_of t))"
    unfolding item_rows_swap [OF d] by (rule map_of_eq_Some_iff) (simp add: comp_def d)
  ultimately show ?thesis by auto
qed

section \<open>Values before the fill\<close>

lemma lower_space [simp]: "is_space (lower_char c) = is_space c"
  by (auto simp: is_space_def lower_char_def)

lemma lower_lower [simp]: "lower (lower s) = lower s"
  by (simp add: lower_def) (auto simp: lower_char_def)

lemma strip_lower: "strip (lower s) = lower (strip s)"
  by (simp add: strip_by_def lower_def dropWhile_map rev_map comp_def)

lemma strip_strip: "strip_by p (strip_by p s) = strip_by p s"
proof -
  let ?t = "dropWhile p s" let ?u = "rev (dropWhile p (rev ?t))"
  have "?t = ?u @ rev (takeWhile p (rev ?t))" by (metis rev_append rev_rev_ident takeWhile_dropWhile_id)
  moreover have "?t = [] \<or> \<not> p (hd ?t)" using hd_dropWhile by blast
  ultimately have "?u = [] \<or> \<not> p (hd ?u)" by (metis append_is_Nil_conv hd_append2)
  then have "dropWhile p ?u = ?u" by (metis dropWhile_eq_self_iff)
  then show ?thesis unfolding strip_by_def by simp
qed

lemma value_key_twice [simp]: "value_key (value_key s) = value_key s"
  unfolding value_key_def by (simp add: strip_lower strip_strip)

lemma has_sub_later: "has_sub p t \<Longrightarrow> has_sub p (u @ t)"
  by (induction u) auto

lemma item_value_calls_sub: "x \<in> set (item_value_calls s) \<Longrightarrow> has_sub ''ItemValue'' s"
proof (induction s rule: item_value_calls.induct)
  case (1 s)
  show ?case
  proof (cases s)
    case (Cons c t)
    show ?thesis
    proof (cases "match_item_value s")
      case None
      then have "x \<in> set (item_value_calls t)" using 1(3) Cons by (subst (asm) item_value_calls.simps) simp
      then show ?thesis using 1(1) [OF Cons None] Cons by simp
    next
      case (Some y)
      then have "starts_with ''{ItemValue('' s" by (auto simp: match_item_value_def Let_def split: if_splits)
      then obtain u where "s = ''{ItemValue('' @ u" by (rule starts_withE)
      then show ?thesis by (simp add: starts_with_def)
    qed
  qed (use 1 in \<open>simp add: item_value_calls.simps\<close>)
qed

text \<open>A positive request is never lowered.\<close>

lemma request_calls_keeps:
  "request_calls calls d = Inr d' \<Longrightarrow> dict_get d v = Some a \<Longrightarrow> 0 < a \<Longrightarrow> \<exists>b. dict_get d' v = Some b \<and> a \<le> b"
proof (induction calls d arbitrary: a rule: request_calls.induct)
  case (2 w c calls d)
  then obtain n where n: "py_int c = Some n" "request_calls calls (request_value (value_key w) n d) = Inr d'" by (auto split: option.splits)
  obtain b where "dict_get (request_value (value_key w) n d) v = Some b" "a \<le> b"
    using 2(3,4) by (cases "v = value_key w") (auto simp: request_value_def dict_get_or_def)
  with 2(1) [OF n this(1)] 2(4) show ?case by fastforce
qed simp

lemma request_calls_asks:
  assumes "request_calls calls d = Inr d'" "(v, c) \<in> set calls" "py_int c = Some n" "0 < n"
  shows "\<exists>b. dict_get d' (value_key v) = Some b \<and> n \<le> b"
  using assms
proof (induction calls d rule: request_calls.induct)
  case (2 w e calls d)
  from 2(2) obtain m where m: "py_int e = Some m" "request_calls calls (request_value (value_key w) m d) = Inr d'" by (auto split: option.splits)
  show ?case
  proof (cases "(v, c) = (w, e)")
    case True
    then have "dict_get (request_value (value_key v) n d) (value_key v) = Some (if dict_get_or d (value_key v) 0 = 0 then n else max (dict_get_or d (value_key v) 0) n)"
      using m 2(4) by (simp add: request_value_def)
    then obtain a where "dict_get (request_value (value_key v) n d) (value_key v) = Some a" "n \<le> a" by auto
    moreover have "request_calls calls (request_value (value_key v) n d) = Inr d'" using True m 2(4) by simp
    ultimately show ?thesis using request_calls_keeps 2(5) by fastforce
  qed (use 2 m in auto)
qed simp

lemma request_all_keeps:
  "request_all rs d = Inr d' \<Longrightarrow> dict_get d v = Some a \<Longrightarrow> 0 < a \<Longrightarrow> \<exists>b. dict_get d' v = Some b \<and> a \<le> b"
proof (induction rs d arbitrary: a rule: request_all.induct)
  case (2 r rs d)
  then obtain e where e: "check_requires_for_item_value r d = Inr e" "request_all rs e = Inr d'" by (auto split: sum.splits)
  then obtain b where "dict_get e v = Some b" "a \<le> b"
    using request_calls_keeps 2(3,4) by (fastforce simp: check_requires_for_item_value_def split: json.splits if_splits)
  with 2(1) [OF e(1,2)] 2(4) show ?case by fastforce
qed simp

lemma request_all_asks:
  assumes "request_all rs d = Inr d'" "JStr s \<in> set rs" "(v, c) \<in> set (item_value_calls s)" "py_int c = Some n" "0 < n"
  shows "\<exists>b. dict_get d' (value_key v) = Some b \<and> n \<le> b"
  using assms(1,2)
proof (induction rs d rule: request_all.induct)
  case (2 r rs d)
  then obtain e where e: "check_requires_for_item_value r d = Inr e" "request_all rs e = Inr d'" by (auto split: sum.splits)
  show ?case
  proof (cases "r = JStr s")
    case True
    then have "request_calls (item_value_calls s) d = Inr e"
      using e(1) item_value_calls_sub [OF assms(3)] by (simp add: check_requires_for_item_value_def)
    from request_calls_asks [OF this assms(3-5)] obtain b where "dict_get e (value_key v) = Some b" "n \<le> b" by blast
    then show ?thesis using request_all_keeps [OF e(2)] assms(5) by fastforce
  qed (use 2 e in auto)
qed simp

lemma collect_values_get:
  "collect_values f ns d = Inr d' \<Longrightarrow> if k \<in> set ns then \<exists>c. f k = Inr c \<and> dict_get d' k = Some c else dict_get d' k = dict_get d k"
  by (induction f ns d rule: collect_values.induct) (auto split: sum.splits if_splits)

lemma last_row_name: "last_row rows n = Some row \<Longrightarrow> row \<in> set rows \<and> id_name row = n"
  unfolding last_row_def by (drule map_of_SomeD) auto

lemma missing_found_none:
  "missing_found rows items requested = Inr [] \<Longrightarrow> (v, c) \<in> set requested \<Longrightarrow>
   \<exists>iv. get_items_with_value rows items v = Inr iv \<and> c \<le> found_count iv (existing_items items)"
proof (induction requested)
  case (Cons x requested)
  then show ?case by (cases x) (fastforce simp: Let_def map_sum_def split: sum.splits if_splits)
qed simp

definition value_of_item :: "valued_item list \<Rightarrow> string \<Rightarrow> player_item \<Rightarrow> int" where
  "value_of_item rows v i =
     (case last_row rows (item_name i) of None \<Rightarrow> 0 | Some row \<Rightarrow> dict_get_or (or_default (vi_value row) []) v 0)"

lemma found_count_total:
  assumes "get_items_with_value rows items v = Inr iv" "value_key v = v" "list_all (\<lambda>i. wi_event i \<longrightarrow> item_class i \<noteq> class_progression_skip_balancing) items"
  shows "found_count iv (existing_items items) = (\<Sum>i\<leftarrow>existing_items items. value_of_item rows v i)"
proof (cases "items = []")
  case False
  let ?ns = "map item_name (filter (\<lambda>i. \<not> wi_event i \<and> item_name i \<in> set (value_group rows v)) items)"
  from False assms(1,2) have c: "collect_values (item_value_of rows v) ?ns [] = Inr iv" by (simp add: get_items_with_value_def Let_def)
  have "(case dict_get iv (item_name i) of None \<Rightarrow> 0 | Some c \<Rightarrow> c) = value_of_item rows v i" if i: "i \<in> set (existing_items items)" for i
  proof (cases "item_name i \<in> set ?ns")
    case True
    then show ?thesis
      using collect_values_get [OF c, of "item_name i"] by (auto simp: item_value_of_def value_of_item_def split: option.splits)
  next
    case out: False
    have "\<not> wi_event i" "i \<in> set items" using i assms(3) by (auto simp: existing_items_def list_all_iff)
    then have "item_name i \<notin> set (value_group rows v)" using out by auto
    have "dict_get (or_default (vi_value row) []) v = None" if "last_row rows (item_name i) = Some row" for row
    proof (rule ccontr)
      assume "dict_get (or_default (vi_value row) []) v \<noteq> None"
      then have "v \<in> set (dict_keys (or_default (vi_value row) []))" by (metis map_of_eq_None_iff set_map)
      with last_row_name [OF that] assms(2) have "item_name i \<in> set (value_group rows v)" by (force simp: value_group_def list_ex_iff)
      with \<open>item_name i \<notin> set (value_group rows v)\<close> show False by simp
    qed
    then have "value_of_item rows v i = 0" by (simp add: value_of_item_def dict_get_or_def split: option.split)
    then show ?thesis using out collect_values_get [OF c, of "item_name i"] by simp
  qed
  then show ?thesis unfolding found_count_def by (metis (no_types, lifting) map_eq_conv)
qed (simp add: found_count_def existing_items_def)

text \<open>C26 The check before the fill is sound: when it passes, every positive total a location of the graph asks
  for with \<open>ItemValue\<close> is covered by the progression items the player has, counted with the value their
  rows give them, provided no event is classified to skip balancing.\<close>

theorem prefilled_values_suffice:
  assumes "run_pre_fill_data_validation t regions items = Inr []" "r \<in> set regions" "l \<in> set (rg_locations r)"
    "dict_get (rev (map (\<lambda>row. (ld_name row, row)) (dt_locations t))) (lo_name l) = Some row" "ld_requires row = Some (ReqString s)"
    "(v, c) \<in> set (item_value_calls s)" "py_int c = Some n" "0 < n"
    "list_all (\<lambda>i. wi_event i \<longrightarrow> item_class i \<noteq> class_progression_skip_balancing) items"
  shows "n \<le> (\<Sum>i\<leftarrow>existing_items items. value_of_item (dt_items t) (value_key v) i)"
proof -
  have "pre_fill_check_if_enough_items_for_value t regions items = None"
    using assms(1) by (simp add: run_pre_fill_data_validation_def run_checks_passes)
  then obtain requested where q: "request_all (concat (map (asked_in_region t) regions)) [] = Inr requested"
    "missing_found (dt_items t) items requested = Inr []"
    by (auto simp: pre_fill_check_if_enough_items_for_value_def on_value_def split: sum.splits if_splits)
  have "s \<noteq> []" using assms(6) by (auto simp: item_value_calls.simps)
  then have "JStr s \<in> set (asked_in_region t r)" using assms(3-5) by (force simp: asked_in_region_def)
  then have "JStr s \<in> set (concat (map (asked_in_region t) regions))" using assms(2) by auto
  from request_all_asks [OF q(1) this assms(6-8)] obtain b where b: "(value_key v, b) \<in> set requested" "n \<le> b"
    by (auto dest: map_of_SomeD)
  from missing_found_none [OF q(2) b(1)] obtain iv where
    "get_items_with_value (dt_items t) items (value_key v) = Inr iv" "b \<le> found_count iv (existing_items items)" by blast
  with found_count_total [OF this(1) value_key_twice assms(9)] b(2) show ?thesis by simp
qed

section \<open>Small tables\<close>

definition sample_row :: "string \<Rightarrow> (string, int) dict option \<Rightarrow> valued_item" where
  "sample_row n v = item_data.extend ((plain_row n)\<lparr>id_progression := True\<rparr>) \<lparr>vi_value = v\<rparr>"

definition sample_location :: "string \<Rightarrow> string \<Rightarrow> string \<Rightarrow> placed_location" where
  "sample_location n region requires =
     \<lparr>ld_name = n, ld_region = region, ld_requires = Some (ReqString requires), ld_category = [], ld_filler_only = False, ld_junk_only = False,
      ld_multi_moon = False, ld_moon_postwin = False, ld_victory = False, ld_progression = False, pl_place_item = None,
      pl_place_item_category = None, pl_dont_place_item = None, pl_dont_place_item_category = None\<rparr>"

definition sample_tables :: data_tables where
  "sample_tables =
     \<lparr>dt_game = [(''game'', JStr ''MEATBALLS'')],
      dt_items = [sample_row ''Frog'' (Some [(''coins'', 5)]), sample_row ''Coin'' (Some [(''coins'', 2)])],
      dt_locations = [sample_location ''Cap: Frog Pond'' ''Cap Kingdom'' ''|Frog|'', sample_location ''Cap: Shop'' ''Cap Kingdom'' ''{ItemValue(Coins:6)}''],
      dt_regions = [(''Cap Kingdom'', \<lparr>rr_requires = None, rr_connects_to = None, rr_starting = False, re_has_starting = False\<rparr>)]\<rparr>"

lemma sample_tables_pass: "run_generation_data_validation sample_tables = Inr []"
  by code_simp


theorem item_ids_inverse_witness:
  "dict_get (item_name_to_item (rows_of sample_tables)) ''Frog'' = Some (item_data.truncate (sample_row ''Frog'' (Some [(''coins'', 5)]))) \<and>
   (dict_get (item_id_to_name (rows_of sample_tables)) None = Some ''__Victory__'' \<longleftrightarrow>
    dict_get (item_name_to_id (rows_of sample_tables)) ''__Victory__'' = Some None)"
proof -
  have rows: "rows_of sample_tables = map item_data.truncate [sample_row ''Frog'' (Some [(''coins'', 5)]), sample_row ''Coin'' (Some [(''coins'', 2)])]"
    by (simp add: rows_of_def sample_tables_def)
  have names: "victory_item \<notin> id_name ` set (rows_of sample_tables)" by code_simp
  have "id_name (item_data.truncate (sample_row ''Frog'' (Some [(''coins'', 5)]))) = ''Frog''" by code_simp
  then show ?thesis using item_ids_inverse [OF sample_tables_pass names] unfolding rows by simp
qed

theorem prefilled_values_suffice_witness:
  "6 \<le> (\<Sum>i\<leftarrow>[\<lparr>item_name = ''Frog'', item_class = 1, wi_event = False\<rparr>, \<lparr>item_name = ''Coin'', item_class = 1, wi_event = False\<rparr>].
     value_of_item (dt_items sample_tables) ''coins'' i)"
proof -
  let ?l = "\<lparr>lo_name = ''Cap: Shop'', lo_rule = always, lo_item_rules = []\<rparr> :: unit location"
  let ?r = "\<lparr>rg_name = ''Cap Kingdom'', rg_locations = [?l], rg_exits = []\<rparr>"
  let ?items = "[\<lparr>item_name = ''Frog'', item_class = 1, wi_event = False\<rparr>, \<lparr>item_name = ''Coin'', item_class = 1, wi_event = False\<rparr>]"
  have pass: "run_pre_fill_data_validation sample_tables [?r] ?items = Inr []" by code_simp
  have row: "dict_get (rev (map (\<lambda>row. (ld_name row, row)) (dt_locations sample_tables))) (lo_name ?l) =
      Some (sample_location ''Cap: Shop'' ''Cap Kingdom'' ''{ItemValue(Coins:6)}'')"
    by (simp add: sample_tables_def sample_location_def)
  have asked: "(''Coins'', ''6'') \<in> set (item_value_calls ''{ItemValue(Coins:6)}'')" "py_int ''6'' = Some 6" by code_simp+
  have key: "value_key ''Coins'' = ''coins''" "existing_items ?items = ?items" by code_simp+
  show ?thesis
    using prefilled_values_suffice [OF pass _ _ row _ asked, of ?r] by (simp add: key sample_location_def)
qed

text \<open>A value whose key has a capital letter is not found: ten coins are in the pool, the check sees none.\<close>

lemma capital_value_not_found:
  "check_if_enough_items_for_value (sample_tables\<lparr>dt_items :=
     [sample_row ''Frog'' (Some [(''Coins'', 5)]), sample_row ''Coin'' (Some [(''Coins'', 5)])]\<rparr>) =
   Some (Invalid ''There are not enough progression items for the following values: '' [JList [JStr ''coins'', JInt 0, JInt 6]])"
  by code_simp

text \<open>When another item writes the key in lower case, the check ends with a \<open>KeyError\<close>.\<close>

lemma mixed_case_values_crash:
  "check_if_enough_items_for_value (sample_tables\<lparr>dt_items :=
     [sample_row ''Frog'' (Some [(''coins'', 5)]), sample_row ''Coin'' (Some [(''Coins'', 5)])]\<rparr>) = Some (Crash KeyError)"
  by code_simp

text \<open>An item that is not progression is found in a requirement only without a count.\<close>

lemma counted_item_not_mentioned:
  "mentions ''Frog'' (ReqString ''|Frog|'') \<and> \<not> mentions ''Frog'' (ReqString ''|Frog:1|'')"
  by code_simp

end
