(* ===== verification/Moon_Logic.thy ===== *)
theory Moon_Logic
  imports World_Graph "HOL-Library.Log_Nat"
begin

text \<open>
  \<open>scripts/compile_moon_logic.py\<close>: the compiler that writes the \<open>requires\<close> strings of \<open>locations.json\<close> from
  the moon requirements, the gates of kingdoms, subareas and moons, and the scenario gates. It is a build
  step: its result is what \<open>Rules.py\<close> evaluates when entrance shuffle is off, and the export of scenario
  gates is what \<open>hooks/World.py\<close> re-applies when it is on. Sets of names are lists; a missing input file is
  an empty table. The report and the printed statistics are left out.
\<close>

section \<open>Joining\<close>

fun first_copies :: "string list \<Rightarrow> string list \<Rightarrow> string list" where
  "first_copies seen [] = []"
| "first_copies seen (p # ps) = (if p \<in> set seen then first_copies seen ps else p # first_copies (p # seen) ps)"

definition moon_and_join :: "string list \<Rightarrow> string" where
  "moon_and_join parts = join_with '' and '' (first_copies [] (filter (\<lambda>p. p \<noteq> []) parts))"

definition moon_or_join :: "string list \<Rightarrow> string" where
  "moon_or_join parts = join_with '' or '' parts"

section \<open>Tables\<close>

definition broodes_chain_chomp :: string where "broodes_chain_chomp = ''Broode'' @ [CHR 39] @ ''s Chain Chomp''"

definition moon_free_captures :: "string list" where
  "moon_free_captures = [''Frog'', ''Chain Chomp'', broodes_chain_chomp]"

definition moon_jump_frag :: "(string, string) dict" where
  "moon_jump_frag =
     [(''PJ1'', ''|Progressive Jump:1|''), (''PJ2'', ''|Progressive Jump:2|''), (''CAP_BOUNCE'', ''|Cap Bounce|''),
      (''BACKFLIP'', ''(|Backflip| and |Progressive Crouch:1|)''), (''SIDE_FLIP'', ''|Side Flip|''), (''SPIN_JUMP'', ''|Spin|''),
      (''GPJ'', ''(|Ground Pound Jump| and |Progressive Ground Pound:1|)''),
      (''LONG_JUMP'', ''(|Long Jump| and |Progressive Crouch:1|)'')]"

definition moon_height_satisfiers :: "(string, string list) dict" where
  "moon_height_satisfiers =
     [(''double'', [''PJ1'', ''CAP_BOUNCE'', ''BACKFLIP'', ''SIDE_FLIP'', ''SPIN_JUMP'', ''GPJ'', ''PJ2'']),
      (''cap_return'', [''CAP_BOUNCE'', ''BACKFLIP'', ''SIDE_FLIP'', ''SPIN_JUMP'', ''GPJ'', ''PJ2'']),
      (''backflip'', [''CAP_BOUNCE'', ''BACKFLIP'', ''SIDE_FLIP'', ''SPIN_JUMP'', ''GPJ'', ''PJ2'']),
      (''gpj'', [''GPJ'', ''PJ2'']), (''triple'', [''PJ2''])]"

definition moon_throw_frag :: "(string, string) dict" where
  "moon_throw_frag = [(''up'', ''|Up Throw|''), (''down'', ''|Down Throw|''), (''spin'', ''|Spin Throw|'')]"

definition moon_other_frag :: "(string, string option) dict" where
  "moon_other_frag =
     [(''ground_pound'', Some ''|Progressive Ground Pound:1|''), (''dive'', Some ''|Progressive Ground Pound:2|''),
      (''crouch'', Some ''|Progressive Crouch:1|''), (''roll'', Some ''|Progressive Crouch:2|''),
      (''roll_boost'', Some ''|Progressive Crouch:3|''), (''wall_slide'', Some ''|Wall Slide|''),
      (''climb'', Some ''|Climb|''), (''cap_bounce'', Some ''|Cap Bounce|''),
      (''bonk_roll'', Some ''|Progressive Crouch:2|''), (''single'', None)]"

definition moon_jump :: "string \<Rightarrow> string" where "moon_jump k = the (dict_get moon_jump_frag k)"

definition moon_high_jump :: string where
  "moon_high_jump = moon_or_join [moon_jump ''BACKFLIP'', moon_jump ''SIDE_FLIP'', moon_jump ''SPIN_JUMP'', moon_jump ''PJ2'', moon_jump ''GPJ'']"

definition moon_lake_gate :: string where
  "moon_lake_gate = moon_or_join [''|Zipper|'',
     moon_and_join [moon_high_jump, ''|Cap Bounce|'', moon_or_join [''|Progressive Ground Pound:2|'', ''|Wall Slide|'']]]"

definition moon_kingdom_gates :: "(string, string) dict" where
  "moon_kingdom_gates = [(''Metro'', ''|Spark pylon|''), (bowsers, ''|Spark pylon|''), (''Lake'', moon_lake_gate)]"

definition rearrival_peace_gates :: "(string, string) dict" where
  "rearrival_peace_gates =
     [(''Cap'', ''{CapPeace()}''), (''Cloud'', ''{CloudPeace()}''), (''Lost'', ''{LostPeace()}''), (''Moon'', ''{MoonPeace()}'')]"

definition moon_rock_peace_gates :: "(string, string) dict" where
  "moon_rock_peace_gates =
     [(''Cascade'', ''{CascadePeace()}''), (''Sand'', ''{SandPeace()}''), (''Lake'', ''{LakePeace()}''), (''Wooded'', ''{WoodedPeace()}''),
      (''Metro'', ''{MetroPeace()}''), (''Snow'', ''{SnowPeace()}''), (''Seaside'', ''{SeasidePeace()}''),
      (''Luncheon'', ''{LuncheonPeace()}''), (''Ruined'', ''{RuinedPeace()}''), (bowsers, ''{BowserPeace()}'')]"

definition cascade_departure_gate :: string where "cascade_departure_gate = ''{CascadeDeparture()}''"

definition moon_subarea_gates :: "(string, string) dict" where
  "moon_subarea_gates =
     [(''Unzipping the Chasm'', ''|Zipper|''), (''Sewers'', ''|Manhole|''), (''Rotating Maze Shards'', ''|Manhole|''),
      (''Swinging Along the High-Rises'', ''|Mini Rocket|''), (''A Sea of Clouds'', ''|Mini Rocket|''),
      (''Strange Neighborhood'', ''|Mini Rocket|''), (''Shards in the Fog'', ''(|Mini Rocket| and |Climb|)''),
      (''Picture Match (Mario)'', ''|Mini Rocket|''), (''Roulette Tower'', ''|Mini Rocket|''),
      (''Shards Under Siege'', ''|Taxi|''),
      (''Flying Through the Narrow Valley'', moon_or_join [''|Gushen|'', moon_and_join [moon_jump ''PJ2'', ''|Wall Slide|'', ''|Cap Bounce|'']]),
      (''Fork-Flickin to the Summit'', ''|Lava Bubble|''), (''Shards in the Cheese Rocks'', ''|Hammer Bro|''),
      (''Spinning Athletics'', ''|Lava Bubble|''), (''Crowded Elevator'', ''|Climb|''),
      (''Spinning-Platforms Treasure Vault'', ''|Climb|'')]"

definition location_extra_gates :: "(string, string) dict" where
  "location_extra_gates = [(''Sand: Employees Only'', ''|Progressive Crouch:1|'')]"

definition boss_capture_gates :: "(string, string) dict" where
  "boss_capture_gates =
     [(''Sand: Showdown on the Inverted Pyramid'', ''|Bullet Bill|''),
      (''Sand: The Hole in the Desert'', ''(|Bullet Bill| and |Knucklotec'' @ [CHR 39] @ ''s Fist|)''),
      (''Lake: Broodals Over the Lake'', ''|Zipper|'')]"

definition subarea_interior_full_gates :: "(string, string) dict" where
  "subarea_interior_full_gates =
     [(''Jaxi Driving'', ''({SandPeace()} or (|Bullet Bill| and |Progressive Ground Pound:2| and |Wall Slide|))'')]"

definition baked_rock_reach_capture :: "(string, string) dict" where
  "baked_rock_reach_capture = [(''Cap'', ''|Paragoomba|''), (''Luncheon'', ''|Lava Bubble|'')]"

definition moon_rock_reach_extra :: "(string, string list) dict" where
  "moon_rock_reach_extra =
     [(''Cap'',
       [''Cap: Next to Glasses Bridge'', ''Cap: Danger Sign'', ''Cap: Under the Big One'' @ [CHR 39] @ ''s Brim'',
        ''Cap: Fly to the Edge of the Fog'', ''Cap: Spin the Hat, Get a Prize'', ''Cap: Hidden in a Sunken Hat'',
        ''Cap: Fog-Shrouded Platform'', ''Cap: Bird Traveling in the Fog'', ''Cap: Caught Hopping Near the Ship!'',
        ''Cap: Taking Notes: In the Fog'', ''Cap: Cap Kingdom Timer Challenge 2'', ''Cap: Cap Kingdom Master Cup''])]"

definition moon_cave_traversal :: string where
  "moon_cave_traversal = moon_or_join
     [moon_and_join [''|Parabones|'', ''|Banzai Bill|'', ''|Spark pylon|''],
      moon_and_join [moon_jump ''GPJ'', ''|Cap Bounce|'', ''|Wall Slide|'']]"

definition moon_cave_extra_locations :: "string list" where "moon_cave_extra_locations = [''Moon: Up in the Rafters'']"
definition goal_location :: string where "goal_location = ''Arrive in the Mushroom Kingdom''"

section \<open>A moon's methods\<close>

definition moon_not_free :: "string list \<Rightarrow> string list" where
  "moon_not_free g = filter (\<lambda>c. c \<notin> set moon_free_captures) g"

definition moon_capture_term :: "string list list \<Rightarrow> string option" where
  "moon_capture_term groups =
     (if groups = [] \<or> list_ex (\<lambda>g. moon_not_free g = []) groups then None
      else Some (moon_or_join (map (\<lambda>g. moon_and_join (map item_text (moon_not_free g))) groups)))"

definition moon_height_terms :: "move_method \<Rightarrow> string list" where
  "moon_height_terms m =
     (case jump_height m of
        None \<Rightarrow> []
      | Some jh \<Rightarrow>
          if jh = ''long_jump'' then [moon_jump ''LONG_JUMP'']
          else (case dict_get moon_height_satisfiers jh of
                  None \<Rightarrow> []
                | Some ks \<Rightarrow> [moon_or_join (map moon_jump ks)]))"

definition key_or_error :: "('k, 'v) dict \<Rightarrow> 'k \<Rightarrow> exn + 'v" where
  "key_or_error d k = (case dict_get d k of None \<Rightarrow> Inl KeyError | Some v \<Rightarrow> Inr v)"

definition moon_throw_terms :: "move_method \<Rightarrow> exn + string list" where
  "moon_throw_terms m =
     (if cap_throws m \<noteq> [] \<and> ''neutral'' \<notin> set (cap_throws m) \<and> ''none'' \<notin> set (cap_throws m)
      then map_sum id (\<lambda>ts. [moon_or_join ts]) (map_raising (key_or_error moon_throw_frag) (cap_throws m))
      else Inr [])"

definition moon_other_term :: "string list list \<Rightarrow> string \<Rightarrow> exn + string option" where
  "moon_other_term groups need =
     (if need = ''capture'' then Inr (moon_capture_term groups) else key_or_error moon_other_frag need)"

definition moon_compile_method :: "string list list \<Rightarrow> move_method \<Rightarrow> exn + string" where
  "moon_compile_method groups m =
     (case moon_throw_terms m of
        Inl e \<Rightarrow> Inl e
      | Inr throws \<Rightarrow>
          map_sum id (\<lambda>others. moon_and_join (moon_height_terms m @ throws @ List.map_filter id others))
            (map_raising (moon_other_term groups) (other_required m)))"

definition compile_moon :: "moon_record \<Rightarrow> exn + string" where
  "compile_moon rec =
     map_sum id (\<lambda>es. let exprs = first_copies [] es in if [] \<in> set exprs then [] else moon_or_join exprs)
       (map_raising (moon_compile_method (mr_capture_groups rec)) (List.map_filter snd (mr_methods rec)))"

section \<open>Scenario tiers\<close>

text \<open>A row of \<open>shine_map.json\<close> and of \<open>world_scenarios.json\<close>.\<close>

record shine_row =
  sh_kingdom :: string
  sh_shine_id :: string
  sh_progress_bit_flag :: int
  sh_is_grand :: bool

record world_scenario =
  ws_clear_main_scenario :: int
  ws_scenario_num :: int
  ws_after_ending_scenario :: "int option"

definition lowest_set_bit :: "int \<Rightarrow> int" where
  "lowest_set_bit flag = (if flag \<le> 0 then 0 else bitlen (and flag (- flag)) - 1)"

definition shine_name :: "shine_row \<Rightarrow> string" where
  "shine_name e = sh_kingdom e @ '': '' @ sh_shine_id e"

definition min_scenario :: "shine_row \<Rightarrow> int" where
  "min_scenario e = lowest_set_bit (sh_progress_bit_flag e)"

definition first_playable :: "shine_row list \<Rightarrow> (string, int) dict" where
  "first_playable shines =
     foldl (\<lambda>d e. dict_set (sh_kingdom e) (min (dict_get_or d (sh_kingdom e) (min_scenario e)) (min_scenario e)) d) [] shines"

definition classify_scenario_post_peace :: "int \<Rightarrow> world_scenario \<Rightarrow> int \<Rightarrow> string \<Rightarrow> bool" where
  "classify_scenario_post_peace progress_bit_flag ws first_playable_bit kingdom =
     (if kingdom = ''Cascade'' then False
      else if ws_scenario_num ws \<le> ws_clear_main_scenario ws then False
      else if ws_clear_main_scenario ws - 1 \<le> first_playable_bit then False
      else ws_clear_main_scenario ws - 1 \<le> lowest_set_bit progress_bit_flag)"

definition build_post_peace_names :: "shine_row list \<Rightarrow> (string, world_scenario) dict \<Rightarrow> string list" where
  "build_post_peace_names shines scenarios =
     map shine_name (filter (\<lambda>e.
       case dict_get scenarios (sh_kingdom e) of
         None \<Rightarrow> False
       | Some ws \<Rightarrow> classify_scenario_post_peace (sh_progress_bit_flag e) ws
                      (dict_get_or (first_playable shines) (sh_kingdom e) 0) (sh_kingdom e)) shines)"

definition build_rearrival_names :: "shine_row list \<Rightarrow> string list" where
  "build_rearrival_names shines =
     map shine_name (filter (\<lambda>e. sh_kingdom e \<in> set (dict_keys rearrival_peace_gates) \<and>
       dict_get_or (first_playable shines) (sh_kingdom e) 0 < min_scenario e) shines)"

definition build_moon_postwin_names :: "shine_row list \<Rightarrow> string list" where
  "build_moon_postwin_names shines =
     (let moon = filter (\<lambda>e. sh_kingdom e = ''Moon'') shines
      in if moon = [] then []
         else let fp = foldl min (min_scenario (hd moon)) (map min_scenario (tl moon))
              in map (\<lambda>e. ''Moon: '' @ sh_shine_id e) (filter (\<lambda>e. fp < min_scenario e) moon))"

text \<open>The grand moon with a given earliest scenario in each kingdom; the first row with it counts.\<close>

definition grand_by_bit :: "shine_row list \<Rightarrow> string \<Rightarrow> int \<Rightarrow> string option" where
  "grand_by_bit shines kingdom b =
     map_option shine_name (find (\<lambda>e. sh_is_grand e \<and> sh_kingdom e = kingdom \<and> min_scenario e = b) shines)"

text \<open>The fragment of one row; \<open>None\<close> where the loop goes on without one.\<close>

definition mid_story_fragment ::
  "shine_row list \<Rightarrow> (string, world_scenario) dict \<Rightarrow> string list \<Rightarrow> string list \<Rightarrow> shine_row \<Rightarrow> string option" where
  "mid_story_fragment shines scenarios post_peace_names known_names e =
     (case dict_get scenarios (sh_kingdom e) of
        None \<Rightarrow> None
      | Some ws \<Rightarrow>
          let k = sh_kingdom e; loc = shine_name e; fp = dict_get_or (first_playable shines) k 0; m = min_scenario e;
              clear = ws_clear_main_scenario ws; peace_bit = clear - 1
          in if loc \<in> set post_peace_names \<or> k = ''Cascade'' \<or> m \<le> fp \<or> ws_scenario_num ws \<le> clear \<or> peace_bit \<le> fp \<or> peace_bit \<le> m then None
             else let frag =
               (case grand_by_bit shines k (m - 1) of
                  Some advancer \<Rightarrow>
                    if advancer \<noteq> [] \<and> advancer \<noteq> loc \<and> advancer \<in> set known_names
                    then Some (call_text (''canReachLocation'', advancer))
                    else if grand_by_bit shines k (peace_bit - 1) = Some loc then None
                    else Some (dict_get_or moon_rock_peace_gates k [])
                | None \<Rightarrow> if grand_by_bit shines k (peace_bit - 1) = Some loc then None
                          else Some (dict_get_or moon_rock_peace_gates k []))
             in if truthy frag then frag else None)"

definition build_mid_story_anchors ::
  "shine_row list \<Rightarrow> (string, world_scenario) dict \<Rightarrow> string list \<Rightarrow> string list \<Rightarrow> (string, string) dict \<times> (string, int) dict" where
  "build_mid_story_anchors shines scenarios post_peace_names known_names =
     (if shines = [] \<or> scenarios = [] then ([], [])
      else foldl (\<lambda>(anchors, stats) e.
             case mid_story_fragment shines scenarios post_peace_names known_names e of
               None \<Rightarrow> (anchors, stats)
             | Some frag \<Rightarrow> (dict_set (shine_name e) frag anchors, dict_bump (sh_kingdom e) 1 stats)) ([], []) shines)"

definition cascade_anchor_moon :: string where "cascade_anchor_moon = ''Cascade: Multi Moon Atop the Falls''"
definition cascade_gate_min_layer :: int where "cascade_gate_min_layer = 1"

definition cascade_fragment :: "world_scenario \<Rightarrow> string list \<Rightarrow> shine_row \<Rightarrow> string option" where
  "cascade_fragment ws known_names e =
     (let ae_bit = or_default (ws_after_ending_scenario ws) 1 - 1; m = min_scenario e; loc = shine_name e
      in if sh_kingdom e \<noteq> ''Cascade'' \<or> m < cascade_gate_min_layer \<or> loc = cascade_anchor_moon \<or> loc \<notin> set known_names then None
         else if ae_bit \<le> m then Some cascade_departure_gate
         else if cascade_anchor_moon \<in> set known_names then dict_get moon_rock_peace_gates ''Cascade''
         else None)"

definition build_cascade_anchors ::
  "shine_row list \<Rightarrow> (string, world_scenario) dict \<Rightarrow> string list \<Rightarrow> (string, string) dict \<times> nat" where
  "build_cascade_anchors shines scenarios known_names =
     (case dict_get scenarios ''Cascade'' of
        None \<Rightarrow> ([], 0)
      | Some ws \<Rightarrow>
          let anchors = foldl (\<lambda>d e. case cascade_fragment ws known_names e of None \<Rightarrow> d | Some f \<Rightarrow> dict_set (shine_name e) f d) [] shines
          in (anchors, length anchors))"

section \<open>Gates\<close>

text \<open>\<open>location_name.split(": ", 1)[0]\<close>.\<close>

fun name_prefix :: "string \<Rightarrow> string" where
  "name_prefix [] = []"
| "name_prefix (c # s) = (if starts_with '': '' (c # s) then [] else c # name_prefix s)"

definition scenario_fragments_for :: "string \<Rightarrow> string list \<Rightarrow> (string, string) dict \<Rightarrow> string list \<Rightarrow> string list" where
  "scenario_fragments_for location_name post_peace_names mid_story_anchors rearrival_names =
     (let prefix = name_prefix location_name
      in (if location_name \<in> set post_peace_names
          then (let peace = dict_get_or moon_rock_peace_gates prefix [] in if peace \<noteq> [] then [peace] else [])
          else (case dict_get mid_story_anchors location_name of None \<Rightarrow> [] | Some f \<Rightarrow> [f])) @
         (if location_name \<in> set rearrival_names
          then (case dict_get rearrival_peace_gates prefix of None \<Rightarrow> [] | Some f \<Rightarrow> [f]) else []))"

definition build_subarea_scenario_gates ::
  "(string, subarea) dict \<Rightarrow> string list \<Rightarrow> string list \<Rightarrow> string list \<Rightarrow> (string, string) dict \<Rightarrow> (string, string) dict" where
  "build_subarea_scenario_gates subareas excluded junk_names known_names scenario_gate_by_name =
     foldl (\<lambda>gates loc.
         if loc \<in> set junk_names \<or> loc \<notin> set known_names then gates
         else (case dict_get scenario_gate_by_name loc of
                 None \<Rightarrow> gates
               | Some frag \<Rightarrow> if frag \<noteq> [] then dict_set loc frag gates else gates)) []
       (concat (map (sa_location_names \<circ> snd) (filter (\<lambda>(sub_name, _). sub_name \<notin> set excluded) subareas)))"

definition one_gate :: "(string, string) dict \<Rightarrow> string \<Rightarrow> string list" where
  "one_gate table k = (case dict_get table k of None \<Rightarrow> [] | Some g \<Rightarrow> [g])"

definition gates_for :: "string \<Rightarrow> (string, string) dict \<Rightarrow> (string, string) dict \<Rightarrow> string list \<Rightarrow> string list \<Rightarrow> string list" where
  "gates_for location_name loc_subarea_gate scenario_gate_by_name moon_rock_reach_names moon_cave_names =
     (let prefix = name_prefix location_name
      in one_gate moon_kingdom_gates prefix @
         (if location_name \<in> set moon_rock_reach_names then one_gate baked_rock_reach_capture prefix else []) @
         filter (\<lambda>f. f \<noteq> []) (one_gate scenario_gate_by_name location_name) @
         (if location_name \<in> set moon_cave_names then [moon_cave_traversal] else []) @
         one_gate loc_subarea_gate location_name @
         one_gate location_extra_gates location_name @
         one_gate boss_capture_gates location_name)"

section \<open>The tables of a run\<close>

record logic_inputs =
  li_requirements :: "(string, moon_record) dict"
  li_subareas :: "(string, subarea) dict"
  li_locations :: "location_data list"
  li_shines :: "shine_row list"
  li_scenarios :: "(string, world_scenario) dict"
  li_scenario_gates :: "(string, string) dict"
  li_exclusions :: "(string, string list) dict"

definition junk_names :: "logic_inputs \<Rightarrow> string list" where
  "junk_names i = map ld_name (filter ld_junk_only (li_locations i))"

definition moon_rock_reach_names :: "logic_inputs \<Rightarrow> string list" where
  "moon_rock_reach_names i =
     map ld_name (filter (\<lambda>l. ''Moon Rock'' \<in> set (ld_category l)) (li_locations i)) @ concat (map snd moon_rock_reach_extra)"

definition subarea_members :: "(string, subarea) dict \<Rightarrow> string \<Rightarrow> string list" where
  "subarea_members subareas n = (case dict_get subareas n of None \<Rightarrow> [] | Some info \<Rightarrow> sa_location_names info)"

definition moon_cave_names :: "logic_inputs \<Rightarrow> string list" where
  "moon_cave_names i = subarea_members (li_subareas i) ''Underground Caverns'' @ moon_cave_extra_locations"

definition fork_location :: string where "fork_location = ''Cascade: Secret Path to Fossil Falls!''"

definition scenario_gate_by_name :: "logic_inputs \<Rightarrow> (string, string) dict" where
  "scenario_gate_by_name i =
     (let spreadsheet = li_scenario_gates i;
          base = filter (\<lambda>(k, _). \<not> (starts_with ''Cascade: '' k \<or> starts_with ''Moon: '' k)) spreadsheet;
          cascade = fst (build_cascade_anchors (li_shines i) (li_scenarios i) (map ld_name (li_locations i)));
          moon = filter (\<lambda>n. starts_with ''Moon: '' n) (build_rearrival_names (li_shines i));
          d = dict_update_all (map (\<lambda>n. (n, dict_get_or rearrival_peace_gates ''Moon'' [])) moon) (dict_update_all cascade base)
      in case dict_get spreadsheet fork_location of
           None \<Rightarrow> d
         | Some fork \<Rightarrow> if fork \<noteq> [] then dict_set fork_location fork d else d)"

definition exported_scenario_gates :: "logic_inputs \<Rightarrow> (string, string) dict" where
  "exported_scenario_gates i =
     sort_key fst (build_subarea_scenario_gates (li_subareas i) (concat (map snd (li_exclusions i))) (junk_names i)
       (map ld_name (li_locations i)) (scenario_gate_by_name i))"

definition loc_subarea_gate :: "logic_inputs \<Rightarrow> (string, string) dict" where
  "loc_subarea_gate i =
     foldl (\<lambda>d (n, gate). foldl (\<lambda>d loc. dict_set loc gate d) d (subarea_members (li_subareas i) n)) [] moon_subarea_gates"

definition location_gates :: "logic_inputs \<Rightarrow> string \<Rightarrow> string list" where
  "location_gates i loc = gates_for loc (loc_subarea_gate i) (scenario_gate_by_name i) (moon_rock_reach_names i) (moon_cave_names i)"

definition compile_record :: "logic_inputs \<Rightarrow> moon_record \<Rightarrow> (string, string) dict \<Rightarrow> exn + (string, string) dict" where
  "compile_record i rec compiled =
     (if \<not> truthy (mr_location_name rec) \<or> the (mr_location_name rec) \<in> set (junk_names i) then Inr compiled
      else let loc = the (mr_location_name rec)
           in map_sum id (\<lambda>base. dict_set loc (moon_and_join (base # location_gates i loc)) compiled) (compile_moon rec))"

fun compile_records :: "logic_inputs \<Rightarrow> moon_record list \<Rightarrow> (string, string) dict \<Rightarrow> exn + (string, string) dict" where
  "compile_records i [] compiled = Inr compiled"
| "compile_records i (rec # recs) compiled =
     (case compile_record i rec compiled of Inl e \<Rightarrow> Inl e | Inr compiled \<Rightarrow> compile_records i recs compiled)"

definition apply_full_gates :: "logic_inputs \<Rightarrow> (string, string) dict \<Rightarrow> (string, string) dict" where
  "apply_full_gates i compiled =
     foldl (\<lambda>d (n, gate). foldl (\<lambda>d loc. if loc \<in> set (junk_names i) then d else dict_set loc gate d) d
       (subarea_members (li_subareas i) n)) compiled subarea_interior_full_gates"

definition compiled_requires :: "logic_inputs \<Rightarrow> exn + (string, string) dict" where
  "compiled_requires i = map_sum id (apply_full_gates i) (compile_records i (map snd (li_requirements i)) [])"

text \<open>A row of \<open>locations.json\<close> as it is written back.\<close>

definition write_location :: "logic_inputs \<Rightarrow> (string, string) dict \<Rightarrow> location_data \<Rightarrow> location_data" where
  "write_location i compiled l =
     (if ld_name l = goal_location then l\<lparr>ld_requires := Some (ReqString moon_cave_traversal)\<rparr>
      else let l = (if li_shines i \<noteq> [] \<and> ld_region l = ''Moon Kingdom''
                    then l\<lparr>ld_moon_postwin := (ld_name l \<in> set (build_moon_postwin_names (li_shines i)))\<rparr> else l)
           in case dict_get compiled (ld_name l) of
                None \<Rightarrow> l
              | Some r \<Rightarrow> l\<lparr>ld_requires := Some (ReqString r)\<rparr>)"

definition compile_locations :: "logic_inputs \<Rightarrow> exn + location_data list \<times> (string, string) dict" where
  "compile_locations i =
     map_sum id (\<lambda>compiled. (map (write_location i compiled) (li_locations i), exported_scenario_gates i)) (compiled_requires i)"

end
