(* ===== verification/Moon_Meaning.thy ===== *)
theory Moon_Meaning
  imports Moon_Logic
begin

text \<open>
  What the strings of \<open>compile_moon_logic.py\<close> mean to the evaluator of \<open>Rules.py\<close>: a compiled requirement
  holds exactly when the moon's own moves and each of its gates hold. The last section compares the
  tables with their mirror in \<open>entrance_logic.py\<close>.
\<close>

section \<open>Parts of a requirement\<close>

lemma inst_calls_none: "list_all no_call (toks l q) \<Longrightarrow> inst_calls res q = q"
  by (induction q arbitrary: l) (auto simp: paren_def split: if_splits)

lemma single_inst_calls:
  "single q \<Longrightarrow> \<forall>(f, a) \<in> set (calls_of (toks 0 q)). atomic (res f a) \<Longrightarrow> single (inst_calls res q)"
proof -
  have binary: "\<not> single (And c a b)" "\<not> single (Or c a b)" for c a b
    by (auto simp: single_def paren_def dest: arg_cong [of _ _ length])
  show "single q \<Longrightarrow> \<forall>(f, a) \<in> set (calls_of (toks 0 q)). atomic (res f a) \<Longrightarrow> single (inst_calls res q)"
    using toks_atomic [of _ 1] by (cases q) (auto simp: binary, auto simp: single_def paren_def)
qed

lemma inst_calls_group: "qs \<noteq> [] \<Longrightarrow> inst_calls res (group_req (And b) qs) = group_req (And b) (map (inst_calls res) qs)"
proof -
  have "inst_calls res (foldl (And b) q rs) = foldl (And b) (inst_calls res q) (map (inst_calls res) rs)" for q rs
    by (induction rs arbitrary: q) auto
  then show "qs \<noteq> [] \<Longrightarrow> ?thesis" by (cases qs rule: no_one_more) (simp_all del: foldl_Cons)
qed

text \<open>A part is empty, or spells a requirement whose calls return requirements without calls.\<close>

definition sound_req :: "'st rule_env \<Rightarrow> 'st \<Rightarrow> (string \<Rightarrow> string \<Rightarrow> req) \<Rightarrow> req \<Rightarrow> bool" where
  "sound_req env st res q \<longleftrightarrow>
     single q \<and> list_all tok_ok (toks 0 q) \<and> (\<forall>(f, a) \<in> set (calls_of (toks 0 q)). call_defined env st res f a) \<and>
     (\<forall>n \<in> set (items_of (toks 0 (inst_calls res q))). item_defined env n)"

definition sound_part :: "'st rule_env \<Rightarrow> 'st \<Rightarrow> (string \<Rightarrow> string \<Rightarrow> req) \<Rightarrow> string \<Rightarrow> bool" where
  "sound_part env st res p \<longleftrightarrow> p = [] \<or> (\<exists>q. p = requirement q \<and> sound_req env st res q)"

lemma sound_partE:
  assumes "sound_part env st res p" "p \<noteq> []"
  obtains q where "p = requirement q" "sound_req env st res q"
  using assms by (auto simp: sound_part_def)

definition call_holds :: "'st rule_env \<Rightarrow> 'st \<Rightarrow> (string \<Rightarrow> string \<Rightarrow> req) \<Rightarrow> string \<Rightarrow> string \<Rightarrow> bool" where
  "call_holds env st res f a = holds (item_sat env st) (\<lambda>_ _. False) (res f a)"

lemma sound_req_check:
  "sound_req env st res q \<Longrightarrow> check_require_string env (requirement q) st = Inr (holds (item_sat env st) (call_holds env st res) q)"
  unfolding call_holds_def by (rule check_require_tokens) (auto simp: sound_req_def)

lemma sound_req_group:
  assumes "list_all (sound_req env st res) qs" "qs \<noteq> []"
  shows "sound_req env st res (group_req (And False) qs)"
proof -
  have s: "list_all single qs" "list_all single (map (inst_calls res) qs)"
    using assms(1) by (auto simp: list_all_iff sound_req_def call_defined_def intro!: single_inst_calls)
  have t: "joins (And False) (TAnd False)" "no_item (TAnd False)" "no_call (TAnd False)" "tok_ok (TAnd False)" by simp_all
  note k = single_req_keeps [OF t(1) s(1) t(2-4)] and i = single_req_keeps [OF t(1) s(2) t(2-4)]
  show ?thesis
    unfolding sound_req_def k inst_calls_group [OF assms(2)] i
    using assms single_group [OF s(1) assms(2)] by (auto simp: sound_req_def list_all_iff)
qed

lemma join_with_singles:
  assumes "joins opr t" "filter (\<lambda>p. p \<noteq> []) ps = map requirement qs" "list_all single qs"
  shows "join_with (spell t) ps = joined_text opr qs"
  using assms(2) single_req_spell [OF assms(1) _ assms(3)]
  by (cases qs rule: no_one_more) (simp_all add: join_with_def joined_text_def)

lemma set_first_copies: "set (first_copies seen ps) = set ps - set seen"
  by (induction ps arbitrary: seen) auto

lemma filter_first_copies: "[] \<notin> set ps \<Longrightarrow> filter (\<lambda>p. p \<noteq> []) (first_copies seen ps) = first_copies seen ps"
  by (auto simp: filter_id_conv set_first_copies)

lemma moon_and_join_sound:
  assumes "list_all (sound_part env st res) ps"
  shows "sound_part env st res (moon_and_join ps)"
    "check_require_string env (moon_and_join ps) st = Inr (list_all (\<lambda>p. check_require_string env p st = Inr True) ps)"
proof -
  let ?ps = "first_copies [] (filter (\<lambda>p. p \<noteq> []) ps)"
  have set: "set ?ps = {p \<in> set ps. p \<noteq> []}" by (auto simp: set_first_copies)
  have "set ?ps \<subseteq> requirement ` {q. sound_req env st res q}" unfolding set using assms by (fastforce simp: list_all_iff elim: sound_partE)
  from requirement_choice [OF this] obtain qs where qs: "?ps = map requirement qs" "list_all (sound_req env st res) qs"
    by (auto simp: list_all_iff)
  have one: "list_all single qs" using qs(2) by (auto simp: list_all_iff sound_req_def)
  have "filter (\<lambda>p. p \<noteq> []) ?ps = map requirement qs" unfolding qs(1) by simp
  from join_with_singles [OF _ this one, of "And False" "TAnd False"] have j: "moon_and_join ps = joined_text (And False) qs"
    by (simp add: moon_and_join_def)
  have "sound_part env st res (joined_text (And False) qs) \<and>
      check_require_string env (joined_text (And False) qs) st = Inr (\<forall>p \<in> set (map requirement qs). check_require_string env p st = Inr True)"
  proof (cases "qs = []")
    case False
    from sound_req_group [OF qs(2) False] have g: "sound_req env st res (group_req (And False) qs)" .
    have "(\<forall>p \<in> set (map requirement qs). check_require_string env p st = Inr True) \<longleftrightarrow> (\<forall>q \<in> set qs. holds (item_sat env st) (call_holds env st res) q)"
      using qs(2) by (force simp: list_all_iff dest: sound_req_check)
    then show ?thesis using sound_req_check [OF g] g False by (auto simp: joined_text_def sound_part_def group_and_holds)
  qed (simp add: joined_text_def sound_part_def check_require_string_def)
  then show "sound_part env st res (moon_and_join ps)"
    "check_require_string env (moon_and_join ps) st = Inr (list_all (\<lambda>p. check_require_string env p st = Inr True) ps)"
    unfolding j qs(1) [symmetric] set by (auto simp: list_all_iff check_require_string_def)
qed

section \<open>The moves of a moon\<close>

text \<open>Everything the compiler emits for the methods is a text of moves.\<close>

definition move_text :: "string \<Rightarrow> bool" where
  "move_text p \<longleftrightarrow> p = [] \<or> (\<exists>q. move_req q \<and> p = requirement q)"

lemma move_req_sound: "move_req q \<Longrightarrow> sound_req env st res q"
proof -
  assume q: "move_req q"
  then have calls: "list_all no_call (toks 0 q)" and items: "\<forall>n \<in> set (items_of (toks 0 q)). plain_item n" and "atomic q"
    by (simp_all add: move_req_def)
  from calls have "(f, a) \<notin> set (calls_of (toks 0 q))" for f a by (auto simp: calls_of_iff list_all_iff)
  moreover have "single q" using toks_atomic [OF \<open>atomic q\<close>, of 1] by (simp add: single_def)
  ultimately show ?thesis
    using q items by (auto simp: sound_req_def inst_calls_none [OF calls] plain_item_keeps(3) intro: move_req_ok)
qed

lemma move_text_Nil [simp]: "move_text []" by (simp add: move_text_def)

lemma move_text_requirement: "move_req q \<Longrightarrow> move_text (requirement q)"
  by (auto simp: move_text_def)

lemma move_text_sound: "move_text p \<Longrightarrow> sound_part env st res p"
  by (auto simp: move_text_def sound_part_def intro: move_req_sound)

lemma move_text_reqs:
  assumes "list_all move_text ps"
  obtains qs where "filter (\<lambda>p. p \<noteq> []) ps = map requirement qs" "list_all move_req qs"
proof -
  have "set (filter (\<lambda>p. p \<noteq> []) ps) \<subseteq> requirement ` {q. move_req q}" using assms by (fastforce simp: list_all_iff move_text_def)
  from requirement_choice [OF this] show thesis using that by (auto simp: list_all_iff)
qed

lemma move_text_joined: "list_all move_req qs \<Longrightarrow> opr = And False \<or> opr = Or False \<Longrightarrow> move_text (joined_text opr qs)"
  using move_req_group [of qs opr] by (auto simp: joined_text_def move_text_requirement)

lemma move_text_or: "list_all move_text ps \<Longrightarrow> move_text (moon_or_join ps)"
proof -
  assume "list_all move_text ps"
  then obtain qs where "filter (\<lambda>p. p \<noteq> []) ps = map requirement qs" "list_all move_req qs" by (rule move_text_reqs)
  then show ?thesis using or_join_reqs [of ps qs] move_text_joined [of qs] by (simp add: moon_or_join_def or_join_def move_req_atomic)
qed

lemma move_text_and: "list_all move_text ps \<Longrightarrow> move_text (moon_and_join ps)"
proof -
  assume "list_all move_text ps"
  then have "list_all move_text (first_copies [] (filter (\<lambda>p. p \<noteq> []) ps))" by (auto simp: list_all_iff set_first_copies)
  then obtain qs where "filter (\<lambda>p. p \<noteq> []) (first_copies [] (filter (\<lambda>p. p \<noteq> []) ps)) = map requirement qs" "list_all move_req qs"
    by (rule move_text_reqs)
  then show ?thesis
    using and_join_reqs [of "first_copies [] (filter (\<lambda>p. p \<noteq> []) ps)" qs] move_text_joined [of qs]
    by (simp add: moon_and_join_def and_join_def move_req_atomic)
qed

text \<open>The strings of the tables, with the requirements they spell.\<close>

definition moon_jump_reqs :: "req list" where
  "moon_jump_reqs = map jump_req [''PJ1'', ''PJ2'', ''CAP_BOUNCE'', ''BACKFLIP'', ''SIDE_FLIP'', ''GPJ'', ''LONG_JUMP''] @ [Item ''Spin'']"

definition moon_item_reqs :: "req list" where
  "moon_item_reqs = map Item
     [''Up Throw'', ''Down Throw'', ''Spin Throw'', ''Progressive Ground Pound:1'', ''Progressive Ground Pound:2'', ''Progressive Crouch:1'',
      ''Progressive Crouch:2'', ''Progressive Crouch:3'', ''Wall Slide'', ''Climb'', ''Cap Bounce'', ''Spark pylon'', ''Zipper'', ''Manhole'',
      ''Mini Rocket'', ''Taxi'', ''Lava Bubble'', ''Hammer Bro'', ''Paragoomba'', ''Bullet Bill'', ''Gushen'', ''Parabones'', ''Banzai Bill'',
      ''Knucklotec'' @ [CHR 39] @ ''s Fist'']"

definition moon_gate_reqs :: "req list" where
  "moon_gate_reqs = moon_item_reqs @ moon_jump_reqs @
     [group_req (And False) [Item ''Mini Rocket'', Item ''Climb''],
      group_req (And False) [Item ''Bullet Bill'', Item (''Knucklotec'' @ [CHR 39] @ ''s Fist'')]]"

lemma moon_gate_reqs_move: "list_all move_req moon_gate_reqs"
proof -
  have "list_all item_gate moon_gate_reqs" by code_simp
  then show ?thesis using item_gate_move by (auto simp: list_all_iff)
qed

lemma spelled_gate: "p \<in> set (map requirement moon_gate_reqs) \<Longrightarrow> move_text p"
  using moon_gate_reqs_move by (auto simp: list_all_iff intro: move_text_requirement)

lemma moon_tables:
  "list_all move_text (map snd moon_jump_frag)" "list_all move_text (map snd moon_throw_frag)"
  "list_all move_text (map (\<lambda>(_, f). or_default f []) moon_other_frag)"
  "list_all move_text (map snd location_extra_gates)" "list_all move_text (map snd boss_capture_gates)"
  "list_all move_text (map snd baked_rock_reach_capture)"
proof -
  have "list_all (\<lambda>p. p = [] \<or> p \<in> set (map requirement moon_gate_reqs))
    (map snd moon_jump_frag @ map snd moon_throw_frag @ map (\<lambda>(_, f). or_default f []) moon_other_frag @
     map snd location_extra_gates @ map snd boss_capture_gates @ map snd baked_rock_reach_capture)" by code_simp
  then have "list_all move_text (map snd moon_jump_frag @ map snd moon_throw_frag @ map (\<lambda>(_, f). or_default f []) moon_other_frag @
     map snd location_extra_gates @ map snd boss_capture_gates @ map snd baked_rock_reach_capture)"
    using spelled_gate unfolding list_all_iff by (metis move_text_Nil)
  then show "list_all move_text (map snd moon_jump_frag)" "list_all move_text (map snd moon_throw_frag)"
    "list_all move_text (map (\<lambda>(_, f). or_default f []) moon_other_frag)"
    "list_all move_text (map snd location_extra_gates)" "list_all move_text (map snd boss_capture_gates)"
    "list_all move_text (map snd baked_rock_reach_capture)" by (simp_all only: list_all_append)
qed

lemma table_text: "list_all move_text (map snd d) \<Longrightarrow> dict_get d k = Some v \<Longrightarrow> move_text v"
  by (drule map_of_SomeD) (force simp: list_all_iff)

lemma list_all_rec: "list_all P []" "list_all P (x # xs) \<longleftrightarrow> P x \<and> list_all P xs"
  by simp_all

lemma list_all_subset: "list_all P ys \<Longrightarrow> set xs \<subseteq> set ys \<Longrightarrow> list_all P xs"
  by (auto simp: list_all_iff)

lemma spelled_gates: "set ps \<subseteq> set (map requirement moon_gate_reqs) \<Longrightarrow> list_all move_text ps"
  unfolding list_all_iff by (intro ballI spelled_gate) (rule subsetD)

lemma moon_composed_gates: "move_text moon_cave_traversal" "list_all move_text (map snd moon_kingdom_gates)" "list_all move_text (map snd moon_subarea_gates)"
proof -
  note join = move_text_or move_text_and spelled_gates
  have jumps: "set [moon_jump ''BACKFLIP'', moon_jump ''SIDE_FLIP'', moon_jump ''SPIN_JUMP'', moon_jump ''PJ2'', moon_jump ''GPJ'']
      \<subseteq> set (map requirement moon_gate_reqs)"
    "set [''|Zipper|'', ''|Cap Bounce|'', ''|Progressive Ground Pound:2|'', ''|Wall Slide|'', ''|Parabones|'', ''|Banzai Bill|'', ''|Spark pylon|'', ''|Gushen|'']
      \<subseteq> set (map requirement moon_gate_reqs)" by code_simp+
  have texts: "move_text (moon_jump ''PJ2'')" "move_text (moon_jump ''GPJ'')" "move_text ''|Zipper|''" "move_text ''|Cap Bounce|''"
    "move_text ''|Progressive Ground Pound:2|''" "move_text ''|Wall Slide|''" "move_text ''|Parabones|''" "move_text ''|Banzai Bill|''"
    "move_text ''|Spark pylon|''" "move_text ''|Gushen|''"
    using jumps [THEN spelled_gates] by (simp_all only: list_all_rec)
  have high: "move_text moon_high_jump" unfolding moon_high_jump_def by (rule move_text_or [OF spelled_gates [OF jumps(1)]])
  have either: "move_text (moon_or_join [''|Progressive Ground Pound:2|'', ''|Wall Slide|''])"
    by (intro move_text_or) (simp only: list_all_rec texts simp_thms)
  have "move_text (moon_and_join [moon_high_jump, ''|Cap Bounce|'', moon_or_join [''|Progressive Ground Pound:2|'', ''|Wall Slide|'']])"
    by (intro move_text_and) (simp only: list_all_rec texts high either simp_thms)
  then have lake: "move_text moon_lake_gate" unfolding moon_lake_gate_def by (intro move_text_or) (simp only: list_all_rec texts simp_thms)
  have valley: "move_text (moon_or_join [''|Gushen|'', moon_and_join [moon_jump ''PJ2'', ''|Wall Slide|'', ''|Cap Bounce|'']])"
    by (intro move_text_or; simp only: list_all_rec texts simp_thms; intro conjI move_text_and; simp only: list_all_rec texts simp_thms)
  show "move_text moon_cave_traversal" unfolding moon_cave_traversal_def
    by (intro move_text_or; simp only: list_all_rec texts simp_thms; intro conjI move_text_and; simp only: list_all_rec texts simp_thms)
  show "list_all move_text (map snd moon_kingdom_gates)"
    by (simp only: moon_kingdom_gates_def list.map snd_conv list_all_rec texts lake simp_thms)
  have "set (map snd moon_subarea_gates) \<subseteq> set (moon_or_join [''|Gushen|'', moon_and_join [moon_jump ''PJ2'', ''|Wall Slide|'', ''|Cap Bounce|'']] #
      map requirement moon_gate_reqs)" by code_simp
  then show "list_all move_text (map snd moon_subarea_gates)"
    by (rule list_all_subset [rotated]) (simp only: list_all_rec valley spelled_gates [OF subset_refl] simp_thms)
qed

lemma map_raising_all:
  "map_raising f xs = Inr ys \<Longrightarrow> (\<And>x y. x \<in> set xs \<Longrightarrow> f x = Inr y \<Longrightarrow> P y) \<Longrightarrow> list_all P ys"
proof (induction xs arbitrary: ys)
  case (Cons x xs)
  then obtain y zs where "f x = Inr y" "map_raising f xs = Inr zs" "ys = y # zs"
    by (cases "map_raising f xs") (auto split: sum.splits)
  moreover have "list_all P zs" using Cons.IH \<open>map_raising f xs = Inr zs\<close> Cons.prems(2) by (metis list.set_intros(2))
  ultimately show ?case using Cons.prems(2) [of x y] by simp
qed simp

lemma moon_capture_text: "captures_ok groups \<Longrightarrow> moon_capture_term groups = Some p \<Longrightarrow> move_text p"
proof -
  assume ok: "captures_ok groups" and p: "moon_capture_term groups = Some p"
  have "move_text (item_text c)" if "c \<in> set (moon_not_free g)" "g \<in> set groups" for c g
  proof -
    have "plain_name c" using that ok by (auto simp: captures_ok_def list_all_iff moon_not_free_def)
    then have "move_req (Item c)" by (simp add: plain_item_simps)
    from move_text_requirement [OF this] show ?thesis by (simp add: requirement_def)
  qed
  then have "list_all move_text (map (\<lambda>g. moon_and_join (map item_text (moon_not_free g))) groups)"
    by (auto simp: list_all_iff intro!: move_text_and)
  then show ?thesis using p move_text_or by (auto simp: moon_capture_term_def split: if_splits)
qed

lemma moon_height_text: "list_all move_text (moon_height_terms m)"
proof -
  have j: "move_text (moon_jump k)" if "k \<in> set (dict_keys moon_jump_frag)" for k
  proof -
    from that obtain v where "dict_get moon_jump_frag k = Some v" by (metis map_of_eq_None_iff option.exhaust set_map)
    then show ?thesis using table_text [OF moon_tables(1)] by (simp add: moon_jump_def)
  qed
  have keys: "set ks \<subseteq> set (dict_keys moon_jump_frag)" if "dict_get moon_height_satisfiers jh = Some ks" for jh ks
  proof -
    have "list_all (\<lambda>(_, ks). set ks \<subseteq> set (dict_keys moon_jump_frag)) moon_height_satisfiers" by code_simp
    with map_of_SomeD [OF that] show ?thesis by (auto simp: list_all_iff)
  qed
  have long: "''LONG_JUMP'' \<in> set (dict_keys moon_jump_frag)" by code_simp
  show ?thesis
  proof (cases "jump_height m")
    case (Some jh)
    show ?thesis
    proof (cases "dict_get moon_height_satisfiers jh")
      case (Some ks)
      have "list_all move_text (map moon_jump ks)" using j keys [OF Some] by (fastforce simp: list_all_iff subset_iff)
      then show ?thesis using \<open>jump_height m = Some jh\<close> Some j [OF long] by (simp add: moon_height_terms_def move_text_or)
    qed (simp add: moon_height_terms_def \<open>jump_height m = Some jh\<close> j [OF long])
  qed (simp add: moon_height_terms_def)
qed

lemma key_or_error_iff: "key_or_error d k = Inr v \<longleftrightarrow> dict_get d k = Some v"
  by (simp add: key_or_error_def split: option.split)

lemma compile_moon_text:
  assumes "captures_ok (mr_capture_groups rec)" "compile_moon rec = Inr s"
  shows "move_text s"
proof -
  let ?g = "mr_capture_groups rec"
  have throws: "list_all move_text ts" if th: "moon_throw_terms m = Inr ts" for m ts
  proof (cases "cap_throws m \<noteq> [] \<and> ''neutral'' \<notin> set (cap_throws m) \<and> ''none'' \<notin> set (cap_throws m)")
    case True
    with th obtain fs where "map_raising (key_or_error moon_throw_frag) (cap_throws m) = Inr fs" "ts = [moon_or_join fs]"
      by (cases "map_raising (key_or_error moon_throw_frag) (cap_throws m)") (auto simp: moon_throw_terms_def)
    then show ?thesis
      using map_raising_all [of "key_or_error moon_throw_frag" "cap_throws m" fs move_text] table_text [OF moon_tables(2)]
      by (simp add: key_or_error_iff move_text_or)
  next
    case False
    with th show ?thesis by (auto simp: moon_throw_terms_def split: if_splits)
  qed
  have need: "move_text (or_default f [])" if "moon_other_term ?g n = Inr f" for n f
  proof (cases "n = ''capture''")
    case True
    with that moon_capture_text [OF assms(1)] show ?thesis by (cases f) (auto simp: moon_other_term_def)
  next
    case False
    with that have "(n, f) \<in> set moon_other_frag" by (simp add: moon_other_term_def key_or_error_iff map_of_SomeD)
    then have "or_default f [] \<in> set (map (\<lambda>(_, f). or_default f []) moon_other_frag)" by (metis (mono_tags, lifting) case_prod_conv image_eqI list.set_map)
    with moon_tables(3) show ?thesis unfolding list_all_iff by (rule bspec)
  qed
  have "move_text e" if m: "moon_compile_method ?g m = Inr e" for m e
  proof -
    from m obtain ts fs where t: "moon_throw_terms m = Inr ts" "map_raising (moon_other_term ?g) (other_required m) = Inr fs"
      "e = moon_and_join (moon_height_terms m @ ts @ List.map_filter id fs)"
      by (cases "map_raising (moon_other_term ?g) (other_required m)") (auto simp: moon_compile_method_def split: sum.splits)
    have "list_all (\<lambda>f. move_text (or_default f [])) fs" by (rule map_raising_all [OF t(2)]) (rule need)
    then have "list_all move_text (List.map_filter id fs)" by (auto simp: list_all_iff map_filter_def)
    then show ?thesis unfolding t(3) using throws [OF t(1)] moon_height_text by (intro move_text_and) simp
  qed
  moreover obtain es where es: "map_raising (moon_compile_method ?g) (List.map_filter snd (mr_methods rec)) = Inr es"
    "s = (let exprs = first_copies [] es in if [] \<in> set exprs then [] else moon_or_join exprs)"
    using assms(2) by (cases "map_raising (moon_compile_method ?g) (List.map_filter snd (mr_methods rec))") (auto simp: compile_moon_def)
  ultimately have "list_all move_text (first_copies [] es)"
    using map_raising_all [OF es(1), of move_text] by (auto simp: list_all_iff set_first_copies)
  then show ?thesis unfolding es(2) by (simp add: Let_def move_text_or)
qed

section \<open>The gates of a moon\<close>

lemma in_foldl_dict_set: "x \<in> set (foldl (\<lambda>d k. dict_set k (v k) d) d ks) \<Longrightarrow> x \<in> set d \<or> snd x \<in> v ` set ks"
proof (induction ks arbitrary: d)
  case (Cons k ks)
  then have "x \<in> set (dict_set k (v k) d) \<or> snd x \<in> v ` set ks" by (simp only: foldl_Cons)
  then show ?case using in_dict_set [of x k "v k" d] by auto
qed simp

lemma loc_subarea_gate_text: "dict_get (loc_subarea_gate i) loc = Some g \<Longrightarrow> move_text g"
proof -
  have "snd x \<in> snd ` set gates \<or> x \<in> set d"
    if "x \<in> set (foldl (\<lambda>d (n, gate). foldl (\<lambda>d loc. dict_set loc gate d) d (subarea_members (li_subareas i) n)) d gates)" for x d gates
    using that
  proof (induction gates arbitrary: d)
    case (Cons p gates)
    from Cons.prems Cons.IH [of "foldl (\<lambda>d loc. dict_set loc (snd p) d) d (subarea_members (li_subareas i) (fst p))"]
    have "snd x \<in> snd ` set gates \<or> x \<in> set (foldl (\<lambda>d loc. dict_set loc (snd p) d) d (subarea_members (li_subareas i) (fst p)))"
      by (simp add: split_def)
    then show ?case using in_foldl_dict_set [of x "\<lambda>_. snd p" d] by (cases p) auto
  qed simp
  from this [of "(loc, g)" "[]" moon_subarea_gates] show "dict_get (loc_subarea_gate i) loc = Some g \<Longrightarrow> move_text g"
    using moon_composed_gates(3) by (auto simp: loc_subarea_gate_def list_all_iff dest!: map_of_SomeD)
qed

lemma one_gate_text: "(\<And>g. dict_get table k = Some g \<Longrightarrow> P g) \<Longrightarrow> list_all P (one_gate table k)"
  by (simp add: one_gate_def split: option.split)

lemma location_gates_sound:
  assumes "\<And>g. dict_get (scenario_gate_by_name i) loc = Some g \<Longrightarrow> sound_part env st res g"
  shows "list_all (sound_part env st res) (location_gates i loc)"
proof -
  have table: "list_all (sound_part env st res) (one_gate d k)" if "list_all move_text (map snd d)" for d k
    by (intro one_gate_text move_text_sound table_text [OF that])
  have "list_all (sound_part env st res) (one_gate (loc_subarea_gate i) loc)"
    by (intro one_gate_text move_text_sound) (rule loc_subarea_gate_text)
  moreover have "list_all (sound_part env st res) (filter (\<lambda>f. f \<noteq> []) (one_gate (scenario_gate_by_name i) loc))"
    using one_gate_text [of _ _ "sound_part env st res", OF assms] by (auto simp: list_all_iff)
  ultimately show ?thesis
    using moon_composed_gates(1,2) moon_tables(4-6)
    by (simp add: location_gates_def gates_for_def Let_def table move_text_sound)
qed

section \<open>The compiled tables\<close>

lemma compile_recordsE:
  assumes "compile_records i recs d = Inr compiled" "dict_get compiled loc = Some s"
  shows "dict_get d loc = Some s \<or>
    (\<exists>rec base. rec \<in> set recs \<and> mr_location_name rec = Some loc \<and> compile_moon rec = Inr base \<and> s = moon_and_join (base # location_gates i loc))"
  using assms
proof (induction recs arbitrary: d)
  case (Cons rec recs)
  then obtain e where e: "compile_record i rec d = Inr e" "compile_records i recs e = Inr compiled" by (auto split: sum.splits)
  have "dict_get e loc = Some s \<Longrightarrow> dict_get d loc = Some s \<or>
      (\<exists>base. mr_location_name rec = Some loc \<and> compile_moon rec = Inr base \<and> s = moon_and_join (base # location_gates i loc))"
    using e(1) by (cases "compile_moon rec") (auto simp: compile_record_def Let_def split: if_splits elim!: truthyE)
  then show ?case using Cons.IH [OF e(2) Cons.prems(2)] by auto
qed simp

definition full_gate_members :: "logic_inputs \<Rightarrow> string list" where
  "full_gate_members i = concat (map (subarea_members (li_subareas i)) (dict_keys subarea_interior_full_gates))"

lemma apply_full_gates_get: "loc \<notin> set (full_gate_members i) \<Longrightarrow> dict_get (apply_full_gates i compiled) loc = dict_get compiled loc"
proof -
  have "loc \<notin> set ks \<Longrightarrow> dict_get (foldl (\<lambda>d k. if k \<in> set (junk_names i) then d else dict_set k g d) d ks) loc = dict_get d loc" for ks g d
    by (induction ks arbitrary: d) auto
  then show "loc \<notin> set (full_gate_members i) \<Longrightarrow> ?thesis"
    by (simp add: apply_full_gates_def full_gate_members_def subarea_interior_full_gates_def)
qed

lemma compiled_requires_meaning:
  assumes "compiled_requires i = Inr compiled" "dict_get compiled loc = Some s" "loc \<notin> set (full_gate_members i)"
    "list_all (\<lambda>(_, rec). captures_ok (mr_capture_groups rec)) (li_requirements i)"
    "\<And>g. dict_get (scenario_gate_by_name i) loc = Some g \<Longrightarrow> sound_part env st res g"
  shows "\<exists>n rec base. (n, rec) \<in> set (li_requirements i) \<and> mr_location_name rec = Some loc \<and> compile_moon rec = Inr base \<and>
    check_require_string env s st = Inr (list_all (\<lambda>p. check_require_string env p st = Inr True) (base # location_gates i loc))"
proof -
  obtain c where c: "compile_records i (map snd (li_requirements i)) [] = Inr c" "compiled = apply_full_gates i c"
    using assms(1) by (cases "compile_records i (map snd (li_requirements i)) []") (auto simp: compiled_requires_def)
  then have "dict_get c loc = Some s" using assms(2,3) by (simp add: apply_full_gates_get)
  from compile_recordsE [OF c(1) this] obtain n rec base where r: "(n, rec) \<in> set (li_requirements i)" "mr_location_name rec = Some loc"
    "compile_moon rec = Inr base" "s = moon_and_join (base # location_gates i loc)" by auto
  have "sound_part env st res base"
    using r(1) assms(4) by (intro move_text_sound compile_moon_text [OF _ r(3)]) (auto simp: list_all_iff)
  then have "list_all (sound_part env st res) (base # location_gates i loc)"
    using location_gates_sound [of i loc env st res, OF assms(5)] by simp
  from moon_and_join_sound(2) [OF this] r show ?thesis by blast
qed


lemma exported_gate_get:
  "x \<in> set (build_subarea_scenario_gates subareas excluded junk known scenario) \<Longrightarrow>
   dict_get scenario (fst x) = Some (snd x) \<and> fst x \<notin> set junk"
proof -
  let ?step = "\<lambda>gates loc. if loc \<in> set junk \<or> loc \<notin> set known then gates
      else (case dict_get scenario loc of None \<Rightarrow> gates | Some frag \<Rightarrow> if frag \<noteq> [] then dict_set loc frag gates else gates)"
  have "x \<in> set (foldl ?step d ks) \<Longrightarrow> x \<in> set d \<or> dict_get scenario (fst x) = Some (snd x) \<and> fst x \<notin> set junk" for ks d
  proof (induction ks arbitrary: d)
    case (Cons k ks)
    then have "x \<in> set (?step d k) \<or> dict_get scenario (fst x) = Some (snd x) \<and> fst x \<notin> set junk" by simp
    then show ?case by (auto split: if_splits option.splits dest: in_dict_set)
  qed simp
  from this [where d = "[]"] show "x \<in> set (build_subarea_scenario_gates subareas excluded junk known scenario) \<Longrightarrow> ?thesis"
    by (simp add: build_subarea_scenario_gates_def)
qed

lemma compile_records_key:
  assumes "compile_records i recs d = Inr compiled" "rec \<in> set recs \<and> mr_location_name rec = Some loc \<and> loc \<noteq> [] \<and> loc \<notin> set (junk_names i) \<or> dict_get d loc \<noteq> None"
  shows "dict_get compiled loc \<noteq> None"
  using assms
proof (induction recs arbitrary: d)
  case (Cons r recs)
  then obtain e where e: "compile_record i r d = Inr e" "compile_records i recs e = Inr compiled" by (auto split: sum.splits)
  have "dict_get d loc \<noteq> None \<or> r = rec \<and> mr_location_name rec = Some loc \<and> loc \<noteq> [] \<and> loc \<notin> set (junk_names i) \<Longrightarrow> dict_get e loc \<noteq> None"
    using e(1) by (cases "compile_moon r") (auto simp: compile_record_def Let_def split: if_splits)
  then show ?case using Cons.IH [OF e(2)] Cons.prems(2) by auto
qed simp

text \<open>C27 The two paths agree: a scenario gate exported for the entrance shuffle is one the compiled requirement
  of the same location implies, so what \<open>hooks/World.py\<close> re-applies to a shuffled moon never asks for more
  than the moon's own requirement did.\<close>

theorem exported_gate_is_baked:
  assumes "compile_locations i = Inr (rows, exported)" "dict_get exported loc = Some g" "l \<in> set rows" "ld_name l = loc"
    "loc \<noteq> goal_location" "loc \<noteq> []" "(n, rec) \<in> set (li_requirements i)" "mr_location_name rec = Some loc" "loc \<notin> set (full_gate_members i)"
    "list_all (\<lambda>(_, rec). captures_ok (mr_capture_groups rec)) (li_requirements i)" "sound_part env st res g"
  shows "\<exists>s. ld_requires l = Some (ReqString s) \<and>
    (check_require_string env s st = Inr True \<longrightarrow> check_require_string env g st = Inr True)"
proof -
  obtain compiled where c: "compiled_requires i = Inr compiled" "rows = map (write_location i compiled) (li_locations i)" "exported = exported_scenario_gates i"
    using assms(1) by (cases "compiled_requires i") (auto simp: compile_locations_def)
  have "(loc, g) \<in> set exported" using assms(2) by (rule map_of_SomeD)
  then have g: "dict_get (scenario_gate_by_name i) loc = Some g" "loc \<notin> set (junk_names i)"
    using exported_gate_get by (fastforce simp: c(3) exported_scenario_gates_def)+
  obtain d where d: "compile_records i (map snd (li_requirements i)) [] = Inr d" "compiled = apply_full_gates i d"
    using c(1) by (cases "compile_records i (map snd (li_requirements i)) []") (auto simp: compiled_requires_def)
  have "dict_get d loc \<noteq> None" using assms(6-8) g(2) by (intro compile_records_key [OF d(1)]) force
  then obtain s where s: "dict_get compiled loc = Some s" using assms(9) by (auto simp: d(2) apply_full_gates_get)
  obtain k where "l = write_location i compiled k" using assms(3) c(2) by auto
  then have "ld_requires l = Some (ReqString s)" using assms(4,5) s by (auto simp: write_location_def Let_def split: if_splits option.splits)
  moreover have "check_require_string env g st = Inr True" if "check_require_string env s st = Inr True"
  proof (cases "g = []")
    case False
    have "\<And>h. dict_get (scenario_gate_by_name i) loc = Some h \<Longrightarrow> sound_part env st res h" using g(1) assms(11) by simp
    from compiled_requires_meaning [OF c(1) s assms(9,10) this] obtain base where
      "check_require_string env s st = Inr (list_all (\<lambda>p. check_require_string env p st = Inr True) (base # location_gates i loc))" by blast
    moreover have "g \<in> set (location_gates i loc)" using g(1) False by (simp add: location_gates_def gates_for_def Let_def one_gate_def)
    ultimately show ?thesis using that by (simp add: list_all_iff)
  qed (simp add: check_require_string_def)
  ultimately show ?thesis by blast
qed

section \<open>The earliest scenario\<close>

lemma and_minus_even: "and (2 * b) (- (2 * b)) = 2 * and b (- b)" for b :: int
proof -
  have "(- (2 * b)) div 2 = - b" by presburger
  then show ?thesis by (subst and_rec) simp
qed

lemma and_minus_odd: "odd a \<Longrightarrow> and a (- a) = 1" for a :: int
proof -
  assume "odd a"
  then obtain b where a: "a = 2 * b + 1" by (rule oddE)
  have "(- a) div 2 = not b" unfolding a not_eq_complement by presburger
  then show ?thesis using \<open>odd a\<close> by (subst and_rec) (simp add: a)
qed

text \<open>\<open>lowest_set_bit\<close> is the index of the lowest bit that is set, for every positive mask.\<close>

theorem lowest_set_bit_meaning:
  assumes "0 < flag"
  shows "bit flag (nat (lowest_set_bit flag)) \<and> (\<forall>i < nat (lowest_set_bit flag). \<not> bit flag i)"
proof -
  have "\<exists>k m. flag = 2 ^ k * m \<and> odd m \<and> 0 < m"
  proof -
    have "\<exists>k m. n = 2 ^ k * m \<and> odd m \<and> 0 < m" if "0 < n" for n :: nat
      using that
    proof (induction n rule: less_induct)
      case (less n)
      show ?case
      proof (cases "even n")
        case True
        then obtain b where "n = 2 * b" by (rule evenE)
        with less.IH [of b] less.prems obtain k m where "b = 2 ^ k * m" "odd m" "0 < m" by auto
        then show ?thesis using \<open>n = 2 * b\<close> by (intro exI [of _ "Suc k"] exI [of _ m]) simp
      qed (use less.prems in \<open>intro exI [of _ 0] exI [of _ n], simp\<close>)
    qed
    from this [of "nat flag"] assms obtain k m where "nat flag = 2 ^ k * m" "odd m" "0 < m" by auto
    have "flag = int (nat flag)" using assms by simp
    also have "\<dots> = int (2 ^ k * m)" using \<open>nat flag = 2 ^ k * m\<close> by simp
    finally have "flag = int (2 ^ k * m)" .
    with \<open>odd m\<close> \<open>0 < m\<close> have "flag = 2 ^ k * int m" "odd (int m)" "0 < int m" by simp_all
    then show ?thesis by blast
  qed
  then obtain k m where m: "flag = 2 ^ k * m" "odd m" "0 < m" by blast
  have "and (2 ^ k * m) (- (2 ^ k * m)) = 2 ^ k"
    by (induction k) (simp_all add: and_minus_odd [OF m(2)] and_minus_even mult.assoc)
  moreover have "bitlen 1 = 1" by code_simp
  ultimately have "lowest_set_bit flag = int k"
    using assms bitlen_pow2 [of 1 k] by (simp add: lowest_set_bit_def m(1))
  moreover have "bit flag k" using m(2) by (simp add: m(1) bit_iff_odd)
  moreover have "\<not> bit flag i" if "i < k" for i
  proof -
    have "2 ^ k = (2 :: int) ^ i * 2 ^ (k - i)" using that by (simp flip: power_add)
    then have "flag div 2 ^ i = 2 ^ (k - i) * m" by (simp add: m(1) mult.assoc)
    then show ?thesis using that by (simp add: bit_iff_odd)
  qed
  ultimately show ?thesis by simp
qed

section \<open>A small run\<close>

definition shop_record :: moon_record where
  "shop_record = \<lparr>mr_methods = [(''1'', Some \<lparr>jump_height = Some ''backflip'', cap_throws = [], other_required = []\<rparr>), (''2'', None)],
     mr_capture_groups = [], mr_location_name = Some ''Metro: Rooftop''\<rparr>"

definition metro_row :: location_data where
  "metro_row = \<lparr>ld_name = ''Metro: Rooftop'', ld_region = ''Metro Kingdom'', ld_requires = None, ld_category = [], ld_filler_only = False,
     ld_junk_only = False, ld_multi_moon = False, ld_moon_postwin = False, ld_victory = False, ld_progression = False\<rparr>"

definition sample_inputs :: logic_inputs where
  "sample_inputs = \<lparr>li_requirements = [(''Metro Kingdom: Rooftop'', shop_record)],
     li_subareas = [(''Rooftops'', \<lparr>sa_kingdom = ''Metro Kingdom'', sa_location_names = [''Metro: Rooftop'']\<rparr>)],
     li_locations = [metro_row], li_shines = [], li_scenarios = [], li_scenario_gates = [(''Metro: Rooftop'', ''{MetroPeace()}'')], li_exclusions = []\<rparr>"

definition rooftop_requires :: string where
  "rooftop_requires =
     ''((|Cap Bounce| or (|Backflip| and |Progressive Crouch:1|) or |Side Flip| or |Spin| or (|Ground Pound Jump| and |Progressive Ground Pound:1|) or |Progressive Jump:2|) and |Spark pylon| and {MetroPeace()})''"

lemma sample_compiled:
  "compiled_requires sample_inputs = Inr [(''Metro: Rooftop'', rooftop_requires)]"
  "compile_locations sample_inputs = Inr ([metro_row\<lparr>ld_requires := Some (ReqString rooftop_requires)\<rparr>], [(''Metro: Rooftop'', ''{MetroPeace()}'')])"
  by code_simp+

text \<open>A player who owns what the state lists, in a world where the festival is over.\<close>

definition metro_world :: "(string list) hook_env" where
  "metro_world = \<lparr>he_counts = [], he_table = [], he_count = (\<lambda>n st. int (count_list st n)),
     he_reach_location = (\<lambda>l st. l = ''Metro: A Traditional Festival!''), he_reach_region = (\<lambda>r st. False),
     he_option = (\<lambda>_. 0), he_rolled_gates = None, he_percent = (\<lambda>_ n. Inr n), he_item_value = (\<lambda>_ _. Inl KeyError)\<rparr>"

lemma metro_peace_sound:
  "sound_part (world_env metro_world) st (\<lambda>_ _. Bit (he_reach_location metro_world ''Metro: A Traditional Festival!'' st)) ''{MetroPeace()}''"
proof -
  have "dict_get peace_locations ''MetroPeace'' = Some ''Metro: A Traditional Festival!''" by code_simp
  note p = peace_call(1) [OF this] peace_settled(2) [OF this, of metro_world st]
  have "''{MetroPeace()}'' = requirement (Call ''MetroPeace'' [])" by (simp add: requirement_def call_text_def)
  then show ?thesis using p unfolding sound_part_def sound_req_def by (intro disjI2 exI [of _ "Call ''MetroPeace'' []"]) simp
qed

lemma sample_gate: "dict_get (scenario_gate_by_name sample_inputs) ''Metro: Rooftop'' = Some ''{MetroPeace()}''"
  "list_all (\<lambda>(_, rec). captures_ok (mr_capture_groups rec)) (li_requirements sample_inputs)" "''Metro: Rooftop'' \<notin> set (full_gate_members sample_inputs)"
  by code_simp+


theorem exported_gate_is_baked_witness:
  "\<exists>s. ld_requires (metro_row\<lparr>ld_requires := Some (ReqString rooftop_requires)\<rparr>) = Some (ReqString s) \<and>
     (check_require_string (world_env metro_world) s [] = Inr True) \<le> (check_require_string (world_env metro_world) ''{MetroPeace()}'' [] = Inr True)"
  unfolding le_bool_def
proof (rule exported_gate_is_baked [OF sample_compiled(2) _ _ _ _ _ _ _ sample_gate(3,2) metro_peace_sound])
  show "(''Metro Kingdom: Rooftop'', shop_record) \<in> set (li_requirements sample_inputs)" by (simp add: sample_inputs_def)
  show "''Metro: Rooftop'' \<noteq> goal_location" by (simp add: goal_location_def)
qed (simp_all add: metro_row_def shop_record_def)

section \<open>The mirror in \<open>entrance_logic.py\<close>\<close>

text \<open>\<open>compile_interior_requires\<close> is documented to mirror \<open>compile_moon\<close> exactly, but its tables lack the spin jump
  and the third free capture: with the entrance shuffle on, the height a spin jump reaches no longer counts.\<close>

lemma spin_jump_not_mirrored:
  "compile_moon shop_record =
     Inr ''(|Cap Bounce| or (|Backflip| and |Progressive Crouch:1|) or |Side Flip| or |Spin| or (|Ground Pound Jump| and |Progressive Ground Pound:1|) or |Progressive Jump:2|)'' \<and>
   compile_interior_requires shop_record =
     ''(|Cap Bounce| or (|Backflip| and |Progressive Crouch:1|) or |Side Flip| or (|Ground Pound Jump| and |Progressive Ground Pound:1|) or |Progressive Jump:2|)''"
  by code_simp

lemma free_capture_not_mirrored:
  "moon_capture_term [[broodes_chain_chomp]] = None \<and> capture_term [[broodes_chain_chomp]] = Some (item_text broodes_chain_chomp)"
  by code_simp

end
