(* ===== verification/Pack_Rules.thy ===== *)
theory Pack_Rules
  imports Data_Checks
begin

text \<open>
  \<open>scripts/build_poptracker_pack.py\<close>, its translation of requirements: a tokenizer, a recursive-descent
  parser and a conversion to the disjunctive normal form PopTracker takes as the access rules of a
  location. An exception the script defines itself is a \<open>GenericException\<close> with its name.
\<close>

section \<open>Tokens\<close>

definition parse_error :: exn where "parse_error = GenericException ''RequireParseError''"

datatype pack_token = LParen | RParen | LBrace | RBrace | Comma | ItemTok string
  | AndTok string | OrTok string | Ident string

definition ident_char :: "char \<Rightarrow> bool" where
  "ident_char c \<longleftrightarrow> c \<notin> set ''(){},|'' \<and> \<not> is_space c"

definition word_token :: "string \<Rightarrow> pack_token" where
  "word_token w = (if lower w = ''and'' then AndTok w else if lower w = ''or'' then OrTok w else Ident w)"

function tokenize :: "string \<Rightarrow> exn + pack_token list" where
  "tokenize s =
     (case s of
        [] \<Rightarrow> Inr []
      | c # t \<Rightarrow>
          if is_space c then tokenize t
          else if c = CHR ''('' then map_sum id ((#) LParen) (tokenize t)
          else if c = CHR '')'' then map_sum id ((#) RParen) (tokenize t)
          else if c = CHR ''{'' then map_sum id ((#) LBrace) (tokenize t)
          else if c = CHR ''}'' then map_sum id ((#) RBrace) (tokenize t)
          else if c = CHR '','' then map_sum id ((#) Comma) (tokenize t)
          else if c = CHR ''|'' then
            (case dropWhile (\<lambda>c. c \<noteq> CHR ''|'') t of
               [] \<Rightarrow> Inl parse_error
             | _ # r \<Rightarrow> map_sum id ((#) (ItemTok (takeWhile (\<lambda>c. c \<noteq> CHR ''|'') t))) (tokenize r))
          else map_sum id ((#) (word_token (takeWhile ident_char (c # t)))) (tokenize (dropWhile ident_char t)))"
  by pat_completeness auto
termination
proof (relation "measure length", goal_cases)
  case (8 s c t b r)
  then show ?case using length_dropWhile_le [of "\<lambda>c. c \<noteq> CHR ''|''" t] by simp
next
  case (9 s c t)
  then show ?case using length_dropWhile_le [of ident_char t] by simp
qed auto

declare tokenize.simps [simp del]

fun emit_token :: "pack_token \<Rightarrow> string" where
  "emit_token (ItemTok v) = item_text v"
| "emit_token LParen = ''(''"
| "emit_token RParen = '')''"
| "emit_token (AndTok w) = '' and ''"
| "emit_token (OrTok w) = '' or ''"
| "emit_token Comma = '',''"
| "emit_token LBrace = ''{''"
| "emit_token RBrace = ''}''"
| "emit_token (Ident w) = w"

section \<open>The parser\<close>

datatype ast = PTrue | PFalse | PItem string int | PFunc string "string list" | PAnd "ast list" | POr "ast list"

text \<open>\<open>body.split(":", 1)\<close> for a body with a colon.\<close>

definition item_node :: "string \<Rightarrow> exn + ast" where
  "item_node body =
     (if CHR '':'' \<in> set body
      then (case py_int (strip (tl (dropWhile (\<lambda>c. c \<noteq> CHR '':'') body))) of
              None \<Rightarrow> Inl parse_error
            | Some n \<Rightarrow> Inr (PItem (strip (takeWhile (\<lambda>c. c \<noteq> CHR '':'') body)) n))
      else Inr (PItem (strip body) 1))"

text \<open>The arguments of a call up to its closing parenthesis, each as the text of its tokens.\<close>

fun func_args :: "int \<Rightarrow> string list \<Rightarrow> string \<Rightarrow> pack_token list \<Rightarrow> exn + string list \<times> pack_token list" where
  "func_args depth args cur [] = Inl parse_error"
| "func_args depth args cur (t # ts) =
     (if t = RParen \<and> depth = 0 then Inr (if strip cur = [] then args else args @ [strip cur], ts)
      else if t = Comma \<and> depth = 0 then func_args depth (args @ [strip cur]) [] ts
      else func_args (if t = LParen then depth + 1 else if t = RParen then depth - 1 else depth) args (cur @ emit_token t) ts)"

definition parse_func :: "pack_token list \<Rightarrow> exn + ast \<times> pack_token list" where
  "parse_func ts =
     (case ts of
        Ident name # LParen # r \<Rightarrow>
          (case func_args 0 [] [] r of
             Inr (args, RBrace # r) \<Rightarrow> Inr (PFunc name args, r)
           | Inr _ \<Rightarrow> Inl parse_error
           | Inl e \<Rightarrow> Inl e)
      | _ \<Rightarrow> Inl parse_error)"

lemma map_sum_Inr: "map_sum id f x = Inr y \<longleftrightarrow> (\<exists>z. x = Inr z \<and> y = f z)"
  by (cases x) auto

lemma func_args_shorter: "func_args depth args cur ts = Inr (as, r) \<Longrightarrow> length r < length ts"
  by (induction depth args cur ts rule: func_args.induct) (auto split: if_splits)

lemma parse_func_shorter: "parse_func ts = Inr (n, r) \<Longrightarrow> length r < length ts"
  by (auto simp: parse_func_def dest!: func_args_shorter split: list.splits pack_token.splits sum.splits prod.splits)

text \<open>A token that is not the one a caller takes is left where it is. \<open>parse_or_rest\<close> and \<open>parse_and_rest\<close>
  are the \<open>while\<close> loops, with the children parsed so far.\<close>

function parse_or :: "pack_token list \<Rightarrow> exn + ast \<times> pack_token list"
  and parse_or_rest :: "ast list \<Rightarrow> pack_token list \<Rightarrow> exn + ast \<times> pack_token list"
  and parse_and :: "pack_token list \<Rightarrow> exn + ast \<times> pack_token list"
  and parse_and_rest :: "ast list \<Rightarrow> pack_token list \<Rightarrow> exn + ast \<times> pack_token list"
  and parse_atom :: "pack_token list \<Rightarrow> exn + ast \<times> pack_token list" where
  "parse_or ts = (case parse_and ts of Inl e \<Rightarrow> Inl e | Inr (left, r) \<Rightarrow> parse_or_rest [left] r)"
| "parse_or_rest children ts =
     (case ts of
        OrTok w # ts \<Rightarrow> (case parse_and ts of Inl e \<Rightarrow> Inl e | Inr (n, r) \<Rightarrow> parse_or_rest (children @ [n]) r)
      | _ \<Rightarrow> Inr (if 1 < length children then POr children else hd children, ts))"
| "parse_and ts = (case parse_atom ts of Inl e \<Rightarrow> Inl e | Inr (left, r) \<Rightarrow> parse_and_rest [left] r)"
| "parse_and_rest children ts =
     (case ts of
        AndTok w # ts \<Rightarrow> (case parse_atom ts of Inl e \<Rightarrow> Inl e | Inr (n, r) \<Rightarrow> parse_and_rest (children @ [n]) r)
      | _ \<Rightarrow> Inr (if 1 < length children then PAnd children else hd children, ts))"
| "parse_atom ts =
     (case ts of
        LParen # ts \<Rightarrow> (case parse_or ts of Inr (n, RParen # r) \<Rightarrow> Inr (n, r) | Inr _ \<Rightarrow> Inl parse_error | Inl e \<Rightarrow> Inl e)
      | LBrace # ts \<Rightarrow> parse_func ts
      | ItemTok body # ts \<Rightarrow> map_sum id (\<lambda>n. (n, ts)) (item_node body)
      | _ \<Rightarrow> Inl parse_error)"
  by pat_completeness auto

termination
proof -
  have parse_shorter:
    "parse_or_parse_or_rest_parse_and_parse_and_rest_parse_atom_dom (Inl (Inl ts)) \<Longrightarrow> parse_or ts = Inr (n, r) \<Longrightarrow> length r < length ts"
      "parse_or_parse_or_rest_parse_and_parse_and_rest_parse_atom_dom (Inl (Inr (cs, ts))) \<Longrightarrow> parse_or_rest cs ts = Inr (n, r) \<Longrightarrow> length r \<le> length ts"
      "parse_or_parse_or_rest_parse_and_parse_and_rest_parse_atom_dom (Inr (Inl ts)) \<Longrightarrow> parse_and ts = Inr (n, r) \<Longrightarrow> length r < length ts"
      "parse_or_parse_or_rest_parse_and_parse_and_rest_parse_atom_dom (Inr (Inr (Inl (cs, ts)))) \<Longrightarrow> parse_and_rest cs ts = Inr (n, r) \<Longrightarrow> length r \<le> length ts"
      "parse_or_parse_or_rest_parse_and_parse_and_rest_parse_atom_dom (Inr (Inr (Inr ts))) \<Longrightarrow> parse_atom ts = Inr (n, r) \<Longrightarrow> length r < length ts"
    for ts cs n r
  proof (induction ts and cs ts and ts and cs ts and ts arbitrary: n r and n r and n r and n r and n r
      rule: parse_or_parse_or_rest_parse_and_parse_and_rest_parse_atom.pinduct)
    case (1 ts)
    then show ?case by (fastforce simp: parse_or.psimps split: sum.splits prod.splits)
  next
    case (2 cs ts)
    then show ?case by (fastforce simp: parse_or_rest.psimps split: sum.splits prod.splits list.splits pack_token.splits)
  next
    case (3 ts)
    then show ?case by (fastforce simp: parse_and.psimps split: sum.splits prod.splits)
  next
    case (4 cs ts)
    then show ?case by (fastforce simp: parse_and_rest.psimps split: sum.splits prod.splits list.splits pack_token.splits)
  next
    case (5 ts)
    then show ?case
      by (auto simp: parse_atom.psimps map_sum_Inr dest!: parse_func_shorter split: sum.splits prod.splits list.splits pack_token.splits) fastforce+
  qed
  show ?thesis
    apply (relation "measure (\<lambda>x. case x of Inl (Inl ts) \<Rightarrow> 4 * length ts + 2 | Inl (Inr (cs, ts)) \<Rightarrow> 4 * length ts + 3
        | Inr (Inl ts) \<Rightarrow> 4 * length ts + 1 | Inr (Inr (Inl (cs, ts))) \<Rightarrow> 4 * length ts + 3 | Inr (Inr (Inr ts)) \<Rightarrow> 4 * length ts)")
    apply auto
       apply ((drule (1) parse_shorter(3) parse_shorter(5))?, linarith)+
    done
qed

declare parse_or.simps [simp del] parse_or_rest.simps [simp del] parse_and.simps [simp del] parse_and_rest.simps [simp del]
  parse_atom.simps [simp del]

definition parse_tokens :: "pack_token list \<Rightarrow> exn + ast" where
  "parse_tokens ts = (case parse_or ts of Inl e \<Rightarrow> Inl e | Inr (n, r) \<Rightarrow> if r = [] then Inr n else Inl parse_error)"

definition parse_text :: "string \<Rightarrow> exn + ast" where
  "parse_text s =
     (case tokenize (strip s) of
        Inl e \<Rightarrow> Inl e
      | Inr ts \<Rightarrow> if ts = [] then Inr PTrue else parse_tokens ts)"

lemma map_raising_cong [fundef_cong]:
  "xs = ys \<Longrightarrow> (\<And>x. x \<in> set ys \<Longrightarrow> f x = g x) \<Longrightarrow> map_raising f xs = map_raising g ys"
proof -
  have "(\<And>x. x \<in> set ys \<Longrightarrow> f x = g x) \<Longrightarrow> map_raising f ys = map_raising g ys"
    by (induction ys) (auto split: sum.splits)
  then show "xs = ys \<Longrightarrow> (\<And>x. x \<in> set ys \<Longrightarrow> f x = g x) \<Longrightarrow> map_raising f xs = map_raising g ys" by simp
qed

fun parse_requires :: "json \<Rightarrow> exn + ast" where
  "parse_requires JNull = Inr PTrue"
| "parse_requires (JList items) =
     (if items = [] then Inr PTrue
      else map_sum id (\<lambda>children. if length children = 1 then hd children else PAnd children) (map_raising parse_requires items))"
| "parse_requires (JStr s) = parse_text s"
| "parse_requires _ = Inl AttributeError"

section \<open>Terms of a rule\<close>

text \<open>\<open>re.sub(r"[^a-z0-9]+", "_", name.lower()).strip("_")\<close>.\<close>

definition code_char :: "char \<Rightarrow> bool" where
  "code_char c \<longleftrightarrow> is_digit c \<or> 97 \<le> (of_char c :: nat) \<and> (of_char c :: nat) \<le> 122"

function code_runs :: "string \<Rightarrow> string" where
  "code_runs s =
     (case s of
        [] \<Rightarrow> []
      | c # t \<Rightarrow> if code_char c then c # code_runs t else CHR ''_'' # code_runs (dropWhile (\<lambda>c. \<not> code_char c) t))"
  by pat_completeness auto
termination
proof (relation "measure length", goal_cases)
  case (3 s c t)
  then show ?case using length_dropWhile_le [of "\<lambda>c. \<not> code_char c" t] by simp
qed auto

declare code_runs.simps [simp del]

definition code_for :: "string \<Rightarrow> string" where
  "code_for name = strip_by (\<lambda>c. c = CHR ''_'') (code_runs (lower name))"

definition item_rule :: "string \<Rightarrow> int \<Rightarrow> string option" where
  "item_rule name n =
     (if n \<le> 0 then None
      else if n = 1 then Some (code_for name)
      else Some (''$has_count|'' @ code_for name @ ''|'' @ show_int n))"

text \<open>\<open>re.sub(r"(?<!^)(?=[A-Z])", "_", name).lower()\<close>.\<close>

definition is_upper :: "char \<Rightarrow> bool" where
  "is_upper c \<longleftrightarrow> 65 \<le> (of_char c :: nat) \<and> (of_char c :: nat) \<le> 90"

definition fn_code :: "string \<Rightarrow> string" where
  "fn_code name =
     (case name of
        [] \<Rightarrow> []
      | c # s \<Rightarrow> lower (c # concat (map (\<lambda>d. if is_upper d then [CHR ''_'', d] else [d]) s)))"

text \<open>Every call but \<open>OptAll\<close>, whose argument is a requirement itself.\<close>

definition func_rule :: "string \<Rightarrow> string list \<Rightarrow> exn + string list list" where
  "func_rule name args =
     (if name = ''OptOne'' then Inr (if args = [] then [[]] else [[''$capturesanity_off''], [code_for (hd args)]])
      else if name = ''YamlDisabled'' then Inr (if args = [] then [[]] else [[''$is_opt_off|'' @ strip (hd args)]])
      else if name = ''YamlEnabled'' then Inr (if args = [] then [[]] else [[''$is_opt|'' @ strip (hd args)]])
      else if name = ''KingdomMoons'' then
        (case args of
           [k, n] \<Rightarrow> Inr [[''$has_kingdom_moons|'' @ strip k @ ''|'' @ strip n]]
         | _ \<Rightarrow> Inl ValueError)
      else if name = ''ItemValue'' then Inr (if args = [] then [[]] else [[''$item_value|'' @ strip (hd args)]])
      else Inr [[CHR ''$'' # fn_code name @ (if args = [] then [] else CHR ''|'' # join ''|'' (map strip args))]])"

section \<open>Disjunctive normal form\<close>

definition merge_clause :: "string list \<Rightarrow> string list \<Rightarrow> string list" where
  "merge_clause left right = foldl (\<lambda>m t. if t \<in> set m then m else m @ [t]) left right"

definition merge_all :: "string list list \<Rightarrow> string list list \<Rightarrow> string list list" where
  "merge_all result child = concat (map (\<lambda>left. map (merge_clause left) child) result)"

definition add_clauses :: "string list list \<Rightarrow> string list list \<Rightarrow> string list list" where
  "add_clauses result clauses = foldl (\<lambda>r c. if c \<in> set r then r else r @ [c]) result clauses"

text \<open>What a requirement weighs, for the recursion into the argument of \<open>OptAll\<close>: its characters other than
  spaces, which the parser never adds to.\<close>

definition dense :: "string \<Rightarrow> nat" where "dense s = length (filter (\<lambda>c. \<not> is_space c) s)"

fun token_weight :: "pack_token \<Rightarrow> nat" where
  "token_weight (ItemTok v) = dense v + 2" | "token_weight (Ident w) = dense w"
| "token_weight (AndTok w) = 3" | "token_weight (OrTok w) = 2" | "token_weight _ = 1"

abbreviation tokens_weight :: "pack_token list \<Rightarrow> nat" where "tokens_weight ts \<equiv> \<Sum>t\<leftarrow>ts. token_weight t"

fun weight :: "ast \<Rightarrow> nat" where
  "weight (PItem name n) = 0" | "weight PTrue = 0" | "weight PFalse = 0"
| "weight (PFunc name args) = 1 + (\<Sum>a\<leftarrow>args. dense a)"
| "weight (PAnd cs) = (\<Sum>c\<leftarrow>cs. weight c)"
| "weight (POr cs) = (\<Sum>c\<leftarrow>cs. weight c)"

lemma dense_simps [simp]: "dense [] = 0" "dense (c # s) = (if is_space c then 0 else 1) + dense s" "dense (s @ t) = dense s + dense t"
  by (simp_all add: dense_def)

lemma dense_takeWhile: "dense (takeWhile p s) + dense (dropWhile p s) = dense s"
  by (induction s) auto

lemma dense_dropWhile: "dense (dropWhile p s) \<le> dense s"
  using dense_takeWhile [of p s] by simp

lemma dense_rev [simp]: "dense (rev s) = dense s"
  by (induction s) auto

lemma dense_strip: "dense (strip_by p s) \<le> dense s"
  unfolding strip_by_def using dense_dropWhile [of p "rev (dropWhile p s)"] dense_dropWhile [of p s] by simp

lemma not_space [simp]:
  "\<not> is_space CHR ''|''" "\<not> is_space CHR ''(''" "\<not> is_space CHR '')''" "\<not> is_space CHR ''{''" "\<not> is_space CHR ''}''"
  "\<not> is_space CHR '',''" "is_space CHR '' ''"
  by (simp_all add: is_space_def)

lemma dense_emit: "dense (emit_token t) = token_weight t"
  by (cases t) (simp_all add: item_text_def is_space_def)

lemma func_args_weight:
  "func_args depth args cur ts = Inr (as, r) \<Longrightarrow>
   (\<Sum>a\<leftarrow>as. dense a) + tokens_weight r + 1 \<le> (\<Sum>a\<leftarrow>args. dense a) + dense cur + tokens_weight ts"
proof (induction depth args cur ts rule: func_args.induct)
  case (2 depth args cur t ts)
  have "dense (strip cur) \<le> dense cur" by (rule dense_strip)
  then show ?case using 2 by (fastforce simp: dense_emit split: if_splits)
qed simp

lemma parse_func_weight: "parse_func ts = Inr (n, r) \<Longrightarrow> weight n + tokens_weight r \<le> tokens_weight ts"
  by (auto simp: parse_func_def dest!: func_args_weight split: list.splits pack_token.splits sum.splits prod.splits)

lemma item_node_weight: "item_node body = Inr n \<Longrightarrow> weight n = 0"
  by (auto simp: item_node_def split: if_splits option.splits)

lemma parse_weight:
  "parse_or ts = Inr (n, r) \<Longrightarrow> weight n + tokens_weight r \<le> tokens_weight ts"
  "cs \<noteq> [] \<Longrightarrow> parse_or_rest cs ts = Inr (n, r) \<Longrightarrow> weight n + tokens_weight r \<le> (\<Sum>c\<leftarrow>cs. weight c) + tokens_weight ts"
  "parse_and ts = Inr (n, r) \<Longrightarrow> weight n + tokens_weight r \<le> tokens_weight ts"
  "cs \<noteq> [] \<Longrightarrow> parse_and_rest cs ts = Inr (n, r) \<Longrightarrow> weight n + tokens_weight r \<le> (\<Sum>c\<leftarrow>cs. weight c) + tokens_weight ts"
  "parse_atom ts = Inr (n, r) \<Longrightarrow> weight n + tokens_weight r \<le> tokens_weight ts"
proof (induction ts and cs ts and ts and cs ts and ts arbitrary: n r and n r and n r and n r and n r
    rule: parse_or_parse_or_rest_parse_and_parse_and_rest_parse_atom.induct)
  case (1 ts)
  then show ?case by (fastforce simp: parse_or.simps [of ts] split: sum.splits prod.splits)
next
  case (2 cs ts)
  then show ?case
    by (fastforce simp: parse_or_rest.simps [of cs ts] neq_Nil_conv split: sum.splits prod.splits list.splits pack_token.splits if_splits)
next
  case (3 ts)
  then show ?case by (fastforce simp: parse_and.simps [of ts] split: sum.splits prod.splits)
next
  case (4 cs ts)
  then show ?case
    by (fastforce simp: parse_and_rest.simps [of cs ts] neq_Nil_conv split: sum.splits prod.splits list.splits pack_token.splits if_splits)
next
  case (5 ts)
  then show ?case
    by (auto simp: parse_atom.simps [of ts] map_sum_Inr dest!: parse_func_weight item_node_weight
        split: sum.splits prod.splits list.splits pack_token.splits) fastforce+
qed

lemma word_token_weight: "list_all ident_char w \<Longrightarrow> token_weight (word_token w) = dense w"
proof -
  assume "list_all ident_char w"
  then have "dense w = length w" by (induction w) (auto simp: ident_char_def)
  moreover have "length (lower w) = length w" by (simp add: lower_def)
  ultimately show ?thesis by (auto simp: word_token_def)
qed

lemma tokenize_weight: "tokenize s = Inr ts \<Longrightarrow> tokens_weight ts \<le> dense s"
proof (induction s arbitrary: ts rule: measure_induct_rule [where f = length])
  case (less s)
  show ?case
  proof (cases s)
    case Nil
    with less.prems show ?thesis by (simp add: tokenize.simps [of "[]"])
  next
    case (Cons c t)
    note tok = less.prems [unfolded Cons tokenize.simps [of "c # t"]]
    have IH: "tokenize u = Inr us \<Longrightarrow> length u \<le> length t \<Longrightarrow> tokens_weight us \<le> dense u" for u us
      using less.IH [of u us] by (simp add: Cons)
    consider "is_space c" | "c \<in> set ''(){},''" | "c = CHR ''|''" | "ident_char c" by (auto simp: ident_char_def)
    then show ?thesis
    proof cases
      case 1
      then show ?thesis using tok IH [of t ts] by (simp add: Cons)
    next
      case 2
      then have c: "\<not> is_space c" by auto
      from 2 c tok obtain u us where "tokenize t = Inr us" "ts = u # us" "token_weight u = 1" by (auto simp: map_sum_Inr)
      then show ?thesis using IH [of t us] c by (simp add: Cons)
    next
      case 3
      obtain r where r: "dropWhile (\<lambda>c. c \<noteq> CHR ''|'') t = CHR ''|'' # r"
      proof (cases "dropWhile (\<lambda>c. c \<noteq> CHR ''|'') t")
        case Nil
        with tok show thesis unfolding 3 by simp
      next
        case (Cons d r)
        then have "d = CHR ''|''" by (simp add: dropWhile_eq_Cons_conv)
        with Cons show thesis by (simp add: that)
      qed
      obtain us where us: "tokenize r = Inr us" "ts = ItemTok (takeWhile (\<lambda>c. c \<noteq> CHR ''|'') t) # us"
        using tok unfolding 3 by (simp add: r) (auto simp: map_sum_Inr)
      have "dense (takeWhile (\<lambda>c. c \<noteq> CHR ''|'') t) + dense r + 1 = dense t"
        using dense_takeWhile [of "\<lambda>c. c \<noteq> CHR ''|''" t] by (simp add: r)
      moreover have "length r \<le> length t" using length_dropWhile_le [of "\<lambda>c. c \<noteq> CHR ''|''" t] by (simp add: r)
      ultimately show ?thesis using IH [OF us(1)] unfolding Cons 3 us(2) by simp
    next
      case 4
      then have c: "\<not> is_space c" "c \<notin> set ''(){},|''" by (simp_all add: ident_char_def)
      obtain us where us: "tokenize (dropWhile ident_char t) = Inr us" "ts = word_token (takeWhile ident_char (c # t)) # us"
        using tok c by (auto simp: map_sum_Inr)
      have "tokens_weight us \<le> dense (dropWhile ident_char t)" using IH [OF us(1)] length_dropWhile_le [of ident_char t] by simp
      moreover have "list_all ident_char (takeWhile ident_char (c # t))" by (meson list_all_iff set_takeWhileD)
      moreover have "dense (takeWhile ident_char (c # t)) + dense (dropWhile ident_char t) = dense s"
        using dense_takeWhile [of ident_char "c # t"] 4 by (simp add: Cons)
      ultimately show ?thesis by (simp only: us(2) list.map sum_list.Cons word_token_weight)
    qed
  qed
qed

lemma parse_text_weight: "parse_text s = Inr n \<Longrightarrow> weight n \<le> dense s"
  using dense_strip [of is_space s]
  by (fastforce simp: parse_text_def parse_tokens_def dest!: tokenize_weight parse_weight(1) split: sum.splits prod.splits if_splits)

text \<open>\<open>dnf_and\<close> and \<open>dnf_or\<close> are the loops over the children, with the clauses so far.\<close>

function to_dnf :: "ast \<Rightarrow> exn + string list list"
  and dnf_and :: "string list list \<Rightarrow> ast list \<Rightarrow> exn + string list list"
  and dnf_or :: "string list list \<Rightarrow> ast list \<Rightarrow> exn + string list list" where
  "to_dnf n =
     (case n of
        PTrue \<Rightarrow> Inr [[]]
      | PFalse \<Rightarrow> Inr []
      | PItem name k \<Rightarrow> Inr (if truthy (item_rule name k) then [[the (item_rule name k)]] else [[]])
      | PFunc name args \<Rightarrow>
          if name = ''OptAll'' then
            (case args of
               [] \<Rightarrow> Inr [[]]
             | a # _ \<Rightarrow>
                 (case parse_text a of
                    Inl e \<Rightarrow> Inl e
                  | Inr inner \<Rightarrow> map_sum id (add_clauses [[''$capturesanity_off'']]) (to_dnf inner)))
          else func_rule name args
      | PAnd cs \<Rightarrow> dnf_and [[]] cs
      | POr cs \<Rightarrow> dnf_or [] cs)"
| "dnf_and result cs =
     (case cs of
        [] \<Rightarrow> Inr result
      | c # cs \<Rightarrow>
          (case to_dnf c of
             Inl e \<Rightarrow> Inl e
           | Inr child \<Rightarrow> if merge_all result child = [] then Inr [] else dnf_and (merge_all result child) cs))"
| "dnf_or result cs =
     (case cs of
        [] \<Rightarrow> Inr result
      | c # cs \<Rightarrow> (case to_dnf c of Inl e \<Rightarrow> Inl e | Inr child \<Rightarrow> dnf_or (add_clauses result child) cs))"
  by pat_completeness auto
termination
  by (relation "inv_image (less_than <*lex*> less_than) (\<lambda>x. case x of Inl n \<Rightarrow> (weight n, 2 * size n)
      | Inr (Inl (r, cs)) \<Rightarrow> (\<Sum>c\<leftarrow>cs. weight c, 2 * size_list size cs + 1) | Inr (Inr (r, cs)) \<Rightarrow> (\<Sum>c\<leftarrow>cs. weight c, 2 * size_list size cs + 1))")
    (auto dest!: parse_text_weight simp: less_Suc_eq_le intro: le_less_trans)

declare to_dnf.simps [simp del] dnf_and.simps [simp del] dnf_or.simps [simp del]

fun access_rules :: "string list list \<Rightarrow> string list \<Rightarrow> string list \<Rightarrow> string list" where
  "access_rules [] seen rules = rules"
| "access_rules (clause # cs) seen rules =
     (if clause = [] then []
      else if join '','' (sort clause) \<in> set seen then access_rules cs seen rules
      else access_rules cs (join '','' (sort clause) # seen) (rules @ [join '','' clause]))"

definition dnf_to_access_rules :: "string list list \<Rightarrow> string list" where
  "dnf_to_access_rules dnf = (if dnf = [] then [''false''] else access_rules dnf [] [])"

definition pack_rules :: "json \<Rightarrow> exn + string list" where
  "pack_rules req = (case parse_requires req of Inl e \<Rightarrow> Inl e | Inr n \<Rightarrow> map_sum id dnf_to_access_rules (to_dnf n))"

end
