(* ===== verification/Pack_Locations.thy ===== *)
theory Pack_Locations
  imports Pack_Rules
begin

text \<open>
  \<open>scripts/build_poptracker_pack.py\<close>, what it writes for the tracker: ids, the rules to enter a region, the
  sections of each kingdom, the items and the Lua tables. The rows of the data files are its arguments;
  the constant fields of an entry (colours, increments, the map image) are left out.
\<close>

section \<open>Ids\<close>

definition pack_starting_index :: "string \<Rightarrow> string \<Rightarrow> nat" where
  "pack_starting_index game player =
     (let s = of_char (game ! 0) * 100000000 + of_char (game ! 1) * 70000000 + of_char (last game) * 10000000;
          s = (if 3 < length game then foldl (\<lambda>s i. s + of_char (game ! i) * 100000) s [2..<length game - 1] else s)
      in foldl (\<lambda>s ch. s + of_char ch * 1000) s player)"

definition allocate_item_ids :: "item_data list \<Rightarrow> string \<Rightarrow> nat \<Rightarrow> (nat \<times> item_data) list" where
  "allocate_item_ids items filler_name start = enumerate start (items @ [plain_row filler_name])"

record pack_location =
  pk_name :: string
  pk_region :: "string option"
  pk_requires :: "json option"
  pk_category :: "string list"
  pk_victory :: bool
  pk_progression :: bool

definition game_complete :: pack_location where
  "game_complete = \<lparr>pk_name = ''__Game Complete__'', pk_region = Some ''SMO'', pk_requires = Some (JList []), pk_category = [],
     pk_victory = False, pk_progression = False\<rparr>"

definition allocate_location_ids :: "pack_location list \<Rightarrow> nat \<Rightarrow> (nat \<times> pack_location) list" where
  "allocate_location_ids locations start =
     enumerate (start + 500) (if list_ex pk_victory locations then locations else locations @ [game_complete])"

section \<open>Entering a region\<close>

definition inbound :: "(string, region_row) dict \<Rightarrow> string \<Rightarrow> string list" where
  "inbound regions r =
     (if r \<in> set (dict_keys regions)
      then concat (map (\<lambda>(name, info). map (\<lambda>_. name) (filter (\<lambda>tgt. tgt = r) (or_default (rr_connects_to info) []))) regions)
      else [])"

text \<open>\<open>to_dnf(parse_requires(info.get("requires", "")))\<close>.\<close>

definition requires_dnf :: "json option \<Rightarrow> exn + string list list" where
  "requires_dnf req = (case parse_requires (or_default req (JStr [])) of Inl e \<Rightarrow> Inl e | Inr n \<Rightarrow> to_dnf n)"

definition region_own :: "(string, region_row) dict \<Rightarrow> string \<Rightarrow> exn + string list list" where
  "region_own regions r =
     requires_dnf (case dict_get regions r of None \<Rightarrow> None | Some info \<Rightarrow> map_option requires_json (rr_requires info))"

definition region_starts :: "(string, region_row) dict \<Rightarrow> string \<Rightarrow> bool" where
  "region_starts regions r \<longleftrightarrow>
     (case dict_get regions r of None \<Rightarrow> False | Some info \<Rightarrow> rr_starting info) \<or> inbound regions r = []"

text \<open>\<open>compute\<close>: the regions it is inside of, the cache, the region. \<open>parents_dnf\<close> is its loop over the parents.\<close>

type_synonym dnf_cache = "(string, string list list) dict"

lemma inbound_known: "inbound regions r \<noteq> [] \<Longrightarrow> r \<in> set (dict_keys regions)"
  by (auto simp: inbound_def split: if_splits)

definition outside :: "(string, region_row) dict \<Rightarrow> string list \<Rightarrow> nat" where
  "outside regions on_stack = length (filter (\<lambda>n. n \<notin> set on_stack) (dict_keys regions))"

lemma outside_less: "r \<in> set (dict_keys regions) \<Longrightarrow> r \<notin> set on_stack \<Longrightarrow> outside regions (r # on_stack) < outside regions on_stack"
proof -
  have "length (filter (\<lambda>n. n \<notin> set (r # s)) ks) \<le> length (filter (\<lambda>n. n \<notin> set s) ks)" for s ks by (induction ks) auto
  moreover have "r \<in> set ks \<Longrightarrow> r \<notin> set s \<Longrightarrow> length (filter (\<lambda>n. n \<notin> set (r # s)) ks) < length (filter (\<lambda>n. n \<notin> set s) ks)" for s ks
    using calculation [of s] by (induction ks) (auto simp: less_Suc_eq_le)
  ultimately show "r \<in> set (dict_keys regions) \<Longrightarrow> r \<notin> set on_stack \<Longrightarrow> ?thesis" unfolding outside_def by blast
qed

function region_dnf :: "(string, region_row) dict \<Rightarrow> string list \<Rightarrow> dnf_cache \<Rightarrow> string \<Rightarrow> exn + string list list \<times> dnf_cache"
  and parents_dnf :: "(string, region_row) dict \<Rightarrow> string list \<Rightarrow> dnf_cache \<Rightarrow> string list list \<Rightarrow> string list
    \<Rightarrow> exn + string list list \<times> dnf_cache" where
  "region_dnf regions on_stack cache r =
     (case dict_get cache r of
        Some d \<Rightarrow> Inr (d, cache)
      | None \<Rightarrow>
          if r \<in> set on_stack then Inr ([[]], cache)
          else (case region_own regions r of
                  Inl e \<Rightarrow> Inl e
                | Inr own \<Rightarrow>
                    if region_starts regions r then Inr (own, dict_set r own cache)
                    else (case parents_dnf regions (r # on_stack) cache [] (inbound regions r) of
                            Inl e \<Rightarrow> Inl e
                          | Inr (parent, cache) \<Rightarrow>
                              let result = add_clauses [] (merge_all parent own) in Inr (result, dict_set r result cache))))"
| "parents_dnf regions on_stack cache acc ps =
     (case ps of
        [] \<Rightarrow> Inr (acc, cache)
      | p # ps \<Rightarrow>
          (case region_dnf regions on_stack cache p of
             Inl e \<Rightarrow> Inl e
           | Inr (d, cache) \<Rightarrow> parents_dnf regions on_stack cache (add_clauses acc d) ps))"
  by pat_completeness auto
termination
  by (relation "inv_image (less_than <*lex*> less_than) (\<lambda>x. case x of Inl (regions, s, c, r) \<Rightarrow> (outside regions s, 0)
      | Inr (regions, s, c, a, ps) \<Rightarrow> (outside regions s, Suc (length ps)))")
    (auto simp: region_starts_def intro!: outside_less dest: inbound_known)

declare region_dnf.simps [simp del] parents_dnf.simps [simp del]

fun prereqs_from :: "(string, region_row) dict \<Rightarrow> dnf_cache \<Rightarrow> string list \<Rightarrow> exn + (string, string list) dict" where
  "prereqs_from regions cache [] = Inr []"
| "prereqs_from regions cache (r # rs) =
     (case region_dnf regions [] cache r of
        Inl e \<Rightarrow> Inl e
      | Inr (d, cache) \<Rightarrow> map_sum id ((#) (r, dnf_to_access_rules d)) (prereqs_from regions cache rs))"

definition build_region_prereqs :: "(string, region_row) dict \<Rightarrow> exn + (string, string list) dict" where
  "build_region_prereqs regions = prereqs_from regions [] (dict_keys regions)"

section \<open>Options, goal and Talkatoo\<close>

definition category_option_gates :: "category_options \<Rightarrow> (string, string list) dict" where
  "category_option_gates categories = map (\<lambda>(cat, opts). (cat, map (dropWhile (\<lambda>c. c = CHR ''!'')) opts)) categories"

definition festival_regions_hidden :: "string list" where
  "festival_regions_hidden =
     [''Post-Metro'', ''Snow Kingdom'', ''Post-Snow'', ''Seaside Kingdom'', ''Post-Seaside'', ''Very Early Luncheon'',
      ''Luncheon Kingdom'', ''Ruined Kingdom'', ''Pokino'', bowsers_kingdom @ '' Kingdom'', ''Moon Kingdom'']"

definition pack_needs_metro_peace :: "pack_location \<Rightarrow> bool" where
  "pack_needs_metro_peace loc \<longleftrightarrow>
     ''Metro Peace'' \<in> set (pk_category loc) \<or>
     (case or_default (pk_requires loc) (JStr []) of JStr s \<Rightarrow> metro_peace_call False s | _ \<Rightarrow> False)"

definition location_out_of_festival_scope :: "pack_location \<Rightarrow> bool" where
  "location_out_of_festival_scope loc \<longleftrightarrow>
     (let region = or_default (pk_region loc) []
      in region \<in> set festival_regions_hidden \<or> region \<in> {''Metro Kingdom'', ''Night Metro''} \<and> pack_needs_metro_peace loc)"

definition location_blocked_by_talkatoo :: "pack_location \<Rightarrow> bool" where
  "location_blocked_by_talkatoo loc \<longleftrightarrow>
     \<not> starts_with ''Capture:'' (pk_name loc) \<and> \<not> pk_victory loc \<and> \<not> pk_progression loc \<and> CHR '':'' \<in> set (pk_name loc)"

definition victory_to_goal_option :: "(string, int) dict" where
  "victory_to_goal_option = map (\<lambda>(k, v). (v, k)) goal_to_victory"

definition goal_index :: "string list \<Rightarrow> string \<Rightarrow> int" where
  "goal_index victories name =
     (case dict_get victory_to_goal_option name of
        Some gi \<Rightarrow> gi
      | None \<Rightarrow> if name \<in> set victories then int (length (takeWhile (\<lambda>v. v \<noteq> name) victories)) else 0)"

section \<open>Kingdoms\<close>

definition kingdom_order :: "string list" where
  "kingdom_order =
     [''Cap Kingdom'', ''Cascade Kingdom'', ''Sand Kingdom'', ''Lake Kingdom'', ''Wooded Kingdom'', ''Cloud Kingdom'', ''Lost Kingdom'',
      ''Night Metro'', ''Metro Kingdom'', ''Snow Kingdom'', ''Seaside Kingdom'', ''Very Early Luncheon'', ''Luncheon Kingdom'',
      ''Ruined Kingdom'', ''Pokino'', bowsers_kingdom @ '' Kingdom'', ''Moon Kingdom'', ''Mushroom Kingdom'',
      ''Post-Sand'', ''Post-Lake'', ''Post-Wooded'', ''Post-Metro'', ''Post-Snow'', ''Post-Seaside'']"

definition kingdom_for :: "pack_location \<Rightarrow> string" where
  "kingdom_for loc =
     (let name = pk_name loc; prefix = strip (takeWhile (\<lambda>c. c \<noteq> CHR '':'') name); other = or_default (pk_region loc) ''Other''
      in if CHR '':'' \<in> set name
         then if prefix @ '' Kingdom'' \<in> set kingdom_order then prefix @ '' Kingdom''
              else if prefix = ''Capture'' then ''Captures'' else other
         else other)"

definition kingdom_grid :: "(string, nat \<times> nat) dict" where
  "kingdom_grid =
     [(''Cap Kingdom'', (0, 0)), (''Cascade Kingdom'', (1, 0)), (''Sand Kingdom'', (2, 0)), (''Lake Kingdom'', (3, 0)),
      (''Wooded Kingdom'', (0, 1)), (''Cloud Kingdom'', (1, 1)), (''Lost Kingdom'', (2, 1)), (''Metro Kingdom'', (3, 1)),
      (''Snow Kingdom'', (0, 2)), (''Seaside Kingdom'', (1, 2)), (''Luncheon Kingdom'', (2, 2)), (''Ruined Kingdom'', (3, 2)),
      (bowsers_kingdom @ '' Kingdom'', (0, 3)), (''Moon Kingdom'', (1, 3)), (''Mushroom Kingdom'', (2, 3)), (''Captures'', (3, 3))]"

definition kingdom_map_pin :: "string \<Rightarrow> (nat \<times> nat) option" where
  "kingdom_map_pin kingdom = map_option (\<lambda>(col, row). (100 + col * 180, 100 + row * 120)) (dict_get kingdom_grid kingdom)"

section \<open>Sections\<close>

definition and_dnfs :: "string list list \<Rightarrow> string list list \<Rightarrow> string list list" where
  "and_dnfs a b = (if a = [] then b else if b = [] then a else add_clauses [] (merge_all a b))"

definition and_term :: "string list list \<Rightarrow> string \<Rightarrow> string list list" where
  "and_term dnf term = map (\<lambda>clause. if term \<in> set clause then clause else clause @ [term]) dnf"

definition opt_terms :: "(string, string list) dict \<Rightarrow> pack_location \<Rightarrow> string list" where
  "opt_terms cat_gates loc =
     merge_clause [] (concat (map (\<lambda>cat. map (\<lambda>opt. ''$is_opt|'' @ opt) (dict_get_or cat_gates cat [])) (pk_category loc)))"

definition section_dnf ::
  "(string, string list) dict \<Rightarrow> (string, string list) dict \<Rightarrow> string list \<Rightarrow> pack_location \<Rightarrow> exn + string list list" where
  "section_dnf region_prereqs cat_gates victories loc =
     (case requires_dnf (pk_requires loc) of
        Inl e \<Rightarrow> Inl e
      | Inr own \<Rightarrow>
          let region_rules = dict_get_or region_prereqs (or_default (pk_region loc) ''SMO'') [];
              dnf = (if region_rules = [] then own
                     else and_dnfs (map (\<lambda>r. if r = [] then [] else split_on CHR '','' r) region_rules) own);
              terms = opt_terms cat_gates loc;
              dnf = (if terms = [] then dnf else map (\<lambda>clause. clause @ filter (\<lambda>t. t \<notin> set clause) terms) dnf);
              dnf = (if pk_victory loc then and_term dnf (''$is_goal|'' @ show_int (goal_index victories (pk_name loc))) else dnf);
              dnf = (if location_out_of_festival_scope loc then and_term dnf ''$is_goal|0'' else dnf)
          in Inr (if location_blocked_by_talkatoo loc then and_term dnf ''$is_opt_off|talkatoo_mode'' else dnf))"

text \<open>A section is a location's name and its access rules; without rules it is always open.\<close>

fun emit_sections ::
  "(string, string list) dict \<Rightarrow> (string, string list) dict \<Rightarrow> string list \<Rightarrow> (string, (string \<times> string list) list) dict \<Rightarrow> pack_location list
    \<Rightarrow> exn + (string, (string \<times> string list) list) dict" where
  "emit_sections region_prereqs cat_gates victories by_kingdom [] = Inr by_kingdom"
| "emit_sections region_prereqs cat_gates victories by_kingdom (loc # locs) =
     (case section_dnf region_prereqs cat_gates victories loc of
        Inl e \<Rightarrow> Inl e
      | Inr dnf \<Rightarrow>
          emit_sections region_prereqs cat_gates victories
            (dict_set (kingdom_for loc) (dict_get_or by_kingdom (kingdom_for loc) [] @ [(pk_name loc, dnf_to_access_rules dnf)]) by_kingdom) locs)"

record pack_kingdom =
  kn_name :: string
  kn_sections :: "(string \<times> string list) list"
  kn_pin :: "(nat \<times> nat) option"

definition ordered_kingdoms :: "(string, 'v) dict \<Rightarrow> string list" where
  "ordered_kingdoms by_kingdom =
     (let known = filter (\<lambda>k. k \<in> set (dict_keys by_kingdom)) kingdom_order
      in known @ sort (filter (\<lambda>k. k \<notin> set known) (dict_keys by_kingdom)))"

definition emit_locations ::
  "pack_location list \<Rightarrow> (string, string list) dict \<Rightarrow> (string, string list) dict \<Rightarrow> string list \<Rightarrow> exn + pack_kingdom list" where
  "emit_locations locations region_prereqs cat_gates victories =
     map_sum id (\<lambda>by_kingdom. map (\<lambda>k. \<lparr>kn_name = k, kn_sections = dict_get_or by_kingdom k [], kn_pin = kingdom_map_pin k\<rparr>)
         (ordered_kingdoms by_kingdom))
       (emit_sections region_prereqs cat_gates victories [] locations)"

section \<open>Items\<close>

text \<open>A consumable counts up to its maximum; a toggle is on or off.\<close>

datatype tracker_kind = Consumable int | Toggle bool

record tracker_item =
  ti_name :: string
  ti_codes :: string
  ti_kind :: tracker_kind

definition emit_items :: "item_data list \<Rightarrow> string \<Rightarrow> tracker_item list" where
  "emit_items items filler_name =
     map (\<lambda>it. \<lparr>ti_name = id_name it, ti_codes = code_for (id_name it),
         ti_kind = (if ''Moon'' \<in> set (or_default (id_category it) []) then Consumable (id_count it) else Toggle False)\<rparr>) items @
     [\<lparr>ti_name = filler_name, ti_codes = code_for filler_name, ti_kind = Consumable 9999\<rparr>]"

text \<open>\<open>re.match(r"(.+) Kingdom (Power Moon|Multi-Moon)$", name)\<close>; \<open>$\<close> also matches before a final line feed.\<close>

definition credit_kingdom :: "string \<Rightarrow> string option" where
  "credit_kingdom name =
     (let n = (if name \<noteq> [] \<and> last name = CHR 10 then butlast name else name);
          before = (\<lambda>suffix. take (length n - length suffix) n);
          ends = (\<lambda>suffix. length suffix < length n \<and> drop (length n - length suffix) n = suffix \<and> CHR 10 \<notin> set (before suffix))
      in if ends '' Kingdom Power Moon'' then Some (before '' Kingdom Power Moon'')
         else if ends '' Kingdom Multi-Moon'' then Some (before '' Kingdom Multi-Moon'') else None)"

definition emit_kingdom_credit_items :: "item_data list \<Rightarrow> tracker_item list" where
  "emit_kingdom_credit_items items =
     map (\<lambda>k. \<lparr>ti_name = k @ '' Kingdom Credits'', ti_codes = code_for k @ ''_credits'', ti_kind = Consumable 999\<rparr>)
       (sort (remdups (List.map_filter (credit_kingdom \<circ> id_name) items)))"

definition option_meta :: "(string \<times> string \<times> bool) list" where
  "option_meta =
     [(''capturesanity'', ''Capturesanity'', False),
      (''include_cap_peace_moons'', ''Include Cap Kingdom Peace Moons'', True),
      (''include_cascade_peace_moons'', ''Include Cascade Kingdom Peace Moons'', True),
      (''include_sand_peace_moons'', ''Include Sand Kingdom Peace Moons'', True),
      (''include_lake_peace_moons'', ''Include Lake Kingdom Peace Moons'', True),
      (''include_wooded_peace_moons'', ''Include Wooded Kingdom Peace Moons'', True),
      (''include_lost_peace_moons'', ''Include Lost Kingdom Peace Moons'', True),
      (''include_metro_peace_moons'', ''Include Metro Kingdom Peace Moons'', True),
      (''include_snow_peace_moons'', ''Include Snow Kingdom Peace Moons'', True),
      (''include_seaside_peace_moons'', ''Include Seaside Kingdom Peace Moons'', True),
      (''include_luncheon_peace_moons'', ''Include Luncheon Kingdom Peace Moons'', True),
      (''include_bowsers_peace_moons'', ''Include '' @ bowsers_kingdom @ '' Kingdom Peace Moons'', True),
      (''include_cloud_peace_moons'', ''Include Cloud Kingdom Peace Moons'', True),
      (''include_deep_woods_moons'', ''Include Deep Woods Moons'', True),
      (''include_minigame_moons'', ''Include Minigame Moons'', True),
      (''include_hint_art_moons'', ''Include Hint Art Moons'', True),
      (''include_tourist_moons'', ''Include Tourist Moons'', True),
      (''include_long_course_moons'', ''Include Long Course Moons'', True),
      (''include_precision_capture_moons'', ''Include Precision Capture Moons'', True)]"

definition emit_option_items :: "string list \<Rightarrow> tracker_item list" where
  "emit_option_items victories =
     map (\<lambda>(key, display, default_on). \<lparr>ti_name = display, ti_codes = ''opt_'' @ key, ti_kind = Toggle default_on\<rparr>) option_meta @
     map (\<lambda>(i, v). \<lparr>ti_name = ''Goal: '' @ v, ti_codes = ''goal_'' @ show_nat i, ti_kind = Toggle (i = 0)\<rparr>) (enumerate 0 victories)"

section \<open>The Lua tables\<close>

definition quoted :: "string \<Rightarrow> string" where
  "quoted s = CHR 34 # s @ [CHR 34]"

definition section_for :: "string \<Rightarrow> string \<Rightarrow> string" where
  "section_for region name = CHR ''@'' # region @ ''/'' @ name"

definition item_mapping_line :: "nat \<times> item_data \<Rightarrow> string" where
  "item_mapping_line entry =
     (case entry of (ap_id, it) \<Rightarrow>
        let cat = or_default (id_category it) [];
            kind = (if ''Moon'' \<in> set cat then ''consumable'' else if cat = [] then ''consumable'' else ''toggle'')
        in ''  ['' @ show_nat ap_id @ ''] = {'' @ quoted (code_for (id_name it)) @ '', '' @ quoted kind @ ''},'')"

definition location_mapping_line :: "nat \<times> pack_location \<Rightarrow> string" where
  "location_mapping_line entry =
     (case entry of (ap_id, loc) \<Rightarrow>
        let ref = section_for (kingdom_for loc) (pk_name loc);
            ref_lit = replace_all [CHR 34] [CHR 92, CHR 34] (replace_all [CHR 92] [CHR 92, CHR 92] ref)
        in ''  ['' @ show_nat ap_id @ ''] = '' @ quoted ref_lit @ '','')"

text \<open>The first line, a comment, is an argument: its dash is not ASCII.\<close>

definition emit_mappings_lua :: "string \<Rightarrow> (nat \<times> item_data) list \<Rightarrow> (nat \<times> pack_location) list \<Rightarrow> string" where
  "emit_mappings_lua comment item_ids location_ids =
     join [CHR 10] ([comment, [], ''ITEM_MAPPING = {''] @ map item_mapping_line item_ids @ [''}'', [], ''LOCATION_MAPPING = {''] @
       map location_mapping_line location_ids @ [''}'', []])"

section \<open>The pack\<close>

record tracker_pack =
  tp_items :: "tracker_item list"
  tp_credits :: "tracker_item list"
  tp_locations :: "pack_kingdom list"
  tp_item_ids :: "(nat \<times> item_data) list"
  tp_location_ids :: "(nat \<times> pack_location) list"

definition build_pack ::
  "item_data list \<Rightarrow> pack_location list \<Rightarrow> (string, region_row) dict \<Rightarrow> category_options \<Rightarrow> exn + tracker_pack" where
  "build_pack items locations regions categories =
     (let start = pack_starting_index ''MEATBALLS'' ''maxdietz'';
          victories = map pk_name (filter pk_victory locations)
      in case build_region_prereqs regions of
           Inl e \<Rightarrow> Inl e
         | Inr prereqs \<Rightarrow>
             map_sum id (\<lambda>kingdoms.
                 \<lparr>tp_items = emit_items items ''Coin'', tp_credits = emit_kingdom_credit_items items, tp_locations = kingdoms,
                  tp_item_ids = allocate_item_ids items ''Coin'' start, tp_location_ids = allocate_location_ids locations start\<rparr>)
               (emit_locations locations prereqs (category_option_gates categories) victories))"

end
