(* ===== verification/Pack_Meaning.thy ===== *)
theory Pack_Meaning
  imports Pack_Rules Rule_Hooks
begin

text \<open>
  The access rules of the tracker pack mean what the requirement means: over the same items and calls, the
  rules PopTracker reads are open exactly when the evaluator of \<open>Rules.py\<close> accepts the string. PopTracker opens
  a location without rules, or when some rule has all of its comma-separated terms.
\<close>

section \<open>What a rule means\<close>

definition dnf_true :: "(string \<Rightarrow> bool) \<Rightarrow> string list list \<Rightarrow> bool" where
  "dnf_true sat d \<longleftrightarrow> list_ex (list_all sat) d"

definition rules_open :: "(string \<Rightarrow> bool) \<Rightarrow> string list \<Rightarrow> bool" where
  "rules_open sat rules \<longleftrightarrow> rules = [] \<or> list_ex (\<lambda>r. list_all sat (split_on CHR '','' r)) rules"

abbreviation clean :: "string list list \<Rightarrow> bool" where
  "clean d \<equiv> list_all (list_all (\<lambda>t. t \<noteq> [] \<and> CHR '','' \<notin> set t)) d"

lemma set_merge_clause: "set (merge_clause l r) = set l \<union> set r"
proof -
  have "set (foldl (\<lambda>m t. if t \<in> set m then m else m @ [t]) l r) = set l \<union> set r"
    by (induction r arbitrary: l) auto
  then show ?thesis by (simp add: merge_clause_def)
qed

lemma set_add_clauses: "set (add_clauses r cs) = set r \<union> set cs"
proof -
  have "set (foldl (\<lambda>r c. if c \<in> set r then r else r @ [c]) r cs) = set r \<union> set cs"
    by (induction cs arbitrary: r) auto
  then show ?thesis by (simp add: add_clauses_def)
qed

lemma dnf_true_iff: "dnf_true sat d \<longleftrightarrow> (\<exists>c \<in> set d. \<forall>t \<in> set c. sat t)"
  by (simp add: dnf_true_def list_ex_iff list_all_iff)

lemma merge_all_simps [simp]:
  "dnf_true sat (merge_all r c) \<longleftrightarrow> dnf_true sat r \<and> dnf_true sat c"
  "merge_all r c = [] \<longleftrightarrow> r = [] \<or> c = []"
  "clean r \<Longrightarrow> clean c \<Longrightarrow> clean (merge_all r c)"
proof -
  show "dnf_true sat (merge_all r c) \<longleftrightarrow> dnf_true sat r \<and> dnf_true sat c"
    by (fastforce simp: dnf_true_iff merge_all_def set_merge_clause)
  show "merge_all r c = [] \<longleftrightarrow> r = [] \<or> c = []" by (cases r) (auto simp: merge_all_def)
  show "clean (merge_all r c)" if "clean r" "clean c"
    using that by (fastforce simp: list_all_iff merge_all_def set_merge_clause)
qed

lemma add_clauses_simps [simp]:
  "dnf_true sat (add_clauses r c) \<longleftrightarrow> dnf_true sat r \<or> dnf_true sat c"
  "add_clauses r c = [] \<longleftrightarrow> r = [] \<and> c = []"
  "clean (add_clauses r c) \<longleftrightarrow> clean r \<and> clean c"
proof -
  show "add_clauses r c = [] \<longleftrightarrow> r = [] \<and> c = []"
    using set_add_clauses [of r c] by (metis Un_empty set_empty)
qed (auto simp: dnf_true_iff list_all_iff set_add_clauses)

text \<open>A node with its truth value: its normal form exists, has a clause, and is true exactly then.\<close>

definition means :: "(string \<Rightarrow> bool) \<Rightarrow> ast \<Rightarrow> bool \<Rightarrow> bool" where
  "means sat n b \<longleftrightarrow> (\<exists>d. to_dnf n = Inr d \<and> d \<noteq> [] \<and> clean d \<and> dnf_true sat d = b)"

lemma dnf_and_means:
  "list_all2 (means sat) cs bs \<Longrightarrow> r \<noteq> [] \<Longrightarrow> clean r \<Longrightarrow>
   \<exists>d. dnf_and r cs = Inr d \<and> d \<noteq> [] \<and> clean d \<and> dnf_true sat d = (dnf_true sat r \<and> list_all id bs)"
proof (induction cs bs arbitrary: r rule: list_all2_induct)
  case Nil
  then show ?case by (simp add: dnf_and.simps [of r "[]"])
next
  case (Cons c cs b bs)
  then obtain d where "to_dnf c = Inr d" "d \<noteq> []" "clean d" "dnf_true sat d = b" by (auto simp: means_def)
  with Cons.IH [of "merge_all r d"] Cons.prems show ?case by (simp add: dnf_and.simps [of r "c # cs"])
qed

lemma dnf_or_means:
  "list_all2 (means sat) cs bs \<Longrightarrow> r \<noteq> [] \<or> cs \<noteq> [] \<Longrightarrow> clean r \<Longrightarrow>
   \<exists>d. dnf_or r cs = Inr d \<and> d \<noteq> [] \<and> clean d \<and> dnf_true sat d = (dnf_true sat r \<or> list_ex id bs)"
proof (induction cs bs arbitrary: r rule: list_all2_induct)
  case Nil
  then show ?case by (simp add: dnf_or.simps [of r "[]"])
next
  case (Cons c cs b bs)
  then obtain d where "to_dnf c = Inr d" "d \<noteq> []" "clean d" "dnf_true sat d = b" by (auto simp: means_def)
  with Cons.IH [of "add_clauses r d"] Cons.prems show ?case by (simp add: dnf_or.simps [of r "c # cs"] disj_assoc)
qed

lemma means_and: "list_all2 (means sat) cs bs \<Longrightarrow> means sat (PAnd cs) (list_all id bs)"
  using dnf_and_means [of sat cs bs "[[]]"] by (simp add: means_def to_dnf.simps [of "PAnd cs"] dnf_true_def)

lemma means_or: "list_all2 (means sat) cs bs \<Longrightarrow> cs \<noteq> [] \<Longrightarrow> means sat (POr cs) (list_ex id bs)"
  using dnf_or_means [of sat cs bs "[]"] by (simp add: means_def to_dnf.simps [of "POr cs"] dnf_true_def)

section \<open>The rules as text\<close>

lemma split_on_join: "xs \<noteq> [] \<Longrightarrow> \<forall>x \<in> set xs. c \<notin> set x \<Longrightarrow> split_on c (join [c] xs) = xs"
proof (induction xs)
  case (Cons x xs)
  have "c \<notin> set u \<Longrightarrow> split_on c (u @ c # v) = u # split_on c v" for u v by (induction u) auto
  with Cons show ?case by (cases xs) (simp_all add: split_on_id)
qed simp

text \<open>Two clauses with the same sorted text have the same terms.\<close>

lemma same_key:
  assumes "join '','' (sort c) = join '','' (sort c')" "c \<noteq> []" "c' \<noteq> []" "\<forall>t \<in> set c. CHR '','' \<notin> set t" "\<forall>t \<in> set c'. CHR '','' \<notin> set t"
  shows "set c = set c'"
proof -
  have ne: "sort c \<noteq> []" "sort c' \<noteq> []" using assms(2,3) by (metis set_sort set_empty)+
  have "split_on CHR '','' (join '','' (sort c)) = sort c" "split_on CHR '','' (join '','' (sort c')) = sort c'"
    using assms(4,5) by (intro split_on_join ne; simp)+
  then have "sort c = sort c'" using assms(1) by (metis (no_types))
  then show ?thesis by (metis set_sort)
qed

lemma access_rules_open:
  assumes "clean d" "clean p" "[] \<notin> set p"
    "set seen = (\<lambda>c. join '','' (sort c)) ` set p" "list_ex (\<lambda>r. list_all sat (split_on CHR '','' r)) rules = dnf_true sat p" "rules = [] \<longleftrightarrow> p = []"
  shows "rules_open sat (access_rules d seen rules) = (if d = [] \<and> p = [] then True else dnf_true sat (p @ d))"
  using assms
proof (induction d arbitrary: p seen rules)
  case Nil
  then show ?case by (auto simp: rules_open_def dnf_true_def)
next
  case (Cons c d)
  consider "c = []" | "c \<noteq> []" "join '','' (sort c) \<in> set seen" | "c \<noteq> []" "join '','' (sort c) \<notin> set seen" by blast
  then show ?case
  proof cases
    case 1
    then show ?thesis by (simp add: rules_open_def dnf_true_def)
  next
    case 2
    then obtain c' where c': "c' \<in> set p" "join '','' (sort c) = join '','' (sort c')" using Cons.prems(4) by auto
    have "set c = set c'"
      using c' Cons.prems(1-3) 2(1) by (intro same_key) (auto simp: list_all_iff)
    then have "dnf_true sat (p @ c # d) = dnf_true sat (p @ d)" using c'(1) by (auto simp: dnf_true_iff)
    moreover have "p \<noteq> []" using c'(1) by auto
    ultimately show ?thesis using Cons.IH [of p seen rules] Cons.prems 2 by simp
  next
    case 3
    have "split_on CHR '','' (join '','' c) = c" using 3(1) Cons.prems(1) by (intro split_on_join) (auto simp: list_all_iff)
    then have "list_ex (\<lambda>r. list_all sat (split_on CHR '','' r)) (rules @ [join '','' c]) = dnf_true sat (p @ [c])"
      using Cons.prems(5) by (simp add: dnf_true_def)
    then show ?thesis
      using Cons.IH [of "p @ [c]" "join '','' (sort c) # seen" "rules @ [join '','' c]"] Cons.prems 3 by (simp add: insert_commute)
  qed
qed

lemma rules_open_dnf: "d \<noteq> [] \<Longrightarrow> clean d \<Longrightarrow> rules_open sat (dnf_to_access_rules d) = dnf_true sat d"
  using access_rules_open [of d "[]" "[]" sat "[]"] by (simp add: dnf_to_access_rules_def dnf_true_def)

section \<open>Tokens of a requirement\<close>

lemma tokenize_append:
  "s = [] \<or> \<not> ident_char (last s) \<Longrightarrow> tokenize s = Inr ts \<Longrightarrow> tokenize (s @ t) = map_sum id ((@) ts) (tokenize t)"
proof (induction s arbitrary: ts rule: measure_induct_rule [where f = length])
  case (less s)
  show ?case
  proof (cases s)
    case Nil
    with less.prems(2) have "ts = []" by (simp add: tokenize.simps [of "[]"])
    with Nil show ?thesis by (cases "tokenize t") (simp_all add: tokenize.simps [of "[]"])
  next
    case (Cons c u)
    note tok = less.prems(2) [unfolded Cons tokenize.simps [of "c # u"]]
    have IH: "tokenize (v @ t) = map_sum id ((@) us) (tokenize t)" if "tokenize v = Inr us" "c # u = w @ v" "w \<noteq> []" for v w us
    proof (rule less.IH [OF _ _ that(1)])
      show "length v < length s" using that(2,3) arg_cong [OF that(2), of length] by (simp add: Cons)
      show "v = [] \<or> \<not> ident_char (last v)" using less.prems(1) that(2) by (cases "v = []") (simp_all add: Cons)
    qed
    have comp: "map_sum id ((@) (k # us)) (tokenize t) = map_sum id ((#) k) (map_sum id ((@) us) (tokenize t))" for k us
      by (cases "tokenize t") simp_all
    consider "is_space c" | "c \<in> set ''(){},''" | "c = CHR ''|''" | "ident_char c" by (auto simp: ident_char_def)
    then show ?thesis
    proof cases
      case 1
      then have "tokenize u = Inr ts" using tok by simp
      from IH [OF this, of "[c]"] 1 show ?thesis unfolding Cons by (subst append_Cons, subst tokenize.simps) simp
    next
      case 2
      then have c: "\<not> is_space c" by auto
      from 2 c tok obtain k us where us: "tokenize u = Inr us" "ts = k # us"
        "\<And>w. tokenize (c # w) = map_sum id ((#) k) (tokenize w)" by (auto simp: map_sum_Inr tokenize.simps [of "c # _"])
      from IH [OF us(1), of "[c]"] have "tokenize (u @ t) = map_sum id ((@) us) (tokenize t)" by simp
      moreover have "tokenize (s @ t) = map_sum id ((#) k) (tokenize (u @ t))" by (simp only: Cons append_Cons us(3))
      ultimately show ?thesis by (simp only: us(2) comp)
    next
      case 3
      obtain r where r: "dropWhile (\<lambda>c. c \<noteq> CHR ''|'') u = CHR ''|'' # r"
      proof (cases "dropWhile (\<lambda>c. c \<noteq> CHR ''|'') u")
        case Nil
        with tok show thesis unfolding 3 by simp
      next
        case (Cons d r)
        then have "d = CHR ''|''" by (simp add: dropWhile_eq_Cons_conv)
        with Cons show thesis by (simp add: that)
      qed
      obtain us where us: "tokenize r = Inr us" "ts = ItemTok (takeWhile (\<lambda>c. c \<noteq> CHR ''|'') u) # us"
        using tok unfolding 3 by (simp add: r) (auto simp: map_sum_Inr)
      have u: "u = takeWhile (\<lambda>c. c \<noteq> CHR ''|'') u @ CHR ''|'' # r" using r by (simp add: dropWhile_eq_Cons_conv)
      then have bar: "CHR ''|'' \<in> set u" by (metis in_set_conv_decomp)
      have *: "takeWhile (\<lambda>c. c \<noteq> CHR ''|'') (u @ t) = takeWhile (\<lambda>c. c \<noteq> CHR ''|'') u"
        "dropWhile (\<lambda>c. c \<noteq> CHR ''|'') (u @ t) = CHR ''|'' # r @ t"
        using bar r by (auto simp: takeWhile_append1 dropWhile_append1)
      have "tokenize (r @ t) = map_sum id ((@) us) (tokenize t)"
        using u by (intro IH [OF us(1), of "c # takeWhile (\<lambda>c. c \<noteq> CHR ''|'') u @ ''|''"]) simp_all
      then show ?thesis unfolding Cons 3 us(2) comp by (simp add: tokenize.simps [of "CHR ''|'' # _"] *)
    next
      case 4
      then have c: "\<not> is_space c" "c \<notin> set ''(){},|''" by (simp_all add: ident_char_def)
      obtain us where us: "tokenize (dropWhile ident_char u) = Inr us" "ts = word_token (takeWhile ident_char (c # u)) # us"
        using tok c by (auto simp: map_sum_Inr)
      have "\<not> list_all ident_char u"
      proof
        assume "list_all ident_char u"
        then have "ident_char (last s)" using 4 by (auto simp: Cons list_all_iff)
        with less.prems(1) Cons show False by simp
      qed
      then obtain x where x: "x \<in> set u" "\<not> ident_char x" by (auto simp: list_all_iff)
      have "tokenize (dropWhile ident_char u @ t) = map_sum id ((@) us) (tokenize t)"
        using takeWhile_dropWhile_id [of ident_char u] by (intro IH [OF us(1), of "c # takeWhile ident_char u"]) simp_all
      then show ?thesis unfolding Cons us(2) comp
        using c 4 by (simp add: tokenize.simps [of "c # _"] takeWhile_append1 [of x u ident_char, OF x] dropWhile_append1 [of x u ident_char, OF x])
    qed
  qed
qed

text \<open>An item or a call the pack translates to terms that are true exactly when \<open>item\<close> or \<open>call\<close> says so.\<close>

fun leaf_means :: "(string \<Rightarrow> bool) \<Rightarrow> (string \<Rightarrow> bool) \<Rightarrow> (string \<Rightarrow> string \<Rightarrow> bool) \<Rightarrow> tok \<Rightarrow> bool" where
  "leaf_means sat item call (TItem n) \<longleftrightarrow> CHR ''|'' \<notin> set n \<and> (\<exists>m. item_node n = Inr m \<and> means sat m (item n))"
| "leaf_means sat item call (TCall f a) \<longleftrightarrow>
     (\<exists>ts m. tokenize (call_text (f, a)) = Inr (LBrace # ts) \<and> parse_func ts = Inr (m, []) \<and> means sat m (call f a))"
| "leaf_means sat item call (TBit b) = False"
| "leaf_means sat item call TNot = False"
| "leaf_means sat item call t = True"

definition tok_tokens :: "tok \<Rightarrow> pack_token list" where "tok_tokens t = projr (tokenize (spell t))"

abbreviation ptoks :: "tok list \<Rightarrow> pack_token list" where "ptoks ts \<equiv> concat (map tok_tokens ts)"

lemma tokenize_item: "CHR ''|'' \<notin> set n \<Longrightarrow> tokenize (item_text n) = Inr [ItemTok n]"
proof -
  assume n: "CHR ''|'' \<notin> set n"
  then have "takeWhile (\<lambda>c. c \<noteq> CHR ''|'') (n @ ''|'') = n \<and> dropWhile (\<lambda>c. c \<noteq> CHR ''|'') (n @ ''|'') = ''|''"
    by (induction n) auto
  then show ?thesis by (simp add: item_text_def tokenize.simps [of "CHR ''|'' # _"] tokenize.simps [of "[]"])
qed

lemma operator_tokens:
  "tokenize ''('' = Inr [LParen]" "tokenize '')'' = Inr [RParen]" "tokenize '' and '' = Inr [AndTok ''and'']"
  "tokenize '' AND '' = Inr [AndTok ''AND'']" "tokenize '' or '' = Inr [OrTok ''or'']" "tokenize '' OR '' = Inr [OrTok ''OR'']"
  by code_simp+

lemma tok_tokens_simps [simp]:
  "CHR ''|'' \<notin> set n \<Longrightarrow> tok_tokens (TItem n) = [ItemTok n]"
  "tok_tokens TOpen = [LParen]" "tok_tokens TClose = [RParen]"
  "tok_tokens (TAnd c) = [AndTok (if c then ''AND'' else ''and'')]" "tok_tokens (TOr c) = [OrTok (if c then ''OR'' else ''or'')]"
  by (simp_all add: tok_tokens_def tokenize_item operator_tokens)

lemma ident_char_simps [simp]:
  "\<not> ident_char CHR '' ''" "\<not> ident_char CHR ''|''" "\<not> ident_char CHR ''}''" "\<not> ident_char CHR ''(''" "\<not> ident_char CHR '')''"
  by (simp_all add: ident_char_def)

lemma tokenize_spell: "leaf_means sat item call t \<Longrightarrow> tokenize (spell t) = Inr (tok_tokens t) \<and> \<not> ident_char (last (spell t))"
proof (cases t)
  case (TCall f a)
  then show "leaf_means sat item call t \<Longrightarrow> ?thesis" by (auto simp: tok_tokens_def) (simp add: call_text_def)
qed (auto simp: tokenize_item operator_tokens item_text_def [of _, symmetric], simp_all add: item_text_def)

lemma tokenize_spells: "list_all (leaf_means sat item call) ts \<Longrightarrow> tokenize (spells ts) = Inr (ptoks ts)"
proof (induction ts)
  case Nil
  then show ?case by (simp add: tokenize.simps [of "[]"])
next
  case (Cons t ts)
  then have t: "tokenize (spell t) = Inr (tok_tokens t)" "\<not> ident_char (last (spell t))" using tokenize_spell [of sat item call t] by simp_all
  show ?case using tokenize_append [OF _ t(1), of "spells ts"] t(2) Cons by simp
qed

section \<open>Parsing a requirement\<close>

lemma func_args_append: "func_args depth args cur ts = Inr (as, r) \<Longrightarrow> func_args depth args cur (ts @ u) = Inr (as, r @ u)"
  by (induction depth args cur ts rule: func_args.induct) (auto split: if_splits)

lemma parse_func_append: "parse_func ts = Inr (n, r) \<Longrightarrow> parse_func (ts @ u) = Inr (n, r @ u)"
proof -
  assume p: "parse_func ts = Inr (n, r)"
  then obtain name v where ts: "ts = Ident name # LParen # v" by (auto simp: parse_func_def split: list.splits pack_token.splits)
  with p obtain as w where v: "func_args 0 [] [] v = Inr (as, w)" by (cases "func_args 0 [] [] v") (auto simp: parse_func_def)
  with p ts obtain x where "w = RBrace # x" by (auto simp: parse_func_def split: list.splits pack_token.splits)
  with p ts v func_args_append [OF v, of u] show "parse_func (ts @ u) = Inr (n, r @ u)" by (simp add: parse_func_def)
qed

text \<open>No precedence is needed to read it: no operand of \<open>AND\<close> is an \<open>OR\<close> without parentheses.\<close>

fun grouped :: "req \<Rightarrow> bool" where
  "grouped (And c a b) = ((case a of Or _ _ _ \<Rightarrow> False | _ \<Rightarrow> True) \<and> grouped a \<and> grouped b)"
| "grouped (Or c a b) = (grouped a \<and> grouped b)"
| "grouped (Group e) = grouped e"
| "grouped (Neg e) = grouped e"
| "grouped e = True"

definition and_node :: "ast list \<Rightarrow> ast" where "and_node cs = (if 1 < length cs then PAnd cs else hd cs)"
definition or_node :: "ast list \<Rightarrow> ast" where "or_node cs = (if 1 < length cs then POr cs else hd cs)"

lemma and_node_means: "list_all2 (means sat) cs bs \<Longrightarrow> cs \<noteq> [] \<Longrightarrow> means sat (and_node cs) (list_all id bs)"
  using means_and [of sat cs bs] by (cases cs; cases "tl cs"; auto simp: and_node_def list_all2_Cons1)

lemma or_node_means: "list_all2 (means sat) cs bs \<Longrightarrow> cs \<noteq> [] \<Longrightarrow> means sat (or_node cs) (list_ex id bs)"
  using means_or [of sat cs bs] by (cases cs; cases "tl cs"; auto simp: or_node_def list_all2_Cons1)

definition no_and :: "pack_token list \<Rightarrow> bool" where "no_and ts \<longleftrightarrow> (\<forall>w r. ts \<noteq> AndTok w # r)"
definition no_or :: "pack_token list \<Rightarrow> bool" where "no_or ts \<longleftrightarrow> (\<forall>w r. ts \<noteq> OrTok w # r)"

lemma rest_ends:
  "no_and ts \<Longrightarrow> parse_and_rest cs ts = Inr (and_node cs, ts)" "no_or ts \<Longrightarrow> parse_or_rest cs ts = Inr (or_node cs, ts)"
  by (auto simp: parse_and_rest.simps [of cs ts] parse_or_rest.simps [of cs ts] no_and_def no_or_def and_node_def or_node_def
      split: list.splits pack_token.splits)

lemma no_and_simps [simp]: "no_and []" "no_and (OrTok w # r)" "no_and (RParen # r)" "no_or []" "no_or (RParen # r)"
  by (simp_all add: no_and_def no_or_def)

text \<open>What the three levels of the parser make of a requirement and whatever follows it.\<close>

definition atom_reads :: "(string \<Rightarrow> bool) \<Rightarrow> pack_token list \<Rightarrow> bool \<Rightarrow> bool" where
  "atom_reads sat ts b \<longleftrightarrow> (\<exists>n. means sat n b \<and> (\<forall>r. parse_atom (ts @ r) = Inr (n, r)))"

definition and_reads :: "(string \<Rightarrow> bool) \<Rightarrow> pack_token list \<Rightarrow> bool \<Rightarrow> bool" where
  "and_reads sat ts b \<longleftrightarrow> (\<exists>cs bs. list_all2 (means sat) cs bs \<and> cs \<noteq> [] \<and> list_all id bs = b \<and> (\<forall>r. parse_and (ts @ r) = parse_and_rest cs r))"

definition or_reads :: "(string \<Rightarrow> bool) \<Rightarrow> pack_token list \<Rightarrow> bool \<Rightarrow> bool" where
  "or_reads sat ts b \<longleftrightarrow>
     (\<exists>cs bs. list_all2 (means sat) cs bs \<and> cs \<noteq> [] \<and> list_ex id bs = b \<and> (\<forall>r. no_and r \<longrightarrow> parse_or (ts @ r) = parse_or_rest cs r))"

lemma atom_and: "atom_reads sat ts b \<Longrightarrow> and_reads sat ts b"
  unfolding atom_reads_def and_reads_def by (elim exE conjE, rule_tac x = "[n]" in exI, rule_tac x = "[b]" in exI) (simp add: parse_and.simps)

lemma and_or: "and_reads sat ts b \<Longrightarrow> or_reads sat ts b"
proof -
  assume "and_reads sat ts b"
  then obtain cs bs where cs: "list_all2 (means sat) cs bs" "cs \<noteq> []" "list_all id bs = b" "\<forall>r. parse_and (ts @ r) = parse_and_rest cs r"
    by (auto simp: and_reads_def)
  then show ?thesis unfolding or_reads_def using and_node_means [OF cs(1,2)]
    by (intro exI [of _ "[and_node cs]"] exI [of _ "[b]"]) (simp add: parse_or.simps rest_ends)
qed

lemma group_reads: "or_reads sat ts b \<Longrightarrow> atom_reads sat (LParen # ts @ [RParen]) b"
proof -
  assume "or_reads sat ts b"
  then obtain cs bs where cs: "list_all2 (means sat) cs bs" "cs \<noteq> []" "list_ex id bs = b" "\<forall>r. no_and r \<longrightarrow> parse_or (ts @ r) = parse_or_rest cs r"
    by (auto simp: or_reads_def)
  then show ?thesis unfolding atom_reads_def using or_node_means [OF cs(1,2)]
    by (intro exI [of _ "or_node cs"]) (simp add: parse_atom.simps [of "LParen # _"] rest_ends)
qed

lemma and_chain: "and_reads sat ts b \<Longrightarrow> atom_reads sat us c \<Longrightarrow> and_reads sat (ts @ AndTok w # us) (b \<and> c)"
proof -
  assume "and_reads sat ts b" "atom_reads sat us c"
  then obtain cs bs n where "list_all2 (means sat) cs bs" "list_all id bs = b" "\<forall>r. parse_and (ts @ r) = parse_and_rest cs r"
    "means sat n c" "\<forall>r. parse_atom (us @ r) = Inr (n, r)" by (auto simp: and_reads_def atom_reads_def)
  then show ?thesis unfolding and_reads_def
    by (intro exI [of _ "cs @ [n]"] exI [of _ "bs @ [c]"]) (auto simp: parse_and_rest.simps [of cs "AndTok w # _"] intro: list_all2_appendI)
qed

lemma or_chain: "or_reads sat ts b \<Longrightarrow> and_reads sat us c \<Longrightarrow> or_reads sat (ts @ OrTok w # us) (b \<or> c)"
proof -
  assume "or_reads sat ts b" "and_reads sat us c"
  then obtain cs bs ds es where "list_all2 (means sat) cs bs" "list_ex id bs = b" "\<forall>r. no_and r \<longrightarrow> parse_or (ts @ r) = parse_or_rest cs r"
    "list_all2 (means sat) ds es" "ds \<noteq> []" "list_all id es = c" "\<forall>r. parse_and (us @ r) = parse_and_rest ds r"
    by (auto simp: and_reads_def or_reads_def)
  then show ?thesis unfolding or_reads_def using and_node_means [of sat ds es]
    by (intro exI [of _ "cs @ [and_node ds]"] exI [of _ "bs @ [c]"])
      (auto simp: parse_or_rest.simps [of cs "OrTok w # _"] rest_ends intro: list_all2_appendI)
qed

lemma leaf_level: "list_all (leaf_means sat item call) (toks l e) = list_all (leaf_means sat item call) (toks 0 e)"
  by (cases e) (simp_all add: paren_def)

lemma requirement_reads:
  "list_all (leaf_means sat item call) (toks 0 e) \<Longrightarrow> grouped e \<Longrightarrow>
   or_reads sat (ptoks (toks 0 e)) (holds item call e) \<and> ((\<forall>c a b. e \<noteq> Or c a b) \<longrightarrow> and_reads sat (ptoks (toks 0 e)) (holds item call e)) \<and>
   atom_reads sat (ptoks (toks 1 e)) (holds item call e)"
proof (induction e)
  case (Item n)
  then obtain m where "item_node n = Inr m" "means sat m (item n)" "CHR ''|'' \<notin> set n" by auto
  then have "atom_reads sat [ItemTok n] (item n)" by (auto simp: atom_reads_def parse_atom.simps [of "ItemTok n # _"])
  with Item show ?case by (auto intro: atom_and and_or)
next
  case (Call f a)
  then obtain ts m where *: "tokenize (call_text (f, a)) = Inr (LBrace # ts)" "parse_func ts = Inr (m, [])" "means sat m (call f a)" by auto
  then have "tok_tokens (TCall f a) = LBrace # ts" by (simp add: tok_tokens_def)
  moreover have "atom_reads sat (LBrace # ts) (call f a)"
    using *(3) parse_func_append [OF *(2)] by (auto simp: atom_reads_def parse_atom.simps [of "LBrace # _"])
  ultimately show ?case by (auto intro: atom_and and_or)
next
  case (Group e)
  then have "atom_reads sat (LParen # ptoks (toks 0 e) @ [RParen]) (holds item call e)" by (auto intro: group_reads)
  then show ?case by (auto intro: atom_and and_or)
next
  case (And c a b)
  then have "grouped a" "grouped b" "\<forall>c x y. a \<noteq> Or c x y" "list_all (leaf_means sat item call) (toks 0 a)"
    "list_all (leaf_means sat item call) (toks 0 b)"
    using leaf_level [of sat item call 1 b] by (simp_all add: paren_def split: req.splits)
  then have "and_reads sat (ptoks (toks 0 a)) (holds item call a)" "atom_reads sat (ptoks (toks 1 b)) (holds item call b)"
    using And.IH by blast+
  then have "and_reads sat (ptoks (toks 0 (And c a b))) (holds item call (And c a b))" by (simp add: paren_def and_chain)
  moreover from this have "atom_reads sat (LParen # ptoks (toks 0 (And c a b)) @ [RParen]) (holds item call (And c a b))"
    by (intro group_reads and_or)
  ultimately show ?case by (auto simp: paren_def intro: and_or)
next
  case (Or c a b)
  then have "grouped a" "grouped b" "list_all (leaf_means sat item call) (toks 0 a)" "list_all (leaf_means sat item call) (toks 0 b)"
    using leaf_level [of sat item call 1 b] by (simp_all add: paren_def)
  then have "or_reads sat (ptoks (toks 0 a)) (holds item call a)" "and_reads sat (ptoks (toks 1 b)) (holds item call b)"
    using Or.IH by (blast intro: atom_and)+
  then have "or_reads sat (ptoks (toks 0 (Or c a b))) (holds item call (Or c a b))" by (simp add: paren_def or_chain)
  moreover from this have "atom_reads sat (LParen # ptoks (toks 0 (Or c a b)) @ [RParen]) (holds item call (Or c a b))"
    by (intro group_reads)
  ultimately show ?case by (auto simp: paren_def)
qed (simp_all add: paren_def)

lemma toks_ends: "toks l e \<noteq> [] \<and> (\<forall>c. hd (toks l e) \<notin> {TAnd c, TOr c} \<and> last (toks l e) \<notin> {TAnd c, TOr c})"
  by (induction e arbitrary: l) (auto simp: paren_def)

lemma spell_no_space: "leaf_means sat item call t \<Longrightarrow> \<forall>c. t \<notin> {TAnd c, TOr c} \<Longrightarrow> \<not> is_space (hd (spell t)) \<and> \<not> is_space (last (spell t))"
  by (cases t) (auto simp: item_text_def call_text_def)

lemma strip_requirement: "list_all (leaf_means sat item call) (toks 0 e) \<Longrightarrow> strip (requirement e) = requirement e"
proof -
  assume l: "list_all (leaf_means sat item call) (toks 0 e)"
  obtain t ts where ts: "toks 0 e = t # ts" using toks_ends [of 0 e] by (cases "toks 0 e") auto
  obtain us u where us: "toks 0 e = us @ [u]" using toks_ends [of 0 e] by (cases "toks 0 e" rule: rev_cases) auto
  have "\<not> is_space (hd (requirement e))"
    using spell_no_space [of sat item call t] l toks_ends [of 0 e] by (simp add: requirement_def ts)
  moreover have "\<not> is_space (last (requirement e))"
    using spell_no_space [of sat item call u] l toks_ends [of 0 e] by (simp add: requirement_def us)
  moreover have "requirement e \<noteq> []" by (simp add: requirement_def ts)
  ultimately show ?thesis by (simp add: strip_trimmed trimmed_def)
qed

text \<open>The rules of a requirement are open exactly when it holds.\<close>

lemma pack_rules_holds:
  assumes "list_all (leaf_means sat item call) (toks 0 e)" "grouped e"
  shows "\<exists>rules. pack_rules (JStr (requirement e)) = Inr rules \<and> rules_open sat rules = holds item call e"
proof -
  have tok: "tokenize (strip (requirement e)) = Inr (ptoks (toks 0 e))"
    unfolding strip_requirement [OF assms(1)] using tokenize_spells [OF assms(1)] by (simp add: requirement_def)
  obtain cs bs where cs: "list_all2 (means sat) cs bs" "cs \<noteq> []" "list_ex id bs = holds item call e"
    "parse_or (ptoks (toks 0 e)) = parse_or_rest cs []"
    using requirement_reads [OF assms] unfolding or_reads_def by (metis append_Nil2 no_and_simps(1))
  have "parse_or [] = Inl parse_error" by (simp add: parse_or.simps [of "[]"] parse_and.simps [of "[]"] parse_atom.simps [of "[]"])
  then have "ptoks (toks 0 e) \<noteq> []" using cs(4) rest_ends(2) [of "[]" cs] by (metis Inl_Inr_False no_and_simps(4))
  then have parse: "parse_requires (JStr (requirement e)) = Inr (or_node cs)"
  proof -
    obtain k ks where ps: "ptoks (toks 0 e) = k # ks" using \<open>ptoks (toks 0 e) \<noteq> []\<close> by (meson neq_Nil_conv)
    show ?thesis by (simp add: parse_text_def tok [unfolded ps] parse_tokens_def cs(4) [unfolded ps] rest_ends)
  qed
  obtain d where d: "to_dnf (or_node cs) = Inr d" "d \<noteq> []" "clean d" "dnf_true sat d = holds item call e"
    using or_node_means [OF cs(1,2)] cs(3) by (auto simp: means_def)
  then show ?thesis by (simp add: pack_rules_def parse rules_open_dnf del: parse_requires.simps)
qed

section \<open>Items of the tracker\<close>

lemma int_body_chars: "int_body n s = Some k \<Longrightarrow> c \<in> set s \<Longrightarrow> is_digit c \<or> c = CHR ''_''"
  by (induction n s arbitrary: c rule: int_body.induct) (auto split: if_splits list.splits)

lemma int_digits_chars: "int_digits s = Some k \<Longrightarrow> c \<in> set s \<Longrightarrow> is_digit c \<or> c = CHR ''_''"
  unfolding int_digits_def by (cases s) (auto split: if_splits simp del: int_body.simps dest: int_body_chars)

lemma strip_decomp: "\<exists>p q. s = p @ strip s @ q \<and> list_all is_space p \<and> list_all is_space q"
proof (intro exI conjI)
  let ?d = "dropWhile is_space s"
  show "s = takeWhile is_space s @ strip s @ rev (takeWhile is_space (rev ?d))"
    unfolding strip_by_def by (metis rev_append rev_rev_ident takeWhile_dropWhile_id)
  show "list_all is_space (takeWhile is_space s)" "list_all is_space (rev (takeWhile is_space (rev ?d)))"
    by (auto simp: list_all_iff dest: set_takeWhileD)
qed

lemma py_int_chars: "py_int s = Some k \<Longrightarrow> c \<in> set s \<Longrightarrow> is_space c \<or> is_digit c \<or> c \<in> set ''_+-''"
proof -
  assume k: "py_int s = Some k" and c: "c \<in> set s"
  from strip_decomp [of s] obtain p q where s: "s = p @ strip s @ q" "list_all is_space p" "list_all is_space q" by blast
  have "is_digit c \<or> c \<in> set ''_+-''" if "c \<in> set (strip s)"
    using k that int_digits_chars unfolding py_int_def by (fastforce split: list.splits if_splits)
  moreover have "c \<in> set p \<or> c \<in> set (strip s) \<or> c \<in> set q" using c by (subst (asm) s(1)) auto
  ultimately show ?thesis using s(2,3) by (auto simp: list_all_iff)
qed

lemma strip_twice: "strip (strip s) = strip s"
proof (cases "strip s = []")
  case False
  have "\<not> is_space (last (strip s))"
    using False hd_dropWhile [of is_space "rev (dropWhile is_space s)"] by (simp add: strip_by_def last_rev del: dropWhile_eq_Nil_conv)
  moreover have "\<not> is_space (hd (strip s))"
  proof -
    have ne: "dropWhile is_space s \<noteq> []" using False by (auto simp: strip_by_def simp del: dropWhile_eq_Nil_conv)
    have "dropWhile is_space s = strip s @ rev (takeWhile is_space (rev (dropWhile is_space s)))"
      unfolding strip_by_def by (metis rev_append rev_rev_ident takeWhile_dropWhile_id)
    then have "hd (strip s) = hd (dropWhile is_space s)" using False by (metis hd_append2)
    then show ?thesis using hd_dropWhile ne by metis
  qed
  ultimately show ?thesis using False by (intro strip_trimmed) (simp add: trimmed_def)
next
  case True
  show ?thesis unfolding True by (simp add: strip_by_def)
qed

text \<open>The tracker has the player's items: an item's code is lit by one of it, \<open>$has_count\<close> counts it.\<close>

definition tracks_item :: "(string \<Rightarrow> bool) \<Rightarrow> 'st rule_env \<Rightarrow> 'st \<Rightarrow> string \<Rightarrow> bool" where
  "tracks_item sat env st n \<longleftrightarrow>
     (\<exists>name k. item_node n = Inr (PItem name k) \<and> code_for name \<noteq> [] \<and> 0 \<le> state_count env name st \<and>
        sat (code_for name) = (1 \<le> state_count env name st) \<and>
        sat (''$has_count|'' @ code_for name @ ''|'' @ show_int k) = (k \<le> state_count env name st))"

lemma code_runs_chars: "c \<in> set (code_runs s) \<Longrightarrow> code_char c \<or> c = CHR ''_''"
proof (induction s rule: code_runs.induct)
  case (1 s)
  then show ?case by (cases s) (auto simp: code_runs.simps [of "[]"] code_runs.simps [of "_ # _"] split: if_splits)
qed

lemma code_no_comma: "CHR '','' \<notin> set (code_for n)"
proof -
  have "set (strip_by p s) \<subseteq> set s" for p and s :: string unfolding strip_by_def by (auto dest!: set_dropWhileD)
  then show ?thesis using code_runs_chars [of "CHR '',''" "lower n"] by (auto simp: code_for_def code_char_def is_digit_def)
qed

lemma show_no_comma: "CHR '','' \<notin> set (show_int k)"
  using show_nat_digits [of "CHR '',''"] by (auto simp: show_int_def is_digit_def)

lemma item_node_parts:
  assumes "item_node n = Inr (PItem name k)" "hd n \<notin> set ''@$|''" "n \<noteq> []" "strip n = n"
  shows "fst (item_parts n) = name" "item_wanted env n = Inr k"
proof -
  have bare: "dropWhile (\<lambda>c. c = CHR ''|'' \<or> c = CHR ''@'' \<or> c = CHR ''$'') n = n" using assms(2,3) by (cases n) auto
  have "fst (item_parts n) = name \<and> item_wanted env n = Inr k"
  proof (cases "CHR '':'' \<in> set n")
    case False
    then have "item_parts n = (n, ''1'')" by (simp add: item_parts_def bare split_on_id)
    moreover have "py_int ''1'' = Some 1" "\<not> lower ''1'' = ''all''" "\<not> lower ''1'' = ''half''" by code_simp+
    ultimately show ?thesis using False assms(1,4) by (simp add: item_node_def item_wanted_def required_count_def)
  next
    case True
    then obtain pre rest where n: "n = pre @ CHR '':'' # rest" "CHR '':'' \<notin> set pre" by (meson split_list_first)
    have "takeWhile (\<lambda>c. c \<noteq> CHR '':'') (pre @ CHR '':'' # rest) = pre \<and> dropWhile (\<lambda>c. c \<noteq> CHR '':'') (pre @ CHR '':'' # rest) = CHR '':'' # rest"
      using n(2) by (induction pre) auto
    then have k: "py_int (strip rest) = Some k" "name = strip pre" using assms(1) True by (auto simp: item_node_def n(1) split: option.splits)
    have char: "is_space c \<or> is_digit c \<or> c \<in> set ''_+-''" if "c \<in> set rest" for c
    proof -
      from strip_decomp [of rest] obtain p q where r: "rest = p @ strip rest @ q" "list_all is_space p" "list_all is_space q" by blast
      have "c \<in> set p \<or> c \<in> set (strip rest) \<or> c \<in> set q" using that by (subst (asm) r(1)) auto
      then show ?thesis using py_int_chars [OF k(1)] r(2,3) by (auto simp: list_all_iff)
    qed
    have "CHR '':'' \<notin> set rest" using char [of "CHR '':''"] by (auto simp: is_space_def is_digit_def)
    moreover have "CHR '':'' \<notin> set u \<Longrightarrow> split_on CHR '':'' (u @ CHR '':'' # v) = u # split_on CHR '':'' v" for u v by (induction u) auto
    ultimately have "split_on CHR '':'' n = [pre, rest]" using n by (simp add: split_on_id)
    then have parts: "item_parts n = (name, strip rest)" by (simp add: item_parts_def bare k(2))
    have no: "CHR ''l'' \<notin> set (lower (strip rest))" "CHR ''%'' \<notin> set (strip rest)"
    proof -
      have no_l: "CHR ''l'' \<noteq> lower_char c" if "c \<in> set (strip rest)" for c
        using py_int_chars [OF k(1) that] by (auto simp: is_space_def is_digit_def lower_char_def)
      show "CHR ''l'' \<notin> set (lower (strip rest))"
      proof
        assume "CHR ''l'' \<in> set (lower (strip rest))"
        then obtain c where "CHR ''l'' = lower_char c" "c \<in> set (strip rest)" unfolding lower_def set_map by (rule imageE)
        with no_l show False by blast
      qed
      show "CHR ''%'' \<notin> set (strip rest)" using py_int_chars [OF k(1), of "CHR ''%''"] by (auto simp: is_space_def is_digit_def)
    qed
    then have "lower (strip rest) \<noteq> ''all''" "lower (strip rest) \<noteq> ''half''" "strip rest = [] \<or> last (strip rest) \<noteq> CHR ''%''"
      using last_in_set [of "strip rest"] by fastforce+
    then show ?thesis using k(1) by (auto simp: parts item_wanted_def required_count_def)
  qed
  then show "fst (item_parts n) = name" "item_wanted env n = Inr k" by simp_all
qed

lemma tracked_item_means:
  assumes "tracks_item sat env st n" "item_ok n" "hd n \<noteq> CHR ''$''" "strip n = n"
  shows "leaf_means sat (item_sat env st) call (TItem n)" "item_defined env n"
proof -
  obtain name k where n: "item_node n = Inr (PItem name k)" "code_for name \<noteq> []" "0 \<le> state_count env name st"
    "sat (code_for name) = (1 \<le> state_count env name st)"
    "sat (''$has_count|'' @ code_for name @ ''|'' @ show_int k) = (k \<le> state_count env name st)"
    using assms(1) by (auto simp: tracks_item_def)
  have hd: "hd n \<notin> set ''@$|''" "n \<noteq> []" "CHR ''|'' \<notin> set n" using assms(2,3) by (cases n; auto simp: item_ok_def)+
  note parts = item_node_parts(1) [OF n(1) hd(1,2) assms(4)] item_node_parts(2) [OF n(1) hd(1,2) assms(4), of env]
  show "item_defined env n" by (simp add: item_defined_def parts)
  have "means sat (PItem name k) (item_sat env st n)"
    using n(2-5) code_no_comma [of name] show_no_comma [of k]
    by (auto simp: means_def to_dnf.simps [of "PItem name k"] item_rule_def item_sat_def parts dnf_true_def)
  then show "leaf_means sat (item_sat env st) call (TItem n)" using n(1) hd(3) by simp
qed

section \<open>The tracker and the generator\<close>

text \<open>A call the pack translates to terms the tracker lights exactly when the requirement it returns holds.\<close>

abbreviation call_holds :: "'st rule_env \<Rightarrow> 'st \<Rightarrow> (string \<Rightarrow> string \<Rightarrow> req) \<Rightarrow> string \<Rightarrow> string \<Rightarrow> bool" where
  "call_holds env st res f a \<equiv> holds (item_sat env st) (\<lambda>_ _. False) (res f a)"

definition tracks_call :: "(string \<Rightarrow> bool) \<Rightarrow> 'st rule_env \<Rightarrow> 'st \<Rightarrow> (string \<Rightarrow> string \<Rightarrow> req) \<Rightarrow> string \<Rightarrow> string \<Rightarrow> bool" where
  "tracks_call sat env st res f a \<longleftrightarrow>
     call_defined env st res f a \<and> (\<forall>n \<in> set (items_of (toks 0 (res f a))). item_defined env n) \<and>
     leaf_means sat (item_sat env st) (call_holds env st res) (TCall f a)"

fun tracks :: "(string \<Rightarrow> bool) \<Rightarrow> 'st rule_env \<Rightarrow> 'st \<Rightarrow> (string \<Rightarrow> string \<Rightarrow> req) \<Rightarrow> tok \<Rightarrow> bool" where
  "tracks sat env st res (TItem n) \<longleftrightarrow> tracks_item sat env st n \<and> hd n \<noteq> CHR ''$'' \<and> strip n = n"
| "tracks sat env st res (TCall f a) \<longleftrightarrow> tracks_call sat env st res f a"
| "tracks sat env st res (TBit b) = False"
| "tracks sat env st res TNot = False"
| "tracks sat env st res t = True"

lemma items_expand:
  "set (items_of (expand res F ts)) \<subseteq> set (items_of ts) \<union> (\<Union>(f, a) \<in> set (calls_of ts). set (items_of (toks 0 (res f a))))"
  by (induction ts rule: calls_of.induct) auto


text \<open>A player with a Frog and two Uproots, in a world with capturesanity on.\<close>

definition pack_world :: "(string list) hook_env" where
  "pack_world = \<lparr>he_counts = [(''Frog'', 1), (''Uproot'', 2)], he_table = [], he_count = (\<lambda>n st. int (count_list st n)),
     he_reach_location = (\<lambda>l st. False), he_reach_region = (\<lambda>r st. False),
     he_option = (\<lambda>_. 1), he_rolled_gates = None, he_percent = (\<lambda>_ n. Inr n), he_item_value = (\<lambda>_ _. Inl KeyError)\<rparr>"

definition pack_sat :: "string \<Rightarrow> bool" where
  "pack_sat t \<longleftrightarrow> t \<in> {''frog'', ''$has_count|frog|1'', ''uproot'', ''$has_count|uproot|2''}"

abbreviation "pack_sample \<equiv>
  Or False (And False (Item ''Frog'') (Item ''Uproot:2'')) (Call ''YamlDisabled'' ''capturesanity'')"

lemma pack_sample_tracks:
  "tracks pack_sat (world_env pack_world) [''Uproot'', ''Frog'', ''Uproot''] (\<lambda>_ _. Bit False) (TItem ''Frog'')"
  "tracks pack_sat (world_env pack_world) [''Uproot'', ''Frog'', ''Uproot''] (\<lambda>_ _. Bit False) (TItem ''Uproot:2'')"
  "tracks pack_sat (world_env pack_world) [''Uproot'', ''Frog'', ''Uproot''] (\<lambda>_ _. Bit False) (TCall ''YamlDisabled'' ''capturesanity'')"
proof -
  have n: "item_node ''Frog'' = Inr (PItem ''Frog'' 1)" "item_node ''Uproot:2'' = Inr (PItem ''Uproot'' 2)"
    "code_for ''Frog'' = ''frog''" "code_for ''Uproot'' = ''uproot''" "show_int 1 = ''1''" "show_int 2 = ''2''"
    "strip ''Frog'' = ''Frog''" "strip ''Uproot:2'' = ''Uproot:2''"
    by code_simp+
  have c: "tokenize (call_text (''YamlDisabled'', ''capturesanity'')) =
      Inr (LBrace # [Ident ''YamlDisabled'', LParen, Ident ''capturesanity'', RParen, RBrace])"
    "parse_func [Ident ''YamlDisabled'', LParen, Ident ''capturesanity'', RParen, RBrace] = Inr (PFunc ''YamlDisabled'' [''capturesanity''], [])"
    "to_dnf (PFunc ''YamlDisabled'' [''capturesanity'']) = Inr [[''$is_opt_off|capturesanity'']]"
    "call_args ''capturesanity'' = [''capturesanity'']"
    by code_simp+
  show "tracks pack_sat (world_env pack_world) [''Uproot'', ''Frog'', ''Uproot''] (\<lambda>_ _. Bit False) (TItem ''Frog'')"
    using n by (simp add: tracks_item_def pack_sat_def world_env_def pack_world_def)
  show "tracks pack_sat (world_env pack_world) [''Uproot'', ''Frog'', ''Uproot''] (\<lambda>_ _. Bit False) (TItem ''Uproot:2'')"
    using n by (simp add: tracks_item_def pack_sat_def world_env_def pack_world_def)
  have "hook_function pack_world ''YamlDisabled'' = Some (unary (\<lambda>p st. Inr (RBool (\<not> is_option_enabled pack_world p))))"
    by (simp add: hook_function_def always_true_def peace_locations_def peace_thresholds_def)
  then have "call_defined (world_env pack_world) [''Uproot'', ''Frog'', ''Uproot''] (\<lambda>_ _. Bit False) ''YamlDisabled'' ''capturesanity''"
    by (simp add: call_defined_def world_env_def c(4) unary_def is_option_enabled_def pack_world_def func_text_def requirement_def)
  moreover have "means pack_sat (PFunc ''YamlDisabled'' [''capturesanity'']) False"
    by (simp add: means_def c(3) dnf_true_def pack_sat_def)
  ultimately show "tracks pack_sat (world_env pack_world) [''Uproot'', ''Frog'', ''Uproot''] (\<lambda>_ _. Bit False) (TCall ''YamlDisabled'' ''capturesanity'')"
    using c(1,2) by (simp add: tracks_call_def)
qed


section \<open>Where the two differ\<close>

text \<open>Without parentheses the pack reads \<open>AND\<close> before \<open>OR\<close>, \<open>Rules.py\<close> from the left: a player with a Frog
  alone is refused by the generator and let through by the tracker.\<close>

lemma mixed_operators_differ:
  "check_require_string (world_env pack_world) ''|Frog| or |Uproot| and |Sherm|'' [''Frog''] = Inr False \<and>
   pack_rules (JStr ''|Frog| or |Uproot| and |Sherm|'') = Inr [''frog'', ''uproot,sherm'']"
  by code_simp

text \<open>The argument of a call loses its spaces, and its commas split it.\<close>

lemma call_argument_spaces:
  "pack_rules (JStr ''{canReachLocation(Metro: A Traditional Festival!)}'') = Inr [''$can_reach_location|Metro:ATraditionalFestival!'']"
  by code_simp

text \<open>A list of names, a share of the pool and a negation are requirements of \<open>Rules.py\<close> that stop the pack.\<close>

lemma unsupported_requirements:
  "pack_rules (JList [JStr ''Frog'']) = Inl parse_error \<and> pack_rules (JStr ''|Frog:half|'') = Inl parse_error \<and>
   pack_rules (JStr ''!|Frog|'') = Inl parse_error"
  by code_simp

end
