(* ===== verification/Pack_Sections.thy ===== *)
theory Pack_Sections
  imports Pack_Locations Pack_Meaning
begin

text \<open>
  What the pack shows: the rules of a region are open exactly when the region can be entered from a start,
  the rules of a section when the location's own requirement, its region, its options and its goal allow it,
  and the ids and the pruned locations are those of the world \<open>__init__.py\<close> builds.
\<close>

section \<open>A normal form has a clause\<close>

fun solid :: "ast \<Rightarrow> bool" where
  "solid PFalse = False"
| "solid (PAnd cs) = list_all solid cs"
| "solid (POr cs) = (cs \<noteq> [] \<and> list_all solid cs)"
| "solid _ = True"

lemma func_rule_not_Nil: "func_rule name args = Inr d \<Longrightarrow> d \<noteq> []"
  by (auto simp: func_rule_def split: if_splits list.splits)

lemma to_dnf_not_Nil:
  "to_dnf n = Inr d \<Longrightarrow> solid n \<Longrightarrow> d \<noteq> []"
  "dnf_and r cs = Inr d \<Longrightarrow> r \<noteq> [] \<Longrightarrow> list_all solid cs \<Longrightarrow> d \<noteq> []"
  "dnf_or r cs = Inr d \<Longrightarrow> r \<noteq> [] \<or> cs \<noteq> [] \<Longrightarrow> list_all solid cs \<Longrightarrow> d \<noteq> []"
proof (induction n and r cs and r cs arbitrary: d and d and d rule: to_dnf_dnf_and_dnf_or.induct)
  case (1 n)
  then show ?case
    by (cases n)
      (auto simp: to_dnf.simps [of "PItem _ _"] to_dnf.simps [of PTrue] to_dnf.simps [of PFalse] to_dnf.simps [of "PFunc _ _"]
        to_dnf.simps [of "PAnd _"] to_dnf.simps [of "POr _"] map_sum_Inr func_rule_not_Nil split: if_splits list.splits sum.splits)
next
  case (2 r cs)
  then show ?case by (cases cs) (auto simp: dnf_and.simps [of r "[]"] dnf_and.simps [of r "_ # _"]  split: sum.splits if_splits)
next
  case (3 r cs)
  then show ?case by (cases cs) (auto simp: dnf_or.simps [of r "[]"] dnf_or.simps [of r "_ # _"] split: sum.splits)
qed

lemma parse_func_solid: "parse_func ts = Inr (n, r) \<Longrightarrow> solid n"
  by (auto simp: parse_func_def split: list.splits pack_token.splits sum.splits prod.splits)

lemma item_node_solid: "item_node body = Inr n \<Longrightarrow> solid n"
  by (auto simp: item_node_def split: if_splits option.splits)

lemma node_solid: "list_all solid cs \<Longrightarrow> cs \<noteq> [] \<Longrightarrow> solid (and_node cs) \<and> solid (or_node cs)"
  by (cases cs) (auto simp: and_node_def or_node_def)

lemma parse_solid:
  "parse_or ts = Inr (n, r) \<Longrightarrow> solid n"
  "parse_or_rest cs ts = Inr (n, r) \<Longrightarrow> cs \<noteq> [] \<Longrightarrow> list_all solid cs \<Longrightarrow> solid n"
  "parse_and ts = Inr (n, r) \<Longrightarrow> solid n"
  "parse_and_rest cs ts = Inr (n, r) \<Longrightarrow> cs \<noteq> [] \<Longrightarrow> list_all solid cs \<Longrightarrow> solid n"
  "parse_atom ts = Inr (n, r) \<Longrightarrow> solid n"
proof (induction ts and cs ts and ts and cs ts and ts arbitrary: n r and n r and n r and n r and n r
    rule: parse_or_parse_or_rest_parse_and_parse_and_rest_parse_atom.induct)
  case (1 ts)
  then show ?case by (fastforce simp: parse_or.simps [of ts] split: sum.splits prod.splits)
next
  case (2 cs ts)
  show ?case
  proof (cases "no_or ts")
    case True
    with 2(3-5) show ?thesis using rest_ends(2) [of ts cs] node_solid [of cs] by simp
  next
    case False
    then obtain w us where ts: "ts = OrTok w # us" by (auto simp: no_or_def)
    from 2(3) obtain m q where "parse_and us = Inr (m, q)" "parse_or_rest (cs @ [m]) q = Inr (n, r)"
      by (auto simp: ts parse_or_rest.simps [of cs "_ # _"] split: sum.splits)
    with 2(2) [OF ts refl] 2(1) [OF ts] 2(5) show ?thesis by auto
  qed
next
  case (3 ts)
  then show ?case by (fastforce simp: parse_and.simps [of ts] split: sum.splits prod.splits)
next
  case (4 cs ts)
  show ?case
  proof (cases "no_and ts")
    case True
    with 4(3-5) show ?thesis using rest_ends(1) [of ts cs] node_solid [of cs] by simp
  next
    case False
    then obtain w us where ts: "ts = AndTok w # us" by (auto simp: no_and_def)
    from 4(3) obtain m q where "parse_atom us = Inr (m, q)" "parse_and_rest (cs @ [m]) q = Inr (n, r)"
      by (auto simp: ts parse_and_rest.simps [of cs "_ # _"] split: sum.splits)
    with 4(2) [OF ts refl] 4(1) [OF ts] 4(5) show ?thesis by auto
  qed
next
  case (5 ts)
  then show ?case
    by (auto simp: parse_atom.simps [of ts] map_sum_Inr dest!: parse_func_solid item_node_solid
        split: sum.splits prod.splits list.splits pack_token.splits)
qed

lemma parse_requires_solid: "parse_requires req = Inr n \<Longrightarrow> solid n"
proof (induction req arbitrary: n rule: parse_requires.induct)
  case (2 items)
  have solid: "solid n" if "items \<noteq> []" "x \<in> set items" "parse_requires x = Inr n" for x n using 2(1) that by blast
  have "map_raising parse_requires xs = Inr ns \<Longrightarrow> set xs \<subseteq> set items \<Longrightarrow> list_all solid ns \<and> (xs = [] \<longleftrightarrow> ns = [])" for xs ns
  proof (induction xs arbitrary: ns)
    case (Cons x xs)
    then show ?case using solid [of x] by (cases items) (auto simp: map_sum_Inr split: sum.splits)
  qed simp
  from this [of items] show ?case using 2(2) by (fastforce simp: map_sum_Inr neq_Nil_conv split: if_splits)
qed (auto simp: parse_text_def parse_tokens_def dest: parse_solid(1) split: sum.splits if_splits prod.splits)

lemma requires_dnf_not_Nil: "requires_dnf req = Inr d \<Longrightarrow> d \<noteq> []"
  by (auto simp: requires_dnf_def dest: parse_requires_solid to_dnf_not_Nil(1) split: sum.splits)

section \<open>Entering a region\<close>

definition own_open :: "(string \<Rightarrow> bool) \<Rightarrow> (string, region_row) dict \<Rightarrow> string \<Rightarrow> bool" where
  "own_open sat regions r \<longleftrightarrow> (case region_own regions r of Inl e \<Rightarrow> False | Inr d \<Rightarrow> dnf_true sat d)"

text \<open>A region is entered at the start or from a region that is entered, once its own requirement holds.\<close>

inductive enters :: "(string \<Rightarrow> bool) \<Rightarrow> (string, region_row) dict \<Rightarrow> string \<Rightarrow> bool" for sat regions where
  at_start: "region_starts regions r \<Longrightarrow> own_open sat regions r \<Longrightarrow> enters sat regions r"
| from_parent: "enters sat regions p \<Longrightarrow> p \<in> set (inbound regions r) \<Longrightarrow> own_open sat regions r \<Longrightarrow> enters sat regions r"

lemma enters_iff:
  "enters sat regions r \<longleftrightarrow> own_open sat regions r \<and> (region_starts regions r \<or> (\<exists>p \<in> set (inbound regions r). enters sat regions p))"
  by (subst enters.simps) blast

definition cache_right :: "(string \<Rightarrow> bool) \<Rightarrow> (string, region_row) dict \<Rightarrow> dnf_cache \<Rightarrow> bool" where
  "cache_right sat regions cache \<longleftrightarrow>
     (\<forall>r d. dict_get cache r = Some d \<longrightarrow> d \<noteq> [] \<and> clean d \<and> dnf_true sat d = enters sat regions r)"

lemma cache_right_set:
  "cache_right sat regions cache \<Longrightarrow> d \<noteq> [] \<Longrightarrow> clean d \<Longrightarrow> dnf_true sat d = enters sat regions r \<Longrightarrow> cache_right sat regions (dict_set r d cache)"
  by (simp add: cache_right_def)


lemma dnf_true_Nil [simp]: "dnf_true sat [] = False"
  by (simp add: dnf_true_def)

lemma own_open_dnf: "region_own regions r = Inr own \<Longrightarrow> own_open sat regions r = dnf_true sat own"
  by (simp add: own_open_def)

lemma region_own_not_Nil: "region_own regions r = Inr d \<Longrightarrow> d \<noteq> []"
  unfolding region_own_def by (rule requires_dnf_not_Nil)

text \<open>Regions without a loop: a rank decreases from a region to those it is entered from. Terms without a comma
  can be joined and split again.\<close>

definition ranked :: "(string \<Rightarrow> nat) \<Rightarrow> (string, region_row) dict \<Rightarrow> bool" where
  "ranked rank regions \<longleftrightarrow> list_all (\<lambda>r. list_all (\<lambda>p. rank p < rank r) (inbound regions r)) (dict_keys regions)"

definition clean_regions :: "(string, region_row) dict \<Rightarrow> bool" where
  "clean_regions regions \<longleftrightarrow> list_all (\<lambda>r. case region_own regions r of Inl e \<Rightarrow> True | Inr d \<Rightarrow> clean d) (dict_keys regions)"

lemma rank_less: "ranked rank regions \<Longrightarrow> p \<in> set (inbound regions r) \<Longrightarrow> rank p < rank r"
  using inbound_known [of regions r] by (fastforce simp: ranked_def list_all_iff)

lemma region_own_clean:
  assumes "clean_regions regions" "region_own regions r = Inr d"
  shows "clean d"
proof (cases "r \<in> set (dict_keys regions)")
  case True
  with assms show ?thesis by (fastforce simp: clean_regions_def list_all_iff split: sum.splits)
next
  case False
  then have "dict_get regions r = None" by (simp add: dict_get_None_iff)
  moreover have "requires_dnf None = Inr [[]]" by code_simp
  ultimately show ?thesis using assms(2) by (auto simp: region_own_def)
qed

lemma region_dnf_enters:
  "region_dnf regions s cache r = Inr (d, cache') \<Longrightarrow> ranked rank regions \<Longrightarrow> clean_regions regions \<Longrightarrow>
    cache_right sat regions cache \<Longrightarrow> \<forall>x \<in> set s. rank r < rank x \<Longrightarrow>
    cache_right sat regions cache' \<and> d \<noteq> [] \<and> clean d \<and> dnf_true sat d = enters sat regions r"
  "parents_dnf regions s cache acc ps = Inr (d, cache') \<Longrightarrow> ranked rank regions \<Longrightarrow> clean_regions regions \<Longrightarrow>
    cache_right sat regions cache \<Longrightarrow> \<forall>p \<in> set ps. \<forall>x \<in> set s. rank p < rank x \<Longrightarrow> clean acc \<Longrightarrow>
    cache_right sat regions cache' \<and> (acc \<noteq> [] \<or> ps \<noteq> [] \<longrightarrow> d \<noteq> []) \<and> clean d \<and>
      dnf_true sat d = (dnf_true sat acc \<or> (\<exists>p \<in> set ps. enters sat regions p))"
proof (induction regions s cache r and regions s cache acc ps arbitrary: d cache' and d cache' rule: region_dnf_parents_dnf.induct)
  case (1 regions s cache r)
  show ?case
  proof (cases "dict_get cache r")
    case (Some c)
    with 1 show ?thesis by (auto simp: region_dnf.simps [of regions s cache r] cache_right_def)
  next
    case None
    have fresh: "r \<notin> set s" using 1(6) by auto
    with None 1(2) obtain w where o: "region_own regions r = Inr w"
      by (auto simp: region_dnf.simps [of regions s cache r] split: sum.splits)
    note right = region_own_clean [OF 1(4) o] region_own_not_Nil [OF o] own_open_dnf [OF o, of sat] enters_iff [of sat regions r]
    show ?thesis
    proof (cases "region_starts regions r")
      case True
      with None fresh 1(2,5) o right show ?thesis by (auto simp: region_dnf.simps [of regions s cache r] intro: cache_right_set)
    next
      case False
      with None fresh 1(2) o obtain parent c where p: "parents_dnf regions (r # s) cache [] (inbound regions r) = Inr (parent, c)"
        "d = add_clauses [] (merge_all parent w)" "cache' = dict_set r d c"
        by (auto simp: region_dnf.simps [of regions s cache r] Let_def split: sum.splits)
      have below: "\<forall>p \<in> set (inbound regions r). \<forall>x \<in> set (r # s). rank p < rank x"
        using rank_less [OF 1(3), of _ r] 1(6) by fastforce
      have ps: "inbound regions r \<noteq> []" using False by (auto simp: region_starts_def)
      from 1(1) [OF None fresh o False p(1) 1(3,4,5) below] ps
      have "cache_right sat regions c" "parent \<noteq> []" "clean parent" "dnf_true sat parent = (\<exists>p \<in> set (inbound regions r). enters sat regions p)"
        by auto
      then show ?thesis using right False p(2,3) by (auto intro!: cache_right_set)
    qed
  qed
next
  case (2 regions s cache acc ps)
  show ?case
  proof (cases ps)
    case Nil
    with 2(3-) show ?thesis by (simp add: parents_dnf.simps [of regions s cache acc "[]"])
  next
    case (Cons p qs)
    with 2(3) obtain e c where e: "region_dnf regions s cache p = Inr (e, c)" "parents_dnf regions s c (add_clauses acc e) qs = Inr (d, cache')"
      by (auto simp: parents_dnf.simps [of regions s cache acc "_ # _"] split: sum.splits)
    have "cache_right sat regions c \<and> e \<noteq> [] \<and> clean e \<and> dnf_true sat e = enters sat regions p"
      using 2(1) [OF Cons e(1) 2(4,5,6)] 2(7) Cons by simp
    then show ?thesis using 2(2) [OF Cons e(1) refl e(2) 2(4,5)] 2(7,8) Cons by auto
  qed
qed

lemma prereqs_right:
  assumes "prereqs_from regions cache rs = Inr pre" "ranked rank regions" "clean_regions regions" "cache_right sat regions cache"
  shows "(r \<in> set rs \<longrightarrow> (\<exists>d. dict_get pre r = Some (dnf_to_access_rules d) \<and> d \<noteq> [] \<and> clean d \<and> dnf_true sat d = enters sat regions r)) \<and>
    (r \<notin> set rs \<longrightarrow> dict_get pre r = None)"
  using assms
proof (induction rs arbitrary: cache pre)
  case (Cons q rs)
  then obtain d c pre' where step: "region_dnf regions [] cache q = Inr (d, c)" "prereqs_from regions c rs = Inr pre'"
    "pre = (q, dnf_to_access_rules d) # pre'"
    by (auto simp: map_sum_Inr split: sum.splits)
  have "cache_right sat regions c \<and> d \<noteq> [] \<and> clean d \<and> dnf_true sat d = enters sat regions q"
    using region_dnf_enters(1) [OF step(1) Cons.prems(2-4)] by simp
  then show ?case using Cons.IH [OF step(2) Cons.prems(2,3)] step(3) by auto
qed simp

section \<open>Clauses of a section\<close>

lemma access_rules_elem:
  "r \<in> set (access_rules d seen rules) \<Longrightarrow> r \<in> set rules \<or> (\<exists>c \<in> set d. c \<noteq> [] \<and> r = join '','' c)"
  by (induction d seen rules rule: access_rules.induct) (auto split: if_splits)

text \<open>The rules of a region, split at the commas, are clauses of its normal form again.\<close>

abbreviation split_rules :: "string list \<Rightarrow> string list list" where
  "split_rules rules \<equiv> map (\<lambda>r. if r = [] then [] else split_on CHR '','' r) rules"

lemma split_rules_clauses:
  assumes "d \<noteq> []" "clean d"
  shows "clean (split_rules (dnf_to_access_rules d))" "[] \<notin> set (dnf_to_access_rules d)"
proof -
  have elem: "r \<noteq> [] \<and> split_on CHR '','' r \<in> set d" if "r \<in> set (dnf_to_access_rules d)" for r
  proof -
    from that assms(1) access_rules_elem [of r d "[]" "[]"] obtain c where c: "c \<in> set d" "c \<noteq> []" "r = join '','' c"
      by (auto simp: dnf_to_access_rules_def)
    have "split_on CHR '','' r = c" unfolding c(3) using c(1,2) assms(2) by (intro split_on_join) (auto simp: list_all_iff)
    moreover have "[] \<notin> set c" using c(1) assms(2) by (auto simp: list_all_iff)
    ultimately show ?thesis using c(1) by (cases r) auto
  qed
  show "[] \<notin> set (dnf_to_access_rules d)" using elem by blast
  show "clean (split_rules (dnf_to_access_rules d))" using elem assms(2) by (fastforce simp: list_all_iff)
qed

lemma split_rules_true:
  assumes "d \<noteq> []" "clean d" "dnf_to_access_rules d \<noteq> []"
  shows "dnf_true sat (split_rules (dnf_to_access_rules d)) = dnf_true sat d"
proof -
  have "list_ex (list_all sat) (split_rules rs) = list_ex (\<lambda>r. list_all sat (split_on CHR '','' r)) rs" if "[] \<notin> set rs" for rs
    using that by (induction rs) auto
  then show ?thesis using split_rules_clauses(2) [OF assms(1,2)] rules_open_dnf [OF assms(1,2), of sat] assms(3)
    by (simp add: rules_open_def dnf_true_def)
qed

text \<open>A term put on every clause.\<close>

definition shut :: "(string \<Rightarrow> bool) \<Rightarrow> string list list \<Rightarrow> bool \<Rightarrow> bool" where
  "shut sat d b \<longleftrightarrow> d \<noteq> [] \<and> clean d \<and> dnf_true sat d = b"

lemma shut_map:
  assumes "shut sat d b" "\<And>c. c \<in> set d \<Longrightarrow> set (f c) = set c \<union> set ts" "list_all (\<lambda>t. t \<noteq> [] \<and> CHR '','' \<notin> set t) ts"
  shows "shut sat (map f d) (b \<and> list_all sat ts)"
proof -
  have "clean (map f d)" using assms by (fastforce simp: shut_def list_all_iff)
  moreover have "dnf_true sat (map f d) = (dnf_true sat d \<and> list_all sat ts)"
    using assms(2) by (auto simp: dnf_true_iff list_all_iff)
  ultimately show ?thesis using assms(1) by (simp add: shut_def)
qed

lemma shut_term: "shut sat d b \<Longrightarrow> t \<noteq> [] \<Longrightarrow> CHR '','' \<notin> set t \<Longrightarrow> shut sat (and_term d t) (b \<and> sat t)"
proof -
  have "set (if t \<in> set c then c else c @ [t]) = set c \<union> set [t]" for c by auto
  then show "shut sat d b \<Longrightarrow> t \<noteq> [] \<Longrightarrow> CHR '','' \<notin> set t \<Longrightarrow> ?thesis"
    using shut_map [of sat d b "\<lambda>c. if t \<in> set c then c else c @ [t]" "[t]"] by (simp add: and_term_def)
qed

lemma shut_terms:
  "shut sat d b \<Longrightarrow> list_all (\<lambda>t. t \<noteq> [] \<and> CHR '','' \<notin> set t) ts \<Longrightarrow>
   shut sat (map (\<lambda>clause. clause @ filter (\<lambda>t. t \<notin> set clause) ts) d) (b \<and> list_all sat ts)"
  by (rule shut_map) auto

lemma shut_and: "shut sat a b \<Longrightarrow> shut sat d c \<Longrightarrow> shut sat (and_dnfs a d) (b \<and> c)"
  by (simp add: shut_def and_dnfs_def)

lemma shut_rules: "shut sat d b \<Longrightarrow> rules_open sat (dnf_to_access_rules d) = b"
  by (simp add: shut_def rules_open_dnf)

section \<open>When a section is available\<close>

text \<open>The location's requirement, its region, the options of its categories, the goal and Talkatoo.\<close>

definition region_available :: "(string \<Rightarrow> bool) \<Rightarrow> (string, region_row) dict \<Rightarrow> pack_location \<Rightarrow> bool" where
  "region_available sat regions loc \<longleftrightarrow>
     (let r = or_default (pk_region loc) ''SMO'' in if r \<in> set (dict_keys regions) then enters sat regions r else True)"

definition options_on :: "(string \<Rightarrow> bool) \<Rightarrow> category_options \<Rightarrow> pack_location \<Rightarrow> bool" where
  "options_on sat categories loc \<longleftrightarrow>
     list_all (\<lambda>cat. list_all (\<lambda>opt. sat (''$is_opt|'' @ dropWhile (\<lambda>c. c = CHR ''!'') opt)) (dict_get_or categories cat [])) (pk_category loc)"

definition goal_allows :: "(string \<Rightarrow> bool) \<Rightarrow> string list \<Rightarrow> pack_location \<Rightarrow> bool" where
  "goal_allows sat victories loc \<longleftrightarrow>
     (if pk_victory loc then sat (''$is_goal|'' @ show_int (goal_index victories (pk_name loc))) else True) \<and>
     (if location_out_of_festival_scope loc then sat ''$is_goal|0'' else True) \<and>
     (if location_blocked_by_talkatoo loc then sat ''$is_opt_off|talkatoo_mode'' else True)"

definition section_available ::
  "(string \<Rightarrow> bool) \<Rightarrow> (string, region_row) dict \<Rightarrow> category_options \<Rightarrow> string list \<Rightarrow> pack_location \<Rightarrow> bool" where
  "section_available sat regions categories victories loc \<longleftrightarrow>
     (case requires_dnf (pk_requires loc) of Inl e \<Rightarrow> False | Inr own \<Rightarrow> dnf_true sat own) \<and>
     region_available sat regions loc \<and> options_on sat categories loc \<and> goal_allows sat victories loc"

definition clean_location :: "category_options \<Rightarrow> pack_location \<Rightarrow> bool" where
  "clean_location categories loc \<longleftrightarrow>
     (case requires_dnf (pk_requires loc) of Inl e \<Rightarrow> True | Inr d \<Rightarrow> clean d) \<and>
     list_all (\<lambda>cat. list_all (\<lambda>opt. CHR '','' \<notin> set opt) (dict_get_or categories cat [])) (pk_category loc)"

lemma opt_terms_set:
  "set (opt_terms (category_option_gates categories) loc) =
     (\<Union>cat \<in> set (pk_category loc). (\<lambda>opt. ''$is_opt|'' @ dropWhile (\<lambda>c. c = CHR ''!'') opt) ` set (dict_get_or categories cat []))"
proof -
  have "dict_get_or (category_option_gates categories) cat [] = map (dropWhile (\<lambda>c. c = CHR ''!'')) (dict_get_or categories cat [])" for cat
    unfolding category_option_gates_def by (induction categories) (auto simp: dict_get_or_def)
  then show ?thesis by (auto simp: opt_terms_def set_merge_clause)
qed

lemma shut_section:
  assumes "section_dnf pre (category_option_gates categories) victories loc = Inr d"
    "build_region_prereqs regions = Inr pre" "ranked rank regions" "clean_regions regions" "clean_location categories loc"
  shows "shut sat d (section_available sat regions categories victories loc)"
proof -
  obtain own where own: "requires_dnf (pk_requires loc) = Inr own" using assms(1) by (auto simp: section_dnf_def split: sum.splits)
  let ?r = "or_default (pk_region loc) ''SMO''" and ?terms = "opt_terms (category_option_gates categories) loc"
  define rules where "rules = dict_get_or pre ?r []"
  define d1 where "d1 = (if rules = [] then own else and_dnfs (split_rules rules) own)"
  define d2 where "d2 = (if ?terms = [] then d1 else map (\<lambda>clause. clause @ filter (\<lambda>t. t \<notin> set clause) ?terms) d1)"
  define d3 where "d3 = (if pk_victory loc then and_term d2 (''$is_goal|'' @ show_int (goal_index victories (pk_name loc))) else d2)"
  define d4 where "d4 = (if location_out_of_festival_scope loc then and_term d3 ''$is_goal|0'' else d3)"
  have d: "d = (if location_blocked_by_talkatoo loc then and_term d4 ''$is_opt_off|talkatoo_mode'' else d4)"
    using assms(1) unfolding section_dnf_def own sum.case Let_def rules_def [symmetric] d1_def [symmetric] d2_def [symmetric]
      d3_def [symmetric] d4_def [symmetric] by simp
  have shut_own: "shut sat own (dnf_true sat own)"
    using own assms(5) requires_dnf_not_Nil [OF own] by (simp add: shut_def clean_location_def)
  have cache: "cache_right sat regions []" by (simp add: cache_right_def)
  note pre = prereqs_right [OF assms(2) [unfolded build_region_prereqs_def] assms(3,4) cache, of ?r]
  have "shut sat d1 (dnf_true sat own \<and> region_available sat regions loc)"
  proof (cases "?r \<in> set (dict_keys regions)")
    case False
    then have "rules = []" using pre by (simp add: rules_def dict_get_or_def)
    with False shut_own show ?thesis by (simp add: d1_def region_available_def)
  next
    case True
    then obtain e where e: "rules = dnf_to_access_rules e" "e \<noteq> []" "clean e" "dnf_true sat e = enters sat regions ?r"
      using pre by (auto simp: rules_def dict_get_or_def)
    have entered: "region_available sat regions loc = dnf_true sat e" using True e(4) by (simp add: region_available_def)
    show ?thesis
    proof (cases "rules = []")
      case True
      then have "dnf_true sat e" using rules_open_dnf [OF e(2,3), of sat] by (simp add: e(1) rules_open_def)
      with True entered shut_own show ?thesis by (simp add: d1_def)
    next
      case False
      then have "shut sat (split_rules rules) (dnf_true sat e)"
        using e(2,3) split_rules_clauses(1) [OF e(2,3)] split_rules_true [OF e(2,3)] unfolding e(1) by (simp add: shut_def)
      from shut_and [OF this shut_own] False show ?thesis by (simp add: d1_def entered conj_commute)
    qed
  qed
  moreover have "list_all (\<lambda>t. t \<noteq> [] \<and> CHR '','' \<notin> set t) ?terms"
    using assms(5) set_dropWhileD [of "CHR '',''" "\<lambda>c. c = CHR ''!''"]
    by (fastforce simp: list_all_iff opt_terms_set clean_location_def)
  ultimately have "shut sat d2 ((dnf_true sat own \<and> region_available sat regions loc) \<and> list_all sat ?terms)"
    unfolding d2_def using shut_terms [of sat d1 "dnf_true sat own \<and> region_available sat regions loc" ?terms] by (cases "?terms = []") simp_all
  moreover have "list_all sat ?terms = options_on sat categories loc"
    by (auto simp: list_all_iff opt_terms_set options_on_def)
  ultimately have two: "shut sat d2 ((dnf_true sat own \<and> region_available sat regions loc) \<and> options_on sat categories loc)" by simp
  have no_comma: "CHR '','' \<notin> set (''$is_goal|'' @ show_int k)" for k using show_no_comma [of k] by simp
  have three: "shut sat d3 (((dnf_true sat own \<and> region_available sat regions loc) \<and> options_on sat categories loc) \<and>
      (if pk_victory loc then sat (''$is_goal|'' @ show_int (goal_index victories (pk_name loc))) else True))"
    using shut_term [OF two _ no_comma] two by (simp add: d3_def)
  have four: "shut sat d4 ((((dnf_true sat own \<and> region_available sat regions loc) \<and> options_on sat categories loc) \<and>
      (if pk_victory loc then sat (''$is_goal|'' @ show_int (goal_index victories (pk_name loc))) else True)) \<and>
      (if location_out_of_festival_scope loc then sat ''$is_goal|0'' else True))"
    using shut_term [OF three, of "''$is_goal|0''"] three by (simp add: d4_def)
  have "shut sat d (((((dnf_true sat own \<and> region_available sat regions loc) \<and> options_on sat categories loc) \<and>
      (if pk_victory loc then sat (''$is_goal|'' @ show_int (goal_index victories (pk_name loc))) else True)) \<and>
      (if location_out_of_festival_scope loc then sat ''$is_goal|0'' else True)) \<and>
      (if location_blocked_by_talkatoo loc then sat ''$is_opt_off|talkatoo_mode'' else True))"
    using shut_term [OF four, of "''$is_opt_off|talkatoo_mode''"] four by (simp add: d)
  then show ?thesis by (simp add: section_available_def own goal_allows_def conj_assoc)
qed

lemma emit_sections_keeps:
  "emit_sections pre gates victories by_kingdom locs = Inr found \<Longrightarrow> s \<in> set (dict_get_or by_kingdom k []) \<Longrightarrow> s \<in> set (dict_get_or found k [])"
proof (induction pre gates victories by_kingdom locs rule: emit_sections.induct)
  case (2 pre gates victories by_kingdom l locs)
  then show ?case by (cases "k = kingdom_for l") (auto split: sum.splits)
qed simp

lemma emit_sections_all:
  "emit_sections pre gates victories by_kingdom locs = Inr found \<Longrightarrow> loc \<in> set locs \<Longrightarrow>
   \<exists>d. section_dnf pre gates victories loc = Inr d \<and> (pk_name loc, dnf_to_access_rules d) \<in> set (dict_get_or found (kingdom_for loc) [])"
proof (induction pre gates victories by_kingdom locs rule: emit_sections.induct)
  case (2 pre gates victories by_kingdom l locs)
  then obtain d where d: "section_dnf pre gates victories l = Inr d"
    and rest: "emit_sections pre gates victories (dict_set (kingdom_for l) (dict_get_or by_kingdom (kingdom_for l) [] @
        [(pk_name l, dnf_to_access_rules d)]) by_kingdom) locs = Inr found"
    by (auto split: sum.splits)
  show ?case
  proof (cases "loc = l")
    case True
    with d emit_sections_keeps [OF rest, of "(pk_name l, dnf_to_access_rules d)" "kingdom_for l"] show ?thesis by auto
  next
    case False
    with 2(1) [OF d rest] 2(3) show ?thesis by simp
  qed
qed simp

lemma ordered_kingdoms_all: "set (ordered_kingdoms by_kingdom) = set (dict_keys by_kingdom)"
  by (auto simp: ordered_kingdoms_def Let_def)


text \<open>Cascade is entered from Cap with a Frog; its moon takes two Uproots and shows when tourist moons are included.\<close>

definition pack_regions :: "(string, region_row) dict" where
  "pack_regions =
     [(''Cap Kingdom'', \<lparr>rr_requires = None, rr_connects_to = Some [''Cascade Kingdom''], rr_starting = True\<rparr>),
      (''Cascade Kingdom'', \<lparr>rr_requires = Some (ReqString ''|Frog|''), rr_connects_to = None, rr_starting = False\<rparr>)]"

definition pack_moon :: pack_location where
  "pack_moon =
     \<lparr>pk_name = ''Cascade: Multi Moon Atop the Falls'', pk_region = Some ''Cascade Kingdom'', pk_requires = Some (JStr ''|Uproot:2|''),
      pk_category = [''Tourist''], pk_victory = False, pk_progression = False\<rparr>"

definition pack_options :: category_options where "pack_options = [(''Tourist'', [''include_tourist_moons''])]"

lemma pack_section_sample:
  "\<not> isl (build_pack [plain_row ''Frog'', plain_row ''Uproot''] [pack_moon] pack_regions pack_options)"
  "ranked (\<lambda>r. if r = ''Cap Kingdom'' then 0 else 1) pack_regions" "clean_regions pack_regions" "clean_location pack_options pack_moon"
proof -
  have "build_region_prereqs pack_regions = Inr [(''Cap Kingdom'', []), (''Cascade Kingdom'', [''frog''])]"
    "\<not> isl (emit_locations [pack_moon] [(''Cap Kingdom'', []), (''Cascade Kingdom'', [''frog''])] (category_option_gates pack_options) [])"
    by code_simp+
  then show "\<not> isl (build_pack [plain_row ''Frog'', plain_row ''Uproot''] [pack_moon] pack_regions pack_options)"
    by (simp add: build_pack_def Let_def pack_moon_def isl_map_sum)
qed code_simp+


section \<open>The ids of the world\<close>

text \<open>A row of \<open>locations.json\<close> as the world and as the pack read it.\<close>

definition pack_row :: "location_data \<Rightarrow> pack_location" where
  "pack_row l = \<lparr>pk_name = ld_name l, pk_region = Some (ld_region l), pk_requires = map_option requires_json (ld_requires l),
     pk_category = ld_category l, pk_victory = ld_victory l, pk_progression = ld_progression l\<rparr>"

lemma foldl_sum: "foldl (\<lambda>s x. s + f x) (a :: nat) xs = a + (\<Sum>x\<leftarrow>xs. f x)"
  by (induction xs arbitrary: a) auto

lemma index_agrees: "game \<noteq> [] \<Longrightarrow> pack_starting_index game player = starting_index game player"
proof -
  have "map ((!) game) [2..<length game - 1] = drop 2 (butlast game)" by (rule nth_equalityI) (auto simp: nth_butlast)
  then have "map (\<lambda>c. of_char c * 100000) (map ((!) game) [2..<length game - 1]) = map (\<lambda>c. of_char c * (100000 :: nat)) (drop 2 (butlast game))"
    by (rule arg_cong)
  then show "game \<noteq> [] \<Longrightarrow> ?thesis"
    by (simp add: pack_starting_index_def starting_index_def Let_def foldl_sum hd_conv_nth comp_def)
qed

text \<open>C25 The pack and the world number the same data alike: every item, and every location of a table with a
  victory location.\<close>

theorem pack_ids_agree:
  assumes "build_pack items (map pack_row table) regions categories = Inr pack" "list_ex ld_victory table"
  shows "map (\<lambda>(i, it). (Some i, id_name it)) (tp_item_ids pack) @ [(None, victory_item)] = item_id_to_name (item_rows items) \<and>
    map (\<lambda>(i, l). (i, pk_name l)) (tp_location_ids pack) = location_id_to_name table"
proof -
  have pack: "tp_item_ids pack = allocate_item_ids items ''Coin'' (starting_index game_seed creator_seed)"
    "tp_location_ids pack = allocate_location_ids (map pack_row table) (starting_index game_seed creator_seed)"
    using assms(1) by (auto simp: build_pack_def Let_def map_sum_Inr index_agrees game_seed_def creator_seed_def split: sum.splits)
  have shift: "map (\<lambda>(i, x). f i x) (enumerate (n + m) (map g xs)) = map (\<lambda>(i, x). f (n + i) (g x)) (enumerate m xs)"
    for f :: "nat \<Rightarrow> 'x \<Rightarrow> 'y" and g :: "'z \<Rightarrow> 'x" and n m xs
    by (induction xs arbitrary: m) (simp_all flip: add_Suc_right)
  have victory: "list_ex pk_victory (map pack_row table)" using assms(2) by (auto simp: list_ex_iff pack_row_def)
  show ?thesis
    using shift [of "\<lambda>i it. (Some i, id_name it)" _ 0 id] shift [of "\<lambda>i l. (i, pk_name l)" "starting_index game_seed creator_seed + 500" 0 pack_row] assms(2) victory
    by (simp add: pack allocate_item_ids_def allocate_location_ids_def item_id_to_name_def location_id_to_name_def item_rows_def
        filler_item_name_def Let_def pack_row_def)
qed

definition pack_table :: "location_data list" where
  "pack_table = map (\<lambda>(n, r, v). \<lparr>ld_name = n, ld_region = r, ld_requires = None, ld_category = [], ld_filler_only = False,
       ld_junk_only = False, ld_multi_moon = False, ld_moon_postwin = False, ld_victory = v, ld_progression = False\<rparr>)
     [(''Metro: City Hall'', ''Metro Kingdom'', False), (''Snow: Icicle Cave'', ''Snow Kingdom'', False),
      (''Metro: A Traditional Festival!'', ''Metro Kingdom'', True)]"

theorem pack_ids_agree_witness:
  "\<exists>pack. map (\<lambda>(i, it). (Some i, id_name it)) (tp_item_ids pack) @ [(None, victory_item)] = item_id_to_name (item_rows [plain_row ''Frog'']) \<and>
     map (\<lambda>(i, l). (i, pk_name l)) (tp_location_ids pack) = location_id_to_name pack_table \<and> pack = projr (build_pack [plain_row ''Frog''] (map pack_row pack_table) pack_regions [])"
proof -
  have pre: "build_region_prereqs pack_regions = Inr [(''Cap Kingdom'', []), (''Cascade Kingdom'', [''frog''])]"
    "\<not> isl (emit_locations (map pack_row pack_table) [(''Cap Kingdom'', []), (''Cascade Kingdom'', [''frog''])] (category_option_gates [])
        (map pk_name (filter pk_victory (map pack_row pack_table))))" "list_ex ld_victory pack_table"
    by code_simp+
  then have "\<not> isl (build_pack [plain_row ''Frog''] (map pack_row pack_table) pack_regions [])"
    unfolding build_pack_def Let_def by (simp only: sum.case isl_map_sum not_False_eq_True)
  then have "build_pack [plain_row ''Frog''] (map pack_row pack_table) pack_regions [] =
      Inr (projr (build_pack [plain_row ''Frog''] (map pack_row pack_table) pack_regions []))" by simp
  from pack_ids_agree [OF this pre(3)] show ?thesis by blast
qed

section \<open>The locations of the festival goal\<close>


text \<open>The regions of the festival, with a moon of Metro and one of Snow.\<close>

definition festival_sample :: "unit region list" where
  "festival_sample =
     map (\<lambda>n. create_region n (if n = ''Metro Kingdom'' then [''Metro: City Hall''] else if n = ''Snow Kingdom'' then [''Snow: Icicle Cave''] else []) [])
       ([''Metro Kingdom'', ''Night Metro''] @ festival_regions_to_empty)"


end
