(* ===== verification/Game_Text.thy ===== *)
theory Game_Text
  imports Wire_Json
begin

text \<open>
  \<open>scripts/extract_shine_map.py\<close>, the reader of the game's message files (MSBT): a header, sections padded to
  sixteen bytes, a hash table of labels and a table of messages in UTF-16 or UTF-8 with control codes, which
  are dropped. A \<open>bytes\<close> value is the list of its bytes; a slice past the end is shorter, as in Python.
\<close>

section \<open>Bytes\<close>

text \<open>\<open>int.from_bytes(bs, endian)\<close>; the flag is true for little-endian.\<close>

definition from_bytes :: "bool \<Rightarrow> string \<Rightarrow> nat" where
  "from_bytes little bs = foldl (\<lambda>n b. 256 * n + byte b) 0 (if little then rev bs else bs)"

definition slice :: "nat \<Rightarrow> nat \<Rightarrow> string \<Rightarrow> string" where
  "slice a b s = take (b - a) (drop a s)"

definition byte_at :: "string \<Rightarrow> nat \<Rightarrow> exn + nat" where
  "byte_at s i = (if i < length s then Inr (byte (s ! i)) else Inl IndexError)"

section \<open>Text\<close>

text \<open>\<open>decode("utf-16-le" or "utf-16-be", errors="replace")\<close>, on the units of the text.\<close>

fun utf16_decode :: "nat list \<Rightarrow> string" where
  "utf16_decode [] = []"
| "utf16_decode (u # us) =
     (if u < 0xD800 \<or> 0xDFFF < u then utf8_encode u @ utf16_decode us
      else if 0xDC00 \<le> u then utf8_encode 0xFFFD @ utf16_decode us
      else (case us of
              [] \<Rightarrow> utf8_encode 0xFFFD
            | v # vs \<Rightarrow>
                if 0xDC00 \<le> v \<and> v \<le> 0xDFFF then utf8_encode (0x10000 + (u - 0xD800) * 1024 + (v - 0xDC00)) @ utf16_decode vs
                else utf8_encode 0xFFFD @ utf16_decode us))"

fun utf16_units :: "bool \<Rightarrow> string \<Rightarrow> nat list" where
  "utf16_units little (a # b # s) = from_bytes little [a, b] # utf16_units little s"
| "utf16_units little _ = []"

text \<open>A character of the file: two bytes or one.\<close>

definition unit_bytes :: "bool \<Rightarrow> bool \<Rightarrow> nat \<Rightarrow> string" where
  "unit_bytes wide little u =
     (if wide then (if little then map char_of [u mod 256, u div 256] else map char_of [u div 256, u mod 256]) else [char_of u])"

definition unit_size :: "bool \<Rightarrow> nat" where "unit_size wide = (if wide then 2 else 1)"

function plain_bytes :: "bool \<Rightarrow> bool \<Rightarrow> string \<Rightarrow> string" where
  "plain_bytes wide little raw =
     (let unit = unit_size wide; chunk = take unit raw
      in if length raw < unit then []
         else if chunk = unit_bytes wide little 0x0E then
           (if length raw < 4 * unit then []
            else plain_bytes wide little (drop (4 * unit + from_bytes little (slice (3 * unit) (4 * unit) raw)) raw))
         else if chunk = unit_bytes wide little 0x0F then
           (if length raw < 3 * unit then [] else plain_bytes wide little (drop (3 * unit) raw))
         else chunk @ plain_bytes wide little (drop unit raw))"
  by pat_completeness auto
termination
  by (relation "measure (\<lambda>(w, l, raw). length raw)") (auto simp: unit_size_def)

declare plain_bytes.simps [simp del]

definition rstrip_by :: "(char \<Rightarrow> bool) \<Rightarrow> string \<Rightarrow> string" where
  "rstrip_by p s = rev (dropWhile p (rev s))"

definition decode_msbt_text :: "bool \<Rightarrow> bool \<Rightarrow> string \<Rightarrow> string" where
  "decode_msbt_text wide little raw =
     (let out = plain_bytes wide little raw;
          text = (if wide then utf16_decode (utf16_units little out) else decode_replace out)
      in rstrip_by is_space (rstrip_by (\<lambda>c. c = CHR 0x00) text))"

section \<open>The file\<close>

text \<open>\<open>decode("ascii", errors="replace")\<close>.\<close>

definition ascii_replace :: "string \<Rightarrow> string" where
  "ascii_replace s = concat (map (\<lambda>c. if byte c < 128 then [c] else utf8_encode 0xFFFD) s)"

definition align16 :: "nat \<Rightarrow> nat" where "align16 n = (n + 15) div 16 * 16"

fun read_sections :: "bool \<Rightarrow> string \<Rightarrow> nat \<Rightarrow> nat \<Rightarrow> (string, string) dict \<Rightarrow> (string, string) dict" where
  "read_sections little data 0 pos sections = sections"
| "read_sections little data (Suc n) pos sections =
     (let magic = ascii_replace (slice pos (pos + 4) data);
          size = from_bytes little (slice (pos + 4) (pos + 8) data)
      in read_sections little data n (align16 (pos + 16 + size))
           (dict_set magic (slice (pos + 16) (pos + 16 + size) data) sections))"

text \<open>A label with its index at the cursor, and the cursor after it.\<close>

definition read_label :: "bool \<Rightarrow> string \<Rightarrow> nat \<Rightarrow> exn + (string \<times> nat) \<times> nat" where
  "read_label little lbl cursor =
     (case byte_at lbl cursor of
        Inl e \<Rightarrow> Inl e
      | Inr ll \<Rightarrow>
          let label = slice (cursor + 1) (cursor + 1 + ll) lbl
          in if list_all (\<lambda>c. byte c < 128) label
             then Inr ((label, from_bytes little (slice (cursor + 1 + ll) (cursor + 1 + ll + 4) lbl)), cursor + 1 + ll + 4)
             else Inl ValueError)"

fun read_slot :: "bool \<Rightarrow> string \<Rightarrow> nat \<Rightarrow> nat \<Rightarrow> (string, nat) dict \<Rightarrow> exn + (string, nat) dict" where
  "read_slot little lbl 0 cursor labels = Inr labels"
| "read_slot little lbl (Suc n) cursor labels =
     (case read_label little lbl cursor of
        Inl e \<Rightarrow> Inl e
      | Inr ((label, idx), cursor) \<Rightarrow> read_slot little lbl n cursor (dict_set label idx labels))"

fun read_slots :: "bool \<Rightarrow> string \<Rightarrow> nat list \<Rightarrow> (string, nat) dict \<Rightarrow> exn + (string, nat) dict" where
  "read_slots little lbl [] labels = Inr labels"
| "read_slots little lbl (s # ss) labels =
     (let slot_off = 4 + s * 8;
          n_in_slot = from_bytes little (slice slot_off (slot_off + 4) lbl);
          cursor = from_bytes little (slice (slot_off + 4) (slot_off + 8) lbl)
      in case read_slot little lbl n_in_slot cursor labels of
           Inl e \<Rightarrow> Inl e
         | Inr labels \<Rightarrow> read_slots little lbl ss labels)"

definition read_messages :: "bool \<Rightarrow> bool \<Rightarrow> string \<Rightarrow> string list" where
  "read_messages wide little txt =
     (let msg_count = from_bytes little (slice 0 4 txt);
          offsets = map (\<lambda>i. from_bytes little (slice (4 + i * 4) (8 + i * 4) txt)) [0..<msg_count] @ [length txt]
      in map (\<lambda>i. decode_msbt_text wide little (slice (offsets ! i) (offsets ! (i + 1)) txt)) [0..<msg_count])"

definition parse_msbt :: "string \<Rightarrow> exn + (string, string) dict" where
  "parse_msbt data =
     (let mark = slice 8 10 data; little = (mark = [CHR 0xFF, CHR 0xFE])
      in if take 8 data \<noteq> ''MsgStdBn'' then Inl ValueError
         else if \<not> little \<and> mark \<noteq> [CHR 0xFE, CHR 0xFF] then Inl ValueError
         else (case byte_at data 12 of
                 Inl e \<Rightarrow> Inl e
               | Inr enc \<Rightarrow>
                   if 1 < enc then Inl ValueError
                   else let sections = read_sections little data (from_bytes little (slice 14 16 data)) 32 []
                        in (case (dict_get sections ''LBL1'', dict_get sections ''TXT2'') of
                              (Some lbl, Some txt) \<Rightarrow>
                                (case read_slots little lbl [0..<from_bytes little (slice 0 4 lbl)] [] of
                                   Inl e \<Rightarrow> Inl e
                                 | Inr labels \<Rightarrow>
                                     let messages = read_messages (enc = 1) little txt
                                     in Inr (map (\<lambda>(label, idx). (label, messages ! idx)) (filter (\<lambda>(label, idx). idx < length messages) labels)))
                            | _ \<Rightarrow> Inl ValueError)))"

end
