(* ===== verification/Game_Messages.thy ===== *)
theory Game_Messages
  imports Game_Text
begin

text \<open>
  What the reader of \<open>Game_Text\<close> recovers: the characters of a message whatever control codes stand between
  them, and the labels and messages of a whole file.
\<close>

section \<open>Numbers\<close>

fun num_le :: "nat \<Rightarrow> nat \<Rightarrow> string" where
  "num_le 0 n = []"
| "num_le (Suc k) n = char_of (n mod 256) # num_le k (n div 256)"

definition num_bytes :: "bool \<Rightarrow> nat \<Rightarrow> nat \<Rightarrow> string" where
  "num_bytes little k n = (if little then num_le k n else rev (num_le k n))"

lemma length_num_bytes [simp]: "length (num_bytes little k n) = k"
proof -
  have "length (num_le k n) = k" by (induction k arbitrary: n) simp_all
  then show ?thesis by (simp add: num_bytes_def)
qed

lemma from_num_bytes: "n < 256 ^ k \<Longrightarrow> from_bytes little (num_bytes little k n) = n"
proof -
  have "foldl (\<lambda>n b. 256 * n + byte b) 0 (rev (num_le k n)) = n mod 256 ^ k"
    by (induction k arbitrary: n) (simp_all add: mod_mult2_eq)
  then show "n < 256 ^ k \<Longrightarrow> ?thesis" by (simp add: from_bytes_def num_bytes_def)
qed

lemma slice_append: "length p = a \<Longrightarrow> b = a + length q \<Longrightarrow> slice a b (p @ q @ r) = q"
  by (simp add: slice_def)

section \<open>Characters of a message\<close>

abbreviation unit_limit :: "bool \<Rightarrow> nat" where "unit_limit wide \<equiv> 256 ^ unit_size wide"

lemma unit_bytes_num: "u < unit_limit wide \<Longrightarrow> unit_bytes wide little u = num_bytes little (unit_size wide) u"
  by (cases wide) (simp_all add: unit_bytes_def unit_size_def num_bytes_def numeral_2_eq_2)

lemma length_unit_bytes [simp]: "length (unit_bytes wide little u) = unit_size wide"
  by (simp add: unit_bytes_def unit_size_def)

lemma from_unit_bytes: "u < unit_limit wide \<Longrightarrow> from_bytes little (unit_bytes wide little u) = u"
  by (simp add: unit_bytes_num from_num_bytes)

lemma unit_bytes_inj: "u < unit_limit wide \<Longrightarrow> v < unit_limit wide \<Longrightarrow> unit_bytes wide little u = unit_bytes wide little v \<longleftrightarrow> u = v"
  by (metis from_unit_bytes)

lemma small_units [simp]: "14 < unit_limit wide" "15 < unit_limit wide"
  by (simp_all add: unit_size_def)

lemma unit_size_pos [simp]: "0 < unit_size wide" "unit_size wide \<noteq> 0"
  by (simp_all add: unit_size_def)

definition free_unit :: "bool \<Rightarrow> nat \<Rightarrow> bool" where
  "free_unit wide u \<longleftrightarrow> u < unit_limit wide \<and> u \<noteq> 14 \<and> u \<noteq> 15"

lemma plain_unit:
  "free_unit wide u \<Longrightarrow> plain_bytes wide little (unit_bytes wide little u @ raw) = unit_bytes wide little u @ plain_bytes wide little raw"
  using unit_bytes_inj [of u wide 14 little] unit_bytes_inj [of u wide 15 little]
  by (subst plain_bytes.simps) (auto simp: Let_def free_unit_def)

lemma plain_units:
  "list_all (free_unit wide) us \<Longrightarrow>
   plain_bytes wide little (concat (map (unit_bytes wide little) us) @ raw) = concat (map (unit_bytes wide little) us) @ plain_bytes wide little raw"
  by (induction us) (simp_all add: plain_unit)

lemma plain_open:
  assumes "length payload < unit_limit wide"
  shows "plain_bytes wide little (unit_bytes wide little 14 @ unit_bytes wide little g @ unit_bytes wide little t @
    unit_bytes wide little (length payload) @ payload @ raw) = plain_bytes wide little raw"
proof -
  let ?u = "unit_bytes wide little" and ?n = "unit_size wide"
  have "slice (3 * ?n) (4 * ?n) (?u 14 @ ?u g @ ?u t @ ?u (length payload) @ payload @ raw) = ?u (length payload)"
    using slice_append [of "?u 14 @ ?u g @ ?u t" "3 * ?n" "4 * ?n" "?u (length payload)" "payload @ raw"] by simp
  then show ?thesis using assms by (subst plain_bytes.simps) (simp add: Let_def from_unit_bytes)
qed

lemma plain_close:
  "plain_bytes wide little (unit_bytes wide little 15 @ unit_bytes wide little g @ unit_bytes wide little t @ raw) = plain_bytes wide little raw"
  using unit_bytes_inj [of 15 wide 14 little] by (subst plain_bytes.simps) (simp add: Let_def)

section \<open>Encodings\<close>

definition scalar :: "nat \<Rightarrow> bool" where
  "scalar c \<longleftrightarrow> c < 0xD800 \<or> 0xE000 \<le> c \<and> c < 0x110000"

definition utf16_of :: "nat \<Rightarrow> nat list" where
  "utf16_of c = (if c < 0x10000 then [c] else [0xD800 + (c - 0x10000) div 1024, 0xDC00 + (c - 0x10000) mod 1024])"

lemma utf16_decode_of: "list_all scalar cs \<Longrightarrow> utf16_decode (concat (map utf16_of cs)) = concat (map utf8_encode cs)"
proof (induction cs)
  case (Cons c cs)
  show ?case
  proof (cases "c < 0x10000")
    case True
    with Cons show ?thesis by (auto simp: utf16_of_def scalar_def)
  next
    case False
    then have "(c - 0x10000) div 1024 < 1024" using Cons.prems by (auto simp: scalar_def)
    moreover have "(c - 0x10000) mod 1024 \<le> 1023" using mod_less_divisor [of 1024 "c - 0x10000"] by simp
    moreover have "0x10000 + (c - 0x10000) div 1024 * 1024 + (c - 0x10000) mod 1024 = c" using False by presburger
    ultimately show ?thesis using False Cons by (simp add: utf16_of_def)
  qed
qed simp

lemma utf16_units_bytes: "list_all (\<lambda>u. u < 65536) us \<Longrightarrow> utf16_units little (concat (map (unit_bytes True little) us)) = us"
proof (induction us)
  case (Cons u us)
  have "\<exists>a b. unit_bytes True little u = [a, b]" by (auto simp: unit_bytes_def)
  then obtain a b where ab: "unit_bytes True little u = [a, b]" by blast
  with from_unit_bytes [of u True little] Cons show ?case by (simp add: unit_size_def)
qed simp

lemma three_bytes:
  fixes q r s :: nat
  assumes "q < 16" "r < 64" "s < 64" "q = 0 \<longrightarrow> 32 \<le> r" "q = 13 \<longrightarrow> r < 32"
  shows "utf8_head (map char_of [224 + q, 128 + r, 128 + s]) = (True, 3)"
proof -
  have "lead_ranges (224 + q) = Some [(if q = 0 then 160 else 128, if q = 13 then 159 else 191), (128, 191)]"
    using assms(1) by (auto simp: lead_ranges_def)
  moreover have "(224 + q) mod 256 = 224 + q" "(128 + r) mod 256 = 128 + r" "(128 + s) mod 256 = 128 + s" using assms(1-3) by simp_all
  ultimately show ?thesis using assms(2-5) by auto
qed

lemma four_bytes:
  fixes q p r s :: nat
  assumes "q < 5" "p < 64" "r < 64" "s < 64" "q = 0 \<longrightarrow> 16 \<le> p" "q = 4 \<longrightarrow> p < 16"
  shows "utf8_head (map char_of [240 + q, 128 + p, 128 + r, 128 + s]) = (True, 4)"
proof -
  have "lead_ranges (240 + q) = Some [(if q = 0 then 144 else 128, if q = 4 then 143 else 191), (128, 191), (128, 191)]"
    using assms(1) by (auto simp: lead_ranges_def)
  moreover have "(240 + q) mod 256 = 240 + q" "(128 + p) mod 256 = 128 + p" "(128 + r) mod 256 = 128 + r" "(128 + s) mod 256 = 128 + s"
    using assms(1-4) by simp_all
  ultimately show ?thesis using assms(2-6) by auto
qed

lemma utf8_encode_valid: "scalar c \<Longrightarrow> utf8_valid (utf8_encode c)"
proof -
  assume c: "scalar c"
  have "utf8_head (utf8_encode c) = (True, length (utf8_encode c))"
  proof -
    consider "c < 128" | "128 \<le> c" "c < 2048" | "2048 \<le> c" "c < 65536" | "65536 \<le> c" by linarith
    then show ?thesis
    proof cases
      case 1
      then show ?thesis by (simp add: utf8_encode_def lead_ranges_def)
    next
      case 2
      define q s where qs: "q = c div 64" "s = c mod 64"
      have "c = 64 * q + s" "s < 64" using mult_div_mod_eq [of 64 c] unfolding qs by simp_all
      then have "2 \<le> q" "q < 32" using 2 by auto
      moreover have "(192 + q) mod 256 = 192 + q" "(128 + s) mod 256 = 128 + s" using \<open>q < 32\<close> \<open>s < 64\<close> by simp_all
      moreover have "lead_ranges (192 + q) = Some [(128, 191)]" using \<open>2 \<le> q\<close> \<open>q < 32\<close> by (simp add: lead_ranges_def)
      ultimately show ?thesis using 2 \<open>s < 64\<close> by (simp add: utf8_encode_def flip: qs)
    next
      case 3
      define q r s where qrs: "q = c div 4096" "r = c div 64 mod 64" "s = c mod 64"
      have "c div 4096 = c div 64 div 64" using div_mult2_eq [of c 64 64] by simp
      then have "c div 64 = 64 * q + r" "c = 64 * (c div 64) + s"
        using mult_div_mod_eq [of 64 "c div 64"] mult_div_mod_eq [of 64 c] unfolding qrs by linarith+
      then have "c = 4096 * q + 64 * r + s" by simp
      moreover have "r < 64" "s < 64" unfolding qrs by simp_all
      ultimately have "q < 16" "q = 0 \<longrightarrow> 32 \<le> r" "q = 13 \<longrightarrow> r < 32" using 3 c by (auto simp: scalar_def)
      with three_bytes [of q r s] \<open>r < 64\<close> \<open>s < 64\<close> show ?thesis using 3 by (simp add: utf8_encode_def qrs)
    next
      case 4
      define q p r s where qprs: "q = c div 262144" "p = c div 4096 mod 64" "r = c div 64 mod 64" "s = c mod 64"
      have "c div 262144 = c div 4096 div 64" "c div 4096 = c div 64 div 64"
        using div_mult2_eq [of c 4096 64] div_mult2_eq [of c 64 64] by simp_all
      then have "c div 4096 = 64 * q + p" "c div 64 = 64 * (c div 4096) + r" "c = 64 * (c div 64) + s"
        using mult_div_mod_eq [of 64 "c div 4096"] mult_div_mod_eq [of 64 "c div 64"] mult_div_mod_eq [of 64 c] unfolding qprs by linarith+
      then have "c = 262144 * q + 4096 * p + 64 * r + s" by simp
      moreover have "p < 64" "r < 64" "s < 64" unfolding qprs by simp_all
      moreover from 4 c have "c < 0x110000" by (simp add: scalar_def)
      ultimately have "q < 5" "q = 0 \<longrightarrow> 16 \<le> p" "q = 4 \<longrightarrow> p < 16" using 4 by auto
      with \<open>p < 64\<close> \<open>r < 64\<close> \<open>s < 64\<close> four_bytes [of q p r s] show ?thesis using 4 by (simp add: utf8_encode_def qprs)
    qed
  qed
  moreover have "utf8_encode c \<noteq> []" by (simp add: utf8_encode_def)
  ultimately show ?thesis using utf8_Seq [of "utf8_encode c" "length (utf8_encode c)"] by (simp add: utf8_Nil)
qed

lemma utf8_encode_all_valid: "list_all scalar cs \<Longrightarrow> utf8_valid (concat (map utf8_encode cs))"
  by (induction cs) (simp_all add: utf8_Nil utf8_valid_append utf8_encode_valid)

section \<open>A message\<close>

text \<open>A message is made of characters and of control codes, which open with a group, a type and a payload or
  close with a group and a type.\<close>

datatype piece = Chars "nat list" | OpenCode nat nat string | CloseCode nat nat

definition char_units :: "bool \<Rightarrow> nat list \<Rightarrow> nat list" where
  "char_units wide cs = (if wide then concat (map utf16_of cs) else map of_char (concat (map utf8_encode cs)))"

fun piece_bytes :: "bool \<Rightarrow> bool \<Rightarrow> piece \<Rightarrow> string" where
  "piece_bytes wide little (Chars cs) = concat (map (unit_bytes wide little) (char_units wide cs))"
| "piece_bytes wide little (OpenCode g t payload) =
     unit_bytes wide little 14 @ unit_bytes wide little g @ unit_bytes wide little t @ unit_bytes wide little (length payload) @ payload"
| "piece_bytes wide little (CloseCode g t) = unit_bytes wide little 15 @ unit_bytes wide little g @ unit_bytes wide little t"

definition message_bytes :: "bool \<Rightarrow> bool \<Rightarrow> piece list \<Rightarrow> string" where
  "message_bytes wide little ps = concat (map (piece_bytes wide little) ps)"

fun piece_chars :: "piece \<Rightarrow> nat list" where
  "piece_chars (Chars cs) = cs" | "piece_chars _ = []"

definition message_chars :: "piece list \<Rightarrow> nat list" where
  "message_chars ps = concat (map piece_chars ps)"

fun piece_ok :: "bool \<Rightarrow> piece \<Rightarrow> bool" where
  "piece_ok wide (Chars cs) = list_all (\<lambda>c. scalar c \<and> c \<noteq> 14 \<and> c \<noteq> 15) cs"
| "piece_ok wide (OpenCode g t payload) = (length payload < unit_limit wide)"
| "piece_ok wide (CloseCode g t) = True"

lemma utf16_of_free: "scalar c \<Longrightarrow> c \<noteq> 14 \<Longrightarrow> c \<noteq> 15 \<Longrightarrow> list_all (free_unit True) (utf16_of c)"
proof -
  assume c: "scalar c" "c \<noteq> 14" "c \<noteq> 15"
  have "(c - 0x10000) mod 1024 \<le> 1023" using mod_less_divisor [of 1024 "c - 0x10000"] by simp
  moreover have "(c - 0x10000) div 1024 < 1024" using c(1) by (auto simp: scalar_def)
  ultimately show ?thesis using c by (auto simp: utf16_of_def free_unit_def unit_size_def)
qed

lemma utf8_encode_free: "scalar c \<Longrightarrow> c \<noteq> 14 \<Longrightarrow> c \<noteq> 15 \<Longrightarrow> list_all (\<lambda>b. byte b \<noteq> 14 \<and> byte b \<noteq> 15) (utf8_encode c)"
proof -
  assume c: "scalar c" "c \<noteq> 14" "c \<noteq> 15"
  have bound: "c < 0x110000" using c(1) by (auto simp: scalar_def)
  have big: "(k + n) mod 256 \<noteq> 14 \<and> (k + n) mod 256 \<noteq> 15" if "128 \<le> k" "k + n < 256" for k n :: nat using that by simp
  have small: "c div 64 < 32" if "c < 2048" using that by auto
  have mid: "c div 4096 < 16" if "c < 65536" using that by auto
  have top: "c div 262144 < 16" using bound by auto
  have rest: "n mod 64 < 128" for n :: nat by (rule less_trans [of _ 64]) simp_all
  show ?thesis using c(2,3) small mid top rest [of c] rest [of "c div 64"] rest [of "c div 4096"]
    by (auto simp: utf8_encode_def intro!: big)
qed

lemma char_units_free: "piece_ok wide (Chars cs) \<Longrightarrow> list_all (free_unit wide) (char_units wide cs)"
proof (induction cs)
  case (Cons c cs)
  show ?case
  proof (cases wide)
    case True
    with Cons utf16_of_free [of c] show ?thesis by (simp add: char_units_def)
  next
    case False
    have "byte b < 256" for b by simp
    with False Cons utf8_encode_free [of c] show ?thesis
      by (auto simp: char_units_def list_all_iff free_unit_def unit_size_def)
  qed
qed (simp add: char_units_def)

lemma plain_message:
  "list_all (piece_ok wide) ps \<Longrightarrow>
   plain_bytes wide little (message_bytes wide little ps) = concat (map (unit_bytes wide little) (char_units wide (message_chars ps)))"
proof (induction ps)
  case Nil
  show ?case by (simp add: message_bytes_def message_chars_def char_units_def plain_bytes.simps [of wide little "[]"] Let_def)
next
  case (Cons p ps)
  have split: "char_units wide (cs @ ds) = char_units wide cs @ char_units wide ds" for cs ds by (simp add: char_units_def)
  show ?case
  proof (cases p)
    case (Chars cs)
    with Cons char_units_free [of wide cs] show ?thesis by (simp add: message_bytes_def message_chars_def plain_units split)
  next
    case (OpenCode g t payload)
    with Cons show ?thesis by (simp add: message_bytes_def message_chars_def plain_open)
  next
    case (CloseCode g t)
    with Cons show ?thesis by (simp add: message_bytes_def message_chars_def plain_close)
  qed
qed

text \<open>C31 The reader recovers the characters of a message, in either encoding and byte order, whatever control
  codes stand between them and whatever bytes these carry; trailing zeros and white space are dropped.\<close>

theorem message_text_recovered:
  assumes "list_all (piece_ok wide) ps"
  shows "decode_msbt_text wide little (message_bytes wide little ps) =
    rstrip_by is_space (rstrip_by (\<lambda>c. c = CHR 0x00) (concat (map utf8_encode (message_chars ps))))"
proof -
  let ?cs = "message_chars ps" and ?plain = "concat (map (unit_bytes wide little) (char_units wide (message_chars ps)))"
  have ok: "list_all scalar ?cs" "piece_ok wide (Chars ?cs)"
    using assms by (induction ps) (auto simp: message_chars_def list_all_iff elim!: piece_ok.elims)
  have "(if wide then utf16_decode (utf16_units little ?plain) else decode_replace ?plain) = concat (map utf8_encode ?cs)"
  proof (cases wide)
    case True
    have "list_all (\<lambda>u. u < 65536) (char_units wide ?cs)"
      using char_units_free [OF ok(2)] True by (auto simp: list_all_iff free_unit_def unit_size_def)
    then have "utf16_units little ?plain = char_units wide ?cs" using utf16_units_bytes [of "char_units wide ?cs" little] True by simp
    with True ok(1) show ?thesis by (simp add: char_units_def utf16_decode_of)
  next
    case False
    have "concat (map (unit_bytes False little) (map of_char s)) = s" for s by (induction s) (simp_all add: unit_bytes_def)
    with False ok(1) show ?thesis by (simp add: char_units_def decode_replace_def decode_valid utf8_encode_all_valid)
  qed
  then show ?thesis by (simp add: decode_msbt_text_def plain_message [OF assms])
qed

theorem message_text_recovered_witness:
  "decode_msbt_text True True (message_bytes True True [Chars [67, 97, 112], OpenCode 1 2 [CHR 0x0E, CHR 0x00, CHR 0x0F], Chars [128512, 0, 0]]) =
     rstrip_by is_space (rstrip_by (\<lambda>c. c = CHR 0x00) (concat (map utf8_encode [67, 97, 112, 128512, 0, 0])))"
  by (subst message_text_recovered) (simp_all add: scalar_def message_chars_def unit_size_def)

end
