(* ===== verification/Game_Files.thy ===== *)
theory Game_Files
  imports Game_Messages
begin

text \<open>
  A message file as the game's tools write it, with any hash of the labels, any order of its sections and any
  others beside the two that are read, and what \<open>parse_msbt\<close> reads from it.
\<close>

section \<open>The writer\<close>

definition section_bytes :: "bool \<Rightarrow> string \<times> string \<Rightarrow> string" where
  "section_bytes little s =
     (case s of (magic, content) \<Rightarrow>
        magic @ num_bytes little 4 (length content) @ replicate 8 (CHR 0x00) @ content @
        replicate (align16 (length content) - length content) (CHR 0xAB))"

definition entry_bytes :: "bool \<Rightarrow> string \<times> nat \<Rightarrow> string" where
  "entry_bytes little e = char_of (length (fst e)) # fst e @ num_bytes little 4 (snd e)"

definition slot_bytes :: "bool \<Rightarrow> (string \<times> nat) list \<Rightarrow> string" where
  "slot_bytes little slot = concat (map (entry_bytes little) slot)"

fun slot_table :: "bool \<Rightarrow> nat \<Rightarrow> (string \<times> nat) list list \<Rightarrow> string" where
  "slot_table little off [] = []"
| "slot_table little off (s # ss) =
     num_bytes little 4 (length s) @ num_bytes little 4 off @ slot_table little (off + length (slot_bytes little s)) ss"

definition label_section :: "bool \<Rightarrow> (string \<times> nat) list list \<Rightarrow> string" where
  "label_section little slots =
     num_bytes little 4 (length slots) @ slot_table little (4 + 8 * length slots) slots @ concat (map (slot_bytes little) slots)"

fun offset_table :: "bool \<Rightarrow> nat \<Rightarrow> string list \<Rightarrow> string" where
  "offset_table little off [] = []"
| "offset_table little off (m # ms) = num_bytes little 4 off @ offset_table little (off + length m) ms"

definition text_section :: "bool \<Rightarrow> string list \<Rightarrow> string" where
  "text_section little msgs = num_bytes little 4 (length msgs) @ offset_table little (4 + 4 * length msgs) msgs @ concat msgs"

definition msbt_file :: "bool \<Rightarrow> bool \<Rightarrow> (string \<times> string) list \<Rightarrow> string" where
  "msbt_file wide little sections =
     ''MsgStdBn'' @ (if little then [CHR 0xFF, CHR 0xFE] else [CHR 0xFE, CHR 0xFF]) @ [CHR 0x00, CHR 0x00] @
     [if wide then CHR 0x01 else CHR 0x00] @ [CHR 0x03] @ num_bytes little 2 (length sections) @ replicate 16 (CHR 0x00) @
     concat (map (section_bytes little) sections)"

section \<open>Sections\<close>

definition magic_ok :: "string \<Rightarrow> bool" where
  "magic_ok m \<longleftrightarrow> length m = 4 \<and> list_all (\<lambda>c. byte c < 128) m"

lemma ascii_replace_id: "list_all (\<lambda>c. byte c < 128) s \<Longrightarrow> ascii_replace s = s"
  by (induction s) (simp_all add: ascii_replace_def)

lemma align16_ge: "n \<le> align16 n" unfolding align16_def by presburger

lemma align16_add: "align16 (16 * k + n) = 16 * k + align16 n" unfolding align16_def by presburger

lemma align16_16: "align16 n = 16 * ((n + 15) div 16)" unfolding align16_def by simp

lemma length_section: "magic_ok (fst s) \<Longrightarrow> length (section_bytes little s) = 16 + align16 (length (snd s))"
  using align16_ge [of "length (snd s)"] by (cases s) (simp add: section_bytes_def magic_ok_def)

lemma read_section_parts:
  assumes "magic_ok m" "length c < 256 ^ 4" "length pre = pos"
  shows "ascii_replace (slice pos (pos + 4) (pre @ section_bytes little (m, c) @ post)) = m"
    "from_bytes little (slice (pos + 4) (pos + 8) (pre @ section_bytes little (m, c) @ post)) = length c"
    "slice (pos + 16) (pos + 16 + length c) (pre @ section_bytes little (m, c) @ post) = c"
proof -
  have m: "length m = 4" "ascii_replace m = m" using assms(1) by (simp_all add: magic_ok_def ascii_replace_id)
  let ?pad = "replicate (align16 (length c) - length c) (CHR 0xAB)" and ?z = "replicate 8 (CHR 0x00)" and ?n = "num_bytes little 4 (length c)"
  show "ascii_replace (slice pos (pos + 4) (pre @ section_bytes little (m, c) @ post)) = m"
    using slice_append [of pre pos "pos + 4" m "?n @ ?z @ c @ ?pad @ post"] m assms(3) by (simp add: section_bytes_def)
  show "from_bytes little (slice (pos + 4) (pos + 8) (pre @ section_bytes little (m, c) @ post)) = length c"
    using slice_append [of "pre @ m" "pos + 4" "pos + 8" ?n "?z @ c @ ?pad @ post"] m assms(2,3)
    by (simp add: section_bytes_def from_num_bytes)
  show "slice (pos + 16) (pos + 16 + length c) (pre @ section_bytes little (m, c) @ post) = c"
    using slice_append [of "pre @ m @ ?n @ ?z" "pos + 16" "pos + 16 + length c" c "?pad @ post"] m assms(3) by (simp add: section_bytes_def)
qed

lemma read_sections_file:
  assumes "list_all (\<lambda>(m, c). magic_ok m \<and> length c < 256 ^ 4) ss" "distinct (map fst (acc @ ss))"
    "data = pre @ concat (map (section_bytes little) ss)" "length pre = 16 * k"
  shows "read_sections little data (length ss) (16 * k) acc = acc @ ss"
  using assms
proof (induction ss arbitrary: pre k acc)
  case (Cons s ss)
  obtain m c where s: "s = (m, c)" by (cases s)
  have ok: "magic_ok m" "length c < 256 ^ 4" using Cons.prems(1) by (simp_all add: s)
  note parts = read_section_parts [OF ok Cons.prems(4), of little "concat (map (section_bytes little) ss)"]
  have data: "data = pre @ section_bytes little (m, c) @ concat (map (section_bytes little) ss)" using Cons.prems(3) by (simp add: s)
  have next_pos: "align16 (16 * k + 16 + length c) = 16 * (k + 1 + (length c + 15) div 16)"
    using align16_add [of "k + 1" "length c"] align16_16 [of "length c"] by (simp add: ac_simps)
  have "read_sections little data (length ss) (16 * (k + 1 + (length c + 15) div 16)) (acc @ [s]) = (acc @ [s]) @ ss"
  proof (rule Cons.IH)
    show "length (pre @ section_bytes little s) = 16 * (k + 1 + (length c + 15) div 16)"
      using length_section [of s little] ok Cons.prems(4) align16_16 [of "length c"] by (simp add: s)
  qed (use Cons.prems in auto)
  moreover have "dict_set m c acc = acc @ [s]" using Cons.prems(2) by (simp add: dict_set_new s)
  ultimately show ?case using parts next_pos unfolding s data by simp
qed simp

section \<open>Labels\<close>

definition label_ok :: "string \<times> nat \<Rightarrow> bool" where
  "label_ok e \<longleftrightarrow> length (fst e) < 256 \<and> list_all (\<lambda>c. byte c < 128) (fst e) \<and> snd e < 256 ^ 4"

lemma read_label_entry:
  assumes "label_ok e" "length pre = cursor"
  shows "read_label little (pre @ entry_bytes little e @ post) cursor = Inr (e, cursor + length (entry_bytes little e))"
proof -
  obtain l i where e: "e = (l, i)" by (cases e)
  let ?n = "num_bytes little 4 i"
  have "byte_at (pre @ entry_bytes little e @ post) cursor = Inr (length l)"
    using assms by (simp add: byte_at_def entry_bytes_def label_ok_def nth_append e)
  moreover have "slice (cursor + 1) (cursor + 1 + length l) (pre @ entry_bytes little e @ post) = l"
    using slice_append [of "pre @ [char_of (length l)]" "cursor + 1" "cursor + 1 + length l" l "?n @ post"] assms(2)
    by (simp add: entry_bytes_def e)
  moreover have "from_bytes little (slice (cursor + 1 + length l) (cursor + 1 + length l + 4) (pre @ entry_bytes little e @ post)) = i"
    using slice_append [of "pre @ char_of (length l) # l" "cursor + 1 + length l" "cursor + 1 + length l + 4" ?n post] assms
    by (simp add: entry_bytes_def e from_num_bytes label_ok_def)
  ultimately show ?thesis using assms(1) by (simp add: read_label_def e label_ok_def entry_bytes_def)
qed

lemma read_slot_entries:
  assumes "list_all label_ok slot" "distinct (map fst (labels @ slot))" "length pre = cursor"
  shows "read_slot little (pre @ slot_bytes little slot @ post) (length slot) cursor labels = Inr (labels @ slot)"
  using assms
proof (induction slot arbitrary: pre cursor labels)
  case (Cons e slot)
  have "read_label little (pre @ entry_bytes little e @ slot_bytes little slot @ post) cursor = Inr (e, cursor + length (entry_bytes little e))"
    using Cons.prems by (intro read_label_entry) simp_all
  moreover have "dict_set (fst e) (snd e) labels = labels @ [e]" using Cons.prems(2) by (cases e) (simp add: dict_set_new)
  ultimately show ?case
    using Cons.IH [of "labels @ [e]" "pre @ entry_bytes little e" "cursor + length (entry_bytes little e)"] Cons.prems
    by (cases e) (simp add: slot_bytes_def)
qed simp

lemma length_slot_table [simp]: "length (slot_table little off ss) = 8 * length ss"
  by (induction ss arbitrary: off) simp_all

lemma read_slots_table:
  assumes "lbl = pre @ slot_table little off ss @ mid @ concat (map (slot_bytes little) ss)" "length pre = 4 + 8 * k"
    "off = length (pre @ slot_table little off ss @ mid)" "length lbl < 256 ^ 4"
    "list_all (list_all label_ok) ss" "distinct (map fst (labels @ concat ss))"
  shows "read_slots little lbl [k..<k + length ss] labels = Inr (labels @ concat ss)"
  using assms
proof (induction ss arbitrary: pre off mid k labels)
  case (Cons s ss)
  let ?off = "off + length (slot_bytes little s)" and ?n = "num_bytes little 4 (length s)" and ?o = "num_bytes little 4 off"
  have lbl: "lbl = pre @ ?n @ ?o @ slot_table little ?off ss @ mid @ slot_bytes little s @ concat (map (slot_bytes little) ss)"
    using Cons.prems(1) by simp
  have len: "length s \<le> length (slot_bytes little s)"
    by (induction s) (simp_all add: slot_bytes_def entry_bytes_def)
  have small: "length s < 256 ^ 4" using Cons.prems(4) len unfolding lbl by simp
  have "off \<le> length lbl" using Cons.prems(3) unfolding lbl by simp
  then have off: "off < 256 ^ 4" using Cons.prems(4) by simp
  have n: "from_bytes little (slice (4 + k * 8) (4 + k * 8 + 4) lbl) = length s"
    using slice_append [of pre "4 + k * 8" "4 + k * 8 + 4" ?n] Cons.prems(2) small unfolding lbl by (simp add: from_num_bytes)
  have o: "from_bytes little (slice (4 + k * 8 + 4) (4 + k * 8 + 8) lbl) = off"
    using slice_append [of "pre @ ?n" "4 + k * 8 + 4" "4 + k * 8 + 8" ?o] Cons.prems(2) off unfolding lbl by (simp add: from_num_bytes)
  have "read_slot little lbl (length s) off labels = Inr (labels @ s)"
  proof -
    have "length (pre @ ?n @ ?o @ slot_table little ?off ss @ mid) = off" using Cons.prems(3) by simp
    moreover have "list_all label_ok s" "distinct (map fst (labels @ s))" using Cons.prems(5,6) by auto
    ultimately show ?thesis
      using read_slot_entries [of s labels "pre @ ?n @ ?o @ slot_table little ?off ss @ mid" off little] by (simp add: lbl)
  qed
  moreover have "read_slots little lbl [Suc k..<Suc k + length ss] (labels @ s) = Inr ((labels @ s) @ concat ss)"
  proof (rule Cons.IH [of "pre @ ?n @ ?o" ?off "mid @ slot_bytes little s"])
    show "?off = length ((pre @ ?n @ ?o) @ slot_table little ?off ss @ mid @ slot_bytes little s)" using Cons.prems(3) by simp
  qed (use Cons.prems lbl in \<open>simp_all\<close>)
  moreover have "[k..<k + length (s # ss)] = k # [Suc k..<Suc k + length ss]" by (simp add: upt_conv_Cons del: upt_Suc)
  ultimately show ?case using n o by (simp only: read_slots.simps Let_def sum.case) simp
qed simp

section \<open>Messages\<close>

lemma slice_shift: "length p = n \<Longrightarrow> slice (n + a) (n + b) (p @ q) = slice a b q"
  by (simp add: slice_def)

lemma offset_at:
  "i < length ms \<Longrightarrow> slice (4 * i) (4 * i + 4) (offset_table little off ms @ r) = num_bytes little 4 (off + length (concat (take i ms)))"
proof (induction ms arbitrary: i off)
  case (Cons m ms)
  show ?case
  proof (cases i)
    case 0
    then show ?thesis using slice_append [of "[]" 0 4 "num_bytes little 4 off"] by simp
  next
    case (Suc j)
    then have "slice (4 * i) (4 * i + 4) (offset_table little off (m # ms) @ r) =
        slice (4 * j) (4 * j + 4) (offset_table little (off + length m) ms @ r)"
      using slice_shift [of "num_bytes little 4 off" 4 "4 * j" "4 * j + 4" "offset_table little (off + length m) ms @ r"] by simp
    with Cons Suc show ?thesis by (simp add: ac_simps)
  qed
qed simp

lemma length_offset_table [simp]: "length (offset_table little off ms) = 4 * length ms"
  by (induction ms arbitrary: off) simp_all

lemma read_text_section:
  assumes "length (text_section little msgs) < 256 ^ 4"
  shows "read_messages wide little (text_section little msgs) = map (decode_msbt_text wide little) msgs"
proof -
  let ?txt = "text_section little msgs" and ?n = "length msgs"
  have len: "length ?txt = 4 + 4 * ?n + length (concat msgs)" by (simp add: text_section_def)
  have count: "from_bytes little (slice 0 4 ?txt) = ?n"
    using slice_append [of "[]" 0 4 "num_bytes little 4 ?n"] assms len by (simp add: text_section_def from_num_bytes)
  let ?off = "\<lambda>i. 4 + 4 * ?n + length (concat (take i msgs))"
  have part: "length (concat (take i msgs)) \<le> length (concat msgs)" for i
    by (metis append_take_drop_id concat_append le_add1 length_append)
  have off: "from_bytes little (slice (4 + i * 4) (8 + i * 4) ?txt) = ?off i" if "i < ?n" for i
  proof -
    have "slice (4 + i * 4) (8 + i * 4) ?txt = slice (4 * i) (4 * i + 4) (offset_table little (4 + 4 * ?n) msgs @ concat msgs)"
      using slice_shift [of "num_bytes little 4 ?n" 4 "4 * i" "4 * i + 4"] by (simp add: text_section_def ac_simps)
    then show ?thesis using offset_at [OF that, of little "4 + 4 * ?n" "concat msgs"] part [of i] assms len by (simp add: from_num_bytes)
  qed
  define offsets where "offsets = map (\<lambda>i. from_bytes little (slice (4 + i * 4) (8 + i * 4) ?txt)) [0..<?n] @ [length ?txt]"
  have offsets: "offsets ! i = ?off i" if "i \<le> ?n" for i
    using that off [of i] len by (cases "i < ?n") (simp_all add: offsets_def nth_append)
  have "slice (offsets ! i) (offsets ! (i + 1)) ?txt = msgs ! i" if "i < ?n" for i
  proof -
    have "concat msgs = concat (take i msgs) @ msgs ! i @ concat (drop (Suc i) msgs)"
      using arg_cong [OF id_take_nth_drop [OF that], of concat] by simp
    then have "?txt = (num_bytes little 4 ?n @ offset_table little (4 + 4 * ?n) msgs @ concat (take i msgs)) @ msgs ! i @ concat (drop (Suc i) msgs)"
      by (simp add: text_section_def)
    moreover have "?off (i + 1) = ?off i + length (msgs ! i)" using that by (simp add: take_Suc_conv_app_nth)
    ultimately show ?thesis
      using slice_append [of "num_bytes little 4 ?n @ offset_table little (4 + 4 * ?n) msgs @ concat (take i msgs)" "?off i" "?off (i + 1)"
          "msgs ! i" "concat (drop (Suc i) msgs)"] that offsets [of i] offsets [of "i + 1"] by simp
  qed
  then have "read_messages wide little ?txt = map (\<lambda>i. decode_msbt_text wide little (msgs ! i)) [0..<?n]"
    by (simp add: read_messages_def count Let_def flip: offsets_def)
  then show ?thesis by (metis (no_types, lifting) list.map_comp map_nth comp_apply map_cong)
qed

section \<open>A whole file\<close>

definition msbt_ok :: "bool \<Rightarrow> (string \<times> string) list \<Rightarrow> (string \<times> nat) list list \<Rightarrow> string list \<Rightarrow> bool" where
  "msbt_ok little sections slots msgs \<longleftrightarrow>
     list_all (\<lambda>(m, c). magic_ok m \<and> length c < 256 ^ 4) sections \<and> length sections < 256 ^ 2 \<and> distinct (map fst sections) \<and>
     dict_get sections ''LBL1'' = Some (label_section little slots) \<and> dict_get sections ''TXT2'' = Some (text_section little msgs) \<and>
     list_all (list_all label_ok) slots \<and> distinct (map fst (concat slots))"

text \<open>C29 A message file is read back: every label whose index is in the table of messages gets the text of its
  message, whatever the hash of the labels, the order of the sections and the sections beside these two.\<close>

theorem msbt_roundtrip:
  assumes "msbt_ok little sections slots msgs"
  shows "parse_msbt (msbt_file wide little sections) =
    Inr (map (\<lambda>(label, i). (label, decode_msbt_text wide little (msgs ! i))) (filter (\<lambda>(label, i). i < length msgs) (concat slots)))"
proof -
  let ?file = "msbt_file wide little sections" and ?lbl = "label_section little slots" and ?txt = "text_section little msgs"
  let ?mark = "if little then [CHR 0xFF, CHR 0xFE] else [CHR 0xFE, CHR 0xFF]"
  have small: "length ?lbl < 256 ^ 4" "length ?txt < 256 ^ 4"
    using assms map_of_SomeD [of sections "''LBL1''"] map_of_SomeD [of sections "''TXT2''"] by (auto simp: msbt_ok_def list_all_iff)
  have head: "take 8 ?file = ''MsgStdBn''" "slice 8 10 ?file = ?mark" "byte_at ?file 12 = Inr (if wide then 1 else 0)"
    by (simp_all add: msbt_file_def slice_def byte_at_def)
  have count: "from_bytes little (slice 14 16 ?file) = length sections"
    using slice_append [of "''MsgStdBn'' @ ?mark @ [CHR 0x00, CHR 0x00] @ [if wide then CHR 0x01 else CHR 0x00] @ [CHR 0x03]" 14 16
        "num_bytes little 2 (length sections)"] assms
    by (simp add: msbt_file_def from_num_bytes msbt_ok_def)
  have "read_sections little ?file (length sections) (16 * 2) [] = [] @ sections"
    by (rule read_sections_file [where pre = "''MsgStdBn'' @ ?mark @ [CHR 0x00, CHR 0x00] @ [if wide then CHR 0x01 else CHR 0x00] @ [CHR 0x03] @
        num_bytes little 2 (length sections) @ replicate 16 (CHR 0x00)"])
      (use assms in \<open>simp_all add: msbt_ok_def msbt_file_def\<close>)
  then have sections: "read_sections little ?file (length sections) 32 [] = sections" by simp
  have slot_count: "from_bytes little (slice 0 4 ?lbl) = length slots"
    using slice_append [of "[]" 0 4 "num_bytes little 4 (length slots)"] small(1) by (simp add: label_section_def from_num_bytes)
  have "read_slots little ?lbl [0..<0 + length slots] [] = Inr ([] @ concat slots)"
    by (rule read_slots_table [where pre = "num_bytes little 4 (length slots)" and mid = "[]" and off = "4 + 8 * length slots"])
      (use assms small(1) in \<open>simp_all add: msbt_ok_def label_section_def\<close>)
  then have labels: "read_slots little ?lbl [0..<length slots] [] = Inr (concat slots)" by simp
  have got: "dict_get sections ''LBL1'' = Some ?lbl" "dict_get sections ''TXT2'' = Some ?txt" using assms by (simp_all add: msbt_ok_def)
  have mark: "(slice 8 10 ?file = [CHR 0xFF, CHR 0xFE]) = little" "(slice 8 10 ?file = [CHR 0xFE, CHR 0xFF]) = (\<not> little)"
    unfolding head(2) by simp_all
  obtain enc where enc: "byte_at ?file 12 = Inr enc" "enc \<le> 1" "(enc = 1) = wide" using head(3) by (cases wide) auto
  have "parse_msbt ?file = Inr (map (\<lambda>(label, i). (label, map (decode_msbt_text wide little) msgs ! i))
      (filter (\<lambda>(label, i). i < length msgs) (concat slots)))"
    unfolding parse_msbt_def Let_def mark
    using enc(2) enc(3) by (simp add: head(1) enc(1) count sections got slot_count labels read_text_section [OF small(2)])
  then show ?thesis by (auto intro!: map_cong)
qed

text \<open>Two labels in one slot of three, with the attributes section the reader skips.\<close>

definition sample_slots :: "(string \<times> nat) list list" where
  "sample_slots = [[], [(''ScenarioName_obj1'', 1), (''ScenarioName_obj2'', 0)], [(''Unused'', 7)]]"

definition sample_messages :: "string list" where
  "sample_messages = [message_bytes True True [Chars [70, 114, 111, 103]], message_bytes True True [OpenCode 0 3 [CHR 0x0E], Chars [67, 97, 112], CloseCode 0 3]]"

definition sample_sections :: "(string \<times> string) list" where
  "sample_sections = [(''LBL1'', label_section True sample_slots), (''ATR1'', ''xyz''), (''TXT2'', text_section True sample_messages)]"

theorem msbt_roundtrip_witness:
  "parse_msbt (msbt_file True True sample_sections) =
     Inr [(''ScenarioName_obj1'', decode_msbt_text True True (sample_messages ! 1)), (''ScenarioName_obj2'', decode_msbt_text True True (sample_messages ! 0))]"
proof -
  have "length (label_section True sample_slots) < 256 ^ 4" "length (text_section True sample_messages) < 256 ^ 4"
    by (simp_all add: label_section_def text_section_def sample_slots_def sample_messages_def slot_bytes_def entry_bytes_def
        message_bytes_def char_units_def utf16_of_def unit_size_def)
  then have "msbt_ok True sample_sections sample_slots sample_messages"
    by (simp add: msbt_ok_def sample_sections_def sample_slots_def magic_ok_def label_ok_def)
  from msbt_roundtrip [OF this, of True] show ?thesis by (simp add: sample_slots_def sample_messages_def)
qed

end
