(* ===== verification/Dump_Keys.thy ===== *)
theory Dump_Keys
  imports Game_Text
begin

text \<open>
  \<open>scripts/extract_shine_map.py\<close>, the keys of a game dump: the key files, the copy whose padded keys are
  trimmed, the ticket of the dump, the title key that goes to hactool and the verdict on hactool's output.
  A file is the text or the bytes read from it, \<open>None\<close> when it cannot be read; the texts of the messages
  are left out. White space is its ASCII part.
\<close>

section \<open>Lines and hex\<close>

definition runtime_error :: exn where "runtime_error = GenericException ''RuntimeError''"

text \<open>How many bytes the line break at the head takes, for \<open>str.splitlines\<close> on UTF-8 text.\<close>

fun line_break :: "string \<Rightarrow> nat" where
  "line_break [] = 0"
| "line_break (c # s) =
     (if c = CHR 0x0D then (case s of d # _ \<Rightarrow> if d = CHR 0x0A then 2 else 1 | [] \<Rightarrow> 1)
      else if byte c \<in> {10, 11, 12, 28, 29, 30} then 1
      else if take 2 (c # s) = [CHR 0xC2, CHR 0x85] then 2
      else if take 3 (c # s) \<in> {[CHR 0xE2, CHR 0x80, CHR 0xA8], [CHR 0xE2, CHR 0x80, CHR 0xA9]} then 3
      else 0)"

function lines_from :: "string \<Rightarrow> string \<Rightarrow> string list" where
  "lines_from cur s =
     (case s of
        [] \<Rightarrow> if cur = [] then [] else [cur]
      | c # t \<Rightarrow> if 0 < line_break s then cur # lines_from [] (drop (line_break s) s) else lines_from (cur @ [c]) t)"
  by pat_completeness auto
termination
proof (relation "measure (\<lambda>(c, s). length s)", goal_cases)
  case (2 cur s c t)
  then show ?case by (simp only: in_measure prod.case length_drop) simp
qed auto

declare lines_from.simps [simp del]

definition splitlines :: "string \<Rightarrow> string list" where "splitlines s = lines_from [] s"

text \<open>\<open>bytes.fromhex\<close>: white space may stand between bytes.\<close>

fun from_hex :: "string \<Rightarrow> string option" where
  "from_hex [] = Some []"
| "from_hex (c # s) =
     (if is_bytes_space c then from_hex s
      else (case hex_value c of
              None \<Rightarrow> None
            | Some h \<Rightarrow>
                (case s of
                   [] \<Rightarrow> None
                 | d # t \<Rightarrow>
                     (case hex_value d of
                        None \<Rightarrow> None
                      | Some l \<Rightarrow> map_option ((#) (char_of (16 * h + l))) (from_hex t)))))"

definition hex2 :: "nat \<Rightarrow> string" where "hex2 n = [hex_char (n div 16), hex_char (n mod 16)]"

definition to_hex :: "string \<Rightarrow> string" where "to_hex s = concat (map (\<lambda>c. hex2 (byte c)) s)"

section \<open>Key files\<close>

text \<open>The part of a line before its comment.\<close>

definition bare_line :: "string \<Rightarrow> string" where
  "bare_line raw = strip (takeWhile (\<lambda>c. c \<noteq> CHR ''#'') (takeWhile (\<lambda>c. c \<noteq> CHR '';'') raw))"

abbreviation before_eq :: "string \<Rightarrow> string" where "before_eq s \<equiv> takeWhile (\<lambda>c. c \<noteq> CHR ''='') s"
abbreviation after_eq :: "string \<Rightarrow> string" where "after_eq s \<equiv> tl (dropWhile (\<lambda>c. c \<noteq> CHR ''='') s)"

text \<open>The name and the bytes of a line, if it has both.\<close>

definition key_line :: "string \<Rightarrow> (string \<times> string) option" where
  "key_line raw =
     (let line = bare_line raw
      in if CHR ''='' \<in> set line
         then map_option (Pair (lower (strip (before_eq line)))) (from_hex (strip (after_eq line)))
         else None)"

definition parse_keys_file :: "string option \<Rightarrow> (string, string) dict" where
  "parse_keys_file contents =
     (case contents of
        None \<Rightarrow> []
      | Some s \<Rightarrow> foldl (\<lambda>out raw. case key_line raw of None \<Rightarrow> out | Some (k, v) \<Rightarrow> dict_set k v out) [] (splitlines s))"

definition numbered_keys :: "string list" where
  "numbered_keys = [''master_key_'', ''titlekek_'', ''key_area_key_application_'', ''key_area_key_ocean_'', ''key_area_key_system_'']"

definition expected_key_sizes :: "(string, nat) dict" where
  "expected_key_sizes =
     (''header_key'', 32) # concat (map (\<lambda>i. map (\<lambda>p. (p @ hex2 i, 16)) numbered_keys) [0..<32])"

definition max_key_overage :: nat where "max_key_overage = 4"

text \<open>A line of the copy, and the trim it stands for: the name, the old and the new size.\<close>

definition normalize_line :: "string \<Rightarrow> exn + string \<times> (string \<times> nat \<times> nat) option" where
  "normalize_line raw =
     (case key_line raw of
        None \<Rightarrow> Inr (raw, None)
      | Some (name, value) \<Rightarrow>
          (case dict_get expected_key_sizes name of
             None \<Rightarrow> Inr (raw, None)
           | Some expected \<Rightarrow>
               if length value = expected then Inr (raw, None)
               else if length value < expected then Inl runtime_error
               else if max_key_overage < length value - expected then Inl runtime_error
               else if list_ex (\<lambda>b. byte b \<noteq> 0) (drop expected value) then Inl runtime_error
               else Inr (rstrip_by is_space (before_eq (bare_line raw)) @ '' = '' @ to_hex (take expected value),
                         Some (name, length value, expected))))"

text \<open>\<open>None\<close> when the file needs no copy.\<close>

definition normalize_keys_file :: "string option \<Rightarrow> exn + (string \<times> (string \<times> nat \<times> nat) list) option" where
  "normalize_keys_file contents =
     (case contents of
        None \<Rightarrow> Inl runtime_error
      | Some s \<Rightarrow>
          map_sum id
            (\<lambda>rows. let trimmed = List.map_filter snd rows
                    in if trimmed = [] then None else Some (join [CHR 0x0A] (map fst rows) @ [CHR 0x0A], trimmed))
            (map_raising normalize_line (splitlines s)))"

section \<open>Title keys\<close>

text \<open>Rights id, encrypted title key, index of the key that wraps it, type.\<close>

definition read_ticket :: "string \<Rightarrow> exn + string \<times> string \<times> nat \<times> nat" where
  "read_ticket data =
     (if length data < 0x2B0 then Inl ValueError
      else let crypto_type = max (byte (data ! 0x2AF)) (byte (data ! 0x285))
           in Inr (slice 0x2A0 0x2B0 data, slice 0x180 0x190 data, if 0 < crypto_type then crypto_type - 1 else 0, byte (data ! 0x281)))"

definition derive_title_key :: "string \<Rightarrow> string option \<Rightarrow> exn + string \<times> string" where
  "derive_title_key ticket keys_file =
     (case read_ticket ticket of
        Inl e \<Rightarrow> Inl e
      | Inr (rights_id, enc_key, key_gen, tk_type) \<Rightarrow>
          if tk_type \<noteq> 0 then Inl runtime_error
          else (case dict_get (parse_keys_file keys_file) (''titlekek_'' @ hex2 key_gen) of
                  None \<Rightarrow> Inl runtime_error
                | Some titlekek \<Rightarrow> if length titlekek \<noteq> 16 then Inl runtime_error else Inr (to_hex rights_id, to_hex enc_key)))"

definition lookup_title_key :: "string option \<Rightarrow> string \<Rightarrow> string option" where
  "lookup_title_key title_keys_file rights_id_hex =
     (case dict_get (parse_keys_file title_keys_file) (lower rights_id_hex) of
        None \<Rightarrow> None
      | Some enc \<Rightarrow> if length enc \<noteq> 16 then None else Some (to_hex enc))"

definition smo_rights_id :: string where "smo_rights_id = ''01000000000100000000000000000003''"

text \<open>The arguments \<open>extract_romfs\<close> adds: from the first ticket of the dump, else from the title keys the
  user gave, if they are a file.\<close>

definition titlekey_args :: "string list \<Rightarrow> string option \<Rightarrow> string option option \<Rightarrow> string list" where
  "titlekey_args tickets keys_file title_keys =
     (case (case tickets of [] \<Rightarrow> Inl ValueError | t # _ \<Rightarrow> derive_title_key t keys_file) of
        Inr (rights_id, enc) \<Rightarrow> [''--titlekey='' @ enc]
      | Inl e \<Rightarrow>
          (case title_keys of
             None \<Rightarrow> []
           | Some f \<Rightarrow> (case lookup_title_key f smo_rights_id of None \<Rightarrow> [] | Some enc \<Rightarrow> [''--titlekey='' @ enc])))"

section \<open>hactool\<close>

datatype hactool_exit = TitlekeyMissing | ReportedErrors "string list" | FailedWith int

text \<open>The lines the process prints and its exit code; a corrupt section is only noted.\<close>

definition run_hactool :: "string list \<Rightarrow> int \<Rightarrow> hactool_exit + string list" where
  "run_hactool output_lines rc =
     (let ls = map (rstrip_by (\<lambda>c. c = CHR 0x0D \<or> c = CHR 0x0A)) output_lines;
          errors = filter (starts_with ''Error:'') ls;
          other_errors = filter (\<lambda>l. \<not> has_sub ''is corrupted'' l) errors
      in if list_ex (has_sub ''Unable to match rights id to titlekey'') ls then Inl TitlekeyMissing
         else if other_errors \<noteq> [] then Inl (ReportedErrors other_errors)
         else if rc \<noteq> 0 then Inl (FailedWith rc)
         else Inr (filter (has_sub ''is corrupted'') errors))"

text \<open>The largest of the archives of the dump, the first one among equals.\<close>

definition program_nca :: "(string \<times> nat) list \<Rightarrow> string option" where
  "program_nca ncas = (case sort_key (\<lambda>(name, bytes). - int bytes) ncas of [] \<Rightarrow> None | (name, bytes) # _ \<Rightarrow> Some name)"

end
