(* ===== verification/Dump_Safety.thy ===== *)
theory Dump_Safety
  imports Dump_Keys
begin

text \<open>
  The copy of the key file holds the keys of the original with the padding cut off, every known key at its
  size, and what goes to hactool as a title key is the hex of sixteen bytes.
\<close>

section \<open>Lines\<close>

definition no_break :: "string \<Rightarrow> bool" where
  "no_break l \<longleftrightarrow> (\<forall>p q. l = p @ q \<longrightarrow> line_break q = 0)"

lemma line_break_append: "0 < line_break s \<Longrightarrow> 0 < line_break (s @ t)"
proof (cases s)
  case (Cons c u)
  assume "0 < line_break s"
  then show ?thesis unfolding Cons by (cases u; cases "tl u") (auto split: if_splits list.splits)
qed simp

lemma line_break_ascii:
  assumes "line_break s = 0" "s \<noteq> []" "byte c < 128"
  shows "line_break (s @ c # t) = 0"
proof -
  obtain b u where s: "s = b # u" using assms(2) by (cases s) auto
  have c: "c \<notin> {CHR 0x85, CHR 0x80, CHR 0xA8, CHR 0xA9}" using assms(3) by auto
  show ?thesis using assms(1) c unfolding s by (cases u; cases "tl u") (auto split: if_splits list.splits)
qed

lemma no_break_Nil [simp]: "no_break []" by (simp add: no_break_def)

lemma no_break_parts: "no_break (a @ b @ c) \<Longrightarrow> no_break b"
proof -
  assume *: "no_break (a @ b @ c)"
  have "line_break q = 0" if "b = p @ q" for p q
  proof -
    have "line_break (q @ c) = 0" using * that unfolding no_break_def by (metis append.assoc)
    then show ?thesis using line_break_append [of q c] by auto
  qed
  then show "no_break b" by (simp add: no_break_def)
qed

lemma no_break_join:
  assumes "no_break a" "no_break (c # b)" "byte c < 128"
  shows "no_break (a @ c # b)"
  unfolding no_break_def
proof (intro allI impI)
  fix p q assume "a @ c # b = p @ q"
  then consider u where "a = p @ u" "q = u @ c # b" "u \<noteq> []" | u where "c # b = u @ q"
    by (auto simp: append_eq_append_conv2) (metis append_Nil)
  then show "line_break q = 0"
  proof cases
    case 1
    then show ?thesis using assms(1,3) by (simp add: no_break_def line_break_ascii)
  next
    case 2
    then show ?thesis using assms(2) by (simp add: no_break_def)
  qed
qed

lemma lines_from_steps:
  "lines_from cur [] = (if cur = [] then [] else [cur])"
  "0 < line_break (c # t) \<Longrightarrow> lines_from cur (c # t) = cur # lines_from [] (drop (line_break (c # t)) (c # t))"
  "line_break (c # t) = 0 \<Longrightarrow> lines_from cur (c # t) = lines_from (cur @ [c]) t"
  by (simp_all add: lines_from.simps [of cur "[]"] lines_from.simps [of cur "c # t"] del: line_break.simps)

lemma lines_from_no_break:
  "\<forall>p q. cur = p @ q \<longrightarrow> q \<noteq> [] \<longrightarrow> line_break (q @ s) = 0 \<Longrightarrow> l \<in> set (lines_from cur s) \<Longrightarrow> no_break l"
proof (induction cur s rule: lines_from.induct)
  case (1 cur s)
  have cur: "no_break cur" unfolding no_break_def
  proof (intro allI impI)
    fix p q assume "cur = p @ q"
    with 1(3) line_break_append [of q s] show "line_break q = 0" by (cases "q = []") auto
  qed
  show ?case
  proof (cases s)
    case Nil
    with 1(4) cur show ?thesis by (simp add: lines_from_steps split: if_splits)
  next
    case (Cons c t)
    show ?thesis
    proof (cases "0 < line_break s")
      case True
      have "l = cur \<or> l \<in> set (lines_from [] (drop (line_break s) s))"
        using 1(4) lines_from_steps(2) [of c t cur] True unfolding Cons by simp
      with 1(1) [OF Cons True] cur show ?thesis by auto
    next
      case False
      have "line_break (q @ t) = 0" if "cur @ [c] = p @ q" "q \<noteq> []" for p q
      proof -
        from that obtain q' where q: "q = q' @ [c]" "cur = p @ q'" by (cases q rule: rev_cases) auto
        then show ?thesis using 1(3) False Cons by (cases "q' = []") auto
      qed
      moreover have "l \<in> set (lines_from (cur @ [c]) t)" using 1(4) lines_from_steps(3) [of c t cur] False unfolding Cons by simp
      ultimately show ?thesis using 1(2) [OF Cons False] by blast
    qed
  qed
qed

lemma splitlines_no_break: "l \<in> set (splitlines s) \<Longrightarrow> no_break l"
  unfolding splitlines_def by (rule lines_from_no_break [of "[]"]) auto

lemma lines_from_line: "no_break l \<Longrightarrow> lines_from cur (l @ CHR 0x0A # r) = (cur @ l) # lines_from [] r"
proof (induction l arbitrary: cur)
  case Nil
  show ?case by (simp add: lines_from_steps(2))
next
  case (Cons c l)
  have "line_break (c # l) = 0" using Cons.prems unfolding no_break_def by (metis append_Nil)
  then have "line_break ((c # l) @ CHR 0x0A # r) = 0" by (intro line_break_ascii) simp_all
  moreover have "no_break l" using no_break_parts [of "[c]" l "[]"] Cons.prems by simp
  ultimately show ?case using Cons.IH [of "cur @ [c]"] by (simp add: lines_from_steps(3) del: line_break.simps)
qed

lemma splitlines_join: "list_all no_break ls \<Longrightarrow> ls \<noteq> [] \<Longrightarrow> splitlines (join [CHR 0x0A] ls @ [CHR 0x0A]) = ls"
proof -
  have concat_lines: "lines_from [] (concat (map (\<lambda>l. l @ [CHR 0x0A]) ls)) = ls" if "list_all no_break ls" for ls
    using that by (induction ls) (simp_all add: lines_from_steps(1) lines_from_line)
  have "join [CHR 0x0A] ls @ [CHR 0x0A] = concat (map (\<lambda>l. l @ [CHR 0x0A]) ls)" if "ls \<noteq> []" for ls
    using that by (induction ls rule: induct_list012) simp_all
  with concat_lines show "list_all no_break ls \<Longrightarrow> ls \<noteq> [] \<Longrightarrow> ?thesis" by (simp add: splitlines_def)
qed

section \<open>Hex\<close>

lemma hex_digit:
  assumes "n < 16"
  shows "hex_value (hex_char n) = Some n \<and> \<not> is_space (hex_char n) \<and> \<not> is_bytes_space (hex_char n) \<and>
    hex_char n \<in> set ''0123456789abcdef'' \<and> byte (hex_char n) < 128"
proof -
  from assms have "n \<in> {0, 1, 2, 3, 4, 5, 6, 7, 8, 9, 10, 11, 12, 13, 14, 15}" by (simp, presburger)
  then show ?thesis by (elim insertE) (simp_all add: hex_value_def hex_char_def is_space_def is_bytes_space_def char_of_def bit_0)
qed

lemma hex_parts: "byte c div 16 < 16" "byte c mod 16 < 16"
  by (simp_all add: less_mult_imp_div_less)

lemma from_to_hex: "from_hex (to_hex s) = Some s"
proof (induction s)
  case (Cons c s)
  have "(char_of (16 * (byte c div 16) + byte c mod 16) :: char) = c" by simp
  with Cons hex_digit [OF hex_parts(1) [of c]] hex_digit [OF hex_parts(2) [of c]]
  show ?case by (simp add: to_hex_def hex2_def)
qed (simp add: to_hex_def)

lemma to_hex_chars: "list_all (\<lambda>c. c \<in> set ''0123456789abcdef'' \<and> \<not> is_space c \<and> byte c < 128) (to_hex s)"
proof (induction s)
  case (Cons c s)
  with hex_digit [OF hex_parts(1) [of c]] hex_digit [OF hex_parts(2) [of c]] show ?case by (simp add: to_hex_def hex2_def)
qed (simp add: to_hex_def)

lemma length_to_hex: "length (to_hex s) = 2 * length s"
  by (induction s) (simp_all add: to_hex_def hex2_def)

section \<open>A trimmed line\<close>

abbreviation rstrip :: "string \<Rightarrow> string" where "rstrip \<equiv> rstrip_by is_space"

lemma strip_rstrip: "strip s = rstrip (dropWhile is_space s)"
  by (simp add: strip_by_def rstrip_by_def)

lemma rstrip_last: "rstrip s \<noteq> [] \<Longrightarrow> \<not> is_space (last (rstrip s))"
  using hd_dropWhile [of is_space "rev s"] by (simp add: rstrip_by_def last_rev)

lemma rstrip_id: "s = [] \<or> \<not> is_space (last s) \<Longrightarrow> rstrip s = s"
  by (cases s rule: rev_cases) (simp_all add: rstrip_by_def)

lemma rstrip_prefix: "\<exists>q. s = rstrip s @ q \<and> list_all is_space q"
proof -
  have "rev s = takeWhile is_space (rev s) @ dropWhile is_space (rev s)" by simp
  then have "s = rstrip s @ rev (takeWhile is_space (rev s))" unfolding rstrip_by_def by (metis rev_append rev_rev_ident)
  moreover have "list_all is_space (takeWhile is_space (rev s))" by (metis list_all_iff set_takeWhileD)
  ultimately show ?thesis by (metis list_all_rev)
qed

lemma strip_id: "s \<noteq> [] \<Longrightarrow> \<not> is_space (hd s) \<Longrightarrow> \<not> is_space (last s) \<Longrightarrow> strip s = s"
  unfolding strip_rstrip by (cases s) (simp_all add: rstrip_id)

lemma strip_around: "list_all is_space p \<Longrightarrow> list_all is_space q \<Longrightarrow> s \<noteq> [] \<Longrightarrow> \<not> is_space (hd s) \<Longrightarrow> \<not> is_space (last s) \<Longrightarrow> strip (p @ s @ q) = s"
proof -
  assume *: "list_all is_space p" "list_all is_space q" "s \<noteq> []" "\<not> is_space (hd s)" "\<not> is_space (last s)"
  have "dropWhile is_space (p @ s @ q) = s @ q" using *(1,3,4) by (induction p) (cases s, simp_all)
  moreover have "dropWhile is_space (rev q @ rev s) = rev s"
    using *(2,3,5) by (induction q rule: rev_induct) (cases s rule: rev_cases, simp_all)
  ultimately show ?thesis by (simp add: strip_by_def)
qed

lemma key_sizes_known: "dict_get expected_key_sizes name = Some n \<Longrightarrow> name \<noteq> [] \<and> 0 < n"
proof -
  have "list_all (\<lambda>(name, n). name \<noteq> [] \<and> 0 < n) expected_key_sizes"
    by (auto simp: expected_key_sizes_def numbered_keys_def list_all_iff)
  then show "dict_get expected_key_sizes name = Some n \<Longrightarrow> ?thesis" using map_of_SomeD [of expected_key_sizes name n] by (auto simp: list_all_iff)
qed

lemma key_line_written:
  assumes "k \<noteq> []" "\<not> is_space (hd k)" "\<not> is_space (last k)" "set k \<inter> set '';#='' = {}" "v \<noteq> []"
  shows "key_line (k @ '' = '' @ to_hex v) = Some (lower k, v)"
proof -
  let ?h = "to_hex v" and ?new = "k @ '' = '' @ to_hex v"
  have h: "?h \<noteq> []" "\<not> is_space (hd ?h)" "\<not> is_space (last ?h)" "set ?h \<inter> set '';#='' = {}"
  proof -
    show ne: "?h \<noteq> []" using assms(5) length_to_hex [of v] by auto
    have c: "c \<in> set ''0123456789abcdef'' \<and> \<not> is_space c" if "c \<in> set ?h" for c
      using to_hex_chars [of v] that unfolding list_all_iff by blast
    show "\<not> is_space (hd ?h)" "\<not> is_space (last ?h)" using c [OF hd_in_set [OF ne]] c [OF last_in_set [OF ne]] by blast+
    have "set ''0123456789abcdef'' \<inter> set '';#='' = {}" by simp
    then show "set ?h \<inter> set '';#='' = {}" using c by blast
  qed
  have chars: "c \<noteq> CHR '';'' \<and> c \<noteq> CHR ''#''" if "c \<in> set ?new" for c using that assms(4) h(4) by auto
  have whole: "takeWhile (\<lambda>c. c \<noteq> CHR '';'') ?new = ?new" "takeWhile (\<lambda>c. c \<noteq> CHR ''#'') ?new = ?new"
    using chars by (subst takeWhile_eq_all_conv, blast)+
  then have "bare_line ?new = strip ?new" by (simp only: bare_line_def)
  also have "\<dots> = ?new" using assms(1-3) h(1,3) by (intro strip_id) simp_all
  finally have bare: "bare_line ?new = ?new" .
  have eq: "takeWhile (\<lambda>c. c \<noteq> CHR ''='') ?new = k @ '' ''" "dropWhile (\<lambda>c. c \<noteq> CHR ''='') ?new = ''= '' @ ?h"
    using assms(4) by (auto simp: takeWhile_append dropWhile_append)
  have "strip (k @ '' '') = k" using strip_around [of "[]" "'' ''" k] assms(1-3) by (simp add: is_space_def)
  moreover have "strip ('' '' @ ?h) = ?h" using strip_around [of "'' ''" "[]" ?h] h(1-3) by (simp add: is_space_def)
  ultimately show ?thesis unfolding key_line_def Let_def bare eq by (simp add: from_to_hex)
qed

definition trim_key :: "string \<times> string \<Rightarrow> string \<times> string" where
  "trim_key e = (case dict_get expected_key_sizes (fst e) of None \<Rightarrow> e | Some n \<Rightarrow> (fst e, take n (snd e)))"

text \<open>A key of a known size, or one with a few zeros more.\<close>

definition paddable :: "string \<times> string \<Rightarrow> bool" where
  "paddable e \<longleftrightarrow>
     (case dict_get expected_key_sizes (fst e) of
        None \<Rightarrow> True
      | Some n \<Rightarrow> n \<le> length (snd e) \<and> length (snd e) \<le> n + max_key_overage \<and> list_all (\<lambda>b. byte b = 0) (drop n (snd e)))"

lemma strip_inside: "\<exists>p q. s = p @ strip s @ q"
proof -
  obtain q where "dropWhile is_space s = rstrip (dropWhile is_space s) @ q" using rstrip_prefix by blast
  then have "s = takeWhile is_space s @ strip s @ q" unfolding strip_rstrip by (metis takeWhile_dropWhile_id)
  then show ?thesis by blast
qed

lemma rstrip_hd: "rstrip s \<noteq> [] \<Longrightarrow> hd (rstrip s) = hd s"
  by (metis hd_append2 rstrip_prefix)

lemma strip_hd: "strip s \<noteq> [] \<Longrightarrow> \<not> is_space (hd (strip s))"
proof -
  assume *: "strip s \<noteq> []"
  then have "dropWhile is_space s \<noteq> []" by (auto simp: strip_by_def simp del: dropWhile_eq_Nil_conv)
  then have "\<not> is_space (hd (dropWhile is_space s))" by (rule hd_dropWhile)
  then show ?thesis using * rstrip_hd [of "dropWhile is_space s"] unfolding strip_rstrip by simp
qed

lemma no_break_plain: "list_all (\<lambda>c. byte c < 128 \<and> byte c \<notin> {10, 11, 12, 13, 28, 29, 30}) s \<Longrightarrow> no_break s"
proof -
  assume s: "list_all (\<lambda>c. byte c < 128 \<and> byte c \<notin> {10, 11, 12, 13, 28, 29, 30}) s"
  have "line_break q = 0" if q: "list_all (\<lambda>c. byte c < 128 \<and> byte c \<notin> {10, 11, 12, 13, 28, 29, 30}) q" for q
  proof (cases q)
    case (Cons c u)
    with q have "c \<noteq> CHR 0x0D" "c \<noteq> CHR 0xC2" "c \<noteq> CHR 0xE2" by auto
    with q Cons show ?thesis by simp
  qed simp
  with s show "no_break s" by (auto simp: no_break_def)
qed

lemma to_hex_plain: "list_all (\<lambda>c. byte c < 128 \<and> byte c \<notin> {10, 11, 12, 13, 28, 29, 30}) (to_hex v)"
proof -
  have "byte c \<notin> {10, 11, 12, 13, 28, 29, 30}" if "\<not> is_space c" for c using that by (auto simp: is_space_def)
  then show ?thesis using to_hex_chars [of v] unfolding list_all_iff by blast
qed

lemma bare_line_inside: "\<exists>p q. raw = p @ bare_line raw @ q"
proof -
  let ?t = "takeWhile (\<lambda>c. c \<noteq> CHR ''#'') (takeWhile (\<lambda>c. c \<noteq> CHR '';'') raw)"
  obtain a where "raw = ?t @ a" by (metis append.assoc takeWhile_dropWhile_id)
  moreover obtain p q where "?t = p @ bare_line raw @ q" using strip_inside [of ?t] unfolding bare_line_def by blast
  ultimately show ?thesis by (metis append.assoc)
qed

lemma bare_line_chars: "set (bare_line raw) \<inter> set '';#'' = {}"
proof -
  let ?t = "takeWhile (\<lambda>c. c \<noteq> CHR ''#'') (takeWhile (\<lambda>c. c \<noteq> CHR '';'') raw)"
  obtain p q where "?t = p @ bare_line raw @ q" using strip_inside [of ?t] unfolding bare_line_def by blast
  then have "set (bare_line raw) \<subseteq> set ?t" by (metis le_sup_iff set_append sup_ge1 sup_ge2)
  moreover have "CHR '';'' \<notin> set ?t" "CHR ''#'' \<notin> set ?t" by (auto dest: set_takeWhileD)
  ultimately show ?thesis by auto
qed

lemma trimmed_line:
  assumes "key_line raw = Some (name, bs)" "name \<noteq> []" "no_break raw" "v \<noteq> []"
  shows "key_line (rstrip (before_eq (bare_line raw)) @ '' = '' @ to_hex v) = Some (name, v) \<and>
    no_break (rstrip (before_eq (bare_line raw)) @ '' = '' @ to_hex v)"
proof -
  let ?k = "before_eq (bare_line raw)"
  have eq: "CHR ''='' \<in> set (bare_line raw)" and name: "name = lower (strip ?k)"
    using assms(1) by (auto simp: key_line_def Let_def split: if_splits)
  have ne: "strip ?k \<noteq> []" using assms(2) name by (auto simp: lower_def)
  then have k: "?k \<noteq> []" by (auto simp: strip_by_def)
  have "bare_line raw \<noteq> []" using eq by auto
  then have "\<not> is_space (hd (bare_line raw))" unfolding bare_line_def by (rule strip_hd)
  moreover have "hd ?k = hd (bare_line raw)" using k by (metis hd_append2 takeWhile_dropWhile_id)
  ultimately have hd: "\<not> is_space (hd ?k)" by simp
  then have strip: "strip ?k = rstrip ?k" unfolding strip_rstrip using k by (cases ?k) simp_all
  have r: "rstrip ?k \<noteq> []" "\<not> is_space (hd (rstrip ?k))" "\<not> is_space (last (rstrip ?k))"
    using ne strip hd rstrip_hd [of ?k] rstrip_last [of ?k] by simp_all
  obtain q where q: "?k = rstrip ?k @ q" using rstrip_prefix by blast
  have "set (rstrip ?k) \<subseteq> set ?k" by (metis q set_append sup_ge1)
  moreover have "set ?k \<subseteq> set (bare_line raw)" by (auto dest: set_takeWhileD)
  moreover have "CHR ''='' \<notin> set ?k" by (auto dest: set_takeWhileD)
  ultimately have "set (rstrip ?k) \<inter> set '';#='' = {}" using bare_line_chars [of raw] by auto
  with key_line_written r assms(4) name strip have "key_line (rstrip ?k @ '' = '' @ to_hex v) = Some (name, v)" by metis
  moreover have "no_break (rstrip ?k @ '' = '' @ to_hex v)"
  proof -
    obtain a b where "raw = a @ bare_line raw @ b" using bare_line_inside by blast
    moreover have "bare_line raw = ?k @ dropWhile (\<lambda>c. c \<noteq> CHR ''='') (bare_line raw)" by simp
    ultimately have "raw = a @ rstrip ?k @ (q @ dropWhile (\<lambda>c. c \<noteq> CHR ''='') (bare_line raw) @ b)" using q by (metis append.assoc)
    with assms(3) have "no_break (rstrip ?k)" by (metis no_break_parts)
    moreover have "no_break ('' = '' @ to_hex v)" using to_hex_plain [of v] by (intro no_break_plain) simp
    ultimately show ?thesis using no_break_join [of "rstrip ?k" "CHR '' ''" "''= '' @ to_hex v"] by simp
  qed
  ultimately show ?thesis by blast
qed

lemma normalize_line_key:
  assumes "normalize_line raw = Inr (raw', info)" "no_break raw"
  shows "key_line raw' = map_option trim_key (key_line raw) \<and> no_break raw' \<and> (info = None \<longrightarrow> raw' = raw) \<and>
    (case key_line raw of None \<Rightarrow> True | Some e \<Rightarrow> paddable e)"
proof (cases "key_line raw")
  case None
  with assms show ?thesis by (simp add: normalize_line_def)
next
  case (Some e)
  obtain name bs where e: "e = (name, bs)" by (cases e)
  show ?thesis
  proof (cases "dict_get expected_key_sizes name")
    case None
    with assms Some show ?thesis by (simp add: normalize_line_def e trim_key_def paddable_def)
  next
    case (Some n)
    note known = key_sizes_known [OF Some]
    show ?thesis
    proof (cases "length bs = n")
      case True
      with assms Some \<open>key_line raw = Some e\<close> show ?thesis by (simp add: normalize_line_def e trim_key_def paddable_def)
    next
      case False
      then have raw': "raw' = rstrip (before_eq (bare_line raw)) @ '' = '' @ to_hex (take n bs)" "info = Some (name, length bs, n)"
        and pad: "n < length bs" "length bs - n \<le> max_key_overage" "list_all (\<lambda>b. byte b = 0) (drop n bs)"
        using assms(1) Some \<open>key_line raw = Some e\<close> by (auto simp: normalize_line_def e list_ex_iff list_all_iff split: if_splits)
      have "take n bs \<noteq> []" using known pad(1) by auto
      from trimmed_line [OF _ _ assms(2) this, of name bs] show ?thesis
        using known pad raw' Some \<open>key_line raw = Some e\<close> by (simp add: e trim_key_def paddable_def)
    qed
  qed
qed

section \<open>The copy\<close>

abbreviation add_key :: "(string, string) dict \<Rightarrow> (string \<times> string) option \<Rightarrow> (string, string) dict" where
  "add_key out e \<equiv> (case e of None \<Rightarrow> out | Some (k, v) \<Rightarrow> dict_set k v out)"

lemma parse_keys_lines: "parse_keys_file (Some s) = foldl add_key [] (map key_line (splitlines s))"
  by (simp add: parse_keys_file_def foldl_map)

lemma fst_trim_key [simp]: "fst (trim_key e) = fst e"
  by (auto simp: trim_key_def split: option.split)

lemma trim_key_set: "dict_set (fst p) (snd (trim_key p)) (map trim_key d) = map trim_key (dict_set (fst p) (snd p) d)"
  by (induction d) (auto simp: prod_eq_iff)

lemma trim_key_lines: "foldl add_key (map trim_key d) (map (map_option trim_key) es) = map trim_key (foldl add_key d es)"
proof (induction es arbitrary: d)
  case (Cons e es)
  have "add_key (map trim_key d) (map_option trim_key e) = map trim_key (add_key d e)"
    by (cases e) (simp_all add: case_prod_beta trim_key_set)
  with Cons show ?case by simp
qed simp

lemma add_key_all: "list_all P d \<Longrightarrow> list_all (\<lambda>e. case e of None \<Rightarrow> True | Some p \<Rightarrow> P p) es \<Longrightarrow> list_all P (foldl add_key d es)"
proof (induction es arbitrary: d)
  case (Cons e es)
  have "list_all P (dict_set k v d)" if "P (k, v)" "list_all P d" for k v d
    using that(2) by (induction d) (auto simp: that(1))
  with Cons show ?case by (auto split: option.splits)
qed simp

lemma normalize_lines:
  "map_raising normalize_line ls = Inr rows \<Longrightarrow> list_all no_break ls \<Longrightarrow>
   map key_line (map fst rows) = map (map_option trim_key) (map key_line ls) \<and> list_all no_break (map fst rows) \<and>
   (List.map_filter snd rows = [] \<longrightarrow> map fst rows = ls) \<and> list_all (\<lambda>e. case e of None \<Rightarrow> True | Some p \<Rightarrow> paddable p) (map key_line ls) \<and>
   length rows = length ls"
proof (induction ls arbitrary: rows)
  case (Cons l ls)
  then obtain l' info rows' where l: "normalize_line l = Inr (l', info)" "map_raising normalize_line ls = Inr rows'" "rows = (l', info) # rows'"
    by (cases "map_raising normalize_line ls") (auto split: sum.splits)
  with Cons normalize_line_key [OF l(1)] show ?case by (auto simp: List.map_filter_simps split: option.splits)
qed (simp add: List.map_filter_simps)

text \<open>C30 The copy of the key file, or the file itself when none is made, holds the keys of the original in their
  order, those of a known size cut to it; the bytes cut off are at most four and all zero.\<close>

theorem keys_copy_faithful:
  assumes "normalize_keys_file (Some s) = Inr copy"
  shows "parse_keys_file (Some (case copy of None \<Rightarrow> s | Some (t, trimmed) \<Rightarrow> t)) = map trim_key (parse_keys_file (Some s)) \<and>
    list_all paddable (parse_keys_file (Some s)) \<and>
    list_all (\<lambda>(name, key). case dict_get expected_key_sizes name of None \<Rightarrow> True | Some n \<Rightarrow> length key = n) (map trim_key (parse_keys_file (Some s)))"
proof -
  obtain rows where rows: "map_raising normalize_line (splitlines s) = Inr rows"
    and copy: "copy = (if List.map_filter snd rows = [] then None else Some (join [CHR 0x0A] (map fst rows) @ [CHR 0x0A], List.map_filter snd rows))"
    using assms by (cases "map_raising normalize_line (splitlines s)") (auto simp: normalize_keys_file_def Let_def split: if_splits)
  have "list_all no_break (splitlines s)" using splitlines_no_break by (simp add: list_all_iff)
  note lines = normalize_lines [OF rows this]
  have keys: "splitlines (case copy of None \<Rightarrow> s | Some (t, trimmed) \<Rightarrow> t) = map fst rows"
  proof (cases "List.map_filter snd rows = []")
    case True
    with lines copy show ?thesis by simp
  next
    case False
    then have "map fst rows \<noteq> []" by (auto simp: List.map_filter_simps)
    with lines copy False show ?thesis by (simp add: splitlines_join)
  qed
  have pad: "list_all paddable (parse_keys_file (Some s))"
    unfolding parse_keys_lines using lines by (intro add_key_all) simp_all
  have "parse_keys_file (Some (case copy of None \<Rightarrow> s | Some (t, trimmed) \<Rightarrow> t)) = foldl add_key (map trim_key []) (map (map_option trim_key) (map key_line (splitlines s)))"
    unfolding parse_keys_lines keys using lines by simp
  also have "\<dots> = map trim_key (parse_keys_file (Some s))" unfolding trim_key_lines parse_keys_lines by (rule refl)
  finally have parse: "parse_keys_file (Some (case copy of None \<Rightarrow> s | Some (t, trimmed) \<Rightarrow> t)) = map trim_key (parse_keys_file (Some s))" .
  have "case dict_get expected_key_sizes (fst (trim_key e)) of None \<Rightarrow> True | Some n \<Rightarrow> length (snd (trim_key e)) = n" if "paddable e" for e
    using that by (auto simp: trim_key_def paddable_def split: option.splits)
  with pad have "list_all (\<lambda>(name, key). case dict_get expected_key_sizes name of None \<Rightarrow> True | Some n \<Rightarrow> length key = n) (map trim_key (parse_keys_file (Some s)))"
    unfolding list_all_iff by (auto simp: case_prod_beta)
  with parse pad show ?thesis by blast
qed

text \<open>A header key with two zeros more than its 32 bytes.\<close>

definition padded_keys :: string where
  "padded_keys = join [CHR 0x0A] [''; dump'', ''header_key = '' @ to_hex (replicate 32 (CHR 0xA5) @ [CHR 0x00, CHR 0x00])] @ [CHR 0x0A]"

theorem keys_copy_faithful_witness:
  "\<exists>t trimmed. normalize_keys_file (Some padded_keys) = Inr (Some (t, trimmed)) \<and>
     parse_keys_file (Some t) = map trim_key (parse_keys_file (Some padded_keys))"
proof -
  define v where "v = replicate 32 (CHR 0xA5) @ [CHR 0x00, CHR 0x00]"
  then have v: "v \<noteq> []" "length v = 34" "drop 32 v = [CHR 0x00, CHR 0x00]" by simp_all
  have key: "key_line (''header_key'' @ '' = '' @ to_hex v) = Some (lower ''header_key'', v)"
    using v(1) by (intro key_line_written) (simp_all add: is_space_def)
  moreover have "lower ''header_key'' = ''header_key''" "key_line ''; dump'' = None" by code_simp+
  moreover have "no_break (''header_key = '' @ to_hex v)" "no_break ''; dump''"
    by (rule no_break_plain, use to_hex_plain [of v] in simp)+
  ultimately have "splitlines padded_keys = [''; dump'', ''header_key = '' @ to_hex v]"
    and lines: "key_line (''header_key = '' @ to_hex v) = Some (''header_key'', v)" "key_line ''; dump'' = None"
    using splitlines_join [of "[''; dump'', ''header_key = '' @ to_hex v]"] unfolding padded_keys_def v_def [symmetric] by simp_all
  moreover have "dict_get expected_key_sizes ''header_key'' = Some 32" by (simp add: expected_key_sizes_def)
  ultimately have "\<exists>t trimmed. normalize_keys_file (Some padded_keys) = Inr (Some (t, trimmed))"
    by (simp add: normalize_keys_file_def normalize_line_def max_key_overage_def List.map_filter_simps Let_def v)
  then obtain t trimmed where "normalize_keys_file (Some padded_keys) = Inr (Some (t, trimmed))" by blast
  with keys_copy_faithful [OF this] show ?thesis by auto
qed

text \<open>What hactool is given as a title key, from the ticket of the dump or from the title keys of the user, is
  the lower-case hex of sixteen bytes.\<close>

theorem titlekey_args_hex:
  "titlekey_args tickets keys_file title_keys = [] \<or>
   (\<exists>h. titlekey_args tickets keys_file title_keys = [''--titlekey='' @ h] \<and> length h = 32 \<and> set h \<subseteq> set ''0123456789abcdef'')"
proof -
  have hex: "length (to_hex v) = 32 \<and> set (to_hex v) \<subseteq> set ''0123456789abcdef''" if "length v = 16" for v
  proof (intro conjI subsetI)
    show "length (to_hex v) = 32" using that by (simp add: length_to_hex)
    show "c \<in> set ''0123456789abcdef''" if "c \<in> set (to_hex v)" for c using to_hex_chars [of v] that unfolding list_all_iff by blast
  qed
  have ticket: "length e = 32 \<and> set e \<subseteq> set ''0123456789abcdef''" if derived: "derive_title_key t keys_file = Inr (r, e)" for t r e
  proof -
    obtain enc where "e = to_hex enc" "length enc = 16"
      using derived by (auto simp: derive_title_key_def read_ticket_def Let_def slice_def split: sum.splits prod.splits if_splits option.splits)
    then show ?thesis using hex by blast
  qed
  have listed: "length e = 32 \<and> set e \<subseteq> set ''0123456789abcdef''" if found: "lookup_title_key f r = Some e" for f r e
  proof -
    obtain enc where "e = to_hex enc" "length enc = 16" using found by (auto simp: lookup_title_key_def split: option.splits if_splits)
    then show ?thesis using hex by blast
  qed
  show ?thesis
  proof (cases "\<exists>t ts r e. tickets = t # ts \<and> derive_title_key t keys_file = Inr (r, e)")
    case True
    then obtain t ts r e where e: "tickets = t # ts" "derive_title_key t keys_file = Inr (r, e)" by blast
    then have "titlekey_args tickets keys_file title_keys = [''--titlekey='' @ e]" by (simp add: titlekey_args_def)
    with ticket [OF e(2)] show ?thesis by blast
  next
    case False
    then obtain x where "(case tickets of [] \<Rightarrow> Inl ValueError | t # _ \<Rightarrow> derive_title_key t keys_file) = Inl x"
      by (cases tickets; cases "derive_title_key (hd tickets) keys_file") auto
    then have args: "titlekey_args tickets keys_file title_keys =
        (case title_keys of None \<Rightarrow> [] | Some f \<Rightarrow> (case lookup_title_key f smo_rights_id of None \<Rightarrow> [] | Some e \<Rightarrow> [''--titlekey='' @ e]))"
      unfolding titlekey_args_def by simp
    show ?thesis
    proof (cases "\<exists>f e. title_keys = Some f \<and> lookup_title_key f smo_rights_id = Some e")
      case True
      then obtain f e where e: "title_keys = Some f" "lookup_title_key f smo_rights_id = Some e" by blast
      then have "titlekey_args tickets keys_file title_keys = [''--titlekey='' @ e]" unfolding args by simp
      with listed [OF e(2)] show ?thesis by blast
    next
      case False
      then have "titlekey_args tickets keys_file title_keys = []" unfolding args by (auto split: option.split)
      then show ?thesis by blast
    qed
  qed
qed

end
