(* ===== verification/Map_Extract.thy ===== *)
theory Map_Extract
  imports Game_Text Maps
begin

text \<open>
  \<open>scripts/extract_shine_map.py\<close>, from the game's files to \<open>shine_map.json\<close>, \<open>capture_map.json\<close> and the scenario
  table. The library \<open>oead\<close> is an argument: it decodes a binary document and gives the entries, the values
  under a key and the Python values of its nodes. A set of names is a list without repetitions.
\<close>

section \<open>Game documents\<close>

record 'v oead =
  from_binary :: "string \<Rightarrow> exn + 'v"
  node_get :: "'v \<Rightarrow> string \<Rightarrow> 'v option"
  node_items :: "'v \<Rightarrow> exn + 'v list"
  node_str :: "'v \<Rightarrow> string"
  node_int :: "'v \<Rightarrow> exn + int"
  node_bool :: "'v \<Rightarrow> bool"

definition node_int_or :: "'v oead \<Rightarrow> 'v \<Rightarrow> string \<Rightarrow> int \<Rightarrow> exn + int" where
  "node_int_or oe s k d = (case node_get oe s k of None \<Rightarrow> Inr d | Some v \<Rightarrow> node_int oe v)"

definition node_flag :: "'v oead \<Rightarrow> 'v \<Rightarrow> string \<Rightarrow> bool" where
  "node_flag oe s k = (case node_get oe s k of None \<Rightarrow> False | Some v \<Rightarrow> node_bool oe v)"

definition kingdom_for_homestage :: "(string, string) dict" where
  "kingdom_for_homestage =
     [(''CapWorldHomeStage'', ''Cap''), (''WaterfallWorldHomeStage'', ''Cascade''), (''SandWorldHomeStage'', ''Sand''),
      (''LakeWorldHomeStage'', ''Lake''), (''ForestWorldHomeStage'', ''Wooded''), (''CloudWorldHomeStage'', ''Cloud''),
      (''ClashWorldHomeStage'', ''Lost''), (''CityWorldHomeStage'', ''Metro''), (''SnowWorldHomeStage'', ''Snow''),
      (''SeaWorldHomeStage'', ''Seaside''), (''LavaWorldHomeStage'', ''Luncheon''), (''AttackWorldHomeStage'', ''Ruined''),
      (''SkyWorldHomeStage'', ''Bowser'' @ [CHR 39] @ ''s''), (''MoonWorldHomeStage'', ''Moon''), (''PeachWorldHomeStage'', ''Mushroom''),
      (''Special1WorldHomeStage'', ''Dark Side''), (''Special2WorldHomeStage'', ''Darker Side'')]"

section \<open>Shines\<close>

record raw_shine =
  ra_stage_name :: string
  ra_object_id :: string
  ra_unique_id :: int
  ra_is_grand :: bool
  ra_is_moon_rock :: bool
  ra_is_achievement :: bool
  ra_home_stage :: string
  ra_progress_bit_flag :: int
  ra_main_scenario_no :: int

text \<open>An entry without its three names, or whose id is no number, is skipped; so is a \<open>ValueError\<close> of its id.\<close>

definition read_shine :: "'v oead \<Rightarrow> string \<Rightarrow> 'v \<Rightarrow> exn + raw_shine option" where
  "read_shine oe home s =
     (case (node_get oe s ''StageName'', node_get oe s ''ObjId'', node_get oe s ''UniqueId'') of
        (Some stage, Some obj, Some uid) \<Rightarrow>
          (case node_int oe uid of
             Inl e \<Rightarrow> if e \<in> {KeyError, ValueError} then Inr None else Inl e
           | Inr uid \<Rightarrow>
               (case node_int_or oe s ''ProgressBitFlag'' 0 of
                  Inl e \<Rightarrow> Inl e
                | Inr flag \<Rightarrow>
                    (case node_int_or oe s ''MainScenarioNo'' (-1) of
                       Inl e \<Rightarrow> Inl e
                     | Inr scenario \<Rightarrow>
                         Inr (Some \<lparr>ra_stage_name = node_str oe stage, ra_object_id = node_str oe obj, ra_unique_id = uid,
                           ra_is_grand = node_flag oe s ''IsGrand'', ra_is_moon_rock = node_flag oe s ''IsMoonRock'',
                           ra_is_achievement = node_flag oe s ''IsAchievement'', ra_home_stage = home,
                           ra_progress_bit_flag = flag, ra_main_scenario_no = scenario\<rparr>))))
      | _ \<Rightarrow> Inr None)"

definition read_shine_list :: "'v oead \<Rightarrow> string \<Rightarrow> string \<Rightarrow> exn + raw_shine list" where
  "read_shine_list oe home data =
     (case from_binary oe data of
        Inl e \<Rightarrow> Inl e
      | Inr doc \<Rightarrow>
          (case node_items oe (or_default (node_get oe doc ''ShineList'') doc) of
             Inl e \<Rightarrow> Inl e
           | Inr shines \<Rightarrow> map_sum id (List.map_filter id) (map_raising (read_shine oe home) shines)))"

definition walk_shine_lists :: "'v oead \<Rightarrow> (string, string) dict \<Rightarrow> exn + raw_shine list" where
  "walk_shine_lists oe files =
     map_sum id concat
       (map_raising (\<lambda>home. case dict_get files (''ShineList_'' @ home @ ''.byml'') of
            None \<Rightarrow> Inr []
          | Some data \<Rightarrow> read_shine_list oe home data) (dict_keys kingdom_for_homestage))"

record world_scenario =
  ws_home_stage :: string
  ws_world_name :: string
  ws_scenario_num :: int
  ws_clear_main :: int
  ws_moon_rock :: int
  ws_after_ending :: int

definition worldlist_name_alias :: "(string, string) dict" where
  "worldlist_name_alias = [(''BossRaidWorldHomeStage'', ''AttackWorldHomeStage'')]"

definition read_world :: "'v oead \<Rightarrow> 'v \<Rightarrow> (string, world_scenario) dict \<Rightarrow> exn + (string, world_scenario) dict" where
  "read_world oe w out =
     (case node_get oe w ''Name'' of
        None \<Rightarrow> Inr out
      | Some n \<Rightarrow>
          let home = dict_get_or worldlist_name_alias (node_str oe n) (node_str oe n)
          in (case dict_get kingdom_for_homestage home of
                None \<Rightarrow> Inr out
              | Some kingdom \<Rightarrow>
                  map_sum id
                    (\<lambda>ns. dict_set kingdom
                       \<lparr>ws_home_stage = home, ws_world_name = (case node_get oe w ''WorldName'' of None \<Rightarrow> [] | Some v \<Rightarrow> node_str oe v),
                        ws_scenario_num = ns ! 0, ws_clear_main = ns ! 1, ws_moon_rock = ns ! 2, ws_after_ending = ns ! 3\<rparr> out)
                    (map_raising (\<lambda>k. node_int_or oe w k (-1))
                      [''ScenarioNum'', ''ClearMainScenario'', ''MoonRockScenario'', ''AfterEndingScenario''])))"

fun read_worlds :: "'v oead \<Rightarrow> 'v list \<Rightarrow> (string, world_scenario) dict \<Rightarrow> exn + (string, world_scenario) dict" where
  "read_worlds oe [] out = Inr out"
| "read_worlds oe (w # ws) out = (case read_world oe w out of Inl e \<Rightarrow> Inl e | Inr out \<Rightarrow> read_worlds oe ws out)"

definition extract_world_scenarios :: "'v oead \<Rightarrow> (string, string) dict \<Rightarrow> exn + (string, world_scenario) dict" where
  "extract_world_scenarios oe files =
     (case dict_get files ''WorldList.byml'' of
        None \<Rightarrow> Inr []
      | Some data \<Rightarrow>
          (case from_binary oe data of
             Inl e \<Rightarrow> Inl e
           | Inr doc \<Rightarrow> (case node_items oe doc of Inl e \<Rightarrow> Inl e | Inr worlds \<Rightarrow> read_worlds oe worlds [])))"

definition load_all_stage_msbts :: "(string \<times> string) list \<Rightarrow> (string, (string, string) dict) dict" where
  "load_all_stage_msbts files =
     foldl (\<lambda>out (name, data).
       if 5 \<le> length name \<and> drop (length name - 5) name = ''.msbt''
       then dict_set (take (length name - 5) name) (case parse_msbt data of Inl e \<Rightarrow> [] | Inr d \<Rightarrow> d) out else out) [] files"

text \<open>The names of the rows of \<open>locations.json\<close> and of the captures of \<open>items.json\<close>.\<close>

definition load_apworld_moon_names :: "(string \<times> json) list list \<Rightarrow> string list" where
  "load_apworld_moon_names entries =
     remdups (filter (\<lambda>n. list_ex (\<lambda>k. starts_with (k @ '': '') n) (map snd kingdom_for_homestage)) (List.map_filter (\<lambda>e. get_str e ''name'') entries))"

section \<open>The shine map\<close>

record resolved_shine =
  rs_stage_name :: string
  rs_object_id :: string
  rs_kingdom :: string
  rs_shine_id :: string
  rs_shine_uid :: int
  rs_progress_bit_flag :: int
  rs_main_scenario_no :: int
  rs_is_moon_rock :: bool
  rs_is_grand :: bool

datatype unmatched = UnknownHome raw_shine | NotInApworld raw_shine string string string | DuplicateKey raw_shine string string

record review_report =
  rv_unmatched_extracted :: "unmatched list"
  rv_msbt_misses :: "raw_shine list"
  rv_unmatched_apworld :: "string list"
  rv_stats :: "(string, int) dict"

definition resolve_raw :: "raw_shine \<Rightarrow> string \<Rightarrow> string \<Rightarrow> resolved_shine" where
  "resolve_raw r kingdom msg =
     \<lparr>rs_stage_name = ra_stage_name r, rs_object_id = ra_object_id r, rs_kingdom = kingdom, rs_shine_id = msg,
      rs_shine_uid = ra_unique_id r, rs_progress_bit_flag = ra_progress_bit_flag r, rs_main_scenario_no = ra_main_scenario_no r,
      rs_is_moon_rock = ra_is_moon_rock r, rs_is_grand = ra_is_grand r\<rparr>"

definition shine_text :: "(string, (string, string) dict) dict \<Rightarrow> raw_shine \<Rightarrow> string option" where
  "shine_text msbts r = dict_get (dict_get_or msbts (ra_stage_name r) []) (''ScenarioName_'' @ ra_object_id r)"

text \<open>The state of the loop: the entries, the names seen, the two lists of the report.\<close>

record extraction =
  xt_resolved :: "resolved_shine list"
  xt_seen_names :: "string list"
  xt_unmatched :: "unmatched list"
  xt_misses :: "raw_shine list"

definition empty_extraction :: extraction where
  "empty_extraction = \<lparr>xt_resolved = [], xt_seen_names = [], xt_unmatched = [], xt_misses = []\<rparr>"

definition seen_keys :: "extraction \<Rightarrow> (string \<times> string) list" where
  "seen_keys x = map (\<lambda>r. (rs_stage_name r, rs_object_id r)) (xt_resolved x)"

definition extract_one :: "(string, (string, string) dict) dict \<Rightarrow> string list \<Rightarrow> extraction \<Rightarrow> raw_shine \<Rightarrow> extraction" where
  "extract_one msbts apworld_names x r =
     (case dict_get kingdom_for_homestage (ra_home_stage r) of
        None \<Rightarrow> x\<lparr>xt_unmatched := xt_unmatched x @ [UnknownHome r]\<rparr>
      | Some kingdom \<Rightarrow>
          (if \<not> truthy (shine_text msbts r) then x\<lparr>xt_misses := xt_misses x @ [r]\<rparr>
           else let msg = the (shine_text msbts r); candidate = kingdom @ '': '' @ msg;
                    x = (if candidate \<in> set apworld_names then x
                         else x\<lparr>xt_unmatched := xt_unmatched x @ [NotInApworld r kingdom msg candidate]\<rparr>)
                in if (ra_stage_name r, ra_object_id r) \<in> set (seen_keys x)
                   then x\<lparr>xt_unmatched := xt_unmatched x @ [DuplicateKey r kingdom msg]\<rparr>
                   else x\<lparr>xt_seen_names := candidate # xt_seen_names x, xt_resolved := xt_resolved x @ [resolve_raw r kingdom msg]\<rparr>))"

definition is_unknown_home :: "unmatched \<Rightarrow> bool" where "is_unknown_home u = (case u of UnknownHome r \<Rightarrow> True | _ \<Rightarrow> False)"
definition is_not_in_apworld :: "unmatched \<Rightarrow> bool" where "is_not_in_apworld u = (case u of NotInApworld r k t c \<Rightarrow> True | _ \<Rightarrow> False)"
definition is_duplicate_key :: "unmatched \<Rightarrow> bool" where "is_duplicate_key u = (case u of DuplicateKey r k t \<Rightarrow> True | _ \<Rightarrow> False)"

definition extract_shines :: "raw_shine list \<Rightarrow> (string, (string, string) dict) dict \<Rightarrow> string list \<Rightarrow> resolved_shine list \<times> review_report" where
  "extract_shines raw msbts apworld_names =
     (let x = foldl (extract_one msbts apworld_names) empty_extraction raw;
          unhit = sort (filter (\<lambda>n. n \<notin> set (xt_seen_names x)) apworld_names);
          number = (\<lambda>p. int (length (filter p (xt_unmatched x))))
      in (xt_resolved x,
          \<lparr>rv_unmatched_extracted = xt_unmatched x, rv_msbt_misses = xt_misses x, rv_unmatched_apworld = unhit,
           rv_stats = [(''raw_shines'', int (length raw)), (''resolved'', int (length (xt_resolved x))),
             (''msbt_misses'', int (length (xt_misses x))), (''name_mismatches'', number is_not_in_apworld),
             (''unknown_home_stage'', number is_unknown_home), (''duplicate_keys'', number is_duplicate_key),
             (''apworld_moon_names'', int (length apworld_names)), (''apworld_unhit'', int (length unhit))]\<rparr>))"

definition shine_json :: "resolved_shine \<Rightarrow> json" where
  "shine_json r =
     JObj [(''stage_name'', JStr (rs_stage_name r)), (''object_id'', JStr (rs_object_id r)), (''kingdom'', JStr (rs_kingdom r)),
       (''shine_id'', JStr (rs_shine_id r)), (''shine_uid'', JInt (rs_shine_uid r)), (''progress_bit_flag'', JInt (rs_progress_bit_flag r)),
       (''main_scenario_no'', JInt (rs_main_scenario_no r)), (''is_moon_rock'', JBool (rs_is_moon_rock r)), (''is_grand'', JBool (rs_is_grand r))]"

definition shine_map_json :: "resolved_shine list \<Rightarrow> json" where
  "shine_map_json resolved = JList (map shine_json resolved)"

section \<open>The capture map\<close>

definition load_apworld_capture_names :: "(string \<times> string list option) list \<Rightarrow> string list" where
  "load_apworld_capture_names items = remdups (map fst (filter (\<lambda>(name, cats). ''Capture'' \<in> set (or_default cats [])) items))"

definition capture_name_aliases :: "(string, string) dict" where
  "capture_name_aliases =
     [(''Bowser statue'', ''Bowser Statue''), (''Cheep Cheep (Snow Kingdom)'', ''Snow Cheep Cheep''),
      (''Picture Match Part (Mario)'', ''Picture Match Part''), (''Picture Match Part (Goomba)'', ''Picture Match Part''),
      (''Puzzle Part (Lake Kingdom)'', ''Puzzle Part''), (''Puzzle Part (Metro Kingdom)'', ''Puzzle Part'')]"

definition walk_hack_obj_list :: "'v oead \<Rightarrow> string list \<Rightarrow> exn + string list" where
  "walk_hack_obj_list oe files =
     (case files of
        [] \<Rightarrow> Inr []
      | data # _ \<Rightarrow>
          (case from_binary oe data of
             Inl e \<Rightarrow> Inl e
           | Inr doc \<Rightarrow> map_sum id (List.map_filter (\<lambda>entry. map_option (node_str oe) (node_get oe entry ''HackName''))) (node_items oe doc)))"

fun load_hack_msbt :: "(string \<times> string) list \<Rightarrow> exn + (string, string) dict" where
  "load_hack_msbt [] = Inr []"
| "load_hack_msbt ((name, data) # files) = (if name = ''HackList.msbt'' then parse_msbt data else load_hack_msbt files)"

record captures =
  cp_entries :: "(string \<times> string) list"
  cp_seen_hack :: "string list"
  cp_seen_apworld :: "string list"
  cp_no_msbt :: "string list"
  cp_no_apworld :: "(string \<times> string) list"
  cp_matched :: nat

definition empty_captures :: captures where
  "empty_captures = \<lparr>cp_entries = [], cp_seen_hack = [], cp_seen_apworld = [], cp_no_msbt = [], cp_no_apworld = [], cp_matched = 0\<rparr>"

definition capture_one :: "(string, string) dict \<Rightarrow> string list \<Rightarrow> captures \<Rightarrow> string \<Rightarrow> captures" where
  "capture_one hack_msbt apworld_caps c hack =
     (if hack \<in> set (cp_seen_hack c) then c
      else let c = c\<lparr>cp_seen_hack := hack # cp_seen_hack c\<rparr>
           in (case dict_get hack_msbt hack of
                 None \<Rightarrow> c\<lparr>cp_no_msbt := cp_no_msbt c @ [hack]\<rparr>
               | Some english \<Rightarrow>
                   let cap = dict_get_or capture_name_aliases english english;
                       c = (if cap \<in> set apworld_caps
                            then c\<lparr>cp_seen_apworld := List.insert cap (cp_seen_apworld c), cp_matched := cp_matched c + 1\<rparr>
                            else c\<lparr>cp_no_apworld := cp_no_apworld c @ [(hack, english)]\<rparr>)
                   in c\<lparr>cp_entries := cp_entries c @ [(hack, cap)]\<rparr>))"

definition extract_captures :: "string list \<Rightarrow> (string, string) dict \<Rightarrow> string list \<Rightarrow> captures \<times> string list \<times> (string, int) dict" where
  "extract_captures hack_names hack_msbt apworld_caps =
     (let c = foldl (capture_one hack_msbt apworld_caps) empty_captures hack_names;
          unhit = sort (filter (\<lambda>n. n \<notin> set (cp_seen_apworld c)) apworld_caps)
      in (c, unhit,
          [(''raw_hacks'', int (length hack_names)), (''unique_hacks'', int (length (cp_seen_hack c))), (''emitted'', int (length (cp_entries c))),
           (''no_msbt'', int (length (cp_no_msbt c))), (''apworld_caps'', int (length apworld_caps)), (''apworld_matched'', int (cp_matched c)),
           (''apworld_unhit'', int (length unhit)), (''out_of_apworld_scope'', int (length (cp_no_apworld c)))]))"

text \<open>The JSON the maps are written as, from the files of the game: \<open>main\<close> writes each map as soon as it is made.\<close>

definition capture_map_json :: "captures \<Rightarrow> json" where
  "capture_map_json c = JList (map (\<lambda>(hack, cap). JObj [(''hack_name'', JStr hack), (''cap'', JStr cap)]) (cp_entries c))"

definition shine_map_of_dump ::
  "'v oead \<Rightarrow> (string, string) dict \<Rightarrow> (string \<times> string) list \<Rightarrow> (string \<times> json) list list \<Rightarrow> exn + json" where
  "shine_map_of_dump oe shine_info stage_message location_rows =
     map_sum id (\<lambda>raw. shine_map_json (fst (extract_shines raw (load_all_stage_msbts stage_message) (load_apworld_moon_names location_rows))))
       (walk_shine_lists oe shine_info)"

end
