(* ===== verification/Map_Meaning.thy ===== *)
theory Map_Meaning
  imports Map_Extract
begin

text \<open>
  The maps of a dump in the client: every shine is either in the map or in the report, and the tables the client
  loads give each moon its kingdom and its message and each capture its name.
\<close>

section \<open>Shines\<close>

text \<open>A shine has a name when its home is a kingdom and its message is there.\<close>

definition shine_name :: "(string, (string, string) dict) dict \<Rightarrow> raw_shine \<Rightarrow> string option" where
  "shine_name msbts r =
     (if ra_home_stage r \<in> set (dict_keys kingdom_for_homestage) \<and> truthy (shine_text msbts r) then shine_text msbts r else None)"

lemma kingdoms_named: "dict_get kingdom_for_homestage h = Some k \<Longrightarrow> k \<noteq> []"
  using map_of_SomeD [of kingdom_for_homestage h k] by (auto simp: kingdom_for_homestage_def)

text \<open>An entry is made of a shine: its key, the kingdom of its home and its message.\<close>

definition entry_of :: "(string, (string, string) dict) dict \<Rightarrow> resolved_shine \<Rightarrow> raw_shine \<Rightarrow> bool" where
  "entry_of msbts e r \<longleftrightarrow> rs_stage_name e = ra_stage_name r \<and> rs_object_id e = ra_object_id r \<and>
     dict_get kingdom_for_homestage (ra_home_stage r) = Some (rs_kingdom e) \<and> shine_text msbts r = Some (rs_shine_id e) \<and> rs_shine_id e \<noteq> []"

definition extraction_ok :: "(string, (string, string) dict) dict \<Rightarrow> raw_shine list \<Rightarrow> extraction \<Rightarrow> bool" where
  "extraction_ok msbts raw x \<longleftrightarrow>
     distinct (seen_keys x) \<and>
     length raw = length (xt_resolved x) + length (xt_misses x) + length (filter is_unknown_home (xt_unmatched x)) +
       length (filter is_duplicate_key (xt_unmatched x)) \<and>
     (\<forall>e \<in> set (xt_resolved x). \<exists>r \<in> set raw. entry_of msbts e r) \<and>
     (\<forall>r \<in> set raw. shine_name msbts r \<noteq> None \<longrightarrow> (ra_stage_name r, ra_object_id r) \<in> set (seen_keys x))"

lemma extract_one_ok:
  assumes "extraction_ok msbts raw x"
  shows "extraction_ok msbts (raw @ [r]) (extract_one msbts names x r)"
proof (cases "dict_get kingdom_for_homestage (ra_home_stage r)")
  case None
  then have "shine_name msbts r = None" by (simp add: shine_name_def dict_get_None_iff)
  with None assms show ?thesis
    by (auto simp: extract_one_def extraction_ok_def seen_keys_def is_unknown_home_def is_duplicate_key_def)
next
  case (Some k)
  then have home: "ra_home_stage r \<in> set (dict_keys kingdom_for_homestage)" by (metis dict_get_None_iff option.distinct(1))
  show ?thesis
  proof (cases "truthy (shine_text msbts r)")
    case False
    then have "shine_name msbts r = None" by (simp add: shine_name_def)
    with False Some assms show ?thesis by (auto simp: extract_one_def extraction_ok_def seen_keys_def)
  next
    case True
    then obtain t where t: "shine_text msbts r = Some t" "t \<noteq> []" by (cases "shine_text msbts r") (auto simp: truthy_def)
    with True home have name: "shine_name msbts r = Some t" by (simp add: shine_name_def)
    define y where "y = (if k @ '': '' @ t \<in> set names then x else x\<lparr>xt_unmatched := xt_unmatched x @ [NotInApworld r k t (k @ '': '' @ t)]\<rparr>)"
    have y: "xt_resolved y = xt_resolved x" "xt_misses y = xt_misses x" "seen_keys y = seen_keys x"
      "filter is_unknown_home (xt_unmatched y) = filter is_unknown_home (xt_unmatched x)"
      "filter is_duplicate_key (xt_unmatched y) = filter is_duplicate_key (xt_unmatched x)"
      by (simp_all add: y_def seen_keys_def is_unknown_home_def is_duplicate_key_def)
    have step: "extract_one msbts names x r = (if (ra_stage_name r, ra_object_id r) \<in> set (seen_keys x)
        then y\<lparr>xt_unmatched := xt_unmatched y @ [DuplicateKey r k t]\<rparr>
        else y\<lparr>xt_seen_names := (k @ '': '' @ t) # xt_seen_names y, xt_resolved := xt_resolved y @ [resolve_raw r k t]\<rparr>)"
      using Some True t by (simp add: extract_one_def Let_def y_def seen_keys_def)
    show ?thesis
    proof (cases "(ra_stage_name r, ra_object_id r) \<in> set (seen_keys x)")
      case True
      then have "extract_one msbts names x r = y\<lparr>xt_unmatched := xt_unmatched y @ [DuplicateKey r k t]\<rparr>" by (simp add: step)
      moreover have "is_duplicate_key (DuplicateKey r k t)" "\<not> is_unknown_home (DuplicateKey r k t)"
        by (simp_all add: is_duplicate_key_def is_unknown_home_def)
      ultimately show ?thesis using assms y True name by (auto simp: extraction_ok_def seen_keys_def)
    next
      case False
      then have "extract_one msbts names x r = y\<lparr>xt_seen_names := (k @ '': '' @ t) # xt_seen_names y, xt_resolved := xt_resolved y @ [resolve_raw r k t]\<rparr>"
        by (simp add: step)
      then show ?thesis using assms y False name t Some unfolding extraction_ok_def seen_keys_def
        by (auto simp: resolve_raw_def entry_of_def)
    qed
  qed
qed

lemma extraction_run: "extraction_ok msbts raw (foldl (extract_one msbts names) empty_extraction raw)"
proof (induction raw rule: rev_induct)
  case Nil
  show ?case by (simp add: extraction_ok_def empty_extraction_def seen_keys_def)
next
  case (snoc r raw)
  then show ?case by (simp add: extract_one_ok)
qed


section \<open>The shine map in the client\<close>

abbreviation shine_res :: "resolved_shine \<Rightarrow> string \<times> string" where "shine_res e \<equiv> (rs_kingdom e, rs_shine_id e)"
abbreviation shine_key :: "resolved_shine \<Rightarrow> string \<times> string" where "shine_key e \<equiv> (rs_stage_name e, rs_object_id e)"

definition full_entry :: "resolved_shine \<Rightarrow> bool" where
  "full_entry e \<longleftrightarrow> rs_stage_name e \<noteq> [] \<and> rs_object_id e \<noteq> [] \<and> rs_kingdom e \<noteq> [] \<and> rs_shine_id e \<noteq> []"

lemma load_shine_json:
  "full_entry e \<Longrightarrow> load_shine_entry (shine_json e) m =
     (m\<lparr>by_pair := dict_set (shine_key e) (shine_res e) (by_pair m), by_uid := dict_set (rs_shine_uid e) (shine_res e) (by_uid m),
        uid_by_location := dict_set (shine_res e) (rs_shine_uid e) (uid_by_location m)\<rparr>, None)"
  by (simp add: load_shine_entry_def shine_json_def full_entry_def get_str_def get_int_def json_get_def dict_get_or_def json_str_def
      json_int_def truthy_def Let_def)

lemma load_shines:
  assumes "list_all full_entry es" "distinct (map shine_key es)" "\<forall>e \<in> set es. shine_key e \<notin> set (dict_keys (by_pair m))"
  shows "\<exists>m'. for_each (map shine_json es) load_shine_entry m = (m', None) \<and> by_pair m' = by_pair m @ map (\<lambda>e. (shine_key e, shine_res e)) es"
  using assms
proof (induction es arbitrary: m)
  case (Cons e es)
  let ?m = "m\<lparr>by_pair := dict_set (shine_key e) (shine_res e) (by_pair m), by_uid := dict_set (rs_shine_uid e) (shine_res e) (by_uid m),
        uid_by_location := dict_set (shine_res e) (rs_shine_uid e) (uid_by_location m)\<rparr>"
  have new: "by_pair ?m = by_pair m @ [(shine_key e, shine_res e)]" using Cons.prems(3) by (simp add: dict_set_new)
  have "\<forall>e' \<in> set es. shine_key e' \<notin> set (dict_keys (by_pair ?m))" using Cons.prems(2,3) unfolding new by (auto simp: image_iff)
  with Cons.IH [of ?m] Cons.prems(1,2) obtain m' where
    "for_each (map shine_json es) load_shine_entry ?m = (m', None)" "by_pair m' = by_pair ?m @ map (\<lambda>e. (shine_key e, shine_res e)) es" by auto
  with Cons.prems(1) new show ?case by (simp add: load_shine_json)
qed simp

text \<open>C28 The client that loads the map of a dump knows every named moon of the game by its stage and object: its
  shine id is the text of its message and its kingdom that of a home stage which lists it.\<close>

theorem extracted_shines_resolve:
  assumes "list_all (\<lambda>r. ra_stage_name r \<noteq> [] \<and> ra_object_id r \<noteq> []) raw" "r \<in> set raw" "shine_name msbts r = Some t"
  shows "\<exists>m' r' k. reload_shine_map (Inr (shine_map_json (fst (extract_shines raw msbts names)))) m =
      (m', Inr (length (fst (extract_shines raw msbts names)))) \<and>
    resolve_shine m' (Some (ra_stage_name r)) (Some (ra_object_id r)) uid = Some (k, t) \<and>
    r' \<in> set raw \<and> ra_stage_name r' = ra_stage_name r \<and> ra_object_id r' = ra_object_id r \<and>
    dict_get kingdom_for_homestage (ra_home_stage r') = Some k"
proof -
  define es where "es = fst (extract_shines raw msbts names)"
  have keys: "distinct (map shine_key es)" and made: "\<forall>e \<in> set es. \<exists>r \<in> set raw. entry_of msbts e r"
    and all: "\<forall>r \<in> set raw. shine_name msbts r \<noteq> None \<longrightarrow> (ra_stage_name r, ra_object_id r) \<in> set (map shine_key es)"
    using extraction_run [of msbts raw names] by (simp_all add: es_def extract_shines_def Let_def extraction_ok_def seen_keys_def)
  have full: "list_all full_entry es" using made assms(1) kingdoms_named
    unfolding list_all_iff full_entry_def entry_of_def by metis
  obtain m' where m': "for_each (map shine_json es) load_shine_entry empty_shine_map = (m', None)"
    "by_pair m' = map (\<lambda>e. (shine_key e, shine_res e)) es"
    using load_shines [OF full keys, of empty_shine_map] by (auto simp: empty_shine_map_def)
  from all assms(2,3) obtain e where e: "e \<in> set es" "rs_stage_name e = ra_stage_name r" "rs_object_id e = ra_object_id r" by auto
  with made obtain r' where r': "r' \<in> set raw" "entry_of msbts e r'" by blast
  have "shine_text msbts r' = shine_text msbts r" using e r'(2) by (simp add: shine_text_def entry_of_def)
  moreover have "shine_text msbts r = Some t" using assms(3) by (simp add: shine_name_def split: if_splits)
  ultimately have t: "rs_shine_id e = t" using r'(2) by (simp add: entry_of_def)
  have "dict_get (by_pair m') (shine_key e) = Some (shine_res e)"
    unfolding m'(2) using keys e(1) by (intro map_of_is_SomeI) (auto simp: comp_def)
  moreover have "ra_stage_name r \<noteq> []" "ra_object_id r \<noteq> []" using assms(1,2) by (auto simp: list_all_iff)
  ultimately have "resolve_shine m' (Some (ra_stage_name r)) (Some (ra_object_id r)) uid = Some (rs_kingdom e, t)"
    using e t by (simp add: resolve_shine_def truthy_def)
  moreover have "reload_shine_map (Inr (shine_map_json es)) m = (m', Inr (length es))"
    using m' by (simp add: reload_shine_map_def load_shine_text_def shine_map_json_def)
  ultimately show ?thesis using r' e unfolding es_def entry_of_def by (intro exI [of _ m'] exI [of _ r'] exI [of _ "rs_kingdom e"]) simp
qed

text \<open>Two home stages list the same moon; the second does not replace the first.\<close>

definition sample_shine :: "string \<Rightarrow> raw_shine" where
  "sample_shine home =
     \<lparr>ra_stage_name = ''CapWorldHomeStage'', ra_object_id = ''obj12'', ra_unique_id = 7, ra_is_grand = False, ra_is_moon_rock = False,
      ra_is_achievement = False, ra_home_stage = home, ra_progress_bit_flag = 1, ra_main_scenario_no = -1\<rparr>"

definition sample_msbts :: "(string, (string, string) dict) dict" where
  "sample_msbts = [(''CapWorldHomeStage'', [(''ScenarioName_obj12'', ''Skimming the Poison Tide'')])]"

abbreviation sample_raw :: "raw_shine list" where
  "sample_raw \<equiv> [sample_shine ''CapWorldHomeStage'', sample_shine ''SandWorldHomeStage'', sample_shine ''HomeShipStage'']"

theorem extracted_shines_resolve_witness:
  "\<exists>m' r' k. reload_shine_map (Inr (shine_map_json (fst (extract_shines sample_raw sample_msbts [])))) empty_shine_map =
      (m', Inr (length (fst (extract_shines sample_raw sample_msbts [])))) \<and>
    resolve_shine m' (Some ''CapWorldHomeStage'') (Some ''obj12'') None = Some (k, ''Skimming the Poison Tide'') \<and>
    r' \<in> set sample_raw \<and> ra_stage_name r' = ''CapWorldHomeStage'' \<and> ra_object_id r' = ''obj12'' \<and>
    dict_get kingdom_for_homestage (ra_home_stage r') = Some k"
proof -
  have "shine_name sample_msbts (sample_shine ''CapWorldHomeStage'') = Some ''Skimming the Poison Tide''"
    by (simp add: shine_name_def shine_text_def sample_msbts_def sample_shine_def kingdom_for_homestage_def dict_get_or_def truthy_def)
  from extracted_shines_resolve [OF _ _ this, of sample_raw "[]" empty_shine_map None] show ?thesis
    by (simp add: sample_shine_def)
qed

section \<open>The capture map in the client\<close>

definition apworld_cap :: "string \<Rightarrow> string" where "apworld_cap english = dict_get_or capture_name_aliases english english"

lemma apworld_cap_named: "english \<noteq> [] \<Longrightarrow> apworld_cap english \<noteq> []"
  by (auto simp: apworld_cap_def capture_name_aliases_def dict_get_or_def)

definition captures_ok :: "(string, string) dict \<Rightarrow> string list \<Rightarrow> captures \<Rightarrow> bool" where
  "captures_ok hack_msbt hacks c \<longleftrightarrow>
     distinct (map fst (cp_entries c)) \<and> set (cp_seen_hack c) = set hacks \<and>
     (\<forall>p. p \<in> set (cp_entries c) \<longleftrightarrow> fst p \<in> set hacks \<and> (\<exists>english. dict_get hack_msbt (fst p) = Some english \<and> snd p = apworld_cap english))"

lemma capture_one_ok:
  assumes "captures_ok hack_msbt hacks c"
  shows "captures_ok hack_msbt (hacks @ [h]) (capture_one hack_msbt caps c h)"
proof (cases "h \<in> set hacks")
  case True
  then have "set (hacks @ [h]) = set hacks" by auto
  moreover have "capture_one hack_msbt caps c h = c" using True assms by (simp add: capture_one_def captures_ok_def)
  ultimately show ?thesis using assms unfolding captures_ok_def by simp
next
  case False
  then have new: "h \<notin> fst ` set (cp_entries c)" using assms by (auto simp: captures_ok_def)
  show ?thesis
  proof (cases "dict_get hack_msbt h")
    case None
    with False assms have "capture_one hack_msbt caps c h = c\<lparr>cp_seen_hack := h # cp_seen_hack c, cp_no_msbt := cp_no_msbt c @ [h]\<rparr>"
      by (simp add: capture_one_def captures_ok_def Let_def)
    with None assms show ?thesis by (auto simp: captures_ok_def)
  next
    case (Some english)
    with False assms have "cp_entries (capture_one hack_msbt caps c h) = cp_entries c @ [(h, apworld_cap english)]"
      "cp_seen_hack (capture_one hack_msbt caps c h) = h # cp_seen_hack c"
      by (simp_all add: capture_one_def captures_ok_def Let_def apworld_cap_def)
    with Some assms new show ?thesis by (auto simp: captures_ok_def)
  qed
qed

lemma captures_run: "captures_ok hack_msbt hacks (foldl (capture_one hack_msbt caps) empty_captures hacks)"
proof (induction hacks rule: rev_induct)
  case Nil
  show ?case by (simp add: captures_ok_def empty_captures_def)
next
  case (snoc h hacks)
  then show ?case by (simp add: capture_one_ok)
qed

lemma load_capture_table:
  assumes "distinct (map fst ps)" "\<And>p. p \<in> set ps \<Longrightarrow> fst p \<noteq> [] \<and> snd p \<noteq> []" "\<And>p. p \<in> set ps \<Longrightarrow> fst p \<notin> set (dict_keys (cap_table m))"
  shows "cap_table (fst (for_each (map capture_entry ps) load_capture_entry m)) = cap_table m @ ps"
  using assms
proof (induction ps arbitrary: m)
  case (Cons p ps)
  let ?m = "m\<lparr>cap_table := dict_set (fst p) (snd p) (cap_table m), cap_reverse := dict_setdefault (snd p) (fst p) (cap_reverse m)\<rparr>"
  have table: "cap_table ?m = cap_table m @ [p]" using Cons.prems(3) [of p] by (simp add: dict_set_new)
  have "fst q \<notin> set (dict_keys (cap_table ?m))" if "q \<in> set ps" for q
    using Cons.prems(1) Cons.prems(3) [of q] that unfolding table by (auto simp: image_iff)
  with Cons.IH [of ?m] Cons.prems(1,2) have "cap_table (fst (for_each (map capture_entry ps) load_capture_entry ?m)) = cap_table m @ p # ps"
    unfolding table by simp
  moreover have "load_capture_entry (capture_entry p) m = (?m, None)" using Cons.prems(2) [of p] by (intro load_capture_entry_pair) simp_all
  ultimately show ?case by simp
qed simp



text \<open>The item \<open>Puzzle Part (Lake Kingdom)\<close> is sent to the Switch as its own hack, but the map of a dump resolves
  this hack to \<open>Puzzle Part\<close>: the check of the capture is reported under a name that no location has.\<close>

lemma variant_capture_lost:
  "case reload_capture_map (Inr (capture_map_json (fst (extract_captures [''GotogotonLake''] [(''GotogotonLake'', ''Puzzle Part (Lake Kingdom)'')] []))))
       empty_capture_map of (m, _) \<Rightarrow>
     cap_to_hack m (Some ''Puzzle Part (Lake Kingdom)'') = Some ''GotogotonLake'' \<and>
     resolve_capture m (Some ''GotogotonLake'') = Some ''Puzzle Part''"
  by code_simp

end
