(* ===== verification/Spec2Isabelle.thy ===== *)
theory Spec2Isabelle
  imports Wire_Limits Switch_Slots Client_Receive Rule_Oracle World_Access World_Pool Data_Safety Moon_Meaning Pack_Sections Game_Files Dump_Safety Map_Meaning
begin

text \<open>
  A verification development for Spicy Meatball Overdrive, the Archipelago integration of Super Mario
  Odyssey. Paths are relative to \<open>src/apworld/smo_archipelago\<close>.

  The program has two halves. At generation time the apworld turns requirement strings into access
  rules, rolls the moon thresholds of the kingdoms and fixes the order in which Talkatoo names moons.
  At play time the client holds one connection to the Archipelago server and one to each Switch; it
  keeps the bridge state, translates checks, items, deaths and goals between the two, and replays
  everything a Switch needs after each connection.

  \<^bold>\<open>Generation\<close>
  \<^item> \<open>Rule_Logic\<close>: \<open>Rules.py\<close>, the evaluator of requirement strings and lists and the
    access rules of locations and exits. \<open>Rule_Semantics\<close>, \<open>Rule_Strings\<close> and
    \<open>Rule_Meaning\<close> give a grammar of requirements, its truth value, and the lemmas that lead the text
    replacements, the shunting-yard conversion and the stack evaluation to that value.
  \<^item> \<open>Rule_Hooks\<close>: \<open>hooks/Rules.py\<close> with \<open>clamp\<close> and \<open>is_option_enabled\<close> of
    \<open>Helpers.py\<close>, the functions a requirement string can call.
  \<^item> \<open>Py_Random\<close>, \<open>Kingdom_Gates\<close>: \<open>kingdom_gates.py\<close>, the transfer walk, over any sequence of draws.
    \<open>Rule_Names\<close> and \<open>Rule_Gates\<close> join it to \<open>KingdomMoons\<close>: what a leave-rule asks for, and that rolled
    gates can be met.
  \<^item> \<open>Entrance_Eval\<close>, \<open>Entrance_Moves\<close>, \<open>Entrance_Doors\<close>, \<open>Entrance_Pool\<close>: \<open>entrance_logic.py\<close>, its two
    evaluators, the compiled move requirements, the rules of doors and scenario gates and the pool of
    shuffled doors. \<open>Entrance_Meaning\<close> shows that its evaluators agree with that of \<open>Rules.py\<close>.
  \<^item> \<open>Item_Pool\<close>: the pool hooks of \<open>hooks/World.py\<close>; \<open>Item_Progression\<close> shows that the moons they leave as
    progression open the leave-rules. \<open>World_Items\<close>: ids, \<open>create_items\<close> and \<open>adjust_filler_items\<close> around
    these hooks, with the properties of the generated pool in \<open>World_Pool\<close>.
  \<^item> \<open>World_Options\<close>, \<open>World_Graph\<close>, \<open>World_Rules\<close>: the category filters of \<open>Helpers.py\<close>, regions, goal and the
    entrance shuffle (\<open>Regions.py\<close>, \<open>create_regions\<close> and its hooks), and \<open>set_rules\<close> with its hooks.
    Archipelago's \<open>add_rule\<close> is an argument. \<open>World_Access\<close> says when a shuffled moon is reached.
  \<^item> \<open>Data_Checks\<close>: \<open>DataValidation.py\<close>, the checks on the tables before generation and before the fill.
    \<open>Data_Safety\<close> shows what they are worth: tables that pass build a world, their ids are inverse, and the
    values the locations ask for are there.
  \<^item> \<open>Moon_Logic\<close>: \<open>scripts/compile_moon_logic.py\<close> (beside \<open>apworld\<close> under \<open>src\<close>), which writes the
    requirements of \<open>locations.json\<close>. \<open>Moon_Meaning\<close> gives them their meaning for the evaluator of \<open>Rules.py\<close>.
  \<^item> \<open>Pack_Rules\<close>, \<open>Pack_Locations\<close>: \<open>scripts/build_poptracker_pack.py\<close>, which turns the same data into a tracker
    pack. \<open>Pack_Meaning\<close> shows when its rules agree with \<open>Rules.py\<close>, \<open>Pack_Sections\<close> what a region and a
    section show, and that ids and pruned locations are those of the world.
  \<^item> \<open>Game_Text\<close>, \<open>Dump_Keys\<close>: \<open>scripts/extract_shine_map.py\<close>, the reader of the game's message files and the keys of
    a dump. \<open>Game_Messages\<close>, \<open>Game_Files\<close> and \<open>Dump_Safety\<close> show what the reader recovers and that the trimmed copy
    of a key file holds the same keys. \<open>Map_Extract\<close> is the rest of that script, from the game's documents (its library
    \<open>oead\<close> is an argument) to \<open>shine_map.json\<close>, \<open>capture_map.json\<close> and the scenario table; \<open>Map_Meaning\<close> shows
    what a client that loads these maps resolves.
  \<^item> \<open>Talkatoo_Order\<close>: \<open>talkatoo_order.py\<close>. Its locale \<open>growing_oracle\<close> states what the greedy needs of
    Archipelago's collection state; \<open>Rule_Oracle\<close> interprets it on the list requirements of \<open>Rules.py\<close>.

  \<^bold>\<open>The wire\<close>
  \<^item> \<open>Text_Utf8\<close>, \<open>Wire_Json\<close>: strings as UTF-8 bytes, and the part of \<open>json\<close> the client uses, with
    the inverse of \<open>dumps\<close> and \<open>loads\<close>.
  \<^item> \<open>Protocol\<close>: \<open>client/protocol.py\<close>, every message with its wire form, the encoder and the line reader.
    \<open>Wire_Limits\<close> bounds the lines against the 8 KiB cap.

  \<^bold>\<open>The client\<close>
  \<^item> \<open>Bridge_State\<close>: \<open>client/state.py\<close>, every method of \<open>BridgeState\<close>, with its invariant.
  \<^item> \<open>Datapackage\<close>, \<open>Display\<close>, \<open>Maps\<close>, \<open>Scouting\<close>: \<open>client/datapackage.py\<close>, \<open>client/display.py\<close> and
    \<open>client/abilities.py\<close>, \<open>client/maps.py\<close> with \<open>compile_stage_remaps\<close> of \<open>entrance_logic.py\<close>,
    \<open>client/scout_cache.py\<close> with the palettes of \<open>client/config.py\<close> and \<open>client/shop_labels.py\<close>.
  \<^item> \<open>Switch_Server\<close>, \<open>Switch_Dispatch\<close>: \<open>client/switch_server.py\<close>, connections and slots, then messages,
    snapshots and the connection loop. \<open>Switch_Safety\<close>, \<open>Switch_Replay\<close>, \<open>Switch_Owner\<close> and
    \<open>Switch_Slots\<close> hold their invariants, the resynchronisation of a Switch and the slot's corner cases.
  \<^item> \<open>Client_Context\<close>, \<open>Client_Packages\<close>: \<open>client/context.py\<close> and the callbacks of \<open>client/main.py\<close>.
    \<open>Client_Safety\<close>, \<open>Client_Theorems\<close>, \<open>Client_Gate\<close> and \<open>Client_Receive\<close> state what holds along a run of
    the client, of the confirmation gate and of the item mirror.

  \<^bold>\<open>Conventions.\<close> Strings are lists of bytes holding UTF-8. A dict is an association list in insertion
  order. An exception is a value of \<open>exn\<close>; an action takes a state and returns a state and the exception
  raised, if any, so effects before a raise are kept. A socket is a writer with the messages it was
  sent. Each method of a locked class is one step. Python's random module is an arbitrary sequence of
  draws. Archipelago itself is a parameter or an environment step.

  \<^bold>\<open>Fuel and bounds.\<close> No definition takes fuel: loops are structural or have a measure on the rest of
  the input, and the walk of the gates has the source's own step count. Integers are unbounded as in
  Python, except the length caps the wire imposes.

  \<^bold>\<open>Not modelled.\<close> The Kivy window, console commands, UDP discovery and log set-up; the set-up wizard and
  the other maintainer scripts, which drive subprocesses and game files; the option classes and the launcher
  entries of the apworld; timestamps and floats other than by their text; the C++ of the Switch.
\<close>

end
